(* ===== verification/Prelude.thy ===== *)
theory Prelude
  imports Complex_Main "HOL-Library.Word" "HOL-Library.Monad_Syntax"
begin

text \<open>
  What every component of the development shares: the model's base types, checked decimal
  arithmetic, fallible results, the list walks the code performs through iterator adapters,
  and the interface of a component that is driven by a stream of events.

  \<^bold>\<open>Amounts.\<close> The code's \<open>Amount\<close> is \<open>rust_decimal::Decimal\<close>, whose sources are not part of
  the repository. A value is modelled by the rational number it denotes; the arithmetic the
  code performs through \<open>safe!\<close> (\<open>checked_add\<close>, \<open>checked_sub\<close>, \<open>checked_mul\<close>,
  \<open>checked_div\<close>) is the parameter \<open>dec_ops\<close> of every definition that uses it. Comparisons,
  negation, minimum and maximum are exact on decimals and are those of the rationals. The
  documented contract the code relies on (a successful checked sum or difference is the sum
  or difference) is \<open>dec_exact\<close>, a hypothesis of the theorems that need it; \<open>dec_upto m\<close> is
  a concrete provider that overflows beyond a magnitude \<open>m\<close>, used in the witnesses.
\<close>

section \<open>Base types\<close>

type_synonym amount = rat
type_synonym timestamp = int
type_synonym duration = int
type_synonym symbol = string
type_synonym order_id = string
type_synonym batch_order_id = string
type_synonym client_order_id = string
type_synonym payment_id = string
type_synonym lot_id = string
type_synonym session_id = string
type_synonym u32 = "32 word"
type_synonym u64 = "64 word"
type_synonym u256 = "256 word"
type_synonym address = "160 word"

section \<open>Collections of hints\<close>

named_theorems result_simps \<open>unfolding of fallible computations\<close>
named_theorems evals \<open>definitions a concrete run unfolds\<close>
named_theorems sum_list_hints \<open>totals over lists of records\<close>

section \<open>Fallible results\<close>

text \<open>\<open>eyre::Result\<close>: \<open>Inl\<close> carries the report's message, \<open>Inr\<close> the value.\<close>

type_synonym report = string
type_synonym 'a result = "report + 'a"

definition rbind :: "'a result \<Rightarrow> ('a \<Rightarrow> 'b result) \<Rightarrow> 'b result" where
  "rbind r f = (case r of Inl e \<Rightarrow> Inl e | Inr x \<Rightarrow> f x)"

definition ok_or :: "'a option \<Rightarrow> report \<Rightarrow> 'a result" where
  "ok_or x e = (case x of None \<Rightarrow> Inl e | Some y \<Rightarrow> Inr y)"

lemma rbind_simps [simp]:
  "rbind (Inl e) f = Inl e"
  "rbind (Inr x) f = f x"
  by (simp_all add: rbind_def)

lemma rbind_eq_Inr [result_simps]:
  "rbind r f = Inr y \<longleftrightarrow> (\<exists>x. r = Inr x \<and> f x = Inr y)"
  by (cases r) auto

lemma rbind_eq_Inl [result_simps]:
  "rbind r f = Inl e \<longleftrightarrow> r = Inl e \<or> (\<exists>x. r = Inr x \<and> f x = Inl e)"
  by (cases r) auto

lemma ok_or_simps [simp]:
  "ok_or None e = Inl e"
  "ok_or (Some x) e = Inr x"
  by (simp_all add: ok_or_def)

lemma ok_or_eq_Inr [result_simps]: "ok_or x e = Inr y \<longleftrightarrow> x = Some y"
  by (cases x) auto

lemma ok_or_eq_Inl [result_simps]: "ok_or x e = Inl e' \<longleftrightarrow> x = None \<and> e' = e"
  by (cases x) auto

text \<open>One assignment after another to a state, up to the first computation that fails.\<close>

definition attempt :: "'s \<Rightarrow> 'b option \<Rightarrow> ('b \<Rightarrow> 's \<times> 'a result) \<Rightarrow> 's \<times> 'a result" where
  "attempt s x k = (case x of None \<Rightarrow> (s, Inl ''Math Problem'') | Some y \<Rightarrow> k y)"

text \<open>Code that can also panic: an index out of bounds, \<open>unwrap\<close> on nothing, \<open>todo!\<close>.\<close>

datatype 'a outcome = Panic | Returns "'a result"

fun obind :: "'a outcome \<Rightarrow> ('a \<Rightarrow> 'b outcome) \<Rightarrow> 'b outcome" where
  "obind Panic f = Panic"
| "obind (Returns (Inl e)) f = Returns (Inl e)"
| "obind (Returns (Inr x)) f = f x"

section \<open>Checked decimal arithmetic\<close>

record dec_ops =
  dec_add :: "amount \<Rightarrow> amount \<Rightarrow> amount option"
  dec_sub :: "amount \<Rightarrow> amount \<Rightarrow> amount option"
  dec_mul :: "amount \<Rightarrow> amount \<Rightarrow> amount option"
  dec_div :: "amount \<Rightarrow> amount \<Rightarrow> amount option"

text \<open>The contract of \<open>checked_add\<close> and \<open>checked_sub\<close>: \<open>None\<close> on overflow, else the exact value.\<close>

definition dec_exact :: "dec_ops \<Rightarrow> bool" where
  "dec_exact D \<longleftrightarrow>
     (\<forall>a b c. dec_add D a b = Some c \<longrightarrow> c = a + b) \<and>
     (\<forall>a b c. dec_sub D a b = Some c \<longrightarrow> c = a - b)"

lemma dec_exact_add: "dec_exact D \<Longrightarrow> dec_add D a b = Some c \<Longrightarrow> c = a + b"
  by (simp add: dec_exact_def)

lemma dec_exact_sub: "dec_exact D \<Longrightarrow> dec_sub D a b = Some c \<Longrightarrow> c = a - b"
  by (simp add: dec_exact_def)

text \<open>The same facts led by the computation, as destruction rules.\<close>

lemmas dec_add_exact = dec_exact_add [rotated]
lemmas dec_sub_exact = dec_exact_sub [rotated]

text \<open>A provider of the contract that overflows beyond a magnitude \<open>m\<close>.\<close>

definition fits :: "amount \<Rightarrow> amount \<Rightarrow> amount option" where
  "fits m x = (if \<bar>x\<bar> \<le> m then Some x else None)"

definition dec_upto :: "amount \<Rightarrow> dec_ops" where
  "dec_upto m = \<lparr>
     dec_add = (\<lambda>a b. fits m (a + b)),
     dec_sub = (\<lambda>a b. fits m (a - b)),
     dec_mul = (\<lambda>a b. fits m (a * b)),
     dec_div = (\<lambda>a b. if b = 0 then None else fits m (a / b)) \<rparr>"

lemma dec_upto_sel [simp]:
  "dec_add (dec_upto m) a b = fits m (a + b)"
  "dec_sub (dec_upto m) a b = fits m (a - b)"
  "dec_mul (dec_upto m) a b = fits m (a * b)"
  "dec_div (dec_upto m) a b = (if b = 0 then None else fits m (a / b))"
  by (simp_all add: dec_upto_def)

lemma fits_Some [simp]: "fits m x = Some y \<longleftrightarrow> y = x \<and> \<bar>x\<bar> \<le> m"
  by (auto simp: fits_def)

lemma fits_None [simp]: "fits m x = None \<longleftrightarrow> m < \<bar>x\<bar>"
  by (auto simp: fits_def)

declare fits_def [evals] Let_def [evals]

lemma dec_exact_upto [simp, intro]: "dec_exact (dec_upto m)"
  by (simp add: dec_exact_def)

section \<open>Machine-sized counters\<close>

text \<open>
  \<open>usize\<close> on the 64-bit targets the service is built for: addition wraps in the release
  profile, which the workspace does not override.
\<close>

definition usize_add :: "nat \<Rightarrow> nat \<Rightarrow> nat" where
  "usize_add a b = (a + b) mod 2 ^ 64"

definition usize_sum :: "nat list \<Rightarrow> nat" where
  "usize_sum xs = foldl usize_add 0 xs"

lemma usize_sum_acc: "foldl usize_add a xs mod 2 ^ 64 = (a + sum_list xs) mod 2 ^ 64"
  by (induction xs arbitrary: a) (simp_all add: usize_add_def mod_add_left_eq add.assoc)

lemma usize_sum_lt: "a < 2 ^ 64 \<Longrightarrow> foldl usize_add a xs < 2 ^ 64"
  by (induction xs arbitrary: a) (simp_all add: usize_add_def)

lemma usize_sum_mod: "usize_sum xs = sum_list xs mod 2 ^ 64"
  using usize_sum_acc [of 0 xs] usize_sum_lt [of 0 xs] by (simp add: usize_sum_def)

lemma usize_sum_exact: "sum_list xs < 2 ^ 64 \<Longrightarrow> usize_sum xs = sum_list xs"
  by (simp add: usize_sum_mod)

section \<open>Iterator walks\<close>

text \<open>\<open>Itertools::fold_while\<close>: the walk stops at the first \<open>Done\<close>.\<close>

datatype 'a walk = Continue (fw_inner: 'a) | Done (fw_inner: 'a)

fun fold_while :: "('b \<Rightarrow> 'a \<Rightarrow> 'b walk) \<Rightarrow> 'b \<Rightarrow> 'a list \<Rightarrow> 'b walk" where
  "fold_while f acc [] = Continue acc"
| "fold_while f acc (x # xs) =
     (case f acc x of Continue r \<Rightarrow> fold_while f r xs | Done r \<Rightarrow> Done r)"

fun is_done :: "'a walk \<Rightarrow> bool" where
  "is_done (Done _) = True"
| "is_done (Continue _) = False"

text \<open>\<open>find_position\<close> followed by a removal at that position.\<close>

fun remove_first :: "('a \<Rightarrow> bool) \<Rightarrow> 'a list \<Rightarrow> ('a \<times> 'a list) option" where
  "remove_first P [] = None"
| "remove_first P (x # xs) =
     (if P x then Some (x, xs)
      else map_option (\<lambda>(y, ys). (y, x # ys)) (remove_first P xs))"

lemma remove_first_None: "remove_first P xs = None \<longleftrightarrow> (\<forall>x\<in>set xs. \<not> P x)"
  by (induction xs) auto

lemma remove_first_Some:
  "remove_first P xs = Some (y, ys) \<Longrightarrow>
     \<exists>us vs. xs = us @ y # vs \<and> ys = us @ vs \<and> P y \<and> (\<forall>u\<in>set us. \<not> P u)"
proof (induction xs arbitrary: ys)
  case Nil
  then show ?case by simp
next
  case (Cons x xs)
  show ?case
  proof (cases "P x")
    case True
    with Cons.prems show ?thesis by (intro exI [of _ "[]"] exI [of _ xs]) auto
  next
    case False
    with Cons.prems obtain zs where zs: "remove_first P xs = Some (y, zs)" "ys = x # zs"
      by auto
    from Cons.IH [OF zs(1)] obtain us vs
      where "xs = us @ y # vs" "zs = us @ vs" "P y" "\<forall>u\<in>set us. \<not> P u" by blast
    with zs(2) False show ?thesis by (intro exI [of _ "x # us"] exI [of _ vs]) auto
  qed
qed

lemma in_set_tl: "x \<in> set (tl xs) \<Longrightarrow> x \<in> set xs"
  by (cases xs) auto

lemma map_list_update_same:
  "f x = f (xs ! i) \<Longrightarrow> map f (xs[i := x]) = map f xs"
  by (cases "i < length xs") (simp_all add: map_update list_update_beyond list_update_same_conv)

section \<open>Totals\<close>

abbreviation total :: "('a \<Rightarrow> 'b::comm_monoid_add) \<Rightarrow> 'a list \<Rightarrow> 'b" where
  "total f xs \<equiv> sum_list (map f xs)"

lemma total_nonneg [sum_list_hints]:
  "(\<And>x. x \<in> set xs \<Longrightarrow> 0 \<le> f x) \<Longrightarrow> (0::amount) \<le> total f xs"
  by (induction xs) auto

lemma total_update:
  "i < length xs \<Longrightarrow> total f (xs[i := x]) = total f xs + (f x - f (xs ! i) :: amount)"
proof (induction xs arbitrary: i)
  case (Cons y ys)
  then show ?case by (cases i) auto
qed simp

lemma total_filter_le [sum_list_hints]:
  "(\<And>x. x \<in> set xs \<Longrightarrow> P x \<Longrightarrow> Q x) \<Longrightarrow>
     total f (filter P xs) \<le> (total f (filter Q xs) :: nat)"
  by (induction xs) (auto simp: trans_le_add2)

section \<open>Association lists\<close>

text \<open>
  A hash map whose iteration order the code can see is an association list with each key once;
  \<open>insert\<close> replaces the value in place or adds the key at the end.
\<close>

fun put_assoc :: "'k \<Rightarrow> 'v \<Rightarrow> ('k \<times> 'v) list \<Rightarrow> ('k \<times> 'v) list" where
  "put_assoc k v [] = [(k, v)]"
| "put_assoc k v ((k', v') # m) = (if k' = k then (k, v) # m else (k', v') # put_assoc k v m)"

fun total_vals :: "('v \<Rightarrow> amount) \<Rightarrow> ('k \<times> 'v) list \<Rightarrow> amount" where
  "total_vals f [] = 0"
| "total_vals f ((k, v) # m) = f v + total_vals f m"

lemma total_put_assoc:
  "total_vals f (put_assoc k v m) =
     total_vals f m + (f v - (case map_of m k of Some old \<Rightarrow> f old | None \<Rightarrow> (0::amount)))"
  by (induction m) auto

lemma put_assoc_keys: "fst ` set (put_assoc k v m) = insert k (fst ` set m)"
proof (induction m)
  case (Cons x m)
  then show ?case by (cases x) auto
qed simp

lemma put_assoc_distinct: "distinct (map fst m) \<Longrightarrow> distinct (map fst (put_assoc k v m))"
proof (induction m)
  case (Cons x m)
  then show ?case by (cases x) (use put_assoc_keys [of k v m] in auto)
qed simp

lemma map_of_put_assoc: "map_of (put_assoc k v m) = (map_of m)(k \<mapsto> v)"
  by (induction m) auto

lemma set_put_assoc: "(k', v') \<in> set (put_assoc k v m) \<Longrightarrow> (k', v') = (k, v) \<or> (k', v') \<in> set m"
  by (induction m) (auto split: if_splits)

lemma total_removed_key:
  "distinct (map fst m) \<Longrightarrow> map_of m k = Some v \<Longrightarrow>
     total_vals f (filter (\<lambda>(k', _). k' \<noteq> k) m) + f v = total_vals f m"
proof (induction m)
  case (Cons x m)
  obtain k' v' where x: "x = (k', v')" by fastforce
  show ?case
  proof (cases "k' = k")
    case True
    with Cons.prems x have "k \<notin> fst ` set m" by auto
    then have "filter (\<lambda>(k', _). k' \<noteq> k) m = m" by (force simp: filter_id_conv)
    with Cons.prems x True show ?thesis by simp
  next
    case False
    with Cons x show ?thesis by simp
  qed
qed simp

section \<open>Event-driven components\<close>

text \<open>
  A component reacts to a stream of events. \<open>run\<close> feeds it a list of them; \<open>admits\<close> says
  that every event met a side condition in the state that received it. The interface
  \<open>reactive\<close> is what a client of such a component relies on: an invariant that each event
  keeps. Its one lemma lifts the law to whole runs and is proved once for all components.
\<close>

definition run :: "('s \<Rightarrow> 'e \<Rightarrow> 's) \<Rightarrow> 's \<Rightarrow> 'e list \<Rightarrow> 's" where
  "run step s es = foldl step s es"

fun admits :: "('s \<Rightarrow> 'e \<Rightarrow> bool) \<Rightarrow> ('s \<Rightarrow> 'e \<Rightarrow> 's) \<Rightarrow> 's \<Rightarrow> 'e list \<Rightarrow> bool" where
  "admits ok step s [] = True"
| "admits ok step s (e # es) = (ok s e \<and> admits ok step (step s e) es)"

lemma run_simps [simp]:
  "run step s [] = s"
  "run step s (e # es) = run step (step s e) es"
  by (simp_all add: run_def)

lemma admits_True [simp]: "admits (\<lambda>_ _. True) step s es"
  by (induction es arbitrary: s) auto

lemma admits_const: "P \<Longrightarrow> admits (\<lambda>_ _. P) step s es"
  by (induction es arbitrary: s) auto

lemma admits_conj: "P \<Longrightarrow> admits ok step s es \<Longrightarrow> admits (\<lambda>s e. P \<and> ok s e) step s es"
  by (induction es arbitrary: s) auto

locale reactive =
  fixes step :: "'s \<Rightarrow> 'e \<Rightarrow> 's"
    and ok :: "'s \<Rightarrow> 'e \<Rightarrow> bool"
    and inv :: "'s \<Rightarrow> bool"
  assumes step_inv: "inv s \<Longrightarrow> ok s e \<Longrightarrow> inv (step s e)"
begin

lemma run_inv: "inv s \<Longrightarrow> admits ok step s es \<Longrightarrow> inv (run step s es)"
  by (induction es arbitrary: s) (auto intro: step_inv)

end

end
