(* ===== verification/Limiter.thy ===== *)
theory Limiter
  imports Prelude
begin

text \<open>
  Sliding-window rate limiting, \<open>libs/symm-core/src/core/limit.rs\<close>: the deque of weighted
  events (\<open>LimitWeights\<close>, most recent event first), the single limiter and the
  multi-limiter built on it. The interface \<open>window_limiter\<close> states what both limiters promise;
  its lemma shows that no sliding window ever admits more than its limit.
\<close>

section \<open>LimitWeights\<close>

record limit_weight =
  weight :: nat
  timestamp :: timestamp

type_synonym limit_weights = "limit_weight list"

definition weights_new :: limit_weights where
  "weights_new = []"

definition current_weight :: "limit_weights \<Rightarrow> duration \<Rightarrow> timestamp \<Rightarrow> nat" where
  "current_weight ws period now =
     usize_sum (map weight (takeWhile (\<lambda>x. now - timestamp x < period) ws))"

definition weights_waiting_period ::
  "limit_weights \<Rightarrow> nat \<Rightarrow> duration \<Rightarrow> timestamp \<Rightarrow> duration" where
  "weights_waiting_period ws release_weight period now =
     (let boundary_time = now - period;
          window = takeWhile (\<lambda>x. boundary_time < timestamp x) ws;
          outcome = fold_while
            (\<lambda>(t, s) w. if s < release_weight then Continue (timestamp w, usize_add s (weight w))
                        else Done (t, s))
            (now, 0) (rev window)
      in case outcome of
           Done (t, _) \<Rightarrow> t - boundary_time
         | Continue (t, _) \<Rightarrow> period - (now - t))"

definition put_weight :: "limit_weights \<Rightarrow> nat \<Rightarrow> timestamp \<Rightarrow> limit_weights" where
  "put_weight ws w now = \<lparr>weight = w, timestamp = now\<rparr> # ws"

text \<open>The first event older than the period, and everything behind it, is drained.\<close>

definition purge :: "limit_weights \<Rightarrow> duration \<Rightarrow> timestamp \<Rightarrow> limit_weights" where
  "purge ws period now = takeWhile (\<lambda>x. \<not> period < now - timestamp x) ws"

section \<open>Limiter\<close>

record limiter_config =
  limit :: nat
  period :: duration

record limiter =
  weights :: limit_weights
  config :: limiter_config

definition limiter_new :: "nat \<Rightarrow> duration \<Rightarrow> limiter" where
  "limiter_new l p = \<lparr>weights = weights_new, config = \<lparr>limit = l, period = p\<rparr>\<rparr>"

definition limiter_refit :: "limiter \<Rightarrow> limiter_config \<Rightarrow> nat \<Rightarrow> timestamp \<Rightarrow> limiter" where
  "limiter_refit lm cfg count now =
     (let current = current_weight (weights lm) (period cfg) now;
          ws = (if current < count then put_weight (weights lm) (count - current) now
                else weights lm)
      in lm\<lparr>weights := ws, config := cfg\<rparr>)"

definition limiter_try_consume :: "limiter \<Rightarrow> nat \<Rightarrow> timestamp \<Rightarrow> limiter \<times> bool" where
  "limiter_try_consume lm w now =
     (if usize_add (current_weight (weights lm) (period (config lm)) now) w \<le> limit (config lm)
      then (lm\<lparr>weights := put_weight (weights lm) w now\<rparr>, True)
      else (lm\<lparr>weights := purge (weights lm) (period (config lm)) now\<rparr>, False))"

definition limiter_waiting_period :: "limiter \<Rightarrow> nat \<Rightarrow> timestamp \<Rightarrow> duration" where
  "limiter_waiting_period lm release_weight now =
     weights_waiting_period (weights lm) release_weight (period (config lm)) now"

definition limiter_waiting_period_half_limit :: "limiter \<Rightarrow> timestamp \<Rightarrow> duration" where
  "limiter_waiting_period_half_limit lm now =
     weights_waiting_period (weights lm) (limit (config lm) div 2) (period (config lm)) now"

section \<open>MultiLimiter\<close>

record multi_limiter =
  ml_weights :: limit_weights
  ml_configs :: "limiter_config list"

definition multi_new :: "limiter_config list \<Rightarrow> multi_limiter" where
  "multi_new cfgs = \<lparr>ml_weights = weights_new, ml_configs = cfgs\<rparr>"

fun multi_refit_loop ::
  "multi_limiter \<Rightarrow> (limiter_config \<times> nat) list \<Rightarrow> timestamp \<Rightarrow> multi_limiter" where
  "multi_refit_loop ml [] now = ml"
| "multi_refit_loop ml ((cfg, count) # values) now =
     (let current = current_weight (ml_weights ml) (period cfg) now;
          ws = (if current < count then put_weight (ml_weights ml) (count - current) now
                else ml_weights ml)
      in multi_refit_loop (ml\<lparr>ml_weights := ws, ml_configs := ml_configs ml @ [cfg]\<rparr>) values now)"

definition multi_refit ::
  "multi_limiter \<Rightarrow> (limiter_config \<times> nat) list \<Rightarrow> timestamp \<Rightarrow> multi_limiter" where
  "multi_refit ml values now = multi_refit_loop (ml\<lparr>ml_configs := []\<rparr>) values now"

definition check_limit :: "multi_limiter \<Rightarrow> nat \<Rightarrow> limiter_config \<Rightarrow> timestamp \<Rightarrow> bool" where
  "check_limit ml w cfg now \<longleftrightarrow>
     usize_add (current_weight (ml_weights ml) (period cfg) now) w \<le> limit cfg"

definition multi_try_consume :: "multi_limiter \<Rightarrow> nat \<Rightarrow> timestamp \<Rightarrow> multi_limiter \<times> bool" where
  "multi_try_consume ml w now =
     (if list_all (\<lambda>cfg. check_limit ml w cfg now) (ml_configs ml)
      then (ml\<lparr>ml_weights := put_weight (ml_weights ml) w now\<rparr>, True)
      else case map period (ml_configs ml) of
             [] \<Rightarrow> (ml, False)
           | p # ps \<Rightarrow> (ml\<lparr>ml_weights := purge (ml_weights ml) (foldl max p ps) now\<rparr>, False))"

definition multi_waits :: "multi_limiter \<Rightarrow> nat \<Rightarrow> timestamp \<Rightarrow> duration list" where
  "multi_waits ml release_weight now =
     map (\<lambda>cfg. weights_waiting_period (ml_weights ml) release_weight (period cfg) now)
       (filter (\<lambda>cfg. \<not> check_limit ml release_weight cfg now) (ml_configs ml))"

definition multi_waiting_period :: "multi_limiter \<Rightarrow> nat \<Rightarrow> timestamp \<Rightarrow> duration" where
  "multi_waiting_period ml release_weight now =
     (case multi_waits ml release_weight now of [] \<Rightarrow> 0 | d # ds \<Rightarrow> foldl max d ds)"

definition multi_waiting_period_half_smallest_limit :: "multi_limiter \<Rightarrow> timestamp \<Rightarrow> duration" where
  "multi_waiting_period_half_smallest_limit ml now =
     (let smallest = (case map limit (ml_configs ml) of [] \<Rightarrow> 0 | l # ls \<Rightarrow> foldl min l ls);
          release_weight = max (smallest div 2) 1
      in multi_waiting_period ml release_weight now)"

section \<open>The sliding window\<close>

text \<open>
  \<open>granted_in h d now\<close> is the weight a history \<open>h\<close> of granted requests puts into the window of
  length \<open>d\<close> that ends at \<open>now\<close>. \<open>grant_run\<close> feeds a limiter a list of requests and collects the
  granted ones, most recent first.
\<close>

definition in_window :: "duration \<Rightarrow> timestamp \<Rightarrow> limit_weight \<Rightarrow> bool" where
  "in_window d now x \<longleftrightarrow> now - d < timestamp x \<and> timestamp x \<le> now"

definition granted_in :: "limit_weights \<Rightarrow> duration \<Rightarrow> timestamp \<Rightarrow> nat" where
  "granted_in h d now = total weight (filter (in_window d now) h)"

fun grant_run ::
  "('s \<Rightarrow> nat \<Rightarrow> timestamp \<Rightarrow> 's \<times> bool) \<Rightarrow> 's \<Rightarrow> limit_weights \<Rightarrow> (nat \<times> timestamp) list \<Rightarrow>
     's \<times> limit_weights" where
  "grant_run try s h [] = (s, h)"
| "grant_run try s h ((w, now) # rs) =
     (let (s', ok) = try s w now
      in grant_run try s' (if ok then \<lparr>weight = w, timestamp = now\<rparr> # h else h) rs)"

definition newest_first :: "limit_weights \<Rightarrow> bool" where
  "newest_first h \<longleftrightarrow> sorted_wrt (\<lambda>x y. timestamp y \<le> timestamp x) h"

lemma newest_first_Cons [simp]:
  "newest_first (x # h) \<longleftrightarrow> (\<forall>y\<in>set h. timestamp y \<le> timestamp x) \<and> newest_first h"
  by (simp add: newest_first_def)

lemma newest_first_append:
  "newest_first (xs @ ys) \<longleftrightarrow> newest_first xs \<and> newest_first ys \<and>
     (\<forall>x\<in>set xs. \<forall>y\<in>set ys. timestamp y \<le> timestamp x)"
  by (simp add: newest_first_def sorted_wrt_append)

lemma newest_first_Nil [simp]: "newest_first []"
  by (simp add: newest_first_def)

lemma takeWhile_recent:
  "newest_first ws \<Longrightarrow> takeWhile (\<lambda>x. b < timestamp x) ws = filter (\<lambda>x. b < timestamp x) ws"
proof (induction ws)
  case Nil
  then show ?case by simp
next
  case (Cons x ws)
  show ?case
  proof (cases "b < timestamp x")
    case True
    with Cons show ?thesis by simp
  next
    case False
    with Cons.prems have "filter (\<lambda>x. b < timestamp x) ws = []"
      by (force simp: filter_empty_conv)
    with False show ?thesis by simp
  qed
qed

lemma purge_split:
  assumes "newest_first ws"
  shows "\<exists>old. ws = purge ws d now @ old \<and> (\<forall>x\<in>set old. d < now - timestamp x)"
proof (intro exI conjI ballI)
  let ?P = "\<lambda>x. \<not> d < now - timestamp x"
  show "ws = purge ws d now @ dropWhile ?P ws" by (simp add: purge_def)
  fix x assume x: "x \<in> set (dropWhile ?P ws)"
  then obtain y ys where ys: "dropWhile ?P ws = y # ys" by (cases "dropWhile ?P ws") auto
  then have y: "d < now - timestamp y" by (metis hd_dropWhile list.distinct(1) list.sel(1))
  have "newest_first (takeWhile ?P ws @ y # ys)"
    using assms ys by (metis takeWhile_dropWhile_id)
  then have "x = y \<or> timestamp x \<le> timestamp y"
    using x ys by (auto simp: newest_first_append)
  with y show "d < now - timestamp x" by auto
qed

lemma current_weight_granted:
  assumes "newest_first (ev @ old)" and "\<forall>x\<in>set (ev @ old). timestamp x \<le> now"
    and "\<forall>x\<in>set old. d \<le> now - timestamp x"
  shows "current_weight ev d now = granted_in (ev @ old) d now mod 2 ^ 64"
proof -
  have "takeWhile (\<lambda>x. now - timestamp x < d) ev = filter (\<lambda>x. now - d < timestamp x) ev"
    using assms(1) takeWhile_recent [of ev "now - d"]
    by (simp add: newest_first_append algebra_simps)
  also have "\<dots> = filter (in_window d now) ev"
    using assms(2) by (auto simp: in_window_def intro!: filter_cong)
  also have "\<dots> = filter (in_window d now) (ev @ old)"
    using assms(3) by (force simp: in_window_def filter_empty_conv)
  finally show ?thesis
    by (simp add: current_weight_def usize_sum_mod granted_in_def)
qed

lemma granted_in_mono_start:
  "now \<le> now' \<Longrightarrow> \<forall>x\<in>set h. timestamp x \<le> now \<Longrightarrow> granted_in h d now' \<le> granted_in h d now"
  unfolding granted_in_def by (rule total_filter_le) (auto simp: in_window_def)

lemma granted_in_Cons:
  "granted_in (x # h) d now = (if in_window d now x then weight x else 0) + granted_in h d now"
  by (simp add: granted_in_def)

text \<open>
  What a limiter promises: it grants only if no configured window would exceed its limit, and
  records the grant; when it denies, it forgets only events older than every configured period.
\<close>

locale window_limiter =
  fixes try_consume :: "'s \<Rightarrow> nat \<Rightarrow> timestamp \<Rightarrow> 's \<times> bool"
    and events :: "'s \<Rightarrow> limit_weights"
    and configs :: "'s \<Rightarrow> limiter_config list"
  assumes granted: "try_consume s w now = (s', True) \<Longrightarrow>
      events s' = put_weight (events s) w now \<and> configs s' = configs s \<and>
      (\<forall>c\<in>set (configs s). usize_add (current_weight (events s) (period c) now) w \<le> limit c)"
    and denied: "try_consume s w now = (s', False) \<Longrightarrow>
      configs s' = configs s \<and>
      (\<exists>p. (\<forall>c\<in>set (configs s). period c \<le> p) \<and> events s' = purge (events s) p now)"
begin

definition tracks :: "'s \<Rightarrow> limit_weights \<Rightarrow> timestamp \<Rightarrow> bool" where
  "tracks s h now \<longleftrightarrow> newest_first h \<and> (\<forall>x\<in>set h. timestamp x \<le> now) \<and>
     (\<exists>old. h = events s @ old \<and>
        (\<forall>x\<in>set old. \<forall>c\<in>set (configs s). period c \<le> now - timestamp x))"

definition bounded :: "'s \<Rightarrow> limit_weights \<Rightarrow> bool" where
  "bounded s h \<longleftrightarrow> (\<forall>c\<in>set (configs s). \<forall>fin. granted_in h (period c) fin \<le> limit c)"

lemma tracks_later: "tracks s h now \<Longrightarrow> now \<le> now' \<Longrightarrow> tracks s h now'"
  by (fastforce simp: tracks_def)

lemma tracks_denied:
  assumes "tracks s h now" and "try_consume s w now = (s', False)"
  shows "tracks s' h now \<and> configs s' = configs s"
proof -
  from denied [OF assms(2)] obtain p where
    p: "\<forall>c\<in>set (configs s). period c \<le> p" and ev: "events s' = purge (events s) p now"
    and cf: "configs s' = configs s" by blast
  from assms(1) obtain old where old: "h = events s @ old" "newest_first h"
    "\<forall>x\<in>set old. \<forall>c\<in>set (configs s). period c \<le> now - timestamp x"
    by (auto simp: tracks_def)
  then have "newest_first (events s)" by (simp add: newest_first_append)
  from purge_split [OF this, of p now] obtain gone where
    gone: "events s = events s' @ gone" "\<forall>x\<in>set gone. p < now - timestamp x"
    using ev by auto
  have "\<forall>x\<in>set (gone @ old). \<forall>c\<in>set (configs s). period c \<le> now - timestamp x"
    using gone(2) old(3) p by fastforce
  moreover have "h = events s' @ (gone @ old)" using gone(1) old(1) by simp
  ultimately show ?thesis using assms(1) cf unfolding tracks_def by metis
qed

lemma tracks_granted:
  assumes "tracks s h now" and "try_consume s w now = (s', True)"
  shows "tracks s' (\<lparr>weight = w, timestamp = now\<rparr> # h) now"
  using assms(1) granted [OF assms(2)] by (auto simp: tracks_def put_weight_def)

lemma bounded_granted:
  assumes tr: "tracks s h now" and bd: "bounded s h"
    and ok: "try_consume s w now = (s', True)"
    and room: "\<forall>c\<in>set (configs s). limit c + w < 2 ^ 64"
  shows "bounded s' (\<lparr>weight = w, timestamp = now\<rparr> # h)"
  unfolding bounded_def
proof (intro ballI allI)
  fix c and fin assume "c \<in> set (configs s')"
  then have c: "c \<in> set (configs s)" using granted [OF ok] by simp
  have here: "granted_in h (period c) now \<le> limit c" using bd c by (simp add: bounded_def)
  from tr c obtain old where "h = events s @ old" "\<forall>x\<in>set old. period c \<le> now - timestamp x"
    "newest_first h" "\<forall>x\<in>set h. timestamp x \<le> now" by (auto simp: tracks_def)
  then have "current_weight (events s) (period c) now = granted_in h (period c) now mod 2 ^ 64"
    using current_weight_granted by blast
  then have fits: "granted_in h (period c) now + w \<le> limit c"
    using granted [OF ok] c room here by (fastforce simp: usize_add_def)
  show "granted_in (\<lparr>weight = w, timestamp = now\<rparr> # h) (period c) fin \<le> limit c"
  proof (cases "now \<le> fin")
    case True
    with tr have "granted_in h (period c) fin \<le> granted_in h (period c) now"
      by (intro granted_in_mono_start) (auto simp: tracks_def)
    with fits show ?thesis by (simp add: granted_in_Cons)
  next
    case False
    then show ?thesis using bd c by (simp add: granted_in_Cons in_window_def bounded_def)
  qed
qed

lemma run_bounded:
  assumes "tracks s h now" and "bounded s h"
    and "sorted (map snd rs)" and "\<forall>r\<in>set rs. now \<le> snd r"
    and "\<forall>c\<in>set (configs s). \<forall>r\<in>set rs. limit c + fst r < 2 ^ 64"
    and "grant_run try_consume s h rs = (s', h')"
  shows "bounded s' h' \<and> configs s' = configs s"
  using assms
proof (induction rs arbitrary: s h now)
  case Nil
  then show ?case by simp
next
  case (Cons r rs)
  obtain w t where r: "r = (w, t)" by (cases r)
  obtain s1 ok where st: "try_consume s w t = (s1, ok)" by fastforce
  have tr: "tracks s h t" using Cons.prems(1,4) tracks_later r by auto
  have after: "\<forall>r\<in>set rs. t \<le> snd r" and srt: "sorted (map snd rs)"
    using Cons.prems(3) r by auto
  show ?case
  proof (cases ok)
    case True
    with st have ok: "try_consume s w t = (s1, True)" by simp
    note cf = granted [OF ok]
    have "bounded s1 (\<lparr>weight = w, timestamp = t\<rparr> # h)"
      using bounded_granted [OF tr Cons.prems(2) ok] Cons.prems(5) r by simp
    from Cons.IH [OF tracks_granted [OF tr ok] this srt after] Cons.prems(5,6) cf r True st
    show ?thesis by simp
  next
    case False
    with st have no: "try_consume s w t = (s1, False)" by simp
    note td = tracks_denied [OF tr no]
    then have "bounded s1 h" using Cons.prems(2) by (simp add: bounded_def)
    from Cons.IH [OF td [THEN conjunct1] this srt after] Cons.prems(5,6) td r False st
    show ?thesis by simp
  qed
qed

lemma window_bound:
  assumes "events s = []" and "sorted (map snd rs)"
    and "\<forall>c\<in>set (configs s). \<forall>r\<in>set rs. limit c + fst r < 2 ^ 64"
    and "grant_run try_consume s [] rs = (s', h)" and "c \<in> set (configs s)"
  shows "granted_in h (period c) fin \<le> limit c"
proof (cases rs)
  case Nil
  with assms(4) show ?thesis by (simp add: granted_in_def)
next
  case (Cons r rs')
  have "tracks s [] (snd r)" using assms(1) by (simp add: tracks_def)
  moreover have "bounded s []" by (simp add: bounded_def granted_in_def)
  moreover have "\<forall>q\<in>set rs. snd r \<le> snd q" using assms(2) Cons by auto
  ultimately have "bounded s' h \<and> configs s' = configs s"
    using run_bounded assms(2-4) by blast
  with assms(5) show ?thesis by (simp add: bounded_def)
qed

end

section \<open>Both limiters keep the promise\<close>

lemma foldl_max_start: "(p::duration) \<le> foldl max p ps"
  by (induction ps arbitrary: p) (auto intro: order_trans [OF max.cobounded1])

lemma foldl_max_mem: "q \<in> set ps \<Longrightarrow> (q::duration) \<le> foldl max p ps"
  by (induction ps arbitrary: p) (auto intro: order_trans [OF max.cobounded2 foldl_max_start])

interpretation single: window_limiter limiter_try_consume weights "\<lambda>lm. [config lm]"
  by unfold_locales (auto simp: limiter_try_consume_def split: if_splits)

lemma multi_denied:
  assumes "multi_try_consume ml w now = (ml', False)"
  shows "ml_configs ml' = ml_configs ml \<and>
    (\<exists>p. (\<forall>c\<in>set (ml_configs ml). period c \<le> p) \<and> ml_weights ml' = purge (ml_weights ml) p now)"
proof (cases "map period (ml_configs ml)")
  case Nil
  with assms show ?thesis by (auto simp: multi_try_consume_def)
next
  case (Cons p ps)
  have "\<forall>c\<in>set (ml_configs ml). period c \<in> set (p # ps)"
    using Cons by (metis image_eqI list.set_map)
  then have "\<forall>c\<in>set (ml_configs ml). period c \<le> foldl max p ps"
    by (auto intro: foldl_max_start foldl_max_mem)
  with assms Cons show ?thesis
    by (auto simp: multi_try_consume_def split: if_splits)
qed

interpretation multi: window_limiter multi_try_consume ml_weights ml_configs
proof unfold_locales
  fix ml w now ml'
  show "multi_try_consume ml w now = (ml', True) \<Longrightarrow>
      ml_weights ml' = put_weight (ml_weights ml) w now \<and> ml_configs ml' = ml_configs ml \<and>
      (\<forall>c\<in>set (ml_configs ml).
        usize_add (current_weight (ml_weights ml) (period c) now) w \<le> limit c)"
    by (auto simp: multi_try_consume_def check_limit_def list_all_iff split: if_splits list.splits)
qed (rule multi_denied)

lemmas limiter_evals =
  multi_try_consume_def multi_new_def limiter_try_consume_def limiter_new_def weights_new_def
  check_limit_def current_weight_def usize_sum_def usize_add_def put_weight_def purge_def

text \<open>
  C9: A \<open>MultiLimiter\<close> that starts empty and serves requests in time order never grants, in any
  sliding window of a configured period, wherever the window ends, more weight than that
  configuration's limit; purging on denial never forgets an event that still counts.
\<close>

theorem multi_limiter_window_bound:
  assumes "sorted (map snd rs)" and "c \<in> set cfgs"
    and "\<forall>c\<in>set cfgs. \<forall>r\<in>set rs. limit c + fst r < 2 ^ 64"
    and "grant_run multi_try_consume (multi_new cfgs) [] rs = (ml, h)"
  shows "granted_in h (period c) fin \<le> limit c"
  using multi.window_bound [of "multi_new cfgs" rs ml h c] assms
  by (simp add: multi_new_def weights_new_def)

theorem multi_limiter_window_bound_witness:
  "granted_in (snd (grant_run multi_try_consume
       (multi_new [\<lparr>limit = 5, period = 5\<rparr>, \<lparr>limit = 7, period = 20\<rparr>]) []
       [(3, 0), (4, 2), (4, 7), (1, 8)])) 5 8 \<le> 5"
proof -
  let ?cfgs = "[\<lparr>limit = 5, period = 5\<rparr>, \<lparr>limit = 7, period = 20\<rparr>]"
  let ?rs = "[(3, 0), (4, 2), (4, 7), (1, 8)]"
  have "grant_run multi_try_consume (multi_new ?cfgs) [] ?rs =
     (\<lparr>ml_weights = [\<lparr>weight = 4, timestamp = 7\<rparr>, \<lparr>weight = 3, timestamp = 0\<rparr>], ml_configs = ?cfgs\<rparr>,
      [\<lparr>weight = 4, timestamp = 7\<rparr>, \<lparr>weight = 3, timestamp = 0\<rparr>])"
    by (simp add: limiter_evals)
  then show ?thesis
    using multi_limiter_window_bound [of ?rs "\<lparr>limit = 5, period = 5\<rparr>" ?cfgs] by simp
qed

text \<open>
  The same for the single \<open>Limiter\<close>.
\<close>

theorem limiter_window_bound:
  assumes "sorted (map snd rs)" and "\<forall>r\<in>set rs. l + fst r < 2 ^ 64"
    and "grant_run limiter_try_consume (limiter_new l d) [] rs = (lm, h)"
  shows "granted_in h d fin \<le> l"
  using single.window_bound [of "limiter_new l d" rs lm h] assms
  by (simp add: limiter_new_def weights_new_def)

theorem limiter_window_bound_witness:
  "granted_in (snd (grant_run limiter_try_consume (limiter_new 5 5) []
       [(3, 0), (4, 2), (4, 7), (2, 8)])) 5 8 \<le> 5"
proof -
  have "grant_run limiter_try_consume (limiter_new 5 5) [] [(3, 0), (4, 2), (4, 7), (2, 8)] =
     (\<lparr>weights = [\<lparr>weight = 4, timestamp = 7\<rparr>], config = \<lparr>limit = 5, period = 5\<rparr>\<rparr>,
      [\<lparr>weight = 4, timestamp = 7\<rparr>, \<lparr>weight = 3, timestamp = 0\<rparr>])"
    by (simp add: limiter_evals)
  then show ?thesis
    using limiter_window_bound [of "[(3, 0), (4, 2), (4, 7), (2, 8)]" 5 5] by simp
qed

section \<open>Waiting periods\<close>

text \<open>
  The walk of \<open>waiting_period\<close> from the oldest event of the window: with the events it has
  passed so far weighing \<open>s\<close>, it stops at the first event after enough weight is passed.
\<close>

definition wait_walk :: "nat \<Rightarrow> timestamp \<times> nat \<Rightarrow> limit_weights \<Rightarrow> (timestamp \<times> nat) walk" where
  "wait_walk r acc xs = fold_while
     (\<lambda>(t, s) w. if s < r then Continue (timestamp w, usize_add s (weight w)) else Done (t, s))
     acc xs"

lemma wait_walk_spec:
  assumes "s + total weight xs < 2 ^ 64"
  shows "\<exists>ys zs. xs = ys @ zs \<and> snd (fw_inner (wait_walk r (t, s) xs)) = s + total weight ys \<and>
     fst (fw_inner (wait_walk r (t, s) xs)) = (if ys = [] then t else timestamp (last ys)) \<and>
     (zs = [] \<or> r \<le> s + total weight ys)"
  using assms
proof (induction xs arbitrary: t s)
  case Nil
  then show ?case by (simp add: wait_walk_def)
next
  case (Cons x xs)
  show ?case
  proof (cases "s < r")
    case True
    have small: "s + weight x + total weight xs < 2 ^ 64" using Cons.prems by (simp add: add.assoc)
    then have next_: "wait_walk r (t, s) (x # xs) = wait_walk r (timestamp x, s + weight x) xs"
      using True by (simp add: wait_walk_def usize_add_def)
    from Cons.IH [OF small, of "timestamp x"] obtain ys zs where
      "xs = ys @ zs"
      "snd (fw_inner (wait_walk r (timestamp x, s + weight x) xs)) = s + weight x + total weight ys"
      "fst (fw_inner (wait_walk r (timestamp x, s + weight x) xs)) =
         (if ys = [] then timestamp x else timestamp (last ys))"
      "zs = [] \<or> r \<le> s + weight x + total weight ys"
      by blast
    then show ?thesis using next_
      by (intro exI [of _ "x # ys"] exI [of _ zs]) (auto simp: add.assoc)
  next
    case False
    then show ?thesis
      by (intro exI [of _ "[]"] exI [of _ "x # xs"]) (simp add: wait_walk_def)
  qed
qed

lemma weights_waiting_period_walk:
  "weights_waiting_period ws r d now =
     fst (fw_inner (wait_walk r (now, 0) (rev (takeWhile (\<lambda>x. now - d < timestamp x) ws)))) - (now - d)"
  by (auto simp: weights_waiting_period_def wait_walk_def Let_def split: walk.splits)

lemma current_weight_filter:
  assumes "newest_first ws"
  shows "current_weight ws d now = total weight (filter (\<lambda>x. now - d < timestamp x) ws) mod 2 ^ 64"
proof -
  have "takeWhile (\<lambda>x. now - timestamp x < d) ws = filter (\<lambda>x. now - d < timestamp x) ws"
    using takeWhile_recent [OF assms, of "now - d"] by (simp add: algebra_simps)
  then show ?thesis by (simp add: current_weight_def usize_sum_mod)
qed

lemma total_weight_filter_le: "total weight (filter P ws) \<le> total weight ws"
  using total_filter_le [of ws P "\<lambda>_. True" weight] by simp

lemma current_weight_exact:
  assumes "newest_first ws" and "total weight ws < 2 ^ 64"
  shows "current_weight ws d now = total weight (filter (\<lambda>x. now - d < timestamp x) ws)"
  using current_weight_filter [OF assms(1)] assms(2)
    total_weight_filter_le [of "\<lambda>x. now - d < timestamp x" ws] by simp

lemma current_weight_later:
  assumes "newest_first ws" and "total weight ws < 2 ^ 64" and "now \<le> now'"
  shows "current_weight ws d now' \<le> current_weight ws d now"
  unfolding current_weight_exact [OF assms(1,2)] using assms(3) by (intro total_filter_le) auto

lemma total_weight_rev: "total weight (rev ws) = total weight ws"
  by (simp flip: rev_map)

text \<open>
  Waiting for the advised period drops at least the weight that was asked to be released, or
  empties the window.
\<close>

lemma weights_waiting_period_releases:
  fixes r :: nat and d :: duration
  assumes nf: "newest_first ws" and past: "\<forall>x\<in>set ws. timestamp x \<le> now"
    and small: "total weight ws < 2 ^ 64"
  defines "now' \<equiv> now + weights_waiting_period ws r d now"
  shows "current_weight ws d now' + min r (current_weight ws d now) \<le> current_weight ws d now"
    and "0 \<le> d \<Longrightarrow> now \<le> now'"
proof -
  let ?W = "filter (\<lambda>x. now - d < timestamp x) ws"
  have tw: "total weight (rev ?W) = current_weight ws d now"
    using current_weight_exact [OF nf small] by (simp add: total_weight_rev)
  have "0 + total weight (rev ?W) < 2 ^ 64"
    using tw small total_weight_filter_le [of "\<lambda>x. now - d < timestamp x" ws]
    by (simp add: total_weight_rev)
  from wait_walk_spec [OF this, of r now] obtain ys zs where
    ys: "rev ?W = ys @ zs" "zs = [] \<or> r \<le> 0 + total weight ys"
    and t: "fst (fw_inner (wait_walk r (now, 0) (rev ?W))) = (if ys = [] then now else timestamp (last ys))"
    by blast
  then have edge: "now' - d = (if ys = [] then now else timestamp (last ys))"
    using takeWhile_recent [OF nf, of "now - d"] by (simp add: now'_def weights_waiting_period_walk)
  have mem: "set ws \<supseteq> set ys" "\<forall>y\<in>set ys. now - d < timestamp y"
    using arg_cong [OF ys(1), of set] by auto
  show "0 \<le> d \<Longrightarrow> now \<le> now'"
    using edge mem(2) by (cases "ys = []") (simp, metis add_le_cancel_right diff_add_cancel last_in_set less_imp_le)
  show "current_weight ws d now' + min r (current_weight ws d now) \<le> current_weight ws d now"
  proof (cases "ys = []")
    case True
    then have "filter (\<lambda>x. now' - d < timestamp x) ws = []"
      using edge past by (auto simp: filter_empty_conv not_less)
    then show ?thesis using current_weight_exact [OF nf small, of d now'] by simp
  next
    case False
    have "newest_first ?W" using nf by (simp add: newest_first_def sorted_wrt_filter)
    moreover have "?W = rev zs @ rev ys" using ys(1) by (metis rev_append rev_rev_ident)
    ultimately have "newest_first (rev ys)" by (simp add: newest_first_append)
    moreover have "rev ys = last ys # rev (butlast ys)"
      using False by (metis append_butlast_last_id rev.simps(2) rev_rev_ident)
    ultimately have old: "\<forall>y\<in>set ys. timestamp y \<le> now' - d"
      using edge False by (metis newest_first_Cons order_refl set_ConsD set_rev)
    have "now - d < now' - d" using edge False mem(2) last_in_set [OF False] by auto
    then have "filter (\<lambda>x. now' - d < timestamp x) ws = filter (\<lambda>x. now' - d < timestamp x) ?W"
      by (auto intro!: filter_cong)
    also have "\<dots> = filter (\<lambda>x. now' - d < timestamp x) (rev zs)"
      using old \<open>?W = rev zs @ rev ys\<close> by (auto simp: filter_empty_conv not_less)
    finally have "current_weight ws d now' \<le> total weight zs"
      using current_weight_exact [OF nf small, of d now'] total_weight_filter_le [of _ "rev zs"]
      by (simp add: total_weight_rev)
    moreover have "total weight ys + total weight zs = current_weight ws d now"
      using ys(1) tw by simp
    ultimately show ?thesis using ys(2) by auto
  qed
qed

text \<open>
  After a denial, a client that waits for the period \<open>MultiLimiter::waiting_period\<close> advises
  is granted the same weight, if that weight fits every configured limit at all and nobody else
  was granted anything in between.
\<close>

theorem multi_wait_then_granted:
  assumes nf: "newest_first (ml_weights ml)" and past: "\<forall>x\<in>set (ml_weights ml). timestamp x \<le> now"
    and small: "total weight (ml_weights ml) + w < 2 ^ 64"
    and lim: "\<forall>c\<in>set (ml_configs ml). 0 \<le> period c \<and> w \<le> limit c \<and>
      current_weight (ml_weights ml) (period c) now \<le> limit c"
  shows "snd (multi_try_consume ml w (now + multi_waiting_period ml w now))"
proof -
  let ?ws = "ml_weights ml" and ?now' = "now + multi_waiting_period ml w now"
  have small': "total weight ?ws < 2 ^ 64" using small by simp
  have add: "usize_add (current_weight ?ws d t) w = current_weight ?ws d t + w" for d t
    using current_weight_exact [OF nf small', of d t]
      total_weight_filter_le [of "\<lambda>x. t - d < timestamp x" ?ws] small
    by (simp add: usize_add_def)
  have "0 \<le> q" if "q \<in> set (multi_waits ml w now)" for q
    using that weights_waiting_period_releases(2) [OF nf past small', of _ w] lim
    by (fastforce simp: multi_waits_def)
  then have waits: "0 \<le> multi_waiting_period ml w now"
    by (auto simp: multi_waiting_period_def intro: order_trans [OF _ foldl_max_start] split: list.splits)
  have "check_limit ml w c ?now'" if c: "c \<in> set (ml_configs ml)" for c
  proof (cases "check_limit ml w c now")
    case True
    moreover have "current_weight ?ws (period c) ?now' \<le> current_weight ?ws (period c) now"
      using current_weight_later [OF nf small'] waits by simp
    ultimately show ?thesis by (simp add: check_limit_def add)
  next
    case False
    let ?wait = "weights_waiting_period ?ws w (period c) now"
    have "?wait \<in> set (multi_waits ml w now)" using c False by (auto simp: multi_waits_def)
    then have "?wait \<le> multi_waiting_period ml w now"
      by (auto simp: multi_waiting_period_def intro: foldl_max_start foldl_max_mem split: list.splits)
    then have "current_weight ?ws (period c) ?now' \<le> current_weight ?ws (period c) (now + ?wait)"
      by (intro current_weight_later [OF nf small']) simp
    with weights_waiting_period_releases(1) [OF nf past small', of "period c" w] lim c
    show ?thesis by (fastforce simp: check_limit_def add)
  qed
  then show ?thesis by (simp add: multi_try_consume_def list_all_iff)
qed

theorem multi_wait_then_granted_witness:
  "\<not> snd (multi_try_consume \<lparr>ml_weights = [\<lparr>weight = 4, timestamp = 7\<rparr>, \<lparr>weight = 1, timestamp = 3\<rparr>],
       ml_configs = [\<lparr>limit = 5, period = 5\<rparr>]\<rparr> 3 7) \<and>
   snd (multi_try_consume \<lparr>ml_weights = [\<lparr>weight = 4, timestamp = 7\<rparr>, \<lparr>weight = 1, timestamp = 3\<rparr>],
       ml_configs = [\<lparr>limit = 5, period = 5\<rparr>]\<rparr> 3 12)"
proof -
  let ?ml = "\<lparr>ml_weights = [\<lparr>weight = 4, timestamp = 7\<rparr>, \<lparr>weight = 1, timestamp = 3\<rparr>],
       ml_configs = [\<lparr>limit = 5, period = 5\<rparr>]\<rparr>"
  have "multi_waiting_period ?ml 3 7 = 5"
    by (simp add: multi_waiting_period_def multi_waits_def weights_waiting_period_def limiter_evals)
  then show ?thesis using multi_wait_then_granted [of ?ml 7 3] by (simp add: limiter_evals)
qed

end
