(* ===== verification/Bits.thy ===== *)
theory Bits
  imports Prelude
begin

text \<open>
  The shared vocabulary of \<open>libs/symm-core/src/core/bits.rs\<close>: order sides and their parser,
  price kinds, the last-price entry with the prices derived from it, asset orders, batch
  orders and single orders; \<open>safe_add\<close> and its siblings are the expansion of the \<open>safe!\<close>
  macro of \<open>proc-macros/safe-math\<close>; and the suffix rule that maps a market to its base asset.
\<close>

section \<open>Sides\<close>

datatype side = Buy | Sell

fun opposite_side :: "side \<Rightarrow> side" where
  "opposite_side Buy = Sell"
| "opposite_side Sell = Buy"

lemma opposite_side_inv [simp]: "opposite_side (opposite_side s) = s"
  by (cases s) auto

lemma opposite_side_neq [simp]: "opposite_side s \<noteq> s" "s \<noteq> opposite_side s"
  by (cases s; simp)+

lemma opposite_side_eq: "opposite_side s = t \<longleftrightarrow> s \<noteq> t"
  by (cases s; cases t) auto

definition buy_names :: "string list" where
  "buy_names = [''1'', ''buy'', ''Buy'', ''BUY'', ''bid'', ''Bid'', ''BID'', ''B'', ''b'']"

definition sell_names :: "string list" where
  "sell_names = [''2'', ''sell'', ''Sell'', ''SELL'', ''S'', ''s'', ''ask'', ''Ask'', ''ASK'',
     ''A'', ''a'']"

definition side_from_str :: "string \<Rightarrow> side result" where
  "side_from_str s =
     (if s \<in> set buy_names then Inr Buy
      else if s \<in> set sell_names then Inr Sell
      else Inl ''Invalid side'')"

section \<open>The checked arithmetic of the safe macro\<close>

text \<open>
  \<open>safe!(a op b)\<close> applies \<open>DecimalExt::checked_math\<close>: on a plain decimal it is the checked
  operation, on an optional left operand it is that operation under \<open>and_then\<close>.
\<close>

definition checked_math :: "amount option \<Rightarrow> (amount \<Rightarrow> amount option) \<Rightarrow> amount option" where
  "checked_math x f = Option.bind x f"

text \<open>\<open>safe!(a += b)\<close> on an \<open>Option<Amount>\<close>: an absent value becomes the right operand; on
  overflow the left operand keeps its value and the expression is \<open>None\<close>.\<close>

definition safe_add_assign :: "dec_ops \<Rightarrow> amount option \<Rightarrow> amount \<Rightarrow> amount option" where
  "safe_add_assign D a b = (case a of Some v \<Rightarrow> dec_add D v b | None \<Rightarrow> Some b)"

lemma safe_add_assign_exact:
  "dec_exact D \<Longrightarrow> safe_add_assign D a b = Some c \<Longrightarrow> c = (case a of None \<Rightarrow> 0 | Some v \<Rightarrow> v) + b"
  by (auto simp: safe_add_assign_def dec_exact_def split: option.splits)

section \<open>Prices\<close>

datatype price_type = BestBid | BestAsk | LastTrade | MidPoint | VolumeWeighted

record last_price_entry =
  sequence_number :: u64
  best_bid_price :: "amount option"
  best_ask_price :: "amount option"
  best_bid_quantity :: amount
  best_ask_quantity :: amount
  last_trade_price :: "amount option"
  last_trade_quantity :: amount

definition mid_point :: "dec_ops \<Rightarrow> last_price_entry \<Rightarrow> amount option" where
  "mid_point D e = do {
     ask \<leftarrow> best_ask_price e;
     checked_math (checked_math (best_bid_price e) (\<lambda>x. dec_add D x ask)) (\<lambda>x. dec_div D x 2)
   }"

definition volume_weighted :: "dec_ops \<Rightarrow> last_price_entry \<Rightarrow> amount option" where
  "volume_weighted D e = do {
     bid \<leftarrow> checked_math (best_bid_price e) (\<lambda>x. dec_mul D x (best_bid_quantity e));
     ask \<leftarrow> checked_math (best_ask_price e) (\<lambda>x. dec_mul D x (best_ask_quantity e));
     num \<leftarrow> dec_add D bid ask;
     den \<leftarrow> dec_add D (best_bid_quantity e) (best_ask_quantity e);
     dec_div D num den
   }"

fun get_price :: "dec_ops \<Rightarrow> last_price_entry \<Rightarrow> price_type \<Rightarrow> amount option" where
  "get_price D e BestBid = best_bid_price e"
| "get_price D e BestAsk = best_ask_price e"
| "get_price D e LastTrade = last_trade_price e"
| "get_price D e MidPoint = mid_point D e"
| "get_price D e VolumeWeighted = volume_weighted D e"

record price_point_entry =
  pp_price :: amount
  pp_quantity :: amount

section \<open>Orders\<close>

record asset_order =
  ao_order_id :: order_id
  ao_symbol :: symbol
  ao_side :: side
  ao_price :: amount
  ao_quantity :: amount

record batch_order =
  bo_batch_order_id :: batch_order_id
  bo_asset_orders :: "asset_order list"
  bo_created_timestamp :: timestamp

record single_order =
  so_order_id :: order_id
  so_batch_order_id :: batch_order_id
  so_symbol :: symbol
  so_side :: side
  so_price :: amount
  so_quantity :: amount
  so_created_timestamp :: timestamp

section \<open>Base assets\<close>

text \<open>\<open>str::strip_suffix\<close>, and the first of the known quote suffixes that applies.\<close>

definition strip_suffix :: "string \<Rightarrow> string \<Rightarrow> string option" where
  "strip_suffix s suf =
     (if length suf \<le> length s \<and> drop (length s - length suf) s = suf
      then Some (take (length s - length suf) s) else None)"

fun find_map :: "('a \<Rightarrow> 'b option) \<Rightarrow> 'a list \<Rightarrow> 'b option" where
  "find_map f [] = None"
| "find_map f (x # xs) = (case f x of Some y \<Rightarrow> Some y | None \<Rightarrow> find_map f xs)"

definition get_base_asset_symbol_workaround :: "symbol \<Rightarrow> symbol" where
  "get_base_asset_symbol_workaround s =
     (case find_map (strip_suffix s) [''USDC'', ''USDT'', ''EUR''] of
        Some stripped \<Rightarrow> stripped
      | None \<Rightarrow> s)"

lemma strip_suffix_append [simp]: "strip_suffix (b @ suf) suf = Some b"
  by (simp add: strip_suffix_def)

lemma strip_suffix_Some: "strip_suffix s suf = Some b \<Longrightarrow> s = b @ suf"
  by (metis (no_types, lifting) append_take_drop_id option.distinct(1) option.inject strip_suffix_def)

end
