(* ===== verification/Position.thy ===== *)
theory Position
  imports Bits
begin

text \<open>
  Inventory positions, \<open>libs/symm-core/src/order_sender/position.rs\<close>: lots opened by fills,
  matching of an opposite fill against the open lots, and the assignment of lots to index
  orders. A method that mutates \<open>self\<close> and can fail returns the position it leaves behind
  together with its result, so that partial updates on an error path are visible.
\<close>

section \<open>Lots\<close>

record lot_transaction =
  lt_order_id :: order_id
  lt_batch_order_id :: batch_order_id
  lt_matched_lot_id :: lot_id
  lt_quantity_closed :: amount
  lt_closing_price :: amount
  lt_closing_fee :: amount
  lt_closing_timestamp :: timestamp

record lot_assignment =
  la_chain_id :: u32
  la_address :: address
  la_seq_num :: u256
  la_client_order_id :: client_order_id
  la_side :: side
  la_assigned_quantity :: amount
  la_assigned_fee :: amount
  la_assigned_timestamp :: timestamp

record lot =
  original_order_id :: order_id
  original_batch_order_id :: batch_order_id
  lot_lot_id :: lot_id
  original_price :: amount
  original_quantity :: amount
  original_fee :: amount
  remaining_quantity :: amount
  lot_created_timestamp :: timestamp
  lot_last_update_timestamp :: timestamp
  lot_transactions :: "lot_transaction list"
  lot_assignments :: "lot_assignment list"

definition get_last_transaction_quantity :: "lot \<Rightarrow> amount" where
  "get_last_transaction_quantity l =
     (if lot_transactions l = [] then 0 else lt_quantity_closed (last (lot_transactions l)))"

record position =
  pos_symbol :: symbol
  pos_side :: side
  balance :: amount
  pos_created_timestamp :: "timestamp option"
  pos_last_update_timestamp :: "timestamp option"
  open_lots :: "lot list"
  closed_lots :: "lot list"

definition position_new :: "symbol \<Rightarrow> side \<Rightarrow> position" where
  "position_new s sd = \<lparr>pos_symbol = s, pos_side = sd, balance = 0, pos_created_timestamp = None,
     pos_last_update_timestamp = None, open_lots = [], closed_lots = []\<rparr>"

text \<open>What an execution report says: the arguments \<open>create_lot\<close> and \<open>match_lots\<close> share.\<close>

record fill =
  f_order_id :: order_id
  f_batch_order_id :: batch_order_id
  f_lot_id :: lot_id
  f_side :: side
  f_price :: amount
  f_quantity :: amount
  f_fee :: amount
  f_timestamp :: timestamp

section \<open>Opening a lot\<close>

definition new_lot :: "fill \<Rightarrow> lot" where
  "new_lot f = \<lparr>original_order_id = f_order_id f, original_batch_order_id = f_batch_order_id f,
     lot_lot_id = f_lot_id f, original_price = f_price f, original_quantity = f_quantity f,
     original_fee = f_fee f, remaining_quantity = f_quantity f,
     lot_created_timestamp = f_timestamp f, lot_last_update_timestamp = f_timestamp f,
     lot_transactions = [], lot_assignments = []\<rparr>"

definition create_lot :: "dec_ops \<Rightarrow> position \<Rightarrow> fill \<Rightarrow> position \<times> unit result" where
  "create_lot D p f =
     (let p1 = p\<lparr>pos_created_timestamp :=
                    (case pos_created_timestamp p of None \<Rightarrow> Some (f_timestamp f) | Some t \<Rightarrow> Some t),
                 pos_last_update_timestamp := Some (f_timestamp f),
                 open_lots := open_lots p @ [new_lot f]\<rparr>
      in case (case f_side f of
                 Buy \<Rightarrow> dec_add D (balance p) (f_quantity f)
               | Sell \<Rightarrow> dec_add D (balance p) (f_quantity f)) of
           None \<Rightarrow> (p1, Inl ''Math overflow'')
         | Some b \<Rightarrow> (p1\<lparr>balance := b\<rparr>, Inr ()))"

section \<open>Matching a fill against the open lots\<close>

text \<open>The loop's variables.\<close>

record match_state =
  m_quantity_filled :: amount
  m_balance :: amount
  m_front_lot_update :: "lot option"
  m_drain_count :: nat
  m_closed_lots :: "lot list"

definition close_on_lot :: "fill \<Rightarrow> lot \<Rightarrow> amount \<Rightarrow> amount \<Rightarrow> lot" where
  "close_on_lot f l matched left = l\<lparr>
     lot_transactions := lot_transactions l @
       [\<lparr>lt_order_id = f_order_id f, lt_batch_order_id = f_batch_order_id f,
         lt_matched_lot_id = f_lot_id f, lt_quantity_closed = matched,
         lt_closing_price = f_price f, lt_closing_fee = f_fee f,
         lt_closing_timestamp = f_timestamp f\<rparr>],
     lot_last_update_timestamp := f_timestamp f,
     remaining_quantity := left\<rparr>"

fun match_loop ::
  "dec_ops \<Rightarrow> fill \<Rightarrow> amount \<Rightarrow> lot list \<Rightarrow> match_state \<Rightarrow> match_state result" where
  "match_loop D f tol [] st = Inr st"
| "match_loop D f tol (l # ls) st =
     rbind (ok_or (dec_sub D (remaining_quantity l) (m_quantity_filled st)) ''Math Problem'')
       (\<lambda>remaining.
         let (matched, left, finished, was_closed, quantity') =
           (if remaining < tol
            then (if remaining < - tol
                  then (remaining_quantity l, 0, False, True, - remaining)
                  else (remaining_quantity l, 0, True, True, 0))
            else (m_quantity_filled st, remaining, True, False, 0))
         in rbind (ok_or (dec_sub D (m_balance st) matched) ''Math overflow'') (\<lambda>balance'.
              let l' = close_on_lot f l matched left;
                  st' = st\<lparr>m_quantity_filled := quantity', m_balance := balance'\<rparr>
              in if was_closed
                 then (let st'' = st'\<lparr>m_closed_lots := m_closed_lots st @ [l'],
                                      m_drain_count := m_drain_count st + 1\<rparr>
                       in if finished then Inr st'' else match_loop D f tol ls st'')
                 else if finished then Inr (st'\<lparr>m_front_lot_update := Some l'\<rparr>)
                 else Inl ''Condition failed: `finished`''))"

text \<open>
  The commit. \<open>drain(open_lots_drain_count..)\<close> removes the lots from that index to the end and
  keeps the ones before it; \<open>pop_front\<close> on an empty deque does nothing.
\<close>

definition commit_match :: "position \<Rightarrow> match_state \<Rightarrow> position" where
  "commit_match p st =
     (let kept = take (m_drain_count st) (open_lots p);
          lots = (case m_front_lot_update st of None \<Rightarrow> kept | Some l \<Rightarrow> l # tl kept)
      in p\<lparr>open_lots := lots, closed_lots := m_closed_lots st, balance := m_balance st\<rparr>)"

definition match_start :: "position \<Rightarrow> fill \<Rightarrow> match_state" where
  "match_start p f = \<lparr>m_quantity_filled = f_quantity f, m_balance = balance p,
     m_front_lot_update = None, m_drain_count = 0, m_closed_lots = []\<rparr>"

definition match_lots ::
  "dec_ops \<Rightarrow> position \<Rightarrow> fill \<Rightarrow> amount \<Rightarrow> position \<times> amount option result" where
  "match_lots D p f tol =
     (if pos_side p = f_side f then (p, Inr (Some (f_quantity f)))
      else let p1 = p\<lparr>pos_last_update_timestamp := Some (f_timestamp f)\<rparr>
           in case match_loop D f tol (open_lots p) (match_start p f) of
                Inl e \<Rightarrow> (p1, Inl e)
              | Inr st \<Rightarrow>
                  (commit_match p1 st,
                   Inr (if tol < m_quantity_filled st then Some (m_quantity_filled st) else None)))"

text \<open>The lots the callback sees, in order, and the position afterwards.\<close>

definition drain_closed_lots_and_callback_on_updated :: "position \<Rightarrow> position \<times> lot list" where
  "drain_closed_lots_and_callback_on_updated p =
     (p\<lparr>closed_lots := []\<rparr>,
      closed_lots p @
        (case open_lots p of
           [] \<Rightarrow> []
         | l # _ \<Rightarrow>
             if remaining_quantity l \<noteq> original_quantity l \<and>
                Some (lot_last_update_timestamp l) = pos_last_update_timestamp p
             then [l] else []))"

section \<open>Assigning lots to index orders\<close>

text \<open>Each entry of the assignment map is removed by the first open lot that takes it.\<close>

fun assign_loop ::
  "lot list \<Rightarrow> (lot_id \<rightharpoonup> lot_assignment list) \<Rightarrow> lot list" where
  "assign_loop [] m = []"
| "assign_loop (l # ls) m =
     (case m (lot_lot_id l) of
        Some as \<Rightarrow> l\<lparr>lot_assignments := lot_assignments l @ as\<rparr> #
                     assign_loop ls (m(lot_lot_id l := None))
      | None \<Rightarrow> l # assign_loop ls m)"

definition assign_lots ::
  "position \<Rightarrow> (lot_id \<rightharpoonup> lot_assignment list) \<Rightarrow> position \<times> unit result" where
  "assign_lots p m = (p\<lparr>open_lots := assign_loop (open_lots p) m\<rparr>, Inr ())"

section \<open>The matching loop\<close>

text \<open>One pass of the loop, as the four outcomes the code distinguishes.\<close>

lemma match_loop_Cons_cases:
  assumes "match_loop D f tol (l # ls) st = Inr st'" and "dec_exact D"
  defines "q \<equiv> m_quantity_filled st" and "rem \<equiv> remaining_quantity l"
  obtains
    (continue) "rem - q < tol" "rem - q < - tol"
      "match_loop D f tol ls
         (st\<lparr>m_quantity_filled := q - rem, m_balance := m_balance st - rem,
             m_closed_lots := m_closed_lots st @ [close_on_lot f l rem 0],
             m_drain_count := m_drain_count st + 1\<rparr>) = Inr st'"
  | (closed) "rem - q < tol" "- tol \<le> rem - q"
      "st' = st\<lparr>m_quantity_filled := 0, m_balance := m_balance st - rem,
                m_closed_lots := m_closed_lots st @ [close_on_lot f l rem 0],
                m_drain_count := m_drain_count st + 1\<rparr>"
  | (partial) "tol \<le> rem - q"
      "st' = st\<lparr>m_quantity_filled := 0, m_balance := m_balance st - q,
                m_front_lot_update := Some (close_on_lot f l q (rem - q))\<rparr>"
proof -
  from assms(1) obtain d where d: "dec_sub D rem q = Some d"
    by (auto simp: result_simps q_def rem_def)
  then have dv: "d = rem - q" using assms(2) by (auto dest: dec_exact_sub)
  note ex = dec_exact_sub [OF assms(2)]
  show thesis
  proof (cases "d < tol")
    case True
    show thesis
    proof (cases "d < - tol")
      case neg: True
      with True d dv assms(1) show thesis
        by (intro continue) (auto simp: result_simps q_def rem_def dest!: ex)
    next
      case False
      with True d dv assms(1) show thesis
        by (intro closed) (auto simp: result_simps q_def rem_def dest!: ex)
    qed
  next
    case False
    with d dv assms(1) show thesis
      by (intro partial) (auto simp: result_simps q_def rem_def dest!: ex)
  qed
qed

text \<open>
  The balance goes down by what the fill lost, but for a last lot that was closed within the
  tolerance.
\<close>

lemma match_loop_accounting:
  assumes "dec_exact D" and "0 \<le> tol" and "match_loop D f tol ls st = Inr st'"
  shows "\<bar>(m_balance st - m_balance st') - (m_quantity_filled st - m_quantity_filled st')\<bar> \<le> tol"
  using assms(3)
proof (induction ls arbitrary: st)
  case Nil
  with assms(2) show ?case by simp
next
  case (Cons l ls)
  from Cons.prems assms(1) show ?case
  proof (cases rule: match_loop_Cons_cases)
    case continue
    from Cons.IH [OF continue(3)] show ?thesis by simp
  qed (use assms(2) in auto)
qed

text \<open>What the loop leaves: a prefix of closed lots, and perhaps one lot updated in front of the rest.\<close>

definition closing_quantities :: "match_state \<Rightarrow> amount" where
  "closing_quantities st =
     total get_last_transaction_quantity (m_closed_lots st) +
     (case m_front_lot_update st of None \<Rightarrow> 0 | Some l \<Rightarrow> get_last_transaction_quantity l)"

lemma get_last_transaction_quantity_close [simp]:
  "get_last_transaction_quantity (close_on_lot f l q r) = q"
  by (simp add: get_last_transaction_quantity_def close_on_lot_def)

lemma close_on_lot_remaining [simp]:
  "remaining_quantity (close_on_lot f l q r) = r"
  "lot_lot_id (close_on_lot f l q r) = lot_lot_id l"
  by (simp_all add: close_on_lot_def)

lemma match_loop_closings:
  assumes "dec_exact D" and "match_loop D f tol ls st = Inr st'" and "m_front_lot_update st = None"
  shows "m_balance st - m_balance st' = closing_quantities st' - closing_quantities st"
  using assms(2,3)
proof (induction ls arbitrary: st)
  case Nil
  then show ?case by simp
next
  case (Cons l ls)
  from Cons.prems(1) assms(1) show ?case
  proof (cases rule: match_loop_Cons_cases)
    case continue
    from Cons.IH [OF continue(3)] Cons.prems(2) show ?thesis by (simp add: closing_quantities_def)
  qed (use Cons.prems(2) in \<open>auto simp: closing_quantities_def\<close>)
qed

lemma match_loop_prefix:
  assumes "dec_exact D" and "match_loop D f tol ls st = Inr st'" and "m_front_lot_update st = None"
  shows "\<exists>us vs. ls = us @ vs \<and> m_drain_count st' = m_drain_count st + length us \<and>
     m_closed_lots st' = m_closed_lots st @ map (\<lambda>l. close_on_lot f l (remaining_quantity l) 0) us \<and>
     (m_front_lot_update st' = None \<or>
      (\<exists>l vs' q. vs = l # vs' \<and> tol \<le> remaining_quantity l - q \<and>
         (0 \<le> tol \<longrightarrow> 0 \<le> m_quantity_filled st \<longrightarrow> 0 \<le> q) \<and>
         m_front_lot_update st' = Some (close_on_lot f l q (remaining_quantity l - q))))"
  using assms(2,3)
proof (induction ls arbitrary: st)
  case Nil
  then show ?case by simp
next
  case (Cons l ls)
  from Cons.prems(1) assms(1) show ?case
  proof (cases rule: match_loop_Cons_cases)
    case continue
    from Cons.IH [OF continue(3)] Cons.prems(2) obtain us vs where
      "ls = us @ vs" "m_drain_count st' = m_drain_count st + 1 + length us"
      "m_closed_lots st' = (m_closed_lots st @ [close_on_lot f l (remaining_quantity l) 0]) @
         map (\<lambda>l. close_on_lot f l (remaining_quantity l) 0) us"
      and front: "m_front_lot_update st' = None \<or>
        (\<exists>l' vs' q. vs = l' # vs' \<and> tol \<le> remaining_quantity l' - q \<and>
           (0 \<le> tol \<longrightarrow> 0 \<le> m_quantity_filled st - remaining_quantity l \<longrightarrow> 0 \<le> q) \<and>
           m_front_lot_update st' = Some (close_on_lot f l' q (remaining_quantity l' - q)))"
      by auto
    moreover have "0 \<le> tol \<longrightarrow> 0 \<le> m_quantity_filled st - remaining_quantity l"
      using continue(2) by auto
    ultimately show ?thesis by (intro exI [of _ "l # us"] exI [of _ vs]) auto
  next
    case closed
    then show ?thesis using Cons.prems(2) by (intro exI [of _ "[l]"] exI [of _ ls]) auto
  next
    case partial
    then show ?thesis using Cons.prems(2) by (intro exI [of _ "[]"] exI [of _ "l # ls"]) auto
  qed
qed

section \<open>Every lot accounts for its quantity\<close>

text \<open>
  A position as a component driven by events: fills that open lots, fills that are matched,
  the drain of the closed lots and the assignment of lots.
\<close>

datatype position_event =
  CreateLot fill
| MatchLots fill amount
| DrainClosed
| AssignLots "lot_id \<rightharpoonup> lot_assignment list"

fun position_step :: "dec_ops \<Rightarrow> position \<Rightarrow> position_event \<Rightarrow> position" where
  "position_step D p (CreateLot f) = fst (create_lot D p f)"
| "position_step D p (MatchLots f tol) = fst (match_lots D p f tol)"
| "position_step D p DrainClosed = fst (drain_closed_lots_and_callback_on_updated p)"
| "position_step D p (AssignLots m) = fst (assign_lots p m)"

definition lot_accounts :: "lot \<Rightarrow> bool" where
  "lot_accounts l \<longleftrightarrow>
     original_quantity l = remaining_quantity l + total lt_quantity_closed (lot_transactions l)"

definition lots_account :: "position \<Rightarrow> bool" where
  "lots_account p \<longleftrightarrow> (\<forall>l\<in>set (open_lots p) \<union> set (closed_lots p). lot_accounts l)"

lemma lot_accounts_new [simp]: "lot_accounts (new_lot f)"
  by (simp add: lot_accounts_def new_lot_def)

lemma lot_accounts_close [simp]:
  "lot_accounts (close_on_lot f l q (remaining_quantity l - q)) \<longleftrightarrow> lot_accounts l"
  by (simp add: lot_accounts_def close_on_lot_def)

lemma lot_accounts_close_all [simp]:
  "lot_accounts (close_on_lot f l (remaining_quantity l) 0) \<longleftrightarrow> lot_accounts l"
  using lot_accounts_close [of f l "remaining_quantity l"] by simp

lemma lots_account_create: "lots_account p \<Longrightarrow> lots_account (fst (create_lot D p f))"
  by (auto simp: lots_account_def create_lot_def Let_def split: option.splits side.splits)

lemma lots_account_assign_loop:
  "\<forall>l\<in>set ls. lot_accounts l \<Longrightarrow> \<forall>l\<in>set (assign_loop ls m). lot_accounts l"
  by (induction ls m rule: assign_loop.induct) (auto simp: lot_accounts_def split: option.splits)

lemma lots_account_match:
  assumes D: "dec_exact D" and p: "lots_account p"
  shows "lots_account (fst (match_lots D p f tol))"
proof (cases "match_loop D f tol (open_lots p) (match_start p f)")
  case (Inl e)
  with p show ?thesis by (auto simp: match_lots_def lots_account_def)
next
  case (Inr st)
  have "m_front_lot_update (match_start p f) = None" by (simp add: match_start_def)
  from match_loop_prefix [OF D Inr this] obtain us vs where
    us: "open_lots p = us @ vs" "m_drain_count st = length us"
      "m_closed_lots st = map (\<lambda>l. close_on_lot f l (remaining_quantity l) 0) us"
    and upd: "m_front_lot_update st = None \<or>
      (\<exists>l vs' q. vs = l # vs' \<and> tol \<le> remaining_quantity l - q \<and>
         (0 \<le> tol \<longrightarrow> 0 \<le> m_quantity_filled (match_start p f) \<longrightarrow> 0 \<le> q) \<and>
         m_front_lot_update st = Some (close_on_lot f l q (remaining_quantity l - q)))"
    by (simp add: match_start_def) blast
  from upd have front: "\<forall>l. m_front_lot_update st = Some l \<longrightarrow>
      (\<exists>l'\<in>set vs. \<exists>q. l = close_on_lot f l' q (remaining_quantity l' - q))"
    by auto
  have ok: "\<forall>l\<in>set us \<union> set vs. lot_accounts l" using p us(1) by (auto simp: lots_account_def)
  have kept: "set (take (m_drain_count st) (open_lots p)) = set us" using us(1,2) by simp
  have "lot_accounts l" if "m_front_lot_update st = Some l" for l
    using front that ok by force
  then have "\<forall>l\<in>set (open_lots (commit_match q st)). lot_accounts l"
    if "open_lots q = open_lots p" for q
    using ok kept that by (auto simp: commit_match_def Let_def dest: in_set_tl split: option.splits)
  moreover have "\<forall>l\<in>set (closed_lots (commit_match q st)). lot_accounts l" for q
    using ok us(3) by (auto simp: commit_match_def Let_def)
  ultimately have "lots_account (commit_match q st)" if "open_lots q = open_lots p" for q
    using that unfolding lots_account_def by blast
  with p Inr show ?thesis by (simp add: match_lots_def)
qed

interpretation position: reactive "position_step D" "\<lambda>_ _. dec_exact D" lots_account for D
proof unfold_locales
  fix p e assume "lots_account p" and "dec_exact D"
  then show "lots_account (position_step D p e)"
  proof (cases e)
    case (AssignLots m)
    with \<open>lots_account p\<close> lots_account_assign_loop [of "open_lots p" m] show ?thesis
      by (auto simp: lots_account_def assign_lots_def)
  next
    case DrainClosed
    with \<open>lots_account p\<close> show ?thesis
      by (simp add: lots_account_def drain_closed_lots_and_callback_on_updated_def)
  qed (simp_all add: lots_account_create lots_account_match)
qed

text \<open>
  C36: In every position the code can build, by any sequence of fills, matches, drains and
  assignments with exact arithmetic, failing calls included, each open or closed lot's
  original quantity is its remaining quantity plus what its transactions closed.
\<close>

theorem position_lots_account:
  assumes "dec_exact D"
    and "l \<in> set (open_lots (run (position_step D) (position_new s sd) es)) \<union>
             set (closed_lots (run (position_step D) (position_new s sd) es))"
  shows "original_quantity l = remaining_quantity l + total lt_quantity_closed (lot_transactions l)"
proof -
  have "lots_account (position_new s sd)" by (simp add: lots_account_def position_new_def)
  then have "lots_account (run (position_step D) (position_new s sd) es)"
    by (rule position.run_inv) (rule admits_const [OF assms(1)])
  with assms(2) show ?thesis by (auto simp: lots_account_def lot_accounts_def)
qed

abbreviation demo_fill :: "string \<Rightarrow> side \<Rightarrow> amount \<Rightarrow> fill" where
  "demo_fill i sd q \<equiv> \<lparr>f_order_id = ''O1'', f_batch_order_id = ''B1'', f_lot_id = i, f_side = sd,
     f_price = 100, f_quantity = q, f_fee = 0, f_timestamp = 5\<rparr>"

declare position_new_def [evals] create_lot_def [evals] new_lot_def [evals] match_lots_def [evals]
  match_start_def [evals] commit_match_def [evals] close_on_lot_def [evals]

theorem position_lots_account_witness:
  "let p = run (position_step (dec_upto 1000)) (position_new ''A'' Buy)
        [CreateLot (demo_fill ''L1'' Buy 10), MatchLots (demo_fill ''L2'' Sell 4) (1 / 100)];
       l = hd (open_lots p)
   in remaining_quantity l = 6 \<and>
     original_quantity l = remaining_quantity l + total lt_quantity_closed (lot_transactions l)"
proof -
  let ?p = "run (position_step (dec_upto 1000)) (position_new ''A'' Buy)
        [CreateLot (demo_fill ''L1'' Buy 10), MatchLots (demo_fill ''L2'' Sell 4) (1 / 100)]"
  have mem: "hd (open_lots ?p) \<in> set (open_lots ?p)" and six: "remaining_quantity (hd (open_lots ?p)) = 6"
    by (simp_all add: evals)
  show ?thesis unfolding Let_def
    by (intro conjI) (rule six, rule position_lots_account [OF dec_exact_upto UnI1 [OF mem]])
qed

section \<open>What a match does to the position\<close>

lemma match_loop_leftover:
  assumes "dec_exact D" and "match_loop D f tol ls st = Inr st'"
  shows "m_quantity_filled st' = 0 \<or> tol < m_quantity_filled st' \<or> ls = [] \<and> st' = st"
  using assms(2)
proof (induction ls arbitrary: st)
  case Nil
  then show ?case by simp
next
  case (Cons l ls)
  from Cons.prems assms(1) show ?case
  proof (cases rule: match_loop_Cons_cases)
    case continue
    from Cons.IH [OF continue(3)] continue(2) show ?thesis by auto
  qed auto
qed

text \<open>A successful match on the opposite side is a successful loop and its commit.\<close>

lemma match_lots_okE:
  assumes "match_lots D p f tol = (p', Inr r)" and "pos_side p \<noteq> f_side f"
  obtains st where "match_loop D f tol (open_lots p) (match_start p f) = Inr st"
    and "p' = commit_match (p\<lparr>pos_last_update_timestamp := Some (f_timestamp f)\<rparr>) st"
    and "r = (if tol < m_quantity_filled st then Some (m_quantity_filled st) else None)"
  using assms by (auto simp: match_lots_def Let_def split: sum.splits)

text \<open>
  The callback sees exactly what was closed, if the open lots were last touched at other times
  than the fill's (the code recognises the updated front lot by its time stamp).
\<close>

lemma match_callback_quantities:
  assumes D: "dec_exact D" and "0 \<le> tol" and "0 \<le> f_quantity f" and "pos_side p \<noteq> f_side f"
    and "match_lots D p f tol = (p', Inr r)"
    and fresh: "\<forall>l\<in>set (open_lots p). lot_last_update_timestamp l \<noteq> f_timestamp f \<and>
      remaining_quantity l \<le> original_quantity l"
  shows "total get_last_transaction_quantity (snd (drain_closed_lots_and_callback_on_updated p')) =
    balance p - balance p'"
  using assms(5,4)
proof (rule match_lots_okE)
  fix st assume st: "match_loop D f tol (open_lots p) (match_start p f) = Inr st"
    and p': "p' = commit_match (p\<lparr>pos_last_update_timestamp := Some (f_timestamp f)\<rparr>) st"
  have none: "m_front_lot_update (match_start p f) = None" by (simp add: match_start_def)
  have closed: "balance p - balance p' = closing_quantities st"
    using match_loop_closings [OF D st none] p'
    by (simp add: match_start_def commit_match_def closing_quantities_def Let_def)
  from match_loop_prefix [OF D st none] obtain us vs where us: "open_lots p = us @ vs"
    and drop: "m_drain_count st = length us"
    and front: "m_front_lot_update st = None \<or>
      (\<exists>l vs' q. vs = l # vs' \<and> tol \<le> remaining_quantity l - q \<and>
         (0 \<le> tol \<longrightarrow> 0 \<le> m_quantity_filled (match_start p f) \<longrightarrow> 0 \<le> q) \<and>
         m_front_lot_update st = Some (close_on_lot f l q (remaining_quantity l - q)))"
    by (simp add: match_start_def) blast
  have kept: "take (m_drain_count st) (open_lots p) = us" using us drop by simp
  from front show ?thesis
  proof (elim disjE exE conjE)
    assume "m_front_lot_update st = None"
    with closed kept fresh us p' show ?thesis
      by (auto simp: drain_closed_lots_and_callback_on_updated_def commit_match_def
          closing_quantities_def split: list.splits)
  next
    fix l vs' q
    assume "vs = l # vs'" and q: "0 \<le> tol \<longrightarrow> 0 \<le> m_quantity_filled (match_start p f) \<longrightarrow> 0 \<le> q"
      and upd: "m_front_lot_update st = Some (close_on_lot f l q (remaining_quantity l - q))"
    then have "remaining_quantity l \<le> original_quantity l" "0 \<le> q"
      using fresh us assms(2,3) by (auto simp: match_start_def)
    with closed upd p' show ?thesis
      by (auto simp: drain_closed_lots_and_callback_on_updated_def commit_match_def
          closing_quantities_def close_on_lot_def get_last_transaction_quantity_def Let_def)
  qed
qed

text \<open>
  A successful match against the opposite side lowers the balance, up to the tolerance, by
  the part of the fill that is not handed back as unmatched.
\<close>

theorem match_lots_accounting:
  assumes "dec_exact D" and "0 \<le> tol" and "0 \<le> f_quantity f" and "pos_side p \<noteq> f_side f"
    and "match_lots D p f tol = (p', Inr r)"
  shows "\<bar>(balance p - balance p') - (f_quantity f - (case r of None \<Rightarrow> 0 | Some u \<Rightarrow> u))\<bar> \<le> tol"
  using assms(5,4)
proof (rule match_lots_okE)
  fix st assume st: "match_loop D f tol (open_lots p) (match_start p f) = Inr st"
    and p': "p' = commit_match (p\<lparr>pos_last_update_timestamp := Some (f_timestamp f)\<rparr>) st"
    and r: "r = (if tol < m_quantity_filled st then Some (m_quantity_filled st) else None)"
  have "\<bar>(balance p - balance p') - (f_quantity f - m_quantity_filled st)\<bar> \<le> tol"
    using match_loop_accounting [OF assms(1,2) st] p'
    by (simp add: match_start_def commit_match_def Let_def)
  then show ?thesis using match_loop_leftover [OF assms(1) st] r assms(2,3)
    by (auto simp: match_start_def p' commit_match_def)
qed

theorem match_lots_accounting_witness:
  "let p = fst (create_lot (dec_upto 1000) (position_new ''A'' Buy) (demo_fill ''L1'' Buy 10));
       f = demo_fill ''L2'' Sell 14; (p', r) = match_lots (dec_upto 1000) p f (1 / 100)
   in r = Inr (Some 4) \<and> \<bar>(balance p - balance p') - (14 - 4)\<bar> \<le> 1 / 100"
  using match_lots_accounting [of "dec_upto 1000" "1 / 100" "demo_fill ''L2'' Sell 14"
     "fst (create_lot (dec_upto 1000) (position_new ''A'' Buy) (demo_fill ''L1'' Buy 10))"
     _ "Some 4"]
  by (simp add: evals)

text \<open>
  A match that fails half way, at whichever lot, leaves lots, balance and closed lots as they
  were; only the time of the last update has moved.
\<close>

theorem match_lots_failure_keeps_lots:
  assumes "match_lots D p f tol = (p', Inl e)"
  shows "p' = p\<lparr>pos_last_update_timestamp := Some (f_timestamp f)\<rparr>"
  using assms by (auto simp: match_lots_def Let_def split: if_splits sum.splits)


theorem match_lots_failure_keeps_lots_witness:
  "let p = (position_new ''A'' Buy)
         \<lparr>open_lots := [new_lot (demo_fill ''L1'' Buy 3), new_lot (demo_fill ''L3'' Buy 9)], balance := 12\<rparr>;
       (p', r) = match_lots (dec_upto 5) p (demo_fill ''L2'' Sell 4) (1 / 100)
   in r = Inl ''Math overflow'' \<and> p' = p\<lparr>pos_last_update_timestamp := Some 5\<rparr>"
  using match_lots_failure_keeps_lots [of "dec_upto 5"
      "(position_new ''A'' Buy)
         \<lparr>open_lots := [new_lot (demo_fill ''L1'' Buy 3), new_lot (demo_fill ''L3'' Buy 9)], balance := 12\<rparr>"
      "demo_fill ''L2'' Sell 4" "1 / 100" _ "''Math overflow''"]
  by (simp add: evals)

section \<open>Where the commit drops open lots\<close>

text \<open>
  A position is consistent when its balance is what its open lots still hold. Opening a lot
  keeps it so.
\<close>

definition consistent :: "position \<Rightarrow> bool" where
  "consistent p \<longleftrightarrow> balance p = total remaining_quantity (open_lots p)"

lemma create_lot_consistent:
  "dec_exact D \<Longrightarrow> consistent p \<Longrightarrow> create_lot D p f = (p', Inr ()) \<Longrightarrow> consistent p'"
  by (auto simp: create_lot_def consistent_def new_lot_def Let_def dec_exact_def
      split: option.splits side.splits)

text \<open>
  C38: A successful fill that only takes part of the first open lot leaves that lot alone in the
  position: every other open lot is dropped, although the balance still counts them. With a
  second lot of non-zero quantity the position is no longer consistent. (The drain of the
  commit removes the lots from the matched prefix on instead of the prefix.)
\<close>

theorem match_lots_partial_drops_lots:
  assumes "dec_exact D" and "0 \<le> tol" and "consistent p" and "open_lots p = l # ls"
    and "pos_side p \<noteq> f_side f" and "tol \<le> remaining_quantity l - f_quantity f"
    and "total remaining_quantity ls \<noteq> 0"
    and "match_lots D p f tol = (p', Inr r)"
  shows "r = None \<and> balance p' = balance p - f_quantity f \<and>
    map lot_lot_id (open_lots p') = [lot_lot_id l] \<and> \<not> consistent p'"
  using assms(8,5)
proof (rule match_lots_okE)
  fix st assume st: "match_loop D f tol (open_lots p) (match_start p f) = Inr st"
    and p': "p' = commit_match (p\<lparr>pos_last_update_timestamp := Some (f_timestamp f)\<rparr>) st"
    and r: "r = (if tol < m_quantity_filled st then Some (m_quantity_filled st) else None)"
  from st [unfolded assms(4)] assms(1)
  have "st = (match_start p f)\<lparr>m_quantity_filled := 0, m_balance := balance p - f_quantity f,
      m_front_lot_update := Some (close_on_lot f l (f_quantity f) (remaining_quantity l - f_quantity f))\<rparr>"
  proof (cases rule: match_loop_Cons_cases)
    case partial
    then show ?thesis by (simp add: match_start_def)
  qed (use assms(6) in \<open>auto simp: match_start_def\<close>)
  with p' r assms(2,3,4,7) show ?thesis
    by (auto simp: match_start_def commit_match_def consistent_def)
qed

theorem match_lots_partial_drops_lots_witness:
  "let p = (position_new ''A'' Buy)
         \<lparr>open_lots := [new_lot (demo_fill ''L1'' Buy 3), new_lot (demo_fill ''L3'' Buy 9)], balance := 12\<rparr>;
       (p', r) = match_lots (dec_upto 100) p (demo_fill ''L2'' Sell 2) (1 / 100)
   in consistent p \<and> map lot_lot_id (open_lots p') = [''L1''] \<and> balance p' = 10 \<and> \<not> consistent p'"
  using match_lots_partial_drops_lots [of "dec_upto 100" "1 / 100"
      "(position_new ''A'' Buy)
         \<lparr>open_lots := [new_lot (demo_fill ''L1'' Buy 3), new_lot (demo_fill ''L3'' Buy 9)], balance := 12\<rparr>"
      "new_lot (demo_fill ''L1'' Buy 3)" "[new_lot (demo_fill ''L3'' Buy 9)]"
      "demo_fill ''L2'' Sell 2" _ None]
  by (simp add: evals consistent_def)

end
