(* ===== verification/OrderTracker.thy ===== *)
theory OrderTracker
  imports Bits
begin

text \<open>
  Order tracking, \<open>libs/symm-core/src/order_sender/order_tracker.rs\<close> with the notifications of
  \<open>order_connector.rs\<close>: the status of every order that was sent, the handling of the
  connector's notifications, and what is published to the inventory manager. The connector's
  \<open>send_order\<close> is a parameter. A handler returns the tracker it leaves behind, the published
  notifications and its result.
\<close>

section \<open>Data\<close>

datatype order_connector_notification =
  SessionLogon session_id timestamp
| SessionLogout session_id string timestamp
| Rejected order_id symbol side amount amount string timestamp
| Fill order_id lot_id symbol side amount amount amount timestamp
| NewOrder order_id symbol side amount amount timestamp
| Cancel order_id symbol side amount timestamp

datatype cancel_status = Partial | FullyCancelled | RejectedBy string

definition from_cancelled :: "bool \<Rightarrow> cancel_status" where
  "from_cancelled is_cancelled = (if is_cancelled then FullyCancelled else Partial)"

definition from_rejected :: "string \<Rightarrow> cancel_status" where
  "from_rejected reason = RejectedBy reason"

fun is_cancelled_or_rejected :: "cancel_status \<Rightarrow> bool" where
  "is_cancelled_or_rejected Partial = False"
| "is_cancelled_or_rejected FullyCancelled = True"
| "is_cancelled_or_rejected (RejectedBy _) = True"

fun is_rejected :: "cancel_status \<Rightarrow> bool" where
  "is_rejected Partial = False"
| "is_rejected FullyCancelled = False"
| "is_rejected (RejectedBy _) = True"

record tracker_fill =
  tf_order_id :: order_id
  tf_batch_order_id :: batch_order_id
  tf_lot_id :: lot_id
  tf_symbol :: symbol
  tf_side :: side
  tf_price_filled :: amount
  tf_quantity_filled :: amount
  tf_fee_paid :: amount
  tf_original_quantity :: amount
  tf_quantity_remaining :: amount
  tf_is_cancelled :: bool
  tf_fill_timestamp :: timestamp

record tracker_cancel =
  tc_order_id :: order_id
  tc_batch_order_id :: batch_order_id
  tc_symbol :: symbol
  tc_side :: side
  tc_quantity_cancelled :: amount
  tc_original_quantity :: amount
  tc_quantity_remaining :: amount
  tc_cancel_status :: cancel_status
  tc_cancel_timestamp :: timestamp

datatype order_tracker_notification = TrackerFill tracker_fill | TrackerCancel tracker_cancel

datatype order_status =
  Sent amount
| Live amount
| Cancelled amount
| SendFailed

record order_entry =
  oe_session_id :: session_id
  oe_order :: single_order
  oe_status :: order_status

definition order_entry_new :: "session_id \<Rightarrow> single_order \<Rightarrow> order_entry" where
  "order_entry_new sid o1 = \<lparr>oe_session_id = sid, oe_order = o1, oe_status = Sent (so_quantity o1)\<rparr>"

record order_tracker =
  session :: "session_id option"
  orders :: "order_id \<rightharpoonup> order_entry"
  tracker_tolerance :: amount

definition order_tracker_new :: "amount \<Rightarrow> order_tracker" where
  "order_tracker_new tol = \<lparr>session = None, orders = Map.empty, tracker_tolerance = tol\<rparr>"

definition set_status :: "order_tracker \<Rightarrow> order_id \<Rightarrow> order_entry \<Rightarrow> order_status \<Rightarrow> order_tracker" where
  "set_status t oid e st = t\<lparr>orders := (orders t)(oid \<mapsto> e\<lparr>oe_status := st\<rparr>)\<rparr>"

section \<open>Status updates\<close>

definition update_order_new ::
  "order_tracker \<Rightarrow> order_id \<Rightarrow> amount \<Rightarrow> amount \<Rightarrow> order_tracker \<times> unit result" where
  "update_order_new t oid price quantity =
     (case orders t oid of
        Some e \<Rightarrow>
          (case oe_status e of
             Sent _ \<Rightarrow> (set_status t oid e (Live quantity), Inr ())
           | _ \<Rightarrow> (t, Inl ''Invalid order state for applying new''))
      | None \<Rightarrow> (t, Inl ''Untracked order''))"

text \<open>The entry with its quantity remaining, whether it was live, and whether it is now cancelled.\<close>

definition update_order_status ::
  "dec_ops \<Rightarrow> order_tracker \<Rightarrow> order_id \<Rightarrow> amount \<Rightarrow> bool \<Rightarrow>
     order_tracker \<times> (single_order \<times> amount \<times> bool \<times> bool) result" where
  "update_order_status D t oid quantity is_cancel =
     (case orders t oid of
        None \<Rightarrow> (t, Inl ''Untracked order'')
      | Some e \<Rightarrow>
          (case oe_status e of
             Sent _ \<Rightarrow>
               if \<not> is_cancel then (t, Inl ''Invalid order state for applying fill'')
               else (set_status t oid e (Cancelled 0), Inr (oe_order e, 0, True, True))
           | Live remaining \<Rightarrow>
               if is_cancel then (set_status t oid e (Cancelled 0), Inr (oe_order e, 0, True, True))
               else (case dec_sub D remaining quantity of
                       Some remaining' \<Rightarrow>
                         if remaining' < tracker_tolerance t
                         then (set_status t oid e (Cancelled 0), Inr (oe_order e, 0, True, True))
                         else (set_status t oid e (Live remaining'),
                               Inr (oe_order e, remaining', True, False))
                     | None \<Rightarrow> (t, Inl ''Math overflow''))
           | _ \<Rightarrow>
               if is_cancel \<and> quantity < tracker_tolerance t
               then (t, Inr (oe_order e, 0, False, True))
               else (t, Inl ''We shouldn't be getting fills for an order that was cancelled'')))"

section \<open>Handlers\<close>

definition error_for :: "order_id \<Rightarrow> report \<Rightarrow> report" where
  "error_for oid err = ''Error for '' @ oid @ '' '' @ err"

definition handle_rejected ::
  "dec_ops \<Rightarrow> order_tracker \<Rightarrow> order_id \<Rightarrow> symbol \<Rightarrow> side \<Rightarrow> amount \<Rightarrow> string \<Rightarrow> timestamp \<Rightarrow>
     order_tracker \<times> order_tracker_notification list \<times> unit result" where
  "handle_rejected D t oid s sd quantity reason ts =
     (case update_order_status D t oid quantity True of
        (t', Inr (o1, remaining, _, _)) \<Rightarrow>
          (t', [TrackerCancel \<lparr>tc_order_id = oid, tc_batch_order_id = so_batch_order_id o1,
                  tc_symbol = s, tc_side = sd, tc_quantity_cancelled = quantity,
                  tc_original_quantity = so_quantity o1, tc_quantity_remaining = remaining,
                  tc_cancel_status = from_rejected reason, tc_cancel_timestamp = ts\<rparr>], Inr ())
      | (t', Inl err) \<Rightarrow> (t', [], Inl (error_for oid err)))"

definition handle_fill ::
  "dec_ops \<Rightarrow> order_tracker \<Rightarrow> order_id \<Rightarrow> lot_id \<Rightarrow> symbol \<Rightarrow> side \<Rightarrow> amount \<Rightarrow> amount \<Rightarrow> amount \<Rightarrow>
     timestamp \<Rightarrow> order_tracker \<times> order_tracker_notification list \<times> unit result" where
  "handle_fill D t oid lid s sd price quantity fee ts =
     (case update_order_status D t oid quantity False of
        (t', Inr (o1, remaining, _, is_cancelled)) \<Rightarrow>
          (t', [TrackerFill \<lparr>tf_order_id = oid, tf_batch_order_id = so_batch_order_id o1,
                  tf_lot_id = lid, tf_symbol = s, tf_side = sd, tf_price_filled = price,
                  tf_quantity_filled = quantity, tf_fee_paid = fee,
                  tf_original_quantity = so_quantity o1, tf_quantity_remaining = remaining,
                  tf_is_cancelled = is_cancelled, tf_fill_timestamp = ts\<rparr>], Inr ())
      | (t', Inl err) \<Rightarrow> (t', [], Inl (error_for oid err)))"

definition handle_cancel ::
  "dec_ops \<Rightarrow> order_tracker \<Rightarrow> order_id \<Rightarrow> symbol \<Rightarrow> side \<Rightarrow> amount \<Rightarrow> timestamp \<Rightarrow>
     order_tracker \<times> order_tracker_notification list \<times> unit result" where
  "handle_cancel D t oid s sd quantity ts =
     (case update_order_status D t oid quantity True of
        (t', Inr (o1, remaining, was_live, is_cancelled)) \<Rightarrow>
          (t', (if was_live
                then [TrackerCancel \<lparr>tc_order_id = oid, tc_batch_order_id = so_batch_order_id o1,
                        tc_symbol = s, tc_side = sd, tc_quantity_cancelled = quantity,
                        tc_original_quantity = so_quantity o1, tc_quantity_remaining = remaining,
                        tc_cancel_status = from_cancelled is_cancelled, tc_cancel_timestamp = ts\<rparr>]
                else []), Inr ())
      | (t', Inl err) \<Rightarrow> (t', [], Inl (error_for oid err)))"

fun handle_order_notification ::
  "dec_ops \<Rightarrow> order_tracker \<Rightarrow> order_connector_notification \<Rightarrow>
     order_tracker \<times> order_tracker_notification list \<times> unit result" where
  "handle_order_notification D t (SessionLogon sid ts) = (t\<lparr>session := Some sid\<rparr>, [], Inr ())"
| "handle_order_notification D t (SessionLogout sid reason ts) = (t\<lparr>session := None\<rparr>, [], Inr ())"
| "handle_order_notification D t (Rejected oid s sd price quantity reason ts) =
     handle_rejected D t oid s sd quantity reason ts"
| "handle_order_notification D t (Fill oid lid s sd price quantity fee ts) =
     handle_fill D t oid lid s sd price quantity fee ts"
| "handle_order_notification D t (NewOrder oid s sd price quantity ts) =
     (let (t', r) = update_order_new t oid price quantity in (t', [], r))"
| "handle_order_notification D t (Cancel oid s sd quantity ts) =
     handle_cancel D t oid s sd quantity ts"

text \<open>The entry is recorded before the order is sent; a failed send is recorded in its status.\<close>

definition new_order ::
  "(session_id \<Rightarrow> single_order \<Rightarrow> unit result) \<Rightarrow> order_tracker \<Rightarrow> single_order \<Rightarrow>
     order_tracker \<times> unit result" where
  "new_order send t o1 =
     (case session t of
        None \<Rightarrow> (t, Inl ''No connected session available'')
      | Some sid \<Rightarrow>
          (case orders t (so_order_id o1) of
             Some _ \<Rightarrow> (t, Inl (''Order already sent with ID '' @ so_order_id o1))
           | None \<Rightarrow>
               let e = order_entry_new sid o1;
                   t' = t\<lparr>orders := (orders t)(so_order_id o1 \<mapsto> e)\<rparr>
               in case send sid o1 of
                    Inl err \<Rightarrow> (set_status t' (so_order_id o1) e SendFailed, Inl err)
                  | Inr _ \<Rightarrow> (t', Inr ())))"

definition get_order :: "order_tracker \<Rightarrow> order_id \<Rightarrow> single_order option" where
  "get_order t oid = map_option oe_order (orders t oid)"

section \<open>The life of an order\<close>

text \<open>The tracker together with everything it has published, oldest first.\<close>

datatype tracker_input = Notify order_connector_notification | Send single_order

fun tracker_step ::
  "dec_ops \<Rightarrow> (session_id \<Rightarrow> single_order \<Rightarrow> unit result) \<Rightarrow>
     order_tracker \<times> order_tracker_notification list \<Rightarrow> tracker_input \<Rightarrow>
     order_tracker \<times> order_tracker_notification list" where
  "tracker_step D send (t, pub) (Notify n) =
     (let (t', evs, r) = handle_order_notification D t n in (t', pub @ evs))"
| "tracker_step D send (t, pub) (Send o1) = (fst (new_order send t o1), pub)"

fun about :: "order_tracker_notification \<Rightarrow> order_id" where
  "about (TrackerFill f) = tf_order_id f"
| "about (TrackerCancel c) = tc_order_id c"

fun terminal :: "order_tracker_notification \<Rightarrow> bool" where
  "terminal (TrackerFill f) = tf_is_cancelled f"
| "terminal (TrackerCancel c) = is_cancelled_or_rejected (tc_cancel_status c)"

definition history :: "order_id \<Rightarrow> order_tracker_notification list \<Rightarrow> order_tracker_notification list" where
  "history oid pub = filter (\<lambda>n. about n = oid) pub"

text \<open>
  A rejection of less than the tolerance. The tracker takes one for an order that has ended as
  well: \<open>handle_rejected\<close> publishes it whether or not the order was live.
\<close>

fun late_rejection :: "amount \<Rightarrow> order_tracker_notification \<Rightarrow> bool" where
  "late_rejection tol (TrackerFill f) = False"
| "late_rejection tol (TrackerCancel c) = (is_rejected (tc_cancel_status c) \<and> tc_quantity_cancelled c < tol)"

fun ends_well :: "amount \<Rightarrow> order_tracker_notification list \<Rightarrow> bool" where
  "ends_well tol [] = True"
| "ends_well tol (n # ns) = (if terminal n then list_all (late_rejection tol) ns else ends_well tol ns)"

text \<open>
  What has been published about an order, given its status: nothing about an untracked order,
  nothing terminal about one that may still trade, late rejections about one that could not be
  sent, and nothing but late rejections after the end of any other.
\<close>

definition history_fits :: "amount \<Rightarrow> order_entry option \<Rightarrow> order_tracker_notification list \<Rightarrow> bool" where
  "history_fits tol e h = (case e of
     None \<Rightarrow> h = []
   | Some e \<Rightarrow> (case oe_status e of
       Cancelled _ \<Rightarrow> ends_well tol h
     | SendFailed \<Rightarrow> list_all (late_rejection tol) h
     | _ \<Rightarrow> list_all (\<lambda>n. \<not> terminal n) h))"

fun histories_fit :: "amount \<Rightarrow> order_tracker \<times> order_tracker_notification list \<Rightarrow> bool" where
  "histories_fit tol (t, pub) = (tracker_tolerance t = tol \<and> (\<forall>oid. history_fits tol (orders t oid) (history oid pub)))"

definition trading :: "order_entry \<Rightarrow> bool" where
  "trading e \<longleftrightarrow> (case oe_status e of Sent _ \<Rightarrow> True | Live _ \<Rightarrow> True | _ \<Rightarrow> False)"

lemma late_terminal: "late_rejection tol n \<Longrightarrow> terminal n"
  by (cases n; cases "tc_cancel_status (case n of TrackerCancel c \<Rightarrow> c)") auto

lemma ends_well_snoc:
  "list_all (\<lambda>n. \<not> terminal n) h \<Longrightarrow> ends_well tol (h @ [n])"
  "ends_well tol h \<Longrightarrow> late_rejection tol n \<Longrightarrow> ends_well tol (h @ [n])"
  by (induction h) auto

lemma ends_well_after: "ends_well tol (xs @ n # ys) \<Longrightarrow> terminal n \<Longrightarrow> list_all (late_rejection tol) ys"
  by (induction xs) (auto split: if_splits)

lemma history_append [simp]: "history oid (l1 @ l2) = history oid l1 @ history oid l2"
  by (simp add: history_def)

lemma history_Nil [simp]: "history oid [] = []"
  by (simp add: history_def)

lemma history_single [simp]: "history oid [n] = (if about n = oid then [n] else [])"
  by (simp add: history_def)

lemma orders_set_status [simp]:
  "orders (set_status t oid e st) = (orders t)(oid \<mapsto> e\<lparr>oe_status := st\<rparr>)"
  by (simp add: set_status_def)

lemma history_fits_cancelled:
  "history_fits tol (Some e) h \<Longrightarrow> trading e \<Longrightarrow> history_fits tol (Some (e\<lparr>oe_status := Cancelled q\<rparr>)) (h @ [n])"
  by (auto simp: history_fits_def trading_def ends_well_snoc split: order_status.splits)

lemma history_fits_live:
  "history_fits tol (Some e) h \<Longrightarrow> trading e \<Longrightarrow> (\<forall>n\<in>set ns. \<not> terminal n) \<Longrightarrow>
     history_fits tol (Some (e\<lparr>oe_status := Live q\<rparr>)) (h @ ns)"
  by (auto simp: history_fits_def trading_def list_all_iff split: order_status.splits)

lemma history_fits_late:
  "history_fits tol (Some e) h \<Longrightarrow> \<not> trading e \<Longrightarrow> late_rejection tol n \<Longrightarrow> history_fits tol (Some e) (h @ [n])"
  by (auto simp: history_fits_def trading_def ends_well_snoc split: order_status.splits)

text \<open>The outcomes of a status update that succeeds.\<close>

lemma update_order_status_cases:
  assumes "update_order_status D t oid q c = (t', Inr (o1, rem, was_live, is_cancelled))"
  obtains
    (cancel) e where "orders t oid = Some e" "trading e"
      "t' = set_status t oid e (Cancelled 0)" "was_live" "is_cancelled" "rem = 0" "oe_order e = o1"
  | (live) e x where "orders t oid = Some e" "oe_status e = Live x" "dec_sub D x q = Some rem"
      "t' = set_status t oid e (Live rem)" "\<not> c" "was_live" "\<not> is_cancelled"
      "tracker_tolerance t \<le> rem" "oe_order e = o1"
  | (late) e where "orders t oid = Some e" "\<not> trading e" "t' = t" "\<not> was_live" "is_cancelled" "c"
      "q < tracker_tolerance t" "rem = 0"
  using assms
  by (auto simp: update_order_status_def trading_def split: option.splits order_status.splits if_splits)

lemma update_order_status_error:
  "update_order_status D t oid q c = (t', Inl e) \<Longrightarrow> t' = t"
  by (auto simp: update_order_status_def split: option.splits order_status.splits if_splits)

lemma tolerance_set_status [simp]: "tracker_tolerance (set_status t oid e st) = tracker_tolerance t"
  by (simp add: set_status_def)

lemma histories_fit_status:
  assumes "histories_fit tol (t, pub)" and "orders t oid = Some e" and "trading e"
    and "\<forall>n\<in>set ns. about n = oid"
    and "(\<exists>q. st = Live q) \<and> (\<forall>n\<in>set ns. \<not> terminal n) \<or> (\<exists>q n. st = Cancelled q \<and> ns = [n])"
  shows "histories_fit tol (set_status t oid e st, pub @ ns)"
proof -
  have own: "history oid ns = ns" using assms(4) by (simp add: history_def)
  have others: "history oid' ns = []" if "oid' \<noteq> oid" for oid'
    using assms(4) that by (auto simp: history_def filter_empty_conv)
  have "history_fits tol (Some e) (history oid pub)" using assms(1,2) by (metis histories_fit.simps)
  then have "history_fits tol (Some (e\<lparr>oe_status := st\<rparr>)) (history oid pub @ ns)"
    using assms(3,5) history_fits_cancelled history_fits_live by blast
  then show ?thesis using assms(1) own others by simp
qed

lemma histories_fit_late:
  assumes "histories_fit tol (t, pub)" "orders t oid = Some e" "\<not> trading e" "about n = oid" "late_rejection tol n"
  shows "histories_fit tol (t, pub @ [n])"
proof -
  have "history_fits tol (Some e) (history oid pub)" using assms(1,2) by (metis histories_fit.simps)
  from history_fits_late [OF this assms(3,5)] assms(1,2,4) show ?thesis by simp
qed

lemma histories_fit_update:
  assumes inv: "histories_fit tol (t, pub)"
    and upd: "update_order_status D t oid q c = (t', Inr (o1, rem, True, is_cancelled))"
    and "about n = oid" and "terminal n = is_cancelled"
  shows "histories_fit tol (t', pub @ [n])"
  using upd
proof (cases rule: update_order_status_cases)
  case (cancel e)
  with histories_fit_status [OF inv cancel(1,2), of "[n]" "Cancelled 0"] assms(3) show ?thesis
    by simp
next
  case (live e x)
  then have "trading e" by (simp add: trading_def)
  with live histories_fit_status [OF inv live(1), of "[n]" "Live rem"] assms(3,4) show ?thesis
    by simp
qed simp

lemma handle_order_notification_fits:
  assumes inv: "histories_fit tol (t, pub)"
  shows "histories_fit tol (tracker_step D send (t, pub) (Notify n))"
proof (cases n)
  case (Rejected oid s sd price q reason ts)
  obtain t' r where upd: "update_order_status D t oid q True = (t', r)" by fastforce
  show ?thesis
  proof (cases r)
    case (Inl e)
    with upd update_order_status_error [of D t oid q True] inv Rejected show ?thesis
      by (auto simp: handle_rejected_def)
  next
    case (Inr a)
    obtain o1 rem w c where a: "a = (o1, rem, w, c)" by (cases a)
    with upd Inr have upd': "update_order_status D t oid q True = (t', Inr (o1, rem, w, c))" by simp
    let ?n = "TrackerCancel \<lparr>tc_order_id = oid, tc_batch_order_id = so_batch_order_id o1, tc_symbol = s, tc_side = sd,
      tc_quantity_cancelled = q, tc_original_quantity = so_quantity o1, tc_quantity_remaining = rem,
      tc_cancel_status = from_rejected reason, tc_cancel_timestamp = ts\<rparr>"
    have n: "terminal ?n" by (simp add: from_rejected_def)
    have "histories_fit tol (t', pub @ [?n])"
    proof (cases w)
      case True
      then have c using upd' by (auto elim: update_order_status_cases)
      with True n upd' histories_fit_update [OF inv, of D oid q True t' o1 rem c ?n] show ?thesis by simp
    next
      case False
      with upd' obtain e where e: "orders t oid = Some e" "\<not> trading e" "t' = t" "q < tracker_tolerance t"
        by (auto elim: update_order_status_cases)
      with inv histories_fit_late [OF inv e(1,2), of ?n] show ?thesis by (simp add: from_rejected_def)
    qed
    with upd' Rejected show ?thesis by (simp add: handle_rejected_def del: histories_fit.simps)
  qed
next
  case (Fill oid lid s sd price q fee ts)
  obtain t' r where upd: "update_order_status D t oid q False = (t', r)" by fastforce
  show ?thesis
  proof (cases r)
    case (Inl e)
    with upd update_order_status_error [of D t oid q False] inv Fill show ?thesis
      by (auto simp: handle_fill_def)
  next
    case (Inr a)
    obtain o1 rem w c where a: "a = (o1, rem, w, c)" by (cases a)
    with upd Inr have upd': "update_order_status D t oid q False = (t', Inr (o1, rem, w, c))" by simp
    then have w: "w" by (auto elim: update_order_status_cases)
    with upd' histories_fit_update [OF inv, of D oid q False t' o1 rem c] Fill show ?thesis
      by (simp add: handle_fill_def del: histories_fit.simps)
  qed
next
  case (Cancel oid s sd q ts)
  obtain t' r where upd: "update_order_status D t oid q True = (t', r)" by fastforce
  show ?thesis
  proof (cases r)
    case (Inl e)
    with upd update_order_status_error [of D t oid q True] inv Cancel show ?thesis
      by (auto simp: handle_cancel_def)
  next
    case (Inr a)
    obtain o1 rem w c where a: "a = (o1, rem, w, c)" by (cases a)
    with upd Inr have upd': "update_order_status D t oid q True = (t', Inr (o1, rem, w, c))" by simp
    show ?thesis
    proof (cases w)
      case True
      then have "c" using upd' by (auto elim: update_order_status_cases)
      with True upd' histories_fit_update [OF inv, of D oid q True t' o1 rem c] Cancel show ?thesis
        by (simp add: handle_cancel_def from_cancelled_def del: histories_fit.simps)
    next
      case False
      then have "t' = t" using upd' by (auto elim: update_order_status_cases)
      with False upd' inv Cancel show ?thesis by (simp add: handle_cancel_def)
    qed
  qed
next
  case (NewOrder oid s sd price q ts)
  show ?thesis
  proof (cases "\<exists>e x. orders t oid = Some e \<and> oe_status e = Sent x")
    case True
    then obtain e x where e: "orders t oid = Some e" "oe_status e = Sent x" by blast
    then have "trading e" by (simp add: trading_def)
    with e histories_fit_status [OF inv e(1), of "[]" "Live q"] NewOrder show ?thesis
      by (simp add: update_order_new_def)
  next
    case False
    with inv NewOrder show ?thesis
      by (auto simp: update_order_new_def split: option.splits order_status.splits)
  qed
qed (use inv in auto)

lemma new_order_orders:
  "tracker_tolerance (fst (new_order send t o1)) = tracker_tolerance t \<and>
   (orders (fst (new_order send t o1)) = orders t \<or>
    (\<exists>e. orders t (so_order_id o1) = None \<and> (\<forall>x. oe_status e \<noteq> Cancelled x) \<and>
      orders (fst (new_order send t o1)) = (orders t)(so_order_id o1 \<mapsto> e)))"
proof (cases "session t = None \<or> orders t (so_order_id o1) \<noteq> None")
  case True
  then show ?thesis by (auto simp: new_order_def split: option.splits)
next
  case False
  then obtain sid where sid: "session t = Some sid" "orders t (so_order_id o1) = None" by auto
  let ?e = "order_entry_new sid o1"
  show ?thesis
  proof (cases "send sid o1")
    case (Inl err)
    with sid show ?thesis
      by (intro conjI disjI2 exI [of _ "?e\<lparr>oe_status := SendFailed\<rparr>"]) (simp_all add: new_order_def Let_def)
  next
    case (Inr u)
    with sid show ?thesis
      by (intro conjI disjI2 exI [of _ ?e]) (simp_all add: new_order_def Let_def order_entry_new_def)
  qed
qed

lemma history_fits_fresh:
  "history_fits tol None h \<Longrightarrow> \<forall>x. oe_status e \<noteq> Cancelled x \<Longrightarrow> history_fits tol (Some e) h"
  by (auto simp: history_fits_def split: order_status.splits)

lemma new_order_fits:
  assumes "histories_fit tol (t, pub)"
  shows "histories_fit tol (fst (new_order send t o1), pub)"
proof -
  from new_order_orders [of send t o1] have tol: "tracker_tolerance (fst (new_order send t o1)) = tracker_tolerance t"
    and "orders (fst (new_order send t o1)) = orders t \<or>
    (\<exists>e. orders t (so_order_id o1) = None \<and> (\<forall>x. oe_status e \<noteq> Cancelled x) \<and>
      orders (fst (new_order send t o1)) = (orders t)(so_order_id o1 \<mapsto> e))" by blast+
  from this(2) show ?thesis
  proof (elim disjE exE conjE)
    fix e assume e: "orders t (so_order_id o1) = None" "\<forall>x. oe_status e \<noteq> Cancelled x"
      and upd: "orders (fst (new_order send t o1)) = (orders t)(so_order_id o1 \<mapsto> e)"
    have "history_fits tol None (history (so_order_id o1) pub)" using assms e(1) by (metis histories_fit.simps)
    from history_fits_fresh [OF this e(2)] assms upd tol show ?thesis by simp
  qed (use assms tol in simp)
qed

interpretation tracker: reactive "tracker_step D send" "\<lambda>_ _. True" "histories_fit tol" for D send tol
proof unfold_locales
  fix s :: "order_tracker \<times> order_tracker_notification list" and e
  assume inv: "histories_fit tol s"
  obtain t pub where s: "s = (t, pub)" by fastforce
  show "histories_fit tol (tracker_step D send s e)"
  proof (cases e)
    case (Notify n)
    with inv s handle_order_notification_fits show ?thesis by blast
  next
    case (Send o1)
    with inv s new_order_fits show ?thesis by (simp only: tracker_step.simps)
  qed
qed

text \<open>
  C10: however notifications and new orders are interleaved, from an empty tracker: once an order's
  end has been published (a fill to the tolerance, a cancellation or a rejection), no fill and no
  cancellation is ever published for it again, and its status says that it has ended. All that can
  still follow are rejections of less than the tolerance, which the tracker also publishes for an
  order that is no longer live.
\<close>

theorem order_ends_once:
  assumes "run (tracker_step D send) (order_tracker_new tol, []) inputs = (t, pub)"
    and "filter (\<lambda>n. about n = oid) pub = before @ n # after" and "terminal n"
  shows "list_all (late_rejection tol) after \<and>
    (\<exists>e. orders t oid = Some e \<and> ((\<exists>q. oe_status e = Cancelled q) \<or> oe_status e = SendFailed \<and> late_rejection tol n))"
proof -
  have "histories_fit tol (order_tracker_new tol, [])"
    by (simp add: order_tracker_new_def history_fits_def)
  from tracker.run_inv [OF this admits_True, of D send inputs] assms(1)
  have "history_fits tol (orders t oid) (before @ n # after)"
    using assms(2) by (metis histories_fit.simps history_def)
  with assms(3) show ?thesis
    by (auto simp: history_fits_def dest: ends_well_after split: option.splits order_status.splits)
qed

abbreviation demo_order :: single_order where
  "demo_order \<equiv> \<lparr>so_order_id = ''O1'', so_batch_order_id = ''B1'', so_symbol = ''A'', so_side = Buy,
     so_price = 100, so_quantity = 10, so_created_timestamp = 0\<rparr>"

abbreviation demo_inputs :: "tracker_input list" where
  "demo_inputs \<equiv> [Notify (SessionLogon ''S'' 0), Send demo_order,
     Notify (NewOrder ''O1'' ''A'' Buy 100 10 1), Notify (Fill ''O1'' ''L1'' ''A'' Buy 99 4 0 2),
     Notify (Fill ''O1'' ''L2'' ''A'' Buy 99 6 0 3), Notify (Cancel ''O1'' ''A'' Buy 0 4),
     Notify (Fill ''O1'' ''L3'' ''A'' Buy 99 1 0 5)]"

declare order_tracker_new_def [evals] new_order_def [evals] order_entry_new_def [evals]
  update_order_new_def [evals] update_order_status_def [evals] set_status_def [evals]
  handle_fill_def [evals] handle_cancel_def [evals] handle_rejected_def [evals]

theorem order_ends_once_witness:
  "map terminal (snd (run (tracker_step (dec_upto 1000) (\<lambda>_ _. Inr ())) (order_tracker_new (1 / 100), [])
     demo_inputs)) = [False, True] \<and>
   (\<exists>e q. orders (fst (run (tracker_step (dec_upto 1000) (\<lambda>_ _. Inr ())) (order_tracker_new (1 / 100), [])
     demo_inputs)) ''O1'' = Some e \<and> oe_status e = Cancelled q)"
proof -
  let ?step = "tracker_step (dec_upto 1000) (\<lambda>_ _. Inr ())" and ?s = "(order_tracker_new (1 / 100), [])"
  obtain t pub where r: "run ?step ?s demo_inputs = (t, pub)" by fastforce
  then have pub: "map terminal pub = [False, True]" "map about pub = [''O1'', ''O1'']"
    by (auto simp: evals)
  then obtain n1 n2 where n: "pub = [n1, n2]" "terminal n2" "about n1 = ''O1''" "about n2 = ''O1''"
    by auto
  have "\<not> late_rejection (1 / 100) n2" using r n(1) by (auto simp: evals)
  with order_ends_once [OF r, of "''O1''" "[n1]" n2 "[]"] n r pub show ?thesis by simp
qed

end
