(* ===== verification/InventoryManager.thy ===== *)
theory InventoryManager
  imports Position OrderTracker "HOL-Library.Multiset"
begin

text \<open>
  The inventory, \<open>libs/symm-core/src/order_sender/inventory_manager.rs\<close>: positions by base
  asset, the handling of the order tracker's notifications, the dispatch of batch orders to the
  tracker, and the assignment of lots. Handlers return the manager, the published
  \<open>InventoryEvent\<close>s and a result. Persistence is left out: a failed \<open>store\<close> is only logged.
\<close>

section \<open>Events and state\<close>

record open_lot_event =
  ol_order_id :: order_id
  ol_batch_order_id :: batch_order_id
  ol_lot_id :: lot_id
  ol_symbol :: symbol
  ol_side :: side
  ol_price :: amount
  ol_quantity :: amount
  ol_fee :: amount
  ol_original_batch_quantity :: amount
  ol_batch_quantity_remaining :: amount
  ol_timestamp :: timestamp

record close_lot_event =
  cl_original_order_id :: order_id
  cl_original_batch_order_id :: batch_order_id
  cl_original_lot_id :: lot_id
  cl_closing_order_id :: order_id
  cl_closing_batch_order_id :: batch_order_id
  cl_closing_lot_id :: lot_id
  cl_symbol :: symbol
  cl_side :: side
  cl_original_price :: amount
  cl_closing_price :: amount
  cl_closing_fee :: amount
  cl_quantity_closed :: amount
  cl_original_quantity :: amount
  cl_quantity_remaining :: amount
  cl_closing_batch_original_quantity :: amount
  cl_closing_batch_quantity_remaining :: amount
  cl_original_timestamp :: timestamp
  cl_closing_timestamp :: timestamp

datatype inventory_event =
  OpenLot open_lot_event
| CloseLot close_lot_event
| InventoryCancel tracker_cancel

record inventory_manager =
  positions :: "symbol \<rightharpoonup> position"
  im_tolerance :: amount

definition inventory_manager_new :: "amount \<Rightarrow> inventory_manager" where
  "inventory_manager_new tol = \<lparr>positions = Map.empty, im_tolerance = tol\<rparr>"

section \<open>Fills\<close>

definition fill_of :: "tracker_fill \<Rightarrow> amount \<Rightarrow> fill" where
  "fill_of n q = \<lparr>f_order_id = tf_order_id n, f_batch_order_id = tf_batch_order_id n,
     f_lot_id = tf_lot_id n, f_side = tf_side n, f_price = tf_price_filled n, f_quantity = q,
     f_fee = tf_fee_paid n, f_timestamp = tf_fill_timestamp n\<rparr>"

definition open_event :: "tracker_fill \<Rightarrow> amount \<Rightarrow> inventory_event" where
  "open_event n q = OpenLot \<lparr>ol_order_id = tf_order_id n, ol_batch_order_id = tf_batch_order_id n,
     ol_lot_id = tf_lot_id n, ol_symbol = tf_symbol n, ol_side = tf_side n,
     ol_price = tf_price_filled n, ol_quantity = q, ol_fee = tf_fee_paid n,
     ol_original_batch_quantity = tf_original_quantity n,
     ol_batch_quantity_remaining = tf_quantity_remaining n, ol_timestamp = tf_fill_timestamp n\<rparr>"

text \<open>
  The quote suffix is stripped twice for the key of the position, and once for its symbol.
\<close>

definition im_create_lot ::
  "dec_ops \<Rightarrow> inventory_manager \<Rightarrow> tracker_fill \<Rightarrow> amount \<Rightarrow>
     inventory_manager \<times> inventory_event list \<times> unit result" where
  "im_create_lot D im n quantity =
     (let base_asset = get_base_asset_symbol_workaround (tf_symbol n);
          key = get_base_asset_symbol_workaround base_asset;
          p = (case positions im key of Some p \<Rightarrow> p | None \<Rightarrow> position_new base_asset (tf_side n));
          (p', r) = create_lot D p (fill_of n quantity);
          im' = im\<lparr>positions := (positions im)(key \<mapsto> p')\<rparr>
      in case r of
           Inl e \<Rightarrow> (im', [], Inl e)
         | Inr _ \<Rightarrow> (im', [open_event n quantity], Inr ()))"

definition close_event :: "tracker_fill \<Rightarrow> lot \<Rightarrow> inventory_event" where
  "close_event n l = CloseLot \<lparr>cl_original_order_id = original_order_id l,
     cl_original_batch_order_id = original_batch_order_id l, cl_original_lot_id = lot_lot_id l,
     cl_closing_order_id = tf_order_id n, cl_closing_batch_order_id = tf_batch_order_id n,
     cl_closing_lot_id = tf_lot_id n, cl_symbol = tf_symbol n, cl_side = opposite_side (tf_side n),
     cl_original_price = original_price l, cl_closing_price = tf_price_filled n,
     cl_closing_fee = tf_fee_paid n, cl_quantity_closed = get_last_transaction_quantity l,
     cl_original_quantity = original_quantity l, cl_quantity_remaining = remaining_quantity l,
     cl_closing_batch_original_quantity = tf_original_quantity n,
     cl_closing_batch_quantity_remaining = tf_quantity_remaining n,
     cl_original_timestamp = lot_created_timestamp l, cl_closing_timestamp = tf_fill_timestamp n\<rparr>"

definition im_match_lots ::
  "dec_ops \<Rightarrow> inventory_manager \<Rightarrow> tracker_fill \<Rightarrow>
     inventory_manager \<times> inventory_event list \<times> amount option result" where
  "im_match_lots D im n =
     (let base_asset = get_base_asset_symbol_workaround (tf_symbol n)
      in case positions im base_asset of
           None \<Rightarrow> (im, [], Inr (Some (tf_quantity_filled n)))
         | Some p \<Rightarrow>
             let (p', r) = match_lots D p (fill_of n (tf_quantity_filled n)) (im_tolerance im)
             in case r of
                  Inl e \<Rightarrow> (im\<lparr>positions := (positions im)(base_asset \<mapsto> p')\<rparr>, [], Inl e)
                | Inr remaining \<Rightarrow>
                    let (p'', lots) = drain_closed_lots_and_callback_on_updated p'
                    in (im\<lparr>positions := (positions im)(base_asset \<mapsto> p'')\<rparr>,
                        map (close_event n) lots, Inr remaining))"

definition im_handle_fill ::
  "dec_ops \<Rightarrow> inventory_manager \<Rightarrow> tracker_fill \<Rightarrow>
     inventory_manager \<times> inventory_event list \<times> unit result" where
  "im_handle_fill D im n =
     (let (im1, closes, r) = im_match_lots D im n
      in case r of
           Inl e \<Rightarrow> (im1, closes, Inl e)
         | Inr unmatched \<Rightarrow>
             let (im2, opens, r2) =
                   (case unmatched of
                      Some q \<Rightarrow> im_create_lot D im1 n q
                    | None \<Rightarrow> (im1, [], Inr ()))
             in case r2 of
                  Inl e \<Rightarrow> (im2, closes @ opens, Inl e)
                | Inr _ \<Rightarrow>
                    (im2,
                     closes @ opens @
                     (if tf_is_cancelled n
                      then [InventoryCancel \<lparr>tc_order_id = tf_order_id n,
                              tc_batch_order_id = tf_batch_order_id n, tc_symbol = tf_symbol n,
                              tc_side = tf_side n, tc_quantity_cancelled = 0,
                              tc_original_quantity = tf_original_quantity n,
                              tc_quantity_remaining = tf_quantity_remaining n,
                              tc_cancel_status = FullyCancelled,
                              tc_cancel_timestamp = tf_fill_timestamp n\<rparr>]
                      else []),
                     Inr ()))"

fun handle_fill_report ::
  "dec_ops \<Rightarrow> inventory_manager \<Rightarrow> order_tracker_notification \<Rightarrow>
     inventory_manager \<times> inventory_event list \<times> unit result" where
  "handle_fill_report D im (TrackerFill n) = im_handle_fill D im n"
| "handle_fill_report D im (TrackerCancel c) = (im, [InventoryCancel c], Inr ())"

section \<open>Batch orders\<close>

definition single_order_of :: "batch_order \<Rightarrow> asset_order \<Rightarrow> single_order" where
  "single_order_of b a = \<lparr>so_order_id = ao_order_id a, so_batch_order_id = bo_batch_order_id b,
     so_symbol = ao_symbol a, so_side = ao_side a, so_price = ao_price a,
     so_quantity = ao_quantity a, so_created_timestamp = bo_created_timestamp b\<rparr>"

fun send_all ::
  "(session_id \<Rightarrow> single_order \<Rightarrow> unit result) \<Rightarrow> batch_order \<Rightarrow> order_tracker \<Rightarrow> asset_order list \<Rightarrow>
     order_tracker \<times> unit result" where
  "send_all send b t [] = (t, Inr ())"
| "send_all send b t (a # as) =
     (case new_order send t (single_order_of b a) of
        (t', Inl err) \<Rightarrow>
          (t', Inl (''Failed to create new order for '' @ ao_symbol a @ '' in basket '' @
                    bo_batch_order_id b @ '': '' @ err))
      | (t', Inr _) \<Rightarrow> send_all send b t' as)"

definition new_order_batch ::
  "(session_id \<Rightarrow> single_order \<Rightarrow> unit result) \<Rightarrow> order_tracker \<Rightarrow> batch_order \<Rightarrow>
     order_tracker \<times> unit result" where
  "new_order_batch send t b = send_all send b t (bo_asset_orders b)"

section \<open>Lot assignments and queries\<close>

text \<open>
  The assignments arrive as a hash map from symbol and lot; \<open>entries\<close> lists it in its iteration
  order. They are regrouped by symbol, and the groups are visited in the hash map's order again,
  which \<open>visit\<close> gives.
\<close>

fun nest_assignments ::
  "((symbol \<times> lot_id) \<times> lot_assignment list) list \<Rightarrow>
     (symbol \<rightharpoonup> (lot_id \<rightharpoonup> lot_assignment list)) \<Rightarrow> (symbol \<rightharpoonup> (lot_id \<rightharpoonup> lot_assignment list))" where
  "nest_assignments [] m = m"
| "nest_assignments (((s, lid), v) # es) m =
     nest_assignments es
       (case m s of
          None \<Rightarrow> m(s \<mapsto> [lid \<mapsto> v])
        | Some x \<Rightarrow>
            (case x lid of
               Some v0 \<Rightarrow> m(s \<mapsto> x(lid \<mapsto> v0 @ v))
             | None \<Rightarrow> m(s \<mapsto> x(lid \<mapsto> v))))"

fun assign_groups ::
  "inventory_manager \<Rightarrow> (symbol \<rightharpoonup> (lot_id \<rightharpoonup> lot_assignment list)) \<Rightarrow> symbol list \<Rightarrow>
     inventory_manager \<times> unit result" where
  "assign_groups im m [] = (im, Inr ())"
| "assign_groups im m (s # ss) =
     (case m s of
        None \<Rightarrow> assign_groups im m ss
      | Some grp \<Rightarrow>
          (case positions im s of
             None \<Rightarrow> (im, Inl ''Failed to find position'')
           | Some p \<Rightarrow>
               (case assign_lots p grp of
                  (p', Inl e) \<Rightarrow> (im\<lparr>positions := (positions im)(s \<mapsto> p')\<rparr>, Inl e)
                | (p', Inr _) \<Rightarrow> assign_groups (im\<lparr>positions := (positions im)(s \<mapsto> p')\<rparr>) m ss)))"

definition im_assign_lots ::
  "inventory_manager \<Rightarrow> ((symbol \<times> lot_id) \<times> lot_assignment list) list \<Rightarrow> symbol list \<Rightarrow>
     inventory_manager \<times> unit result" where
  "im_assign_lots im entries visit = assign_groups im (nest_assignments entries Map.empty) visit"

text \<open>
  \<open>itertools::partition\<close> moves the missing symbols to the front in no specified order: the
  response's list is a multiset.
\<close>

definition get_positions ::
  "inventory_manager \<Rightarrow> symbol list \<Rightarrow> (symbol \<rightharpoonup> position) \<times> symbol multiset" where
  "get_positions im symbols =
     (positions im |` set symbols, mset (filter (\<lambda>s. positions im s = None) symbols))"

text \<open>
  Reconciliation merges the exchange's balances into the positions: \<open>(position, balance)\<close> per symbol.
\<close>

fun merge_balances ::
  "(symbol \<rightharpoonup> position option \<times> amount option) \<Rightarrow> (symbol \<times> amount) list \<Rightarrow>
     (symbol \<rightharpoonup> position option \<times> amount option)" where
  "merge_balances m [] = m"
| "merge_balances m ((s, b) # bs) =
     merge_balances (m(s \<mapsto> (case m s of Some (p, _) \<Rightarrow> (p, Some b) | None \<Rightarrow> (None, Some b)))) bs"

definition get_reconciled_positions ::
  "inventory_manager \<Rightarrow> (symbol \<times> amount) list \<Rightarrow> (symbol \<rightharpoonup> position option \<times> amount option)" where
  "get_reconciled_positions im balances =
     merge_balances (\<lambda>s. map_option (\<lambda>p. (Some p, Some 0)) (positions im s)) balances"

section \<open>Quantities published for a fill\<close>

fun closed_quantity :: "inventory_event \<Rightarrow> amount" where
  "closed_quantity (CloseLot c) = cl_quantity_closed c"
| "closed_quantity _ = 0"

fun opened_quantity :: "inventory_event \<Rightarrow> amount" where
  "opened_quantity (OpenLot c) = ol_quantity c"
| "opened_quantity _ = 0"

lemma event_quantities [simp]:
  "closed_quantity (close_event n l) = get_last_transaction_quantity l"
  "opened_quantity (close_event n l) = 0"
  "closed_quantity (open_event n q) = 0"
  "opened_quantity (open_event n q) = q"
  by (simp_all add: close_event_def open_event_def)

lemma fill_of_sel [simp]:
  "f_quantity (fill_of n q) = q" "f_side (fill_of n q) = tf_side n"
  "f_timestamp (fill_of n q) = tf_fill_timestamp n"
  by (simp_all add: fill_of_def)

lemma im_create_lot_ok:
  "im_create_lot D im n q = (im', evs, Inr u) \<Longrightarrow> evs = [open_event n q]"
  by (auto simp: im_create_lot_def Let_def split: prod.splits sum.splits)

text \<open>A handled fill is a match, the lot for what it leaves unmatched, and perhaps a cancel.\<close>

lemma im_handle_fill_okE:
  assumes "im_handle_fill D im n = (im', evs, Inr u)"
  obtains im1 closes unmatched fin where
    "im_match_lots D im n = (im1, closes, Inr unmatched)"
    "evs = closes @ (case unmatched of None \<Rightarrow> [] | Some q \<Rightarrow> [open_event n q]) @ fin"
    "total closed_quantity fin = 0" "total opened_quantity fin = 0"
    "case unmatched of None \<Rightarrow> im' = im1
     | Some q \<Rightarrow> im_create_lot D im1 n q = (im', [open_event n q], Inr ())"
proof -
  obtain im1 closes r where m: "im_match_lots D im n = (im1, closes, r)" by (rule prod_cases3)
  from assms m obtain unmatched where r: "r = Inr unmatched"
    by (cases r) (auto simp: im_handle_fill_def)
  show thesis
  proof (cases unmatched)
    case None
    with assms m r show thesis
      by (intro that) (auto simp: im_handle_fill_def)
  next
    case (Some q)
    obtain im2 opens r2 where c: "im_create_lot D im1 n q = (im2, opens, r2)" by (rule prod_cases3)
    with assms m r Some have "r2 = Inr ()" by (cases r2) (auto simp: im_handle_fill_def)
    moreover from this c have "opens = [open_event n q]" using im_create_lot_ok by blast
    ultimately show thesis using assms m r Some c
      by (intro that) (auto simp: im_handle_fill_def)
  qed
qed

text \<open>
  When a fill is handled against a position of the opposite side, the quantities of the
  \<open>CloseLot\<close> events published for it and of the \<open>OpenLot\<close> event for its unmatched rest add up
  to the filled quantity, within the tolerance. (The open lots carry other time stamps than the
  fill's, by which the code recognises the lot it has just updated.)
\<close>

theorem handle_fill_conserves_quantity:
  assumes D: "dec_exact D" and tol: "0 \<le> im_tolerance im" and q: "0 \<le> tf_quantity_filled n"
    and p: "positions im (get_base_asset_symbol_workaround (tf_symbol n)) = Some p"
    and side: "pos_side p \<noteq> tf_side n"
    and fresh: "\<forall>l\<in>set (open_lots p). lot_last_update_timestamp l \<noteq> tf_fill_timestamp n \<and>
      remaining_quantity l \<le> original_quantity l"
    and ok: "handle_fill_report D im (TrackerFill n) = (im', evs, Inr u)"
  shows "\<bar>tf_quantity_filled n - (total closed_quantity evs + total opened_quantity evs)\<bar>
    \<le> im_tolerance im"
proof -
  let ?f = "fill_of n (tf_quantity_filled n)"
  from ok have "im_handle_fill D im n = (im', evs, Inr u)" by simp
  then obtain im1 closes unmatched fin where
    m: "im_match_lots D im n = (im1, closes, Inr unmatched)"
    and evs: "evs = closes @ (case unmatched of None \<Rightarrow> [] | Some q \<Rightarrow> [open_event n q]) @ fin"
    and fin: "total closed_quantity fin = 0" "total opened_quantity fin = 0"
    by (rule im_handle_fill_okE)
  obtain p' r where r: "match_lots D p ?f (im_tolerance im) = (p', r)" by fastforce
  with m p have r': "match_lots D p ?f (im_tolerance im) = (p', Inr unmatched)"
    and closes: "closes = map (close_event n) (snd (drain_closed_lots_and_callback_on_updated p'))"
    by (auto simp: im_match_lots_def Let_def split: sum.splits prod.splits)
  have "total closed_quantity closes = balance p - balance p'"
    using match_callback_quantities [OF D tol _ _ r'] q side fresh closes by (simp add: comp_def)
  moreover have "total opened_quantity closes = 0" using closes by (simp add: comp_def)
  ultimately show ?thesis
    using match_lots_accounting [OF D tol _ _ r'] q side evs fin
    by (simp add: split: option.splits)
qed

abbreviation demo_tracker_fill :: "string \<Rightarrow> symbol \<Rightarrow> side \<Rightarrow> amount \<Rightarrow> timestamp \<Rightarrow> tracker_fill" where
  "demo_tracker_fill i s sd q ts \<equiv> \<lparr>tf_order_id = ''O1'', tf_batch_order_id = ''B1'', tf_lot_id = i,
     tf_symbol = s, tf_side = sd, tf_price_filled = 100, tf_quantity_filled = q, tf_fee_paid = 0,
     tf_original_quantity = 50, tf_quantity_remaining = 9, tf_is_cancelled = False,
     tf_fill_timestamp = ts\<rparr>"

declare inventory_manager_new_def [evals] fill_of_def [evals] open_event_def [evals]
  close_event_def [evals] im_create_lot_def [evals] im_match_lots_def [evals]
  im_handle_fill_def [evals] drain_closed_lots_and_callback_on_updated_def [evals]
  get_base_asset_symbol_workaround_def [evals] strip_suffix_def [evals]
  get_last_transaction_quantity_def [evals]

theorem handle_fill_conserves_quantity_witness:
  "let im = fst (handle_fill_report (dec_upto 1000) (inventory_manager_new (1 / 100))
               (TrackerFill (demo_tracker_fill ''L1'' ''AUSDC'' Buy 10 1)));
       n = demo_tracker_fill ''L2'' ''AUSDC'' Sell 14 2;
       evs = fst (snd (handle_fill_report (dec_upto 1000) im (TrackerFill n)))
   in length evs = 2 \<and> \<bar>14 - (total closed_quantity evs + total opened_quantity evs)\<bar> \<le> 1 / 100"
proof -
  let ?im = "fst (handle_fill_report (dec_upto 1000) (inventory_manager_new (1 / 100))
               (TrackerFill (demo_tracker_fill ''L1'' ''AUSDC'' Buy 10 1)))"
  let ?n = "demo_tracker_fill ''L2'' ''AUSDC'' Sell 14 2"
  obtain im' evs r where run: "handle_fill_report (dec_upto 1000) ?im (TrackerFill ?n) = (im', evs, r)"
    by (rule prod_cases3)
  then have "r = Inr ()" and len: "length evs = 2" by (auto simp: evals)
  with run have ok: "handle_fill_report (dec_upto 1000) ?im (TrackerFill ?n) = (im', evs, Inr ())"
    by simp
  obtain p where p: "positions ?im (get_base_asset_symbol_workaround (tf_symbol ?n)) = Some p"
    by (simp add: evals)
  then have "pos_side p \<noteq> tf_side ?n" and "\<forall>l\<in>set (open_lots p).
      lot_last_update_timestamp l \<noteq> tf_fill_timestamp ?n \<and> remaining_quantity l \<le> original_quantity l"
    by (auto simp: evals)
  note bound = handle_fill_conserves_quantity [OF dec_exact_upto _ _ p this ok]
  have "im_tolerance ?im = 1 / 100" by (simp add: evals)
  with bound have "\<bar>14 - (total closed_quantity evs + total opened_quantity evs)\<bar> \<le> 1 / 100" by simp
  with run len show ?thesis by (simp add: Let_def)
qed

section \<open>A fill on the position's own side\<close>

text \<open>
  A fill on the position's own side that follows a partial close publishes that close a
  second time, now attributed to the new order: \<open>match_lots\<close> returns before it moves the
  position's time stamp, and the callback still recognises the front lot as just updated.
\<close>

theorem same_side_fill_repeats_close:
  assumes "positions im (get_base_asset_symbol_workaround (tf_symbol n)) = Some p"
    and "pos_side p = tf_side n" and "closed_lots p = []" and "open_lots p = l # ls"
    and "remaining_quantity l \<noteq> original_quantity l"
    and "Some (lot_last_update_timestamp l) = pos_last_update_timestamp p"
    and "handle_fill_report D im (TrackerFill n) = (im', evs, Inr u)"
  shows "evs \<noteq> [] \<and> hd evs = close_event n l \<and> close_event n l \<in> set evs"
proof -
  from assms(7) have "im_handle_fill D im n = (im', evs, Inr u)" by simp
  then obtain im1 closes unmatched fin where
    m: "im_match_lots D im n = (im1, closes, Inr unmatched)"
    and evs: "evs = closes @ (case unmatched of None \<Rightarrow> [] | Some q \<Rightarrow> [open_event n q]) @ fin"
    by (rule im_handle_fill_okE)
  have "closes = [close_event n l]"
    using m assms(1-6)
    by (auto simp: im_match_lots_def match_lots_def drain_closed_lots_and_callback_on_updated_def)
  with evs show ?thesis by simp
qed

theorem same_side_fill_repeats_close_witness:
  "let D = dec_upto 1000;
       im1 = fst (handle_fill_report D (inventory_manager_new (1 / 100))
                    (TrackerFill (demo_tracker_fill ''L1'' ''AUSDC'' Buy 10 1)));
       (im2, evs2, _) = handle_fill_report D im1 (TrackerFill (demo_tracker_fill ''L2'' ''AUSDC'' Sell 4 2));
       (im3, evs3, _) = handle_fill_report D im2 (TrackerFill (demo_tracker_fill ''L3'' ''AUSDC'' Buy 5 3))
   in map closed_quantity evs2 = [4] \<and> map closed_quantity evs3 = [4, 0]"
proof -
  let ?D = "dec_upto 1000"
  let ?im1 = "fst (handle_fill_report ?D (inventory_manager_new (1 / 100))
                    (TrackerFill (demo_tracker_fill ''L1'' ''AUSDC'' Buy 10 1)))"
  let ?n = "demo_tracker_fill ''L3'' ''AUSDC'' Buy 5 3"
  obtain im2 evs2 r2 where two:
    "handle_fill_report ?D ?im1 (TrackerFill (demo_tracker_fill ''L2'' ''AUSDC'' Sell 4 2)) = (im2, evs2, r2)"
    by (rule prod_cases3)
  then have e2: "map closed_quantity evs2 = [4]" by (auto simp: evals)
  obtain im3 evs3 r3 where three: "handle_fill_report ?D im2 (TrackerFill ?n) = (im3, evs3, r3)"
    by (rule prod_cases3)
  from two three have r3: "r3 = Inr ()" and e3: "length evs3 = 2" "closed_quantity (evs3 ! 1) = 0"
    by (auto simp: evals)
  obtain p where p: "positions im2 (get_base_asset_symbol_workaround (tf_symbol ?n)) = Some p"
    using two by (auto simp: evals)
  with two obtain l where l: "pos_side p = tf_side ?n" "closed_lots p = []" "open_lots p = [l]"
    "remaining_quantity l \<noteq> original_quantity l" "get_last_transaction_quantity l = 4"
    "Some (lot_last_update_timestamp l) = pos_last_update_timestamp p"
    by (auto simp: evals)
  from same_side_fill_repeats_close [OF p l(1-4) l(6) three [unfolded r3]] l(5) e3
  have "map closed_quantity evs3 = [4, 0]" by (auto simp: length_Suc_conv numeral_2_eq_2)
  with two three e2 show ?thesis by (simp add: Let_def)
qed

section \<open>Markets whose base asset looks like a quote\<close>

text \<open>
  For a market whose base asset itself ends in a known quote name, no fill is ever matched:
  lots are created under the twice-stripped key and looked up under the once-stripped one, so
  every fill opens a new lot and closes none.
\<close>

theorem double_strip_never_matches:
  assumes "get_base_asset_symbol_workaround (get_base_asset_symbol_workaround s) \<noteq>
      get_base_asset_symbol_workaround s"
    and "positions im (get_base_asset_symbol_workaround s) = None" and "tf_symbol n = s"
    and "handle_fill_report D im (TrackerFill n) = (im', evs, r)"
  shows "positions im' (get_base_asset_symbol_workaround s) = None \<and>
    (\<forall>ev\<in>set evs. \<forall>c. ev \<noteq> CloseLot c)"
  using assms
  by (auto simp: im_handle_fill_def im_match_lots_def im_create_lot_def open_event_def Let_def
      split: sum.splits prod.splits if_splits)

theorem double_strip_never_matches_witness:
  "let D = dec_upto 1000;
       im = fst (handle_fill_report D (inventory_manager_new (1 / 100))
                   (TrackerFill (demo_tracker_fill ''L1'' ''EURUSDC'' Buy 10 1)));
       (im', evs, r) = handle_fill_report D im (TrackerFill (demo_tracker_fill ''L2'' ''EURUSDC'' Sell 4 2))
   in positions im' ''EUR'' = None \<and> map opened_quantity evs = [4] \<and> (\<forall>ev\<in>set evs. \<forall>c. ev \<noteq> CloseLot c)"
proof -
  let ?D = "dec_upto 1000" and ?n = "demo_tracker_fill ''L2'' ''EURUSDC'' Sell 4 2"
  let ?im = "fst (handle_fill_report ?D (inventory_manager_new (1 / 100))
                   (TrackerFill (demo_tracker_fill ''L1'' ''EURUSDC'' Buy 10 1)))"
  have eur: "get_base_asset_symbol_workaround ''EURUSDC'' = ''EUR''"
    "get_base_asset_symbol_workaround ''EUR'' = []" by (simp_all add: evals)
  obtain im' evs r where run: "handle_fill_report ?D ?im (TrackerFill ?n) = (im', evs, r)"
    by (rule prod_cases3)
  then have "map opened_quantity evs = [4]" by (auto simp: evals)
  moreover have "positions ?im ''EUR'' = None" by (simp add: evals)
  ultimately show ?thesis
    using double_strip_never_matches [of "''EURUSDC''" ?im ?n ?D im' evs r] eur run by (simp add: Let_def)
qed

section \<open>Batch orders reach the tracker\<close>

lemma new_order_ok:
  assumes "new_order send t o1 = (t', Inr u)"
  shows "orders t (so_order_id o1) = None \<and>
    (\<exists>e. oe_order e = o1 \<and> orders t' = (orders t)(so_order_id o1 \<mapsto> e))"
  using assms
  by (auto simp: new_order_def Let_def split: option.splits sum.splits)
    (rule exI, rule conjI [OF _ refl], simp add: order_entry_new_def)

lemma send_all_ok:
  assumes "send_all send b t as = (t', Inr u)"
  shows "(\<forall>a\<in>set as. get_order t' (ao_order_id a) = Some (single_order_of b a)) \<and>
    (\<forall>oid. orders t oid \<noteq> None \<longrightarrow> orders t' oid = orders t oid)"
  using assms
proof (induction as arbitrary: t)
  case Nil
  then show ?case by simp
next
  case (Cons a as)
  from Cons.prems obtain t1 v where one: "new_order send t (single_order_of b a) = (t1, Inr v)"
    and rest: "send_all send b t1 as = (t', Inr u)"
    by (auto split: prod.splits sum.splits)
  from new_order_ok [OF one] obtain e where e: "oe_order e = single_order_of b a"
    "orders t1 = (orders t)(ao_order_id a \<mapsto> e)" "orders t (ao_order_id a) = None"
    by (auto simp: single_order_of_def)
  from Cons.IH [OF rest] have ih: "\<forall>a\<in>set as. get_order t' (ao_order_id a) = Some (single_order_of b a)"
    "\<And>oid. orders t1 oid \<noteq> None \<Longrightarrow> orders t' oid = orders t1 oid" by blast+
  have "orders t' (ao_order_id a) = Some e" using ih(2) [of "ao_order_id a"] e(2) by simp
  moreover have "orders t' oid = orders t oid" if "orders t oid \<noteq> None" for oid
    using ih(2) [of oid] e(2,3) that by (cases "oid = ao_order_id a") auto
  ultimately show ?case using ih(1) e(1) by (simp add: get_order_def)
qed

text \<open>
  When a batch order is accepted, every one of its legs is tracked under its order id with
  the batch's id, its own symbol, side, price and quantity, and no order tracked before has
  changed.
\<close>

theorem new_order_batch_tracks_all:
  assumes "new_order_batch send t b = (t', Inr u)"
  shows "(\<forall>a\<in>set (bo_asset_orders b). get_order t' (ao_order_id a) = Some (single_order_of b a)) \<and>
    (\<forall>oid. orders t oid \<noteq> None \<longrightarrow> orders t' oid = orders t oid)"
  using assms unfolding new_order_batch_def by (rule send_all_ok)

theorem new_order_batch_tracks_all_witness:
  "let b = \<lparr>bo_batch_order_id = ''B1'', bo_asset_orders =
         [\<lparr>ao_order_id = ''O1'', ao_symbol = ''A'', ao_side = Buy, ao_price = 10, ao_quantity = 2\<rparr>,
          \<lparr>ao_order_id = ''O2'', ao_symbol = ''C'', ao_side = Sell, ao_price = 7, ao_quantity = 3\<rparr>],
         bo_created_timestamp = 0\<rparr>;
       t = (order_tracker_new 1)\<lparr>session := Some ''S''\<rparr>;
       t' = fst (new_order_batch (\<lambda>_ _. Inr ()) t b)
   in \<forall>a\<in>set (bo_asset_orders b). get_order t' (ao_order_id a) = Some (single_order_of b a)"
proof -
  let ?b = "\<lparr>bo_batch_order_id = ''B1'', bo_asset_orders =
         [\<lparr>ao_order_id = ''O1'', ao_symbol = ''A'', ao_side = Buy, ao_price = 10, ao_quantity = 2\<rparr>,
          \<lparr>ao_order_id = ''O2'', ao_symbol = ''C'', ao_side = Sell, ao_price = 7, ao_quantity = 3\<rparr>],
         bo_created_timestamp = 0\<rparr>"
  let ?t = "(order_tracker_new 1)\<lparr>session := Some ''S''\<rparr>"
  obtain t' r where run: "new_order_batch (\<lambda>_ _. Inr ()) ?t ?b = (t', r)" by fastforce
  then have "r = Inr ()" by (auto simp: evals new_order_batch_def single_order_of_def)
  with run new_order_batch_tracks_all [of "\<lambda>_ _. Inr ()" ?t ?b t' "()"] show ?thesis by (simp add: Let_def)
qed

end
