(* ===== verification/CollateralPosition.thy ===== *)
theory CollateralPosition
  imports Bits "HOL-Library.Multiset"
begin

text \<open>
  A user's collateral, \<open>src/collateral/collateral_position.rs\<close>: deposits become lots of
  unconfirmed funds, which routing makes ready, orders pre-authorize and confirmed payments
  spend. Credits and debits are two \<open>CollateralSide\<close>s. A method that mutates \<open>self\<close> and can
  fail returns the side it leaves behind together with its result: on \<open>None\<close> the lots may have
  been updated in part, and whether that is kept is up to the caller (\<open>close_all_lots\<close> of the
  collateral manager does keep it).
\<close>

section \<open>Data\<close>

datatype routing_status = RoutingReady amount | NotReady | CheckLater
datatype preauth_status = Approved payment_id | PreAuthNotEnoughFunds
datatype confirm_status = Authorized "u256 list" | ConfirmNotEnoughFunds

record collateral_spend =
  sp_client_order_id :: client_order_id
  sp_payment_id :: payment_id
  sp_preauth_amount :: amount
  sp_spent_amount :: amount
  sp_timestamp :: timestamp

record collateral_lot =
  c_payment_id :: payment_id
  c_seq_num :: "u256 option"
  unconfirmed_amount :: amount
  ready_amount :: amount
  preauth_amount :: amount
  spent_amount :: amount
  c_created_timestamp :: timestamp
  c_last_update_timestamp :: timestamp
  spends :: "collateral_spend list"

definition collateral_lot_new ::
  "payment_id \<Rightarrow> u256 option \<Rightarrow> amount \<Rightarrow> timestamp \<Rightarrow> collateral_lot" where
  "collateral_lot_new pid sn amount ts = \<lparr>c_payment_id = pid, c_seq_num = sn,
     unconfirmed_amount = amount, ready_amount = 0, preauth_amount = 0, spent_amount = 0,
     c_created_timestamp = ts, c_last_update_timestamp = ts, spends = []\<rparr>"

record collateral_side =
  unconfirmed_balance :: amount
  ready_balance :: amount
  preauth_balance :: amount
  spent_balance :: amount
  cs_open_lots :: "collateral_lot list"
  cs_closed_lots :: "collateral_lot list"
  cs_created_timestamp :: timestamp
  cs_last_update_timestamp :: timestamp

definition collateral_side_new :: "timestamp \<Rightarrow> collateral_side" where
  "collateral_side_new ts = \<lparr>unconfirmed_balance = 0, ready_balance = 0, preauth_balance = 0,
     spent_balance = 0, cs_open_lots = [], cs_closed_lots = [],
     cs_created_timestamp = ts, cs_last_update_timestamp = ts\<rparr>"

section \<open>Deposits\<close>

definition already_booked :: "collateral_side \<Rightarrow> u256 option \<Rightarrow> bool" where
  "already_booked cs sn \<longleftrightarrow> (case sn of
     None \<Rightarrow> False
   | Some n \<Rightarrow> list_ex (\<lambda>l. c_seq_num l = Some n) (cs_open_lots cs @ cs_closed_lots cs))"

definition open_lot ::
  "dec_ops \<Rightarrow> collateral_side \<Rightarrow> payment_id \<Rightarrow> u256 option \<Rightarrow> amount \<Rightarrow> timestamp \<Rightarrow>
     collateral_side \<times> unit result" where
  "open_lot D cs pid sn amount ts =
     (if already_booked cs sn then (cs, Inr ())
      else let cs1 = cs\<lparr>cs_open_lots := cs_open_lots cs @ [collateral_lot_new pid sn amount ts]\<rparr>
           in case dec_add D (unconfirmed_balance cs) amount of
                None \<Rightarrow> (cs1, Inl ''Math Problem'')
              | Some b \<Rightarrow> (cs1\<lparr>unconfirmed_balance := b, cs_last_update_timestamp := ts\<rparr>, Inr ()))"

section \<open>How far an amount reaches into the lots\<close>

text \<open>
  The three operations below walk the open lots and subtract each lot's funds from the amount
  until a lot covers what is left: \<open>Done\<close> with the rest and that lot's index, or \<open>Continue\<close>
  when every lot is used up. \<open>key\<close> says which funds of a lot count.
\<close>

definition scan_step ::
  "dec_ops \<Rightarrow> amount \<Rightarrow> (collateral_lot \<Rightarrow> amount) \<Rightarrow> (amount \<times> nat) option \<Rightarrow> collateral_lot \<Rightarrow>
     (amount \<times> nat) option walk" where
  "scan_step D zt key acc l =
     (case acc of
        None \<Rightarrow> Done None
      | Some (amount, pos) \<Rightarrow>
          (case dec_sub D amount (key l) of
             None \<Rightarrow> Done None
           | Some remaining \<Rightarrow>
               if - zt < remaining then Continue (Some (remaining, pos + 1))
               else Done (Some (amount, pos))))"

definition scan_lots ::
  "dec_ops \<Rightarrow> amount \<Rightarrow> (collateral_lot \<Rightarrow> amount) \<Rightarrow> amount \<Rightarrow> collateral_lot list \<Rightarrow>
     (amount \<times> nat) option walk" where
  "scan_lots D zt key amount lots = fold_while (scan_step D zt key) (Some (amount, 0)) lots"

section \<open>Making funds ready\<close>

definition ready_part ::
  "dec_ops \<Rightarrow> amount \<Rightarrow> amount \<Rightarrow> collateral_lot \<Rightarrow> collateral_lot option" where
  "ready_part D zt amount l = do {
     r \<leftarrow> dec_add D (ready_amount l) amount;
     u \<leftarrow> dec_sub D (unconfirmed_amount l) amount;
     if r < - zt \<or> u < - zt then None
     else Some (l\<lparr>unconfirmed_amount := u, ready_amount := r\<rparr>)
   }"

fun ready_all ::
  "dec_ops \<Rightarrow> timestamp \<Rightarrow> nat \<Rightarrow> collateral_lot list \<Rightarrow> collateral_lot list \<times> unit option" where
  "ready_all D ts 0 ls = (ls, Some ())"
| "ready_all D ts (Suc n) [] = ([], Some ())"
| "ready_all D ts (Suc n) (l # ls) =
     (case dec_add D (ready_amount l) (unconfirmed_amount l) of
        None \<Rightarrow> (l # ls, None)
      | Some r \<Rightarrow>
          let (ls', res) = ready_all D ts n ls
          in (l\<lparr>unconfirmed_amount := 0, ready_amount := r, c_last_update_timestamp := ts\<rparr> # ls', res))"

text \<open>Update the lot at an index if the walk stopped there.\<close>

definition at_stop ::
  "'r walk \<Rightarrow> nat \<Rightarrow> (collateral_lot \<Rightarrow> collateral_lot option) \<Rightarrow> collateral_lot list \<Rightarrow>
     collateral_lot list option" where
  "at_stop res pos f ls =
     (if is_done res then map_option (\<lambda>l. ls[pos := l]) (f (ls ! pos)) else Some ls)"

definition add_ready ::
  "dec_ops \<Rightarrow> collateral_side \<Rightarrow> amount \<Rightarrow> timestamp \<Rightarrow> amount \<Rightarrow> collateral_side \<times> unit option" where
  "add_ready D cs amount_deliverable ts zt =
     (let res = scan_lots D zt unconfirmed_amount amount_deliverable (cs_open_lots cs)
      in case fw_inner res of
           None \<Rightarrow> (cs, None)
         | Some (amount, pos) \<Rightarrow>
      (case at_stop res pos (ready_part D zt amount) (cs_open_lots cs) of
         None \<Rightarrow> (cs, None)
       | Some lots1 \<Rightarrow>
      (case ready_all D ts pos lots1 of
         (lots2, None) \<Rightarrow> (cs\<lparr>cs_open_lots := lots2\<rparr>, None)
       | (lots2, Some _) \<Rightarrow>
           let cs2 = cs\<lparr>cs_open_lots := lots2\<rparr>
           in case (dec_add D (ready_balance cs) amount_deliverable,
                    dec_sub D (unconfirmed_balance cs) amount_deliverable) of
                (Some r, Some u) \<Rightarrow>
                  if r < - zt \<or> u < - zt then (cs2, None)
                  else (cs2\<lparr>ready_balance := r, unconfirmed_balance := u,
                           cs_last_update_timestamp := ts\<rparr>, Some ())
              | _ \<Rightarrow> (cs2, None))))"

section \<open>Pre-authorizing a payment\<close>

definition new_spend ::
  "client_order_id \<Rightarrow> payment_id \<Rightarrow> amount \<Rightarrow> timestamp \<Rightarrow> collateral_spend" where
  "new_spend coid pid amount ts = \<lparr>sp_client_order_id = coid, sp_payment_id = pid,
     sp_preauth_amount = amount, sp_spent_amount = 0, sp_timestamp = ts\<rparr>"

definition preauth_part ::
  "dec_ops \<Rightarrow> amount \<Rightarrow> client_order_id \<Rightarrow> payment_id \<Rightarrow> timestamp \<Rightarrow> amount \<Rightarrow> collateral_lot \<Rightarrow>
     collateral_lot option" where
  "preauth_part D zt coid pid ts amount l = do {
     p \<leftarrow> dec_add D (preauth_amount l) amount;
     r \<leftarrow> dec_sub D (ready_amount l) amount;
     if r < - zt \<or> p < - zt then None
     else Some (l\<lparr>ready_amount := r, preauth_amount := p,
                  spends := spends l @ [new_spend coid pid amount ts]\<rparr>)
   }"

fun preauth_all ::
  "dec_ops \<Rightarrow> client_order_id \<Rightarrow> payment_id \<Rightarrow> timestamp \<Rightarrow> nat \<Rightarrow> collateral_lot list \<Rightarrow>
     collateral_lot list \<times> unit option" where
  "preauth_all D coid pid ts 0 ls = (ls, Some ())"
| "preauth_all D coid pid ts (Suc n) [] = ([], Some ())"
| "preauth_all D coid pid ts (Suc n) (l # ls) =
     (case dec_add D (preauth_amount l) (ready_amount l) of
        None \<Rightarrow> (l # ls, None)
      | Some p \<Rightarrow>
          let (ls', res) = preauth_all D coid pid ts n ls
          in (l\<lparr>ready_amount := 0, preauth_amount := p, c_last_update_timestamp := ts,
                spends := spends l @ [new_spend coid pid (ready_amount l) ts]\<rparr> # ls', res))"

definition side_preauth_payment ::
  "dec_ops \<Rightarrow> collateral_side \<Rightarrow> client_order_id \<Rightarrow> payment_id \<Rightarrow> timestamp \<Rightarrow> amount \<Rightarrow> amount \<Rightarrow>
     collateral_side \<times> preauth_status option" where
  "side_preauth_payment D cs coid pid ts amount_payable zt =
     (let res = scan_lots D zt ready_amount amount_payable (cs_open_lots cs)
      in case fw_inner res of
           None \<Rightarrow> (cs, None)
         | Some (amount, pos) \<Rightarrow>
      (case at_stop res pos (preauth_part D zt coid pid ts amount) (cs_open_lots cs) of
         None \<Rightarrow> (cs, None)
       | Some lots1 \<Rightarrow>
      (case preauth_all D coid pid ts pos lots1 of
         (lots2, None) \<Rightarrow> (cs\<lparr>cs_open_lots := lots2\<rparr>, None)
       | (lots2, Some _) \<Rightarrow>
           let cs2 = cs\<lparr>cs_open_lots := lots2\<rparr>
           in case (dec_sub D (ready_balance cs) amount_payable,
                    dec_add D (preauth_balance cs) amount_payable) of
                (Some r, Some p) \<Rightarrow>
                  if r < - zt \<or> p < - zt then (cs2, None)
                  else (cs2\<lparr>ready_balance := r, preauth_balance := p\<rparr>, Some (Approved pid))
              | _ \<Rightarrow> (cs2, None))))"

section \<open>Confirming a payment\<close>

definition lot_preauth_for :: "payment_id \<Rightarrow> collateral_lot \<Rightarrow> amount" where
  "lot_preauth_for pid l =
     total sp_preauth_amount (filter (\<lambda>s. sp_payment_id s = pid) (spends l))"

definition spend_to :: "collateral_spend \<Rightarrow> amount \<Rightarrow> timestamp \<Rightarrow> collateral_spend" where
  "spend_to s spent ts = s\<lparr>sp_preauth_amount := 0, sp_spent_amount := spent, sp_timestamp := ts\<rparr>"

text \<open>All spends of the payment in a lot that is used up; \<open>acc\<close> is the amount spent so far.\<close>

fun close_spends ::
  "dec_ops \<Rightarrow> payment_id \<Rightarrow> timestamp \<Rightarrow> collateral_spend list \<Rightarrow> amount \<Rightarrow>
     collateral_spend list \<times> amount option" where
  "close_spends D pid ts [] acc = ([], Some acc)"
| "close_spends D pid ts (s # ss) acc =
     (if sp_payment_id s \<noteq> pid
      then (let (ss', r) = close_spends D pid ts ss acc in (s # ss', r))
      else case dec_add D (sp_spent_amount s) (sp_preauth_amount s) of
             None \<Rightarrow> (s # ss, None)
           | Some b \<Rightarrow>
               (case dec_add D acc (sp_preauth_amount s) of
                  None \<Rightarrow> (spend_to s b ts # ss, None)
                | Some acc' \<Rightarrow>
                    let (ss', r) = close_spends D pid ts ss acc' in (spend_to s b ts # ss', r)))"

text \<open>The spends of the payment in the lot where the amount ends.\<close>

fun part_spends ::
  "dec_ops \<Rightarrow> payment_id \<Rightarrow> timestamp \<Rightarrow> amount \<Rightarrow> amount \<Rightarrow> collateral_spend list \<Rightarrow> amount \<Rightarrow>
     collateral_spend list \<times> amount option" where
  "part_spends D pid ts zt amount [] acc = ([], Some acc)"
| "part_spends D pid ts zt amount (s # ss) acc =
     (if sp_payment_id s \<noteq> pid
      then (let (ss', r) = part_spends D pid ts zt amount ss acc in (s # ss', r))
      else case dec_sub D amount acc of
             None \<Rightarrow> (s # ss, None)
           | Some left \<Rightarrow>
               (case dec_sub D left (sp_preauth_amount s) of
                  None \<Rightarrow> (s # ss, None)
                | Some amount_remaining \<Rightarrow>
                    let sub = (if zt < amount_remaining then sp_preauth_amount s else left)
                    in case dec_add D (sp_spent_amount s) sub of
                         None \<Rightarrow> (s # ss, None)
                       | Some b \<Rightarrow>
                           (case dec_add D acc sub of
                              None \<Rightarrow> (spend_to s b ts # ss, None)
                            | Some acc' \<Rightarrow>
                                let (ss', r) = part_spends D pid ts zt amount ss acc'
                                in (spend_to s b ts # ss', r))))"

definition note_seq_num :: "amount \<Rightarrow> amount \<Rightarrow> collateral_lot \<Rightarrow> u256 list \<Rightarrow> u256 list" where
  "note_seq_num zt spent l seq_nums =
     (if zt < spent then (case c_seq_num l of Some n \<Rightarrow> seq_nums @ [n] | None \<Rightarrow> seq_nums)
      else seq_nums)"

text \<open>
  A lot that is used up: its spends are closed, then its balances move. The result carries the
  amount spent; on failure the lot is left as far as the code got.
\<close>

definition confirm_lot ::
  "dec_ops \<Rightarrow> payment_id \<Rightarrow> timestamp \<Rightarrow> collateral_lot \<Rightarrow> collateral_lot \<times> amount option" where
  "confirm_lot D pid ts l =
     (case close_spends D pid ts (spends l) 0 of
        (ss, None) \<Rightarrow> (l\<lparr>spends := ss\<rparr>, None)
      | (ss, Some amount) \<Rightarrow>
          (case (dec_add D (spent_amount l) amount, dec_sub D (preauth_amount l) amount) of
             (Some b, Some p) \<Rightarrow>
               (l\<lparr>spends := ss, preauth_amount := p, spent_amount := b,
                  c_last_update_timestamp := ts\<rparr>, Some amount)
           | _ \<Rightarrow> (l\<lparr>spends := ss\<rparr>, None)))"

definition used_up :: "amount \<Rightarrow> collateral_lot \<Rightarrow> bool" where
  "used_up zt l \<longleftrightarrow>
     unconfirmed_amount l < zt \<and> ready_amount l < zt \<and> preauth_amount l < zt"

text \<open>The first \<open>n\<close> lots; collects the ids of the lots to close and the sequence numbers spent from.\<close>

fun confirm_all ::
  "dec_ops \<Rightarrow> payment_id \<Rightarrow> timestamp \<Rightarrow> amount \<Rightarrow> nat \<Rightarrow> collateral_lot list \<Rightarrow>
     payment_id list \<times> u256 list \<Rightarrow> collateral_lot list \<times> (payment_id list \<times> u256 list) option" where
  "confirm_all D pid ts zt 0 ls acc = (ls, Some acc)"
| "confirm_all D pid ts zt (Suc n) [] acc = ([], Some acc)"
| "confirm_all D pid ts zt (Suc n) (l # ls) (closing, seq_nums) =
     (case confirm_lot D pid ts l of
        (l', None) \<Rightarrow> (l' # ls, None)
      | (l', Some amount) \<Rightarrow>
          let (ls', r) = confirm_all D pid ts zt n ls
                (if used_up zt l' then closing @ [c_payment_id l'] else closing,
                 note_seq_num zt amount l seq_nums)
          in (l' # ls', r))"

definition confirm_part ::
  "dec_ops \<Rightarrow> payment_id \<Rightarrow> timestamp \<Rightarrow> amount \<Rightarrow> amount \<Rightarrow> collateral_lot \<Rightarrow>
     collateral_lot \<times> amount option" where
  "confirm_part D pid ts zt amount l =
     (case part_spends D pid ts zt amount (spends l) 0 of
        (ss, None) \<Rightarrow> (l\<lparr>spends := ss\<rparr>, None)
      | (ss, Some spent) \<Rightarrow>
          (case (dec_add D (spent_amount l) amount, dec_sub D (preauth_amount l) amount) of
             (Some b, Some p) \<Rightarrow>
               (l\<lparr>spends := ss, preauth_amount := p, spent_amount := b\<rparr>, Some spent)
           | _ \<Rightarrow> (l\<lparr>spends := ss\<rparr>, None)))"

text \<open>Lots to close leave the open lots one by one, found by their payment id.\<close>

fun close_lots ::
  "payment_id list \<Rightarrow> collateral_side \<Rightarrow> collateral_side \<times> unit option" where
  "close_lots [] cs = (cs, Some ())"
| "close_lots (pid # pids) cs =
     (case remove_first (\<lambda>l. pid = c_payment_id l) (cs_open_lots cs) of
        None \<Rightarrow> (cs, None)
      | Some (l, ls) \<Rightarrow>
          close_lots pids (cs\<lparr>cs_open_lots := ls, cs_closed_lots := cs_closed_lots cs @ [l]\<rparr>))"

text \<open>The lot where the walk stopped, if it stopped: the lots, and the sequence numbers.\<close>

definition confirm_stop ::
  "dec_ops \<Rightarrow> payment_id \<Rightarrow> timestamp \<Rightarrow> amount \<Rightarrow> 'r walk \<Rightarrow> amount \<Rightarrow> nat \<Rightarrow> collateral_lot list \<Rightarrow>
     u256 list \<Rightarrow> collateral_lot list \<times> u256 list option" where
  "confirm_stop D pid ts zt res amount pos lots seq_nums =
     (if \<not> is_done res then (lots, Some seq_nums)
      else case confirm_part D pid ts zt amount (lots ! pos) of
             (l', None) \<Rightarrow> (lots[pos := l'], None)
           | (l', Some spent) \<Rightarrow> (lots[pos := l'], Some (note_seq_num zt spent (lots ! pos) seq_nums)))"

definition settle ::
  "dec_ops \<Rightarrow> collateral_side \<Rightarrow> amount \<Rightarrow> amount \<Rightarrow> u256 list \<Rightarrow> collateral_side \<times> confirm_status option" where
  "settle D cs amount_paid zt seq_nums =
     (case (dec_sub D (preauth_balance cs) amount_paid, dec_add D (spent_balance cs) amount_paid) of
        (Some p, Some s) \<Rightarrow>
          if s < - zt \<or> p < - zt then (cs, None)
          else (cs\<lparr>preauth_balance := p, spent_balance := s\<rparr>, Some (Authorized seq_nums))
      | _ \<Rightarrow> (cs, None))"

definition side_confirm_payment ::
  "dec_ops \<Rightarrow> collateral_side \<Rightarrow> payment_id \<Rightarrow> timestamp \<Rightarrow> amount \<Rightarrow> amount \<Rightarrow>
     collateral_side \<times> confirm_status option" where
  "side_confirm_payment D cs pid ts amount_paid zt =
     (let res = scan_lots D zt (lot_preauth_for pid) amount_paid (cs_open_lots cs)
      in case fw_inner res of
           None \<Rightarrow> (cs, None)
         | Some (amount, pos) \<Rightarrow>
      (case confirm_all D pid ts zt pos (cs_open_lots cs) ([], []) of
         (lots1, None) \<Rightarrow> (cs\<lparr>cs_open_lots := lots1\<rparr>, None)
       | (lots1, Some (closing, seq_nums)) \<Rightarrow>
      (case confirm_stop D pid ts zt res amount pos lots1 seq_nums of
         (lots2, None) \<Rightarrow> (cs\<lparr>cs_open_lots := lots2\<rparr>, None)
       | (lots2, Some seq_nums') \<Rightarrow>
      (case close_lots closing (cs\<lparr>cs_open_lots := lots2\<rparr>) of
         (cs3, None) \<Rightarrow> (cs3, None)
       | (cs3, Some _) \<Rightarrow> settle D cs3 amount_paid zt seq_nums'))))"

section \<open>The position: credits and debits\<close>

record collateral_position =
  cp_chain_id :: u32
  cp_address :: address
  side_cr :: collateral_side
  side_dr :: collateral_side
  cp_created_timestamp :: timestamp
  cp_last_update_timestamp :: timestamp

definition collateral_position_new :: "u32 \<Rightarrow> address \<Rightarrow> timestamp \<Rightarrow> collateral_position" where
  "collateral_position_new chain addr ts = \<lparr>cp_chain_id = chain, cp_address = addr,
     side_cr = collateral_side_new ts, side_dr = collateral_side_new ts,
     cp_created_timestamp = ts, cp_last_update_timestamp = ts\<rparr>"

fun get_side :: "side \<Rightarrow> collateral_position \<Rightarrow> collateral_side" where
  "get_side Buy p = side_cr p"
| "get_side Sell p = side_dr p"

fun set_side :: "side \<Rightarrow> collateral_side \<Rightarrow> collateral_position \<Rightarrow> collateral_position" where
  "set_side Buy cs p = p\<lparr>side_cr := cs\<rparr>"
| "set_side Sell cs p = p\<lparr>side_dr := cs\<rparr>"

definition deposit ::
  "dec_ops \<Rightarrow> collateral_position \<Rightarrow> payment_id \<Rightarrow> u256 option \<Rightarrow> amount \<Rightarrow> timestamp \<Rightarrow>
     collateral_position \<times> unit result" where
  "deposit D p pid sn amount ts =
     (case open_lot D (side_cr p) pid sn amount ts of
        (cs, Inl e) \<Rightarrow> (p\<lparr>side_cr := cs\<rparr>, Inl e)
      | (cs, Inr _) \<Rightarrow> (p\<lparr>side_cr := cs, cp_last_update_timestamp := ts\<rparr>, Inr ()))"

definition withdraw ::
  "dec_ops \<Rightarrow> collateral_position \<Rightarrow> payment_id \<Rightarrow> amount \<Rightarrow> timestamp \<Rightarrow>
     collateral_position \<times> unit result" where
  "withdraw D p pid amount ts =
     (case open_lot D (side_dr p) pid None amount ts of
        (cs, Inl e) \<Rightarrow> (p\<lparr>side_dr := cs\<rparr>, Inl e)
      | (cs, Inr _) \<Rightarrow> (p\<lparr>side_dr := cs, cp_last_update_timestamp := ts\<rparr>, Inr ()))"

definition position_add_ready ::
  "dec_ops \<Rightarrow> collateral_position \<Rightarrow> side \<Rightarrow> amount \<Rightarrow> timestamp \<Rightarrow> amount \<Rightarrow>
     collateral_position \<times> unit option" where
  "position_add_ready D p sd amount ts zt =
     (let (cs, r) = add_ready D (get_side sd p) amount ts zt in (set_side sd cs p, r))"

text \<open>\<open>next_payment_id\<close> is only asked for an id when the funds suffice.\<close>

definition preauth_payment ::
  "dec_ops \<Rightarrow> collateral_position \<Rightarrow> client_order_id \<Rightarrow> timestamp \<Rightarrow> side \<Rightarrow> amount \<Rightarrow> amount \<Rightarrow>
     payment_id \<Rightarrow> collateral_position \<times> preauth_status option" where
  "preauth_payment D p coid ts sd amount_payable zt next_payment_id =
     (case dec_sub D (ready_balance (get_side sd p)) amount_payable of
        None \<Rightarrow> (p, None)
      | Some balance_remaining \<Rightarrow>
          if balance_remaining < - zt then (p, Some PreAuthNotEnoughFunds)
          else (let (cs, r) = side_preauth_payment D (get_side sd p) coid next_payment_id ts
                                amount_payable zt
                in (set_side sd cs p, r)))"

definition confirm_payment ::
  "dec_ops \<Rightarrow> collateral_position \<Rightarrow> payment_id \<Rightarrow> timestamp \<Rightarrow> side \<Rightarrow> amount \<Rightarrow> amount \<Rightarrow>
     collateral_position \<times> confirm_status option" where
  "confirm_payment D p pid ts sd amount_paid zt =
     (case dec_sub D (preauth_balance (get_side sd p)) amount_paid of
        None \<Rightarrow> (p, None)
      | Some balance_remaining \<Rightarrow>
          if balance_remaining < - zt then (p, Some ConfirmNotEnoughFunds)
          else (let (cs, r) = side_confirm_payment D (get_side sd p) pid ts amount_paid zt
                in (set_side sd cs p, r)))"

section \<open>No operation creates or loses funds\<close>

text \<open>
  What an operation never changes about a lot: its payment id, its deposit's sequence number and
  its funds, whatever stage they are in.
\<close>

definition lot_funds :: "collateral_lot \<Rightarrow> amount" where
  "lot_funds l = unconfirmed_amount l + ready_amount l + preauth_amount l + spent_amount l"

definition lot_key :: "collateral_lot \<Rightarrow> payment_id \<times> u256 option \<times> amount" where
  "lot_key l = (c_payment_id l, c_seq_num l, lot_funds l)"

definition side_keys :: "collateral_side \<Rightarrow> (payment_id \<times> u256 option \<times> amount) multiset" where
  "side_keys cs = mset (map lot_key (cs_open_lots cs @ cs_closed_lots cs))"

definition side_funds :: "collateral_side \<Rightarrow> amount" where
  "side_funds cs = unconfirmed_balance cs + ready_balance cs + preauth_balance cs + spent_balance cs"

lemma lot_key_eq:
  "lot_key a = lot_key b \<longleftrightarrow> c_payment_id a = c_payment_id b \<and> c_seq_num a = c_seq_num b \<and>
     lot_funds a = lot_funds b"
  by (simp add: lot_key_def)

lemma lot_key_update [simp]:
  "lot_key (l\<lparr>spends := ss\<rparr>) = lot_key l"
  "lot_key (l\<lparr>c_last_update_timestamp := t\<rparr>) = lot_key l"
  by (simp_all add: lot_key_def lot_funds_def)

lemma at_stop_key:
  assumes "at_stop res pos f ls = Some ls'" and "\<And>l l'. f l = Some l' \<Longrightarrow> lot_key l' = lot_key l"
  shows "map lot_key ls' = map lot_key ls"
  using assms by (auto simp: at_stop_def intro: map_list_update_same split: if_splits)

lemma ready_part_key:
  "dec_exact D \<Longrightarrow> ready_part D zt amount l = Some l' \<Longrightarrow> lot_key l' = lot_key l"
  by (auto simp: ready_part_def lot_key_def lot_funds_def
      split: Option.bind_splits if_splits dest!: dec_add_exact dec_sub_exact)

lemma ready_all_key:
  "dec_exact D \<Longrightarrow> map lot_key (fst (ready_all D ts n ls)) = map lot_key ls"
proof (induction n arbitrary: ls)
  case (Suc n)
  from Suc.IH [of "tl ls"] Suc.prems show ?case
    by (cases ls)
      (auto simp: lot_key_eq lot_funds_def split: option.splits prod.splits dest!: dec_add_exact)
qed simp

lemma preauth_part_key:
  "dec_exact D \<Longrightarrow> preauth_part D zt coid pid ts amount l = Some l' \<Longrightarrow> lot_key l' = lot_key l"
  by (auto simp: preauth_part_def lot_key_def lot_funds_def
      split: Option.bind_splits if_splits dest!: dec_add_exact dec_sub_exact)

lemma preauth_all_key:
  "dec_exact D \<Longrightarrow> map lot_key (fst (preauth_all D coid pid ts n ls)) = map lot_key ls"
proof (induction n arbitrary: ls)
  case (Suc n)
  from Suc.IH [of "tl ls"] Suc.prems show ?case
    by (cases ls)
      (auto simp: lot_key_eq lot_funds_def split: option.splits prod.splits dest!: dec_add_exact)
qed simp

lemma confirm_lot_key:
  "dec_exact D \<Longrightarrow> lot_key (fst (confirm_lot D pid ts l)) = lot_key l"
  by (auto simp: confirm_lot_def lot_key_def lot_funds_def
      split: option.splits prod.splits dest!: dec_add_exact dec_sub_exact)

lemma confirm_part_key:
  "dec_exact D \<Longrightarrow> lot_key (fst (confirm_part D pid ts zt amount l)) = lot_key l"
  by (auto simp: confirm_part_def lot_key_def lot_funds_def
      split: option.splits prod.splits dest!: dec_add_exact dec_sub_exact)

lemma confirm_all_key:
  "dec_exact D \<Longrightarrow> map lot_key (fst (confirm_all D pid ts zt n ls acc)) = map lot_key ls"
proof (induction D pid ts zt n ls acc rule: confirm_all.induct)
  case (3 D pid ts zt n l ls closing seq_nums)
  have "lot_key (fst (confirm_lot D pid ts l)) = lot_key l" using "3.prems" by (rule confirm_lot_key)
  with "3.IH" "3.prems" show ?case by (auto simp: Let_def split: option.splits prod.splits)
qed simp_all

lemma confirm_stop_key:
  assumes "dec_exact D"
  shows "map lot_key (fst (confirm_stop D pid ts zt res amount pos ls seq_nums)) = map lot_key ls"
  using confirm_part_key [OF assms, of pid ts zt amount "ls ! pos"]
  by (auto simp: confirm_stop_def intro!: map_list_update_same split: option.splits prod.splits)

lemma remove_first_mset:
  "remove_first P ls = Some (l, ls') \<Longrightarrow> mset (map f ls) = add_mset (f l) (mset (map f ls'))"
  by (auto dest!: remove_first_Some)

lemma close_lots_keys:
  "side_keys (fst (close_lots pids cs)) = side_keys cs \<and>
   side_funds (fst (close_lots pids cs)) = side_funds cs"
proof (induction pids cs rule: close_lots.induct)
  case (2 pid pids cs)
  then show ?case
    using remove_first_mset [of "\<lambda>l. pid = c_payment_id l" "cs_open_lots cs" _ _ lot_key]
    by (auto simp: side_keys_def side_funds_def split: option.splits)
qed simp

lemma settle_keys:
  "dec_exact D \<Longrightarrow> side_keys (fst (settle D cs amount zt sn)) = side_keys cs \<and>
   side_funds (fst (settle D cs amount zt sn)) = side_funds cs"
  by (auto simp: settle_def side_keys_def side_funds_def split: option.splits dest!: dec_add_exact dec_sub_exact)

lemma side_keys_lots:
  "map lot_key ls = map lot_key (cs_open_lots cs) \<Longrightarrow> side_keys (cs\<lparr>cs_open_lots := ls\<rparr>) = side_keys cs"
  "side_funds (cs\<lparr>cs_open_lots := ls\<rparr>) = side_funds cs"
  by (auto simp: side_keys_def side_funds_def)

text \<open>Routing, pre-authorizing and confirming move funds, also when they fail half way.\<close>

lemma add_ready_keys:
  assumes D: "dec_exact D"
  shows "side_keys (fst (add_ready D cs amount ts zt)) = side_keys cs \<and>
    side_funds (fst (add_ready D cs amount ts zt)) = side_funds cs"
proof -
  let ?res = "scan_lots D zt unconfirmed_amount amount (cs_open_lots cs)"
  show ?thesis
  proof (cases "fw_inner ?res")
    case None
    then show ?thesis by (simp add: add_ready_def)
  next
    case (Some ap)
    obtain a pos where ap: "ap = (a, pos)" by fastforce
    show ?thesis
    proof (cases "at_stop ?res pos (ready_part D zt a) (cs_open_lots cs)")
      case None
      with Some ap show ?thesis by (simp add: add_ready_def)
    next
      case stop: (Some lots1)
      obtain lots2 r where all: "ready_all D ts pos lots1 = (lots2, r)" by fastforce
      have "map lot_key lots2 = map lot_key (cs_open_lots cs)"
        using ready_all_key [OF D, of ts pos lots1] all
          at_stop_key [OF stop] ready_part_key [OF D] by simp
      note keys = side_keys_lots(1) [OF this]
      show ?thesis
        using Some ap stop all keys D
        by (auto simp: add_ready_def side_keys_def side_funds_def Let_def
            split: option.splits dest!: dec_add_exact dec_sub_exact)
    qed
  qed
qed

lemma side_preauth_keys:
  assumes D: "dec_exact D"
  shows "side_keys (fst (side_preauth_payment D cs coid pid ts amount zt)) = side_keys cs \<and>
    side_funds (fst (side_preauth_payment D cs coid pid ts amount zt)) = side_funds cs"
proof -
  let ?res = "scan_lots D zt ready_amount amount (cs_open_lots cs)"
  show ?thesis
  proof (cases "fw_inner ?res")
    case None
    then show ?thesis by (simp add: side_preauth_payment_def)
  next
    case (Some ap)
    obtain a pos where ap: "ap = (a, pos)" by fastforce
    show ?thesis
    proof (cases "at_stop ?res pos (preauth_part D zt coid pid ts a) (cs_open_lots cs)")
      case None
      with Some ap show ?thesis by (simp add: side_preauth_payment_def)
    next
      case stop: (Some lots1)
      obtain lots2 r where all: "preauth_all D coid pid ts pos lots1 = (lots2, r)" by fastforce
      have "map lot_key lots2 = map lot_key (cs_open_lots cs)"
        using preauth_all_key [OF D, of coid pid ts pos lots1] all
          at_stop_key [OF stop] preauth_part_key [OF D] by simp
      note keys = side_keys_lots(1) [OF this]
      show ?thesis
        using Some ap stop all keys D
        by (auto simp: side_preauth_payment_def side_keys_def side_funds_def Let_def
            split: option.splits dest!: dec_add_exact dec_sub_exact)
    qed
  qed
qed

lemma side_confirm_keys:
  assumes D: "dec_exact D"
  shows "side_keys (fst (side_confirm_payment D cs pid ts amount zt)) = side_keys cs \<and>
    side_funds (fst (side_confirm_payment D cs pid ts amount zt)) = side_funds cs"
proof -
  let ?res = "scan_lots D zt (lot_preauth_for pid) amount (cs_open_lots cs)"
  show ?thesis
  proof (cases "fw_inner ?res")
    case None
    then show ?thesis by (simp add: side_confirm_payment_def)
  next
    case (Some ap)
    obtain a pos where ap: "ap = (a, pos)" by fastforce
    obtain lots1 r1 where all: "confirm_all D pid ts zt pos (cs_open_lots cs) ([], []) = (lots1, r1)"
      by fastforce
    have k1: "map lot_key lots1 = map lot_key (cs_open_lots cs)"
      using confirm_all_key [OF D, of pid ts zt pos "cs_open_lots cs" "([], [])"] all by simp
    show ?thesis
    proof (cases r1)
      case None
      then show ?thesis
        using Some ap all side_keys_lots(1) [OF k1]
        by (simp add: side_confirm_payment_def side_keys_lots(2))
    next
      case r1: (Some cl)
      obtain closing sn where cl: "cl = (closing, sn)" by fastforce
      obtain lots2 r2 where stop: "confirm_stop D pid ts zt ?res a pos lots1 sn = (lots2, r2)"
        by fastforce
      have "map lot_key lots2 = map lot_key (cs_open_lots cs)"
        using confirm_stop_key [OF D, of pid ts zt ?res a pos lots1 sn] stop k1 by simp
      note k2 = side_keys_lots(1) [OF this] side_keys_lots(2)
      obtain cs3 r3 where cl3: "close_lots closing (cs\<lparr>cs_open_lots := lots2\<rparr>) = (cs3, r3)"
        by fastforce
      have k3: "side_keys cs3 = side_keys cs \<and> side_funds cs3 = side_funds cs"
        using close_lots_keys [of closing "cs\<lparr>cs_open_lots := lots2\<rparr>"] cl3 k2 by simp
      show ?thesis
        using Some ap all r1 cl stop k2 cl3 k3 settle_keys [OF D, of cs3]
        by (auto simp: side_confirm_payment_def Let_def split: option.splits)
    qed
  qed
qed

section \<open>Deposits are booked once\<close>

definition booked_seqs :: "collateral_side \<Rightarrow> u256 option multiset" where
  "booked_seqs cs = image_mset (fst \<circ> snd) (side_keys cs)"

text \<open>What holds of a side at any time: its balances are the funds of its lots, and no two lots
  carry the same deposit.\<close>

definition side_wf :: "collateral_side \<Rightarrow> bool" where
  "side_wf cs \<longleftrightarrow>
     side_funds cs = total lot_funds (cs_open_lots cs @ cs_closed_lots cs) \<and>
     (\<forall>n. count (booked_seqs cs) (Some n) \<le> 1)"

lemma funds_of_keys:
  "total lot_funds (cs_open_lots cs @ cs_closed_lots cs) = \<Sum>\<^sub># (image_mset (snd \<circ> snd) (side_keys cs))"
  by (simp add: side_keys_def lot_key_def multiset.map_comp comp_def flip: sum_mset_sum_list)

lemma side_wf_cong:
  "side_keys cs' = side_keys cs \<and> side_funds cs' = side_funds cs \<Longrightarrow> side_wf cs \<Longrightarrow> side_wf cs'"
  using funds_of_keys [of cs] funds_of_keys [of cs'] by (auto simp: side_wf_def booked_seqs_def)

lemma side_wf_new [simp]: "side_wf (collateral_side_new ts)"
  by (simp add: side_wf_def collateral_side_new_def side_funds_def booked_seqs_def side_keys_def)

lemma booked_seqs_alt:
  "booked_seqs cs = mset (map c_seq_num (cs_open_lots cs @ cs_closed_lots cs))"
  by (simp add: booked_seqs_def side_keys_def lot_key_def multiset.map_comp comp_def)

lemma not_booked_count:
  "\<not> already_booked cs (Some n) \<Longrightarrow> count (booked_seqs cs) (Some n) = 0"
  by (auto simp: already_booked_def booked_seqs_alt list_ex_iff count_eq_zero_iff)

section \<open>What a pre-authorization reserves\<close>

lemma scan_step_Some:
  "scan_step D zt key (Some (a, k)) l =
     (case dec_sub D a (key l) of
        None \<Rightarrow> Done None
      | Some rem \<Rightarrow> if - zt < rem then Continue (Some (rem, k + 1)) else Done (Some (a, k)))"
  by (simp add: scan_step_def)

lemma scan_lots_gen:
  assumes "dec_exact D" and "fold_while (scan_step D zt key) (Some (a, k)) ls = r"
    and "fw_inner r = Some (a', pos)"
  shows "k \<le> pos \<and> a' = a - total key (take (pos - k) ls) \<and>
    (if is_done r then pos - k < length ls \<and> a' - key (ls ! (pos - k)) \<le> - zt
     else pos - k = length ls \<and> (ls \<noteq> [] \<longrightarrow> - zt < a'))"
  using assms(2,3)
proof (induction ls arbitrary: a k)
  case Nil
  then show ?case by auto
next
  case (Cons l ls)
  show ?case
  proof (cases "dec_sub D a (key l)")
    case None
    with Cons.prems show ?thesis by (auto simp: scan_step_Some)
  next
    case (Some rem)
    with assms(1) have rem: "rem = a - key l" by (rule dec_exact_sub)
    show ?thesis
    proof (cases "- zt < rem")
      case True
      with Some Cons.prems
      have run: "fold_while (scan_step D zt key) (Some (rem, k + 1)) ls = r"
        by (simp add: scan_step_Some)
      note ih = Cons.IH [OF run Cons.prems(2)]
      then obtain n where n: "pos = k + Suc n" by (metis add_Suc_right less_eqE plus_1_eq_Suc add.commute)
      show ?thesis
      proof (cases ls)
        case Nil
        with run Cons.prems(2) True rem n show ?thesis by auto
      next
        case (Cons l' ls')
        with ih rem n True show ?thesis by (auto split: if_splits)
      qed
    next
      case False
      with Some Cons.prems rem show ?thesis by (auto simp: scan_step_Some)
    qed
  qed
qed

lemma scan_lots_reach:
  assumes "dec_exact D" and "fw_inner (scan_lots D zt key amount ls) = Some (a, pos)"
  shows "a = amount - total key (take pos ls) \<and>
    (if is_done (scan_lots D zt key amount ls) then pos < length ls \<and> a - key (ls ! pos) \<le> - zt
     else pos = length ls \<and> (ls \<noteq> [] \<longrightarrow> - zt < a))"
  using scan_lots_gen [OF assms(1) refl assms(2) [unfolded scan_lots_def]]
  by (auto simp: scan_lots_def split: if_splits)

lemma preauth_all_gain:
  "preauth_all D coid pid ts n ls = (ls', Some u) \<Longrightarrow>
     total (lot_preauth_for pid) ls' = total (lot_preauth_for pid) ls + total ready_amount (take n ls)"
proof (induction n arbitrary: ls ls')
  case (Suc n)
  then show ?case
  proof (cases ls)
    case (Cons l ls1)
    with Suc.prems Suc.IH [of ls1] show ?thesis
      by (auto simp: lot_preauth_for_def new_spend_def split: option.splits prod.splits)
  qed simp
qed simp

lemma preauth_part_gain:
  assumes "preauth_part D zt coid pid ts a l = Some l'"
  shows "lot_preauth_for pid l' = lot_preauth_for pid l + a"
  using assms
  by (auto simp: preauth_part_def lot_preauth_for_def new_spend_def split: Option.bind_splits if_splits)

lemma side_preauth_gain:
  assumes D: "dec_exact D"
    and ok: "side_preauth_payment D cs coid pid ts amount zt = (cs', Some st)"
    and ready: "total ready_amount (cs_open_lots cs) = ready_balance cs"
    and "0 \<le> zt" "0 \<le> amount"
  shows "st = Approved pid \<and> - zt \<le> ready_balance cs' \<and>
    ready_balance cs' = ready_balance cs - amount \<and>
    preauth_balance cs' = preauth_balance cs + amount \<and>
    unconfirmed_balance cs' = unconfirmed_balance cs \<and> spent_balance cs' = spent_balance cs \<and>
    \<bar>total (lot_preauth_for pid) (cs_open_lots cs')
       - (total (lot_preauth_for pid) (cs_open_lots cs) + amount)\<bar> \<le> zt"
proof -
  let ?ls = "cs_open_lots cs" and ?res = "scan_lots D zt ready_amount amount (cs_open_lots cs)"
  obtain a pos where ap: "fw_inner ?res = Some (a, pos)"
    using ok by (cases "fw_inner ?res") (auto simp: side_preauth_payment_def)
  obtain lots1 where stop: "at_stop ?res pos (preauth_part D zt coid pid ts a) ?ls = Some lots1"
    using ok ap by (auto simp: side_preauth_payment_def split: option.splits)
  obtain lots2 where all: "preauth_all D coid pid ts pos lots1 = (lots2, Some ())"
    using ok ap stop by (auto simp: side_preauth_payment_def split: option.splits prod.splits)
  have bal: "st = Approved pid" "ready_balance cs' = ready_balance cs - amount"
    "preauth_balance cs' = preauth_balance cs + amount" "- zt \<le> ready_balance cs'"
    "unconfirmed_balance cs' = unconfirmed_balance cs" "spent_balance cs' = spent_balance cs"
    "cs_open_lots cs' = lots2"
    using ok ap stop all D
    by (auto simp: side_preauth_payment_def Let_def split: option.splits if_splits
        dest!: dec_add_exact dec_sub_exact)
  have gain: "total (lot_preauth_for pid) lots2 =
      total (lot_preauth_for pid) lots1 + total ready_amount (take pos lots1)"
    using all by (rule preauth_all_gain)
  note reach = scan_lots_reach [OF D ap]
  have "\<bar>total (lot_preauth_for pid) lots2 - (total (lot_preauth_for pid) ?ls + amount)\<bar> \<le> zt"
  proof (cases "is_done ?res")
    case True
    then obtain l' where l': "preauth_part D zt coid pid ts a (?ls ! pos) = Some l'"
      and lots1: "lots1 = ?ls[pos := l']" using stop by (auto simp: at_stop_def)
    from reach True have "pos < length ?ls" "a = amount - total ready_amount (take pos ?ls)" by auto
    with gain lots1 preauth_part_gain [OF l'] show ?thesis using \<open>0 \<le> zt\<close> by (simp add: total_update)
  next
    case False
    with reach have pos: "pos = length ?ls" and a: "a = amount - ready_balance cs"
      and last: "?ls \<noteq> [] \<longrightarrow> - zt < a" using ready by auto
    from False stop have "lots1 = ?ls" by (simp add: at_stop_def)
    with gain pos ready have "total (lot_preauth_for pid) lots2 =
        total (lot_preauth_for pid) ?ls + ready_balance cs" by simp
    moreover have "\<bar>ready_balance cs - amount\<bar> \<le> zt"
    proof (cases "?ls = []")
      case True
      with ready have "ready_balance cs = 0" by simp
      with bal(2,4) assms(5) show ?thesis by linarith
    next
      case False
      with last a bal(2,4) show ?thesis by linarith
    qed
    ultimately show ?thesis by linarith
  qed
  with bal show ?thesis by simp
qed

lemma get_side_set_side [simp]:
  "get_side sd (set_side sd cs p) = cs"
  "sd \<noteq> sd' \<Longrightarrow> get_side sd' (set_side sd cs p) = get_side sd' p"
  by (cases sd; cases sd'; simp)+

text \<open>
  Pre-authorizing a payment either refuses it, because the ready balance would fall below
  zero by more than the threshold, and then changes nothing; or it moves exactly the amount from
  the ready to the pre-authorized balance of that side, leaves the other balances and the other
  side alone, and reserves in the lots, under the payment's id, that amount up to the threshold.
\<close>

theorem preauth_reserves_amount:
  assumes "dec_exact D" and "0 \<le> zt" and "0 \<le> amount"
    and "total ready_amount (cs_open_lots (get_side sd p)) = ready_balance (get_side sd p)"
    and "preauth_payment D p coid ts sd amount zt pid = (p', Some st)"
  shows "(st = PreAuthNotEnoughFunds \<and> p' = p \<and> ready_balance (get_side sd p) - amount < - zt) \<or>
    (st = Approved pid \<and> (\<forall>sd'. sd' \<noteq> sd \<longrightarrow> get_side sd' p' = get_side sd' p) \<and>
     - zt \<le> ready_balance (get_side sd p') \<and>
     ready_balance (get_side sd p') = ready_balance (get_side sd p) - amount \<and>
     preauth_balance (get_side sd p') = preauth_balance (get_side sd p) + amount \<and>
     unconfirmed_balance (get_side sd p') = unconfirmed_balance (get_side sd p) \<and>
     spent_balance (get_side sd p') = spent_balance (get_side sd p) \<and>
     \<bar>total (lot_preauth_for pid) (cs_open_lots (get_side sd p'))
       - (total (lot_preauth_for pid) (cs_open_lots (get_side sd p)) + amount)\<bar> \<le> zt)"
proof (cases "ready_balance (get_side sd p) - amount < - zt")
  case True
  with assms(1,5) show ?thesis
    by (auto simp: preauth_payment_def split: option.splits dest!: dec_sub_exact)
next
  case False
  with assms(1,5) obtain cs where
    "side_preauth_payment D (get_side sd p) coid pid ts amount zt = (cs, Some st)"
    and p': "p' = set_side sd cs p"
    by (auto simp: preauth_payment_def split: option.splits prod.splits dest!: dec_sub_exact)
  from side_preauth_gain [OF assms(1) this(1) assms(4,2,3)] p' show ?thesis by auto
qed

definition demo_position :: collateral_position where
  "demo_position = fst (position_add_ready (dec_upto 1000)
     (fst (deposit (dec_upto 1000)
       (fst (deposit (dec_upto 1000) (collateral_position_new 1 10 0) ''D1'' (Some 7) 100 1))
       ''D2'' (Some 8) 50 2)) Buy 150 3 (1 / 1000))"

lemmas [evals] = demo_position_def position_add_ready_def deposit_def collateral_position_new_def
  collateral_side_new_def open_lot_def already_booked_def collateral_lot_new_def add_ready_def
  scan_lots_def scan_step_Some at_stop_def ready_part_def preauth_payment_def
  side_preauth_payment_def preauth_part_def new_spend_def confirm_payment_def
  side_confirm_payment_def confirm_stop_def confirm_part_def confirm_lot_def lot_preauth_for_def
  spend_to_def note_seq_num_def used_up_def settle_def

theorem preauth_reserves_amount_witness:
  "preauth_balance (side_cr (fst (preauth_payment (dec_upto 1000) demo_position ''C1'' 4 Buy 120
     (1 / 1000) ''P1''))) = 120"
proof -
  let ?r = "preauth_payment (dec_upto 1000) demo_position ''C1'' 4 Buy 120 (1 / 1000) ''P1''"
  have "snd ?r = Some (Approved ''P1'')" by (simp add: evals)
  then have "?r = (fst ?r, Some (Approved ''P1''))" by (metis prod.collapse)
  from preauth_reserves_amount [OF _ _ _ _ this] show ?thesis by (simp add: evals)
qed

section \<open>Confirming a payment nothing was reserved for\<close>

definition lot_stages :: "collateral_lot \<Rightarrow> amount \<times> amount \<times> amount \<times> amount" where
  "lot_stages l = (unconfirmed_amount l, ready_amount l, preauth_amount l, spent_amount l)"

definition reserved_for :: "payment_id \<Rightarrow> collateral_lot list \<Rightarrow> bool" where
  "reserved_for pid ls \<longleftrightarrow> list_ex (\<lambda>l. list_ex (\<lambda>s. sp_payment_id s = pid) (spends l)) ls"

lemma reserved_for_simps [simp]:
  "\<not> reserved_for pid []"
  "reserved_for pid (l # ls) \<longleftrightarrow> list_ex (\<lambda>s. sp_payment_id s = pid) (spends l) \<or> reserved_for pid ls"
  by (simp_all add: reserved_for_def)

lemma close_lots_mset:
  "mset (cs_open_lots (fst (close_lots pids cs)) @ cs_closed_lots (fst (close_lots pids cs))) =
     mset (cs_open_lots cs @ cs_closed_lots cs)"
proof (induction pids cs rule: close_lots.induct)
  case (2 pid pids cs)
  then show ?case
    using remove_first_mset [of "\<lambda>l. pid = c_payment_id l" "cs_open_lots cs" _ _ id]
    by (auto split: option.splits)
qed simp

lemma close_lots_balances [simp]:
  "preauth_balance (fst (close_lots pids cs)) = preauth_balance cs"
  "spent_balance (fst (close_lots pids cs)) = spent_balance cs"
  "ready_balance (fst (close_lots pids cs)) = ready_balance cs"
  "unconfirmed_balance (fst (close_lots pids cs)) = unconfirmed_balance cs"
  by (induction pids cs rule: close_lots.induct) (simp_all split: option.splits)

lemma close_spends_none:
  "\<not> list_ex (\<lambda>s. sp_payment_id s = pid) ss \<Longrightarrow> close_spends D pid ts ss acc = (ss, Some acc)"
  by (induction ss) auto

lemma lot_preauth_none:
  "\<not> list_ex (\<lambda>s. sp_payment_id s = pid) (spends l) \<Longrightarrow> lot_preauth_for pid l = 0"
  by (auto simp: lot_preauth_for_def list_ex_iff intro: sum_list_0)

lemma scan_none:
  assumes "dec_exact D" and "- zt < amount" and "\<not> reserved_for pid ls"
    and "fw_inner (fold_while (scan_step D zt (lot_preauth_for pid)) (Some (amount, k)) ls) = Some ap"
  shows "fold_while (scan_step D zt (lot_preauth_for pid)) (Some (amount, k)) ls =
    Continue (Some (amount, k + length ls))"
  using assms(3,4)
proof (induction ls arbitrary: k)
  case (Cons l ls)
  then have "lot_preauth_for pid l = 0" by (auto intro: lot_preauth_none)
  with Cons assms(1,2) Cons.IH [of "k + 1"] show ?case
    by (auto simp: scan_step_Some split: option.splits dest!: dec_sub_exact)
qed simp

lemma confirm_lot_none:
  assumes "dec_exact D" and "\<not> list_ex (\<lambda>s. sp_payment_id s = pid) (spends l)"
    and "confirm_lot D pid ts l = (l', Some a)"
  shows "a = 0 \<and> lot_stages l' = lot_stages l"
  using assms
  by (auto simp: confirm_lot_def close_spends_none lot_stages_def split: option.splits
      dest!: dec_add_exact dec_sub_exact)

lemma confirm_all_none:
  assumes "dec_exact D" and "0 \<le> zt"
  shows "\<not> reserved_for pid ls \<Longrightarrow> confirm_all D pid ts zt n ls (cl, sn) = (ls', Some (cl', sn')) \<Longrightarrow>
    map lot_stages ls' = map lot_stages ls \<and> sn' = sn"
proof (induction n arbitrary: ls ls' cl)
  case (Suc n)
  show ?case
  proof (cases ls)
    case (Cons l ls1)
    obtain m a where step: "confirm_lot D pid ts l = (m, Some a)"
      using Suc.prems Cons by (auto split: option.splits prod.splits)
    with Suc.prems Cons have m: "a = 0" "lot_stages m = lot_stages l"
      using confirm_lot_none [OF assms(1) _ step] by auto
    with step Suc.prems Cons Suc.IH [of ls1] assms(2) show ?thesis
      by (auto simp: note_seq_num_def split: prod.splits)
  qed (use Suc.prems in auto)
qed simp

text \<open>
  A payment id that no open lot reserved anything for can nevertheless be confirmed: with
  enough pre-authorized balance the confirmation is authorized, against no deposit, and moves the
  amount from the pre-authorized to the spent balance while the stages of every lot stay as they
  are; the balances of the side then no longer agree with its lots.
\<close>

theorem confirm_unknown_payment:
  assumes "dec_exact D" and "0 \<le> zt" and "0 < amount"
    and "\<not> reserved_for pid (cs_open_lots (get_side sd p))"
    and "confirm_payment D p pid ts sd amount zt = (p', Some (Authorized sns))"
  shows "sns = [] \<and>
    preauth_balance (get_side sd p') = preauth_balance (get_side sd p) - amount \<and>
    spent_balance (get_side sd p') = spent_balance (get_side sd p) + amount \<and>
    mset (map lot_stages (cs_open_lots (get_side sd p') @ cs_closed_lots (get_side sd p'))) =
    mset (map lot_stages (cs_open_lots (get_side sd p) @ cs_closed_lots (get_side sd p)))"
proof -
  let ?cs = "get_side sd p"
  let ?ls = "cs_open_lots ?cs"
  obtain cs where conf: "side_confirm_payment D ?cs pid ts amount zt = (cs, Some (Authorized sns))"
    and p': "p' = set_side sd cs p" using assms(5)
    by (auto simp: confirm_payment_def split: option.splits prod.splits if_splits)
  obtain ap where "fw_inner (scan_lots D zt (lot_preauth_for pid) amount ?ls) = Some ap"
    using conf by (cases "fw_inner (scan_lots D zt (lot_preauth_for pid) amount ?ls)")
      (auto simp: side_confirm_payment_def Let_def)
  with scan_none [OF assms(1) _ assms(4), of zt amount 0 ap] assms(2,3)
  have scan: "scan_lots D zt (lot_preauth_for pid) amount ?ls = Continue (Some (amount, length ?ls))"
    by (simp add: scan_lots_def)
  obtain lots cl sn where all: "confirm_all D pid ts zt (length ?ls) ?ls ([], []) = (lots, Some (cl, sn))"
    using conf scan by (auto simp: side_confirm_payment_def split: option.splits prod.splits)
  note none = confirm_all_none [OF assms(1,2,4) all]
  obtain cs3 where cl3: "close_lots cl (?cs\<lparr>cs_open_lots := lots\<rparr>) = (cs3, Some ())"
    using conf scan all
    by (auto simp: side_confirm_payment_def confirm_stop_def split: option.splits prod.splits)
  have "mset (map lot_stages (cs_open_lots cs3 @ cs_closed_lots cs3)) =
      mset (map lot_stages (?ls @ cs_closed_lots ?cs))"
    using close_lots_mset [of cl "?cs\<lparr>cs_open_lots := lots\<rparr>"] cl3 none
    by (metis (no_types, lifting) collateral_side.select_convs(5,6) collateral_side.update_convs(5)
        collateral_side.surjective fst_conv map_append mset_map)
  moreover have "preauth_balance cs3 = preauth_balance ?cs" "spent_balance cs3 = spent_balance ?cs"
    using close_lots_balances(1,2) [of cl "?cs\<lparr>cs_open_lots := lots\<rparr>"] cl3 by simp_all
  ultimately show ?thesis
    using conf scan all cl3 none p' assms(1)
    by (auto simp: side_confirm_payment_def confirm_stop_def settle_def split: option.splits if_splits
        dest!: dec_add_exact dec_sub_exact)
qed

theorem confirm_unknown_payment_witness:
  "spent_balance (side_cr (fst (confirm_payment (dec_upto 1000)
     (fst (preauth_payment (dec_upto 1000) demo_position ''C1'' 4 Buy 120 (1 / 1000) ''P1''))
     ''P2'' 5 Buy 120 (1 / 1000)))) = 120"
proof -
  let ?p = "fst (preauth_payment (dec_upto 1000) demo_position ''C1'' 4 Buy 120 (1 / 1000) ''P1'')"
  let ?r = "confirm_payment (dec_upto 1000) ?p ''P2'' 5 Buy 120 (1 / 1000)"
  have "snd ?r = Some (Authorized [])" by (simp add: evals)
  then have "?r = (fst ?r, Some (Authorized []))" by (metis prod.collapse)
  from confirm_unknown_payment [OF _ _ _ _ this] show ?thesis by (simp add: evals)
qed

end
