(* ===== verification/CollateralRouter.thy ===== *)
theory CollateralRouter
  imports Bits
begin

text \<open>
  Routing of collateral over bridges, \<open>libs/index-core/src/collateral/collateral_router.rs\<close>.
  A bridge is a trait object known by the pair of designations it connects; asking it to
  transfer is an observable call (\<open>transfer_call\<close>) whose immediate result is the argument
  \<open>bridge_says\<close>. An operation returns the events it publishes, the call it makes if any, and
  its outcome, where \<open>Panic\<close> is an index out of bounds or a \<open>todo!\<close> of the source.
\<close>

section \<open>Data\<close>

datatype routing_outcome = Success | Failure string

datatype transfer_event =
    TransferComplete u32 address client_order_id timestamp symbol symbol amount amount
  | TransferFailed u32 address client_order_id timestamp symbol symbol amount amount symbol string

record hop_complete =
  h_chain_id :: u32
  h_address :: address
  h_client_order_id :: client_order_id
  h_timestamp :: timestamp
  h_source :: symbol
  h_destination :: symbol
  h_route_from :: symbol
  h_route_to :: symbol
  h_amount :: amount
  h_fee :: amount
  h_status :: routing_outcome

text \<open>A call of \<open>CollateralBridge::transfer_funds\<close> on the bridge \<open>tc_bridge\<close>.\<close>

record transfer_call =
  tc_bridge :: "symbol \<times> symbol"
  tc_chain_id :: u32
  tc_address :: address
  tc_client_order_id :: client_order_id
  tc_route_from :: symbol
  tc_route_to :: symbol
  tc_amount :: amount
  tc_cumulative_fee :: amount

record collateral_router =
  bridges :: "(symbol \<times> symbol) list"
  routes :: "symbol list list"
  chain_sources :: "u32 \<times> symbol \<Rightarrow> symbol option"
  default_destination :: "symbol option"

definition collateral_router_new :: collateral_router where
  "collateral_router_new = \<lparr>bridges = [], routes = [], chain_sources = (\<lambda>_. None),
     default_destination = None\<rparr>"

section \<open>Set-up\<close>

text \<open>A duplicate replaces the old entry and is reported all the same.\<close>

definition add_bridge :: "collateral_router \<Rightarrow> symbol \<times> symbol \<Rightarrow> collateral_router \<times> unit result" where
  "add_bridge r key =
     (if key \<in> set (bridges r) then (r, Inl ''Duplicate designation ID'')
      else (r\<lparr>bridges := bridges r @ [key]\<rparr>, Inr ()))"

definition add_route :: "collateral_router \<Rightarrow> symbol list \<Rightarrow> collateral_router \<times> unit result" where
  "add_route r route = (r\<lparr>routes := routes r @ [route]\<rparr>, Inr ())"

definition add_chain_source ::
  "collateral_router \<Rightarrow> u32 \<Rightarrow> symbol \<Rightarrow> symbol \<Rightarrow> collateral_router \<times> unit result" where
  "add_chain_source r chain token d =
     (r\<lparr>chain_sources := (chain_sources r)((chain, token) \<mapsto> d)\<rparr>,
      if chain_sources r (chain, token) = None then Inr () else Inl ''Duplicate chain ID'')"

definition set_default_destination :: "collateral_router \<Rightarrow> symbol \<Rightarrow> collateral_router \<times> unit result" where
  "set_default_destination r d =
     (r\<lparr>default_destination := Some d\<rparr>,
      if default_destination r = None then Inr () else Inl ''Default destination already set'')"

section \<open>The next hop\<close>

fun find_hop :: "symbol \<Rightarrow> symbol list \<Rightarrow> nat \<Rightarrow> nat option" where
  "find_hop s [] i = None"
| "find_hop s (h # hs) i = (if s = h then Some i else find_hop s hs (i + 1))"

definition find_route :: "collateral_router \<Rightarrow> symbol \<Rightarrow> symbol \<Rightarrow> symbol list option" where
  "find_route r route_from route_to =
     List.find (\<lambda>route. route \<noteq> [] \<and> hd route = route_from \<and> last route = route_to) (routes r)"

text \<open>The two designations at \<open>i\<close> and \<open>i + 1\<close> of a route; indexing past the end panics.\<close>

definition hop_at :: "symbol list \<Rightarrow> nat \<Rightarrow> (symbol \<times> symbol) outcome" where
  "hop_at route i =
     (if i + 1 < length route then Returns (Inr (route ! i, route ! (i + 1))) else Panic)"

definition next_hop ::
  "collateral_router \<Rightarrow> symbol \<Rightarrow> symbol \<Rightarrow> symbol \<Rightarrow> (symbol \<times> symbol) outcome" where
  "next_hop r source route_from route_to =
     (case find_route r route_from route_to of
        None \<Rightarrow> Returns (Inl ''Route not found'')
      | Some route \<Rightarrow>
          obind (if source = route_from then hop_at route 0
                 else case find_hop source route 0 of
                        None \<Rightarrow> Returns (Inl ''Hop not found'')
                      | Some pos \<Rightarrow> hop_at route pos)
            (\<lambda>hop. if hop \<in> set (bridges r) then Returns (Inr hop)
                   else Returns (Inl ''Cannot find next hop'')))"

section \<open>Transfers\<close>

definition transfer_collateral ::
  "(transfer_call \<Rightarrow> unit result) \<Rightarrow> collateral_router \<Rightarrow> u32 \<Rightarrow> address \<Rightarrow> client_order_id \<Rightarrow> symbol \<Rightarrow>
     side \<Rightarrow> amount \<Rightarrow> transfer_call option \<times> unit outcome" where
  "transfer_collateral bridge_says r chain addr coid token sd amount =
     (if sd = Sell then (None, Panic)
      else case chain_sources r (chain, token) of
        None \<Rightarrow> (None, Returns (Inl ''Failed to find source''))
      | Some transfer_from \<Rightarrow>
     (case default_destination r of
        None \<Rightarrow> (None, Returns (Inl ''Failed to find destination''))
      | Some transfer_to \<Rightarrow>
     (case next_hop r transfer_from transfer_from transfer_to of
        Panic \<Rightarrow> (None, Panic)
      | Returns (Inl e) \<Rightarrow> (None, Returns (Inl e))
      | Returns (Inr hop) \<Rightarrow>
          let call = \<lparr>tc_bridge = hop, tc_chain_id = chain, tc_address = addr,
                tc_client_order_id = coid, tc_route_from = transfer_from,
                tc_route_to = transfer_to, tc_amount = amount, tc_cumulative_fee = 0\<rparr>
          in (Some call, Returns (bridge_says call)))))"

definition handle_collateral_router_event ::
  "(transfer_call \<Rightarrow> unit result) \<Rightarrow> collateral_router \<Rightarrow> hop_complete \<Rightarrow>
     transfer_event list \<times> transfer_call option \<times> unit outcome" where
  "handle_collateral_router_event bridge_says r e =
     (case h_status e of
        Failure reason \<Rightarrow>
          ([TransferFailed (h_chain_id e) (h_address e) (h_client_order_id e) (h_timestamp e)
              (h_route_from e) (h_route_to e) (h_amount e) (h_fee e) (h_source e) reason],
           None, Returns (Inr ()))
      | Success \<Rightarrow>
          if h_route_to e = h_destination e
          then ([TransferComplete (h_chain_id e) (h_address e) (h_client_order_id e) (h_timestamp e)
                  (h_route_from e) (h_route_to e) (h_amount e) (h_fee e)],
                None, Returns (Inr ()))
          else case next_hop r (h_destination e) (h_route_from e) (h_route_to e) of
                 Panic \<Rightarrow> ([], None, Panic)
               | Returns (Inl err) \<Rightarrow> ([], None, Returns (Inl err))
               | Returns (Inr hop) \<Rightarrow>
                   let call = \<lparr>tc_bridge = hop, tc_chain_id = h_chain_id e,
                         tc_address = h_address e, tc_client_order_id = h_client_order_id e,
                         tc_route_from = h_route_from e, tc_route_to = h_route_to e,
                         tc_amount = h_amount e, tc_cumulative_fee = h_fee e\<rparr>
                   in ([], Some call, Returns (bridge_says call)))"

text \<open>Retries are not implemented: there is nothing to process.\<close>

definition process_routing :: "collateral_router \<Rightarrow> timestamp \<Rightarrow> unit result" where
  "process_routing r ts = Inr ()"

section \<open>A transfer travels its route\<close>

text \<open>
  The environment of a transfer: every bridge accepts its transfer and later reports the hop
  complete; \<open>charge\<close> is what the bridge makes of the amount and the fee so far. \<open>follow\<close> plays
  the reports back, at most as many as its fuel allows, for as long as the router answers with
  another call, and collects everything: the bridges called, every event the router publishes on
  the way, and the outcome of its last report. It is \<open>None\<close> when the fuel runs out before.
\<close>

definition hop_done :: "(symbol \<times> symbol \<Rightarrow> amount \<times> amount \<Rightarrow> amount \<times> amount) \<Rightarrow> timestamp \<Rightarrow>
    transfer_call \<Rightarrow> hop_complete" where
  "hop_done charge ts c =
     (let (a, f) = charge (tc_bridge c) (tc_amount c, tc_cumulative_fee c)
      in \<lparr>h_chain_id = tc_chain_id c, h_address = tc_address c,
          h_client_order_id = tc_client_order_id c, h_timestamp = ts,
          h_source = fst (tc_bridge c), h_destination = snd (tc_bridge c),
          h_route_from = tc_route_from c, h_route_to = tc_route_to c,
          h_amount = a, h_fee = f, h_status = Success\<rparr>)"

fun follow :: "(symbol \<times> symbol \<Rightarrow> amount \<times> amount \<Rightarrow> amount \<times> amount) \<Rightarrow> timestamp \<Rightarrow>
    collateral_router \<Rightarrow> nat \<Rightarrow> transfer_call \<Rightarrow>
    ((symbol \<times> symbol) list \<times> transfer_event list \<times> unit outcome) option" where
  "follow charge ts r 0 c = None"
| "follow charge ts r (Suc n) c =
     (case handle_collateral_router_event (\<lambda>_. Inr ()) r (hop_done charge ts c) of
        (evs, None, res) \<Rightarrow> Some ([tc_bridge c], evs, res)
      | (evs, Some c', res) \<Rightarrow>
          map_option (\<lambda>(hops, evs', res'). (tc_bridge c # hops, evs @ evs', res')) (follow charge ts r n c'))"

abbreviation hops_of :: "symbol list \<Rightarrow> (symbol \<times> symbol) list" where
  "hops_of route \<equiv> zip route (tl route)"

lemma find_hop_nth:
  "distinct route \<Longrightarrow> j < length route \<Longrightarrow> find_hop (route ! j) route i = Some (i + j)"
proof (induction route arbitrary: i j)
  case (Cons h hs)
  then show ?case by (cases j) (auto simp: nth_Cons)
qed simp

lemma hops_of_drop:
  "i + 1 < length route \<Longrightarrow>
     drop i (hops_of route) = (route ! i, route ! (i + 1)) # drop (i + 1) (hops_of route)"
  by (subst Cons_nth_drop_Suc [symmetric]) (auto simp: nth_tl)

lemma next_hop_on_route:
  assumes "find_route r rfrom rto = Some route" "distinct route" "i + 1 < length route"
    and "set (hops_of route) \<subseteq> set (bridges r)"
  shows "next_hop r (route ! i) rfrom rto = Returns (Inr (route ! i, route ! (i + 1)))"
proof -
  have ends: "hd route = rfrom" "route \<noteq> []"
    using assms(1) by (auto simp: find_route_def find_Some_iff)
  then have "route ! 0 = rfrom" by (simp add: hd_conv_nth)
  moreover have "(route ! i, route ! (i + 1)) \<in> set (bridges r)"
    using assms(3,4) hops_of_drop [OF assms(3)]
    by (metis in_set_dropD list.set_intros(1) subsetD)
  moreover have "route ! i = route ! 0 \<longleftrightarrow> i = 0"
    using assms(2,3) by (intro nth_eq_iff_index_eq) auto
  ultimately show ?thesis
    using assms(1-3) find_hop_nth [of route i 0]
    by (auto simp: next_hop_def hop_at_def)
qed

lemma follow_route:
  assumes "find_route r rfrom rto = Some route" "distinct route"
    and "set (hops_of route) \<subseteq> set (bridges r)"
    and "i + 1 < length route" "tc_bridge c = (route ! i, route ! (i + 1))"
    and "tc_route_from c = rfrom" "tc_route_to c = rto"
  shows "follow charge ts r (length route - 1 - i) c = Some (drop i (hops_of route),
    case foldl (\<lambda>af hop. charge hop af) (tc_amount c, tc_cumulative_fee c) (drop i (hops_of route)) of
      (a, f) \<Rightarrow> [TransferComplete (tc_chain_id c) (tc_address c) (tc_client_order_id c) ts rfrom rto a f],
    Returns (Inr ()))"
  using assms(4-7)
proof (induction "length route - 2 - i" arbitrary: i c)
  case 0
  then have i: "i + 2 = length route" by simp
  then have "last route = route ! (i + 1)" by (metis Suc_1 add_2_eq_Suc' add_Suc_right diff_Suc_1
        last_conv_nth list.size(3) nat.simps(3) Suc_eq_plus1)
  then have "rto = route ! (i + 1)" using assms(1) by (auto simp: find_route_def find_Some_iff)
  moreover have "length route - 1 - i = Suc 0" using i by simp
  ultimately show ?case using 0 i
    by (auto simp: hops_of_drop handle_collateral_router_event_def hop_done_def
        simp del: diff_diff_left split: prod.splits)
next
  case (Suc n)
  then have lt: "i + 2 < length route" by simp
  let ?e = "hop_done charge ts c"
  obtain a f where af: "charge (tc_bridge c) (tc_amount c, tc_cumulative_fee c) = (a, f)" by fastforce
  let ?c = "\<lparr>tc_bridge = (route ! (i + 1), route ! (i + 2)), tc_chain_id = tc_chain_id c,
    tc_address = tc_address c, tc_client_order_id = tc_client_order_id c, tc_route_from = rfrom,
    tc_route_to = rto, tc_amount = a, tc_cumulative_fee = f\<rparr>"
  have "last route = rto" "route \<noteq> []" using assms(1) by (auto simp: find_route_def find_Some_iff)
  then have "route ! (length route - 1) = rto" by (simp add: last_conv_nth)
  then have "rto \<noteq> route ! (i + 1)"
    using lt nth_eq_iff_index_eq [OF assms(2), of "length route - 1" "i + 1"] by auto
  with next_hop_on_route [OF assms(1,2) _ assms(3), of "i + 1"] lt Suc.prems af
  have step: "handle_collateral_router_event (\<lambda>_. Inr ()) r ?e = ([], Some ?c, Returns (Inr ()))"
    by (simp add: handle_collateral_router_event_def hop_done_def)
  have "follow charge ts r (length route - 1 - (i + 1)) ?c = Some (drop (i + 1) (hops_of route),
    case foldl (\<lambda>af hop. charge hop af) (a, f) (drop (i + 1) (hops_of route)) of
      (a, f) \<Rightarrow> [TransferComplete (tc_chain_id c) (tc_address c) (tc_client_order_id c) ts rfrom rto a f],
    Returns (Inr ()))"
    using Suc.hyps(1) [of "i + 1" ?c] Suc.hyps(2) lt by simp
  moreover have "length route - 1 - i = Suc (length route - 1 - (i + 1))" using lt by simp
  ultimately show ?case using step Suc.prems af hops_of_drop [of i route] by simp
qed

text \<open>
  C34. Routing ends where it should: when the source of the chain and the default destination
  are joined by a route that visits no designation twice and whose bridges all exist, and every
  bridge accepts its transfer and reports it complete, a transfer is sent over exactly the bridges
  of the route, in order. On the whole way the router publishes one event and no other: the
  \<open>TransferComplete\<close> of the order at the end, with the amount and fee the bridges left; and it
  makes no further call after it.
\<close>

theorem transfer_reaches_destination:
  assumes "chain_sources r (chain, token) = Some src" and "default_destination r = Some dst"
    and "find_route r src dst = Some route" and "distinct route" and "2 \<le> length route"
    and "set (hops_of route) \<subseteq> set (bridges r)"
  shows "\<exists>c. transfer_collateral (\<lambda>_. Inr ()) r chain addr coid token Buy amount =
      (Some c, Returns (Inr ())) \<and>
    follow charge ts r (length route - 1) c = Some (hops_of route,
      case foldl (\<lambda>af hop. charge hop af) (amount, 0) (hops_of route) of
        (a, f) \<Rightarrow> [TransferComplete chain addr coid ts src dst a f],
      Returns (Inr ()))"
proof -
  have "route ! 0 = src"
    using assms(3) by (auto simp: find_route_def find_Some_iff hd_conv_nth)
  with next_hop_on_route [OF assms(3,4) _ assms(6), of 0] assms(5)
  have hop: "next_hop r src src dst = Returns (Inr (route ! 0, route ! 1))" by simp
  define c where "c = \<lparr>tc_bridge = (route ! 0, route ! 1), tc_chain_id = chain, tc_address = addr,
    tc_client_order_id = coid, tc_route_from = src, tc_route_to = dst, tc_amount = amount,
    tc_cumulative_fee = 0\<rparr>"
  have "follow charge ts r (length route - 1 - 0) c = Some (drop 0 (hops_of route),
    case foldl (\<lambda>af hop. charge hop af) (tc_amount c, tc_cumulative_fee c) (drop 0 (hops_of route)) of
      (a, f) \<Rightarrow> [TransferComplete (tc_chain_id c) (tc_address c) (tc_client_order_id c) ts src dst a f],
    Returns (Inr ()))"
    by (rule follow_route [OF assms(3,4,6)]) (use assms(5) in \<open>simp_all add: c_def\<close>)
  moreover have "transfer_collateral (\<lambda>_. Inr ()) r chain addr coid token Buy amount =
      (Some c, Returns (Inr ()))"
    using assms(1,2) hop by (simp add: transfer_collateral_def c_def)
  ultimately show ?thesis by (intro exI [of _ c]) (simp add: c_def)
qed

definition demo_router :: collateral_router where
  "demo_router = \<lparr>bridges = [(''CEFFU'', ''BINANCE''), (''ARBITRUM'', ''CEFFU'')],
     routes = [[''BASE'', ''BINANCE''], [''ARBITRUM'', ''CEFFU'', ''BINANCE'']],
     chain_sources = (\<lambda>_. None)((42161, ''USDC'') \<mapsto> ''ARBITRUM''),
     default_destination = Some ''BINANCE''\<rparr>"

theorem transfer_reaches_destination_witness:
  "\<exists>c. transfer_collateral (\<lambda>_. Inr ()) demo_router 42161 7 ''O1'' ''USDC'' Buy 100 =
      (Some c, Returns (Inr ())) \<and>
    follow (\<lambda>_ (a, f). (a - 1, f + 1)) 5 demo_router 2 c =
      Some ([(''ARBITRUM'', ''CEFFU''), (''CEFFU'', ''BINANCE'')],
        [TransferComplete 42161 7 ''O1'' 5 ''ARBITRUM'' ''BINANCE'' 98 2], Returns (Inr ()))"
  using transfer_reaches_destination [of demo_router 42161 "''USDC''" "''ARBITRUM''" "''BINANCE''"
      "[''ARBITRUM'', ''CEFFU'', ''BINANCE'']" 7 "''O1''" 100 "\<lambda>_ (a, f). (a - 1, f + 1)" 5]
  by (simp add: demo_router_def find_route_def numeral_2_eq_2 del: follow.simps)

end
