(* ===== verification/CollateralManager.thy ===== *)
theory CollateralManager
  imports CollateralPosition CollateralRouter
begin

text \<open>
  The collateral manager, \<open>src/collateral/collateral_manager.rs\<close>: it owns every user's
  position, keeps the requests to move collateral until enough is deposited, hands them to the
  router and books the router's answers. A position is only ever changed through \<open>safe_update\<close>
  (\<open>libs/symm-core/src/core/arcswaputil.rs\<close>), which keeps the old value when the update fails.
  An operation returns the new manager, the events it publishes and its result; the host's
  \<open>get_next_payment_id\<close> is an argument. Persistence (\<open>store\<close>, \<open>load\<close>) is left out: its
  failures are only logged.
\<close>

section \<open>Data\<close>

text \<open>\<open>CollateralManagement\<close> of \<open>src/solver/solver.rs\<close>.\<close>

record collateral_management =
  m_chain_id :: u32
  m_address :: address
  m_client_order_id :: client_order_id
  m_symbol :: symbol
  m_side :: side
  m_collateral_amount :: amount
  m_asset_requirements :: "(symbol \<times> amount) list"

datatype collateral_event =
    CollateralReady u32 address client_order_id amount timestamp routing_status
  | PreAuthResponse u32 address client_order_id amount timestamp preauth_status
  | ConfirmResponse u32 address client_order_id payment_id amount timestamp confirm_status
      collateral_position

record collateral_manager =
  client_funds :: "u32 \<times> address \<Rightarrow> collateral_position option"
  collateral_management_requests :: "collateral_management list"
  zero_threshold :: amount

definition collateral_manager_new :: "amount \<Rightarrow> collateral_manager" where
  "collateral_manager_new zt = \<lparr>client_funds = (\<lambda>_. None), collateral_management_requests = [],
     zero_threshold = zt\<rparr>"

text \<open>The swap commits the new value only if the update returned \<open>Ok\<close>.\<close>

definition safe_update :: "('s \<Rightarrow> 's \<times> 'a result) \<Rightarrow> 's \<Rightarrow> 's \<times> 'a result" where
  "safe_update f s = (case f s of (s', Inr x) \<Rightarrow> (s', Inr x) | (_, Inl e) \<Rightarrow> (s, Inl e))"

section \<open>Positions\<close>

definition add_position ::
  "collateral_manager \<Rightarrow> u32 \<Rightarrow> address \<Rightarrow> timestamp \<Rightarrow> collateral_manager \<times> collateral_position" where
  "add_position m chain addr ts =
     (case client_funds m (chain, addr) of
        Some p \<Rightarrow> (m, p)
      | None \<Rightarrow> let p = collateral_position_new chain addr ts
                in (m\<lparr>client_funds := (client_funds m)((chain, addr) \<mapsto> p)\<rparr>, p))"

definition put_position ::
  "collateral_manager \<Rightarrow> u32 \<Rightarrow> address \<Rightarrow> collateral_position \<Rightarrow> collateral_manager" where
  "put_position m chain addr p = m\<lparr>client_funds := (client_funds m)((chain, addr) \<mapsto> p)\<rparr>"

definition handle_deposit ::
  "dec_ops \<Rightarrow> collateral_manager \<Rightarrow> payment_id \<Rightarrow> u32 \<Rightarrow> address \<Rightarrow> u256 \<Rightarrow> amount \<Rightarrow> timestamp \<Rightarrow>
     collateral_manager \<times> unit result" where
  "handle_deposit D m next_payment_id chain addr seq_num amount ts =
     (let (m1, p) = add_position m chain addr ts;
          (p', r) = safe_update (\<lambda>p. case open_lot D (side_cr p) next_payment_id (Some seq_num) amount ts of
                        (cs, Inl e) \<Rightarrow> (p\<lparr>side_cr := cs\<rparr>, Inl e)
                      | (cs, Inr _) \<Rightarrow> (p\<lparr>side_cr := cs, cp_last_update_timestamp := ts\<rparr>, Inr ())) p
      in (put_position m1 chain addr p', r))"

definition handle_withdrawal ::
  "dec_ops \<Rightarrow> collateral_manager \<Rightarrow> payment_id \<Rightarrow> u32 \<Rightarrow> address \<Rightarrow> amount \<Rightarrow> timestamp \<Rightarrow>
     collateral_manager \<times> unit result" where
  "handle_withdrawal D m next_payment_id chain addr amount ts =
     (let (m1, p) = add_position m chain addr ts;
          (p', r) = safe_update (\<lambda>p. case open_lot D (side_dr p) next_payment_id None amount ts of
                        (cs, Inl e) \<Rightarrow> (p\<lparr>side_dr := cs\<rparr>, Inl e)
                      | (cs, Inr _) \<Rightarrow> (p\<lparr>side_dr := cs, cp_last_update_timestamp := ts\<rparr>, Inr ())) p
      in (put_position m1 chain addr p', r))"

section \<open>Payments\<close>

definition fail_as :: "report \<Rightarrow> 's \<times> 'a option \<Rightarrow> 's \<times> 'a result" where
  "fail_as e = apsnd (\<lambda>r. ok_or r e)"

definition cm_preauth_payment ::
  "dec_ops \<Rightarrow> collateral_manager \<Rightarrow> payment_id \<Rightarrow> u32 \<Rightarrow> address \<Rightarrow> client_order_id \<Rightarrow> timestamp \<Rightarrow> side \<Rightarrow>
     amount \<Rightarrow> collateral_manager \<times> collateral_event list \<times> unit result" where
  "cm_preauth_payment D m next_payment_id chain addr coid ts sd amount_payable =
     (case client_funds m (chain, addr) of
        None \<Rightarrow> (m, [], Inl ''Failed to find position'')
      | Some p \<Rightarrow>
     (case safe_update (\<lambda>p. fail_as ''Math Problem''
              (preauth_payment D p coid ts sd amount_payable (zero_threshold m) next_payment_id)) p of
        (p', Inl e) \<Rightarrow> (put_position m chain addr p', [], Inl e)
      | (p', Inr status) \<Rightarrow> (put_position m chain addr p',
           [PreAuthResponse chain addr coid amount_payable ts status], Inr ())))"

definition cm_confirm_payment ::
  "dec_ops \<Rightarrow> collateral_manager \<Rightarrow> u32 \<Rightarrow> address \<Rightarrow> client_order_id \<Rightarrow> payment_id \<Rightarrow> timestamp \<Rightarrow> side \<Rightarrow>
     amount \<Rightarrow> collateral_manager \<times> collateral_event list \<times> unit result" where
  "cm_confirm_payment D m chain addr coid pid ts sd amount_paid =
     (case client_funds m (chain, addr) of
        None \<Rightarrow> (m, [], Inl ''Failed to find position'')
      | Some p \<Rightarrow>
     (case safe_update (\<lambda>p. fail_as ''Math Problem''
              (confirm_payment D p pid ts sd amount_paid (zero_threshold m))) p of
        (p', Inl e) \<Rightarrow> (put_position m chain addr p', [], Inl e)
      | (p', Inr status) \<Rightarrow> (put_position m chain addr p',
           [ConfirmResponse chain addr coid pid amount_paid ts status p'], Inr ())))"

section \<open>Booking what the router reports\<close>

text \<open>Sequencing of steps that mutate a position and stop at the first failure.\<close>

definition then_do :: "'s \<times> 'a option \<Rightarrow> ('s \<Rightarrow> 's \<times> 'b option) \<Rightarrow> 's \<times> 'b option" where
  "then_do r f = (case r of (s, None) \<Rightarrow> (s, None) | (s, Some _) \<Rightarrow> f s)"

definition charge_fee ::
  "dec_ops \<Rightarrow> amount \<Rightarrow> client_order_id \<Rightarrow> side \<Rightarrow> amount option \<Rightarrow> amount \<Rightarrow> timestamp \<Rightarrow>
     collateral_position \<Rightarrow> collateral_position \<times> confirm_status option" where
  "charge_fee D zt coid sd amount_ready fee ts p =
     then_do (case amount_ready of None \<Rightarrow> (p, Some ()) | Some amount \<Rightarrow> position_add_ready D p sd amount ts zt)
     (\<lambda>p. then_do (position_add_ready D p sd fee ts zt)
     (\<lambda>p. then_do (preauth_payment D p coid ts sd fee zt ''Charges'')
     (\<lambda>p. confirm_payment D p ''Charges'' ts sd fee zt)))"

definition book_records ::
  "dec_ops \<Rightarrow> collateral_manager \<Rightarrow> u32 \<Rightarrow> address \<Rightarrow> client_order_id \<Rightarrow> side \<Rightarrow> amount option \<Rightarrow> amount \<Rightarrow>
     timestamp \<Rightarrow> collateral_manager \<times> unit result" where
  "book_records D m chain addr coid sd amount_ready fee ts =
     (case client_funds m (chain, addr) of
        None \<Rightarrow> (m, Inl ''Failed to find position'')
      | Some p \<Rightarrow>
          let (p', r) = safe_update (\<lambda>p. fail_as ''Math Problem'' (map_prod id (map_option (\<lambda>_. ()))
                (charge_fee D (zero_threshold m) coid sd amount_ready fee ts p))) p
          in (put_position m chain addr p', r))"

text \<open>Here the three results are discarded and the update always commits.\<close>

definition spend_unconfirmed ::
  "dec_ops \<Rightarrow> amount \<Rightarrow> client_order_id \<Rightarrow> side \<Rightarrow> timestamp \<Rightarrow> collateral_position \<Rightarrow> collateral_position" where
  "spend_unconfirmed D zt coid sd ts p =
     (let amount = unconfirmed_balance (get_side sd p);
          p1 = fst (position_add_ready D p sd amount ts zt);
          p2 = fst (preauth_payment D p1 coid ts sd amount zt ''System'')
      in fst (confirm_payment D p2 ''System'' ts sd amount zt))"

definition close_all_lots ::
  "dec_ops \<Rightarrow> collateral_manager \<Rightarrow> u32 \<Rightarrow> address \<Rightarrow> client_order_id \<Rightarrow> side \<Rightarrow> timestamp \<Rightarrow>
     collateral_manager \<times> unit result" where
  "close_all_lots D m chain addr coid sd ts =
     (case client_funds m (chain, addr) of
        None \<Rightarrow> (m, Inl ''Failed to find position'')
      | Some p \<Rightarrow>
          let (p', r) = safe_update (\<lambda>p. (spend_unconfirmed D (zero_threshold m) coid sd ts p, Inr ())) p
          in (put_position m chain addr p', r))"

fun handle_collateral_transfer_event ::
  "dec_ops \<Rightarrow> collateral_manager \<Rightarrow> transfer_event \<Rightarrow> collateral_manager \<times> collateral_event list \<times> unit result" where
  "handle_collateral_transfer_event D m (TransferComplete chain addr coid ts tfrom tto amount fee) =
     (case book_records D m chain addr coid Buy (Some amount) fee ts of
        (m1, Inr _) \<Rightarrow>
          (m1, [CollateralReady chain addr coid amount ts (RoutingReady fee)], Inr ())
      | (m1, Inl _) \<Rightarrow>
          (fst (close_all_lots D m1 chain addr coid Buy ts),
           [CollateralReady chain addr coid amount ts NotReady], Inr ()))"
| "handle_collateral_transfer_event D m
     (TransferFailed chain addr coid ts tfrom tto amount fee collateral_at reason) =
     (fst (close_all_lots D (fst (book_records D m chain addr coid Buy None fee ts)) chain addr coid Buy ts),
      [CollateralReady chain addr coid amount ts NotReady], Inr ())"

section \<open>Requests to move collateral\<close>

definition manage_collateral :: "collateral_manager \<Rightarrow> collateral_management \<Rightarrow> collateral_manager" where
  "manage_collateral m req =
     m\<lparr>collateral_management_requests := collateral_management_requests m @ [req]\<rparr>"

text \<open>Enough is deposited for the request.\<close>

definition ready_to_route :: "collateral_manager \<Rightarrow> collateral_management \<Rightarrow> bool" where
  "ready_to_route m req =
     (case client_funds m (m_chain_id req, m_address req) of
        None \<Rightarrow> False
      | Some p \<Rightarrow> m_collateral_amount req \<le> unconfirmed_balance (get_side (m_side req) p))"

definition ready_event :: "timestamp \<Rightarrow> amount \<Rightarrow> routing_status \<Rightarrow> collateral_management \<Rightarrow> collateral_event" where
  "ready_event ts amount st req =
     CollateralReady (m_chain_id req) (m_address req) (m_client_order_id req) amount ts st"

text \<open>The transfers, in order: the calls made, and the requests that failed unless one panicked.\<close>

fun route_requests ::
  "(transfer_call \<Rightarrow> unit result) \<Rightarrow> collateral_router \<Rightarrow> collateral_management list \<Rightarrow>
     transfer_call list \<times> collateral_management list option" where
  "route_requests bridge_says r [] = ([], Some [])"
| "route_requests bridge_says r (req # reqs) =
     (case transfer_collateral bridge_says r (m_chain_id req) (m_address req) (m_client_order_id req)
             (m_symbol req) (m_side req) (m_collateral_amount req) of
        (call, Panic) \<Rightarrow> ((case call of None \<Rightarrow> [] | Some c \<Rightarrow> [c]), None)
      | (call, Returns res) \<Rightarrow>
          let (calls, failures) = route_requests bridge_says r reqs
          in ((case call of None \<Rightarrow> calls | Some c \<Rightarrow> c # calls),
              map_option (\<lambda>fs. if isl res then req # fs else fs) failures))"

definition process_collateral ::
  "(transfer_call \<Rightarrow> unit result) \<Rightarrow> collateral_router \<Rightarrow> collateral_manager \<Rightarrow> timestamp \<Rightarrow>
     collateral_manager \<times> collateral_event list \<times> transfer_call list \<times> unit outcome" where
  "process_collateral bridge_says r m ts =
     (case process_routing r ts of
        Inl e \<Rightarrow> (m, [], [], Returns (Inl e))
      | Inr _ \<Rightarrow>
          let requests = collateral_management_requests m;
              m1 = m\<lparr>collateral_management_requests := []\<rparr>;
              later = map (ready_event ts 0 CheckLater) (filter (\<lambda>req. \<not> ready_to_route m req) requests)
          in case route_requests bridge_says r (filter (ready_to_route m) requests) of
               (calls, None) \<Rightarrow> (m1, later, calls, Panic)
             | (calls, Some failures) \<Rightarrow>
                 (m1, later @ map (\<lambda>req. ready_event ts (m_collateral_amount req) NotReady req) failures,
                  calls, Returns (Inr ())))"

section \<open>The books of every user balance\<close>

text \<open>What a client of the manager can do to the books, as one stream of events.\<close>

datatype manager_event =
    Deposit payment_id u32 address u256 amount timestamp
  | Withdrawal payment_id u32 address amount timestamp
  | Preauth payment_id u32 address client_order_id timestamp side amount
  | Confirm u32 address client_order_id payment_id timestamp side amount
  | Routed transfer_event
  | Manage collateral_management
  | Process timestamp

fun manager_step ::
  "dec_ops \<Rightarrow> (transfer_call \<Rightarrow> unit result) \<Rightarrow> collateral_router \<Rightarrow> collateral_manager \<Rightarrow> manager_event \<Rightarrow>
     collateral_manager" where
  "manager_step D bs r m (Deposit pid chain addr sn amount ts) = fst (handle_deposit D m pid chain addr sn amount ts)"
| "manager_step D bs r m (Withdrawal pid chain addr amount ts) = fst (handle_withdrawal D m pid chain addr amount ts)"
| "manager_step D bs r m (Preauth pid chain addr coid ts sd amount) =
     fst (cm_preauth_payment D m pid chain addr coid ts sd amount)"
| "manager_step D bs r m (Confirm chain addr coid pid ts sd amount) =
     fst (cm_confirm_payment D m chain addr coid pid ts sd amount)"
| "manager_step D bs r m (Routed ev) = fst (handle_collateral_transfer_event D m ev)"
| "manager_step D bs r m (Manage req) = manage_collateral m req"
| "manager_step D bs r m (Process ts) = fst (process_collateral bs r m ts)"

text \<open>The books of a side: the keys of its lots, and the sum of its balances.\<close>

definition pos_books ::
  "collateral_position \<Rightarrow> side \<Rightarrow> (payment_id \<times> u256 option \<times> amount) multiset \<times> amount" where
  "pos_books p = (\<lambda>sd. (side_keys (get_side sd p), side_funds (get_side sd p)))"

definition books ::
  "collateral_manager \<Rightarrow> u32 \<times> address \<Rightarrow> side \<Rightarrow>
     (payment_id \<times> u256 option \<times> amount) multiset \<times> amount" where
  "books m = (\<lambda>k. case client_funds m k of None \<Rightarrow> (\<lambda>_. ({#}, 0)) | Some p \<Rightarrow> pos_books p)"

lemma pos_books_set_side:
  "side_keys cs = side_keys (get_side sd p) \<and> side_funds cs = side_funds (get_side sd p) \<Longrightarrow>
     pos_books (set_side sd cs p) = pos_books p"
  by (rule ext) (metis (mono_tags) get_side_set_side pos_books_def)

lemma pos_books_add_ready:
  "dec_exact D \<Longrightarrow> pos_books (fst (position_add_ready D p sd amount ts zt)) = pos_books p"
  using add_ready_keys [of D "get_side sd p" amount ts zt]
  by (auto simp: position_add_ready_def intro: pos_books_set_side split: prod.splits)

lemma pos_books_preauth:
  "dec_exact D \<Longrightarrow> pos_books (fst (preauth_payment D p coid ts sd amount zt pid)) = pos_books p"
  using side_preauth_keys [of D "get_side sd p" coid pid ts amount zt]
  by (auto simp: preauth_payment_def intro: pos_books_set_side split: prod.splits option.splits)

lemma pos_books_confirm:
  "dec_exact D \<Longrightarrow> pos_books (fst (confirm_payment D p pid ts sd amount zt)) = pos_books p"
  using side_confirm_keys [of D "get_side sd p" pid ts amount zt]
  by (auto simp: confirm_payment_def intro: pos_books_set_side split: prod.splits option.splits)

lemmas pos_books_ops = pos_books_add_ready pos_books_preauth pos_books_confirm

lemma then_do_fst: "fst (then_do r f) = (if snd r = None then fst r else fst (f (fst r)))"
  by (auto simp: then_do_def split: prod.splits option.splits)

lemma pos_books_charge:
  "dec_exact D \<Longrightarrow> pos_books (fst (charge_fee D zt coid sd ready fee ts p)) = pos_books p"
  by (simp add: charge_fee_def then_do_fst pos_books_ops split: option.splits)

lemma pos_books_spend:
  "dec_exact D \<Longrightarrow> pos_books (spend_unconfirmed D zt coid sd ts p) = pos_books p"
  by (simp add: spend_unconfirmed_def Let_def pos_books_ops)

lemma safe_update_fst: "fst (safe_update f s) = s \<or> fst (safe_update f s) = fst (f s)"
  by (auto simp: safe_update_def split: prod.splits sum.splits)

lemma fail_as_fst [simp]: "fst (fail_as e r) = fst r"
  by (simp add: fail_as_def)

lemma pos_books_safe:
  "pos_books (fst (f p)) = pos_books p \<Longrightarrow> pos_books (fst (safe_update f p)) = pos_books p"
  using safe_update_fst [of f p] by auto

lemma put_position_books:
  "client_funds m (chain, addr) = Some p \<Longrightarrow> pos_books p' = pos_books p \<Longrightarrow>
     books (put_position m chain addr p') = books m"
  by (auto simp: books_def put_position_def)

lemma books_preauth:
  "dec_exact D \<Longrightarrow> books (fst (cm_preauth_payment D m pid chain addr coid ts sd amount)) = books m"
  unfolding cm_preauth_payment_def
  by (auto split: option.splits prod.splits sum.splits intro!: put_position_books
      dest!: arg_cong [where f = fst] simp: pos_books_safe pos_books_preauth)

lemma books_confirm:
  "dec_exact D \<Longrightarrow> books (fst (cm_confirm_payment D m chain addr coid pid ts sd amount)) = books m"
  unfolding cm_confirm_payment_def
  by (auto split: option.splits prod.splits sum.splits intro!: put_position_books
      dest!: arg_cong [where f = fst] simp: pos_books_safe pos_books_confirm)

lemma books_book_records:
  "dec_exact D \<Longrightarrow> books (fst (book_records D m chain addr coid sd ready fee ts)) = books m"
  unfolding book_records_def
  by (auto split: option.splits prod.splits sum.splits intro!: put_position_books
      dest!: arg_cong [where f = fst] simp: pos_books_safe pos_books_charge)

lemma books_close_all:
  "dec_exact D \<Longrightarrow> books (fst (close_all_lots D m chain addr coid sd ts)) = books m"
  unfolding close_all_lots_def
  by (auto split: option.splits prod.splits sum.splits intro!: put_position_books
      dest!: arg_cong [where f = fst] simp: pos_books_safe pos_books_spend)

lemma books_transfer_event:
  "dec_exact D \<Longrightarrow> books (fst (handle_collateral_transfer_event D m ev)) = books m"
  using books_book_records [of D m] books_close_all [of D]
  by (cases ev)
    (auto split: prod.splits sum.splits dest!: arg_cong [where f = fst])

lemma books_same_funds: "client_funds m' = client_funds m \<Longrightarrow> books m' = books m"
  by (simp add: books_def)

lemma process_collateral_funds [simp]:
  "client_funds (fst (process_collateral bs r m ts)) = client_funds m"
  by (auto simp: process_collateral_def Let_def split: sum.splits prod.splits option.splits)

lemma manage_collateral_funds [simp]: "client_funds (manage_collateral m req) = client_funds m"
  by (simp add: manage_collateral_def)

text \<open>A deposit or withdrawal adds one entry, or none.\<close>

definition add_entry ::
  "payment_id \<Rightarrow> u256 option \<Rightarrow> amount \<Rightarrow> (payment_id \<times> u256 option \<times> amount) multiset \<times> amount \<Rightarrow>
     (payment_id \<times> u256 option \<times> amount) multiset \<times> amount" where
  "add_entry pid sn amount b = (add_mset (pid, sn, amount) (fst b), snd b + amount)"

definition seq_known :: "u256 option \<Rightarrow> (payment_id \<times> u256 option \<times> amount) multiset \<Rightarrow> bool" where
  "seq_known sn ks \<longleftrightarrow> sn \<noteq> None \<and> sn \<in># image_mset (fst \<circ> snd) ks"

lemma already_booked_known: "already_booked cs sn \<longleftrightarrow> seq_known sn (side_keys cs)"
  by (cases sn) (auto simp: already_booked_def seq_known_def list_ex_iff booked_seqs_alt
      intro: rev_image_eqI simp flip: booked_seqs_def)

lemma open_lot_books:
  assumes "dec_exact D" and "open_lot D cs pid sn amount ts = (cs', Inr u)"
  shows "(side_keys cs', side_funds cs') =
    (if seq_known sn (side_keys cs) then (side_keys cs, side_funds cs)
     else add_entry pid sn amount (side_keys cs, side_funds cs))"
  using assms
  by (auto simp: open_lot_def already_booked_known add_entry_def side_keys_def side_funds_def
      lot_key_def lot_funds_def collateral_lot_new_def Let_def split: if_splits option.splits
      dest!: dec_add_exact)

definition book_entry ::
  "side \<Rightarrow> payment_id \<Rightarrow> u256 option \<Rightarrow> amount \<Rightarrow>
     (side \<Rightarrow> (payment_id \<times> u256 option \<times> amount) multiset \<times> amount) \<Rightarrow>
     (side \<Rightarrow> (payment_id \<times> u256 option \<times> amount) multiset \<times> amount)" where
  "book_entry sd pid sn amount b =
     (if seq_known sn (fst (b sd)) then b else b(sd := add_entry pid sn amount (b sd)))"

lemma pos_books_new [simp]: "pos_books (collateral_position_new chain addr ts) sd = ({#}, 0)"
  by (cases sd) (simp_all add: pos_books_def collateral_position_new_def collateral_side_new_def
      side_keys_def side_funds_def)

lemma add_position_books:
  "add_position m chain addr ts = (m1, p) \<Longrightarrow>
     books m1 = books m \<and> client_funds m1 (chain, addr) = Some p"
  by (auto simp: add_position_def books_def Let_def fun_eq_iff split: option.splits if_splits)

lemma put_position_books_at:
  "books (put_position m chain addr p') = (books m)((chain, addr) := pos_books p')"
  by (auto simp: books_def put_position_def)

lemma deposit_books:
  assumes "dec_exact D"
  shows "books (fst (handle_deposit D m pid chain addr sn amount ts)) =
    (books m)((chain, addr) :=
       if isl (snd (handle_deposit D m pid chain addr sn amount ts)) then books m (chain, addr)
       else book_entry Buy pid (Some sn) amount (books m (chain, addr)))"
proof -
  obtain m1 p where add: "add_position m chain addr ts = (m1, p)" by fastforce
  note m1 = add_position_books [OF add]
  then have b: "books m (chain, addr) = pos_books p" by (metis books_def option.simps(5))
  obtain cs r where lot: "open_lot D (side_cr p) pid (Some sn) amount ts = (cs, r)" by fastforce
  show ?thesis
  proof (cases r)
    case (Inl e)
    with add m1 lot b show ?thesis
      by (simp add: handle_deposit_def safe_update_def put_position_books_at)
  next
    case (Inr u)
    with lot have "open_lot D (side_cr p) pid (Some sn) amount ts = (cs, Inr u)" by simp
    note cs = open_lot_books [OF assms this]
    have "pos_books (p\<lparr>side_cr := cs, cp_last_update_timestamp := ts\<rparr>) =
        book_entry Buy pid (Some sn) amount (pos_books p)"
    proof
      fix sd
      show "pos_books (p\<lparr>side_cr := cs, cp_last_update_timestamp := ts\<rparr>) sd =
          book_entry Buy pid (Some sn) amount (pos_books p) sd"
        using cs by (cases sd) (auto simp: pos_books_def book_entry_def split: if_splits)
    qed
    with add m1 lot b Inr show ?thesis
      by (simp add: handle_deposit_def safe_update_def put_position_books_at)
  qed
qed

lemma withdrawal_books:
  assumes "dec_exact D"
  shows "books (fst (handle_withdrawal D m pid chain addr amount ts)) =
    (books m)((chain, addr) :=
       if isl (snd (handle_withdrawal D m pid chain addr amount ts)) then books m (chain, addr)
       else book_entry Sell pid None amount (books m (chain, addr)))"
proof -
  obtain m1 p where add: "add_position m chain addr ts = (m1, p)" by fastforce
  note m1 = add_position_books [OF add]
  then have b: "books m (chain, addr) = pos_books p" by (metis books_def option.simps(5))
  obtain cs r where lot: "open_lot D (side_dr p) pid None amount ts = (cs, r)" by fastforce
  show ?thesis
  proof (cases r)
    case (Inl e)
    with add m1 lot b show ?thesis
      by (simp add: handle_withdrawal_def safe_update_def put_position_books_at)
  next
    case (Inr u)
    with lot have "open_lot D (side_dr p) pid None amount ts = (cs, Inr u)" by simp
    note cs = open_lot_books [OF assms this]
    have "pos_books (p\<lparr>side_dr := cs, cp_last_update_timestamp := ts\<rparr>) =
        book_entry Sell pid None amount (pos_books p)"
    proof
      fix sd
      show "pos_books (p\<lparr>side_dr := cs, cp_last_update_timestamp := ts\<rparr>) sd =
          book_entry Sell pid None amount (pos_books p) sd"
        using cs by (cases sd) (auto simp: pos_books_def book_entry_def split: if_splits)
    qed
    with add m1 lot b Inr show ?thesis
      by (simp add: handle_withdrawal_def safe_update_def put_position_books_at)
  qed
qed

section \<open>The ledger the manager implements\<close>

text \<open>
  The abstract account of a user: per side, the entries ever booked, each a payment id, the
  sequence number of the deposit and its amount. Deposits are booked once per sequence number;
  an entry is refused only when the decimal arithmetic overflows; nothing else changes it.
\<close>

type_synonym ledger = "u32 \<times> address \<Rightarrow> side \<Rightarrow> (payment_id \<times> u256 option \<times> amount) multiset"

definition book_in :: "ledger \<Rightarrow> u32 \<times> address \<Rightarrow> side \<Rightarrow> payment_id \<times> u256 option \<times> amount \<Rightarrow> ledger" where
  "book_in L k sd e = L(k := (L k)(sd := add_mset e (L k sd)))"

fun is_booking :: "manager_event \<Rightarrow> bool" where
  "is_booking (Deposit _ _ _ _ _ _) = True"
| "is_booking (Withdrawal _ _ _ _ _) = True"
| "is_booking _ = False"

inductive ledger_step :: "dec_ops \<Rightarrow> ledger \<Rightarrow> manager_event \<Rightarrow> ledger \<Rightarrow> bool" for D :: dec_ops where
  booked: "\<not> seq_known (Some n) (L (chain, addr) Buy) \<Longrightarrow>
    ledger_step D L (Deposit pid chain addr n amount ts) (book_in L (chain, addr) Buy (pid, Some n, amount))"
| replayed: "seq_known (Some n) (L (chain, addr) Buy) \<Longrightarrow>
    ledger_step D L (Deposit pid chain addr n amount ts) L"
| deposit_overflow: "dec_add D balance amount = None \<Longrightarrow>
    ledger_step D L (Deposit pid chain addr n amount ts) L"
| withdrawn: "ledger_step D L (Withdrawal pid chain addr amount ts)
    (book_in L (chain, addr) Sell (pid, None, amount))"
| withdrawal_overflow: "dec_add D balance amount = None \<Longrightarrow>
    ledger_step D L (Withdrawal pid chain addr amount ts) L"
| unchanged: "\<not> is_booking ev \<Longrightarrow> ledger_step D L ev L"

definition entries :: "collateral_manager \<Rightarrow> ledger" where
  "entries m = (\<lambda>k sd. fst (books m k sd))"

lemma entries_booked:
  "books m' = (books m)(k := book_entry sd pid sn amount (books m k)) \<Longrightarrow>
     entries m' = (if seq_known sn (entries m k sd) then entries m
       else book_in (entries m) k sd (pid, sn, amount))"
  by (rule ext, rule ext) (simp add: entries_def book_entry_def add_entry_def book_in_def)

lemma open_lot_refused:
  "open_lot D cs pid sn amount ts = (cs', Inl e) \<Longrightarrow> \<exists>b. dec_add D b amount = None"
  by (auto simp: open_lot_def Let_def split: if_splits option.splits)

lemma deposit_refused:
  "isl (snd (handle_deposit D m pid chain addr n amount ts)) \<Longrightarrow> \<exists>b. dec_add D b amount = None"
  by (auto simp: handle_deposit_def safe_update_def Let_def dest: open_lot_refused
      split: prod.splits sum.splits)

lemma withdrawal_refused:
  "isl (snd (handle_withdrawal D m pid chain addr amount ts)) \<Longrightarrow> \<exists>b. dec_add D b amount = None"
  by (auto simp: handle_withdrawal_def safe_update_def Let_def dest: open_lot_refused
      split: prod.splits sum.splits)

lemma books_other:
  "dec_exact D \<Longrightarrow> \<not> is_booking ev \<Longrightarrow> books (manager_step D bs r m ev) = books m"
  by (cases ev) (simp_all add: books_preauth books_confirm books_transfer_event
      books_same_funds [OF process_collateral_funds] books_same_funds [OF manage_collateral_funds])

lemma deposit_refines:
  assumes "dec_exact D"
  shows "ledger_step D (entries m) (Deposit pid chain addr n amount ts)
    (entries (fst (handle_deposit D m pid chain addr n amount ts)))"
proof (cases "isl (snd (handle_deposit D m pid chain addr n amount ts))")
  case True
  with deposit_books [OF assms] have "entries (fst (handle_deposit D m pid chain addr n amount ts)) = entries m"
    by (simp add: entries_def)
  with deposit_refused [OF True] show ?thesis by (auto intro: ledger_step.deposit_overflow)
next
  case False
  with deposit_books [OF assms] have "entries (fst (handle_deposit D m pid chain addr n amount ts)) =
      (if seq_known (Some n) (entries m (chain, addr) Buy) then entries m
       else book_in (entries m) (chain, addr) Buy (pid, Some n, amount))"
    by (simp add: entries_booked)
  then show ?thesis
    using ledger_step.booked [of n "entries m"] ledger_step.replayed [of n "entries m"] by auto
qed

lemma withdrawal_refines:
  assumes "dec_exact D"
  shows "ledger_step D (entries m) (Withdrawal pid chain addr amount ts)
    (entries (fst (handle_withdrawal D m pid chain addr amount ts)))"
proof (cases "isl (snd (handle_withdrawal D m pid chain addr amount ts))")
  case True
  with withdrawal_books [OF assms] have "entries (fst (handle_withdrawal D m pid chain addr amount ts)) = entries m"
    by (simp add: entries_def)
  with withdrawal_refused [OF True] show ?thesis by (auto intro: ledger_step.withdrawal_overflow)
next
  case False
  with withdrawal_books [OF assms] have "entries (fst (handle_withdrawal D m pid chain addr amount ts)) =
      book_in (entries m) (chain, addr) Sell (pid, None, amount)"
    by (simp add: entries_booked seq_known_def)
  then show ?thesis by (simp add: ledger_step.withdrawn)
qed

text \<open>
  C1. The manager implements the ledger: whatever it does in answer to an event, with all the
  lots, stages and spends it keeps, its entries change as the abstract account says. In
  particular a replayed deposit is booked once, a refusal comes from an arithmetic overflow
  only, and routing, pre-authorizing and confirming never touch what was booked.
\<close>

theorem manager_refines_ledger:
  assumes "dec_exact D"
  shows "ledger_step D (entries m) ev (entries (manager_step D bs r m ev))"
proof (cases "is_booking ev")
  case False
  with books_other [OF assms False] show ?thesis by (simp add: entries_def ledger_step.unchanged)
next
  case True
  then show ?thesis by (cases ev) (simp_all add: deposit_refines [OF assms] withdrawal_refines [OF assms])
qed

theorem manager_refines_ledger_witness:
  "ledger_step (dec_upto 1000) (entries (collateral_manager_new 0)) (Deposit ''P1'' 1 2 3 100 5)
     (entries (manager_step (dec_upto 1000) (\<lambda>_. Inr ()) collateral_router_new
        (collateral_manager_new 0) (Deposit ''P1'' 1 2 3 100 5)))"
  by (rule manager_refines_ledger) simp

text \<open>A side's books balance: its balances add up to its entries, each deposit booked once.\<close>

definition balanced :: "(payment_id \<times> u256 option \<times> amount) multiset \<times> amount \<Rightarrow> bool" where
  "balanced b \<longleftrightarrow> snd b = \<Sum>\<^sub># (image_mset (snd \<circ> snd) (fst b)) \<and>
     (\<forall>n. count (image_mset (fst \<circ> snd) (fst b)) (Some n) \<le> 1)"

definition books_fit :: "collateral_manager \<Rightarrow> bool" where
  "books_fit m \<longleftrightarrow> (\<forall>k sd. balanced (books m k sd))"

lemma balanced_entry:
  "balanced b \<Longrightarrow> \<not> seq_known sn (fst b) \<Longrightarrow> balanced (add_entry pid sn amount b)"
  by (auto simp: balanced_def add_entry_def seq_known_def count_eq_zero_iff)

lemma balanced_book:
  "(\<And>sd. balanced (b sd)) \<Longrightarrow> balanced (book_entry sd' pid sn amount b sd)"
  by (auto simp: book_entry_def balanced_entry)

lemma books_fit_new [simp]: "books_fit (collateral_manager_new zt)"
  by (simp add: books_fit_def books_def collateral_manager_new_def balanced_def)

lemma books_fit_step:
  assumes "dec_exact D" and "books_fit m"
  shows "books_fit (manager_step D bs r m ev)"
proof (cases ev)
  case (Deposit pid chain addr n amount ts)
  with assms show ?thesis
    by (auto simp: books_fit_def deposit_books intro: balanced_book)
next
  case (Withdrawal pid chain addr amount ts)
  with assms show ?thesis
    by (auto simp: books_fit_def withdrawal_books intro: balanced_book)
qed (use assms books_other [OF assms(1), of ev bs r m] in \<open>auto simp: books_fit_def simp del: manager_step.simps\<close>)

interpretation manager: reactive "manager_step D bs r" "\<lambda>_ _. dec_exact D" books_fit for D bs r
  by unfold_locales (rule books_fit_step)

text \<open>
  C2. Whatever sequence of deposits, withdrawals, routing reports, pre-authorizations and
  payments reaches the manager, failing ones included, the unconfirmed, ready, pre-authorized
  and spent balances of each side of each user add up to the amounts booked for that side, and
  no deposit is booked twice: no funds are created or lost.
\<close>

theorem books_always_balance:
  assumes "dec_exact D"
    and "client_funds (run (manager_step D bs r) (collateral_manager_new zt) es) k = Some p"
  shows "unconfirmed_balance (get_side sd p) + ready_balance (get_side sd p) +
      preauth_balance (get_side sd p) + spent_balance (get_side sd p) =
    total lot_funds (cs_open_lots (get_side sd p) @ cs_closed_lots (get_side sd p)) \<and>
    (\<forall>n. length (filter (\<lambda>l. c_seq_num l = Some n)
      (cs_open_lots (get_side sd p) @ cs_closed_lots (get_side sd p))) \<le> 1)"
proof -
  let ?m = "run (manager_step D bs r) (collateral_manager_new zt) es" and ?cs = "get_side sd p"
  have "books_fit ?m"
    by (rule manager.run_inv [OF books_fit_new]) (rule admits_const [OF assms(1)])
  then have "balanced (books ?m k sd)" unfolding books_fit_def by blast
  with assms(2) have b: "balanced (side_keys ?cs, side_funds ?cs)"
    by (simp add: books_def pos_books_def)
  have "length (filter (\<lambda>l. c_seq_num l = Some n) ls) = count (mset (map c_seq_num ls)) (Some n)" for n ls
    by (induction ls) auto
  then have len: "length (filter (\<lambda>l. c_seq_num l = Some n) (cs_open_lots ?cs @ cs_closed_lots ?cs)) =
      count (booked_seqs ?cs) (Some n)" for n
    unfolding booked_seqs_alt by metis
  from b have "side_funds ?cs = total lot_funds (cs_open_lots ?cs @ cs_closed_lots ?cs)"
    and "\<forall>n. count (booked_seqs ?cs) (Some n) \<le> 1"
    unfolding balanced_def funds_of_keys booked_seqs_def by simp_all
  with len show ?thesis unfolding side_funds_def by simp
qed

definition demo_events :: "manager_event list" where
  "demo_events = [Deposit ''D1'' 1 2 7 100 1, Deposit ''D2'' 1 2 8 50 2,
     Routed (TransferComplete 1 2 ''O1'' 3 ''A'' ''B'' 140 10)]"

lemmas [evals] = demo_events_def collateral_manager_new_def handle_deposit_def add_position_def
  safe_update_def put_position_def book_records_def charge_fee_def then_do_def fail_as_def
  cm_preauth_payment_def cm_confirm_payment_def close_all_lots_def spend_unconfirmed_def

theorem books_always_balance_witness:
  "\<exists>p. client_funds (run (manager_step (dec_upto 1000) (\<lambda>_. Inr ()) collateral_router_new)
       (collateral_manager_new (1 / 1000)) demo_events) (1, 2) = Some p \<and>
     ready_balance (side_cr p) = 140 \<and> spent_balance (side_cr p) = 10 \<and>
     total lot_funds (cs_open_lots (side_cr p) @ cs_closed_lots (side_cr p)) = 150"
proof -
  let ?f = "client_funds (run (manager_step (dec_upto 1000) (\<lambda>_. Inr ()) collateral_router_new)
       (collateral_manager_new (1 / 1000)) demo_events) (1, 2)"
  have some: "?f \<noteq> None" and bal: "unconfirmed_balance (side_cr (the ?f)) = 0"
      "ready_balance (side_cr (the ?f)) = 140" "preauth_balance (side_cr (the ?f)) = 0"
      "spent_balance (side_cr (the ?f)) = 10"
    by (simp_all add: evals)
  from some have f: "?f = Some (the ?f)" by simp
  with books_always_balance [OF dec_exact_upto f, of Buy] bal show ?thesis
    by (intro exI [of _ "the ?f"]) simp
qed

section \<open>Replayed deposits\<close>

definition knows_deposit :: "u32 \<times> address \<Rightarrow> u256 \<Rightarrow> collateral_manager \<Rightarrow> bool" where
  "knows_deposit k n m \<longleftrightarrow> seq_known (Some n) (fst (books m k Buy))"

lemma seq_known_book:
  "seq_known sn (fst (b sd)) \<Longrightarrow> seq_known sn (fst (book_entry sd' pid sn' amount b sd))"
  by (auto simp: book_entry_def add_entry_def seq_known_def)

interpretation replay: reactive "manager_step D bs r" "\<lambda>_ _. dec_exact D" "knows_deposit k n" for D bs r k n
proof unfold_locales
  fix m ev
  assume known: "knows_deposit k n m" and "dec_exact D"
  then show "knows_deposit k n (manager_step D bs r m ev)"
  proof (cases ev)
    case (Deposit pid chain addr n' amount ts)
    with known \<open>dec_exact D\<close> show ?thesis
      by (auto simp: knows_deposit_def deposit_books intro: seq_known_book)
  next
    case (Withdrawal pid chain addr amount ts)
    with known \<open>dec_exact D\<close> show ?thesis
      by (auto simp: knows_deposit_def withdrawal_books intro: seq_known_book)
  qed (use books_other [OF \<open>dec_exact D\<close>, of ev bs r m] known in
      \<open>auto simp: knows_deposit_def simp del: manager_step.simps\<close>)
qed

lemma deposit_known:
  assumes "dec_exact D" and "snd (handle_deposit D m pid chain addr n amount ts) = Inr ()"
  shows "knows_deposit (chain, addr) n (fst (handle_deposit D m pid chain addr n amount ts))"
  using assms by (simp add: knows_deposit_def deposit_books book_entry_def add_entry_def seq_known_def)

lemma known_deposit_ignored:
  assumes "knows_deposit (chain, addr) n m"
  shows "\<exists>p. client_funds m (chain, addr) = Some p \<and>
    handle_deposit D m pid chain addr n amount ts =
      (put_position m chain addr (p\<lparr>cp_last_update_timestamp := ts\<rparr>), Inr ())"
proof -
  from assms obtain p where p: "client_funds m (chain, addr) = Some p"
    by (auto simp: knows_deposit_def books_def seq_known_def split: option.splits)
  with assms have "already_booked (side_cr p) (Some n)"
    by (simp add: knows_deposit_def books_def pos_books_def already_booked_known)
  with p show ?thesis
    by (simp add: handle_deposit_def add_position_def open_lot_def safe_update_def)
qed

text \<open>
  Deposits are idempotent: once a deposit has been booked, then after any further events the
  same sequence number for the same user, whatever its amount and payment id, is accepted and
  changes nothing but the position's update time.
\<close>

theorem deposit_replay_ignored:
  assumes "dec_exact D" and "snd (handle_deposit D m pid chain addr n amount ts) = Inr ()"
    and "m' = run (manager_step D bs r) (fst (handle_deposit D m pid chain addr n amount ts)) es"
  shows "\<exists>p. client_funds m' (chain, addr) = Some p \<and>
    handle_deposit D m' pid' chain addr n amount' ts' =
      (put_position m' chain addr (p\<lparr>cp_last_update_timestamp := ts'\<rparr>), Inr ())"
proof (rule known_deposit_ignored)
  show "knows_deposit (chain, addr) n m'" unfolding assms(3)
    by (rule replay.run_inv [OF deposit_known [OF assms(1,2)]]) (rule admits_const [OF assms(1)])
qed

theorem deposit_replay_ignored_witness:
  "\<exists>p. client_funds (run (manager_step (dec_upto 1000) (\<lambda>_. Inr ()) collateral_router_new)
      (fst (handle_deposit (dec_upto 1000) (collateral_manager_new 0) ''D1'' 1 2 7 100 1)) demo_events)
      (1, 2) = Some p \<and>
    snd (handle_deposit (dec_upto 1000) (run (manager_step (dec_upto 1000) (\<lambda>_. Inr ()) collateral_router_new)
      (fst (handle_deposit (dec_upto 1000) (collateral_manager_new 0) ''D1'' 1 2 7 100 1)) demo_events)
      ''D3'' 1 2 7 300 9) = Inr ()"
proof -
  have "snd (handle_deposit (dec_upto 1000) (collateral_manager_new 0) ''D1'' 1 2 7 100 1) = Inr ()"
    by (simp add: evals)
  from deposit_replay_ignored [OF _ this refl, of "\<lambda>_. Inr ()" collateral_router_new demo_events
      "''D3''" 300 9]
  show ?thesis by auto
qed

end
