(* ===== verification/IndexOrder.thy ===== *)
theory IndexOrder
  imports Bits
begin

text \<open>
  A user's order for one index, \<open>src/solver/index_order.rs\<close>: a queue of updates on one side,
  which updates of the opposite side cancel from the back and the solver engages from the front.
  A method returns the order it leaves behind and its result; a method that fails after it has
  changed the queue leaves the changed queue, as the code does. \<open>solver_cancel\<close> unwraps a checked
  subtraction and panics when it overflows.
\<close>

section \<open>Data\<close>

record index_order_update =
  u_client_order_id :: client_order_id
  u_side :: side
  original_collateral_amount :: amount
  u_remaining :: amount
  u_engaged :: "amount option"
  u_collateral_spent :: amount
  u_filled_quantity :: amount
  update_fee :: amount
  u_timestamp :: timestamp

record index_order =
  io_chain_id :: u32
  io_address :: address
  io_symbol :: symbol
  io_side :: side
  io_remaining :: amount
  io_created_timestamp :: timestamp
  io_last_update_timestamp :: timestamp
  engaged_side :: "side option"
  io_engaged :: "amount option"
  io_collateral_spent :: amount
  io_filled_quantity :: amount
  io_fees :: amount
  order_updates :: "index_order_update list"
  engaged_updates :: "index_order_update list"
  closed_updates :: "index_order_update list"

datatype update_index_order_outcome =
    Push amount
  | UpdateReduce amount amount
  | Flip side amount

datatype cancel_index_order_outcome =
    CancelReduce amount amount
  | CancelAll amount

definition index_order_new :: "u32 \<Rightarrow> address \<Rightarrow> symbol \<Rightarrow> side \<Rightarrow> timestamp \<Rightarrow> index_order" where
  "index_order_new chain addr s sd ts = \<lparr>io_chain_id = chain, io_address = addr, io_symbol = s,
     io_side = sd, io_remaining = 0, io_created_timestamp = ts, io_last_update_timestamp = ts,
     engaged_side = None, io_engaged = None, io_collateral_spent = 0, io_filled_quantity = 0,
     io_fees = 0, order_updates = [], engaged_updates = [], closed_updates = []\<rparr>"

definition index_order_update_new ::
  "client_order_id \<Rightarrow> side \<Rightarrow> amount \<Rightarrow> timestamp \<Rightarrow> index_order_update" where
  "index_order_update_new coid sd amount ts = \<lparr>u_client_order_id = coid, u_side = sd,
     original_collateral_amount = amount, u_remaining = amount, u_engaged = None,
     u_collateral_spent = 0, u_filled_quantity = 0, update_fee = 0, u_timestamp = ts\<rparr>"

section \<open>Cancelling from the back\<close>

text \<open>
  The loop of \<open>match_cancel\<close> over the reversed queue: what is kept of it (still reversed), the
  updates closed and moved to the engaged ones, and the collateral left unmatched, if any.
\<close>

fun cancel_loop ::
  "dec_ops \<Rightarrow> amount \<Rightarrow> index_order_update list \<Rightarrow> amount \<Rightarrow>
     (index_order_update list \<times> index_order_update list \<times> index_order_update list \<times> amount option) result" where
  "cancel_loop D tol [] amount = Inr ([], [], [], Some amount)"
| "cancel_loop D tol (u # us) amount =
     (case dec_sub D (u_remaining u) amount of
        None \<Rightarrow> Inl ''Math Problem''
      | Some future \<Rightarrow>
          if future < tol then
            (if u_engaged u \<noteq> None then Inr (us, [], [u\<lparr>u_remaining := 0\<rparr>], Some (- future))
             else if future < - tol then
               rbind (cancel_loop D tol us (- future))
                 (\<lambda>(kept, gone, engaged, r). Inr (kept, u # gone, engaged, r))
             else Inr (us, [u], [], None))
          else Inr (u\<lparr>u_remaining := future\<rparr> # us, [], [], None))"

definition match_cancel ::
  "dec_ops \<Rightarrow> amount \<Rightarrow> index_order \<Rightarrow> amount \<Rightarrow> index_order \<times> amount option result" where
  "match_cancel D tol o1 amount =
     (case cancel_loop D tol (rev (order_updates o1)) amount of
        Inl e \<Rightarrow> (o1, Inl e)
      | Inr (kept, gone, engaged, r) \<Rightarrow>
          (o1\<lparr>order_updates := rev kept, engaged_updates := engaged_updates o1 @ engaged,
              closed_updates := closed_updates o1 @ gone\<rparr>, Inr r))"

definition update_order ::
  "dec_ops \<Rightarrow> index_order \<Rightarrow> client_order_id \<Rightarrow> side \<Rightarrow> amount \<Rightarrow> timestamp \<Rightarrow> amount \<Rightarrow>
     index_order \<times> update_index_order_outcome result" where
  "update_order D o1 coid sd amount ts tol =
     (let upd = index_order_update_new coid sd amount ts
      in if opposite_side (io_side o1) = sd then
        (case match_cancel D tol o1 amount of
           (o2, Inl e) \<Rightarrow> (o2, Inl e)
         | (o2, Inr (Some unmatched)) \<Rightarrow>
             if engaged_side o2 \<noteq> None then
               (let o3 = o2\<lparr>io_remaining := 0\<rparr>
                in case dec_sub D amount unmatched of
                     None \<Rightarrow> (o3, Inl ''Math Problem'')
                   | Some removed \<Rightarrow> (o3, Inr (UpdateReduce removed 0)))
             else
               (o2\<lparr>order_updates := order_updates o2 @ [upd\<lparr>u_remaining := unmatched\<rparr>],
                   io_remaining := unmatched, io_side := sd\<rparr>, Inr (Flip sd unmatched))
         | (o2, Inr None) \<Rightarrow>
             (case dec_sub D (io_remaining o2) amount of
                None \<Rightarrow> (o2, Inl ''Math Problem'')
              | Some r \<Rightarrow> (o2\<lparr>io_remaining := r\<rparr>, Inr (UpdateReduce amount r))))
      else case dec_add D (io_remaining o1) amount of
             None \<Rightarrow> (o1, Inl ''Math Problem'')
           | Some r \<Rightarrow> (o1\<lparr>io_remaining := r, order_updates := order_updates o1 @ [upd]\<rparr>,
                        Inr (Push amount)))"

definition cancel_updates ::
  "dec_ops \<Rightarrow> index_order \<Rightarrow> amount \<Rightarrow> amount \<Rightarrow> index_order \<times> cancel_index_order_outcome result" where
  "cancel_updates D o1 amount tol =
     (case match_cancel D tol o1 amount of
        (o2, Inl e) \<Rightarrow> (o2, Inl e)
      | (o2, Inr (Some unmatched)) \<Rightarrow>
          (case dec_sub D amount unmatched of
             None \<Rightarrow> (o2, Inl ''Math Problem'')
           | Some removed \<Rightarrow>
               if engaged_side o2 \<noteq> None
               then (o2\<lparr>io_remaining := 0\<rparr>, Inr (CancelReduce removed 0))
               else (o2, Inr (CancelAll removed)))
      | (o2, Inr None) \<Rightarrow>
          (case dec_add D (io_remaining o2) amount of
             None \<Rightarrow> (o2, Inl ''Math Problem'')
           | Some r \<Rightarrow> (o2\<lparr>io_remaining := r\<rparr>, Inr (CancelReduce amount r))))"

section \<open>Engaging from the front\<close>

text \<open>The loop of \<open>match_engage\<close>: what is kept of the queue, the updates fully engaged, and the
  collateral left unmatched, if any.\<close>

fun engage_loop ::
  "dec_ops \<Rightarrow> amount \<Rightarrow> index_order_update list \<Rightarrow> amount \<Rightarrow>
     (index_order_update list \<times> index_order_update list \<times> amount option) result" where
  "engage_loop D tol [] amount = Inr ([], [], Some amount)"
| "engage_loop D tol (u # us) amount =
     (case dec_sub D (u_remaining u) amount of
        None \<Rightarrow> Inl ''Math Problem''
      | Some future \<Rightarrow>
          if future < tol then
            (case safe_add_assign D (u_engaged u) (u_remaining u) of
               None \<Rightarrow> Inl ''Math Problem''
             | Some e \<Rightarrow>
                 let u' = u\<lparr>u_engaged := Some e, u_remaining := 0\<rparr>
                 in if future < - tol then
                      rbind (engage_loop D tol us (- future))
                        (\<lambda>(kept, engaged, r). Inr (kept, u' # engaged, r))
                    else Inr (us, [u'], None))
          else (case safe_add_assign D (u_engaged u) amount of
                  None \<Rightarrow> Inl ''Math Problem''
                | Some e \<Rightarrow> Inr (u\<lparr>u_engaged := Some e, u_remaining := future\<rparr> # us, [], None)))"

definition match_engage ::
  "dec_ops \<Rightarrow> amount \<Rightarrow> index_order \<Rightarrow> amount \<Rightarrow> index_order \<times> amount option result" where
  "match_engage D tol o1 amount =
     (case engage_loop D tol (order_updates o1) amount of
        Inl e \<Rightarrow> (o1, Inl e)
      | Inr (kept, engaged, r) \<Rightarrow>
          (o1\<lparr>order_updates := kept, engaged_updates := engaged_updates o1 @ engaged\<rparr>, Inr r))"

text \<open>The order's own account of an engagement of \<open>amount\<close>; the sums are made one by one.\<close>

definition note_engaged :: "dec_ops \<Rightarrow> index_order \<Rightarrow> amount \<Rightarrow> 'a \<Rightarrow> index_order \<times> 'a result" where
  "note_engaged D o1 amount x =
     (case safe_add_assign D (io_engaged o1) amount of
        None \<Rightarrow> (o1, Inl ''Math Problem'')
      | Some e \<Rightarrow>
          let o2 = o1\<lparr>io_engaged := Some e\<rparr>
          in case dec_sub D (io_remaining o2) amount of
               None \<Rightarrow> (o2, Inl ''Math Problem'')
             | Some r \<Rightarrow> (o2\<lparr>io_remaining := r, engaged_side := Some (io_side o2)\<rparr>, Inr x))"

definition solver_engage ::
  "dec_ops \<Rightarrow> index_order \<Rightarrow> amount \<Rightarrow> amount \<Rightarrow> index_order \<times> amount option result" where
  "solver_engage D o1 amount tol =
     (case match_engage D tol o1 amount of
        (o2, Inl e) \<Rightarrow> (o2, Inl e)
      | (o2, Inr (Some unmatched)) \<Rightarrow>
          (case dec_sub D amount unmatched of
             None \<Rightarrow> (o2, Inl ''Math Problem'')
           | Some engaged \<Rightarrow> note_engaged D o2 engaged (Some unmatched))
      | (o2, Inr None) \<Rightarrow> note_engaged D o2 amount None)"

definition engage_front ::
  "dec_ops \<Rightarrow> client_order_id \<Rightarrow> amount \<Rightarrow> index_order_update \<Rightarrow>
     (index_order_update \<times> amount \<times> amount) result" where
  "engage_front D coid amount u =
     (if u_client_order_id u \<noteq> coid then Inl ''Can only engage next update in queue''
      else let matched = min amount (u_remaining u)
      in case (dec_sub D amount matched, dec_sub D (u_remaining u) matched) of
           (Some unmatched, Some remaining) \<Rightarrow>
             Inr (u\<lparr>u_engaged := (case u_engaged u of None \<Rightarrow> Some matched | Some x \<Rightarrow> dec_add D x matched),
                    u_remaining := remaining\<rparr>, remaining, unmatched)
         | _ \<Rightarrow> Inl ''Math Problem'')"

definition match_engage_one ::
  "dec_ops \<Rightarrow> amount \<Rightarrow> index_order \<Rightarrow> client_order_id \<Rightarrow> amount \<Rightarrow>
     index_order \<times> (amount \<times> amount option) result" where
  "match_engage_one D tol o1 coid amount =
     (if engaged_updates o1 \<noteq> [] \<and> u_client_order_id (last (engaged_updates o1)) = coid
      then (if amount < tol then (o1, Inr (0, None))
            else (o1, Inl ''Cannot engage fully engaged order''))
      else case order_updates o1 of
             [] \<Rightarrow> (o1, Inl ''Front update not found'')
           | u # us \<Rightarrow>
               (case engage_front D coid amount u of
                  Inl e \<Rightarrow> (o1, Inl e)
                | Inr (u', remaining, unmatched) \<Rightarrow>
                    (if remaining < tol
                     then o1\<lparr>order_updates := us, engaged_updates := engaged_updates o1 @ [u']\<rparr>
                     else o1\<lparr>order_updates := u' # us\<rparr>,
                     Inr (remaining, if unmatched < tol then None else Some unmatched))))"

definition solver_engage_one ::
  "dec_ops \<Rightarrow> index_order \<Rightarrow> client_order_id \<Rightarrow> amount \<Rightarrow> amount \<Rightarrow>
     index_order \<times> (amount \<times> amount option) result" where
  "solver_engage_one D o1 coid amount tol =
     (case match_engage_one D tol o1 coid amount of
        (o2, Inl e) \<Rightarrow> (o2, Inl e)
      | (o2, Inr (remaining, Some unmatched)) \<Rightarrow>
          (case dec_sub D amount unmatched of
             None \<Rightarrow> (o2, Inl ''Math Problem'')
           | Some engaged \<Rightarrow> note_engaged D o2 engaged (remaining, Some unmatched))
      | (o2, Inr (remaining, None)) \<Rightarrow> note_engaged D o2 amount (remaining, None))"

section \<open>Completion and look-up\<close>

definition solver_complete :: "index_order \<Rightarrow> client_order_id \<Rightarrow> index_order \<times> unit result" where
  "solver_complete o1 coid =
     (case remove_first (\<lambda>u. u_client_order_id u = coid) (engaged_updates o1) of
        None \<Rightarrow> (o1, Inl ''Engaged update not found'')
      | Some (u, us) \<Rightarrow>
          (o1\<lparr>engaged_updates := us, closed_updates := closed_updates o1 @ [u]\<rparr>, Inr ()))"

text \<open>\<open>retain\<close> with a closure that closes the updates it drops; \<open>None\<close> when the \<open>unwrap\<close> panics.\<close>

fun cancel_retain ::
  "dec_ops \<Rightarrow> client_order_id \<Rightarrow> index_order_update list \<Rightarrow> amount \<Rightarrow>
     (index_order_update list \<times> index_order_update list \<times> amount) option" where
  "cancel_retain D coid [] r = Some ([], [], r)"
| "cancel_retain D coid (u # us) r =
     (if u_client_order_id u = coid then
        (case dec_sub D r (u_remaining u) of
           None \<Rightarrow> None
         | Some r' \<Rightarrow> map_option (\<lambda>(kept, gone, r''). (kept, u # gone, r'')) (cancel_retain D coid us r'))
      else map_option (\<lambda>(kept, gone, r''). (u # kept, gone, r'')) (cancel_retain D coid us r))"

definition solver_cancel :: "dec_ops \<Rightarrow> index_order \<Rightarrow> client_order_id \<Rightarrow> index_order option" where
  "solver_cancel D o1 coid =
     map_option (\<lambda>(kept, gone, r). o1\<lparr>order_updates := kept, closed_updates := closed_updates o1 @ gone,
                                     io_remaining := r\<rparr>)
       (cancel_retain D coid (order_updates o1) (io_remaining o1))"

definition drain_closed_updates :: "index_order \<Rightarrow> index_order \<times> index_order_update list" where
  "drain_closed_updates o1 = (o1\<lparr>closed_updates := []\<rparr>, closed_updates o1)"

definition find_order_update :: "index_order \<Rightarrow> client_order_id \<Rightarrow> index_order_update option" where
  "find_order_update o1 coid = List.find (\<lambda>u. u_client_order_id u = coid) (order_updates o1)"

definition find_engaged_update :: "index_order \<Rightarrow> client_order_id \<Rightarrow> index_order_update option" where
  "find_engaged_update o1 coid =
     List.find (\<lambda>u. u_client_order_id u = coid) (take 1 (order_updates o1) @ engaged_updates o1)"

section \<open>Accounting of the queue\<close>

definition engaged_of :: "index_order_update \<Rightarrow> amount" where
  "engaged_of u = (case u_engaged u of None \<Rightarrow> 0 | Some e \<Rightarrow> e)"

lemma engaged_of_update [simp]:
  "engaged_of (u\<lparr>u_engaged := Some e\<rparr>) = e"
  "engaged_of (u\<lparr>u_remaining := b\<rparr>) = engaged_of u"
  by (simp_all add: engaged_of_def)

text \<open>What a cancellation takes from the queue, up to the tolerance when it ends on an update's last
  collateral, and that it leaves what the solver engaged alone.\<close>

lemma cancel_loop_accounts:
  assumes "dec_exact D" and "0 \<le> tol"
  shows "cancel_loop D tol us a = Inr (kept, gone, eng, r) \<Longrightarrow>
    (case r of
       None \<Rightarrow> \<bar>total u_remaining us - total u_remaining kept - a\<bar> \<le> tol
     | Some x \<Rightarrow> total u_remaining us - total u_remaining kept = a - x)"
proof (induction us arbitrary: a kept gone)
  case (Cons u us)
  from Cons.prems obtain f where "dec_sub D (u_remaining u) a = Some f"
    by (auto split: option.splits)
  with assms(1) have f: "dec_sub D (u_remaining u) a = Some f" "f = u_remaining u - a"
    by (auto dest: dec_sub_exact)
  show ?case
  proof (cases "f < - tol \<and> u_engaged u = None")
    case True
    with f Cons.prems assms(2) obtain gone' where "cancel_loop D tol us (- f) = Inr (kept, gone', eng, r)"
      by (auto simp: rbind_eq_Inr split: if_splits)
    from Cons.IH [OF this] f show ?thesis by (auto split: option.splits)
  next
    case False
    with f Cons.prems assms(2) show ?thesis by (auto split: if_splits)
  qed
qed auto

definition unengaged :: "index_order_update list \<Rightarrow> bool" where
  "unengaged us \<longleftrightarrow> list_all (\<lambda>u. u_engaged u = None) us"

lemma unengaged_simps [simp]:
  "unengaged []"
  "unengaged (u # us) \<longleftrightarrow> u_engaged u = None \<and> unengaged us"
  "unengaged (us @ vs) \<longleftrightarrow> unengaged us \<and> unengaged vs"
  "unengaged (rev us) = unengaged us"
  by (auto simp: unengaged_def)

lemma unengaged_tl: "unengaged us \<Longrightarrow> unengaged (tl us)"
  by (cases us) auto

lemma cancel_loop_engaged:
  "cancel_loop D tol us a = Inr (kept, gone, eng, r) \<Longrightarrow>
     total engaged_of kept + total engaged_of eng = total engaged_of us \<and> unengaged gone"
proof (induction us arbitrary: a kept gone)
  case (Cons u us)
  then show ?case
    by (auto simp: rbind_eq_Inr engaged_of_def split: option.splits if_splits)
qed simp

text \<open>When only the front of the queue may be engaged, what is left unmatched leaves no queue.\<close>

lemma cancel_loop_unmatched:
  "cancel_loop D tol us a = Inr (kept, gone, eng, Some x) \<Longrightarrow> unengaged (butlast us) \<Longrightarrow> kept = []"
proof (induction us arbitrary: a kept gone)
  case (Cons u us)
  show ?case
  proof (cases "us = []")
    case True
    with Cons.prems show ?thesis by (auto split: option.splits if_splits)
  next
    case False
    with Cons.prems Cons.IH show ?thesis
      by (auto simp: rbind_eq_Inr split: option.splits if_splits)
  qed
qed simp

lemma cancel_loop_butlast:
  "cancel_loop D tol us a = Inr (kept, gone, eng, r) \<Longrightarrow> unengaged (butlast us) \<Longrightarrow>
     unengaged (butlast kept)"
proof (induction us arbitrary: a kept gone)
  case (Cons u us)
  show ?case
  proof (cases "us = []")
    case True
    with Cons.prems show ?thesis by (auto split: option.splits if_splits)
  next
    case False
    with Cons.prems Cons.IH show ?thesis
      by (auto simp: rbind_eq_Inr split: option.splits if_splits)
  qed
qed simp

lemma engage_loop_accounts:
  assumes "dec_exact D" and "0 \<le> tol"
  shows "engage_loop D tol us a = Inr (kept, eng, r) \<Longrightarrow>
    total engaged_of eng + total engaged_of kept =
      total engaged_of us + (total u_remaining us - total u_remaining kept) \<and>
    (case r of
       None \<Rightarrow> \<bar>total u_remaining us - total u_remaining kept - a\<bar> \<le> tol
     | Some x \<Rightarrow> total u_remaining us - total u_remaining kept = a - x) \<and>
    map u_client_order_id (eng @ kept) = map u_client_order_id us"
proof (induction us arbitrary: a eng)
  case (Cons u us)
  from Cons.prems obtain f where "dec_sub D (u_remaining u) a = Some f"
    by (auto split: option.splits)
  with assms(1) have f: "dec_sub D (u_remaining u) a = Some f" "f = u_remaining u - a"
    by (auto dest: dec_sub_exact)
  have add: "safe_add_assign D (u_engaged u) b = Some e \<Longrightarrow> e = engaged_of u + b" for b e
    using safe_add_assign_exact [OF assms(1)] by (simp add: engaged_of_def)
  show ?case
  proof (cases "f < - tol")
    case True
    with f Cons.prems assms(2) obtain e eng'
      where "safe_add_assign D (u_engaged u) (u_remaining u) = Some e"
        and "engage_loop D tol us (- f) = Inr (kept, eng', r)"
        and "eng = u\<lparr>u_engaged := Some e, u_remaining := 0\<rparr> # eng'"
      by (auto simp: rbind_eq_Inr Let_def split: if_splits option.splits)
    with Cons.IH [of "- f" eng'] f add [of "u_remaining u" e] show ?thesis
      by (auto split: option.splits)
  next
    case False
    with f Cons.prems assms(2) show ?thesis
      by (auto simp: Let_def dest!: add split: if_splits option.splits)
  qed
qed auto

lemma engage_loop_tl:
  "engage_loop D tol us a = Inr (kept, eng, r) \<Longrightarrow> unengaged (tl us) \<Longrightarrow> unengaged (tl kept)"
proof (induction us arbitrary: a eng)
  case (Cons u us)
  then show ?case
    by (auto simp: rbind_eq_Inr Let_def dest: unengaged_tl split: option.splits if_splits)
qed simp

section \<open>The order's remaining collateral follows its queue\<close>

definition queued :: "index_order \<Rightarrow> amount" where
  "queued o1 = total u_remaining (order_updates o1)"

definition engaged_total :: "index_order \<Rightarrow> amount" where
  "engaged_total o1 = total engaged_of (order_updates o1 @ engaged_updates o1)"

text \<open>The order follows its queue up to \<open>slack\<close>, and only the front update may be engaged.\<close>

definition follows :: "amount \<Rightarrow> index_order \<Rightarrow> bool" where
  "follows slack o1 \<longleftrightarrow> \<bar>io_remaining o1 - queued o1\<bar> \<le> slack \<and> unengaged (tl (order_updates o1))"

lemma butlast_rev_tl: "butlast (rev xs) = rev (tl xs)"
  by (cases xs) auto

lemma tl_rev_butlast: "tl (rev xs) = rev (butlast xs)"
  by (metis butlast_rev_tl rev_rev_ident)

lemma match_cancel_accounts:
  assumes "dec_exact D" "0 \<le> tol" "match_cancel D tol o1 a = (o2, Inr r)"
  shows "(case r of None \<Rightarrow> \<bar>queued o1 - queued o2 - a\<bar> \<le> tol | Some x \<Rightarrow> queued o1 - queued o2 = a - x)"
    and "unengaged (tl (order_updates o1)) \<Longrightarrow> unengaged (tl (order_updates o2)) \<and>
      (r \<noteq> None \<longrightarrow> order_updates o2 = [])"
    and "io_remaining o2 = io_remaining o1" "io_side o2 = io_side o1" "engaged_side o2 = engaged_side o1"
      "io_engaged o2 = io_engaged o1"
proof -
  from assms(3) obtain kept gone eng
    where run: "cancel_loop D tol (rev (order_updates o1)) a = Inr (kept, gone, eng, r)"
      and o2: "o2 = o1\<lparr>order_updates := rev kept, engaged_updates := engaged_updates o1 @ eng,
              closed_updates := closed_updates o1 @ gone\<rparr>"
    by (auto simp: match_cancel_def split: sum.splits)
  show "case r of None \<Rightarrow> \<bar>queued o1 - queued o2 - a\<bar> \<le> tol | Some x \<Rightarrow> queued o1 - queued o2 = a - x"
    using cancel_loop_accounts [OF assms(1,2) run] o2
    by (simp add: queued_def rev_map [symmetric] split: option.splits)
  show "unengaged (tl (order_updates o2)) \<and> (r \<noteq> None \<longrightarrow> order_updates o2 = [])"
    if "unengaged (tl (order_updates o1))"
    using that cancel_loop_butlast [OF run] cancel_loop_unmatched [of D tol _ a kept gone eng] run o2
    by (auto simp: butlast_rev_tl tl_rev_butlast)
qed (use assms(3) in \<open>auto simp: match_cancel_def split: sum.splits\<close>)

lemma match_cancel_engaged:
  "engaged_total (fst (match_cancel D tol o1 a)) = engaged_total o1"
proof (cases "cancel_loop D tol (rev (order_updates o1)) a")
  case (Inr r)
  then obtain kept gone eng x
    where run: "cancel_loop D tol (rev (order_updates o1)) a = Inr (kept, gone, eng, x)" by (metis surj_pair)
  from cancel_loop_engaged [OF run] run show ?thesis
    by (simp add: match_cancel_def engaged_total_def rev_map [symmetric])
qed (simp add: match_cancel_def)

lemma match_engage_accounts:
  assumes "dec_exact D" "0 \<le> tol" "match_engage D tol o1 a = (o2, Inr r)"
  shows "engaged_total o2 = engaged_total o1 + (queued o1 - queued o2)"
    and "(case r of None \<Rightarrow> \<bar>queued o1 - queued o2 - a\<bar> \<le> tol | Some x \<Rightarrow> queued o1 - queued o2 = a - x)"
    and "map u_client_order_id (engaged_updates o2 @ order_updates o2) =
      map u_client_order_id (engaged_updates o1 @ order_updates o1)"
    and "unengaged (tl (order_updates o1)) \<Longrightarrow> unengaged (tl (order_updates o2))"
    and "io_remaining o2 = io_remaining o1" "io_engaged o2 = io_engaged o1" "io_side o2 = io_side o1"
proof -
  from assms(3) obtain kept eng
    where run: "engage_loop D tol (order_updates o1) a = Inr (kept, eng, r)"
      and o2: "o2 = o1\<lparr>order_updates := kept, engaged_updates := engaged_updates o1 @ eng\<rparr>"
    by (auto simp: match_engage_def split: sum.splits)
  note acc = engage_loop_accounts [OF assms(1,2) run]
  show "engaged_total o2 = engaged_total o1 + (queued o1 - queued o2)"
    and "case r of None \<Rightarrow> \<bar>queued o1 - queued o2 - a\<bar> \<le> tol | Some x \<Rightarrow> queued o1 - queued o2 = a - x"
    and "map u_client_order_id (engaged_updates o2 @ order_updates o2) =
      map u_client_order_id (engaged_updates o1 @ order_updates o1)"
    using acc o2 by (auto simp: engaged_total_def queued_def split: option.splits)
  show "unengaged (tl (order_updates o2))" if "unengaged (tl (order_updates o1))"
    using engage_loop_tl [OF run that] o2 by simp
qed (use assms(3) in \<open>auto simp: match_engage_def split: sum.splits\<close>)

lemma note_engaged_ok:
  assumes "dec_exact D" "note_engaged D o1 a x = (o2, Inr y)"
  shows "y = x \<and> io_remaining o2 = io_remaining o1 - a \<and> order_updates o2 = order_updates o1 \<and>
    engaged_updates o2 = engaged_updates o1 \<and> engaged_side o2 = Some (io_side o1) \<and>
    io_engaged o2 = Some ((case io_engaged o1 of None \<Rightarrow> 0 | Some e \<Rightarrow> e) + a)"
  using assms
  by (auto simp: note_engaged_def Let_def split: option.splits
      dest!: dec_sub_exact safe_add_assign_exact [rotated])

lemma followsI:
  "\<bar>io_remaining o1 - queued o1\<bar> \<le> slack \<Longrightarrow> unengaged (tl (order_updates o1)) \<Longrightarrow> follows slack o1"
  by (simp add: follows_def)

lemma unengaged_tl_snoc: 
  "unengaged (tl (us @ [u])) \<longleftrightarrow> us = [] \<or> unengaged (tl us) \<and> u_engaged u = None"
  by (cases us) auto

lemma update_order_follows:
  assumes D: "dec_exact D" "0 \<le> tol" and f: "follows s o1"
    and ok: "update_order D o1 coid sd a ts tol = (o2, Inr res)"
  shows "follows (s + tol) o2"
proof (cases "opposite_side (io_side o1) = sd")
  case False
  with f ok D show ?thesis
    by (auto simp: update_order_def follows_def queued_def index_order_update_new_def Let_def
        unengaged_tl_snoc split: option.splits dest!: dec_add_exact)
next
  case True
  obtain o3 m where mc: "match_cancel D tol o1 a = (o3, m)" by fastforce
  with ok True obtain r where m: "m = Inr r" by (cases m) (auto simp: update_order_def Let_def)
  note acc = match_cancel_accounts [OF D mc [unfolded m]]
  from f acc(2) have tl: "unengaged (tl (order_updates o3)) \<and> (r \<noteq> None \<longrightarrow> order_updates o3 = [])"
    by (simp add: follows_def)
  show ?thesis
  proof (cases r)
    case None
    with ok True mc m D acc have "io_remaining o2 = io_remaining o1 - a" "order_updates o2 = order_updates o3"
      by (auto simp: update_order_def Let_def split: option.splits dest!: dec_sub_exact)
    with acc(1) None f tl show ?thesis by (auto simp: follows_def queued_def)
  next
    case (Some x)
    with tl have "order_updates o3 = []" by simp
    with ok True mc m Some D f show ?thesis
      by (auto simp: update_order_def follows_def queued_def index_order_update_new_def Let_def
          split: option.splits if_splits)
  qed
qed

lemma solver_engage_follows:
  assumes D: "dec_exact D" "0 \<le> tol" and f: "follows s o1"
    and ok: "solver_engage D o1 a tol = (o2, Inr res)"
  shows "follows (s + tol) o2"
proof -
  obtain o3 m where me: "match_engage D tol o1 a = (o3, m)" by fastforce
  with ok obtain r where m: "m = Inr r" by (cases m) (auto simp: solver_engage_def)
  note acc = match_engage_accounts [OF D me [unfolded m]]
  let ?b = "case r of None \<Rightarrow> a | Some x \<Rightarrow> a - x"
  have "note_engaged D o3 ?b r = (o2, Inr res)"
    using ok me m D(1) by (auto simp: solver_engage_def split: option.splits dest!: dec_sub_exact)
  note ne = note_engaged_ok [OF D(1) this]
  have "\<bar>(queued o1 - queued o2) - ?b\<bar> \<le> tol"
    using acc(1,2) ne D(2) by (auto simp: queued_def split: option.splits)
  with f acc(4,5) ne show ?thesis by (auto simp: follows_def queued_def)
qed

lemma engage_front_ok:
  assumes "dec_exact D" "engage_front D coid a u = Inr (u', rem, unm)"
  shows "0 \<le> unm \<and> 0 \<le> rem \<and> rem = u_remaining u - (a - unm) \<and> u_remaining u' = rem"
  using assms by (auto simp: engage_front_def Let_def split: if_splits option.splits dest!: dec_sub_exact)

lemma solver_engage_one_follows:
  assumes D: "dec_exact D" "0 \<le> tol" and f: "follows s o1" and "0 \<le> a"
    and ok: "solver_engage_one D o1 coid a tol = (o2, Inr res)"
  shows "follows (s + 2 * tol) o2"
proof -
  obtain o3 m where me: "match_engage_one D tol o1 coid a = (o3, m)" by fastforce
  with ok obtain rem r where m: "m = Inr (rem, r)" by (cases m) (auto simp: solver_engage_one_def)
  let ?b = "case r of None \<Rightarrow> a | Some x \<Rightarrow> a - x"
  have "note_engaged D o3 ?b (rem, r) = (o2, Inr res)"
    using ok me m D(1) by (auto simp: solver_engage_one_def split: option.splits dest!: dec_sub_exact)
  note ne = note_engaged_ok [OF D(1) this]
  have "\<bar>(queued o1 - queued o3) - ?b\<bar> \<le> 2 * tol \<and> unengaged (tl (order_updates o3)) \<and>
      io_remaining o3 = io_remaining o1"
  proof (cases "engaged_updates o1 \<noteq> [] \<and> u_client_order_id (last (engaged_updates o1)) = coid")
    case True
    with me m f D(2) \<open>0 \<le> a\<close> show ?thesis
      by (auto simp: match_engage_one_def follows_def split: if_splits)
  next
    case False
    with me m obtain u us u' unm where us: "order_updates o1 = u # us"
      and fr: "engage_front D coid a u = Inr (u', rem, unm)"
      and o3: "o3 = (if rem < tol
                     then o1\<lparr>order_updates := us, engaged_updates := engaged_updates o1 @ [u']\<rparr>
                     else o1\<lparr>order_updates := u' # us\<rparr>)"
      and r: "r = (if unm < tol then None else Some unm)"
      by (auto simp: match_engage_one_def split: list.splits sum.splits)
    note fo = engage_front_ok [OF D(1) fr]
    from f us have "unengaged us" by (simp add: follows_def)
    then have "unengaged (tl (order_updates o3))" using o3 by (auto intro: unengaged_tl)
    moreover have "\<bar>(queued o1 - queued o3) - ?b\<bar> \<le> 2 * tol"
      using us o3 r fo D(2) by (auto simp: queued_def)
    ultimately show ?thesis using o3 by simp
  qed
  with f ne show ?thesis by (auto simp: follows_def queued_def)
qed

lemma cancel_retain_follows:
  assumes "dec_exact D"
  shows "cancel_retain D coid us r = Some (kept, gone, r') \<Longrightarrow>
    r - r' = total u_remaining us - total u_remaining kept \<and>
    (unengaged us \<longrightarrow> unengaged kept) \<and> (unengaged (tl us) \<longrightarrow> unengaged (tl kept))"
proof (induction us arbitrary: r kept gone)
  case (Cons u us)
  then show ?case using assms
    by (fastforce split: if_splits option.splits intro: unengaged_tl dest!: dec_sub_exact)
qed simp

text \<open>The events of an order: the user's updates and what the solver does with it.\<close>

datatype order_event =
    UserUpdate client_order_id side amount timestamp
  | SolverEngage amount
  | SolverEngageOne client_order_id amount
  | SolverComplete client_order_id
  | SolverCancel client_order_id
  | DrainClosed

definition checked :: "'s \<times> 'a result \<Rightarrow> 's \<times> bool" where
  "checked p = (fst p, \<not> isl (snd p))"

lemma checked_ok: "snd (checked p) \<Longrightarrow> \<exists>x. p = (fst (checked p), Inr x)"
  by (cases p; cases "snd p") (auto simp: checked_def)

fun order_apply :: "dec_ops \<Rightarrow> amount \<Rightarrow> index_order \<Rightarrow> order_event \<Rightarrow> index_order \<times> bool" where
  "order_apply D tol o1 (UserUpdate coid sd a ts) =
     checked (update_order D o1 coid sd a ts tol)"
| "order_apply D tol o1 (SolverEngage a) =
     checked (solver_engage D o1 a tol)"
| "order_apply D tol o1 (SolverEngageOne coid a) =
     checked (solver_engage_one D o1 coid a tol)"
| "order_apply D tol o1 (SolverComplete coid) =
     checked (solver_complete o1 coid)"
| "order_apply D tol o1 (SolverCancel coid) =
     (case solver_cancel D o1 coid of Some o2 \<Rightarrow> (o2, True) | None \<Rightarrow> (o1, False))"
| "order_apply D tol o1 DrainClosed = (fst (drain_closed_updates o1), True)"

text \<open>An event that succeeds, with an engagement of no negative amount.\<close>

fun succeeds :: "dec_ops \<Rightarrow> amount \<Rightarrow> index_order \<times> nat \<Rightarrow> order_event \<Rightarrow> bool" where
  "succeeds D tol (o1, n) e \<longleftrightarrow> snd (order_apply D tol o1 e) \<and>
     (case e of SolverEngageOne _ a \<Rightarrow> 0 \<le> a | _ \<Rightarrow> True)"

fun order_step :: "dec_ops \<Rightarrow> amount \<Rightarrow> index_order \<times> nat \<Rightarrow> order_event \<Rightarrow> index_order \<times> nat" where
  "order_step D tol (o1, n) e = (fst (order_apply D tol o1 e), n + 1)"

fun follows_up_to :: "amount \<Rightarrow> index_order \<times> nat \<Rightarrow> bool" where
  "follows_up_to tol (o1, n) = follows (2 * of_nat n * tol) o1"

lemma follows_mono: "follows s o1 \<Longrightarrow> s \<le> s' \<Longrightarrow> follows s' o1"
  by (auto simp: follows_def)

lemma order_apply_follows:
  assumes D: "dec_exact D" "0 \<le> tol" and f: "follows s o1" and ok: "succeeds D tol (o1, n) e"
  shows "follows (s + 2 * tol) (fst (order_apply D tol o1 e))"
proof (cases e)
  case (UserUpdate coid sd a ts)
  then obtain res where "update_order D o1 coid sd a ts tol =
      (fst (order_apply D tol o1 e), Inr res)"
    using ok checked_ok by fastforce
  from update_order_follows [OF D f this] show ?thesis by (rule follows_mono) (use D(2) in simp)
next
  case (SolverEngage a)
  then obtain res where "solver_engage D o1 a tol =
      (fst (order_apply D tol o1 e), Inr res)"
    using ok checked_ok by fastforce
  from solver_engage_follows [OF D f this] show ?thesis by (rule follows_mono) (use D(2) in simp)
next
  case (SolverEngageOne coid a)
  then obtain res where "solver_engage_one D o1 coid a tol =
      (fst (order_apply D tol o1 e), Inr res)"
    using ok checked_ok by fastforce
  from solver_engage_one_follows [OF D f _ this] SolverEngageOne ok show ?thesis by auto
next
  case (SolverComplete coid)
  with f D(2) show ?thesis
    by (auto simp: solver_complete_def checked_def follows_def queued_def split: option.splits)
next
  case (SolverCancel coid)
  then obtain kept gone r where "cancel_retain D coid (order_updates o1) (io_remaining o1) = Some (kept, gone, r)"
    using ok by (auto simp: solver_cancel_def split: option.splits)
  with cancel_retain_follows [OF D(1) this] SolverCancel f D(2) show ?thesis
    by (auto simp: solver_cancel_def follows_def queued_def)
next
  case DrainClosed
  with f D(2) show ?thesis by (auto simp: drain_closed_updates_def follows_def queued_def)
qed

interpretation order: reactive "order_step D tol" "\<lambda>s e. dec_exact D \<and> 0 \<le> tol \<and> succeeds D tol s e"
    "follows_up_to tol" for D tol
proof unfold_locales
  fix s e
  assume f: "follows_up_to tol s" and ok: "dec_exact D \<and> 0 \<le> tol \<and> succeeds D tol s e"
  obtain o1 n where s: "s = (o1, n)" by fastforce
  from order_apply_follows [of D tol "2 * of_nat n * tol" o1 n e] f ok s
  have "follows (2 * of_nat n * tol + 2 * tol) (fst (order_apply D tol o1 e))" by simp
  then show "follows_up_to tol (order_step D tol s e)" by (simp add: s algebra_simps)
qed

lemma run_order_count: "snd (run (order_step D tol) (o1, n) es) = n + length es"
proof (induction es arbitrary: o1 n)
  case (Cons e es)
  then show ?case by simp
qed simp


definition demo_order_events :: "order_event list" where
  "demo_order_events = [UserUpdate ''A'' Buy 10 1, UserUpdate ''B'' Buy 20 2, SolverEngageOne ''A'' 5,
     UserUpdate ''C'' Sell 15 3, SolverEngage 5, UserUpdate ''D'' Sell 20 4]"

lemmas [evals] = demo_order_events_def index_order_new_def update_order_def match_cancel_def
  index_order_update_new_def checked_def solver_engage_def match_engage_def note_engaged_def
  solver_engage_one_def match_engage_one_def engage_front_def safe_add_assign_def cancel_updates_def


text \<open>
  Cancelling cannot take back what the solver works with: an update of the opposite side or a
  \<open>cancel_updates\<close>, successful or not, leaves the collateral engaged in the order's updates as it
  was.
\<close>

theorem cancelling_keeps_engaged:
  "engaged_total (fst (update_order D o1 coid sd a ts tol)) = engaged_total o1 \<and>
   engaged_total (fst (cancel_updates D o1 a tol)) = engaged_total o1"
  using match_cancel_engaged [of D tol o1 a]
  by (auto simp: update_order_def cancel_updates_def Let_def engaged_total_def engaged_of_def
      index_order_update_new_def split: option.splits sum.splits prod.splits)

text \<open>
  Engaging takes collateral from the queue into the engaged part, in queue order: the engaged
  total grows by exactly what the queue loses, which is the requested amount less what is reported
  unmatched, up to the tolerance; the order's own engaged and remaining amounts move by the same;
  and the updates, engaged ones first, keep their order.
\<close>

theorem solver_engage_moves:
  assumes "dec_exact D" and "0 \<le> tol" and "solver_engage D o1 a tol = (o2, Inr r)"
  shows "engaged_total o2 = engaged_total o1 + (queued o1 - queued o2) \<and>
    \<bar>(queued o1 - queued o2) - (a - (case r of None \<Rightarrow> 0 | Some x \<Rightarrow> x))\<bar> \<le> tol \<and>
    io_remaining o2 = io_remaining o1 - (a - (case r of None \<Rightarrow> 0 | Some x \<Rightarrow> x)) \<and>
    io_engaged o2 = Some ((case io_engaged o1 of None \<Rightarrow> 0 | Some e \<Rightarrow> e) +
      (a - (case r of None \<Rightarrow> 0 | Some x \<Rightarrow> x))) \<and>
    map u_client_order_id (engaged_updates o2 @ order_updates o2) =
      map u_client_order_id (engaged_updates o1 @ order_updates o1)"
proof -
  obtain o3 m where me: "match_engage D tol o1 a = (o3, m)" by fastforce
  with assms(3) obtain r' where m: "m = Inr r'" by (cases m) (auto simp: solver_engage_def)
  note acc = match_engage_accounts [OF assms(1,2) me [unfolded m]]
  have "note_engaged D o3 (a - (case r' of None \<Rightarrow> 0 | Some x \<Rightarrow> x)) r' = (o2, Inr r)"
    using assms(3) me m assms(1)
    by (auto simp: solver_engage_def split: option.splits dest!: dec_sub_exact)
  note ne = note_engaged_ok [OF assms(1) this]
  from acc ne assms(2) show ?thesis
    by (auto simp: queued_def engaged_total_def split: option.splits)
qed

text \<open>
  A partial cancellation through \<open>cancel_updates\<close> works against the order: the queue gives up
  the cancelled amount but the order's remaining collateral, and the remaining collateral it
  reports, grow by it, where the same cancellation through \<open>update_order\<close> reduces them.
\<close>

theorem cancel_updates_adds_collateral:
  assumes "dec_exact D" and "0 \<le> tol" and "engaged_side o1 = None"
    and "cancel_updates D o1 a tol = (o2, Inr (CancelReduce c r))"
  shows "io_remaining o2 = io_remaining o1 + a \<and> r = io_remaining o1 + a \<and>
    \<bar>queued o2 - (queued o1 - a)\<bar> \<le> tol"
proof -
  obtain o3 m where mc: "match_cancel D tol o1 a = (o3, m)" by fastforce
  with assms(4) obtain x where m: "m = Inr x" by (cases m) (auto simp: cancel_updates_def)
  note acc = match_cancel_accounts [OF assms(1,2) mc [unfolded m]]
  have "x = None" and "dec_add D (io_remaining o3) a = Some r" and "o2 = o3\<lparr>io_remaining := r\<rparr>"
    using assms(3,4) acc(5) mc m
    by (auto simp: cancel_updates_def split: option.splits if_splits)
  with acc(1,3) show ?thesis using dec_exact_add [OF assms(1)] by (force simp: queued_def)
qed

definition demo_index_order :: index_order where
  "demo_index_order = fst (run (order_step (dec_upto 1000) (1 / 100))
     (index_order_new 1 2 ''IDX'' Buy 0, 0) [UserUpdate ''A'' Buy 10 1, UserUpdate ''B'' Buy 20 2])"

lemmas [evals] = demo_index_order_def

theorem solver_engage_moves_witness:
  "io_remaining (fst (solver_engage (dec_upto 1000) demo_index_order 15 (1 / 100))) = 15 \<and>
   io_engaged (fst (solver_engage (dec_upto 1000) demo_index_order 15 (1 / 100))) = Some 15"
proof -
  let ?r = "solver_engage (dec_upto 1000) demo_index_order 15 (1 / 100)"
  have "snd ?r = Inr None" by (simp add: evals)
  then have "?r = (fst ?r, Inr None)" by (metis prod.collapse)
  from solver_engage_moves [OF _ _ this] show ?thesis by (simp add: evals)
qed

theorem cancel_updates_adds_collateral_witness:
  "io_remaining (fst (cancel_updates (dec_upto 1000) demo_index_order 15 (1 / 100))) = 45"
proof -
  let ?r = "cancel_updates (dec_upto 1000) demo_index_order 15 (1 / 100)"
  have "snd ?r = Inr (CancelReduce 15 45)" by (simp add: evals)
  then have "?r = (fst ?r, Inr (CancelReduce 15 45))" by (metis prod.collapse)
  from cancel_updates_adds_collateral [OF _ _ _ this] show ?thesis by (simp add: evals)
qed

end
