(* ===== verification/SolverOrder.thy ===== *)
theory SolverOrder
  imports Position "HOL-Library.Multiset"
begin

text \<open>
  The solver's view of index orders, \<open>src/solver/solver_order/solver_order.rs\<close>: the lots assigned
  to an order, and the queues that hand out the orders of many users one per user at a time.
  Orders are shared by reference (\<open>Arc<RwLock<SolverOrder>>\<close>): \<open>co_heap\<close> is the store and a
  reference is an index into it, so that an order handed out and later put back is the object the
  map may or may not still hold. Hash maps whose iteration order the code sorts away are
  association lists in insertion order.
\<close>

section \<open>Data\<close>

datatype solver_order_status =
    Open | ManageCollateral | SolverReady | Engaged | PartlyMintable | FullyMintable | Minted
  | InvalidSymbol | InvalidOrder | InvalidCollateral | ServiceUnavailable | InternalError

record solver_order_asset_lot =
  al_lot_id :: lot_id
  al_symbol :: symbol
  al_price :: amount
  al_original_quantity :: amount
  al_remaining_quantity :: amount
  al_original_fee :: amount
  assigned_quantity :: amount
  assigned_fee :: amount
  al_created_timestamp :: timestamp
  assigned_timestamp :: timestamp

record solver_order =
  s_chain_id :: u32
  s_address :: address
  s_client_order_id :: client_order_id
  s_payment_id :: "payment_id option"
  s_symbol :: symbol
  s_side :: side
  s_remaining_collateral :: amount
  s_engaged_collateral :: amount
  collateral_carried :: amount
  collateral_routed :: amount
  s_collateral_spent :: amount
  s_filled_quantity :: amount
  s_created_timestamp :: timestamp
  s_timestamp :: timestamp
  s_status :: solver_order_status
  lots :: "solver_order_asset_lot list"

definition get_key :: "solver_order \<Rightarrow> u32 \<times> address \<times> client_order_id" where
  "get_key s = (s_chain_id s, s_address s, s_client_order_id s)"

definition compute_collateral_spent :: "dec_ops \<Rightarrow> solver_order_asset_lot \<Rightarrow> amount option" where
  "compute_collateral_spent D l =
     checked_math (dec_mul D (assigned_quantity l) (al_price l)) (\<lambda>x. dec_add D x (assigned_fee l))"

section \<open>One assignment per lot\<close>

definition al_key :: "solver_order_asset_lot \<Rightarrow> symbol \<times> lot_id" where
  "al_key l = (al_symbol l, al_lot_id l)"

definition merge_lot ::
  "dec_ops \<Rightarrow> solver_order_asset_lot \<Rightarrow> solver_order_asset_lot \<Rightarrow> solver_order_asset_lot option" where
  "merge_lot D current l = do {
     q \<leftarrow> dec_add D (assigned_quantity current) (assigned_quantity l);
     f \<leftarrow> dec_add D (assigned_fee current) (assigned_fee l);
     Some (current\<lparr>assigned_quantity := q, assigned_fee := f,
        al_remaining_quantity := min (al_remaining_quantity current) (al_remaining_quantity l),
        assigned_timestamp := max (assigned_timestamp current) (assigned_timestamp l)\<rparr>)
   }"

fun merge_into ::
  "dec_ops \<Rightarrow> solver_order_asset_lot \<Rightarrow> solver_order_asset_lot list \<Rightarrow> solver_order_asset_lot list option" where
  "merge_into D l [] = Some [l]"
| "merge_into D l (c # cs) =
     (if al_key c = al_key l then map_option (\<lambda>c'. c' # cs) (merge_lot D c l)
      else map_option (\<lambda>cs'. c # cs') (merge_into D l cs))"

text \<open>The lot as it enters the map: its remaining quantity after the assignment, its base symbol.\<close>

definition settle_lot :: "dec_ops \<Rightarrow> solver_order_asset_lot \<Rightarrow> solver_order_asset_lot option" where
  "settle_lot D l =
     map_option (\<lambda>r. l\<lparr>al_remaining_quantity := r,
                       al_symbol := get_base_asset_symbol_workaround (al_symbol l)\<rparr>)
       (dec_sub D (al_remaining_quantity l) (assigned_quantity l))"

text \<open>Lots are popped from the back; on failure the order is left with the lots not yet popped.\<close>

fun compress_loop ::
  "dec_ops \<Rightarrow> solver_order_asset_lot list \<Rightarrow> solver_order_asset_lot list \<Rightarrow>
     solver_order_asset_lot list \<times> solver_order_asset_lot list option" where
  "compress_loop D [] m = ([], Some m)"
| "compress_loop D (l # ls) m =
     (case Option.bind (settle_lot D l) (\<lambda>l'. merge_into D l' m) of
        None \<Rightarrow> (ls, None)
      | Some m' \<Rightarrow> compress_loop D ls m')"

definition compress_lots :: "dec_ops \<Rightarrow> solver_order \<Rightarrow> solver_order \<times> unit result" where
  "compress_lots D s =
     (case compress_loop D (rev (lots s)) [] of
        (ls, None) \<Rightarrow> (s\<lparr>lots := rev ls\<rparr>, Inl ''Math problem'')
      | (_, Some m) \<Rightarrow> (s\<lparr>lots := sort_key assigned_timestamp m\<rparr>, Inr ()))"

definition lot_assignment_of :: "solver_order \<Rightarrow> u256 \<Rightarrow> solver_order_asset_lot \<Rightarrow> lot_assignment" where
  "lot_assignment_of s sn l = \<lparr>la_chain_id = s_chain_id s, la_address = s_address s, la_seq_num = sn,
     la_client_order_id = s_client_order_id s, la_side = s_side s,
     la_assigned_quantity = assigned_quantity l, la_assigned_fee = assigned_fee l,
     la_assigned_timestamp = assigned_timestamp l\<rparr>"

fun push_assignment :: "'k \<Rightarrow> 'v \<Rightarrow> ('k \<times> 'v list) list \<Rightarrow> ('k \<times> 'v list) list" where
  "push_assignment k v [] = [(k, [v])]"
| "push_assignment k v ((k', vs) # m) =
     (if k' = k then (k', vs @ [v]) # m else (k', vs) # push_assignment k v m)"

definition collect_lot_assignments ::
  "solver_order \<Rightarrow> u256 \<Rightarrow> ((symbol \<times> lot_id) \<times> lot_assignment list) list" where
  "collect_lot_assignments s sn =
     fold (\<lambda>l m. push_assignment (al_key l) (lot_assignment_of s sn l) m) (lots s) []"

section \<open>The queues\<close>

type_synonym client_key = "u32 \<times> address"

record solver_client_orders =
  co_heap :: "solver_order list"
  client_orders :: "client_key \<times> client_order_id \<Rightarrow> nat option"
  client_order_queues :: "client_key \<Rightarrow> client_order_id list option"
  client_notify_queue :: "client_key list"
  client_wait_period :: duration

definition solver_client_orders_new :: "duration \<Rightarrow> solver_client_orders" where
  "solver_client_orders_new w = \<lparr>co_heap = [], client_orders = (\<lambda>_. None),
     client_order_queues = (\<lambda>_. None), client_notify_queue = [], client_wait_period = w\<rparr>"

definition get_client_order ::
  "solver_client_orders \<Rightarrow> client_key \<Rightarrow> client_order_id \<Rightarrow> nat option" where
  "get_client_order st k coid = client_orders st (k, coid)"

definition check_ready :: "solver_client_orders \<Rightarrow> timestamp \<Rightarrow> nat \<Rightarrow> bool" where
  "check_ready st ts h \<longleftrightarrow> s_timestamp (co_heap st ! h) \<le> ts - client_wait_period st"

definition peek_next_client_order ::
  "solver_client_orders \<Rightarrow> client_key \<Rightarrow> timestamp \<Rightarrow> nat option" where
  "peek_next_client_order st k ts =
     (case client_order_queues st k of
        Some (_ # coid # _) \<Rightarrow>
          (case client_orders st (k, coid) of
             Some h \<Rightarrow> if check_ready st ts h then Some h else None
           | None \<Rightarrow> None)
      | _ \<Rightarrow> None)"

definition get_next_client_order ::
  "solver_client_orders \<Rightarrow> timestamp \<Rightarrow> solver_client_orders \<times> nat option" where
  "get_next_client_order st ts =
     (case client_notify_queue st of
        [] \<Rightarrow> (st, None)
      | front # rest \<Rightarrow>
          (case client_order_queues st front of
             Some (coid # _) \<Rightarrow>
               (case client_orders st (front, coid) of
                  Some h \<Rightarrow> if check_ready st ts h
                            then (st\<lparr>client_notify_queue := rest\<rparr>, Some h) else (st, None)
                | None \<Rightarrow> (st, None))
           | _ \<Rightarrow> (st, None)))"

definition put_back ::
  "solver_client_orders \<Rightarrow> nat \<Rightarrow> solver_order_status \<Rightarrow> timestamp \<Rightarrow> solver_client_orders" where
  "put_back st h status ts =
     (let s = co_heap st ! h
      in st\<lparr>co_heap := (co_heap st)[h := s\<lparr>s_status := status, s_timestamp := ts\<rparr>],
            client_notify_queue := client_notify_queue st @ [(s_chain_id s, s_address s)]\<rparr>)"

definition solver_order_new ::
  "client_key \<Rightarrow> client_order_id \<Rightarrow> symbol \<Rightarrow> side \<Rightarrow> amount \<Rightarrow> timestamp \<Rightarrow> solver_order" where
  "solver_order_new k coid sy sd amount ts = \<lparr>s_chain_id = fst k, s_address = snd k,
     s_client_order_id = coid, s_payment_id = None, s_symbol = sy, s_side = sd,
     s_remaining_collateral = amount, s_engaged_collateral = 0, collateral_carried = 0,
     collateral_routed = 0, s_collateral_spent = 0, s_filled_quantity = 0,
     s_created_timestamp = ts, s_timestamp = ts, s_status = Open, lots = []\<rparr>"

definition add_client_order ::
  "solver_client_orders \<Rightarrow> client_key \<Rightarrow> client_order_id \<Rightarrow> symbol \<Rightarrow> side \<Rightarrow> amount \<Rightarrow> timestamp \<Rightarrow>
     solver_client_orders \<times> unit result" where
  "add_client_order st k coid sy sd amount ts =
     (if client_orders st (k, coid) \<noteq> None then (st, Inl ''Duplicate Client Order ID'')
      else let st1 = st\<lparr>co_heap := co_heap st @ [solver_order_new k coid sy sd amount ts],
                        client_orders := (client_orders st)((k, coid) \<mapsto> length (co_heap st))\<rparr>
           in case client_order_queues st k of
                None \<Rightarrow> (st1\<lparr>client_order_queues := (client_order_queues st)(k \<mapsto> [coid]),
                             client_notify_queue := client_notify_queue st @ [k]\<rparr>, Inr ())
              | Some q \<Rightarrow> (st1\<lparr>client_order_queues := (client_order_queues st)(k \<mapsto> q @ [coid])\<rparr>, Inr ()))"

definition cancel_client_order ::
  "solver_client_orders \<Rightarrow> client_key \<Rightarrow> client_order_id \<Rightarrow> solver_client_orders \<times> unit result" where
  "cancel_client_order st k coid =
     (if client_orders st (k, coid) = None then (st, Inl ''Failed to remove entry'')
      else let st1 = st\<lparr>client_orders := (client_orders st)((k, coid) := None)\<rparr>
           in case client_order_queues st k of
                None \<Rightarrow> (st1, Inr ())
              | Some [] \<Rightarrow> (st1\<lparr>client_order_queues := (client_order_queues st)(k := None)\<rparr>, Inr ())
              | Some (front # q) \<Rightarrow>
                  if front = coid then
                    (if q = [] then (st1\<lparr>client_order_queues := (client_order_queues st)(k := None)\<rparr>, Inr ())
                     else (st1\<lparr>client_order_queues := (client_order_queues st)(k \<mapsto> q),
                               client_notify_queue := client_notify_queue st @ [k]\<rparr>, Inr ()))
                  else (st1\<lparr>client_order_queues :=
                              (client_order_queues st)(k \<mapsto> filter (\<lambda>x. x \<noteq> coid) (front # q))\<rparr>, Inr ()))"

definition move_to_back :: "client_key \<Rightarrow> client_key list \<Rightarrow> client_key list" where
  "move_to_back k q =
     (case remove_first (\<lambda>x. x = k) q of
        Some (_, rest) \<Rightarrow> if 1 < length q then rest @ [k] else q
      | None \<Rightarrow> q)"

definition update_client_order ::
  "dec_ops \<Rightarrow> solver_client_orders \<Rightarrow> client_key \<Rightarrow> client_order_id \<Rightarrow> amount \<Rightarrow> timestamp \<Rightarrow>
     solver_client_orders \<times> unit result" where
  "update_client_order D st k coid collateral_removed ts =
     (case client_orders st (k, coid) of
        None \<Rightarrow> (st, Inl ''(solver) Handle order update: Missing order'')
      | Some h \<Rightarrow>
          (let s = co_heap st ! h
           in case dec_sub D (s_remaining_collateral s) collateral_removed of
                None \<Rightarrow> (st, Inl ''Math Problem'')
              | Some r \<Rightarrow>
                  let st1 = st\<lparr>co_heap := (co_heap st)[h := s\<lparr>s_remaining_collateral := r, s_timestamp := ts\<rparr>]\<rparr>
                  in if s_status s = Open
                     then (st1\<lparr>client_notify_queue := move_to_back k (client_notify_queue st)\<rparr>, Inr ())
                     else (st1, Inr ())))"

section \<open>One order per user at a time\<close>

text \<open>
  What the solver does with the queues. The state is paired with the orders it has been handed
  and not yet put back or cancelled, one reference per user.
\<close>

datatype queue_event =
    Add client_key client_order_id symbol side amount timestamp
  | Cancel client_key client_order_id
  | Update client_key client_order_id amount timestamp
  | GetNext timestamp
  | PutBack nat solver_order_status timestamp

definition owner :: "solver_client_orders \<Rightarrow> nat \<Rightarrow> client_key" where
  "owner st h = (s_chain_id (co_heap st ! h), s_address (co_heap st ! h))"

definition is_front :: "solver_client_orders \<Rightarrow> client_key \<Rightarrow> client_order_id \<Rightarrow> bool" where
  "is_front st k coid \<longleftrightarrow> (case client_order_queues st k of Some (c # _) \<Rightarrow> c = coid | _ \<Rightarrow> False)"

type_synonym queue_state = "solver_client_orders \<times> (client_key \<Rightarrow> nat option)"

fun queue_step :: "dec_ops \<Rightarrow> queue_state \<Rightarrow> queue_event \<Rightarrow> queue_state" where
  "queue_step D (st, act) (Add k coid sy sd amount ts) =
     (fst (add_client_order st k coid sy sd amount ts), act)"
| "queue_step D (st, act) (Cancel k coid) =
     (fst (cancel_client_order st k coid), if is_front st k coid then act(k := None) else act)"
| "queue_step D (st, act) (Update k coid removed ts) =
     (fst (update_client_order D st k coid removed ts), act)"
| "queue_step D (st, act) (GetNext ts) =
     (case get_next_client_order st ts of
        (st', None) \<Rightarrow> (st', act)
      | (st', Some h) \<Rightarrow> (st', act(owner st h \<mapsto> h)))"
| "queue_step D (st, act) (PutBack h status ts) = (put_back st h status ts, act(owner st h := None))"

text \<open>
  What is asked of the events of one user: only the order handed out for him is put back, and his
  front order is cancelled only while it is handed out. The other users' events are free.
\<close>

fun disciplined :: "client_key \<Rightarrow> queue_state \<Rightarrow> queue_event \<Rightarrow> bool" where
  "disciplined k (st, act) (Cancel k' coid) \<longleftrightarrow> (k' = k \<longrightarrow> is_front st k coid \<longrightarrow> act k \<noteq> None)"
| "disciplined k (st, act) (PutBack h status ts) \<longleftrightarrow> (owner st h = k \<longrightarrow> act k = Some h)"
| "disciplined k _ _ \<longleftrightarrow> True"

text \<open>
  How the state stands for one user: either it knows nothing of the user, or the user has a queue
  of distinct orders, all known, and is due to be served exactly once: in the notify queue, or by
  the order handed out, which is the front one.
\<close>

definition user_fits :: "solver_client_orders \<Rightarrow> (client_key \<Rightarrow> nat option) \<Rightarrow> client_key \<Rightarrow> bool" where
  "user_fits st act k \<longleftrightarrow>
     (\<forall>c h. client_orders st (k, c) = Some h \<longrightarrow>
        h < length (co_heap st) \<and> get_key (co_heap st ! h) = (fst k, snd k, c)) \<and>
     (case client_order_queues st k of
        None \<Rightarrow> count_list (client_notify_queue st) k = 0 \<and> act k = None \<and>
          (\<forall>c. client_orders st (k, c) = None)
      | Some q \<Rightarrow> q \<noteq> [] \<and> distinct q \<and> (\<forall>c. client_orders st (k, c) \<noteq> None \<longleftrightarrow> c \<in> set q) \<and>
          count_list (client_notify_queue st) k = (if act k = None then 1 else 0) \<and>
          (\<forall>h. act k = Some h \<longrightarrow> client_orders st (k, hd q) = Some h))"

text \<open>Every known order is filed under its own user and id.\<close>

definition keys_known :: "solver_client_orders \<Rightarrow> bool" where
  "keys_known st \<longleftrightarrow> (\<forall>k c h. client_orders st (k, c) = Some h \<longrightarrow>
     h < length (co_heap st) \<and> get_key (co_heap st ! h) = (fst k, snd k, c))"

definition queue_fits :: "client_key \<Rightarrow> queue_state \<Rightarrow> bool" where
  "queue_fits k s \<longleftrightarrow> keys_known (fst s) \<and> user_fits (fst s) (snd s) k"

definition keys_kept :: "solver_client_orders \<Rightarrow> solver_client_orders \<Rightarrow> bool" where
  "keys_kept st st' \<longleftrightarrow> length (co_heap st) \<le> length (co_heap st') \<and>
     (\<forall>h<length (co_heap st). get_key (co_heap st' ! h) = get_key (co_heap st ! h))"

text \<open>What an operation leaves of a user it does not touch.\<close>

lemma user_fits_cong:
  assumes "user_fits st act k" and "keys_kept st st'"
    and "client_order_queues st' k = client_order_queues st k"
    and "count_list (client_notify_queue st') k = count_list (client_notify_queue st) k"
    and "\<And>c. client_orders st' (k, c) = client_orders st (k, c)" and "act' k = act k"
  shows "user_fits st' act' k"
proof -
  have "h < length (co_heap st') \<and> get_key (co_heap st' ! h) = (fst k, snd k, c)"
    if "client_orders st' (k, c) = Some h" for c h
  proof -
    from that assms(1,5) have "h < length (co_heap st)" "get_key (co_heap st ! h) = (fst k, snd k, c)"
      by (auto simp: user_fits_def)
    with assms(2) show ?thesis by (auto simp: keys_kept_def)
  qed
  with assms(1,3-6) show ?thesis unfolding user_fits_def by (auto split: option.splits)
qed

lemma queue_fits_new: "queue_fits k (solver_client_orders_new w, \<lambda>_. None)"
  by (simp add: queue_fits_def user_fits_def keys_known_def solver_client_orders_new_def)

lemma nth_update_same: "f x = f (xs ! i) \<Longrightarrow> f (xs[i := x] ! h) = f (xs ! h)"
  by (cases "h = i"; cases "i < length xs") (auto simp: list_update_beyond)

lemma keys_kept_ops:
  "keys_kept st (fst (add_client_order st k coid sy sd amount ts))"
  "keys_kept st (fst (cancel_client_order st k coid))"
  "keys_kept st (fst (update_client_order D st k coid removed ts))"
  "keys_kept st (fst (get_next_client_order st ts))"
  "keys_kept st (put_back st h status ts)"
  by (auto simp: keys_kept_def add_client_order_def cancel_client_order_def update_client_order_def
      get_next_client_order_def put_back_def Let_def nth_append split: option.splits list.splits
      intro!: nth_update_same) (simp_all add: get_key_def)

lemma count_list_snoc [simp]: "count_list (xs @ ys) y = count_list xs y + count_list ys y"
  by (induction xs) auto

lemma add_fits_other:
  "user_fits st act k' \<Longrightarrow> k' \<noteq> k \<Longrightarrow>
     user_fits (fst (add_client_order st k coid sy sd amount ts)) act k'"
  by (erule user_fits_cong [OF _ keys_kept_ops(1)])
    (auto simp: add_client_order_def Let_def split: option.splits)

lemma add_fits_own:
  assumes "user_fits st act k"
  shows "user_fits (fst (add_client_order st k coid sy sd amount ts)) act k"
proof (cases "client_orders st (k, coid)")
  case (Some h)
  with assms show ?thesis by (simp add: add_client_order_def)
next
  case None
  then show ?thesis
  proof (cases "client_order_queues st k")
    case Q: None
    with None assms show ?thesis
      by (auto simp: add_client_order_def user_fits_def get_key_def solver_order_new_def nth_append)
  next
    case Q: (Some q)
    with assms have "\<forall>c. client_orders st (k, c) \<noteq> None \<longleftrightarrow> c \<in> set q" by (simp add: user_fits_def)
    with None have "coid \<notin> set q" by metis
    moreover from this Q assms have "coid \<noteq> hd q" by (auto simp: user_fits_def)
    ultimately show ?thesis using None assms Q
      by (auto simp: add_client_order_def user_fits_def get_key_def solver_order_new_def nth_append
          less_SucI hd_append)
  qed
qed

lemma cancel_fits_other:
  "user_fits st act k' \<Longrightarrow> k' \<noteq> k \<Longrightarrow> act' k' = act k' \<Longrightarrow>
     user_fits (fst (cancel_client_order st k coid)) act' k'"
  by (erule user_fits_cong [OF _ keys_kept_ops(2)])
    (auto simp: cancel_client_order_def Let_def split: option.splits list.splits)

lemma cancel_fits_own:
  assumes fits: "user_fits st act k" and disc: "is_front st k coid \<longrightarrow> act k \<noteq> None"
  shows "user_fits (fst (cancel_client_order st k coid))
    (if is_front st k coid then act(k := None) else act) k"
proof (cases "client_order_queues st k")
  case None
  with fits show ?thesis by (simp add: cancel_client_order_def user_fits_def is_front_def)
next
  case (Some q)
  with fits obtain c q' where q: "q = c # q'" by (cases q) (auto simp: user_fits_def)
  from fits Some have known: "\<forall>c. client_orders st (k, c) \<noteq> None \<longleftrightarrow> c \<in> set q"
    by (simp add: user_fits_def)
  show ?thesis
  proof (cases "c = coid")
    case True
    with known q have "client_orders st (k, coid) \<noteq> None" by simp
    with Some q True fits disc show ?thesis
      by (auto simp: cancel_client_order_def user_fits_def is_front_def Let_def split: if_splits)
  next
    case False
    have "\<not> is_front st k coid" using Some q False by (simp add: is_front_def)
    with Some q False fits show ?thesis
      by (auto simp: cancel_client_order_def user_fits_def Let_def split: if_splits)
  qed
qed

lemma update_fits_other:
  "user_fits st act k' \<Longrightarrow> k' \<noteq> k \<Longrightarrow>
     user_fits (fst (update_client_order D st k coid removed ts)) act k'"
  by (erule user_fits_cong [OF _ keys_kept_ops(3)])
    (auto simp: update_client_order_def Let_def move_to_back_def split: option.splits
      dest!: remove_first_Some)

lemma update_fits_own:
  "user_fits st act k \<Longrightarrow> user_fits (fst (update_client_order D st k coid removed ts)) act k"
  by (erule user_fits_cong [OF _ keys_kept_ops(3)])
    (auto simp: update_client_order_def Let_def move_to_back_def split: option.splits
      dest!: remove_first_Some)

lemma owner_of:
  "keys_known st \<Longrightarrow> client_orders st (k, c) = Some h \<Longrightarrow> owner st h = k"
  by (cases k) (auto simp: keys_known_def owner_def get_key_def)

lemma keys_known_sub:
  assumes "keys_known st" "keys_kept st st'" "\<And>kc h. client_orders st' kc = Some h \<Longrightarrow> client_orders st kc = Some h"
  shows "keys_known st'"
  unfolding keys_known_def
proof (intro allI impI)
  fix k c h assume "client_orders st' (k, c) = Some h"
  then have "client_orders st (k, c) = Some h" by (rule assms(3))
  with assms(1) have "h < length (co_heap st)" "get_key (co_heap st ! h) = (fst k, snd k, c)"
    unfolding keys_known_def by blast+
  with assms(2) show "h < length (co_heap st') \<and> get_key (co_heap st' ! h) = (fst k, snd k, c)"
    unfolding keys_kept_def by auto
qed

lemma keys_known_ops:
  assumes "keys_known st"
  shows "keys_known (fst (add_client_order st k coid sy sd amount ts))"
    and "keys_known (fst (cancel_client_order st k coid))"
    and "keys_known (fst (update_client_order D st k coid removed ts))"
    and "keys_known (fst (get_next_client_order st ts))"
    and "keys_known (put_back st h status ts)"
proof -
  show "keys_known (fst (add_client_order st k coid sy sd amount ts))"
    using assms by (auto simp: keys_known_def add_client_order_def Let_def nth_append get_key_def
        solver_order_new_def intro: less_SucI split: option.splits)
  show "keys_known (fst (cancel_client_order st k coid))"
    by (rule keys_known_sub [OF assms keys_kept_ops(2)])
      (auto simp: cancel_client_order_def Let_def split: option.splits list.splits if_splits)
  show "keys_known (fst (update_client_order D st k coid removed ts))"
    by (rule keys_known_sub [OF assms keys_kept_ops(3)])
      (auto simp: update_client_order_def Let_def split: option.splits if_splits)
  show "keys_known (fst (get_next_client_order st ts))"
    by (rule keys_known_sub [OF assms keys_kept_ops(4)])
      (auto simp: get_next_client_order_def split: option.splits list.splits if_splits)
  show "keys_known (put_back st h status ts)"
    by (rule keys_known_sub [OF assms keys_kept_ops(5)]) (auto simp: put_back_def Let_def)
qed

lemma get_next_cases:
  assumes "get_next_client_order st ts = (st', r)"
  shows "(r = None \<and> st' = st) \<or>
    (\<exists>k rest c q h. r = Some h \<and> client_notify_queue st = k # rest \<and>
       client_order_queues st k = Some (c # q) \<and> client_orders st (k, c) = Some h \<and>
       check_ready st ts h \<and> st' = st\<lparr>client_notify_queue := rest\<rparr>)"
  using assms by (auto simp: get_next_client_order_def split: list.splits option.splits if_splits)

lemma get_next_fits:
  assumes fits: "queue_fits k (st, act)"
  shows "queue_fits k (queue_step D (st, act) (GetNext ts))"
proof -
  have known: "keys_known st" and own: "user_fits st act k" using fits by (simp_all add: queue_fits_def)
  obtain st' r where gn: "get_next_client_order st ts = (st', r)" by fastforce
  have known': "keys_known st'" using keys_known_ops(4) [OF known, of ts] gn by simp
  show ?thesis
  proof (cases r)
    case None
    with get_next_cases [OF gn] gn fits show ?thesis by simp
  next
    case (Some h)
    with get_next_cases [OF gn] obtain k' rest c q
      where n: "client_notify_queue st = k' # rest" "client_order_queues st k' = Some (c # q)"
        "client_orders st (k', c) = Some h" "st' = st\<lparr>client_notify_queue := rest\<rparr>" by auto
    have "owner st h = k'" by (rule owner_of [OF known n(3)])
    moreover have "user_fits st' (act(k' \<mapsto> h)) k"
      using own n by (cases "k' = k") (auto simp: user_fits_def split: option.splits if_splits)
    ultimately show ?thesis using gn Some known' by (simp add: queue_fits_def)
  qed
qed

lemma put_back_fits:
  assumes fits: "queue_fits k (st, act)" and disc: "owner st h = k \<longrightarrow> act k = Some h"
  shows "queue_fits k (queue_step D (st, act) (PutBack h status ts))"
proof -
  have known: "keys_known st" and own: "user_fits st act k" using fits by (simp_all add: queue_fits_def)
  have "user_fits (put_back st h status ts) (act(owner st h := None)) k"
  proof (cases "k = owner st h")
    case False
    show ?thesis
      by (rule user_fits_cong [OF own keys_kept_ops(5)])
        (use False in \<open>auto simp: put_back_def Let_def owner_def\<close>)
  next
    case True
    let ?st = "st\<lparr>client_notify_queue := client_notify_queue st @ [k]\<rparr>"
    have "user_fits ?st (act(k := None)) k"
      using own disc True by (auto simp: user_fits_def split: option.splits)
    then show ?thesis unfolding True [symmetric]
      by (rule user_fits_cong) (auto simp: keys_kept_def put_back_def Let_def owner_def True
          intro!: nth_update_same, simp add: get_key_def)
  qed
  then show ?thesis using keys_known_ops(5) [OF known] by (simp add: queue_fits_def)
qed

interpretation client_queues: reactive "queue_step D" "disciplined k" "queue_fits k" for D k
proof unfold_locales
  fix s e
  assume fits: "queue_fits k s" and ok: "disciplined k s e"
  obtain st act where s: "s = (st, act)" by fastforce
  have known: "keys_known st" and own: "user_fits st act k" using fits s by (simp_all add: queue_fits_def)
  show "queue_fits k (queue_step D s e)"
  proof (cases e)
    case (Add k' coid sy sd amount ts)
    have "user_fits (fst (add_client_order st k' coid sy sd amount ts)) act k"
      by (cases "k' = k") (simp_all add: add_fits_own own add_fits_other)
    with Add s keys_known_ops(1) [OF known] show ?thesis by (simp add: queue_fits_def)
  next
    case (Cancel k' coid)
    have "user_fits (fst (cancel_client_order st k' coid))
        (if is_front st k' coid then act(k' := None) else act) k"
    proof (cases "k' = k")
      case True
      then have "is_front st k coid \<longrightarrow> act k \<noteq> None" using ok Cancel s by simp
      from cancel_fits_own [OF own this] show ?thesis unfolding True .
    next
      case False
      then show ?thesis by (intro cancel_fits_other [OF own]) auto
    qed
    with Cancel s keys_known_ops(2) [OF known] show ?thesis by (simp add: queue_fits_def)
  next
    case (Update k' coid removed ts)
    have "user_fits (fst (update_client_order D st k' coid removed ts)) act k"
      by (cases "k' = k") (simp_all add: update_fits_own own update_fits_other)
    with Update s keys_known_ops(3) [OF known] show ?thesis by (simp add: queue_fits_def)
  next
    case (GetNext ts)
    with fits s show ?thesis using get_next_fits by simp
  next
    case (PutBack h status ts)
    with fits ok s put_back_fits [of k st act h] show ?thesis by simp
  qed
qed


text \<open>
  The condition is needed: when the front order of a user with further orders is cancelled while
  the user still waits, the user is queued once more than before, so that his next order is handed
  out a second time while the solver works on it.
\<close>

theorem early_cancel_queues_again:
  assumes "client_order_queues st k = Some (c # c' # q)" and "client_orders st (k, c) \<noteq> None"
  shows "count_list (client_notify_queue (fst (cancel_client_order st k c))) k =
    Suc (count_list (client_notify_queue st) k)"
  using assms by (auto simp: cancel_client_order_def Let_def)

text \<open>The same stream for a user the notify queue still names but who has no orders.\<close>

definition blocked_by :: "client_key \<Rightarrow> queue_state \<Rightarrow> bool" where
  "blocked_by k s \<longleftrightarrow> client_notify_queue (fst s) \<noteq> [] \<and> hd (client_notify_queue (fst s)) = k \<and>
     client_order_queues (fst s) k = None \<and> (\<forall>c. client_orders (fst s) (k, c) = None)"

fun adds_for :: "client_key \<Rightarrow> queue_event \<Rightarrow> bool" where
  "adds_for k (Add k' _ _ _ _ _) = (k' = k)"
| "adds_for k _ = False"

lemma blocked_get_next:
  "blocked_by k (st, act) \<Longrightarrow> get_next_client_order st ts = (st, None)"
  by (cases "client_notify_queue st") (auto simp: blocked_by_def get_next_client_order_def)

lemma hd_move_to_back:
  "q \<noteq> [] \<Longrightarrow> hd q \<noteq> k \<Longrightarrow> hd (move_to_back k q) = hd q \<and> move_to_back k q \<noteq> []"
  by (cases q) (auto simp: move_to_back_def split: option.splits)

interpretation blocked: reactive "queue_step D" "\<lambda>_ e. \<not> adds_for k e" "blocked_by k" for D k
proof unfold_locales
  fix s e
  assume b: "blocked_by k s" and e: "\<not> adds_for k e"
  obtain st act where s: "s = (st, act)" by fastforce
  show "blocked_by k (queue_step D s e)"
  proof (cases e)
    case (Add k' coid sy sd amount ts)
    with b e s show ?thesis
      by (auto simp: blocked_by_def add_client_order_def Let_def hd_append split: option.splits)
  next
    case (Cancel k' coid)
    with b s show ?thesis
      by (auto simp: blocked_by_def cancel_client_order_def Let_def split: option.splits list.splits)
  next
    case (Update k' coid removed ts)
    show ?thesis
    proof (cases "client_orders st (k', coid)")
      case None
      with Update b s show ?thesis by (simp add: update_client_order_def)
    next
      case (Some h)
      with b s have "hd (client_notify_queue st) \<noteq> k'" by (auto simp: blocked_by_def)
      with Update b s Some show ?thesis
        by (auto simp: blocked_by_def update_client_order_def Let_def hd_move_to_back split: option.splits)
    qed
  next
    case (GetNext ts)
    with b s show ?thesis by (simp add: blocked_get_next)
  next
    case (PutBack h status ts)
    with b s show ?thesis by (auto simp: blocked_by_def put_back_def Let_def hd_append)
  qed
qed

text \<open>
  C37. Cancelling the only order of the user at the head of the notify queue, before the solver has
  taken it, leaves the user's key there with no queue behind it. From then on, whatever other users
  do and however long they wait, \<open>get_next_client_order\<close> hands out no order at all, until that
  very user sends a new one.
\<close>

theorem cancelled_waiting_user_blocks_all:
  assumes "client_notify_queue st = k # rest" and "client_order_queues st k = Some [c]"
    and "client_orders st (k, c) \<noteq> None \<and> (\<forall>c'. c' \<noteq> c \<longrightarrow> client_orders st (k, c') = None)"
    and "list_all (\<lambda>e. \<not> adds_for k e) es"
    and "run (queue_step D) (fst (cancel_client_order st k c), act) es = (st', act')"
  shows "snd (cancel_client_order st k c) = Inr () \<and> get_next_client_order st' ts = (st', None)"
proof -
  have "blocked_by k (fst (cancel_client_order st k c), act)"
    using assms(1-3) by (auto simp: blocked_by_def cancel_client_order_def Let_def)
  moreover have "admits (\<lambda>_ e. \<not> adds_for k e) (queue_step D) s es" for s
    using assms(4) by (induction es arbitrary: s) auto
  ultimately have "blocked_by k (st', act')" using assms(5) blocked.run_inv by metis
  with assms(1-3) show ?thesis
    by (auto simp: blocked_get_next cancel_client_order_def Let_def)
qed

definition demo_queue_events :: "queue_event list" where
  "demo_queue_events = [Add (1, 7) ''C-01'' ''IDX'' Buy 1000 0, Add (1, 7) ''C-02'' ''IDX'' Buy 1000 0,
     Add (2, 7) ''C-01'' ''IDX'' Buy 1000 0, GetNext 10, PutBack 0 SolverReady 10, GetNext 20,
     GetNext 20, Cancel (1, 7) ''C-01'', GetNext 20]"

lemmas [evals] = demo_queue_events_def solver_client_orders_new_def add_client_order_def
  solver_order_new_def get_next_client_order_def check_ready_def put_back_def owner_def
  cancel_client_order_def is_front_def


text \<open>Two users wait; the first cancels before being served.\<close>

definition demo_waiting :: solver_client_orders where
  "demo_waiting = fst (run (queue_step (dec_upto 1000)) (solver_client_orders_new 10, \<lambda>_. None)
     [Add (1, 7) ''C-01'' ''IDX'' Buy 1000 0, Add (2, 7) ''C-01'' ''IDX'' Buy 1000 0])"

theorem cancelled_waiting_user_blocks_all_witness:
  "get_next_client_order (fst (cancel_client_order demo_waiting (1, 7) ''C-01'')) 1000000 =
     (fst (cancel_client_order demo_waiting (1, 7) ''C-01''), None) \<and>
   client_order_queues (fst (cancel_client_order demo_waiting (1, 7) ''C-01'')) (2, 7) = Some [''C-01'']"
proof -
  have "client_notify_queue demo_waiting = [(1, 7), (2, 7)]"
    "client_order_queues demo_waiting (1, 7) = Some [''C-01'']"
    "client_orders demo_waiting ((1, 7), ''C-01'') \<noteq> None \<and>
     (\<forall>c'. c' \<noteq> ''C-01'' \<longrightarrow> client_orders demo_waiting ((1, 7), c') = None)"
    by (simp_all add: demo_waiting_def evals)
  from cancelled_waiting_user_blocks_all [OF this, of "[]" "dec_upto 1" "\<lambda>_. None" _ "\<lambda>_. None" 1000000]
  show ?thesis by (simp add: demo_waiting_def evals)
qed

section \<open>Compressing loses nothing\<close>

text \<open>What a lot's key will be, and the totals that compressing keeps.\<close>

definition base_key :: "solver_order_asset_lot \<Rightarrow> symbol \<times> lot_id" where
  "base_key l = (get_base_asset_symbol_workaround (al_symbol l), al_lot_id l)"

lemma settle_lot_key:
  "settle_lot D l = Some l' \<Longrightarrow> al_key l' = base_key l \<and>
     assigned_quantity l' = assigned_quantity l \<and> assigned_fee l' = assigned_fee l"
  by (auto simp: settle_lot_def al_key_def base_key_def)

lemma merge_lot_some:
  "dec_exact D \<Longrightarrow> merge_lot D c l = Some c' \<Longrightarrow>
     al_key c' = al_key c \<and> assigned_quantity c' = assigned_quantity c + assigned_quantity l \<and>
     assigned_fee c' = assigned_fee c + assigned_fee l"
  by (auto simp: merge_lot_def al_key_def split: Option.bind_splits dest!: dec_add_exact)

lemma merge_into_some:
  assumes "dec_exact D"
  shows "merge_into D l m = Some m' \<Longrightarrow>
    total assigned_quantity m' = total assigned_quantity m + assigned_quantity l \<and>
    total assigned_fee m' = total assigned_fee m + assigned_fee l \<and>
    set (map al_key m') = insert (al_key l) (set (map al_key m)) \<and>
    (distinct (map al_key m) \<longrightarrow> distinct (map al_key m'))"
proof (induction m arbitrary: m')
  case (Cons c cs)
  show ?case
  proof (cases "al_key c = al_key l")
    case True
    with Cons.prems obtain c' where "merge_lot D c l = Some c'" "m' = c' # cs" by auto
    with merge_lot_some [OF assms this(1)] True show ?thesis by (auto simp: insert_absorb)
  next
    case False
    with Cons.prems obtain cs' where "merge_into D l cs = Some cs'" "m' = c # cs'" by auto
    with Cons.IH [OF this(1)] False show ?thesis by (auto simp: image_iff)
  qed
qed auto

lemma compress_loop_some:
  assumes "dec_exact D"
  shows "compress_loop D ls m = (ls', Some m') \<Longrightarrow>
    total assigned_quantity m' = total assigned_quantity m + total assigned_quantity ls \<and>
    total assigned_fee m' = total assigned_fee m + total assigned_fee ls \<and>
    set (map al_key m') = set (map base_key ls) \<union> set (map al_key m) \<and>
    (distinct (map al_key m) \<longrightarrow> distinct (map al_key m'))"
proof (induction ls arbitrary: m)
  case (Cons l ls)
  then obtain l' m1 where "settle_lot D l = Some l'" "merge_into D l' m = Some m1"
    and "compress_loop D ls m1 = (ls', Some m')"
    by (auto split: option.splits bind_splits)
  with Cons.IH [OF this(3)] settle_lot_key [OF this(1)] merge_into_some [OF assms this(2)]
  show ?case by auto
qed simp

text \<open>
  Compressing an order's lots gives one entry per base asset and inventory lot, in the order of
  their last assignment, and neither quantity nor fee is lost: the totals assigned to the order
  are those of the assignments it replaces.
\<close>

theorem compress_lots_keeps_totals:
  assumes "dec_exact D" and "compress_lots D s = (s', Inr ())"
  shows "total assigned_quantity (lots s') = total assigned_quantity (lots s) \<and>
    total assigned_fee (lots s') = total assigned_fee (lots s) \<and>
    set (map al_key (lots s')) = set (map base_key (lots s)) \<and> distinct (map al_key (lots s')) \<and>
    sorted (map assigned_timestamp (lots s'))"
proof -
  from assms(2) obtain ls m where m: "compress_loop D (rev (lots s)) [] = (ls, Some m)"
    and s': "lots s' = sort_key assigned_timestamp m"
    by (auto simp: compress_lots_def split: prod.splits option.splits)
  note acc = compress_loop_some [OF assms(1) m]
  have tot: "total f (sort_key assigned_timestamp m) = total f m" for f :: "_ \<Rightarrow> amount"
    by (metis mset_map mset_sort sum_mset_sum_list)
  have "mset (map al_key (sort_key assigned_timestamp m)) = mset (map al_key m)" by simp
  then have "distinct (map al_key (sort_key assigned_timestamp m)) \<longleftrightarrow> distinct (map al_key m)"
    by (metis mset_eq_imp_distinct_iff)
  with acc tot s' show ?thesis by (auto simp: rev_map [symmetric])
qed

definition demo_lot :: "symbol \<Rightarrow> amount \<Rightarrow> timestamp \<Rightarrow> solver_order_asset_lot" where
  "demo_lot sy q ts = \<lparr>al_lot_id = ''L1'', al_symbol = sy, al_price = 100, al_original_quantity = 10,
     al_remaining_quantity = 10, al_original_fee = 1, assigned_quantity = q, assigned_fee = 1 / 10,
     al_created_timestamp = 0, assigned_timestamp = ts\<rparr>"

definition demo_solver_order :: solver_order where
  "demo_solver_order = (solver_order_new (1, 7) ''C-01'' ''IDX'' Buy 1000 0)
     \<lparr>lots := [demo_lot ''BTCUSDC'' 2 9, demo_lot ''BTCUSDT'' 3 5, demo_lot ''ETHUSDC'' 1 7]\<rparr>"

theorem compress_lots_keeps_totals_witness:
  "length (lots (fst (compress_lots (dec_upto 1000) demo_solver_order))) = 2 \<and>
   total assigned_quantity (lots (fst (compress_lots (dec_upto 1000) demo_solver_order))) = 6"
proof -
  let ?r = "compress_lots (dec_upto 1000) demo_solver_order"
  have "snd ?r = Inr ()" and len: "length (lots (fst ?r)) = 2"
    by (simp_all add: evals demo_solver_order_def demo_lot_def compress_lots_def settle_lot_def
        merge_lot_def al_key_def get_base_asset_symbol_workaround_def strip_suffix_def)
  then have "?r = (fst ?r, Inr ())" by (metis prod.collapse)
  from compress_lots_keeps_totals [OF _ this] len show ?thesis
    by (simp add: demo_solver_order_def demo_lot_def)
qed

end
