(* ===== verification/OrderBook.thy ===== *)
theory OrderBook
  imports Bits
begin

text \<open>
  Price level order books, \<open>libs/symm-core/src/market_data/order_book/order_book.rs\<close> and
  \<open>order_book_manager.rs\<close>. A side's entries live in an intrusive red-black tree of a library; the
  code uses it as a sequence in ascending price order with a cursor (\<open>lower_bound\<close> at a key,
  insertion before the cursor, removal at it, walking from either end), which is a list here. The
  events of \<open>market_data_connector.rs\<close> drive the manager, and an operation of the manager returns
  the events it publishes.
\<close>

section \<open>One side of a book\<close>

record price_point_entries =
  e_side :: side
  tolerance :: amount
  entries :: "price_point_entry list"

definition price_point_entries_new :: "side \<Rightarrow> amount \<Rightarrow> price_point_entries" where
  "price_point_entries_new sd tol = \<lparr>e_side = sd, tolerance = tol, entries = []\<rparr>"

text \<open>The bound of a walk from the best price, and when the walk passes it.\<close>

definition ops_bound :: "dec_ops \<Rightarrow> side \<Rightarrow> amount \<Rightarrow> amount \<Rightarrow> amount option" where
  "ops_bound D sd tol price = (case sd of Buy \<Rightarrow> dec_sub D price tol | Sell \<Rightarrow> dec_add D price tol)"

definition begin_ops :: "side \<Rightarrow> price_point_entry list \<Rightarrow> price_point_entry list" where
  "begin_ops sd es = (case sd of Buy \<Rightarrow> rev es | Sell \<Rightarrow> es)"

definition is_finished :: "side \<Rightarrow> amount \<Rightarrow> amount \<Rightarrow> bool" where
  "is_finished sd bound price = (case sd of Buy \<Rightarrow> price < bound | Sell \<Rightarrow> bound < price)"

text \<open>\<open>find_entry\<close>: the entries before and from the cursor, and whether the cursor's entry matches.\<close>

definition find_entry ::
  "dec_ops \<Rightarrow> price_point_entries \<Rightarrow> amount \<Rightarrow>
     (bool \<times> price_point_entry list \<times> price_point_entry list) result" where
  "find_entry D ps price =
     (case (dec_sub D price (tolerance ps), dec_add D price (tolerance ps)) of
        (Some lower, Some upper) \<Rightarrow>
          let before = takeWhile (\<lambda>e. pp_price e < lower) (entries ps);
              cursor = dropWhile (\<lambda>e. pp_price e < lower) (entries ps)
          in Inr (cursor \<noteq> [] \<and> pp_price (hd cursor) < upper, before, cursor)
      | _ \<Rightarrow> Inl ''Math overflow'')"

definition insert_or_modify_entry ::
  "dec_ops \<Rightarrow> price_point_entries \<Rightarrow> price_point_entry \<Rightarrow> price_point_entries \<times> unit result" where
  "insert_or_modify_entry D ps e =
     (case find_entry D ps (pp_price e) of
        Inl err \<Rightarrow> (ps, Inl err)
      | Inr (found, before, cursor) \<Rightarrow>
          (if found then ps\<lparr>entries := before @ (hd cursor)\<lparr>pp_quantity := pp_quantity e\<rparr> # tl cursor\<rparr>
           else ps\<lparr>entries := before @ e # cursor\<rparr>, Inr ()))"

definition remove_entry ::
  "dec_ops \<Rightarrow> price_point_entries \<Rightarrow> price_point_entry \<Rightarrow> price_point_entries \<times> unit result" where
  "remove_entry D ps e =
     (case find_entry D ps (pp_price e) of
        Inl err \<Rightarrow> (ps, Inl err)
      | Inr (found, before, cursor) \<Rightarrow>
          (if found then ps\<lparr>entries := before @ tl cursor\<rparr> else ps, Inr ()))"

definition update_entry ::
  "dec_ops \<Rightarrow> price_point_entries \<Rightarrow> price_point_entry \<Rightarrow> price_point_entries \<times> unit result" where
  "update_entry D ps e =
     (if tolerance ps < pp_quantity e then insert_or_modify_entry D ps e else remove_entry D ps e)"

definition clear_entries :: "price_point_entries \<Rightarrow> price_point_entries" where
  "clear_entries ps = ps\<lparr>entries := []\<rparr>"

fun liquidity_walk ::
  "dec_ops \<Rightarrow> side \<Rightarrow> amount \<Rightarrow> price_point_entry list \<Rightarrow> amount \<Rightarrow> amount result" where
  "liquidity_walk D sd bound [] liquidity = Inr liquidity"
| "liquidity_walk D sd bound (e # es) liquidity =
     (if is_finished sd bound (pp_price e) then Inr liquidity
      else rbind (ok_or (dec_add D liquidity (pp_quantity e)) ''Math overflow'')
             (\<lambda>l. liquidity_walk D sd bound es l))"

definition get_liquidity :: "dec_ops \<Rightarrow> price_point_entries \<Rightarrow> amount \<Rightarrow> amount result" where
  "get_liquidity D ps price =
     rbind (ok_or (ops_bound D (e_side ps) (tolerance ps) price) ''Math overflow'')
       (\<lambda>bound. liquidity_walk D (e_side ps) bound (begin_ops (e_side ps) (entries ps)) 0)"

fun levels_walk ::
  "dec_ops \<Rightarrow> nat \<Rightarrow> price_point_entry list \<Rightarrow> amount \<Rightarrow> amount option \<Rightarrow> (amount \<times> amount option) result" where
  "levels_walk D 0 es liquidity limit = Inr (liquidity, limit)"
| "levels_walk D (Suc n) [] liquidity limit = Inr (liquidity, limit)"
| "levels_walk D (Suc n) (e # es) liquidity limit =
     rbind (ok_or (dec_add D liquidity (pp_quantity e)) ''Math overflow'')
       (\<lambda>l. levels_walk D n es l (Some (pp_price e)))"

definition get_liquidity_levels ::
  "dec_ops \<Rightarrow> price_point_entries \<Rightarrow> nat \<Rightarrow> price_point_entry option result" where
  "get_liquidity_levels D ps max_levels =
     rbind (ok_or (ops_bound D (e_side ps) (tolerance ps) 0) ''Math overflow'')
       (\<lambda>_. rbind (levels_walk D max_levels (begin_ops (e_side ps) (entries ps)) 0 None)
         (\<lambda>(liquidity, limit). Inr (map_option (\<lambda>p. \<lparr>pp_price = p, pp_quantity = liquidity\<rparr>) limit)))"

definition entries_top :: "dec_ops \<Rightarrow> price_point_entries \<Rightarrow> price_point_entry option result" where
  "entries_top D ps =
     rbind (ok_or (ops_bound D (e_side ps) (tolerance ps) 0) ''Math overflow'')
       (\<lambda>_. Inr (case begin_ops (e_side ps) (entries ps) of [] \<Rightarrow> None | e # _ \<Rightarrow> Some e))"

section \<open>A book\<close>

record price_point_book =
  book_seq :: "u64 option"
  bid_entries :: price_point_entries
  ask_entries :: price_point_entries

definition price_point_book_new :: "amount \<Rightarrow> price_point_book" where
  "price_point_book_new tol = \<lparr>book_seq = None, bid_entries = price_point_entries_new Buy tol,
     ask_entries = price_point_entries_new Sell tol\<rparr>"

definition clear_book :: "price_point_book \<Rightarrow> price_point_book" where
  "clear_book b = \<lparr>book_seq = None, bid_entries = clear_entries (bid_entries b),
     ask_entries = clear_entries (ask_entries b)\<rparr>"

fun update_all ::
  "dec_ops \<Rightarrow> price_point_entries \<Rightarrow> price_point_entry list \<Rightarrow> price_point_entries \<times> unit result" where
  "update_all D ps [] = (ps, Inr ())"
| "update_all D ps (e # es) =
     (case update_entry D ps e of
        (ps', Inl err) \<Rightarrow> (ps', Inl err)
      | (ps', Inr _) \<Rightarrow> update_all D ps' es)"

definition update_entries ::
  "dec_ops \<Rightarrow> price_point_book \<Rightarrow> u64 \<Rightarrow> price_point_entry list \<Rightarrow> price_point_entry list \<Rightarrow>
     price_point_book \<times> unit result" where
  "update_entries D b sn bids asks =
     (case update_all D (bid_entries b) bids of
        (bs, Inl err) \<Rightarrow> (b\<lparr>book_seq := Some sn, bid_entries := bs\<rparr>, Inl err)
      | (bs, Inr _) \<Rightarrow>
          (case update_all D (ask_entries b) asks of
             (as, r) \<Rightarrow> (b\<lparr>book_seq := Some sn, bid_entries := bs, ask_entries := as\<rparr>, r)))"

fun book_side :: "side \<Rightarrow> price_point_book \<Rightarrow> price_point_entries" where
  "book_side Buy b = bid_entries b"
| "book_side Sell b = ask_entries b"

definition book_liquidity :: "dec_ops \<Rightarrow> price_point_book \<Rightarrow> side \<Rightarrow> amount \<Rightarrow> amount result" where
  "book_liquidity D b sd price = get_liquidity D (book_side sd b) price"

definition book_liquidity_levels ::
  "dec_ops \<Rightarrow> price_point_book \<Rightarrow> side \<Rightarrow> nat \<Rightarrow> price_point_entry option result" where
  "book_liquidity_levels D b sd n = get_liquidity_levels D (book_side sd b) n"

definition book_top :: "dec_ops \<Rightarrow> price_point_book \<Rightarrow> last_price_entry result" where
  "book_top D b =
     rbind (entries_top D (bid_entries b)) (\<lambda>bid.
     rbind (entries_top D (ask_entries b)) (\<lambda>ask.
     rbind (ok_or (book_seq b) ''No sequence number'') (\<lambda>sn.
       Inr \<lparr>sequence_number = sn, best_bid_price = map_option pp_price bid,
            best_ask_price = map_option pp_price ask,
            best_bid_quantity = (case bid of None \<Rightarrow> 0 | Some e \<Rightarrow> pp_quantity e),
            best_ask_quantity = (case ask of None \<Rightarrow> 0 | Some e \<Rightarrow> pp_quantity e),
            last_trade_price = None, last_trade_quantity = 0\<rparr>)))"

definition get_entries :: "price_point_book \<Rightarrow> side \<Rightarrow> nat \<Rightarrow> price_point_entry list" where
  "get_entries b sd max_levels = take max_levels (entries (book_side sd b))"

section \<open>The books of all markets\<close>

datatype market_data_event =
    TopOfBook symbol u64 amount amount amount amount
  | Trade symbol u64 amount amount
  | OrderBookSnapshot symbol u64 "price_point_entry list" "price_point_entry list"
  | OrderBookDelta symbol u64 "price_point_entry list" "price_point_entry list"

datatype order_book_event = BookUpdate symbol | UpdateError symbol report

record book_manager =
  order_books :: "symbol \<Rightarrow> price_point_book option"
  bm_tolerance :: amount

definition book_manager_new :: "amount \<Rightarrow> book_manager" where
  "book_manager_new tol = \<lparr>order_books = (\<lambda>_. None), bm_tolerance = tol\<rparr>"

definition update_order_book ::
  "dec_ops \<Rightarrow> book_manager \<Rightarrow> symbol \<Rightarrow> u64 \<Rightarrow> bool \<Rightarrow> price_point_entry list \<Rightarrow> price_point_entry list \<Rightarrow>
     book_manager \<times> order_book_event list" where
  "update_order_book D m s sn is_snapshot bids asks =
     (let book = (case order_books m s of Some b \<Rightarrow> b | None \<Rightarrow> price_point_book_new (bm_tolerance m));
          book1 = (if is_snapshot then clear_book book else book);
          (book2, r) = update_entries D book1 sn bids asks
      in (m\<lparr>order_books := (order_books m)(s \<mapsto> book2)\<rparr>,
          [case r of Inl err \<Rightarrow> UpdateError s err | Inr _ \<Rightarrow> BookUpdate s]))"

fun book_handle_market_data ::
  "dec_ops \<Rightarrow> book_manager \<Rightarrow> market_data_event \<Rightarrow> book_manager \<times> order_book_event list" where
  "book_handle_market_data D m (OrderBookSnapshot s sn bids asks) = update_order_book D m s sn True bids asks"
| "book_handle_market_data D m (OrderBookDelta s sn bids asks) = update_order_book D m s sn False bids asks"
| "book_handle_market_data D m _ = (m, [])"

fun for_books :: "(price_point_book \<Rightarrow> 'q \<Rightarrow> 'a result) \<Rightarrow> book_manager \<Rightarrow> (symbol \<times> 'q) list \<Rightarrow>
    (symbol \<Rightarrow> 'a option) \<Rightarrow> (symbol \<Rightarrow> 'a option) result" where
  "for_books f m [] res = Inr res"
| "for_books f m ((s, q) # ss) res =
     (case order_books m s of
        None \<Rightarrow> for_books f m ss res
      | Some b \<Rightarrow> rbind (f b q) (\<lambda>x. for_books f m ss (res(s \<mapsto> x))))"

definition bm_get_liquidity ::
  "dec_ops \<Rightarrow> book_manager \<Rightarrow> side \<Rightarrow> (symbol \<times> amount) list \<Rightarrow> (symbol \<Rightarrow> amount option) result" where
  "bm_get_liquidity D m sd symbols = for_books (\<lambda>b p. book_liquidity D b sd p) m symbols (\<lambda>_. None)"

definition bm_get_liquidity_levels ::
  "dec_ops \<Rightarrow> book_manager \<Rightarrow> side \<Rightarrow> nat \<Rightarrow> symbol list \<Rightarrow> (symbol \<Rightarrow> price_point_entry option option) result" where
  "bm_get_liquidity_levels D m sd n symbols =
     for_books (\<lambda>b _. book_liquidity_levels D b sd n) m (map (\<lambda>s. (s, ())) symbols) (\<lambda>_. None)"

definition bm_get_top_level ::
  "dec_ops \<Rightarrow> book_manager \<Rightarrow> symbol list \<Rightarrow> (symbol \<Rightarrow> last_price_entry option) result" where
  "bm_get_top_level D m symbols =
     for_books (\<lambda>b _. book_top D b) m (map (\<lambda>s. (s, ())) symbols) (\<lambda>_. None)"

section \<open>A side of a book is a map from price to quantity\<close>

definition levels :: "price_point_entry list \<Rightarrow> amount \<Rightarrow> amount option" where
  "levels es = map_of (map (\<lambda>e. (pp_price e, pp_quantity e)) es)"

text \<open>Prices are multiples of the market's tick, and a book keeps them strictly ascending.\<close>

definition on_grid :: "amount \<Rightarrow> amount \<Rightarrow> bool" where
  "on_grid tick p \<longleftrightarrow> p / tick \<in> \<int>"

definition entries_ok :: "amount \<Rightarrow> price_point_entry list \<Rightarrow> bool" where
  "entries_ok tick es \<longleftrightarrow> sorted_wrt (<) (map pp_price es) \<and> (\<forall>e\<in>set es. on_grid tick (pp_price e))"

lemma grid_apart:
  assumes "on_grid tick p" "on_grid tick q" "0 < tick" "\<bar>p - q\<bar> < tick"
  shows "p = q"
proof -
  from assms(1,2) obtain i j where "p / tick = of_int i" "q / tick = of_int j"
    unfolding on_grid_def Ints_def by blast
  with assms(3) have pq: "p = of_int i * tick" "q = of_int j * tick" by (auto simp: field_simps)
  have "p - q = of_int (i - j) * tick" using pq by (simp add: algebra_simps)
  then have "\<bar>p - q\<bar> = of_int \<bar>i - j\<bar> * tick" using assms(3) by (simp add: abs_mult)
  with assms(3,4) have "(of_int \<bar>i - j\<bar> :: rat) < 1" by (simp add: mult_less_cancel_right1)
  then have "i = j" by linarith
  with pq show ?thesis by simp
qed

lemma sorted_split:
  assumes "sorted_wrt (<) (map f es)"
  shows "x \<in> set (dropWhile (\<lambda>e. f e < (c :: amount)) es) \<Longrightarrow> c \<le> f x"
  using assms
proof (induction es)
  case (Cons e es)
  then show ?case by (auto split: if_splits)
qed simp

lemma levels_split:
  "levels (xs @ ys) = levels ys ++ levels xs"
  "levels (e # es) = (levels es)(pp_price e \<mapsto> pp_quantity e)"
  "levels [] = Map.empty"
  by (simp_all add: levels_def)

lemma levels_None: "p \<notin> pp_price ` set es \<Longrightarrow> levels es p = None"
  by (auto simp: levels_def map_of_eq_None_iff)

text \<open>The cursor finds the entry of a grid price, and only that.\<close>

lemma find_entry_grid:
  assumes D: "dec_exact D" and tick: "0 < tolerance ps" "tolerance ps < tick"
    and ok: "entries_ok tick (entries ps)" and p: "on_grid tick p"
    and run: "find_entry D ps p = Inr (found, before, cursor)"
  shows "entries ps = before @ cursor"
    and "found \<longleftrightarrow> cursor \<noteq> [] \<and> pp_price (hd cursor) = p"
    and "\<forall>e\<in>set before. pp_price e < p"
    and "\<not> found \<Longrightarrow> \<forall>e\<in>set cursor. p < pp_price e"
proof -
  from D run have b: "before = takeWhile (\<lambda>e. pp_price e < p - tolerance ps) (entries ps)"
    and c: "cursor = dropWhile (\<lambda>e. pp_price e < p - tolerance ps) (entries ps)"
    and f: "found \<longleftrightarrow> cursor \<noteq> [] \<and> pp_price (hd cursor) < p + tolerance ps"
    by (auto simp: find_entry_def Let_def split: option.splits dest!: dec_add_exact dec_sub_exact)
  from ok have srt: "sorted_wrt (<) (map pp_price (entries ps))"
    and grid: "\<forall>e\<in>set (entries ps). on_grid tick (pp_price e)" by (auto simp: entries_ok_def)
  have low: "p - tolerance ps \<le> pp_price e" if "e \<in> set cursor" for e
    using sorted_split [OF srt] that c by auto
  show split: "entries ps = before @ cursor" by (simp add: b c)
  show "\<forall>e\<in>set before. pp_price e < p" using tick by (auto simp: b dest: set_takeWhileD)
  have near: "pp_price e = p" if "e \<in> set cursor" "pp_price e < p + tolerance ps" for e
  proof (rule grid_apart [of tick])
    show "on_grid tick (pp_price e)" using that(1) grid split by auto
    show "\<bar>pp_price e - p\<bar> < tick" using low [OF that(1)] that(2) tick by linarith
  qed (use p tick in auto)
  show "found \<longleftrightarrow> cursor \<noteq> [] \<and> pp_price (hd cursor) = p"
    using f near tick by auto
  show "\<forall>e\<in>set cursor. p < pp_price e" if "\<not> found"
  proof
    fix e assume e: "e \<in> set cursor"
    then have hd: "cursor \<noteq> []" "p + tolerance ps \<le> pp_price (hd cursor)" using f that by auto
    have "sorted_wrt (<) (map pp_price cursor)" using srt split by (simp add: sorted_wrt_append)
    with e have "pp_price (hd cursor) \<le> pp_price e" by (cases cursor) auto
    with hd tick show "p < pp_price e" by linarith
  qed
qed

lemma update_entry_levels:
  assumes D: "dec_exact D" and tick: "0 < tolerance ps" "tolerance ps < tick"
    and ok: "entries_ok tick (entries ps)" and p: "on_grid tick (pp_price e)"
    and run: "update_entry D ps e = (ps', Inr u)"
  shows "levels (entries ps') = (levels (entries ps))
      (pp_price e := (if tolerance ps < pp_quantity e then Some (pp_quantity e) else None))"
    and "entries_ok tick (entries ps')" and "tolerance ps' = tolerance ps"
proof -
  obtain found before cursor where fe: "find_entry D ps (pp_price e) = Inr (found, before, cursor)"
    using run by (auto simp: update_entry_def insert_or_modify_entry_def remove_entry_def
        split: if_splits sum.splits)
  note f = find_entry_grid [OF D tick ok p fe]
  have nb: "levels before (pp_price e) = None" using f(3) by (intro levels_None) auto
  from ok f(1) have srt: "sorted_wrt (<) (map pp_price before)" "sorted_wrt (<) (map pp_price cursor)"
    "\<forall>x\<in>set before. \<forall>y\<in>set cursor. pp_price x < pp_price y"
    and grid: "\<forall>x\<in>set before \<union> set cursor. on_grid tick (pp_price x)"
    by (auto simp: entries_ok_def sorted_wrt_append)
  have "levels (entries ps') = (levels (entries ps))
      (pp_price e := (if tolerance ps < pp_quantity e then Some (pp_quantity e) else None))
    \<and> entries_ok tick (entries ps') \<and> tolerance ps' = tolerance ps"
  proof (cases found)
    case True
    with f(2) obtain c cs where c: "cursor = c # cs" "pp_price c = pp_price e" by (cases cursor) auto
    have nc: "levels cs (pp_price e) = None" using srt(2) c by (intro levels_None) auto
    show ?thesis
    proof (cases "tolerance ps < pp_quantity e")
      case True
      with run fe \<open>found\<close> c have "ps' = ps\<lparr>entries := before @ c\<lparr>pp_quantity := pp_quantity e\<rparr> # cs\<rparr>"
        by (simp add: update_entry_def insert_or_modify_entry_def)
      with True f(1) c nb srt grid show ?thesis
        by (auto simp: levels_split map_add_upd_left domIff entries_ok_def sorted_wrt_append)
    next
      case False
      with run fe \<open>found\<close> c have "ps' = ps\<lparr>entries := before @ cs\<rparr>"
        by (simp add: update_entry_def remove_entry_def)
      with False f(1) c nb nc srt grid show ?thesis
        by (auto simp: levels_split map_add_upd_left domIff entries_ok_def sorted_wrt_append fun_eq_iff
            map_add_def split: option.splits)
    qed
  next
    case False
    note after = f(4) [OF False]
    have nc: "levels cursor (pp_price e) = None" using after by (intro levels_None) auto
    show ?thesis
    proof (cases "tolerance ps < pp_quantity e")
      case True
      with run fe \<open>\<not> found\<close> have "ps' = ps\<lparr>entries := before @ e # cursor\<rparr>"
        by (simp add: update_entry_def insert_or_modify_entry_def)
      with True f(1,3) after nb srt grid p show ?thesis
        by (auto simp: levels_split map_add_upd_left domIff entries_ok_def sorted_wrt_append)
    next
      case qty: False
      with run fe \<open>\<not> found\<close> have "ps' = ps"
        by (simp add: update_entry_def remove_entry_def)
      with qty f(1) nb nc ok show ?thesis
        by (auto simp: levels_split map_add_def fun_eq_iff)
    qed
  qed
  then show "levels (entries ps') = (levels (entries ps))
      (pp_price e := (if tolerance ps < pp_quantity e then Some (pp_quantity e) else None))"
    and "entries_ok tick (entries ps')" and "tolerance ps' = tolerance ps" by auto
qed

definition apply_level :: "amount \<Rightarrow> (amount \<Rightarrow> amount option) \<Rightarrow> price_point_entry \<Rightarrow> amount \<Rightarrow> amount option" where
  "apply_level tol m e = m(pp_price e := (if tol < pp_quantity e then Some (pp_quantity e) else None))"

lemma update_all_levels:
  assumes "dec_exact D" "0 < tolerance ps" "tolerance ps < tick"
  shows "update_all D ps es = (ps', Inr u) \<Longrightarrow> tolerance ps = tol \<Longrightarrow> entries_ok tick (entries ps) \<Longrightarrow>
    \<forall>e\<in>set es. on_grid tick (pp_price e) \<Longrightarrow>
    levels (entries ps') = foldl (apply_level tol) (levels (entries ps)) es \<and> entries_ok tick (entries ps')"
  using assms(2,3)
proof (induction es arbitrary: ps)
  case (Cons e es)
  then obtain ps1 v where step: "update_entry D ps e = (ps1, Inr v)"
    and rest: "update_all D ps1 es = (ps', Inr u)"
    by (auto split: prod.splits sum.splits)
  note up = update_entry_levels [OF assms(1) Cons.prems(5,6,3) _ step]
  from Cons.IH [OF rest] up Cons.prems show ?case by (simp add: apply_level_def)
qed simp

text \<open>
  C30. A side of a book is the price-to-quantity map its updates describe: on a market whose prices
  are multiples of a tick larger than the book's tolerance, after any updates the levels are those
  of the map in which each update has set its price's quantity, or removed the price when the
  quantity does not exceed the tolerance, and they are kept in strictly ascending order.
\<close>

theorem book_side_refines_map:
  assumes "dec_exact D" and "0 < tol" "tol < tick" and "\<forall>e\<in>set es. on_grid tick (pp_price e)"
    and "update_all D (price_point_entries_new sd tol) es = (ps, Inr ())"
  shows "levels (entries ps) = foldl (apply_level tol) Map.empty es \<and>
    sorted_wrt (<) (map pp_price (entries ps))"
proof -
  have ok: "entries_ok tick (entries (price_point_entries_new sd tol))"
    by (simp add: price_point_entries_new_def entries_ok_def)
  have "levels (entries ps) = foldl (apply_level tol) (levels (entries (price_point_entries_new sd tol))) es
      \<and> entries_ok tick (entries ps)"
    using assms(2-4) ok
    by (intro update_all_levels [OF assms(1) _ _ assms(5)]) (simp_all add: price_point_entries_new_def)
  then show ?thesis by (simp add: price_point_entries_new_def entries_ok_def levels_split)
qed

definition demo_levels :: "price_point_entry list" where
  "demo_levels = [\<lparr>pp_price = 101, pp_quantity = 5\<rparr>, \<lparr>pp_price = 100, pp_quantity = 3\<rparr>,
     \<lparr>pp_price = 102, pp_quantity = 7\<rparr>, \<lparr>pp_price = 101, pp_quantity = 0\<rparr>, \<lparr>pp_price = 100, pp_quantity = 4\<rparr>]"

lemmas [evals] = demo_levels_def price_point_entries_new_def update_entry_def
  insert_or_modify_entry_def remove_entry_def find_entry_def

theorem book_side_refines_map_witness:
  "levels (entries (fst (update_all (dec_upto 1000) (price_point_entries_new Buy (1 / 100)) demo_levels))) =
     foldl (apply_level (1 / 100)) Map.empty demo_levels"
proof -
  let ?r = "update_all (dec_upto 1000) (price_point_entries_new Buy (1 / 100)) demo_levels"
  have "snd ?r = Inr ()" by (simp add: evals)
  then have "?r = (fst ?r, Inr ())" by (metis prod.collapse)
  from book_side_refines_map [OF _ _ _ _ this, of 1] show ?thesis
    by (simp add: on_grid_def demo_levels_def)
qed

section \<open>Liquidity and the top of a book\<close>

definition near_side :: "side \<Rightarrow> amount \<Rightarrow> amount \<Rightarrow> amount \<Rightarrow> bool" where
  "near_side sd tol limit p \<longleftrightarrow> (case sd of Buy \<Rightarrow> limit - tol \<le> p | Sell \<Rightarrow> p \<le> limit + tol)"

lemma liquidity_walk_sum:
  assumes "dec_exact D"
  shows "liquidity_walk D sd b es a = Inr l \<Longrightarrow>
    sorted_wrt (\<lambda>x y. is_finished sd b x \<longrightarrow> is_finished sd b y) (map pp_price es) \<Longrightarrow>
    l = a + total pp_quantity (filter (\<lambda>e. \<not> is_finished sd b (pp_price e)) es)"
proof (induction es arbitrary: a)
  case (Cons e es)
  show ?case
  proof (cases "is_finished sd b (pp_price e)")
    case True
    with Cons.prems(2) have "filter (\<lambda>e. \<not> is_finished sd b (pp_price e)) es = []"
      by (auto simp: filter_empty_conv)
    with Cons.prems True show ?thesis by simp
  next
    case False
    with Cons.prems obtain a' where "dec_add D a (pp_quantity e) = Some a'"
      "liquidity_walk D sd b es a' = Inr l"
      by (auto simp: rbind_eq_Inr ok_or_eq_Inr)
    with Cons.IH [OF this(2)] Cons.prems(2) False dec_exact_add [OF assms] show ?thesis by auto
  qed
qed simp

lemma begin_ops_monotone:
  "sorted_wrt (<) (map pp_price es) \<Longrightarrow>
     sorted_wrt (\<lambda>x y. is_finished sd b x \<longrightarrow> is_finished sd b y) (map pp_price (begin_ops sd es))"
  by (cases sd)
    (auto simp: begin_ops_def is_finished_def sorted_wrt_rev rev_map [symmetric] elim!: sorted_wrt_mono_rel [rotated])

text \<open>
  The liquidity reported at a price is the quantity of all the levels at least as good: the
  walk from the best price, which stops at the first level beyond the bound, misses none of them.
\<close>

theorem liquidity_sums_near_levels:
  assumes "dec_exact D" and "sorted_wrt (<) (map pp_price (entries ps))"
    and "get_liquidity D ps price = Inr l"
  shows "l = total pp_quantity (filter (\<lambda>e. near_side (e_side ps) (tolerance ps) price (pp_price e)) (entries ps))"
proof -
  obtain b where b: "ops_bound D (e_side ps) (tolerance ps) price = Some b"
    and w: "liquidity_walk D (e_side ps) b (begin_ops (e_side ps) (entries ps)) 0 = Inr l"
    using assms(3) by (auto simp: get_liquidity_def rbind_eq_Inr ok_or_eq_Inr)
  have near: "near_side (e_side ps) (tolerance ps) price p \<longleftrightarrow> \<not> is_finished (e_side ps) b p" for p
    using b assms(1)
    by (cases "e_side ps") (auto simp: near_side_def is_finished_def ops_bound_def
        dest!: dec_add_exact dec_sub_exact)
  from liquidity_walk_sum [OF assms(1) w begin_ops_monotone [OF assms(2)]]
  show ?thesis unfolding near
    by (cases "e_side ps") (simp_all add: begin_ops_def rev_filter [symmetric] rev_map [symmetric])
qed

theorem liquidity_sums_near_levels_witness:
  "get_liquidity (dec_upto 1000) (fst (update_all (dec_upto 1000)
     (price_point_entries_new Sell (1 / 100)) demo_levels)) 101 = Inr 4"
proof -
  let ?ps = "fst (update_all (dec_upto 1000) (price_point_entries_new Sell (1 / 100)) demo_levels)"
  have es: "entries ?ps = [\<lparr>pp_price = 100, pp_quantity = 4\<rparr>, \<lparr>pp_price = 102, pp_quantity = 7\<rparr>]"
    and ps: "e_side ?ps = Sell" "tolerance ?ps = 1 / 100" by (simp_all add: evals)
  have "\<exists>l. get_liquidity (dec_upto 1000) ?ps 101 = Inr l"
    unfolding get_liquidity_def es ps by (simp add: begin_ops_def ops_bound_def is_finished_def evals)
  then obtain l where l: "get_liquidity (dec_upto 1000) ?ps 101 = Inr l" ..
  have "l = 4"
    using liquidity_sums_near_levels [OF dec_exact_upto _ l] unfolding es ps by (simp add: near_side_def)
  with l show ?thesis by simp
qed

definition better :: "side \<Rightarrow> amount \<Rightarrow> amount \<Rightarrow> bool" where
  "better sd p q \<longleftrightarrow> (case sd of Buy \<Rightarrow> q < p | Sell \<Rightarrow> p < q)"

lemma best_first:
  assumes "sorted_wrt (<) (map pp_price es)" and "begin_ops sd es = e # rest"
  shows "e \<in> set es \<and> (\<forall>e'\<in>set es. e' = e \<or> better sd (pp_price e) (pp_price e'))"
proof (cases sd)
  case Buy
  with assms(2) have "es = rev rest @ [e]" by (simp add: begin_ops_def rev_eq_Cons_iff)
  with assms(1) Buy show ?thesis by (auto simp: better_def sorted_wrt_append)
next
  case Sell
  with assms show ?thesis by (auto simp: better_def begin_ops_def)
qed

text \<open>
  The top of a book carries the highest bid and the lowest ask with their quantities, and an
  empty side shows as no price: what it reports is a level of its side than which no level of that
  side is better.
\<close>

theorem top_of_book_is_best:
  assumes "book_top D b = Inr t"
    and "sorted_wrt (<) (map pp_price (entries (bid_entries b)))"
    and "sorted_wrt (<) (map pp_price (entries (ask_entries b)))"
    and "e_side (bid_entries b) = Buy" "e_side (ask_entries b) = Sell"
  shows "(case best_bid_price t of
      None \<Rightarrow> entries (bid_entries b) = [] \<and> best_bid_quantity t = 0
    | Some p \<Rightarrow> \<exists>e\<in>set (entries (bid_entries b)). pp_price e = p \<and> pp_quantity e = best_bid_quantity t \<and>
        (\<forall>e'\<in>set (entries (bid_entries b)). pp_price e' \<le> p)) \<and>
    (case best_ask_price t of
      None \<Rightarrow> entries (ask_entries b) = [] \<and> best_ask_quantity t = 0
    | Some p \<Rightarrow> \<exists>e\<in>set (entries (ask_entries b)). pp_price e = p \<and> pp_quantity e = best_ask_quantity t \<and>
        (\<forall>e'\<in>set (entries (ask_entries b)). p \<le> pp_price e'))"
proof -
  have top: "(case map_option pp_price x of
        None \<Rightarrow> entries ps = [] \<and> (case x of None \<Rightarrow> 0 | Some e \<Rightarrow> pp_quantity e) = 0
      | Some p \<Rightarrow> \<exists>e\<in>set (entries ps). pp_price e = p \<and>
          pp_quantity e = (case x of None \<Rightarrow> 0 | Some e \<Rightarrow> pp_quantity e) \<and>
          (\<forall>e'\<in>set (entries ps). e' = e \<or> better (e_side ps) p (pp_price e')))"
    if "entries_top D ps = Inr x" and "sorted_wrt (<) (map pp_price (entries ps))" for ps x
  proof (cases "begin_ops (e_side ps) (entries ps)")
    case Nil
    with that(1) show ?thesis
      by (cases "e_side ps") (auto simp: entries_top_def rbind_eq_Inr begin_ops_def)
  next
    case (Cons e rest)
    with that(1) have "x = Some e" by (auto simp: entries_top_def rbind_eq_Inr)
    with best_first [OF that(2) Cons] show ?thesis by auto
  qed
  from assms(1) obtain bid ask where "entries_top D (bid_entries b) = Inr bid"
    "entries_top D (ask_entries b) = Inr ask"
    and t: "best_bid_price t = map_option pp_price bid" "best_ask_price t = map_option pp_price ask"
      "best_bid_quantity t = (case bid of None \<Rightarrow> 0 | Some e \<Rightarrow> pp_quantity e)"
      "best_ask_quantity t = (case ask of None \<Rightarrow> 0 | Some e \<Rightarrow> pp_quantity e)"
    by (auto simp: book_top_def rbind_eq_Inr)
  note bids = top [OF this(1) assms(2)] and asks = top [OF this(2) assms(3)]
  show ?thesis
  proof
    show "case best_bid_price t of
        None \<Rightarrow> entries (bid_entries b) = [] \<and> best_bid_quantity t = 0
      | Some p \<Rightarrow> \<exists>e\<in>set (entries (bid_entries b)). pp_price e = p \<and> pp_quantity e = best_bid_quantity t \<and>
          (\<forall>e'\<in>set (entries (bid_entries b)). pp_price e' \<le> p)"
      using bids assms(4) by (cases bid) (fastforce simp: t better_def)+
    show "case best_ask_price t of
        None \<Rightarrow> entries (ask_entries b) = [] \<and> best_ask_quantity t = 0
      | Some p \<Rightarrow> \<exists>e\<in>set (entries (ask_entries b)). pp_price e = p \<and> pp_quantity e = best_ask_quantity t \<and>
          (\<forall>e'\<in>set (entries (ask_entries b)). p \<le> pp_price e')"
      using asks assms(5) by (cases ask) (fastforce simp: t better_def)+
  qed
qed

definition demo_book :: price_point_book where
  "demo_book = fst (update_entries (dec_upto 1000) (price_point_book_new (1 / 100)) 1 demo_levels
     [\<lparr>pp_price = 104, pp_quantity = 2\<rparr>, \<lparr>pp_price = 103, pp_quantity = 1\<rparr>])"

lemmas [evals] = demo_book_def price_point_book_new_def update_entries_def book_top_def
  entries_top_def ops_bound_def begin_ops_def get_entries_def

theorem top_of_book_is_best_witness:
  "\<exists>t. book_top (dec_upto 1000) demo_book = Inr t \<and> best_bid_price t = Some 102 \<and>
     (\<forall>e'\<in>set (entries (bid_entries demo_book)). pp_price e' \<le> 102)"
proof -
  obtain t where t: "book_top (dec_upto 1000) demo_book = Inr t" and p: "best_bid_price t = Some 102"
    by (simp add: evals)
  have sides: "e_side (bid_entries demo_book) = Buy" "e_side (ask_entries demo_book) = Sell"
    "sorted_wrt (<) (map pp_price (entries (bid_entries demo_book)))"
    "sorted_wrt (<) (map pp_price (entries (ask_entries demo_book)))"
    by (simp_all add: evals)
  from top_of_book_is_best [OF t sides(3,4,1,2)] t p show ?thesis by auto
qed

text \<open>
  C29. \<open>get_entries\<close> lists a side from its lowest price whichever side it is: asked for the first
  bid of a book with several, it gives the worst bid, not the best one.
\<close>

theorem first_bid_entry_is_worst:
  assumes "sorted_wrt (<) (map pp_price (entries (bid_entries b)))"
    and "entries (bid_entries b) = e # e' # es"
  shows "get_entries b Buy 1 = [e] \<and> (\<forall>x\<in>set (e' # es). pp_price e < pp_price x)"
  using assms by (auto simp: get_entries_def)

theorem first_bid_entry_is_worst_witness:
  "get_entries demo_book Buy 1 = [\<lparr>pp_price = 100, pp_quantity = 4\<rparr>] \<and>
   entries (bid_entries demo_book) = [\<lparr>pp_price = 100, pp_quantity = 4\<rparr>, \<lparr>pp_price = 102, pp_quantity = 7\<rparr>]"
proof -
  have es: "entries (bid_entries demo_book) =
      [\<lparr>pp_price = 100, pp_quantity = 4\<rparr>, \<lparr>pp_price = 102, pp_quantity = 7\<rparr>]"
    by (simp add: evals)
  from first_bid_entry_is_worst [OF _ es] es show ?thesis by simp
qed

end
