(* ===== verification/PriceTracker.thy ===== *)
theory PriceTracker
  imports OrderBook "HOL-Library.Multiset"
begin

text \<open>
  Reference prices, \<open>libs/symm-core/src/market_data/price_tracker.rs\<close>, and the exchange rates read
  off them, \<open>exchange_rates.rs\<close>. The tracker's hash map is a map; the price map of a response is an
  association list with each symbol once. \<open>itertools::partition\<close> leaves the symbols it puts in front
  in an order it does not specify: that order is the parameter \<open>arrange\<close>, which the theorems only
  assume to be a rearrangement. An operation returns the events it publishes.
\<close>

section \<open>The tracker\<close>

datatype price_event = PriceChange symbol

record get_prices_response =
  r_prices :: "(symbol \<times> amount) list"
  missing_symbols :: "symbol list"

record price_tracker =
  prices :: "symbol \<Rightarrow> last_price_entry option"

definition price_tracker_new :: price_tracker where
  "price_tracker_new = \<lparr>prices = (\<lambda>_. None)\<rparr>"

definition update_top ::
  "price_tracker \<Rightarrow> symbol \<Rightarrow> u64 \<Rightarrow> amount \<Rightarrow> amount \<Rightarrow> amount \<Rightarrow> amount \<Rightarrow> price_tracker \<times> price_event list" where
  "update_top t s sn bid ask bid_quantity ask_quantity =
     (let e = (case prices t s of
          Some v \<Rightarrow> v\<lparr>sequence_number := max sn (sequence_number v), best_bid_price := Some bid,
             best_ask_price := Some ask, best_bid_quantity := bid_quantity,
             best_ask_quantity := ask_quantity\<rparr>
        | None \<Rightarrow> \<lparr>sequence_number = sn, best_bid_price = Some bid, best_ask_price = Some ask,
             best_bid_quantity = bid_quantity, best_ask_quantity = ask_quantity,
             last_trade_price = None, last_trade_quantity = 0\<rparr>)
      in (t\<lparr>prices := (prices t)(s \<mapsto> e)\<rparr>, [PriceChange s]))"

definition update_last_trade ::
  "price_tracker \<Rightarrow> symbol \<Rightarrow> u64 \<Rightarrow> amount \<Rightarrow> amount \<Rightarrow> price_tracker \<times> price_event list" where
  "update_last_trade t s sn price quantity =
     (let e = (case prices t s of
          Some v \<Rightarrow> v\<lparr>sequence_number := max sn (sequence_number v), last_trade_price := Some price,
             last_trade_quantity := quantity\<rparr>
        | None \<Rightarrow> \<lparr>sequence_number = sn, best_bid_price = None, best_ask_price = None,
             best_bid_quantity = 0, best_ask_quantity = 0,
             last_trade_price = Some price, last_trade_quantity = quantity\<rparr>)
      in (t\<lparr>prices := (prices t)(s \<mapsto> e)\<rparr>, [PriceChange s]))"

fun price_handle_market_data ::
  "price_tracker \<Rightarrow> market_data_event \<Rightarrow> price_tracker \<times> price_event list" where
  "price_handle_market_data t (TopOfBook s sn bid ask bq aq) = update_top t s sn bid ask bq aq"
| "price_handle_market_data t (Trade s sn price quantity) = update_last_trade t s sn price quantity"
| "price_handle_market_data t _ = (t, [])"

definition price_of :: "dec_ops \<Rightarrow> price_tracker \<Rightarrow> price_type \<Rightarrow> symbol \<Rightarrow> amount option" where
  "price_of D t pt s = Option.bind (prices t s) (\<lambda>e. get_price D e pt)"

fun put_price :: "symbol \<Rightarrow> amount \<Rightarrow> (symbol \<times> amount) list \<Rightarrow> (symbol \<times> amount) list" where
  "put_price s p [] = [(s, p)]"
| "put_price s p ((s', p') # m) = (if s' = s then (s, p) # m else (s', p') # put_price s p m)"

fun collect_prices ::
  "dec_ops \<Rightarrow> price_tracker \<Rightarrow> price_type \<Rightarrow> symbol list \<Rightarrow> get_prices_response \<Rightarrow> get_prices_response" where
  "collect_prices D t pt [] r = r"
| "collect_prices D t pt (s # ss) r =
     collect_prices D t pt ss
       (case price_of D t pt s of
          Some p \<Rightarrow> r\<lparr>r_prices := put_price s p (r_prices r)\<rparr>
        | None \<Rightarrow> r\<lparr>missing_symbols := missing_symbols r @ [s]\<rparr>)"

definition get_prices ::
  "dec_ops \<Rightarrow> (symbol list \<Rightarrow> symbol list) \<Rightarrow> price_tracker \<Rightarrow> price_type \<Rightarrow> symbol list \<Rightarrow>
     get_prices_response" where
  "get_prices D arrange t pt symbols =
     (let r = collect_prices D t pt symbols \<lparr>r_prices = [], missing_symbols = []\<rparr>
      in r\<lparr>missing_symbols := arrange (missing_symbols r)\<rparr>)"

definition rearranges :: "('a list \<Rightarrow> 'a list) \<Rightarrow> bool" where
  "rearranges f \<longleftrightarrow> (\<forall>xs. mset (f xs) = mset xs)"

section \<open>Exchange rates\<close>

definition fixed_exchange_rate ::
  "(symbol \<Rightarrow> amount option) \<Rightarrow> symbol \<Rightarrow> symbol \<Rightarrow> amount result" where
  "fixed_exchange_rate rates from_ccy to_ccy =
     (if from_ccy = to_ccy then Inr 1 else ok_or (rates (from_ccy @ to_ccy)) ''Missing price'')"

text \<open>\<open>exactly_one().unwrap()\<close> panics unless the response has exactly one price.\<close>

definition tracked_exchange_rate ::
  "dec_ops \<Rightarrow> (symbol list \<Rightarrow> symbol list) \<Rightarrow> price_tracker \<Rightarrow> symbol \<Rightarrow> symbol \<Rightarrow> amount outcome" where
  "tracked_exchange_rate D arrange t from_ccy to_ccy =
     (if from_ccy = to_ccy then Returns (Inr 1)
      else let res = get_prices D arrange t VolumeWeighted [from_ccy @ to_ccy]
           in if missing_symbols res \<noteq> [] then Returns (Inl ''Missing price for: '')
              else case r_prices res of
                     [(_, p)] \<Rightarrow> Returns (Inr p)
                   | _ \<Rightarrow> Panic)"

section \<open>What a response holds\<close>

lemma put_price_map: "map_of (put_price s p m) = (map_of m)(s \<mapsto> p)"
  by (induction m) auto

lemma put_price_keys:
  "set (map fst (put_price s p m)) = insert s (set (map fst m)) \<and>
     (distinct (map fst m) \<longrightarrow> distinct (map fst (put_price s p m)))"
proof (induction m)
  case (Cons x m)
  obtain s' p' where x: "x = (s', p')" by fastforce
  with Cons show ?case by auto
qed simp

lemma collect_prices_spec:
  "map_of (r_prices (collect_prices D t pt ss r)) =
     (\<lambda>s. if s \<in> set ss \<and> price_of D t pt s \<noteq> None then price_of D t pt s else map_of (r_prices r) s) \<and>
   missing_symbols (collect_prices D t pt ss r) =
     missing_symbols r @ filter (\<lambda>s. price_of D t pt s = None) ss \<and>
   (distinct (map fst (r_prices r)) \<longrightarrow> distinct (map fst (r_prices (collect_prices D t pt ss r))))"
proof (induction ss arbitrary: r)
  case (Cons s ss)
  show ?case
  proof (cases "price_of D t pt s")
    case None
    with Cons.IH show ?thesis by (auto simp: fun_eq_iff)
  next
    case (Some p)
    with Cons.IH [of "r\<lparr>r_prices := put_price s p (r_prices r)\<rparr>"] put_price_keys [of s p "r_prices r"]
    show ?thesis by (auto simp: put_price_map fun_eq_iff)
  qed
qed (auto simp: fun_eq_iff)

text \<open>
  A price request is answered completely: every symbol asked for is either priced, with the
  price of its entry, or reported missing, never both; nothing else is in the answer, and no
  symbol is priced twice.
\<close>

theorem get_prices_partition:
  assumes "rearranges arrange"
  shows "map_of (r_prices (get_prices D arrange t pt symbols)) =
      (\<lambda>s. if s \<in> set symbols then price_of D t pt s else None) \<and>
   mset (missing_symbols (get_prices D arrange t pt symbols)) =
      mset (filter (\<lambda>s. price_of D t pt s = None) symbols) \<and>
   distinct (map fst (r_prices (get_prices D arrange t pt symbols)))"
  using collect_prices_spec [of D t pt symbols "\<lparr>r_prices = [], missing_symbols = []\<rparr>"] assms
  by (auto simp: get_prices_def rearranges_def Let_def fun_eq_iff)

definition demo_tracker :: price_tracker where
  "demo_tracker = \<lparr>prices = [''BTC'' \<mapsto> \<lparr>sequence_number = 7, best_bid_price = Some 100,
     best_ask_price = Some 102, best_bid_quantity = 1, best_ask_quantity = 1,
     last_trade_price = None, last_trade_quantity = 0\<rparr>]\<rparr>"

lemma demo_tracker_prices:
  "price_of (dec_upto 1000) demo_tracker MidPoint s = (if s = ''BTC'' then Some 101 else None)"
  "price_of (dec_upto 1000) demo_tracker VolumeWeighted s = (if s = ''BTC'' then Some 101 else None)"
  by (simp_all add: price_of_def demo_tracker_def mid_point_def volume_weighted_def checked_math_def fits_def)

lemma get_prices_partition_witness:
  "map_of (r_prices (get_prices (dec_upto 1000) rev demo_tracker MidPoint [''SOL'', ''BTC'', ''ETH''])) ''BTC'' =
     Some 101 \<and>
   mset (missing_symbols (get_prices (dec_upto 1000) rev demo_tracker MidPoint [''SOL'', ''BTC'', ''ETH''])) =
     {#''SOL'', ''ETH''#}"
proof -
  have "rearranges (rev :: symbol list \<Rightarrow> symbol list)" by (simp add: rearranges_def)
  from get_prices_partition [OF this, of "dec_upto 1000" demo_tracker MidPoint "[''SOL'', ''BTC'', ''ETH'']"]
  show ?thesis by (simp add: demo_tracker_prices)
qed

text \<open>
  Reading an exchange rate off the tracker never panics: it is one for a currency and itself,
  the volume-weighted price of the pair when there is one, and an error otherwise.
\<close>

theorem tracked_exchange_rate_total:
  assumes "rearranges arrange"
  shows "tracked_exchange_rate D arrange t from_ccy to_ccy =
     (if from_ccy = to_ccy then Returns (Inr 1)
      else case price_of D t VolumeWeighted (from_ccy @ to_ccy) of
             None \<Rightarrow> Returns (Inl ''Missing price for: '')
           | Some p \<Rightarrow> Returns (Inr p))"
proof -
  have "mset (arrange []) = {#}" "mset (arrange [from_ccy @ to_ccy]) = {#from_ccy @ to_ccy#}"
    using assms by (simp_all add: rearranges_def)
  then have "arrange [] = []" "arrange [from_ccy @ to_ccy] \<noteq> []" by auto
  then show ?thesis
    by (auto simp: tracked_exchange_rate_def get_prices_def Let_def split: option.splits)
qed

lemma tracked_exchange_rate_total_witness:
  "tracked_exchange_rate (dec_upto 1000) rev demo_tracker ''BT'' ''C'' = Returns (Inr 101)"
proof -
  have "rearranges (rev :: symbol list \<Rightarrow> symbol list)" by (simp add: rearranges_def)
  from tracked_exchange_rate_total [OF this, of "dec_upto 1000" demo_tracker "''BT''" "''C''"]
  show ?thesis by (simp add: demo_tracker_prices)
qed

section \<open>Sequence numbers\<close>

fun event_seq :: "symbol \<Rightarrow> market_data_event \<Rightarrow> u64 option" where
  "event_seq s (TopOfBook s' sn _ _ _ _) = (if s' = s then Some sn else None)"
| "event_seq s (Trade s' sn _ _) = (if s' = s then Some sn else None)"
| "event_seq s _ = None"

definition price_step :: "price_tracker \<Rightarrow> market_data_event \<Rightarrow> price_tracker" where
  "price_step t e = fst (price_handle_market_data t e)"

definition seq_at_least :: "symbol \<Rightarrow> u64 \<Rightarrow> price_tracker \<Rightarrow> bool" where
  "seq_at_least s n t \<longleftrightarrow> (\<exists>e. prices t s = Some e \<and> n \<le> sequence_number e)"

interpretation price_seq: reactive price_step "\<lambda>_ _. True" "seq_at_least s n" for s n
proof unfold_locales
  fix t ev
  assume "seq_at_least s n t"
  then show "seq_at_least s n (price_step t ev)"
    by (cases ev) (auto simp: seq_at_least_def price_step_def update_top_def update_last_trade_def
        Let_def max_def split: option.splits)
qed

lemma event_seq_recorded:
  "event_seq s ev = Some n \<Longrightarrow> seq_at_least s n (price_step t ev)"
  by (cases ev) (auto simp: seq_at_least_def price_step_def update_top_def update_last_trade_def
      Let_def max_def split: option.splits if_splits)

text \<open>
  A symbol's sequence number never falls behind an event that was handled for it, whatever
  order events arrive in.
\<close>

theorem sequence_number_covers_events:
  assumes "event_seq s ev = Some n"
  shows "\<exists>e. prices (run price_step t (es @ ev # es')) s = Some e \<and> n \<le> sequence_number e"
proof -
  have "run price_step t (es @ ev # es') = run price_step (price_step (run price_step t es) ev) es'"
    by (simp add: run_def)
  moreover have "seq_at_least s n (run price_step (price_step (run price_step t es) ev) es')"
    by (rule price_seq.run_inv [OF event_seq_recorded [OF assms]]) simp
  ultimately show ?thesis by (simp add: seq_at_least_def)
qed

theorem sequence_number_covers_events_witness:
  "\<exists>e. prices (run price_step price_tracker_new ([Trade ''BTC'' 3 99 1] @ TopOfBook ''BTC'' 7 100 101 1 1 #
     [Trade ''BTC'' 5 98 2])) ''BTC'' = Some e \<and> 7 \<le> sequence_number e"
  by (rule sequence_number_covers_events) simp

text \<open>
  The prices, however, follow the order of arrival: a top of book older than what the tracker
  holds replaces the newer prices, and the entry carries them under the newer sequence number.
\<close>

theorem stale_top_overwrites:
  assumes "prices t s = Some e" and "sn < sequence_number e"
  shows "\<exists>e'. prices (fst (price_handle_market_data t (TopOfBook s sn bid ask bq aq))) s = Some e' \<and>
    sequence_number e' = sequence_number e \<and> best_bid_price e' = Some bid \<and>
    best_ask_price e' = Some ask \<and> best_bid_quantity e' = bq \<and> best_ask_quantity e' = aq"
  using assms by (simp add: update_top_def max_absorb2 less_imp_le)

theorem stale_top_overwrites_witness:
  "\<exists>e'. prices (fst (price_handle_market_data (run price_step price_tracker_new
       [TopOfBook ''BTC'' 7 100 101 1 1]) (TopOfBook ''BTC'' 6 90 91 1 1))) ''BTC'' = Some e' \<and>
     sequence_number e' = 7 \<and> best_bid_price e' = Some 90"
proof -
  have e: "prices (run price_step price_tracker_new [TopOfBook ''BTC'' 7 100 101 1 1]) ''BTC'' =
      Some \<lparr>sequence_number = 7, best_bid_price = Some 100, best_ask_price = Some 101,
        best_bid_quantity = 1, best_ask_quantity = 1, last_trade_price = None, last_trade_quantity = 0\<rparr>"
    by (simp add: price_step_def update_top_def price_tracker_new_def)
  from stale_top_overwrites [OF e, of 6 90 91 1 1] show ?thesis by auto
qed

end
