(* ===== verification/Basket.thy ===== *)
theory Basket
  imports Bits "HOL-Library.List_Lexorder" "HOL-Library.Char_ord"
begin

text \<open>
  Index baskets, \<open>libs/index-core/src/index/basket.rs\<close> and \<open>basket_manager.rs\<close>. Shared ownership
  (\<open>Arc\<close>) of immutable values is the value itself. The manager publishes an event only when an
  observer is set, which is part of its state here; an operation returns the events it publishes.
\<close>

section \<open>Definitions and baskets\<close>

record asset =
  ticker :: symbol
  listing :: symbol

record asset_weight =
  w_asset :: asset
  weight :: amount

record basket_definition =
  weights :: "asset_weight list"

record basket_asset =
  ba_weight :: asset_weight
  quantity :: amount

record basket =
  basket_assets :: "basket_asset list"

fun sum_weights :: "dec_ops \<Rightarrow> amount \<Rightarrow> asset_weight list \<Rightarrow> amount option" where
  "sum_weights D acc [] = Some acc"
| "sum_weights D acc (w # ws) = Option.bind (dec_add D acc (weight w)) (\<lambda>a. sum_weights D a ws)"

definition normalize_weight :: "dec_ops \<Rightarrow> amount \<Rightarrow> asset_weight \<Rightarrow> asset_weight option" where
  "normalize_weight D total_weight w =
     map_option (\<lambda>x. \<lparr>w_asset = w_asset w, weight = x\<rparr>) (dec_div D (weight w) total_weight)"

definition try_new :: "dec_ops \<Rightarrow> asset_weight list \<Rightarrow> basket_definition result" where
  "try_new D ws =
     rbind (ok_or (sum_weights D 0 ws) ''Numeric overflow'')
       (\<lambda>total_weight.
          let ws' = map (normalize_weight D total_weight) ws
          in if list_all (\<lambda>w. w \<noteq> None) ws' then Inr \<lparr>weights = map the ws'\<rparr>
             else Inl ''Numeric overflow while division'')"

text \<open>A missing price counts as zero and a failed computation as no quantity.\<close>

definition basket_quantity ::
  "dec_ops \<Rightarrow> (symbol \<Rightarrow> amount option) \<Rightarrow> amount \<Rightarrow> asset_weight \<Rightarrow> basket_asset" where
  "basket_quantity D individual_prices target_price w =
     (let price = (case individual_prices (ticker (w_asset w)) of Some p \<Rightarrow> p | None \<Rightarrow> 0);
          q = checked_math (dec_div D target_price price) (\<lambda>x. dec_mul D x (weight w))
      in \<lparr>ba_weight = w, quantity = (case q of Some x \<Rightarrow> x | None \<Rightarrow> 0)\<rparr>)"

definition new_with_prices ::
  "dec_ops \<Rightarrow> basket_definition \<Rightarrow> (symbol \<Rightarrow> amount option) \<Rightarrow> amount \<Rightarrow> basket result" where
  "new_with_prices D def individual_prices target_price =
     (let assets = map (basket_quantity D individual_prices target_price) (weights def)
      in if filter (\<lambda>a. quantity a = 0) assets \<noteq> []
         then Inl ''Numeric overflow while computing quantity for assets''
         else Inr \<lparr>basket_assets = assets\<rparr>)"

definition asset_value :: "dec_ops \<Rightarrow> (symbol \<Rightarrow> amount option) \<Rightarrow> basket_asset \<Rightarrow> amount option" where
  "asset_value D individual_prices a =
     Option.bind (individual_prices (ticker (w_asset (ba_weight a)))) (\<lambda>x. dec_mul D x (quantity a))"

fun sum_values :: "dec_ops \<Rightarrow> amount \<Rightarrow> amount list \<Rightarrow> amount option" where
  "sum_values D acc [] = Some acc"
| "sum_values D acc (x # xs) = Option.bind (dec_add D x acc) (\<lambda>a. sum_values D a xs)"

definition get_current_price :: "dec_ops \<Rightarrow> basket \<Rightarrow> (symbol \<Rightarrow> amount option) \<Rightarrow> amount result" where
  "get_current_price D b individual_prices =
     (let values = map (asset_value D individual_prices) (basket_assets b)
      in if filter (\<lambda>v. v = None) values \<noteq> [] then Inl ''Unknown price of the assets''
         else ok_or (sum_values D 0 (map the values))
                ''Numeric overflow while computing current price of the basket'')"

definition definition_of_basket :: "dec_ops \<Rightarrow> basket \<Rightarrow> basket_definition result" where
  "definition_of_basket D b = try_new D (map ba_weight (basket_assets b))"

definition weights_of_basket :: "basket \<Rightarrow> asset_weight list" where
  "weights_of_basket b = map ba_weight (basket_assets b)"

section \<open>The manager\<close>

datatype basket_notification =
    BasketAdded symbol basket
  | BasketUpdated symbol basket
  | BasketRemoved symbol

record basket_manager =
  baskets :: "symbol \<Rightarrow> basket option"
  has_observer :: bool

definition basket_manager_new :: basket_manager where
  "basket_manager_new = \<lparr>baskets = (\<lambda>_. None), has_observer = False\<rparr>"

definition get_basket :: "basket_manager \<Rightarrow> symbol \<Rightarrow> basket option" where
  "get_basket m s = baskets m s"

text \<open>
  The order in which the hash map lists its entries is not specified: \<open>listing_of m es\<close> says
  that \<open>es\<close> is one such order, and the two operations that walk the map take it as an argument.
  \<open>Itertools::dedup_by\<close> keeps the first of each run of equal elements.
\<close>

definition listing_of :: "basket_manager \<Rightarrow> (symbol \<times> basket) list \<Rightarrow> bool" where
  "listing_of m es \<longleftrightarrow> distinct (map fst es) \<and> map_of es = baskets m"

fun dedup_by_key :: "('a \<Rightarrow> 'k) \<Rightarrow> 'a list \<Rightarrow> 'a list" where
  "dedup_by_key k [] = []"
| "dedup_by_key k [x] = [x]"
| "dedup_by_key k (x # y # ys) =
     (if k x = k y then dedup_by_key k (x # ys) else x # dedup_by_key k (y # ys))"

definition get_all_assets :: "(symbol \<times> basket) list \<Rightarrow> asset list" where
  "get_all_assets es =
     dedup_by_key ticker
       (sort_key ticker
         (map (\<lambda>a. w_asset (ba_weight a)) (concat (map (\<lambda>(_, b). basket_assets b) es))))"

definition notify_baskets ::
  "basket_manager \<Rightarrow> (symbol \<times> basket) list \<Rightarrow> basket_notification list \<times> unit result" where
  "notify_baskets m es =
     (if has_observer m then (map (\<lambda>(s, b). BasketUpdated s b) es, Inr ())
      else ([], Inl ''No observer set''))"

definition set_basket :: "basket_manager \<Rightarrow> symbol \<Rightarrow> basket \<Rightarrow> basket_manager \<times> basket_notification list" where
  "set_basket m s b =
     (m\<lparr>baskets := (baskets m)(s \<mapsto> b)\<rparr>,
      if has_observer m
      then [if baskets m s = None then BasketAdded s b else BasketUpdated s b] else [])"

definition set_basket_from_definition ::
  "dec_ops \<Rightarrow> basket_manager \<Rightarrow> symbol \<Rightarrow> basket_definition \<Rightarrow> (symbol \<Rightarrow> amount option) \<Rightarrow> amount \<Rightarrow>
     basket_manager \<times> basket_notification list \<times> unit result" where
  "set_basket_from_definition D m s def individual_prices target_price =
     (case new_with_prices D def individual_prices target_price of
        Inl e \<Rightarrow> (m, [], Inl e)
      | Inr b \<Rightarrow> (let (m', evs) = set_basket m s b in (m', evs, Inr ())))"

definition remove_basket ::
  "basket_manager \<Rightarrow> symbol \<Rightarrow> basket_manager \<times> basket_notification list \<times> unit result" where
  "remove_basket m s =
     (case baskets m s of
        None \<Rightarrow> (m, [], Inl ''Basket does not exist'')
      | Some _ \<Rightarrow> (m\<lparr>baskets := (baskets m)(s := None)\<rparr>,
                  if has_observer m then [BasketRemoved s] else [], Inr ()))"

section \<open>Quantities and prices\<close>

declare sum_weights.simps [evals] normalize_weight_def [evals] try_new_def [evals]
  basket_quantity_def [evals] new_with_prices_def [evals] asset_value_def [evals]
  sum_values.simps [evals] get_current_price_def [evals] basket_manager_new_def [evals]
  set_basket_def [evals] remove_basket_def [evals] checked_math_def [evals]

text \<open>
  The documented contract of the decimal's multiplication and division: a successful result is
  within a rounding error \<open>e\<close> of the exact one, and division by zero is refused.
\<close>

definition dec_rounds :: "dec_ops \<Rightarrow> amount \<Rightarrow> bool" where
  "dec_rounds D e \<longleftrightarrow>
     (\<forall>a b c. dec_mul D a b = Some c \<longrightarrow> \<bar>c - a * b\<bar> \<le> e) \<and>
     (\<forall>a b c. dec_div D a b = Some c \<longrightarrow> b \<noteq> 0 \<and> \<bar>c - a / b\<bar> \<le> e)"

lemma dec_rounds_mul: "dec_mul D a b = Some c \<Longrightarrow> dec_rounds D e \<Longrightarrow> \<bar>c - a * b\<bar> \<le> e"
  by (simp add: dec_rounds_def)

lemma dec_rounds_div: "dec_div D a b = Some c \<Longrightarrow> dec_rounds D e \<Longrightarrow> b \<noteq> 0 \<and> \<bar>c - a / b\<bar> \<le> e"
  by (simp add: dec_rounds_def)

lemma dec_rounds_upto [simp, intro]: "0 \<le> e \<Longrightarrow> dec_rounds (dec_upto m) e"
  by (auto simp: dec_rounds_def split: if_splits)

lemma sum_weights_total:
  "sum_weights D acc ws = Some t \<Longrightarrow> dec_exact D \<Longrightarrow> t = acc + total weight ws"
  by (induction ws arbitrary: acc) (fastforce simp: bind_eq_Some_conv dest!: dec_add_exact)+

lemma sum_values_total:
  "sum_values D acc vs = Some t \<Longrightarrow> dec_exact D \<Longrightarrow> t = acc + sum_list vs"
  by (induction vs arbitrary: acc) (fastforce simp: bind_eq_Some_conv dest!: dec_add_exact)+

text \<open>A basket that is built has a nonzero quantity of every asset, hence a nonzero price for each.\<close>

lemma basket_quantity_nonzero:
  assumes "quantity (basket_quantity D prices target w) \<noteq> 0"
  obtains p q x where "prices (ticker (w_asset w)) = Some p \<or> prices (ticker (w_asset w)) = None \<and> p = 0"
    "dec_div D target p = Some q" "dec_mul D q (weight w) = Some x" "x \<noteq> 0"
    "basket_quantity D prices target w = \<lparr>ba_weight = w, quantity = x\<rparr>"
  using assms
  by (auto simp: basket_quantity_def checked_math_def Let_def bind_eq_Some_conv split: option.splits)

lemma new_with_prices_Inr:
  "new_with_prices D def prices target = Inr b \<longleftrightarrow>
     (\<forall>w\<in>set (weights def). quantity (basket_quantity D prices target w) \<noteq> 0) \<and>
     basket_assets b = map (basket_quantity D prices target) (weights def)"
  by (cases b) (auto simp: new_with_prices_def Let_def filter_empty_conv)

lemma ba_weight_basket_quantity [simp]: "ba_weight (basket_quantity D prices target w) = w"
  by (simp add: basket_quantity_def Let_def)

lemma rounding_of_product:
  assumes x: "\<bar>x - q * w\<bar> \<le> e" and q: "\<bar>q - t / p\<bar> \<le> e" and v: "\<bar>v - p * x\<bar> \<le> e" and p: "p \<noteq> 0"
  shows "\<bar>v - t * w\<bar> \<le> e * (1 + \<bar>p\<bar> * (1 + \<bar>w\<bar>) :: amount)"
proof -
  have "\<bar>p * (x - q * w)\<bar> \<le> \<bar>p\<bar> * e"
    using x by (simp add: abs_mult mult_left_mono)
  moreover have "\<bar>p * w * (q - t / p)\<bar> \<le> \<bar>p\<bar> * \<bar>w\<bar> * e"
    using q by (simp add: abs_mult mult_left_mono)
  moreover have "v - t * w = (v - p * x) + p * (x - q * w) + p * w * (q - t / p)"
    using p by (simp add: field_simps)
  ultimately have "\<bar>v - t * w\<bar> \<le> e + \<bar>p\<bar> * e + \<bar>p\<bar> * \<bar>w\<bar> * e"
    using v by linarith
  then show ?thesis by (simp add: algebra_simps)
qed

text \<open>The rounding error a basket's price may show: \<open>asset_error e prices w\<close> for one asset.\<close>

definition asset_error :: "amount \<Rightarrow> (symbol \<Rightarrow> amount option) \<Rightarrow> asset_weight \<Rightarrow> amount" where
  "asset_error e prices w =
     e * (1 + \<bar>the (prices (ticker (w_asset w)))\<bar> * (1 + \<bar>weight w\<bar>))"

lemma asset_value_near_target:
  assumes D: "dec_rounds D e"
    and nz: "quantity (basket_quantity D prices target w) \<noteq> 0"
    and v: "asset_value D prices (basket_quantity D prices target w) = Some v"
  shows "\<bar>v - target * weight w\<bar> \<le> asset_error e prices w"
proof -
  from v obtain p where p: "prices (ticker (w_asset w)) = Some p"
    and v': "dec_mul D p (quantity (basket_quantity D prices target w)) = Some v"
    by (auto simp: asset_value_def bind_eq_Some_conv)
  from basket_quantity_nonzero [OF nz] p obtain q x where
    q: "dec_div D target p = Some q" and x: "dec_mul D q (weight w) = Some x"
    and b: "basket_quantity D prices target w = \<lparr>ba_weight = w, quantity = x\<rparr>"
    by (metis option.distinct(1) option.inject)
  have "p \<noteq> 0" and "\<bar>q - target / p\<bar> \<le> e" using dec_rounds_div [OF q D] by auto
  moreover have "\<bar>x - q * weight w\<bar> \<le> e" by (rule dec_rounds_mul [OF x D])
  moreover have "\<bar>v - p * x\<bar> \<le> e" using dec_rounds_mul [OF v' D] b by simp
  ultimately show ?thesis using rounding_of_product p by (simp add: asset_error_def)
qed

lemma normalized_weights_near:
  assumes D: "dec_rounds D e" and all: "list_all (\<lambda>w. w \<noteq> None) (map (normalize_weight D t) ws)"
  shows "\<bar>total weight (map (\<lambda>w. the (normalize_weight D t w)) ws) - total weight ws / t\<bar>
           \<le> of_nat (length ws) * e"
  using all
proof (induction ws)
  case Nil
  then show ?case by simp
next
  case (Cons w ws)
  then obtain x where x: "dec_div D (weight w) t = Some x" by (auto simp: normalize_weight_def)
  then have "\<bar>weight (the (normalize_weight D t w)) - weight w / t\<bar> \<le> e"
    using dec_rounds_div [OF x D] by (simp add: normalize_weight_def)
  moreover have "\<bar>total weight (map (\<lambda>w. the (normalize_weight D t w)) ws) - total weight ws / t\<bar>
           \<le> of_nat (length ws) * e" using Cons by simp
  ultimately show ?case
    by (simp add: add_divide_distrib distrib_right)
qed

lemma sum_values_near:
  assumes "\<And>w. w \<in> set ws \<Longrightarrow> f w \<noteq> None"
    and "\<And>w v. w \<in> set ws \<Longrightarrow> f w = Some v \<Longrightarrow> \<bar>v - t * weight w\<bar> \<le> g w"
  shows "\<bar>sum_list (map (\<lambda>w. the (f w)) ws) - t * total weight ws\<bar> \<le> (total g ws :: amount)"
  using assms
proof (induction ws)
  case Nil
  then show ?case by simp
next
  case (Cons w ws)
  then obtain v where v: "f w = Some v" by (metis list.set_intros(1) option.exhaust)
  then have "\<bar>v - t * weight w\<bar> \<le> g w" using Cons.prems(2) by simp
  moreover have "\<bar>sum_list (map (\<lambda>w. the (f w)) ws) - t * total weight ws\<bar> \<le> total g ws"
    using Cons by simp
  ultimately show ?case using v by (simp add: distrib_left)
qed

lemma get_current_price_Inr:
  "get_current_price D b prices = Inr c \<longleftrightarrow>
     (\<forall>a\<in>set (basket_assets b). asset_value D prices a \<noteq> None) \<and>
     sum_values D 0 (map (\<lambda>a. the (asset_value D prices a)) (basket_assets b)) = Some c"
  by (auto simp: get_current_price_def Let_def filter_map filter_empty_conv ok_or_eq_Inr comp_def
      image_iff Ball_def split: if_splits dest: sym) (metis not_None_eq)

lemma try_new_Inr:
  "try_new D ws = Inr def \<longleftrightarrow>
     (\<exists>t. sum_weights D 0 ws = Some t \<and>
        list_all (\<lambda>w. w \<noteq> None) (map (normalize_weight D t) ws) \<and>
        weights def = map (\<lambda>w. the (normalize_weight D t w)) ws)"
  by (cases def) (auto simp: try_new_def Let_def result_simps)

text \<open>
  C35: a basket is worth what it was built for. Take weights normalized by try_new, a basket
  built from them with new_with_prices for a target price, and its get_current_price at the
  same prices. If the decimal rounds each product and quotient by at most e, the price differs
  from the target by at most n times e times the target (the normalization of n weights) plus,
  for each asset, e times 1 + price times (1 + weight).
\<close>

theorem basket_worth_its_target:
  assumes D: "dec_exact D" "dec_rounds D e" and ne: "ws \<noteq> []"
    and def: "try_new D ws = Inr def"
    and b: "new_with_prices D def prices target = Inr b"
    and c: "get_current_price D b prices = Inr c"
  shows "\<bar>c - target\<bar> \<le> \<bar>target\<bar> * (of_nat (length ws) * e) + total (asset_error e prices) (weights def)"
proof -
  from def obtain t where t: "sum_weights D 0 ws = Some t"
    and ok: "list_all (\<lambda>w. w \<noteq> None) (map (normalize_weight D t) ws)"
    and ws': "weights def = map (\<lambda>w. the (normalize_weight D t w)) ws"
    by (auto simp: try_new_Inr)
  from b have nz: "\<And>w. w \<in> set (weights def) \<Longrightarrow> quantity (basket_quantity D prices target w) \<noteq> 0"
    and assets: "basket_assets b = map (basket_quantity D prices target) (weights def)"
    by (auto simp: new_with_prices_Inr)
  let ?f = "\<lambda>w. asset_value D prices (basket_quantity D prices target w)"
  from c assets have some: "\<And>w. w \<in> set (weights def) \<Longrightarrow> ?f w \<noteq> None"
    and "sum_values D 0 (map (\<lambda>w. the (?f w)) (weights def)) = Some c"
    by (simp_all add: get_current_price_Inr comp_def)
  then have sum: "c = sum_list (map (\<lambda>w. the (?f w)) (weights def))"
    using sum_values_total D(1) by fastforce
  have value_near: "\<bar>c - target * total weight (weights def)\<bar> \<le> total (asset_error e prices) (weights def)"
    unfolding sum by (rule sum_values_near [OF some asset_value_near_target [OF D(2) nz]])
  have "total weight ws = t" using sum_weights_total [OF t D(1)] by simp
  moreover have "t \<noteq> 0" using ok ne D(2)
    by (cases ws) (auto simp: normalize_weight_def dest: dec_rounds_div)
  ultimately have "\<bar>total weight (weights def) - 1\<bar> \<le> of_nat (length ws) * e"
    using normalized_weights_near [OF D(2) ok] ws' by simp
  then have "\<bar>target * (total weight (weights def) - 1)\<bar> \<le> \<bar>target\<bar> * (of_nat (length ws) * e)"
    by (simp only: abs_mult) (rule mult_left_mono, simp_all)
  with value_near show ?thesis by (simp add: right_diff_distrib)
qed

definition demo_weights :: "asset_weight list" where
  "demo_weights =
     [\<lparr>w_asset = \<lparr>ticker = ''BTC'', listing = ''X''\<rparr>, weight = 1\<rparr>,
      \<lparr>w_asset = \<lparr>ticker = ''ETH'', listing = ''X''\<rparr>, weight = 3\<rparr>]"

definition demo_index_prices :: "symbol \<Rightarrow> amount option" where
  "demo_index_prices s = (if s = ''BTC'' then Some 50000 else if s = ''ETH'' then Some 6000 else None)"

declare demo_weights_def [evals] demo_index_prices_def [evals]

lemma basket_worth_its_target_witness:
  "\<exists>def b c. try_new (dec_upto 1000000) demo_weights = Inr def \<and>
     new_with_prices (dec_upto 1000000) def demo_index_prices 10000 = Inr b \<and>
     get_current_price (dec_upto 1000000) b demo_index_prices = Inr c \<and>
     \<bar>c - 10000\<bar> \<le> \<bar>10000\<bar> * (of_nat (length demo_weights) * 0) +
        total (asset_error 0 demo_index_prices) (weights def)"
proof -
  let ?D = "dec_upto 1000000"
  let ?def = "\<lparr>weights =
     [\<lparr>w_asset = \<lparr>ticker = ''BTC'', listing = ''X''\<rparr>, weight = 1 / 4\<rparr>,
      \<lparr>w_asset = \<lparr>ticker = ''ETH'', listing = ''X''\<rparr>, weight = 3 / 4\<rparr>]\<rparr>"
  let ?b = "projr (new_with_prices ?D ?def demo_index_prices 10000)"
  let ?c = "projr (get_current_price ?D ?b demo_index_prices)"
  have d: "try_new ?D demo_weights = Inr ?def" by (simp add: evals del: not_None_eq)
  moreover have b: "new_with_prices ?D ?def demo_index_prices 10000 = Inr ?b" by (simp add: evals)
  moreover have c: "get_current_price ?D ?b demo_index_prices = Inr ?c" by (simp add: evals)
  moreover have "demo_weights \<noteq> []" by (simp add: evals)
  ultimately show ?thesis
    using basket_worth_its_target [OF dec_exact_upto dec_rounds_upto [OF order_refl] _ d b c] by blast
qed

text \<open>
  A basket is only built when every asset of the definition has a price other than zero;
  it then lists exactly the definition's assets with their weights, in order, and no quantity
  is zero. A missing price is not reported as such: it counts as zero and ends in the error
  about numeric overflow.
\<close>

theorem new_with_prices_needs_prices:
  assumes D: "dec_rounds D e" and b: "new_with_prices D def prices target = Inr b"
  shows "weights_of_basket b = weights def \<and>
    (\<forall>w\<in>set (weights def). \<exists>p. prices (ticker (w_asset w)) = Some p \<and> p \<noteq> 0) \<and>
    (\<forall>a\<in>set (basket_assets b). quantity a \<noteq> 0)"
proof (intro conjI ballI)
  from b have nz: "\<forall>w\<in>set (weights def). quantity (basket_quantity D prices target w) \<noteq> 0"
    and assets: "basket_assets b = map (basket_quantity D prices target) (weights def)"
    by (auto simp: new_with_prices_Inr)
  from assets show "weights_of_basket b = weights def"
    by (simp add: weights_of_basket_def comp_def)
  from assets nz show "quantity a \<noteq> 0" if "a \<in> set (basket_assets b)" for a
    using that by auto
  show "\<exists>p. prices (ticker (w_asset w)) = Some p \<and> p \<noteq> 0" if "w \<in> set (weights def)" for w
  proof -
    have "quantity (basket_quantity D prices target w) \<noteq> 0" using nz that by blast
    from basket_quantity_nonzero [OF this] dec_rounds_div [OF _ D] show ?thesis by metis
  qed
qed

lemma new_with_prices_needs_prices_witness:
  "\<exists>b. new_with_prices (dec_upto 1000000) \<lparr>weights = demo_weights\<rparr> demo_index_prices 10000 = Inr b \<and>
     weights_of_basket b = demo_weights"
proof -
  let ?r = "new_with_prices (dec_upto 1000000) \<lparr>weights = demo_weights\<rparr> demo_index_prices 10000"
  have b: "?r = Inr (projr ?r)" by (simp add: evals)
  from new_with_prices_needs_prices [OF dec_rounds_upto [OF order_refl] b] b show ?thesis by auto
qed

section \<open>The events of the manager\<close>

datatype basket_call =
    SetBasket symbol basket
  | SetFromDefinition symbol basket_definition "symbol \<Rightarrow> amount option" amount
  | RemoveBasket symbol

fun basket_call_step :: "dec_ops \<Rightarrow> basket_manager \<times> basket_notification list \<Rightarrow> basket_call \<Rightarrow>
    basket_manager \<times> basket_notification list" where
  "basket_call_step D (m, published) (SetBasket s b) = (let (m', evs) = set_basket m s b in (m', published @ evs))"
| "basket_call_step D (m, published) (SetFromDefinition s def ps t) =
     (let (m', evs, _) = set_basket_from_definition D m s def ps t in (m', published @ evs))"
| "basket_call_step D (m, published) (RemoveBasket s) =
     (let (m', evs, _) = remove_basket m s in (m', published @ evs))"

text \<open>
  The reading of the events an observer makes: an addition must name an unknown symbol, an
  update and a removal a known one; anything else is a protocol error, \<open>None\<close>.
\<close>

fun read_notification :: "(symbol \<Rightarrow> basket option) \<Rightarrow> basket_notification \<Rightarrow>
    (symbol \<Rightarrow> basket option) option" where
  "read_notification known (BasketAdded s b) =
     (if known s = None then Some (known(s \<mapsto> b)) else None)"
| "read_notification known (BasketUpdated s b) =
     (if known s = None then None else Some (known(s \<mapsto> b)))"
| "read_notification known (BasketRemoved s) =
     (if known s = None then None else Some (known(s := None)))"

fun read_notifications :: "(symbol \<Rightarrow> basket option) \<Rightarrow> basket_notification list \<Rightarrow>
    (symbol \<Rightarrow> basket option) option" where
  "read_notifications known [] = Some known"
| "read_notifications known (e # es) =
     Option.bind (read_notification known e) (\<lambda>k. read_notifications k es)"

lemma read_notifications_append:
  "read_notifications known (es @ es') =
     Option.bind (read_notifications known es) (\<lambda>k. read_notifications k es')"
  by (induction es arbitrary: known) (simp_all split: bind_split)

definition observed :: "basket_manager \<times> basket_notification list \<Rightarrow> bool" where
  "observed st \<longleftrightarrow> has_observer (fst st) \<and>
     read_notifications (\<lambda>_. None) (snd st) = Some (baskets (fst st))"

lemma observed_step: "observed st \<Longrightarrow> observed (basket_call_step D st c)"
proof (cases c)
  case (SetBasket s b)
  then show "observed st \<Longrightarrow> ?thesis"
    by (cases st) (auto simp: observed_def set_basket_def read_notifications_append)
next
  case (SetFromDefinition s def ps t)
  then show "observed st \<Longrightarrow> ?thesis"
    by (cases st) (auto simp: observed_def set_basket_from_definition_def set_basket_def
        read_notifications_append Let_def split: sum.split)
next
  case (RemoveBasket s)
  then show "observed st \<Longrightarrow> ?thesis"
    by (cases st) (auto simp: observed_def remove_basket_def read_notifications_append split: option.splits)
qed

interpretation basket_events: reactive "basket_call_step D" "\<lambda>_ _. True" observed for D
  by unfold_locales (rule observed_step)

text \<open>
  C29: an observer that is set before the first call and reads every event the manager
  publishes, taking an addition of a known symbol or an update or removal of an unknown one
  for an error, never meets an error and always knows exactly the manager's baskets.
\<close>

theorem basket_events_mirror_manager:
  assumes "run (basket_call_step D) (basket_manager_new\<lparr>has_observer := True\<rparr>, []) calls = (m, published)"
  shows "read_notifications (\<lambda>_. None) published = Some (get_basket m)"
proof -
  have "observed (basket_manager_new\<lparr>has_observer := True\<rparr>, [])"
    by (simp add: observed_def basket_manager_new_def)
  from basket_events.run_inv [OF this, of D calls] assms show ?thesis
    by (simp add: observed_def get_basket_def [abs_def])
qed

lemma basket_events_mirror_manager_witness:
  "\<exists>m published. run (basket_call_step (dec_upto 9)) (basket_manager_new\<lparr>has_observer := True\<rparr>, [])
       [SetBasket ''I'' \<lparr>basket_assets = []\<rparr>, SetBasket ''I'' \<lparr>basket_assets = []\<rparr>, RemoveBasket ''I'',
        RemoveBasket ''J''] = (m, published) \<and> length published = 3 \<and>
     read_notifications (\<lambda>_. None) published = Some (get_basket m)"
proof -
  let ?r = "run (basket_call_step (dec_upto 9)) (basket_manager_new\<lparr>has_observer := True\<rparr>, [])
       [SetBasket ''I'' \<lparr>basket_assets = []\<rparr>, SetBasket ''I'' \<lparr>basket_assets = []\<rparr>, RemoveBasket ''I'',
        RemoveBasket ''J'']"
  have "?r = (fst ?r, snd ?r)" by simp
  moreover have "length (snd ?r) = 3" by (simp add: evals)
  ultimately show ?thesis using basket_events_mirror_manager by blast
qed

section \<open>All assets\<close>

lemma set_dedup_by_key: "k ` set (dedup_by_key k xs) = k ` set xs"
  by (induction k xs rule: dedup_by_key.induct) auto

lemma dedup_by_key_subset: "set (dedup_by_key k xs) \<subseteq> set xs"
  by (induction k xs rule: dedup_by_key.induct) auto

lemma dedup_by_key_strict:
  "sorted (map k xs) \<Longrightarrow> sorted_wrt (<) (map k (dedup_by_key k (xs :: 'a list)) :: 'k::linorder list)"
proof (induction k xs rule: dedup_by_key.induct)
  case (3 k x y ys)
  then show ?case
  proof (cases "k x = k y")
    case False
    have "k x < k z" if "z \<in> set (dedup_by_key k (y # ys))" for z
    proof -
      have "z \<in> set (y # ys)" using that dedup_by_key_subset by fastforce
      with "3.prems" False show ?thesis by (auto simp: less_le)
    qed
    with 3 False show ?thesis by auto
  qed auto
qed auto

text \<open>
  Get_all_assets lists every ticker of every basket exactly once, in increasing order,
  whatever the order in which the hash map lists its baskets.
\<close>

theorem get_all_assets_exactly_once:
  assumes "listing_of m es"
  shows "sorted_wrt (<) (map ticker (get_all_assets es)) \<and>
    ticker ` set (get_all_assets es) =
      {ticker (w_asset (ba_weight a)) | a s b. get_basket m s = Some b \<and> a \<in> set (basket_assets b)}"
proof
  show "sorted_wrt (<) (map ticker (get_all_assets es))"
    unfolding get_all_assets_def by (rule dedup_by_key_strict) simp
  from assms have "(s, b) \<in> set es \<longleftrightarrow> get_basket m s = Some b" for s b
    by (metis listing_of_def get_basket_def map_of_eq_Some_iff)
  then show "ticker ` set (get_all_assets es) =
      {ticker (w_asset (ba_weight a)) | a s b. get_basket m s = Some b \<and> a \<in> set (basket_assets b)}"
    unfolding get_all_assets_def set_dedup_by_key by force
qed

definition demo_listing :: "(symbol \<times> basket) list" where
  "demo_listing =
     [(''I'', \<lparr>basket_assets = map (\<lambda>w. \<lparr>ba_weight = w, quantity = 1\<rparr>) (rev demo_weights)\<rparr>),
      (''J'', \<lparr>basket_assets = map (\<lambda>w. \<lparr>ba_weight = w, quantity = 2\<rparr>) demo_weights\<rparr>)]"

lemma get_all_assets_exactly_once_witness:
  "sorted_wrt (<) (map ticker (get_all_assets demo_listing)) \<and>
   ''BTC'' \<in> ticker ` set (get_all_assets demo_listing)"
proof -
  let ?m = "\<lparr>baskets = map_of demo_listing, has_observer = False\<rparr>"
  have "listing_of ?m demo_listing" by (simp add: listing_of_def demo_listing_def)
  note all = get_all_assets_exactly_once [OF this]
  have "get_basket ?m ''J'' = Some \<lparr>basket_assets = map (\<lambda>w. \<lparr>ba_weight = w, quantity = 2\<rparr>) demo_weights\<rparr>"
    by (simp add: get_basket_def demo_listing_def)
  then have "''BTC'' \<in> ticker ` set (get_all_assets demo_listing)"
    unfolding all [THEN conjunct2] by (force simp: demo_weights_def)
  with all show ?thesis by blast
qed

end
