(* ===== verification/BatchPosition.thy ===== *)
theory BatchPosition
  imports SolverOrder
begin

text \<open>
  The positions of one batch, \<open>src/solver/batch_manager.rs\<close>: lots bought for the batch
  (\<open>BatchAssetLot\<close>), their allocation to index orders (\<open>BatchAssetPosition\<close>), the status of a
  batch (\<open>BatchOrderStatus\<close>) and what it carries over to the next one (\<open>BatchCarryOver\<close>). Hash maps
  are association lists with each key once; they are walked in list order where the code walks
  them in an unspecified one. The code gives up a computation at the first overflow and keeps
  what it has assigned by then: the operations return the state at that point. The sum of the
  remaining quantities in \<open>carry_over\<close> is the exact total.
\<close>

section \<open>Lots\<close>

record batch_asset_lot =
  bl_order_id :: order_id
  bl_lot_id :: lot_id
  bl_closing_lot_id :: "lot_id option"
  bl_original_quantity :: amount
  bl_remaining_quantity :: amount
  bl_price :: amount
  bl_fee :: amount
  bl_timestamp :: timestamp

definition build_solver_asset_lot ::
  "dec_ops \<Rightarrow> batch_asset_lot \<Rightarrow> symbol \<Rightarrow> amount \<Rightarrow> timestamp \<Rightarrow> solver_order_asset_lot option" where
  "build_solver_asset_lot D l sy quantity ts =
     Option.bind (dec_div D quantity (bl_original_quantity l)) (\<lambda>ratio.
       map_option (\<lambda>fee. \<lparr>al_lot_id = bl_lot_id l, al_symbol = sy, al_price = bl_price l,
           al_original_quantity = bl_original_quantity l,
           al_remaining_quantity = bl_remaining_quantity l, al_original_fee = bl_fee l,
           assigned_quantity = quantity, assigned_fee = fee,
           al_created_timestamp = bl_timestamp l, assigned_timestamp = ts\<rparr>)
         (dec_mul D (bl_fee l) ratio))"

text \<open>\<open>split\<close>: the lot left behind and the lot that carries its remaining quantity.\<close>

definition split_lot :: "batch_asset_lot \<Rightarrow> batch_asset_lot \<times> batch_asset_lot" where
  "split_lot l = (l\<lparr>bl_remaining_quantity := 0\<rparr>, l)"

section \<open>The position in one asset\<close>

record batch_asset_position =
  bp_symbol :: symbol
  bp_side :: side
  bp_position :: amount
  bp_order_quantity :: amount
  bp_realized_value :: amount
  bp_volley_size :: amount
  bp_fee :: amount
  bp_is_cancelled :: bool
  bp_quantity_cancelled :: amount
  bp_last_update_timestamp :: timestamp
  bp_open_lots :: "batch_asset_lot list"
  bp_closed_lots :: "batch_asset_lot list"

definition batch_asset_position_try_new ::
  "dec_ops \<Rightarrow> asset_order \<Rightarrow> timestamp \<Rightarrow> batch_asset_position option" where
  "batch_asset_position_try_new D ao ts =
     map_option (\<lambda>v. \<lparr>bp_symbol = ao_symbol ao, bp_side = ao_side ao, bp_position = 0,
         bp_order_quantity = ao_quantity ao, bp_realized_value = 0, bp_volley_size = v,
         bp_fee = 0, bp_is_cancelled = False, bp_quantity_cancelled = 0,
         bp_last_update_timestamp = ts, bp_open_lots = [], bp_closed_lots = []\<rparr>)
       (dec_mul D (ao_price ao) (ao_quantity ao))"

text \<open>\<open>push_allocation\<close>: the lot's allocation to the index order and the collateral spent so far.\<close>

definition push_allocation ::
  "dec_ops \<Rightarrow> symbol \<Rightarrow> timestamp \<Rightarrow> batch_asset_lot \<Rightarrow> amount \<Rightarrow> amount \<Rightarrow>
     (solver_order_asset_lot \<times> amount) option" where
  "push_allocation D sy ts l quantity spent = do {
     al \<leftarrow> build_solver_asset_lot D l sy quantity ts;
     c \<leftarrow> compute_collateral_spent D al;
     s \<leftarrow> dec_add D spent c;
     Some (al, s)
   }"

text \<open>
  The loop of \<open>try_allocate_lots\<close>: the open lots left, the lots closed, the allocations pushed,
  and the quantity left to allocate with the collateral spent. When the computation fails on a
  lot that was popped, that lot is in neither list.
\<close>

fun allocate_loop ::
  "dec_ops \<Rightarrow> symbol \<Rightarrow> amount \<Rightarrow> timestamp \<Rightarrow> batch_asset_lot list \<Rightarrow> amount \<Rightarrow> amount \<Rightarrow>
     batch_asset_lot list \<times> batch_asset_lot list \<times> solver_order_asset_lot list \<times>
     (amount \<times> amount) option" where
  "allocate_loop D sy tol ts [] quantity spent = ([], [], [], Some (quantity, spent))"
| "allocate_loop D sy tol ts (l # ls) quantity spent =
     (case dec_sub D quantity (bl_remaining_quantity l) of
        None \<Rightarrow> (l # ls, [], [], None)
      | Some rest \<Rightarrow>
          if - tol < rest then
            (case push_allocation D sy ts l (bl_remaining_quantity l) spent of
               None \<Rightarrow> (ls, [], [], None)
             | Some (al, spent') \<Rightarrow>
                 (case allocate_loop D sy tol ts ls rest spent' of
                    (kept, gone, als, r) \<Rightarrow>
                      (kept, l\<lparr>bl_remaining_quantity := 0\<rparr> # gone, al # als, r)))
          else
            (case push_allocation D sy ts l quantity spent of
               None \<Rightarrow> (l # ls, [], [], None)
             | Some (al, spent') \<Rightarrow>
                 (l\<lparr>bl_remaining_quantity := - rest\<rparr> # ls, [], [al], Some (0, spent'))))"

definition try_allocate_lots ::
  "dec_ops \<Rightarrow> batch_asset_position \<Rightarrow> solver_order \<Rightarrow> amount \<Rightarrow> amount \<Rightarrow> timestamp \<Rightarrow>
     batch_asset_position \<times> solver_order \<times> (amount \<times> amount) option" where
  "try_allocate_lots D p s quantity tol ts =
     (case allocate_loop D (bp_symbol p) tol ts (bp_open_lots p) quantity 0 of
        (kept, gone, als, r) \<Rightarrow>
          (p\<lparr>bp_open_lots := kept, bp_closed_lots := bp_closed_lots p @ gone\<rparr>,
           s\<lparr>lots := lots s @ als\<rparr>, r))"

section \<open>The status of a batch\<close>

type_synonym position_key = "symbol \<times> side"

record batch_carry_over =
  carried_position :: amount
  carried_lots :: "batch_asset_lot list"

record batch_order_status =
  bs_batch_order_id :: batch_order_id
  bs_positions :: "(position_key \<times> batch_asset_position) list"
  bs_volley_size :: amount
  bs_filled_volley :: amount
  bs_filled_fraction :: amount
  bs_realized_value :: amount
  bs_fee :: amount
  bs_is_cancelled :: bool
  bs_last_update_timestamp :: timestamp

definition batch_order_status_new :: "batch_order_id \<Rightarrow> timestamp \<Rightarrow> batch_order_status" where
  "batch_order_status_new bid ts = \<lparr>bs_batch_order_id = bid, bs_positions = [], bs_volley_size = 0,
     bs_filled_volley = 0, bs_filled_fraction = 0, bs_realized_value = 0, bs_fee = 0,
     bs_is_cancelled = False, bs_last_update_timestamp = ts\<rparr>"

definition try_add_position ::
  "dec_ops \<Rightarrow> batch_order_status \<Rightarrow> asset_order \<Rightarrow> timestamp \<Rightarrow> batch_order_status option" where
  "try_add_position D b ao ts =
     (let k = (ao_symbol ao, ao_side ao)
      in case map_of (bs_positions b) k of
           Some p \<Rightarrow>
             map_option (\<lambda>q. b\<lparr>bs_positions := put_assoc k (p\<lparr>bp_order_quantity := q\<rparr>) (bs_positions b)\<rparr>)
               (dec_add D (bp_order_quantity p) (ao_quantity ao))
         | None \<Rightarrow> do {
             p \<leftarrow> batch_asset_position_try_new D ao ts;
             v \<leftarrow> dec_add D (bs_volley_size b) (bp_volley_size p);
             Some (b\<lparr>bs_volley_size := v, bs_positions := put_assoc k p (bs_positions b)\<rparr>)
           })"

definition batch_fill ::
  "dec_ops \<Rightarrow> batch_asset_lot \<Rightarrow> batch_order_status \<times> batch_asset_position \<Rightarrow>
     (batch_order_status \<times> batch_asset_position) \<times> unit result" where
  "batch_fill D l bp0 =
     (let (b0, p0) = bp0; quantity = bl_original_quantity l in
      attempt (b0, p0) (dec_add D (bp_position p0) quantity) (\<lambda>x.
      let p1 = p0\<lparr>bp_position := x\<rparr> in
      attempt (b0, p1) (dec_div D quantity (bp_order_quantity p1)) (\<lambda>fraction_delta.
      attempt (b0, p1) (dec_mul D fraction_delta (bp_volley_size p1)) (\<lambda>asset_volley.
      attempt (b0, p1) (dec_add D (bs_filled_volley b0) asset_volley) (\<lambda>x.
      let b1 = b0\<lparr>bs_filled_volley := x\<rparr> in
      attempt (b1, p1) (dec_div D (bs_filled_volley b1) (bs_volley_size b1)) (\<lambda>x.
      let b2 = b1\<lparr>bs_filled_fraction := x\<rparr> in
      attempt (b2, p1) (dec_mul D quantity (bl_price l)) (\<lambda>filled_value.
      attempt (b2, p1) (dec_add D (bp_realized_value p1) filled_value) (\<lambda>x.
      let p2 = p1\<lparr>bp_realized_value := x\<rparr> in
      attempt (b2, p2) (dec_add D (bs_realized_value b2) filled_value) (\<lambda>x.
      let b3 = b2\<lparr>bs_realized_value := x\<rparr> in
      attempt (b3, p2) (dec_add D (bp_fee p2) (bl_fee l)) (\<lambda>x.
      let p3 = p2\<lparr>bp_fee := x\<rparr> in
      attempt (b3, p3) (dec_add D (bs_fee b3) (bl_fee l)) (\<lambda>x.
      ((b3\<lparr>bs_fee := x, bs_last_update_timestamp := bl_timestamp l\<rparr>,
        p3\<lparr>bp_open_lots := bp_open_lots p3 @ [l], bp_last_update_timestamp := bl_timestamp l\<rparr>),
       Inr ()))))))))))))"

definition batch_update ::
  "dec_ops \<Rightarrow> batch_order_status \<Rightarrow> order_id \<Rightarrow> lot_id \<Rightarrow> lot_id option \<Rightarrow> position_key \<Rightarrow>
     amount \<Rightarrow> amount \<Rightarrow> amount \<Rightarrow> timestamp \<Rightarrow> batch_order_status \<times> unit result" where
  "batch_update D b oid lid closing k price quantity fee ts =
     (case map_of (bs_positions b) k of
        None \<Rightarrow> (b, Inl ''Cannot find position'')
      | Some p \<Rightarrow>
          (let l = \<lparr>bl_order_id = oid, bl_lot_id = lid, bl_closing_lot_id = closing,
                    bl_original_quantity = quantity, bl_remaining_quantity = quantity,
                    bl_price = price, bl_fee = fee, bl_timestamp = ts\<rparr>;
               ((b', p'), r) = batch_fill D l (b, p)
           in (b'\<lparr>bs_positions := put_assoc k p' (bs_positions b')\<rparr>, r)))"

definition all_cancelled :: "batch_order_status \<Rightarrow> bool" where
  "all_cancelled b \<longleftrightarrow> list_all (\<lambda>(_, p). bp_is_cancelled p) (bs_positions b)"

definition batch_cancel ::
  "batch_order_status \<Rightarrow> position_key \<Rightarrow> amount \<Rightarrow> bool \<Rightarrow> timestamp \<Rightarrow> batch_order_status \<times> unit result" where
  "batch_cancel b k quantity_cancelled is_cancelled ts =
     (case map_of (bs_positions b) k of
        None \<Rightarrow> (b, Inl ''Missing Position'')
      | Some p \<Rightarrow>
          (let p' = p\<lparr>bp_is_cancelled := is_cancelled, bp_quantity_cancelled := quantity_cancelled,
                      bp_last_update_timestamp := ts\<rparr>;
               b' = b\<lparr>bs_positions := put_assoc k p' (bs_positions b)\<rparr>
           in (if all_cancelled b' then b'\<lparr>bs_is_cancelled := True\<rparr> else b', Inr ())))"

section \<open>Carrying over\<close>

type_synonym carry_overs = "(position_key \<times> batch_carry_over) list"

definition remaining_of :: "batch_asset_lot list \<Rightarrow> amount" where
  "remaining_of ls = total bl_remaining_quantity ls"

text \<open>One position: what stays of it, what is carried, and whether the sum could be made.\<close>

definition carry_position ::
  "dec_ops \<Rightarrow> position_key \<Rightarrow> batch_asset_position \<Rightarrow> carry_overs \<Rightarrow>
     batch_asset_position \<times> carry_overs \<times> bool" where
  "carry_position D k p carry =
     (case bp_open_lots p of
        [] \<Rightarrow> (p, carry, True)
      | l # ls \<Rightarrow>
          (let (left, carried) = split_lot l;
               p' = p\<lparr>bp_open_lots := [left]\<rparr>;
               moved = carried # ls;
               quantity = remaining_of moved
           in case map_of carry k of
                None \<Rightarrow> (p', put_assoc k \<lparr>carried_position = quantity, carried_lots = moved\<rparr> carry, True)
              | Some c \<Rightarrow>
                  (case dec_add D (carried_position c) quantity of
                     None \<Rightarrow> (p', carry, False)
                   | Some q \<Rightarrow>
                       (p', put_assoc k \<lparr>carried_position = q, carried_lots = carried_lots c @ moved\<rparr> carry,
                        True))))"

fun carry_over_loop ::
  "dec_ops \<Rightarrow> (position_key \<times> batch_asset_position) list \<Rightarrow> carry_overs \<Rightarrow>
     (position_key \<times> batch_asset_position) list \<times> carry_overs \<times> bool" where
  "carry_over_loop D [] carry = ([], carry, True)"
| "carry_over_loop D ((k, p) # ps) carry =
     (case carry_position D k p carry of
        (p', carry', False) \<Rightarrow> ((k, p') # ps, carry', False)
      | (p', carry', True) \<Rightarrow>
          (case carry_over_loop D ps carry' of (ps', carry'', ok) \<Rightarrow> ((k, p') # ps', carry'', ok)))"

definition carry_over ::
  "dec_ops \<Rightarrow> batch_order_status \<Rightarrow> carry_overs \<Rightarrow> batch_order_status \<times> carry_overs \<times> unit result" where
  "carry_over D b carry =
     (case carry_over_loop D (bs_positions b) carry of
        (ps, carry', ok) \<Rightarrow>
          (b\<lparr>bs_positions := ps\<rparr>, carry',
           if ok then Inr () else Inl ''Failed to compute carried over position''))"

fun carry_in_loop ::
  "dec_ops \<Rightarrow> (position_key \<times> batch_asset_position) list \<Rightarrow> carry_overs \<Rightarrow>
     (position_key \<times> batch_asset_position) list \<times> carry_overs \<times> (position_key \<times> amount) list result" where
  "carry_in_loop D [] carry = ([], carry, Inr [])"
| "carry_in_loop D ((k, p) # ps) carry =
     (case map_of carry k of
        None \<Rightarrow> (case carry_in_loop D ps carry of (ps', carry', r) \<Rightarrow> ((k, p) # ps', carry', r))
      | Some c \<Rightarrow>
          (let carry' = filter (\<lambda>(k', _). k' \<noteq> k) carry;
               p' = p\<lparr>bp_open_lots := bp_open_lots p @ carried_lots c\<rparr>
           in case dec_add D (bp_position p') (carried_position c) of
                None \<Rightarrow> ((k, p') # ps, carry', Inl ''Math Problem'')
              | Some x \<Rightarrow>
                  (case carry_in_loop D ps carry' of (ps', carry'', r) \<Rightarrow>
                     ((k, p'\<lparr>bp_position := x\<rparr>) # ps', carry'',
                      rbind r (\<lambda>m. Inr ((k, carried_position c) # m))))))"

definition carry_in ::
  "dec_ops \<Rightarrow> batch_order_status \<Rightarrow> carry_overs \<Rightarrow>
     batch_order_status \<times> carry_overs \<times> (position_key \<times> amount) list result" where
  "carry_in D b carry =
     (case carry_in_loop D (bs_positions b) carry of
        (ps, carry', r) \<Rightarrow> (b\<lparr>bs_positions := ps\<rparr>, carry', r))"

section \<open>What an allocation moves\<close>

declare build_solver_asset_lot_def [evals] batch_asset_position_try_new_def [evals]
  push_allocation_def [evals] try_allocate_lots_def [evals] batch_order_status_new_def [evals]
  try_add_position_def [evals] attempt_def [evals] batch_fill_def [evals] batch_update_def [evals]
  all_cancelled_def [evals] batch_cancel_def [evals] remaining_of_def [evals] split_lot_def [evals]
  carry_position_def [evals] carry_over_def [evals] carry_in_def [evals] compute_collateral_spent_def [evals] checked_math_def [evals]

lemma push_allocation_Some:
  "push_allocation D sy ts l q spent = Some (al, s) \<Longrightarrow> dec_exact D \<Longrightarrow>
     assigned_quantity al = q \<and> al_lot_id al = bl_lot_id l \<and> al_symbol al = sy \<and>
     (\<exists>c. compute_collateral_spent D al = Some c \<and> s = spent + c)"
  by (auto simp: push_allocation_def build_solver_asset_lot_def bind_eq_Some_conv dest!: dec_add_exact)

definition assigned_of :: "solver_order_asset_lot list \<Rightarrow> amount" where
  "assigned_of als = total assigned_quantity als"

definition spent_of :: "dec_ops \<Rightarrow> solver_order_asset_lot list \<Rightarrow> amount" where
  "spent_of D als = total (\<lambda>al. the (compute_collateral_spent D al)) als"

lemma lot_totals_simps [simp]:
  "remaining_of [] = 0" "remaining_of (l # ls) = bl_remaining_quantity l + remaining_of ls"
  "remaining_of (ls @ ls') = remaining_of ls + remaining_of ls'"
  "assigned_of [] = 0" "assigned_of (al # als) = assigned_quantity al + assigned_of als"
  "assigned_of (als @ als') = assigned_of als + assigned_of als'"
  "spent_of D [] = 0" "spent_of D (al # als) = the (compute_collateral_spent D al) + spent_of D als"
  by (simp_all add: remaining_of_def assigned_of_def spent_of_def)

lemma allocate_loop_exact:
  assumes D: "dec_exact D"
  shows "allocate_loop D sy tol ts ls q spent = (kept, gone, als, Some (rest, spent')) \<Longrightarrow>
    assigned_of als + rest = q \<and> remaining_of kept + assigned_of als = remaining_of ls \<and>
    spent' = spent + spent_of D als \<and> (\<forall>al\<in>set als. al_symbol al = sy)"
proof (induction ls arbitrary: q spent kept gone als)
  case Nil
  then show ?case by simp
next
  case (Cons l ls)
  from Cons.prems obtain r where r: "dec_sub D q (bl_remaining_quantity l) = Some r"
    by (auto split: option.splits)
  then have r': "r = q - bl_remaining_quantity l" using D by (auto dest!: dec_sub_exact)
  show ?case
  proof (cases "- tol < r")
    case True
    with Cons.prems r obtain al s kept' gone' als' where
      push: "push_allocation D sy ts l (bl_remaining_quantity l) spent = Some (al, s)"
      and loop: "allocate_loop D sy tol ts ls r s = (kept', gone', als', Some (rest, spent'))"
      and eqs: "kept = kept'" "als = al # als'"
      by (auto split: option.splits prod.splits)
    from Cons.IH [OF loop] push_allocation_Some [OF push D] r' eqs show ?thesis by auto
  next
    case False
    with Cons.prems r obtain al s where
      push: "push_allocation D sy ts l q spent = Some (al, s)"
      and eqs: "kept = l\<lparr>bl_remaining_quantity := - r\<rparr> # ls" "als = [al]" "rest = 0" "spent' = s"
      by (auto split: option.splits)
    from push_allocation_Some [OF push D] r' eqs show ?thesis by auto
  qed
qed

text \<open>Lots with enough in them are never short, and are overdrawn by less than the tolerance.\<close>

lemma allocate_loop_enough:
  assumes D: "dec_exact D" and tol: "0 < tol"
  shows "allocate_loop D sy tol ts ls q spent = (kept, gone, als, Some (rest, spent')) \<Longrightarrow>
    - tol < q \<Longrightarrow> q \<le> remaining_of ls \<Longrightarrow> - tol < rest \<and> rest \<le> 0"
proof (induction ls arbitrary: q spent kept gone als)
  case Nil
  then show ?case by simp
next
  case (Cons l ls)
  from Cons.prems(1) obtain r where r: "dec_sub D q (bl_remaining_quantity l) = Some r"
    by (auto split: option.splits)
  then have r': "r = q - bl_remaining_quantity l" using D by (auto dest!: dec_sub_exact)
  show ?case
  proof (cases "- tol < r")
    case True
    with Cons.prems(1) r obtain al s kept' gone' als' where
      "allocate_loop D sy tol ts ls r s = (kept', gone', als', Some (rest, spent'))"
      by (auto split: option.splits prod.splits)
    with Cons.IH Cons.prems True r' show ?thesis by auto
  next
    case False
    with Cons.prems(1) r tol show ?thesis by (auto split: option.splits)
  qed
qed

lemma try_allocate_lots_moves:
  assumes D: "dec_exact D" and tol: "0 < tol"
    and r: "try_allocate_lots D p s quantity tol ts = (p', s', Some (rest, spent))"
  shows "\<exists>als. lots s' = lots s @ als \<and> assigned_of als + rest = quantity \<and>
    remaining_of (bp_open_lots p') + assigned_of als = remaining_of (bp_open_lots p) \<and>
    spent = spent_of D als \<and> (\<forall>al\<in>set als. al_symbol al = bp_symbol p) \<and>
    (0 \<le> quantity \<and> quantity \<le> remaining_of (bp_open_lots p) \<longrightarrow> - tol < rest \<and> rest \<le> 0)"
proof -
  obtain kept gone als x where
    loop: "allocate_loop D (bp_symbol p) tol ts (bp_open_lots p) quantity 0 = (kept, gone, als, x)"
    by (metis prod_cases4)
  with r have x: "x = Some (rest, spent)"
    and eqs: "p' = p\<lparr>bp_open_lots := kept, bp_closed_lots := bp_closed_lots p @ gone\<rparr>"
      "s' = s\<lparr>lots := lots s @ als\<rparr>"
    by (auto simp: try_allocate_lots_def)
  from allocate_loop_exact [OF D loop [unfolded x]] allocate_loop_enough [OF D tol loop [unfolded x]] tol
  show ?thesis using eqs by (intro exI [of _ als]) auto
qed

text \<open>
  Allocating lots to an index order moves quantity and nothing else. What is assigned to
  the order together with the quantity left over is exactly what was asked for, the open lots
  lose exactly what was assigned, the allocations are of the position's own asset, and the
  collateral reported spent is the sum over the new allocations. When the open lots hold
  enough, nothing is left over, and the order is overdrawn by less than the tolerance.
\<close>

theorem allocation_moves_lots:
  assumes D: "dec_exact D" and tol: "0 < tol"
    and r: "try_allocate_lots D p s quantity tol ts = (p', s', Some (rest, spent))"
  shows "\<exists>als. lots s' = lots s @ als \<and> assigned_of als + rest = quantity \<and>
    remaining_of (bp_open_lots p') + assigned_of als = remaining_of (bp_open_lots p) \<and>
    spent = spent_of D als \<and> (\<forall>al\<in>set als. al_symbol al = bp_symbol p) \<and>
    (0 \<le> quantity \<and> quantity \<le> remaining_of (bp_open_lots p) \<longrightarrow> - tol < rest \<and> rest \<le> 0)"
  using assms by (rule try_allocate_lots_moves)

definition demo_batch_lot :: "lot_id \<Rightarrow> amount \<Rightarrow> batch_asset_lot" where
  "demo_batch_lot i q = \<lparr>bl_order_id = ''o'', bl_lot_id = i, bl_closing_lot_id = None,
     bl_original_quantity = q, bl_remaining_quantity = q, bl_price = 10, bl_fee = 1, bl_timestamp = 0\<rparr>"

definition demo_batch_position :: batch_asset_position where
  "demo_batch_position = \<lparr>bp_symbol = ''BTC'', bp_side = Buy, bp_position = 5, bp_order_quantity = 5,
     bp_realized_value = 50, bp_volley_size = 50, bp_fee = 2, bp_is_cancelled = False,
     bp_quantity_cancelled = 0, bp_last_update_timestamp = 0,
     bp_open_lots = [demo_batch_lot ''a'' 2, demo_batch_lot ''b'' 3], bp_closed_lots = []\<rparr>"

definition demo_batch_order :: solver_order where
  "demo_batch_order = solver_order_new (1, 2) ''c'' ''IDX'' Buy 100 0"

declare demo_batch_lot_def [evals] demo_batch_position_def [evals] demo_batch_order_def [evals]
  solver_order_new_def [evals]

theorem allocation_moves_lots_witness:
  "\<exists>p' s' als. try_allocate_lots (dec_upto 1000) demo_batch_position demo_batch_order 4 (1/100) 7 =
       (p', s', Some (0, 125/3)) \<and> lots s' = lots demo_batch_order @ als \<and> assigned_of als + 0 = 4"
proof -
  let ?r = "try_allocate_lots (dec_upto 1000) demo_batch_position demo_batch_order 4 (1/100) 7"
  have "snd (snd ?r) = Some (0, 125/3)" by (simp add: evals)
  then have r: "?r = (fst ?r, fst (snd ?r), Some (0, 125/3))" by (metis prod.collapse)
  from allocation_moves_lots [OF dec_exact_upto _ r] r show ?thesis by auto
qed

text \<open>
  A request that the front lot covers exactly still takes from the next lot: the order is
  given a second allocation, of quantity zero.
\<close>

theorem exact_lot_adds_empty_allocation:
  assumes D: "dec_exact D" and tol: "0 < tol"
    and lots: "bp_open_lots p = l # l' # ls" "bl_remaining_quantity l = quantity"
      "tol \<le> bl_remaining_quantity l'"
    and r: "try_allocate_lots D p s quantity tol ts = (p', s', Some (rest, spent))"
  shows "\<exists>al al'. lots s' = lots s @ [al, al'] \<and> assigned_quantity al = quantity \<and>
    al_lot_id al' = bl_lot_id l' \<and> assigned_quantity al' = 0"
proof -
  from r lots obtain x where x: "dec_sub D quantity quantity = Some x"
    by (auto simp: try_allocate_lots_def split: option.splits)
  then have "x = 0" using D by (auto dest!: dec_sub_exact)
  with r lots x tol obtain al sp rem where
    al: "push_allocation D (bp_symbol p) ts l quantity 0 = Some (al, sp)"
    and rem: "dec_sub D 0 (bl_remaining_quantity l') = Some rem"
    by (auto simp: try_allocate_lots_def split: option.splits prod.splits)
  from rem D lots(3) have small: "\<not> - tol < rem" by (auto dest!: dec_sub_exact)
  with r lots x \<open>x = 0\<close> tol al rem obtain al' sp' where
    al': "push_allocation D (bp_symbol p) ts l' 0 sp = Some (al', sp')"
    by (auto simp: try_allocate_lots_def split: option.splits)
  from r lots x \<open>x = 0\<close> tol al rem small al' have "lots s' = lots s @ [al, al']"
    by (auto simp: try_allocate_lots_def)
  with push_allocation_Some [OF al D] push_allocation_Some [OF al' D] show ?thesis by auto
qed

theorem exact_lot_adds_empty_allocation_witness:
  "\<exists>al al'. lots (fst (snd (try_allocate_lots (dec_upto 1000) demo_batch_position demo_batch_order 2 (1/100) 7))) =
      lots demo_batch_order @ [al, al'] \<and> al_lot_id al' = ''b'' \<and> assigned_quantity al' = 0"
proof -
  let ?r = "try_allocate_lots (dec_upto 1000) demo_batch_position demo_batch_order 2 (1/100) 7"
  have "snd (snd ?r) = Some (0, 21)" by (simp add: evals)
  then have r: "?r = (fst ?r, fst (snd ?r), Some (0, 21))" by (metis prod.collapse)
  have l: "bp_open_lots demo_batch_position = demo_batch_lot ''a'' 2 # demo_batch_lot ''b'' 3 # []"
    by (simp add: demo_batch_position_def)
  from exact_lot_adds_empty_allocation [OF dec_exact_upto _ l _ _ r] show ?thesis
    by (auto simp: demo_batch_lot_def)
qed

section \<open>What is carried from batch to batch\<close>

definition open_of :: "batch_order_status \<Rightarrow> amount" where
  "open_of b = total_vals (\<lambda>p. remaining_of (bp_open_lots p)) (bs_positions b)"

definition carried_of :: "carry_overs \<Rightarrow> amount" where
  "carried_of carry = total_vals (\<lambda>c. remaining_of (carried_lots c)) carry"

text \<open>An entry's quantity is that of its lots, and every asset has one entry.\<close>

definition carry_ok :: "carry_overs \<Rightarrow> bool" where
  "carry_ok carry \<longleftrightarrow> distinct (map fst carry) \<and>
     (\<forall>(k, c)\<in>set carry. carried_position c = remaining_of (carried_lots c))"

lemma carry_ok_get: "carry_ok carry \<Longrightarrow> map_of carry k = Some c \<Longrightarrow> carried_position c = remaining_of (carried_lots c)"
  by (auto simp: carry_ok_def dest!: map_of_SomeD)

lemma carry_ok_put:
  "carry_ok carry \<Longrightarrow> carried_position c = remaining_of (carried_lots c) \<Longrightarrow> carry_ok (put_assoc k c carry)"
  by (auto simp: carry_ok_def intro: put_assoc_distinct dest!: set_put_assoc)

lemma carry_ok_remove: "carry_ok carry \<Longrightarrow> carry_ok (filter (\<lambda>(k', _). k' \<noteq> k) carry)"
  by (auto simp: carry_ok_def intro: distinct_map_filter)

lemma carry_position_moves:
  assumes D: "dec_exact D" and r: "carry_position D k p carry = (p', carry', True)" and ok: "carry_ok carry"
  shows "remaining_of (bp_open_lots p') = 0 \<and>
    carried_of carry' = remaining_of (bp_open_lots p) + carried_of carry \<and> carry_ok carry'"
proof (cases "bp_open_lots p")
  case Nil
  with r ok show ?thesis by (auto simp: carry_position_def)
next
  case (Cons l ls)
  show ?thesis
  proof (cases "map_of carry k")
    case None
    with r Cons ok show ?thesis
      by (auto simp: carry_position_def split_lot_def Let_def carried_of_def total_put_assoc intro!: carry_ok_put)
  next
    case (Some c)
    with r Cons obtain q where q: "dec_add D (carried_position c) (remaining_of (l # ls)) = Some q"
      by (auto simp: carry_position_def split_lot_def Let_def split: option.splits)
    with D have "q = carried_position c + remaining_of (l # ls)" by (auto dest!: dec_add_exact)
    with r Cons Some q ok carry_ok_get [OF ok Some] show ?thesis
      by (auto simp: carry_position_def split_lot_def Let_def carried_of_def total_put_assoc intro!: carry_ok_put)
  qed
qed

lemma carry_over_loop_moves:
  assumes D: "dec_exact D"
  shows "carry_over_loop D ps carry = (ps', carry', True) \<Longrightarrow> carry_ok carry \<Longrightarrow>
    total_vals (\<lambda>p. remaining_of (bp_open_lots p)) ps' = 0 \<and>
    carried_of carry' = total_vals (\<lambda>p. remaining_of (bp_open_lots p)) ps + carried_of carry \<and>
    carry_ok carry'"
proof (induction ps arbitrary: carry ps')
  case (Cons x ps)
  obtain k p where x: "x = (k, p)" by fastforce
  with Cons.prems obtain p' c1 ps1 where
    step: "carry_position D k p carry = (p', c1, True)" and
    rest: "carry_over_loop D ps c1 = (ps1, carry', True)" and ps': "ps' = (k, p') # ps1"
    by (auto split: prod.splits bool.splits)
  from carry_position_moves [OF D step Cons.prems(2)] Cons.IH [OF rest] x ps' show ?case by auto
qed auto

lemma carry_in_loop_moves:
  assumes D: "dec_exact D"
  shows "carry_in_loop D ps carry = (ps', carry', Inr m) \<Longrightarrow> carry_ok carry \<Longrightarrow>
    total_vals (\<lambda>p. remaining_of (bp_open_lots p)) ps' + carried_of carry' =
      total_vals (\<lambda>p. remaining_of (bp_open_lots p)) ps + carried_of carry \<and>
    carry_ok carry' \<and> map fst ps' = map fst ps \<and>
    set (map fst carry') = set (map fst carry) - set (map fst ps)"
proof (induction ps arbitrary: carry ps' m)
  case (Cons x ps)
  obtain k p where x: "x = (k, p)" by fastforce
  show ?case
  proof (cases "map_of carry k")
    case None
    with Cons.prems x obtain ps1 where rest: "carry_in_loop D ps carry = (ps1, carry', Inr m)"
      and ps': "ps' = (k, p) # ps1" by (auto split: prod.splits)
    from None have "k \<notin> set (map fst carry)" by (simp add: map_of_eq_None_iff)
    with Cons.IH [OF rest Cons.prems(2)] x ps' show ?thesis by auto
  next
    case (Some c)
    let ?carry = "filter (\<lambda>(k', _). k' \<noteq> k) carry"
    from Cons.prems x Some obtain v ps1 m' where
      rest: "carry_in_loop D ps ?carry = (ps1, carry', Inr m')"
      and ps': "ps' = (k, p\<lparr>bp_open_lots := bp_open_lots p @ carried_lots c, bp_position := v\<rparr>) # ps1"
      by (auto simp: result_simps Let_def split: prod.splits option.splits)
    have "carried_of ?carry + remaining_of (carried_lots c) = carried_of carry"
      using Cons.prems(2) total_removed_key [OF _ Some] unfolding carried_of_def carry_ok_def by blast
    moreover have "set (map fst ?carry) = set (map fst carry) - {k}" by force
    ultimately show ?thesis
      using Cons.IH [OF rest carry_ok_remove [OF Cons.prems(2)]] x ps' by auto
  qed
qed auto

text \<open>
  C22: what one batch does not allocate reaches the next. Carrying over empties the batch's open
  lots into the carried ones; carrying in gives a later batch the carried lots of every asset it
  trades, and keeps the rest. No quantity is lost or added on the way, and the carried
  quantities stay those of the carried lots.
\<close>

theorem carry_round_trip:
  assumes D: "dec_exact D" and ok: "carry_ok carry"
    and out: "carry_over D b carry = (b1, carry1, Inr ())"
    and in': "carry_in D b2 carry1 = (b3, carry2, Inr m)"
  shows "open_of b1 = 0 \<and>
    open_of b3 + carried_of carry2 = open_of b + carried_of carry + open_of b2 \<and>
    set (map fst carry2) = set (map fst carry1) - set (map fst (bs_positions b2)) \<and> carry_ok carry2"
proof -
  from out obtain ps where ps: "carry_over_loop D (bs_positions b) carry = (ps, carry1, True)"
    and b1: "b1 = b\<lparr>bs_positions := ps\<rparr>" by (auto simp: carry_over_def split: prod.splits if_splits)
  note moved = carry_over_loop_moves [OF D ps ok]
  from in' obtain qs where qs: "carry_in_loop D (bs_positions b2) carry1 = (qs, carry2, Inr m)"
    and b3: "b3 = b2\<lparr>bs_positions := qs\<rparr>" by (auto simp: carry_in_def split: prod.splits)
  from carry_in_loop_moves [OF D qs] moved b1 b3 show ?thesis by (auto simp: open_of_def)
qed

definition demo_batch_status :: batch_order_status where
  "demo_batch_status = (batch_order_status_new ''B1'' 0)
     \<lparr>bs_positions := [((''BTC'', Buy), demo_batch_position)]\<rparr>"

definition demo_next_status :: batch_order_status where
  "demo_next_status = (batch_order_status_new ''B2'' 0)
     \<lparr>bs_positions := [((''BTC'', Buy), demo_batch_position\<lparr>bp_position := 0, bp_open_lots := []\<rparr>)]\<rparr>"

declare demo_batch_status_def [evals] demo_next_status_def [evals]

theorem carry_round_trip_witness:
  "\<exists>b1 carry1 b3 m. carry_over (dec_upto 1000) demo_batch_status [] = (b1, carry1, Inr ()) \<and>
     carry_in (dec_upto 1000) demo_next_status carry1 = (b3, [], Inr m) \<and> open_of b3 = 5"
proof -
  let ?D = "dec_upto 1000"
  let ?o = "carry_over ?D demo_batch_status []"
  let ?c = "fst (snd ?o)"
  let ?i = "carry_in ?D demo_next_status ?c"
  have "snd (snd ?o) = Inr ()" by (simp add: evals)
  then have o: "?o = (fst ?o, ?c, Inr ())" by (metis prod.collapse)
  have "fst (snd ?i) = []" "snd (snd ?i) = Inr [((''BTC'', Buy), 5)]" by (simp_all add: evals)
  then have i: "?i = (fst ?i, [], Inr [((''BTC'', Buy), 5)])" by (metis prod.collapse)
  have "carry_ok []" by (simp add: carry_ok_def)
  from carry_round_trip [OF dec_exact_upto this o i] have "open_of (fst ?i) = 5"
    by (simp add: open_of_def carried_of_def evals)
  with o i show ?thesis by blast
qed

end
