(* ===== verification/BatchManager.thy ===== *)
theory BatchManager
  imports BatchPosition Basket
begin

text \<open>
  The batch manager, \<open>src/solver/batch_manager.rs\<close>, with the engagement records of
  \<open>src/solver/solver.rs\<close>. The solver orders it shares with the solver live in a heap and are
  referred to by their index, as are the batch statuses, which the manager's map shares with the
  call that created them. Hash maps are association lists with each key once. What the manager
  asks of its host (\<open>BatchManagerHost\<close>) is recorded in order, with the events it publishes; the
  host's answers and the order identifiers it gives out are parameters, in the record
  \<open>batch_env\<close> with the manager's own constants. Storing the carry-overs is left out.
\<close>

section \<open>Data\<close>

record engagement =
  se_index_order :: nat
  asset_contribution_fractions :: "symbol \<Rightarrow> amount option"
  asset_quantity_contributions :: "symbol \<Rightarrow> amount option"
  se_chain_id :: u32
  se_address :: address
  se_client_order_id :: client_order_id
  se_symbol :: symbol
  se_basket :: basket
  se_engaged_side :: side
  se_engaged_collateral :: amount
  new_engaged_collateral :: amount
  engaged_quantity :: amount
  engaged_price :: amount
  se_filled_quantity :: amount

record engaged_solver_orders =
  es_batch_order_id :: batch_order_id
  asset_price_limits :: "symbol \<Rightarrow> amount option"
  asset_quantities :: "(symbol \<times> amount) list"
  engaged_orders :: "engagement list"

record engaged_index_order =
  ei_chain_id :: u32
  ei_address :: address
  ei_client_order_id :: client_order_id
  collateral_engaged :: amount
  collateral_remaining :: amount

datatype batch_event =
    BatchComplete batch_order_id "nat list"
  | BatchMintable "nat list"

record fill_request =
  fr_chain_id :: u32
  fr_address :: address
  fr_client_order_id :: client_order_id
  fr_symbol :: symbol
  fr_collateral_spent :: amount
  fr_fill_amount :: amount
  fr_fill_rate :: amount
  fr_status :: solver_order_status
  fr_timestamp :: timestamp

datatype batch_effect =
    SendOrderBatch batch_order
  | FillOrderRequest fill_request
  | PublishBatch batch_event

record batch_env =
  dec :: dec_ops
  order_id_of :: "nat \<Rightarrow> order_id"
  send_answer :: "batch_effect list \<Rightarrow> batch_order \<Rightarrow> unit result"
  fill_answer :: "batch_effect list \<Rightarrow> fill_request \<Rightarrow> unit result"
  max_batch_size :: nat
  zero_threshold :: amount
  fill_threshold :: amount
  mint_threshold :: amount
  mint_wait_period :: duration

datatype batch_manager_status = ActiveBatches nat | Idle

record batch_manager =
  order_heap :: "solver_order list"
  status_heap :: "batch_order_status list"
  batches :: "(batch_order_id \<times> nat) list"
  engagements :: "(batch_order_id \<times> engaged_solver_orders) list"
  ready_batches :: "batch_order_id list"
  carried :: carry_overs
  ready_mints :: "((u32 \<times> address \<times> client_order_id) \<times> nat) list"
  total_volley_size :: amount
  next_order :: nat
  effects :: "batch_effect list"

definition batch_manager_new :: "solver_order list \<Rightarrow> batch_manager" where
  "batch_manager_new orders = \<lparr>order_heap = orders, status_heap = [], batches = [],
     engagements = [], ready_batches = [], carried = [], ready_mints = [], total_volley_size = 0,
     next_order = 0, effects = []\<rparr>"

definition set_order_status :: "solver_order \<Rightarrow> solver_order_status \<Rightarrow> solver_order" where
  "set_order_status s st = s\<lparr>s_status := st\<rparr>"

definition emit :: "batch_effect \<Rightarrow> batch_manager \<Rightarrow> batch_manager" where
  "emit e m = m\<lparr>effects := effects m @ [e]\<rparr>"

section \<open>Sending batches\<close>

text \<open>The orders of a batch, one per asset; the assets are keys of a map, so no insertion fails.\<close>

fun build_asset_orders ::
  "batch_env \<Rightarrow> (symbol \<Rightarrow> amount option) \<Rightarrow> (symbol \<times> amount) list \<Rightarrow> nat \<Rightarrow>
     nat \<times> asset_order list result" where
  "build_asset_orders E limits [] n = (n, Inr [])"
| "build_asset_orders E limits ((sy, q) # qs) n =
     (case limits sy of
        None \<Rightarrow> (n, Inl ''Cannot find expected price for asset'')
      | Some price \<Rightarrow>
          (case build_asset_orders E limits qs (Suc n) of
             (n', r) \<Rightarrow>
               (n', rbind r (\<lambda>aos. Inr (\<lparr>ao_order_id = order_id_of E n, ao_symbol = sy, ao_side = Buy,
                                        ao_price = price, ao_quantity = q\<rparr> # aos)))))"

definition build_batch_order ::
  "batch_env \<Rightarrow> batch_manager \<Rightarrow> engaged_solver_orders \<Rightarrow> timestamp \<Rightarrow>
     batch_manager \<times> batch_order result" where
  "build_batch_order E m es ts =
     (case build_asset_orders E (asset_price_limits es) (asset_quantities es) (next_order m) of
        (n, r) \<Rightarrow>
          (m\<lparr>next_order := n\<rparr>,
           rbind r (\<lambda>aos. Inr \<lparr>bo_batch_order_id = es_batch_order_id es, bo_asset_orders = aos,
                               bo_created_timestamp = ts\<rparr>)))"

fun adjust_loop ::
  "(position_key \<times> amount) list \<Rightarrow> asset_order list \<Rightarrow> batch_order_status \<Rightarrow>
     asset_order list \<times> batch_order_status \<times> unit result" where
  "adjust_loop carried_positions [] b = ([], b, Inr ())"
| "adjust_loop carried_positions (ao # aos) b =
     (let k = (ao_symbol ao, ao_side ao)
      in if map_of carried_positions k \<noteq> None then
           (case map_of (bs_positions b) k of
              None \<Rightarrow> (ao\<lparr>ao_quantity := 0\<rparr> # aos, b, Inl ''Missing batch order status side'')
            | Some p \<Rightarrow>
                (case adjust_loop carried_positions aos
                        (b\<lparr>bs_positions := put_assoc k (p\<lparr>bp_is_cancelled := True,
                             bp_quantity_cancelled := 0\<rparr>) (bs_positions b)\<rparr>) of
                   (aos', b', r) \<Rightarrow> (ao\<lparr>ao_quantity := 0\<rparr> # aos', b', r)))
         else (case adjust_loop carried_positions aos b of (aos', b', r) \<Rightarrow> (ao # aos', b', r)))"

definition adjust_order_batch ::
  "batch_env \<Rightarrow> batch_order \<Rightarrow> batch_order_status \<Rightarrow> (position_key \<times> amount) list \<Rightarrow>
     batch_order \<times> batch_order_status \<times> unit result" where
  "adjust_order_batch E bo b carried_positions =
     (case adjust_loop carried_positions (bo_asset_orders bo) b of
        (aos, b', Inl e) \<Rightarrow> (bo\<lparr>bo_asset_orders := aos\<rparr>, b', Inl e)
      | (aos, b', Inr ()) \<Rightarrow>
          (bo\<lparr>bo_asset_orders := filter (\<lambda>ao. zero_threshold E < ao_quantity ao) aos\<rparr>,
           if all_cancelled b' then b'\<lparr>bs_is_cancelled := True\<rparr> else b', Inr ()))"

fun add_positions ::
  "dec_ops \<Rightarrow> timestamp \<Rightarrow> asset_order list \<Rightarrow> batch_order_status \<Rightarrow> batch_order_status option" where
  "add_positions D ts [] b = Some b"
| "add_positions D ts (ao # aos) b = Option.bind (try_add_position D b ao ts) (add_positions D ts aos)"

text \<open>
  The last part of \<open>send_batch\<close>: the status is registered, then the batch goes to the host,
  unless everything in it was carried in. A batch identifier already registered is replaced
  before the error is raised.
\<close>

definition register_batch ::
  "batch_env \<Rightarrow> batch_manager \<Rightarrow> batch_order \<Rightarrow> batch_order_status \<Rightarrow> batch_manager \<times> nat result" where
  "register_batch E m bo b =
     (let bid = bo_batch_order_id bo;
          r = length (status_heap m);
          m1 = m\<lparr>total_volley_size := total_volley_size m + bs_volley_size b,
                 status_heap := status_heap m @ [b], batches := put_assoc bid r (batches m)\<rparr>
      in if map_of (batches m) bid \<noteq> None then (m1, Inl ''Duplicate batch ID'')
         else if bo_asset_orders bo = [] then (m1, Inr r)
         else (emit (SendOrderBatch bo) m1,
               case send_answer E (effects m1) bo of
                 Inl e \<Rightarrow> Inl ''Failed to send batch orders'' | Inr () \<Rightarrow> Inr r))"

definition send_batch ::
  "batch_env \<Rightarrow> batch_manager \<Rightarrow> engaged_solver_orders \<Rightarrow> timestamp \<Rightarrow> batch_manager \<times> nat result" where
  "send_batch E m es ts =
     (if engaged_orders es = [] then (m, Inl ''No engaged Index orders'')
      else case build_batch_order E m es ts of
        (m1, Inl e) \<Rightarrow> (m1, Inl e)
      | (m1, Inr bo) \<Rightarrow>
          (case add_positions (dec E) ts (bo_asset_orders bo)
                  (batch_order_status_new (bo_batch_order_id bo) ts) of
             None \<Rightarrow> (m1, Inl ''Math Problem'')
           | Some b \<Rightarrow>
               (case carry_in (dec E) b (carried m1) of
                  (b1, carry, Inl e) \<Rightarrow> (m1\<lparr>carried := carry\<rparr>, Inl e)
                | (b1, carry, Inr carried_positions) \<Rightarrow>
                    (case adjust_order_batch E bo b1 carried_positions of
                       (bo1, b2, Inl e) \<Rightarrow> (m1\<lparr>carried := carry\<rparr>, Inl e)
                     | (bo1, b2, Inr ()) \<Rightarrow> register_batch E (m1\<lparr>carried := carry\<rparr>) bo1 b2))))"

section \<open>Filling index orders\<close>

text \<open>
  What one asset of the basket allows: the batch's position in it, the order's share of that
  position up to its contribution, over the quantity the whole engagement needs.
\<close>

definition asset_fill_rate ::
  "dec_ops \<Rightarrow> batch_order_status \<Rightarrow> side \<Rightarrow> engagement \<Rightarrow> basket_asset \<Rightarrow> amount result" where
  "asset_fill_rate D b sd e a =
     (let sy = ticker (w_asset (ba_weight a)) in
      rbind (ok_or (dec_mul D (quantity a) (engaged_quantity e)) ''Math Problem'') (\<lambda>asset_quantity.
      rbind (ok_or (map_of (bs_positions b) (sy, sd)) ''Missing position for asset'') (\<lambda>p.
      rbind (ok_or (asset_contribution_fractions e sy) ''Asset contribution fraction not found'') (\<lambda>fraction.
      rbind (ok_or (asset_quantity_contributions e sy) ''Asset quantity contribution not found'') (\<lambda>contribution.
      rbind (ok_or (dec_mul D (bp_position p) fraction) ''Math Problem'') (\<lambda>share.
      ok_or (dec_div D (min share contribution) asset_quantity) ''Math Problem''))))))"

fun least_fill_rate ::
  "dec_ops \<Rightarrow> batch_order_status \<Rightarrow> side \<Rightarrow> engagement \<Rightarrow> basket_asset list \<Rightarrow> amount option \<Rightarrow>
     amount option result" where
  "least_fill_rate D b sd e [] rate = Inr rate"
| "least_fill_rate D b sd e (a # as) rate =
     rbind (asset_fill_rate D b sd e a) (\<lambda>x.
       least_fill_rate D b sd e as (Some (case rate of None \<Rightarrow> x | Some y \<Rightarrow> min y x)))"

text \<open>The lots of every asset for a further filled quantity \<open>delta\<close> and the collateral they cost.\<close>

fun allocate_assets ::
  "batch_env \<Rightarrow> side \<Rightarrow> amount \<Rightarrow> timestamp \<Rightarrow> basket_asset list \<Rightarrow> batch_order_status \<Rightarrow>
     solver_order \<Rightarrow> amount \<Rightarrow> batch_order_status \<times> solver_order \<times> amount outcome" where
  "allocate_assets E sd delta ts [] b s spent = (b, s, Returns (Inr spent))"
| "allocate_assets E sd delta ts (a # as) b s spent =
     (case dec_mul (dec E) (quantity a) delta of
        None \<Rightarrow> (b, s, Returns (Inl ''Math Problem''))
      | Some asset_quantity \<Rightarrow>
          (let k = (ticker (w_asset (ba_weight a)), sd)
           in case map_of (bs_positions b) k of
                None \<Rightarrow> (b, s, Panic)
              | Some p \<Rightarrow>
                  (case try_allocate_lots (dec E) p s asset_quantity (zero_threshold E) ts of
                     (p', s', r) \<Rightarrow>
                       (let b' = b\<lparr>bs_positions := put_assoc k p' (bs_positions b)\<rparr>
                        in case r of
                             None \<Rightarrow> (b', s', Returns (Inl ''Math Problem''))
                           | Some (rest, cost) \<Rightarrow>
                               if zero_threshold E < rest
                               then (b', s', Returns (Inl ''Couldn't allocate sufficient lots for Index Order''))
                               else (case dec_add (dec E) spent cost of
                                       None \<Rightarrow> (b', s', Returns (Inl ''Math Problem''))
                                     | Some spent' \<Rightarrow> allocate_assets E sd delta ts as b' s' spent')))))"

text \<open>The order's accounts after a fill, assigned one after another, and its own fill rate.\<close>

definition settle_fill ::
  "dec_ops \<Rightarrow> solver_order \<Rightarrow> amount \<Rightarrow> amount \<Rightarrow> timestamp \<Rightarrow> solver_order \<times> amount result" where
  "settle_fill D s delta spent ts =
     attempt s (dec_add D (s_filled_quantity s) delta) (\<lambda>x.
     let s1 = s\<lparr>s_filled_quantity := x\<rparr> in
     attempt s1 (dec_sub D (s_engaged_collateral s1) spent) (\<lambda>x.
     let s2 = s1\<lparr>s_engaged_collateral := x\<rparr> in
     attempt s2 (dec_add D (s_collateral_spent s2) spent) (\<lambda>x.
     let s3 = s2\<lparr>s_collateral_spent := x, s_timestamp := ts\<rparr> in
     attempt s3 (dec_add D (s_remaining_collateral s3) (s_engaged_collateral s3)) (\<lambda>remaining_collateral.
     attempt s3 (dec_add D (s_collateral_spent s3) remaining_collateral) (\<lambda>total_collateral.
     (s3, ok_or (dec_div D (s_collateral_spent s3) total_collateral) ''Math Problem''))))))"

text \<open>The order's status after a fill, and whether it is to be noted as ready to mint.\<close>

definition fill_status :: "batch_env \<Rightarrow> amount \<Rightarrow> solver_order \<Rightarrow> solver_order \<times> bool" where
  "fill_status E rate s =
     (let noted = s_status s = Engaged \<and> mint_threshold E < rate;
          s1 = (if noted then set_order_status s PartlyMintable else s)
      in (if fill_threshold E < rate then set_order_status s1 FullyMintable else s1, noted))"

definition finish_fill ::
  "batch_env \<Rightarrow> batch_manager \<Rightarrow> nat \<Rightarrow> solver_order \<Rightarrow> amount \<Rightarrow> amount \<Rightarrow> amount \<Rightarrow> timestamp \<Rightarrow>
     batch_manager \<times> unit result" where
  "finish_fill E m i s delta spent rate ts =
     (let (s', noted) = fill_status E rate s;
          m1 = m\<lparr>order_heap := (order_heap m)[i := s'],
                 ready_mints := (if noted then put_assoc (get_key s) i (ready_mints m) else ready_mints m)\<rparr>;
          req = \<lparr>fr_chain_id = s_chain_id s', fr_address = s_address s',
                 fr_client_order_id = s_client_order_id s', fr_symbol = s_symbol s',
                 fr_collateral_spent = spent, fr_fill_amount = delta, fr_fill_rate = rate,
                 fr_status = s_status s', fr_timestamp = ts\<rparr>
      in (emit (FillOrderRequest req) m1, fill_answer E (effects m1) req))"

text \<open>Allocation and accounts for a filled quantity that has grown by \<open>delta\<close>.\<close>

definition apply_fill ::
  "batch_env \<Rightarrow> batch_manager \<Rightarrow> batch_order_status \<Rightarrow> engagement \<Rightarrow> amount \<Rightarrow> amount \<Rightarrow>
     batch_manager \<times> batch_order_status \<times> engagement \<times> unit outcome" where
  "apply_fill E m b e filled delta =
     (let i = se_index_order e; s = order_heap m ! i; ts = bs_last_update_timestamp b
      in case allocate_assets E (s_side s) delta ts (basket_assets (se_basket e)) b s 0 of
           (b', s', Panic) \<Rightarrow> (m\<lparr>order_heap := (order_heap m)[i := s']\<rparr>, b', e, Panic)
         | (b', s', Returns (Inl err)) \<Rightarrow>
             (m\<lparr>order_heap := (order_heap m)[i := s']\<rparr>, b', e, Returns (Inl err))
         | (b', s', Returns (Inr spent)) \<Rightarrow>
             (let e' = e\<lparr>se_filled_quantity := filled\<rparr>
              in case settle_fill (dec E) s' delta spent ts of
                   (s'', Inl err) \<Rightarrow>
                     (m\<lparr>order_heap := (order_heap m)[i := s'']\<rparr>, b', e', Returns (Inl err))
                 | (s'', Inr rate) \<Rightarrow>
                     (case finish_fill E m i s'' delta spent rate ts of
                        (m', r) \<Rightarrow> (m', b', e', Returns r))))"

definition fill_index_order ::
  "batch_env \<Rightarrow> batch_manager \<Rightarrow> batch_order_status \<Rightarrow> engagement \<Rightarrow>
     batch_manager \<times> batch_order_status \<times> engagement \<times> unit outcome" where
  "fill_index_order E m b e =
     (let s = order_heap m ! se_index_order e; assets = basket_assets (se_basket e)
      in if s_status s = FullyMintable then (m, b, e, Returns (Inr ()))
         else if s_status s \<noteq> Engaged \<and> s_status s \<noteq> PartlyMintable
         then (m, b, e, Returns (Inl ''Invalid Index order state''))
         else case least_fill_rate (dec E) b (s_side s) e assets None of
                Inl err \<Rightarrow> (m, b, e, Returns (Inl err))
              | Inr None \<Rightarrow> (m, b, e, Panic)
              | Inr (Some rate) \<Rightarrow>
                  (case dec_mul (dec E) (min rate 1) (engaged_quantity e) of
                     None \<Rightarrow> (m, b, e, Returns (Inl ''Math Problem''))
                   | Some filled \<Rightarrow>
                       (case dec_sub (dec E) filled (se_filled_quantity e) of
                          None \<Rightarrow> (m, b, e, Returns (Inl ''Math Problem''))
                        | Some delta \<Rightarrow>
                            if delta < zero_threshold E then (m, b, e, Returns (Inr ()))
                            else apply_fill E m b e filled delta)))"

fun fill_loop ::
  "batch_env \<Rightarrow> batch_manager \<Rightarrow> batch_order_status \<Rightarrow> engagement list \<Rightarrow>
     batch_manager \<times> batch_order_status \<times> engagement list \<times> unit outcome" where
  "fill_loop E m b [] = (m, b, [], Returns (Inr ()))"
| "fill_loop E m b (e # es) =
     (case fill_index_order E m b e of
        (m', b', e', Returns (Inr ())) \<Rightarrow>
          (case fill_loop E m' b' es of (m'', b'', es', r) \<Rightarrow> (m'', b'', e' # es', r))
      | (m', b', e', r) \<Rightarrow> (m', b', e' # es, r))"

definition fill_batch_orders :: "batch_env \<Rightarrow> batch_manager \<Rightarrow> nat \<Rightarrow> batch_manager \<times> unit outcome" where
  "fill_batch_orders E m r =
     (let b = status_heap m ! r; bid = bs_batch_order_id b
      in case map_of (engagements m) bid of
           None \<Rightarrow> (m, Returns (Inl ''Engagement not found''))
         | Some es \<Rightarrow>
             (case fill_loop E m b (engaged_orders es) of
                (m', b', eos, out) \<Rightarrow>
                  (m'\<lparr>status_heap := (status_heap m')[r := b'],
                      engagements := put_assoc bid (es\<lparr>engaged_orders := eos\<rparr>) (engagements m')\<rparr>, out)))"

section \<open>Completing batches\<close>

text \<open>\<open>retain\<close> on the orders noted as ready to mint: those to mint now are taken out.\<close>

fun retain_mints ::
  "timestamp \<Rightarrow> solver_order list \<Rightarrow> ('k \<times> nat) list \<Rightarrow>
     solver_order list \<times> ('k \<times> nat) list \<times> nat list" where
  "retain_mints ready heap [] = (heap, [], [])"
| "retain_mints ready heap ((k, i) # ms) =
     (let s = heap ! i
      in if s_status s = FullyMintable then
           (case retain_mints ready heap ms of (h, kept, mints) \<Rightarrow> (h, kept, i # mints))
         else if s_status s = PartlyMintable \<and> s_timestamp s \<le> ready then
           (case retain_mints ready (heap[i := set_order_status s FullyMintable]) ms of
              (h, kept, mints) \<Rightarrow> (h, kept, i # mints))
         else (case retain_mints ready heap ms of (h, kept, mints) \<Rightarrow> (h, (k, i) # kept, mints)))"

text \<open>The orders that go on to another batch keep their engaged collateral as carried.\<close>

fun continue_orders :: "solver_order list \<Rightarrow> nat list \<Rightarrow> solver_order list \<times> nat list" where
  "continue_orders heap [] = (heap, [])"
| "continue_orders heap (i # is) =
     (let s = heap ! i
      in if s_status s = Engaged \<or> s_status s = PartlyMintable then
           (case continue_orders (heap[i := s\<lparr>collateral_carried := s_engaged_collateral s,
                                              s_engaged_collateral := 0\<rparr>]) is of
              (h, continued) \<Rightarrow> (h, i # continued))
         else continue_orders heap is)"

definition complete_batch ::
  "batch_env \<Rightarrow> batch_manager \<Rightarrow> batch_order_id \<Rightarrow> nat \<Rightarrow> timestamp \<Rightarrow> batch_manager \<times> unit result" where
  "complete_batch E m bid r ts =
     (case carry_over (dec E) (status_heap m ! r) (carried m) of
        (b, carry, res) \<Rightarrow>
          (let m1 = m\<lparr>status_heap := (status_heap m)[r := b], carried := carry\<rparr>
           in case res of
                Inl e \<Rightarrow> (m1, Inl e)
              | Inr () \<Rightarrow>
                  (case map_of (engagements m1) bid of
                     None \<Rightarrow> (m1, Inl ''Missing engagement'')
                   | Some es \<Rightarrow>
                       (case retain_mints (ts - mint_wait_period E) (order_heap m1) (ready_mints m1) of
                          (heap1, kept, mints) \<Rightarrow>
                            (case continue_orders heap1 (map se_index_order (engaged_orders es)) of
                               (heap2, continued) \<Rightarrow>
                                 (let m2 = m1\<lparr>order_heap := heap2, ready_mints := kept,
                                              total_volley_size := total_volley_size m1 - bs_volley_size b\<rparr>;
                                      m3 = (if mints = [] then m2
                                            else emit (PublishBatch (BatchMintable mints)) m2)
                                  in (emit (PublishBatch (BatchComplete bid continued)) m3, Inr ())))))))"

fun cleanup_loop ::
  "batch_order_status list \<Rightarrow> (batch_order_id \<times> nat) list \<Rightarrow>
     (batch_order_id \<times> engaged_solver_orders) list \<Rightarrow>
     (batch_order_id \<times> nat) list \<times> (batch_order_id \<times> engaged_solver_orders) list" where
  "cleanup_loop heap [] es = ([], es)"
| "cleanup_loop heap ((bid, r) # bs) es =
     (if bs_is_cancelled (heap ! r)
      then cleanup_loop heap bs (filter (\<lambda>(k, _). k \<noteq> bid) es)
      else (case cleanup_loop heap bs es of (bs', es') \<Rightarrow> ((bid, r) # bs', es')))"

definition cleanup_batches :: "batch_manager \<Rightarrow> batch_manager" where
  "cleanup_batches m =
     (case cleanup_loop (status_heap m) (batches m) (engagements m) of
        (bs, es) \<Rightarrow> m\<lparr>batches := bs, engagements := es\<rparr>)"

section \<open>Processing\<close>

fun send_all_batches ::
  "batch_env \<Rightarrow> timestamp \<Rightarrow> batch_manager \<Rightarrow> engaged_solver_orders list \<Rightarrow>
     batch_manager \<times> nat list \<times> report list" where
  "send_all_batches E ts m [] = (m, [], [])"
| "send_all_batches E ts m (es # ess) =
     (case send_batch E m es ts of
        (m1, r) \<Rightarrow>
          (case send_all_batches E ts m1 ess of
             (m2, sent, failures) \<Rightarrow>
               (case r of
                  Inl err \<Rightarrow> (m2, sent, err # failures)
                | Inr b \<Rightarrow> (m2, b # sent, failures))))"

text \<open>The internal fill of a batch that was sent, and its completion when nothing was sent out.\<close>

definition fill_internally ::
  "batch_env \<Rightarrow> timestamp \<Rightarrow> batch_manager \<Rightarrow> nat \<Rightarrow> batch_manager \<times> unit outcome" where
  "fill_internally E ts m r =
     (case fill_batch_orders E m r of
        (m1, Returns (Inr ())) \<Rightarrow>
          (let b = status_heap m1 ! r
           in if bs_is_cancelled b
              then (case complete_batch E m1 (bs_batch_order_id b) r ts of (m2, x) \<Rightarrow> (m2, Returns x))
              else (m1, Returns (Inr ())))
      | (m1, out) \<Rightarrow> (m1, out))"

fun fill_all_internally ::
  "batch_env \<Rightarrow> timestamp \<Rightarrow> batch_manager \<Rightarrow> nat list \<Rightarrow> batch_manager \<times> report list outcome" where
  "fill_all_internally E ts m [] = (m, Returns (Inr []))"
| "fill_all_internally E ts m (r # rs) =
     (case fill_internally E ts m r of
        (m1, Panic) \<Rightarrow> (m1, Panic)
      | (m1, Returns x) \<Rightarrow>
          (case fill_all_internally E ts m1 rs of
             (m2, Returns (Inr failures)) \<Rightarrow>
               (m2, Returns (Inr (case x of Inl err \<Rightarrow> err # failures | Inr () \<Rightarrow> failures)))
           | (m2, out) \<Rightarrow> (m2, out)))"

definition send_more_batches ::
  "batch_env \<Rightarrow> batch_manager \<Rightarrow> timestamp \<Rightarrow> batch_manager \<times> unit outcome" where
  "send_more_batches E m ts =
     (let n = min (length (ready_batches m)) (max_batch_size E);
          ess = List.map_filter (\<lambda>bid. map_of (engagements m) bid) (take n (ready_batches m));
          m0 = m\<lparr>ready_batches := drop n (ready_batches m)\<rparr>
      in case send_all_batches E ts m0 ess of
           (m1, sent, failures) \<Rightarrow>
             (case fill_all_internally E ts m1 sent of
                (m2, Returns (Inr failures')) \<Rightarrow>
                  (m2, Returns (if failures @ failures' = [] then Inr ()
                                else Inl ''Failed to send or fill internally batches''))
              | (m2, Returns (Inl e)) \<Rightarrow> (m2, Returns (Inl e))
              | (m2, Panic) \<Rightarrow> (m2, Panic)))"

definition process_batches ::
  "batch_env \<Rightarrow> batch_manager \<Rightarrow> timestamp \<Rightarrow> batch_manager \<times> batch_manager_status outcome" where
  "process_batches E m ts =
     (case send_more_batches E m ts of
        (m1, Panic) \<Rightarrow> (m1, Panic)
      | (m1, Returns (Inl e)) \<Rightarrow> (m1, Returns (Inl e))
      | (m1, Returns (Inr ())) \<Rightarrow>
          (let m2 = cleanup_batches m1; n = length (batches m2)
           in (m2, Returns (Inr (if n = 0 then Idle else ActiveBatches n)))))"

section \<open>Handlers\<close>

definition handle_new_engagement ::
  "batch_manager \<Rightarrow> engaged_solver_orders \<Rightarrow> batch_manager \<times> batch_order_id result" where
  "handle_new_engagement m es =
     (let bid = es_batch_order_id es
      in if map_of (engagements m) bid \<noteq> None then (m, Inl ''Dublicate Batch Id'')
         else (m\<lparr>engagements := put_assoc bid es (engagements m)\<rparr>, Inr bid))"

text \<open>One order of an engagement, against the index order manager's answer for it.\<close>

definition engage_one ::
  "dec_ops \<Rightarrow> timestamp \<Rightarrow> engaged_index_order option \<Rightarrow> solver_order \<Rightarrow> engagement \<Rightarrow>
     solver_order \<times> engagement" where
  "engage_one D ts answer s e =
     (case answer of
        None \<Rightarrow> (set_order_status s InvalidOrder, e)
      | Some eo \<Rightarrow>
          (case dec_add D (collateral_engaged eo) (collateral_carried s) of
             None \<Rightarrow> (set_order_status s InternalError, e)
           | Some x \<Rightarrow>
               (let s1 = s\<lparr>s_engaged_collateral := x, s_remaining_collateral := collateral_remaining eo,
                           collateral_carried := 0, s_timestamp := ts\<rparr>
                in (if s_status s1 = SolverReady then set_order_status s1 Engaged else s1,
                    e\<lparr>se_engaged_collateral := x\<rparr>))))"

fun engage_all ::
  "dec_ops \<Rightarrow> timestamp \<Rightarrow> (address \<times> client_order_id \<Rightarrow> engaged_index_order option) \<Rightarrow>
     solver_order list \<Rightarrow> engagement list \<Rightarrow> solver_order list \<times> engagement list" where
  "engage_all D ts answers heap [] = (heap, [])"
| "engage_all D ts answers heap (e # es) =
     (let i = se_index_order e;
          (s, e') = engage_one D ts (answers (se_address e, se_client_order_id e)) (heap ! i) e
      in case engage_all D ts answers (heap[i := s]) es of (heap', es') \<Rightarrow> (heap', e' # es'))"

definition handle_engage_index_order ::
  "batch_env \<Rightarrow> batch_manager \<Rightarrow> batch_order_id \<Rightarrow>
     (address \<times> client_order_id \<Rightarrow> engaged_index_order option) \<Rightarrow> timestamp \<Rightarrow>
     batch_manager \<times> unit outcome" where
  "handle_engage_index_order E m bid answers ts =
     (case map_of (engagements m) bid of
        None \<Rightarrow> (m, Panic)
      | Some es \<Rightarrow>
          (case engage_all (dec E) ts answers (order_heap m) (engaged_orders es) of
             (heap, eos) \<Rightarrow>
               (m\<lparr>order_heap := heap,
                  engagements := put_assoc bid (es\<lparr>engaged_orders := eos\<rparr>) (engagements m),
                  ready_batches := ready_batches m @ [bid]\<rparr>, Returns (Inr ()))))"

definition handle_new_lot ::
  "batch_env \<Rightarrow> batch_manager \<Rightarrow> order_id \<Rightarrow> batch_order_id \<Rightarrow> lot_id \<Rightarrow> lot_id option \<Rightarrow> symbol \<Rightarrow>
     side \<Rightarrow> amount \<Rightarrow> amount \<Rightarrow> amount \<Rightarrow> timestamp \<Rightarrow> batch_manager \<times> unit outcome" where
  "handle_new_lot E m oid bid lid closing sy sd price q fee ts =
     (case map_of (batches m) bid of
        None \<Rightarrow> (m, Returns (Inl ''Missing Batch''))
      | Some r \<Rightarrow>
          (case batch_update (dec E) (status_heap m ! r) oid lid closing (sy, sd) price q fee ts of
             (b, x) \<Rightarrow>
               (let m1 = m\<lparr>status_heap := (status_heap m)[r := b]\<rparr>
                in case x of Inl e \<Rightarrow> (m1, Returns (Inl e)) | Inr () \<Rightarrow> fill_batch_orders E m1 r)))"

definition handle_cancel_order ::
  "batch_env \<Rightarrow> batch_manager \<Rightarrow> batch_order_id \<Rightarrow> symbol \<Rightarrow> side \<Rightarrow> amount \<Rightarrow> bool \<Rightarrow> timestamp \<Rightarrow>
     batch_manager \<times> unit result" where
  "handle_cancel_order E m bid sy sd quantity_cancelled is_cancelled ts =
     (case map_of (batches m) bid of
        None \<Rightarrow> (m, Inl ''Missing Batch'')
      | Some r \<Rightarrow>
          (case batch_cancel (status_heap m ! r) (sy, sd) quantity_cancelled is_cancelled ts of
             (b, x) \<Rightarrow>
               (let m1 = m\<lparr>status_heap := (status_heap m)[r := b]\<rparr>
                in case x of
                     Inl e \<Rightarrow> (m1, Inl e)
                   | Inr () \<Rightarrow>
                       if bs_is_cancelled b then complete_batch E m1 bid r ts else (m1, Inr ()))))"

end
