(* ===== verification/BatchLedger.thy ===== *)
theory BatchLedger
  imports BatchManager
begin

text \<open>
  What the batch manager does with the quantities it buys and with the orders it declares ready
  to mint: the conservation of quantity and of collateral over any run of the manager, and the
  promise that no order is handed out for minting twice. The calls of \<open>BatchManager\<close> are the
  events of a run; what the solver does to the shared orders in between is an event as well.
\<close>

section \<open>Runs\<close>

lemma case_unit_id [simp]: "(case u of () \<Rightarrow> x) = x"
  by (rule unit.exhaust [of u]) (simp only: unit.case)

datatype batch_call =
    NewEngagement engaged_solver_orders
  | EngageOrders batch_order_id "address \<times> client_order_id \<Rightarrow> engaged_index_order option" timestamp
  | NewLot order_id batch_order_id lot_id "lot_id option" symbol side amount amount amount timestamp
  | CancelOrder batch_order_id symbol side amount bool timestamp
  | Process timestamp
  | SolverUpdate "solver_order list"

fun succeeded :: "'a outcome \<Rightarrow> bool" where
  "succeeded (Returns (Inr _)) = True"
| "succeeded _ = False"

fun batch_apply :: "batch_env \<Rightarrow> batch_manager \<Rightarrow> batch_call \<Rightarrow> batch_manager \<times> bool" where
  "batch_apply E m (NewEngagement es) =
     (case handle_new_engagement m es of (m', r) \<Rightarrow> (m', succeeded (Returns r)))"
| "batch_apply E m (EngageOrders bid answers ts) =
     (case handle_engage_index_order E m bid answers ts of (m', r) \<Rightarrow> (m', succeeded r))"
| "batch_apply E m (NewLot oid bid lid closing sy sd price q fee ts) =
     (case handle_new_lot E m oid bid lid closing sy sd price q fee ts of (m', r) \<Rightarrow> (m', succeeded r))"
| "batch_apply E m (CancelOrder bid sy sd q c ts) =
     (case handle_cancel_order E m bid sy sd q c ts of (m', r) \<Rightarrow> (m', succeeded (Returns r)))"
| "batch_apply E m (Process ts) =
     (case process_batches E m ts of (m', r) \<Rightarrow> (m', succeeded r))"
| "batch_apply E m (SolverUpdate heap) = (m\<lparr>order_heap := heap\<rparr>, True)"

definition batch_step :: "batch_env \<Rightarrow> batch_manager \<Rightarrow> batch_call \<Rightarrow> batch_manager" where
  "batch_step E m c = fst (batch_apply E m c)"

fun bought :: "batch_call \<Rightarrow> amount" where
  "bought (NewLot oid bid lid closing sy sd price q fee ts) = q"
| "bought _ = 0"

section \<open>What one fill moves\<close>

definition allocated :: "solver_order list \<Rightarrow> amount" where
  "allocated heap = total (\<lambda>s. assigned_of (lots s)) heap"

lemma allocated_update:
  "i < length heap \<Longrightarrow>
     allocated (heap[i := s]) = allocated heap + (assigned_of (lots s) - assigned_of (lots (heap ! i)))"
  unfolding allocated_def by (rule total_update)

lemma open_of_put:
  "map_of (bs_positions b) k = Some p \<Longrightarrow>
     open_of (b\<lparr>bs_positions := put_assoc k p' (bs_positions b)\<rparr>) =
       open_of b + (remaining_of (bp_open_lots p') - remaining_of (bp_open_lots p))"
  by (simp add: open_of_def total_put_assoc)

text \<open>Allocation touches the lots of the order and the positions of the batch, whatever its outcome.\<close>

lemma allocate_assets_frame:
  "allocate_assets E sd delta ts as b s spent = (b', s', r) \<Longrightarrow>
     \<exists>ls ps. s' = s\<lparr>lots := ls\<rparr> \<and> b' = b\<lparr>bs_positions := ps\<rparr>"
proof (induction as arbitrary: b s spent)
  case Nil
  then show ?case by (intro exI [of _ "lots s"] exI [of _ "bs_positions b"]) simp
next
  case (Cons a as)
  let ?k = "(ticker (w_asset (ba_weight a)), sd)"
  show ?case
  proof (cases "dec_mul (dec E) (quantity a) delta")
    case None
    with Cons.prems show ?thesis by (intro exI [of _ "lots s"] exI [of _ "bs_positions b"]) simp
  next
    case (Some q)
    show ?thesis
    proof (cases "map_of (bs_positions b) ?k")
      case None
      with Some Cons.prems show ?thesis by (intro exI [of _ "lots s"] exI [of _ "bs_positions b"]) simp
    next
      case p: (Some p)
      obtain p1 s1 r1 where t: "try_allocate_lots (dec E) p s q (zero_threshold E) ts = (p1, s1, r1)"
        by (metis prod_cases3)
      then obtain ls where s1: "s1 = s\<lparr>lots := ls\<rparr>" by (auto simp: try_allocate_lots_def split: prod.splits)
      let ?b1 = "b\<lparr>bs_positions := put_assoc ?k p1 (bs_positions b)\<rparr>"
      have "b' = ?b1 \<and> s' = s1 \<or> (\<exists>spent'. allocate_assets E sd delta ts as ?b1 s1 spent' = (b', s', r))"
        using Cons.prems Some p t by (auto simp: Let_def split: option.splits if_splits)
      then show ?thesis
      proof
        assume "b' = ?b1 \<and> s' = s1"
        with s1 show ?thesis by blast
      next
        assume "\<exists>spent'. allocate_assets E sd delta ts as ?b1 s1 spent' = (b', s', r)"
        then obtain spent' where "allocate_assets E sd delta ts as ?b1 s1 spent' = (b', s', r)" ..
        from Cons.IH [OF this] s1 show ?thesis by auto
      qed
    qed
  qed
qed

lemma allocate_assets_moves:
  assumes D: "dec_exact (dec E)" and tol: "0 < zero_threshold E"
  shows "allocate_assets E sd delta ts as b s spent = (b', s', Returns (Inr cost)) \<Longrightarrow>
    \<exists>als. lots s' = lots s @ als \<and> open_of b' + assigned_of als = open_of b \<and>
      cost = spent + spent_of (dec E) als"
proof (induction as arbitrary: b s spent)
  case (Cons a as)
  let ?k = "(ticker (w_asset (ba_weight a)), sd)"
  from Cons.prems obtain q where q: "dec_mul (dec E) (quantity a) delta = Some q"
    by (auto split: option.splits)
  with Cons.prems obtain p where p: "map_of (bs_positions b) ?k = Some p"
    by (auto simp: Let_def split: option.splits)
  obtain p1 s1 r1 where t: "try_allocate_lots (dec E) p s q (zero_threshold E) ts = (p1, s1, r1)"
    by (metis prod_cases3)
  with Cons.prems q p obtain rest c x where r1: "r1 = Some (rest, c)"
    and x: "dec_add (dec E) spent c = Some x"
    and rec: "allocate_assets E sd delta ts as (b\<lparr>bs_positions := put_assoc ?k p1 (bs_positions b)\<rparr>) s1 x =
       (b', s', Returns (Inr cost))"
    by (auto simp: Let_def split: option.splits if_splits)
  from x D have x': "x = spent + c" by (auto dest!: dec_add_exact)
  from try_allocate_lots_moves [OF D tol t [unfolded r1]] obtain als where
    als: "lots s1 = lots s @ als" "remaining_of (bp_open_lots p1) + assigned_of als = remaining_of (bp_open_lots p)"
      "c = spent_of (dec E) als" by blast
  from Cons.IH [OF rec] obtain als' where
    als': "lots s' = lots s1 @ als'" "cost = x + spent_of (dec E) als'"
      "open_of b' + assigned_of als' = open_of (b\<lparr>bs_positions := put_assoc ?k p1 (bs_positions b)\<rparr>)"
    by blast
  have "spent_of (dec E) (als @ als') = spent_of (dec E) als + spent_of (dec E) als'"
    by (simp add: spent_of_def)
  with als als' x' open_of_put [OF p, of p1] show ?case by (intro exI [of _ "als @ als'"]) auto
qed simp

lemma settle_fill_frame:
  "settle_fill D s delta spent ts = (s', r) \<Longrightarrow>
     lots s' = lots s \<and> s_status s' = s_status s \<and> get_key s' = get_key s \<and>
     s_remaining_collateral s' = s_remaining_collateral s"
  by (auto simp: settle_fill_def attempt_def Let_def get_key_def split: option.splits)

lemma settle_fill_moves:
  "settle_fill D s delta spent ts = (s', Inr rate) \<Longrightarrow> dec_exact D \<Longrightarrow>
     s_engaged_collateral s' = s_engaged_collateral s - spent \<and>
     s_collateral_spent s' = s_collateral_spent s + spent \<and>
     s_filled_quantity s' = s_filled_quantity s + delta"
  by (auto simp: settle_fill_def attempt_def Let_def split: option.splits
      dest!: dec_add_exact dec_sub_exact)
lemma fill_status_effect:
  "fill_status E rate s = (s', noted) \<Longrightarrow>
     s' = s\<lparr>s_status := s_status s'\<rparr> \<and> s_status s' \<in> {s_status s, PartlyMintable, FullyMintable} \<and>
     (noted \<longrightarrow> s_status s = Engaged)"
  by (auto simp: fill_status_def set_order_status_def Let_def)

text \<open>
  The shape of every outcome of a fill: one order changes, its key does not, and it is noted as
  ready to mint only if it was engaged.
\<close>

definition same_books :: "batch_manager \<Rightarrow> batch_manager \<Rightarrow> bool" where
  "same_books m m' \<longleftrightarrow> status_heap m' = status_heap m \<and> batches m' = batches m \<and>
     engagements m' = engagements m \<and> ready_batches m' = ready_batches m \<and> carried m' = carried m \<and>
     total_volley_size m' = total_volley_size m \<and> next_order m' = next_order m"

definition fill_shape :: "batch_manager \<Rightarrow> nat \<Rightarrow> batch_manager \<Rightarrow> bool" where
  "fill_shape m i m' \<longleftrightarrow> same_books m m' \<and> (\<exists>s'.
     order_heap m' = (order_heap m)[i := s'] \<and>
     get_key s' = get_key (order_heap m ! i) \<and>
     s_status s' \<in> {s_status (order_heap m ! i), PartlyMintable, FullyMintable} \<and>
     s_status (order_heap m ! i) \<in> {Engaged, PartlyMintable} \<and>
     (effects m' = effects m \<or> (\<exists>req. effects m' = effects m @ [FillOrderRequest req])) \<and>
     (ready_mints m' = ready_mints m \<or> s_status (order_heap m ! i) = Engaged \<and>
        ready_mints m' = put_assoc (get_key (order_heap m ! i)) i (ready_mints m)))"

lemma apply_fill_shape:
  assumes r: "apply_fill E m b e filled delta = (m', b', e', out)"
    and st: "s_status (order_heap m ! se_index_order e) \<in> {Engaged, PartlyMintable}"
  shows "fill_shape m (se_index_order e) m' \<and> (\<exists>ps. b' = b\<lparr>bs_positions := ps\<rparr>) \<and>
    se_index_order e' = se_index_order e"
proof -
  let ?i = "se_index_order e" and ?ts = "bs_last_update_timestamp b"
  let ?s = "order_heap m ! ?i"
  obtain b1 s1 o1 where
    a: "allocate_assets E (s_side ?s) delta ?ts (basket_assets (se_basket e)) b ?s 0 = (b1, s1, o1)"
    by (metis prod_cases3)
  from allocate_assets_frame [OF a] have s1: "get_key s1 = get_key ?s" "s_status s1 = s_status ?s"
    and b1: "\<exists>ps. b1 = b\<lparr>bs_positions := ps\<rparr>"
    by (auto simp: get_key_def)
  have early: "fill_shape m ?i (m\<lparr>order_heap := (order_heap m)[?i := x]\<rparr>)"
    if "get_key x = get_key ?s" "s_status x = s_status ?s" for x
    using that st by (auto simp: fill_shape_def same_books_def)
  show ?thesis
  proof (cases "\<exists>spent. o1 = Returns (Inr spent)")
    case False
    with r a early [OF s1] b1 show ?thesis
      by (cases o1) (auto simp: apply_fill_def Let_def split: sum.splits)
  next
    case True
    then obtain spent where o1: "o1 = Returns (Inr spent)" ..
    obtain s2 r2 where sf: "settle_fill (dec E) s1 delta spent ?ts = (s2, r2)" by fastforce
    from settle_fill_frame [OF sf] s1 have s2: "get_key s2 = get_key ?s" "s_status s2 = s_status ?s"
      by auto
    show ?thesis
    proof (cases r2)
      case (Inl err)
      with r a o1 sf early [OF s2] b1 show ?thesis by (auto simp: apply_fill_def Let_def)
    next
      case (Inr rate)
      obtain s3 noted where fs: "fill_status E rate s2 = (s3, noted)" by fastforce
      from fill_status_effect [OF fs] s2 have s3: "get_key s3 = get_key ?s"
        "s_status s3 \<in> {s_status ?s, PartlyMintable, FullyMintable}" "noted \<longrightarrow> s_status ?s = Engaged"
        by (metis get_key_def solver_order.select_convs(1,2,3) solver_order.surjective
            solver_order.update_convs(15), auto)
      from r a o1 sf Inr fs s2 s3 st b1 show ?thesis
        by (auto simp: apply_fill_def finish_fill_def fill_shape_def same_books_def emit_def Let_def
            intro!: exI [of _ s3])
    qed
  qed
qed

text \<open>A fill that succeeds: quantity moves from the batch to the order, collateral from engaged to spent.\<close>

definition fill_moves :: "batch_env \<Rightarrow> solver_order \<Rightarrow> solver_order \<Rightarrow> amount \<Rightarrow> bool" where
  "fill_moves E s s' delta \<longleftrightarrow> (\<exists>als. lots s' = lots s @ als \<and>
     s_collateral_spent s' = s_collateral_spent s + spent_of (dec E) als \<and>
     s_engaged_collateral s' = s_engaged_collateral s - spent_of (dec E) als \<and>
     s_remaining_collateral s' = s_remaining_collateral s \<and>
     s_filled_quantity s' = s_filled_quantity s + delta)"

lemma apply_fill_moves:
  assumes r: "apply_fill E m b e filled delta = (m', b', e', Returns (Inr ()))"
    and D: "dec_exact (dec E)" "0 < zero_threshold E" and i: "se_index_order e < length (order_heap m)"
  shows "open_of b' + allocated (order_heap m') = open_of b + allocated (order_heap m) \<and>
    fill_moves E (order_heap m ! se_index_order e) (order_heap m' ! se_index_order e) delta \<and>
    se_filled_quantity e' = filled"
proof -
  let ?i = "se_index_order e" and ?ts = "bs_last_update_timestamp b"
  let ?s = "order_heap m ! ?i"
  from r obtain b1 s1 spent where
    a: "allocate_assets E (s_side ?s) delta ?ts (basket_assets (se_basket e)) b ?s 0 =
      (b1, s1, Returns (Inr spent))"
    by (auto simp: apply_fill_def Let_def split: prod.splits outcome.splits sum.splits)
  with r obtain s2 rate where sf: "settle_fill (dec E) s1 delta spent ?ts = (s2, Inr rate)"
    by (auto simp: apply_fill_def Let_def split: prod.splits sum.splits)
  obtain s3 noted where fs: "fill_status E rate s2 = (s3, noted)" by fastforce
  from fill_status_effect [OF fs] obtain st where s3: "s3 = s2\<lparr>s_status := st\<rparr>" by blast
  from r a sf fs have m': "order_heap m' = (order_heap m)[?i := s3]" "b' = b1" "se_filled_quantity e' = filled"
    by (auto simp: apply_fill_def finish_fill_def emit_def Let_def)
  from allocate_assets_moves [OF D a] obtain als where
    als: "lots s1 = lots ?s @ als" "open_of b1 + assigned_of als = open_of b" "spent = spent_of (dec E) als"
    by auto
  from allocate_assets_frame [OF a] obtain ls where s1: "s1 = ?s\<lparr>lots := ls\<rparr>" by blast
  have "lots s3 = lots ?s @ als" using settle_fill_frame [OF sf] als(1) s3 by simp
  then show ?thesis
    using m' i als settle_fill_moves [OF sf D(1)] settle_fill_frame [OF sf] s1 s3
    by (auto simp: allocated_update fill_moves_def)
qed

lemma fill_index_order_cases:
  assumes "fill_index_order E m b e = (m', b', e', out)"
  obtains (none) "m' = m" "b' = b" "e' = e"
  | (fill) filled delta rate where "apply_fill E m b e filled delta = (m', b', e', out)"
      "s_status (order_heap m ! se_index_order e) \<in> {Engaged, PartlyMintable}"
      "dec_mul (dec E) (min rate 1) (engaged_quantity e) = Some filled"
      "dec_sub (dec E) filled (se_filled_quantity e) = Some delta" "\<not> delta < zero_threshold E"
  using assms
  by (auto simp: fill_index_order_def Let_def split: if_splits sum.splits option.splits)

lemma fill_index_order_shape:
  assumes "fill_index_order E m b e = (m', b', e', out)"
  shows "(m' = m \<or> fill_shape m (se_index_order e) m') \<and> (\<exists>ps. b' = b\<lparr>bs_positions := ps\<rparr>) \<and>
    se_index_order e' = se_index_order e"
  using assms
proof (cases rule: fill_index_order_cases)
  case none
  then show ?thesis by (auto intro: exI [of _ "bs_positions b"])
next
  case fill
  from apply_fill_shape [OF this(1,2)] show ?thesis by blast
qed

lemma fill_index_order_moves:
  assumes r: "fill_index_order E m b e = (m', b', e', Returns (Inr ()))"
    and D: "dec_exact (dec E)" "0 < zero_threshold E" and i: "se_index_order e < length (order_heap m)"
  shows "open_of b' + allocated (order_heap m') = open_of b + allocated (order_heap m)"
  using r
proof (cases rule: fill_index_order_cases)
  case fill
  from apply_fill_moves [OF this(1) D i] show ?thesis by blast
qed simp

section \<open>Filling a batch\<close>

text \<open>References the manager holds are to orders and batches that exist, and the carry-overs fit.\<close>

definition refs_ok :: "nat \<Rightarrow> engaged_solver_orders \<Rightarrow> bool" where
  "refs_ok n es \<longleftrightarrow> (\<forall>e\<in>set (engaged_orders es). se_index_order e < n)"

definition well_formed :: "batch_manager \<Rightarrow> bool" where
  "well_formed m \<longleftrightarrow> carry_ok (carried m) \<and>
     (\<forall>(bid, r)\<in>set (batches m). r < length (status_heap m)) \<and>
     (\<forall>(bid, es)\<in>set (engagements m). refs_ok (length (order_heap m)) es)"

definition ledger :: "batch_manager \<Rightarrow> amount" where
  "ledger m = total open_of (status_heap m) + carried_of (carried m) + allocated (order_heap m)"

lemma same_books_refl [simp]: "same_books m m"
  by (simp add: same_books_def)

lemma same_books_trans: "same_books m m' \<Longrightarrow> same_books m' m'' \<Longrightarrow> same_books m m''"
  by (simp add: same_books_def)

lemma fill_index_order_books:
  "fill_index_order E m b e = (m', b', e', out) \<Longrightarrow>
     same_books m m' \<and> length (order_heap m') = length (order_heap m)"
  using fill_index_order_shape [of E m b e m' b' e' out] by (auto simp: fill_shape_def)

lemma fill_loop_Cons:
  assumes "fill_loop E m b (e # es) = (m', b', es', out)"
  obtains (stop) e1 where "fill_index_order E m b e = (m', b', e1, out)" "es' = e1 # es"
      "\<not> succeeded out"
  | (go) m1 b1 e1 es1 where "fill_index_order E m b e = (m1, b1, e1, Returns (Inr ()))"
      "fill_loop E m1 b1 es = (m', b', es1, out)" "es' = e1 # es1"
proof -
  obtain m1 b1 e1 r1 where f: "fill_index_order E m b e = (m1, b1, e1, r1)" by (metis prod_cases4)
  show thesis
  proof (cases "r1 = Returns (Inr ())")
    case True
    obtain m2 b2 es2 r2 where l: "fill_loop E m1 b1 es = (m2, b2, es2, r2)" by (metis prod_cases4)
    from assms f True l have "m' = m2" "b' = b2" "out = r2" "es' = e1 # es2"
      by (simp_all split: unit.splits)
    with f True l go show thesis by simp
  next
    case False
    then have "\<not> succeeded r1" by (cases r1 rule: succeeded.cases) auto
    with assms f stop show thesis by (cases r1 rule: succeeded.cases) auto
  qed
qed

lemma fill_loop_books:
  "fill_loop E m b es = (m', b', es', out) \<Longrightarrow>
     same_books m m' \<and> length (order_heap m') = length (order_heap m) \<and>
     (\<exists>ps. b' = b\<lparr>bs_positions := ps\<rparr>) \<and> map se_index_order es' = map se_index_order es"
proof (induction es arbitrary: m b es')
  case Nil
  then show ?case by (auto intro: exI [of _ "bs_positions b"])
next
  case (Cons e es)
  from Cons.prems show ?case
  proof (cases rule: fill_loop_Cons)
    case (stop e1)
    with fill_index_order_books [OF stop(1)] fill_index_order_shape [OF stop(1)] show ?thesis by simp
  next
    case (go m1 b1 e1 es1)
    from Cons.IH [OF go(2)] fill_index_order_books [OF go(1)] fill_index_order_shape [OF go(1)] go(3)
    show ?thesis by (auto intro: same_books_trans)
  qed
qed

lemma fill_loop_moves:
  assumes D: "dec_exact (dec E)" "0 < zero_threshold E"
  shows "fill_loop E m b es = (m', b', es', Returns (Inr ())) \<Longrightarrow>
    (\<forall>e\<in>set es. se_index_order e < length (order_heap m)) \<Longrightarrow>
    open_of b' + allocated (order_heap m') = open_of b + allocated (order_heap m)"
proof (induction es arbitrary: m b es')
  case (Cons e es)
  from Cons.prems(1) show ?case
  proof (cases rule: fill_loop_Cons)
    case (stop e1)
    then show ?thesis by simp
  next
    case (go m1 b1 e1 es1)
    have "se_index_order e < length (order_heap m)" using Cons.prems(2) by simp
    from fill_index_order_moves [OF go(1) D this] fill_index_order_books [OF go(1)]
      Cons.IH [OF go(2)] Cons.prems(2) show ?thesis by simp
  qed
qed simp

lemma total_open_update:
  "r < length bs \<Longrightarrow> total open_of (bs[r := b]) = total open_of bs + (open_of b - open_of (bs ! r))"
  by (rule total_update)

lemma refs_ok_engagements:
  "\<forall>(bid, es)\<in>set m. refs_ok n es \<Longrightarrow> map_of m bid = Some es \<Longrightarrow> refs_ok n es"
  by (auto dest!: map_of_SomeD)

text \<open>Each part of a call keeps the references well formed and the ledger balanced.\<close>

definition keeps :: "batch_manager \<Rightarrow> batch_manager \<Rightarrow> amount \<Rightarrow> bool" where
  "keeps m m' q \<longleftrightarrow> well_formed m' \<and> ledger m' = ledger m + q \<and>
     length (order_heap m') = length (order_heap m) \<and> length (status_heap m) \<le> length (status_heap m')"

lemma keeps_trans: "keeps m m' q \<Longrightarrow> keeps m' m'' q' \<Longrightarrow> keeps m m'' (q + q')"
  by (simp add: keeps_def)

lemma keeps_trans0: "keeps m m' 0 \<Longrightarrow> keeps m' m'' q \<Longrightarrow> keeps m m'' q"
  by (simp add: keeps_def)

lemma keeps_refl: "well_formed m \<Longrightarrow> keeps m m 0"
  by (simp add: keeps_def)

lemma fill_batch_orders_keeps:
  assumes D: "dec_exact (dec E)" "0 < zero_threshold E" and wf: "well_formed m"
    and r: "r < length (status_heap m)"
    and f: "fill_batch_orders E m r = (m', Returns (Inr ()))"
  shows "keeps m m' 0 \<and> length (status_heap m') = length (status_heap m)"
proof -
  let ?b = "status_heap m ! r"
  let ?bid = "bs_batch_order_id ?b"
  from f obtain es where es: "map_of (engagements m) ?bid = Some es"
    by (auto simp: fill_batch_orders_def Let_def split: option.splits)
  obtain m1 b1 eos out where l: "fill_loop E m ?b (engaged_orders es) = (m1, b1, eos, out)"
    by (metis prod_cases4)
  from f es l have out: "out = Returns (Inr ())" and
    m': "m' = m1\<lparr>status_heap := (status_heap m1)[r := b1],
      engagements := put_assoc ?bid (es\<lparr>engaged_orders := eos\<rparr>) (engagements m1)\<rparr>"
    by (auto simp: fill_batch_orders_def Let_def)
  from wf es have ok: "refs_ok (length (order_heap m)) es"
    unfolding well_formed_def by (blast intro: refs_ok_engagements)
  note books = fill_loop_books [OF l]
  from ok have "\<forall>e\<in>set (engaged_orders es). se_index_order e < length (order_heap m)"
    by (simp add: refs_ok_def)
  from fill_loop_moves [OF D l [unfolded out] this]
  have "open_of b1 + allocated (order_heap m1) = open_of ?b + allocated (order_heap m)" .
  moreover have "refs_ok (length (order_heap m)) (es\<lparr>engaged_orders := eos\<rparr>)"
  proof -
    have "se_index_order ` set eos = se_index_order ` set (engaged_orders es)"
      using books by (metis set_map)
    then show ?thesis using ok by (force simp: refs_ok_def image_iff set_eq_iff)
  qed
  ultimately show ?thesis
    using books wf r unfolding keeps_def well_formed_def ledger_def m' same_books_def
    by (auto simp: total_open_update dest!: set_put_assoc)
qed

lemma retain_mints_keeps:
  "retain_mints ready heap ms = (h, kept, mints) \<Longrightarrow>
     map lots h = map lots heap"
proof (induction ready heap ms arbitrary: h kept mints rule: retain_mints.induct)
  case (2 ready heap k i ms)
  have "map lots (heap[i := set_order_status (heap ! i) FullyMintable]) = map lots heap"
    by (rule map_list_update_same) (simp add: set_order_status_def)
  with 2 show ?case by (auto simp: Let_def split: if_splits prod.splits)
qed simp

lemma continue_orders_keeps:
  "continue_orders heap is = (h, continued) \<Longrightarrow> map lots h = map lots heap"
proof (induction heap "is" arbitrary: h continued rule: continue_orders.induct)
  case (2 heap i "is")
  have "map lots (heap[i := (heap ! i)\<lparr>collateral_carried := s_engaged_collateral (heap ! i),
      s_engaged_collateral := 0\<rparr>]) = map lots heap"
    by (rule map_list_update_same) simp
  with 2 show ?case by (auto simp: Let_def split: if_splits prod.splits)
qed simp

lemma allocated_lots: "map lots h = map lots heap \<Longrightarrow> allocated h = allocated heap \<and> length h = length heap"
proof
  assume eq: "map lots h = map lots heap"
  have "map (\<lambda>s. assigned_of (lots s)) h = map assigned_of (map lots h)" by simp
  also have "\<dots> = map (\<lambda>s. assigned_of (lots s)) heap" by (simp add: eq)
  finally show "allocated h = allocated heap" by (simp only: allocated_def)
  show "length h = length heap" using eq by (rule map_eq_imp_length_eq)
qed

lemma carry_over_moves:
  assumes "dec_exact D" and "carry_over D b carry = (b', carry', Inr ())" and "carry_ok carry"
  shows "open_of b' = 0 \<and> carried_of carry' = open_of b + carried_of carry \<and> carry_ok carry' \<and>
    bs_is_cancelled b' = bs_is_cancelled b"
  using assms(2) carry_over_loop_moves [OF assms(1) _ assms(3)]
  by (auto simp: carry_over_def open_of_def split: prod.splits if_splits)

lemma carry_in_moves:
  assumes "dec_exact D" and "carry_in D b carry = (b', carry', Inr m)" and "carry_ok carry"
  shows "open_of b' + carried_of carry' = open_of b + carried_of carry \<and> carry_ok carry'"
  using assms(2) carry_in_loop_moves [OF assms(1) _ assms(3)]
  by (auto simp: carry_in_def open_of_def split: prod.splits)

lemma complete_batch_keeps:
  assumes D: "dec_exact (dec E)" and wf: "well_formed m" and r: "r < length (status_heap m)"
    and c: "complete_batch E m bid r ts = (m', Inr ())"
  shows "keeps m m' 0 \<and> length (status_heap m') = length (status_heap m) \<and> open_of (status_heap m' ! r) = 0"
proof -
  obtain b carry res where co: "carry_over (dec E) (status_heap m ! r) (carried m) = (b, carry, res)"
    by (metis prod_cases3)
  with c have res: "res = Inr ()" by (cases res) (auto simp: complete_batch_def)
  have "map_of (engagements m) bid \<noteq> None"
  proof
    assume "map_of (engagements m) bid = None"
    with c co res show False by (simp add: complete_batch_def Let_def)
  qed
  then obtain es where es: "map_of (engagements m) bid = Some es" by blast
  obtain h1 kept mints where rm: "retain_mints (ts - mint_wait_period E) (order_heap m) (ready_mints m) =
    (h1, kept, mints)" by (metis prod_cases3)
  obtain h2 continued where cont: "continue_orders h1 (map se_index_order (engaged_orders es)) = (h2, continued)"
    by fastforce
  from c co res es rm cont have m': "status_heap m' = (status_heap m)[r := b]" "carried m' = carry"
    "order_heap m' = h2" "batches m' = batches m" "engagements m' = engagements m"
    by (simp_all add: complete_batch_def emit_def Let_def split: if_splits) auto
  have "map lots h2 = map lots (order_heap m)"
    using retain_mints_keeps [OF rm] continue_orders_keeps [OF cont] by simp
  from allocated_lots [OF this] carry_over_moves [OF D co [unfolded res]] wf r m' show ?thesis
    by (auto simp: keeps_def well_formed_def ledger_def total_open_update)
qed

section \<open>Sending and processing\<close>

lemma try_add_position_open:
  "try_add_position D b ao ts = Some b' \<Longrightarrow> open_of b' = open_of b"
  by (auto simp: try_add_position_def Let_def open_of_def total_put_assoc batch_asset_position_try_new_def
      bind_eq_Some_conv split: option.splits)

lemma add_positions_open:
  "add_positions D ts aos b = Some b' \<Longrightarrow> open_of b' = open_of b"
  by (induction aos arbitrary: b) (auto simp: bind_eq_Some_conv dest!: try_add_position_open)

lemma adjust_loop_open:
  "adjust_loop cps aos b = (aos', b', r) \<Longrightarrow> open_of b' = open_of b"
proof (induction aos arbitrary: b aos' b' r)
  case (Cons ao aos)
  let ?k = "(ao_symbol ao, ao_side ao)"
  show ?case
  proof (cases "map_of cps ?k")
    case None
    with Cons show ?thesis by (auto simp: Let_def split: prod.splits)
  next
    case c: (Some c)
    show ?thesis
    proof (cases "map_of (bs_positions b) ?k")
      case None
      with Cons.prems c show ?thesis by (auto simp: Let_def)
    next
      case (Some p)
      let ?b = "b\<lparr>bs_positions := put_assoc ?k (p\<lparr>bp_is_cancelled := True, bp_quantity_cancelled := 0\<rparr>) (bs_positions b)\<rparr>"
      obtain aos1 b1 r1 where a: "adjust_loop cps aos ?b = (aos1, b1, r1)" by (metis prod_cases3)
      with Cons.prems c Some have "b' = b1" by (auto simp: Let_def)
      with Cons.IH [OF a] open_of_put [OF Some] show ?thesis by simp
    qed
  qed
qed simp

lemma adjust_order_batch_open:
  "adjust_order_batch E bo b cps = (bo', b', Inr ()) \<Longrightarrow> open_of b' = open_of b"
  by (auto simp: adjust_order_batch_def open_of_def split: prod.splits sum.splits
      dest!: adjust_loop_open [unfolded open_of_def])

lemma register_batch_keeps:
  assumes wf: "well_formed m" and b: "register_batch E m bo b = (m', Inr r)"
  shows "keeps m m' (open_of b) \<and> r < length (status_heap m')"
proof -
  from b have "r = length (status_heap m)" "status_heap m' = status_heap m @ [b]"
    "batches m' = put_assoc (bo_batch_order_id bo) (length (status_heap m)) (batches m)"
    "carried m' = carried m" "order_heap m' = order_heap m" "engagements m' = engagements m"
    by (auto simp: register_batch_def Let_def emit_def split: if_splits sum.splits)
  with wf show ?thesis
    by (auto simp: keeps_def well_formed_def ledger_def dest!: set_put_assoc)
qed

lemma send_batch_keeps:
  assumes D: "dec_exact (dec E)" and wf: "well_formed m" and s: "send_batch E m es ts = (m', Inr r)"
  shows "keeps m m' 0 \<and> r < length (status_heap m')"
proof -
  obtain n x where bo: "build_batch_order E m es ts = (m\<lparr>next_order := n\<rparr>, x)"
    by (cases "build_asset_orders E (asset_price_limits es) (asset_quantities es) (next_order m)")
      (simp add: build_batch_order_def)
  let ?m = "m\<lparr>next_order := n\<rparr>"
  from s bo obtain o1 where x: "x = Inr o1" by (cases x) (auto simp: send_batch_def split: if_splits)
  from s bo x obtain b where b: "add_positions (dec E) ts (bo_asset_orders o1)
      (batch_order_status_new (bo_batch_order_id o1) ts) = Some b"
    by (cases "add_positions (dec E) ts (bo_asset_orders o1) (batch_order_status_new (bo_batch_order_id o1) ts)")
      (auto simp: send_batch_def split: if_splits)
  obtain b1 carry y where ci: "carry_in (dec E) b (carried m) = (b1, carry, y)" by (metis prod_cases3)
  with s bo x b obtain cps where y: "y = Inr cps" by (cases y) (auto simp: send_batch_def split: if_splits)
  obtain o2 b2 z where adj: "adjust_order_batch E o1 b1 cps = (o2, b2, z)" by (metis prod_cases3)
  with s bo x b ci y have z: "z = Inr ()" by (cases z) (auto simp: send_batch_def split: if_splits)
  with s bo x b ci y adj have reg: "register_batch E (?m\<lparr>carried := carry\<rparr>) o2 b2 = (m', Inr r)"
    by (simp add: send_batch_def split: if_splits)
  have "carry_ok (carried m)" using wf by (simp add: well_formed_def)
  from carry_in_moves [OF D ci [unfolded y] this] have "open_of b1 + carried_of carry = open_of b + carried_of (carried m)"
    and ok: "carry_ok carry" by simp_all
  moreover have "open_of b = 0"
    using add_positions_open [OF b] by (simp add: batch_order_status_new_def open_of_def)
  ultimately have moved: "open_of b2 + carried_of carry = carried_of (carried m)"
    using adjust_order_batch_open [OF adj [unfolded z]] by simp
  have "well_formed (?m\<lparr>carried := carry\<rparr>)" using wf ok by (simp add: well_formed_def)
  from register_batch_keeps [OF this reg] moved show ?thesis
    by (simp add: keeps_def ledger_def)
qed

lemma send_all_batches_keeps:
  assumes D: "dec_exact (dec E)"
  shows "send_all_batches E ts m ess = (m', sent, []) \<Longrightarrow> well_formed m \<Longrightarrow>
    keeps m m' 0 \<and> (\<forall>r\<in>set sent. r < length (status_heap m'))"
proof (induction ess arbitrary: m sent)
  case Nil
  then show ?case by (auto intro: keeps_refl)
next
  case (Cons es ess)
  obtain m1 x where s: "send_batch E m es ts = (m1, x)" by fastforce
  obtain m2 sent' fs where rest: "send_all_batches E ts m1 ess = (m2, sent', fs)" by (metis prod_cases3)
  from Cons.prems(1) s rest obtain r where x: "x = Inr r" and eqs: "m' = m2" "fs = []" "sent = r # sent'"
    by (auto split: sum.splits)
  note one = send_batch_keeps [OF D Cons.prems(2) s [unfolded x]]
  have "well_formed m1" using one by (simp add: keeps_def)
  with Cons.IH [of m1 sent'] rest eqs one show ?case
    by (auto simp: keeps_def)
qed

lemma fill_internally_keeps:
  assumes D: "dec_exact (dec E)" "0 < zero_threshold E" and wf: "well_formed m"
    and r: "r < length (status_heap m)" and f: "fill_internally E ts m r = (m', Returns (Inr ()))"
  shows "keeps m m' 0"
proof -
  obtain m1 x where fb: "fill_batch_orders E m r = (m1, x)" by fastforce
  with f have x: "x = Returns (Inr ())"
    by (cases x rule: succeeded.cases) (auto simp: fill_internally_def)
  note one = fill_batch_orders_keeps [OF D wf r fb [unfolded x]]
  show ?thesis
  proof (cases "bs_is_cancelled (status_heap m1 ! r)")
    case False
    with f fb x one show ?thesis by (simp add: fill_internally_def Let_def)
  next
    case True
    obtain m2 y where c: "complete_batch E m1 (bs_batch_order_id (status_heap m1 ! r)) r ts = (m2, y)"
      by fastforce
    with f fb x True have "m' = m2" "y = Inr ()" by (simp_all add: fill_internally_def Let_def)
    moreover from this one complete_batch_keeps [OF D(1) _ _ c [unfolded \<open>y = Inr ()\<close>]] r
    have "keeps m1 m2 0" by (simp add: keeps_def)
    ultimately show ?thesis using one by (auto intro: keeps_trans0)
  qed
qed

lemma fill_all_internally_keeps:
  assumes D: "dec_exact (dec E)" "0 < zero_threshold E"
  shows "fill_all_internally E ts m rs = (m', Returns (Inr [])) \<Longrightarrow> well_formed m \<Longrightarrow>
    (\<forall>r\<in>set rs. r < length (status_heap m)) \<Longrightarrow> keeps m m' 0"
proof (induction rs arbitrary: m)
  case Nil
  then show ?case by (simp add: keeps_refl)
next
  case (Cons r rs)
  obtain m1 x where f: "fill_internally E ts m r = (m1, x)" by fastforce
  with Cons.prems(1) obtain y where x: "x = Returns y" by (cases x) auto
  obtain m2 z where rest: "fill_all_internally E ts m1 rs = (m2, z)" by fastforce
  with Cons.prems(1) f x obtain fs where z: "z = Returns (Inr fs)"
    by (cases z rule: succeeded.cases) auto
  from Cons.prems(1) f x rest z have eqs: "m' = m2" "fs = []" "y = Inr ()"
    by (auto split: sum.splits)
  have one: "keeps m m1 0"
    by (rule fill_internally_keeps [OF D Cons.prems(2) _ f [unfolded x eqs]]) (use Cons.prems(3) in simp)
  then have "keeps m1 m' 0"
    using Cons.IH [of m1] rest z eqs Cons.prems(3) by (force simp: keeps_def)
  with one show ?case by (rule keeps_trans0)
qed

lemma cleanup_loop_subset:
  "cleanup_loop heap bs es = (bs', es') \<Longrightarrow> set bs' \<subseteq> set bs \<and> set es' \<subseteq> set es"
proof (induction heap bs es arbitrary: bs' es' rule: cleanup_loop.induct)
  case (2 heap bid r bs es)
  then show ?case by (fastforce split: if_splits prod.splits)
qed simp

lemma cleanup_batches_keeps: "well_formed m \<Longrightarrow> keeps m (cleanup_batches m) 0"
proof -
  assume wf: "well_formed m"
  obtain bs es where c: "cleanup_loop (status_heap m) (batches m) (engagements m) = (bs, es)" by fastforce
  from cleanup_loop_subset [OF c] wf show ?thesis
    by (auto simp: cleanup_batches_def c keeps_def well_formed_def ledger_def)
qed

lemma send_more_batches_keeps:
  assumes D: "dec_exact (dec E)" "0 < zero_threshold E" and wf: "well_formed m"
    and s: "send_more_batches E m ts = (m', Returns (Inr ()))"
  shows "keeps m m' 0"
proof -
  let ?n = "min (length (ready_batches m)) (max_batch_size E)"
  let ?m = "m\<lparr>ready_batches := drop ?n (ready_batches m)\<rparr>"
  obtain m1 sent fs where a: "send_all_batches E ts ?m
      (List.map_filter (\<lambda>bid. map_of (engagements m) bid) (take ?n (ready_batches m))) = (m1, sent, fs)"
    by (metis prod_cases3)
  obtain m2 x where f: "fill_all_internally E ts m1 sent = (m2, x)" by fastforce
  from s a f obtain fs' where x: "x = Returns (Inr fs')" "fs @ fs' = []" "m' = m2"
    by (cases x rule: succeeded.cases) (auto simp: send_more_batches_def Let_def split: if_splits)
  have wf': "well_formed ?m" using wf by (simp add: well_formed_def)
  from x a have "keeps ?m m1 0 \<and> (\<forall>r\<in>set sent. r < length (status_heap m1))"
    by (intro send_all_batches_keeps [OF D(1) _ wf']) auto
  moreover from this x f have "keeps m1 m2 0"
    by (intro fill_all_internally_keeps [OF D]) (auto simp: keeps_def)
  ultimately have "keeps ?m m2 0" by (blast intro: keeps_trans0)
  with x(3) show ?thesis by (simp add: keeps_def ledger_def)
qed

lemma process_batches_keeps:
  assumes D: "dec_exact (dec E)" "0 < zero_threshold E" and wf: "well_formed m"
    and s: "process_batches E m ts = (m', x)" "succeeded x"
  shows "keeps m m' 0"
proof -
  obtain m1 y where a: "send_more_batches E m ts = (m1, y)" by fastforce
  with s have y: "y = Returns (Inr ())" and m': "m' = cleanup_batches m1"
    by (cases y rule: succeeded.cases; auto simp: process_batches_def Let_def)+
  from send_more_batches_keeps [OF D wf a [unfolded y]] have "keeps m m1 0" .
  moreover from this have "keeps m1 m' 0" unfolding m' by (intro cleanup_batches_keeps) (simp add: keeps_def)
  ultimately show ?thesis by (rule keeps_trans0)
qed

section \<open>The handlers\<close>

lemma batch_fill_Inr:
  "batch_fill D l (b, p) = ((b', p'), Inr ()) \<Longrightarrow>
     bp_open_lots p' = bp_open_lots p @ [l] \<and> bs_positions b' = bs_positions b \<and>
     bs_is_cancelled b' = bs_is_cancelled b"
  by (auto simp: batch_fill_def attempt_def Let_def split: option.splits)

lemma batch_update_open:
  assumes "batch_update D b oid lid closing k price q fee ts = (b', Inr ())"
  shows "open_of b' = open_of b + q \<and> bs_is_cancelled b' = bs_is_cancelled b"
proof -
  from assms obtain p where p: "map_of (bs_positions b) k = Some p"
    by (auto simp: batch_update_def split: option.splits)
  let ?l = "\<lparr>bl_order_id = oid, bl_lot_id = lid, bl_closing_lot_id = closing,
    bl_original_quantity = q, bl_remaining_quantity = q, bl_price = price, bl_fee = fee, bl_timestamp = ts\<rparr>"
  obtain b1 p1 r where f: "batch_fill D ?l (b, p) = ((b1, p1), r)" by (metis prod.collapse)
  with assms p have r: "r = Inr ()" and b': "b' = b1\<lparr>bs_positions := put_assoc k p1 (bs_positions b1)\<rparr>"
    by (simp_all add: batch_update_def)
  from batch_fill_Inr [OF f [unfolded r]] p b' show ?thesis
    by (simp add: open_of_def total_put_assoc)
qed

lemma batch_cancel_open:
  "batch_cancel b k q c ts = (b', r) \<Longrightarrow> open_of b' = open_of b"
  by (auto simp: batch_cancel_def Let_def open_of_def total_put_assoc split: option.splits if_splits)

lemma engage_one_lots: "engage_one D ts a s e = (s', e') \<Longrightarrow> lots s' = lots s \<and> se_index_order e' = se_index_order e"
  by (auto simp: engage_one_def set_order_status_def Let_def split: option.splits if_splits)

lemma engage_all_lots:
  "engage_all D ts answers heap es = (heap', es') \<Longrightarrow>
     map lots heap' = map lots heap \<and> map se_index_order es' = map se_index_order es"
proof (induction es arbitrary: heap heap' es')
  case (Cons e es)
  let ?i = "se_index_order e"
  obtain s e1 where o1: "engage_one D ts (answers (se_address e, se_client_order_id e)) (heap ! ?i) e = (s, e1)"
    by fastforce
  obtain h es1 where rest: "engage_all D ts answers (heap[?i := s]) es = (h, es1)" by fastforce
  from Cons.prems o1 rest have eqs: "heap' = h" "es' = e1 # es1" by (simp_all add: Let_def)
  from engage_one_lots [OF o1] have "map lots (heap[?i := s]) = map lots heap"
    by (intro map_list_update_same) simp
  with Cons.IH [OF rest] engage_one_lots [OF o1] eqs show ?case by simp
qed simp

text \<open>What the solver may do to the shared orders: it adds orders and keeps what is assigned to each.\<close>

definition solver_update_ok :: "solver_order list \<Rightarrow> solver_order list \<Rightarrow> bool" where
  "solver_update_ok heap heap' \<longleftrightarrow> length heap \<le> length heap' \<and> allocated heap' = allocated heap"

fun balanced_call :: "batch_env \<Rightarrow> batch_manager \<Rightarrow> batch_call \<Rightarrow> bool" where
  "balanced_call E m (SolverUpdate heap) = solver_update_ok (order_heap m) heap"
| "balanced_call E m (NewEngagement es) =
     (refs_ok (length (order_heap m)) es \<and> snd (batch_apply E m (NewEngagement es)))"
| "balanced_call E m c = snd (batch_apply E m c)"

lemma refs_ok_mono: "refs_ok n es \<Longrightarrow> n \<le> n' \<Longrightarrow> refs_ok n' es"
  by (auto simp: refs_ok_def)

lemma handle_new_lot_keeps:
  assumes D: "dec_exact (dec E)" "0 < zero_threshold E" and wf: "well_formed m"
    and h: "handle_new_lot E m oid bid lid closing sy sd price q fee ts = (m', x)" "succeeded x"
  shows "keeps m m' q"
proof -
  from h obtain r where r: "map_of (batches m) bid = Some r"
    by (auto simp: handle_new_lot_def split: option.splits)
  then have lt: "r < length (status_heap m)" using wf by (auto simp: well_formed_def dest!: map_of_SomeD)
  obtain b y where u: "batch_update (dec E) (status_heap m ! r) oid lid closing (sy, sd) price q fee ts = (b, y)"
    by fastforce
  with h r have y: "y = Inr ()" by (cases y) (auto simp: handle_new_lot_def Let_def)
  let ?m = "m\<lparr>status_heap := (status_heap m)[r := b]\<rparr>"
  from h r u y have f: "fill_batch_orders E ?m r = (m', Returns (Inr ()))"
    by (cases x rule: succeeded.cases) (auto simp: handle_new_lot_def Let_def)
  have "keeps m ?m q"
    using wf lt batch_update_open [OF u [unfolded y]]
    by (simp add: keeps_def well_formed_def ledger_def total_open_update)
  moreover from this have "keeps ?m m' 0"
    using fill_batch_orders_keeps [OF D _ _ f] lt by (simp add: keeps_def)
  ultimately show ?thesis using keeps_trans by fastforce
qed

lemma handle_cancel_order_keeps:
  assumes D: "dec_exact (dec E)" and wf: "well_formed m"
    and h: "handle_cancel_order E m bid sy sd qc c ts = (m', Inr ())"
  shows "keeps m m' 0"
proof -
  from h obtain r where r: "map_of (batches m) bid = Some r"
    by (auto simp: handle_cancel_order_def split: option.splits)
  then have lt: "r < length (status_heap m)" using wf by (auto simp: well_formed_def dest!: map_of_SomeD)
  obtain b y where u: "batch_cancel (status_heap m ! r) (sy, sd) qc c ts = (b, y)" by fastforce
  with h r have y: "y = Inr ()" by (cases y) (auto simp: handle_cancel_order_def Let_def)
  let ?m = "m\<lparr>status_heap := (status_heap m)[r := b]\<rparr>"
  have one: "keeps m ?m 0"
    using wf lt batch_cancel_open [OF u] by (simp add: keeps_def well_formed_def ledger_def total_open_update)
  show ?thesis
  proof (cases "bs_is_cancelled b")
    case False
    with h r u y one show ?thesis by (simp add: handle_cancel_order_def Let_def)
  next
    case True
    with h r u y have "complete_batch E ?m bid r ts = (m', Inr ())"
      by (simp add: handle_cancel_order_def Let_def)
    from complete_batch_keeps [OF D _ _ this] one lt have "keeps ?m m' 0" by (simp add: keeps_def)
    with one show ?thesis by (rule keeps_trans0)
  qed
qed

lemma handle_engage_keeps:
  assumes wf: "well_formed m" and h: "handle_engage_index_order E m bid answers ts = (m', x)" "succeeded x"
  shows "keeps m m' 0"
proof -
  from h obtain es where es: "map_of (engagements m) bid = Some es"
    by (auto simp: handle_engage_index_order_def split: option.splits)
  obtain heap eos where e: "engage_all (dec E) ts answers (order_heap m) (engaged_orders es) = (heap, eos)"
    by fastforce
  from h es e have m': "m' = m\<lparr>order_heap := heap,
      engagements := put_assoc bid (es\<lparr>engaged_orders := eos\<rparr>) (engagements m),
      ready_batches := ready_batches m @ [bid]\<rparr>"
    by (simp add: handle_engage_index_order_def)
  from wf es have ok: "refs_ok (length (order_heap m)) es"
    unfolding well_formed_def by (blast intro: refs_ok_engagements)
  note eq = engage_all_lots [OF e]
  from eq have "se_index_order ` set eos = se_index_order ` set (engaged_orders es)"
    by (metis set_map)
  then have "refs_ok (length (order_heap m)) (es\<lparr>engaged_orders := eos\<rparr>)"
    using ok by (force simp: refs_ok_def image_iff set_eq_iff)
  with eq allocated_lots [of heap "order_heap m"] wf show ?thesis
    unfolding m' keeps_def well_formed_def ledger_def by (auto dest!: set_put_assoc)
qed

section \<open>No quantity is lost\<close>

definition ledger_step :: "batch_env \<Rightarrow> batch_manager \<times> amount \<Rightarrow> batch_call \<Rightarrow> batch_manager \<times> amount" where
  "ledger_step E st c = (batch_step E (fst st) c, snd st + bought c)"

definition balanced :: "amount \<Rightarrow> batch_manager \<times> amount \<Rightarrow> bool" where
  "balanced a st \<longleftrightarrow> well_formed (fst st) \<and> ledger (fst st) = a + snd st"

lemma balanced_call_keeps:
  assumes D: "dec_exact (dec E)" "0 < zero_threshold E" and wf: "well_formed m" and ok: "balanced_call E m c"
  shows "well_formed (batch_step E m c) \<and> ledger (batch_step E m c) = ledger m + bought c"
proof (cases c)
  case (NewEngagement es)
  with ok wf show ?thesis
    by (auto simp: batch_step_def handle_new_engagement_def well_formed_def ledger_def Let_def
        split: if_splits dest!: set_put_assoc)
next
  case (EngageOrders bid answers ts)
  with ok handle_engage_keeps [OF wf] show ?thesis
    by (auto simp: batch_step_def keeps_def split: prod.splits)
next
  case (NewLot oid bid lid closing sy sd price q fee ts)
  with ok handle_new_lot_keeps [OF D wf] show ?thesis
    by (auto simp: batch_step_def keeps_def split: prod.splits)
next
  case (CancelOrder bid sy sd q x ts)
  obtain m' r where h: "handle_cancel_order E m bid sy sd q x ts = (m', r)" by fastforce
  with ok CancelOrder have "r = Inr ()" by (cases r) auto
  with h handle_cancel_order_keeps [OF D(1) wf, of bid sy sd q x ts m'] CancelOrder show ?thesis
    by (simp add: batch_step_def keeps_def)
next
  case (Process ts)
  with ok process_batches_keeps [OF D wf] show ?thesis
    by (auto simp: batch_step_def keeps_def split: prod.splits)
next
  case (SolverUpdate heap)
  with ok wf show ?thesis
    by (auto simp: batch_step_def solver_update_ok_def well_formed_def ledger_def intro: refs_ok_mono)
qed

interpretation batch_ledger: reactive "ledger_step E"
  "\<lambda>st c. dec_exact (dec E) \<and> 0 < zero_threshold E \<and> balanced_call E (fst st) c" "balanced a" for E a
proof unfold_locales
  fix st c
  assume "balanced a st" "dec_exact (dec E) \<and> 0 < zero_threshold E \<and> balanced_call E (fst st) c"
  with balanced_call_keeps [of E "fst st" c] show "balanced a (ledger_step E st c)"
    by (simp add: balanced_def ledger_step_def)
qed

text \<open>
  C3: as long as every call of the batch manager succeeds, every unit it buys is in exactly one
  place. Through any run of calls that all succeed, whose engagements name registered orders and in
  which the solver in between only adds orders or regroups what is assigned to them, the quantity
  in the open lots of all batches, the quantity carried over and the quantity assigned to index
  orders add up to what was assigned at the start plus all that was bought. Nothing is claimed of
  a run with a failing call: a fill that fails half-way leaves what it had moved.
\<close>

theorem batch_quantities_add_up:
  assumes "dec_exact (dec E)" "0 < zero_threshold E"
    and "admits (\<lambda>st c. balanced_call E (fst st) c) (ledger_step E) (batch_manager_new orders, 0) calls"
    and "run (ledger_step E) (batch_manager_new orders, 0) calls = (m, total_bought)"
  shows "total open_of (status_heap m) + carried_of (carried m) + allocated (order_heap m) =
    allocated orders + total_bought"
proof -
  have "balanced (allocated orders) (batch_manager_new orders, 0)"
    by (simp add: balanced_def well_formed_def ledger_def batch_manager_new_def carry_ok_def carried_of_def)
  moreover have "admits (\<lambda>st c. dec_exact (dec E) \<and> 0 < zero_threshold E \<and> balanced_call E (fst st) c)
      (ledger_step E) (batch_manager_new orders, 0) calls"
    using assms(1-3) by simp
  ultimately have "balanced (allocated orders) (m, total_bought)"
    using batch_ledger.run_inv assms(4) by metis
  then show ?thesis by (simp add: balanced_def ledger_def)
qed

declare batch_manager_new_def [evals] set_order_status_def [evals] emit_def [evals] build_batch_order_def [evals]
  adjust_order_batch_def [evals] register_batch_def [evals] send_batch_def [evals] asset_fill_rate_def [evals]
  settle_fill_def [evals] fill_status_def [evals] finish_fill_def [evals] apply_fill_def [evals]
  fill_index_order_def [evals] fill_batch_orders_def [evals] complete_batch_def [evals]
  cleanup_batches_def [evals] fill_internally_def [evals] send_more_batches_def [evals]
  process_batches_def [evals] handle_new_engagement_def [evals] engage_one_def [evals]
  handle_engage_index_order_def [evals] handle_new_lot_def [evals] handle_cancel_order_def [evals]
  batch_step_def [evals] ledger_step_def [evals] refs_ok_def [evals] get_key_def [evals]

definition demo_batch_env :: batch_env where
  "demo_batch_env = \<lparr>dec = dec_upto 1000000, order_id_of = (\<lambda>n. ''o''),
     send_answer = (\<lambda>_ _. Inr ()), fill_answer = (\<lambda>_ _. Inr ()), max_batch_size = 4,
     zero_threshold = 1 / 1000, fill_threshold = 9 / 10, mint_threshold = 1 / 2, mint_wait_period = 10\<rparr>"

definition demo_engaged :: engaged_solver_orders where
  "demo_engaged = \<lparr>es_batch_order_id = ''B1'', asset_price_limits = [''BTC'' \<mapsto> 10],
     asset_quantities = [(''BTC'', 4)],
     engaged_orders = [\<lparr>se_index_order = 0, asset_contribution_fractions = [''BTC'' \<mapsto> 1],
       asset_quantity_contributions = [''BTC'' \<mapsto> 4], se_chain_id = 1, se_address = 2,
       se_client_order_id = ''c'', se_symbol = ''IDX'',
       se_basket = \<lparr>basket_assets = [\<lparr>ba_weight = \<lparr>w_asset = \<lparr>ticker = ''BTC'', listing = ''X''\<rparr>, weight = 1\<rparr>,
          quantity = 2\<rparr>]\<rparr>, se_engaged_side = Buy, se_engaged_collateral = 50,
       new_engaged_collateral = 50, engaged_quantity = 2, engaged_price = 20, se_filled_quantity = 0\<rparr>]\<rparr>"

definition demo_answers :: "address \<times> client_order_id \<Rightarrow> engaged_index_order option" where
  "demo_answers k = (if k = (2, ''c'') then Some \<lparr>ei_chain_id = 1, ei_address = 2,
     ei_client_order_id = ''c'', collateral_engaged = 50, collateral_remaining = 0\<rparr> else None)"

definition demo_batch_calls :: "batch_call list" where
  "demo_batch_calls = [NewEngagement demo_engaged, EngageOrders ''B1'' demo_answers 1, Process 2,
     NewLot ''o'' ''B1'' ''l1'' None ''BTC'' Buy 10 3 1 3, CancelOrder ''B1'' ''BTC'' Buy 1 True 4]"

definition demo_orders :: "solver_order list" where
  "demo_orders = [demo_batch_order\<lparr>s_status := SolverReady\<rparr>]"

declare demo_batch_env_def [evals] demo_engaged_def [evals] demo_answers_def [evals]
  demo_batch_calls_def [evals] demo_orders_def [evals]

lemma batch_quantities_add_up_witness:
  "\<exists>m. run (ledger_step demo_batch_env) (batch_manager_new demo_orders, 0) demo_batch_calls = (m, 3) \<and>
     total open_of (status_heap m) + carried_of (carried m) + allocated (order_heap m) = allocated demo_orders + 3"
proof -
  let ?r = "run (ledger_step demo_batch_env) (batch_manager_new demo_orders, 0) demo_batch_calls"
  have "snd ?r = 3" by (simp add: evals)
  then have r: "?r = (fst ?r, 3)" by (metis prod.collapse)
  have "admits (\<lambda>st c. balanced_call demo_batch_env (fst st) c) (ledger_step demo_batch_env)
      (batch_manager_new demo_orders, 0) demo_batch_calls"
    by (simp add: evals)
  moreover have "dec_exact (dec demo_batch_env)" "0 < zero_threshold demo_batch_env"
    by (simp_all add: demo_batch_env_def)
  ultimately show ?thesis using batch_quantities_add_up r by blast
qed

section \<open>What a fill does to one order\<close>

text \<open>
  The documented rounding of a product that the code's bound on the filled quantity rests on: a
  share of at most one of a quantity is at most that quantity.
\<close>

definition dec_mul_share :: "dec_ops \<Rightarrow> bool" where
  "dec_mul_share D \<longleftrightarrow> (\<forall>r q x. dec_mul D r q = Some x \<longrightarrow> r \<le> 1 \<longrightarrow> 0 \<le> q \<longrightarrow> x \<le> q)"

lemma dec_mul_share_upto [simp]: "dec_mul_share (dec_upto m)"
  by (auto simp: dec_mul_share_def dest: mult_right_mono)

text \<open>
  C24: a fill of an index order that succeeds moves collateral from engaged to spent by exactly
  the cost of the lots assigned, leaves the order's remaining collateral and every other order
  alone, adds to the order's filled quantity what it adds to the engagement's, and never fills
  the engagement beyond the quantity engaged, nor takes a fill back.
\<close>

theorem fill_moves_collateral:
  assumes "dec_exact (dec E)" "0 < zero_threshold E" "dec_mul_share (dec E)"
    and "se_index_order e < length (order_heap m)" "0 \<le> engaged_quantity e"
    and "se_filled_quantity e \<le> engaged_quantity e"
    and "fill_index_order E m b e = (m', b', e', Returns (Inr ()))"
    and "s = order_heap m ! se_index_order e" "s' = order_heap m' ! se_index_order e"
  shows "(\<exists>als. lots s' = lots s @ als \<and>
      s_collateral_spent s' = s_collateral_spent s + spent_of (dec E) als \<and>
      s_engaged_collateral s' = s_engaged_collateral s - spent_of (dec E) als) \<and>
    s_remaining_collateral s' = s_remaining_collateral s \<and>
    s_filled_quantity s' - s_filled_quantity s = se_filled_quantity e' - se_filled_quantity e \<and>
    se_filled_quantity e \<le> se_filled_quantity e' \<and> se_filled_quantity e' \<le> engaged_quantity e \<and>
    (\<forall>j. j \<noteq> se_index_order e \<longrightarrow> order_heap m' ! j = order_heap m ! j)"
  using assms(7)
proof (cases rule: fill_index_order_cases)
  case none
  then show ?thesis using assms by (auto intro: exI [of _ "[]"] simp: spent_of_def)
next
  case (fill filled delta rate)
  note moved = apply_fill_moves [OF fill(1) assms(1,2,4)]
  from fill(3) assms(3,5) have "filled \<le> engaged_quantity e"
    unfolding dec_mul_share_def using min.cobounded2 by blast
  moreover have "delta = filled - se_filled_quantity e" using fill(4) assms(1) by (auto dest!: dec_sub_exact)
  moreover have "\<forall>j. j \<noteq> se_index_order e \<longrightarrow> order_heap m' ! j = order_heap m ! j"
    using apply_fill_shape [OF fill(1,2)] by (auto simp: fill_shape_def)
  ultimately show ?thesis using moved fill(5) assms(2,8,9) by (auto simp: fill_moves_def)
qed

definition demo_filling :: batch_manager where
  "demo_filling = run (batch_step demo_batch_env) (batch_manager_new demo_orders) (take 3 demo_batch_calls)"

definition demo_lot_in :: batch_order_status where
  "demo_lot_in = fst (batch_update (dec demo_batch_env) (status_heap demo_filling ! 0) ''o'' ''l1'' None
     (''BTC'', Buy) 10 3 1 3)"

declare demo_filling_def [evals] demo_lot_in_def [evals]

lemma fill_moves_collateral_witness:
  "\<exists>m' b' e'. fill_index_order demo_batch_env demo_filling demo_lot_in (hd (engaged_orders demo_engaged)) =
     (m', b', e', Returns (Inr ())) \<and> s_collateral_spent (order_heap m' ! 0) = 31 \<and>
     se_filled_quantity e' \<le> 2"
proof -
  let ?e = "hd (engaged_orders demo_engaged)"
  let ?r = "fill_index_order demo_batch_env demo_filling demo_lot_in ?e"
  have "snd (snd (snd ?r)) = Returns (Inr ())" "s_collateral_spent (order_heap (fst ?r) ! 0) = 31"
    by (simp_all add: evals)
  then have r: "?r = (fst ?r, fst (snd ?r), fst (snd (snd ?r)), Returns (Inr ()))"
    by (metis prod.collapse)
  have "dec_exact (dec demo_batch_env)" "0 < zero_threshold demo_batch_env" "dec_mul_share (dec demo_batch_env)"
    "se_index_order ?e < length (order_heap demo_filling)" "0 \<le> engaged_quantity ?e"
    "se_filled_quantity ?e \<le> engaged_quantity ?e" "engaged_quantity ?e = 2"
    by (simp_all add: evals)
  with fill_moves_collateral [OF this(1-6) r refl refl] r
    \<open>s_collateral_spent (order_heap (fst ?r) ! 0) = 31\<close> show ?thesis by fastforce
qed

end
