(* ===== verification/BatchMint.thy ===== *)
theory BatchMint
  imports BatchLedger
begin

text \<open>
  The orders the batch manager hands out for minting: over any run of its calls, failing ones
  included, none is handed out twice. Only the solver could put an order that was handed out
  back into a state the manager fills; that it does not is the side condition of a run. Then the
  effect of one order of a batch that cannot be filled on the others.
\<close>

section \<open>What has been handed out\<close>

fun mints_of :: "batch_effect \<Rightarrow> nat list" where
  "mints_of (PublishBatch (BatchMintable is)) = is"
| "mints_of _ = []"

definition handed_out :: "batch_manager \<Rightarrow> nat list" where
  "handed_out m = concat (map mints_of (effects m))"

text \<open>A status from which the manager never fills or notes an order again.\<close>

definition past_filling :: "solver_order_status \<Rightarrow> bool" where
  "past_filling st \<longleftrightarrow> st \<noteq> SolverReady \<and> st \<noteq> Engaged \<and> st \<noteq> PartlyMintable"

abbreviation order_keys :: "solver_order list \<Rightarrow> (u32 \<times> address \<times> client_order_id) list" where
  "order_keys heap \<equiv> map get_key heap"

definition mints_fit :: "batch_manager \<Rightarrow> bool" where
  "mints_fit m \<longleftrightarrow> distinct (handed_out m) \<and>
     (\<forall>i\<in>set (handed_out m). i < length (order_heap m) \<and> past_filling (s_status (order_heap m ! i))) \<and>
     distinct (map fst (ready_mints m)) \<and>
     (\<forall>(k, i)\<in>set (ready_mints m). i < length (order_heap m) \<and> k = get_key (order_heap m ! i) \<and>
        i \<notin> set (handed_out m)) \<and>
     (\<forall>(bid, es)\<in>set (engagements m). refs_ok (length (order_heap m)) es)"

lemma note_fits:
  "mints_fit m \<Longrightarrow> (k, i) \<in> set (ready_mints m) \<Longrightarrow>
     i < length (order_heap m) \<and> k = get_key (order_heap m ! i) \<and> i \<notin> set (handed_out m)"
  by (auto simp: mints_fit_def)

text \<open>Steps that leave the orders and the notes alone and hand nothing out.\<close>

definition mint_quiet :: "batch_manager \<Rightarrow> batch_manager \<Rightarrow> bool" where
  "mint_quiet m m' \<longleftrightarrow> order_heap m' = order_heap m \<and> ready_mints m' = ready_mints m \<and>
     handed_out m' = handed_out m \<and>
     (\<forall>(bid, es)\<in>set (engagements m'). (bid, es) \<in> set (engagements m) \<or> refs_ok (length (order_heap m)) es)"

lemma mint_quiet_fit: "mints_fit m \<Longrightarrow> mint_quiet m m' \<Longrightarrow> mints_fit m'"
  by (fastforce simp: mints_fit_def mint_quiet_def)

lemma fill_shape_fit:
  assumes fit: "mints_fit m" and i: "i < length (order_heap m)" and f: "fill_shape m i m'"
  shows "mints_fit m'"
proof -
  from f obtain s' where
    heap: "order_heap m' = (order_heap m)[i := s']" and key: "get_key s' = get_key (order_heap m ! i)"
    and st: "s_status (order_heap m ! i) \<in> {Engaged, PartlyMintable}"
    and ef: "effects m' = effects m \<or> (\<exists>req. effects m' = effects m @ [FillOrderRequest req])"
    and rm: "ready_mints m' = ready_mints m \<or>
      ready_mints m' = put_assoc (get_key (order_heap m ! i)) i (ready_mints m)"
    and es: "engagements m' = engagements m"
    unfolding fill_shape_def same_books_def by blast
  from ef have out: "handed_out m' = handed_out m" by (auto simp: handed_out_def)
  from fit st have fresh: "i \<notin> set (handed_out m)" by (auto simp: mints_fit_def past_filling_def)
  have keys: "get_key (order_heap m' ! j) = get_key (order_heap m ! j)" for j
    using heap key i by (cases "j = i") auto
  have "distinct (map fst (ready_mints m'))"
    using fit rm put_assoc_distinct unfolding mints_fit_def by metis
  moreover have "i' < length (order_heap m) \<and> k = get_key (order_heap m ! i') \<and> i' \<notin> set (handed_out m)"
    if "(k, i') \<in> set (ready_mints m')" for k i'
  proof -
    from that rm have "(k, i') = (get_key (order_heap m ! i), i) \<or> (k, i') \<in> set (ready_mints m)"
      by (auto dest: set_put_assoc)
    with fit fresh i show ?thesis by (auto simp: mints_fit_def)
  qed
  moreover have "past_filling (s_status (order_heap m' ! j))" if "j \<in> set (handed_out m)" for j
    using fit fresh that heap by (cases "j = i") (auto simp: mints_fit_def)
  ultimately show ?thesis
    using fit heap out keys es by (auto simp: mints_fit_def)
qed

lemma fill_loop_fit:
  "fill_loop E m b es = (m', b', es', out) \<Longrightarrow> mints_fit m \<Longrightarrow>
     (\<forall>e\<in>set es. se_index_order e < length (order_heap m)) \<Longrightarrow> mints_fit m'"
proof (induction es arbitrary: m b es')
  case (Cons e es)
  from Cons.prems(1) show ?case
  proof (cases rule: fill_loop_Cons)
    case (stop e1)
    from fill_index_order_shape [OF stop(1)] fill_shape_fit [OF Cons.prems(2)] Cons.prems
    show ?thesis by auto
  next
    case (go m1 b1 e1 es1)
    from fill_index_order_shape [OF go(1)] fill_shape_fit [OF Cons.prems(2)] Cons.prems
    have "mints_fit m1" by auto
    with Cons.IH [OF go(2)] fill_index_order_books [OF go(1)] Cons.prems(3) show ?thesis by simp
  qed
qed simp

lemma refs_ok_same:
  "map se_index_order eos = map se_index_order (engaged_orders es) \<Longrightarrow> refs_ok n es \<Longrightarrow>
     refs_ok n (es\<lparr>engaged_orders := eos\<rparr>)"
proof -
  assume "map se_index_order eos = map se_index_order (engaged_orders es)" "refs_ok n es"
  moreover from this have "se_index_order ` set eos = se_index_order ` set (engaged_orders es)"
    by (metis set_map)
  ultimately show ?thesis by (force simp: refs_ok_def image_iff set_eq_iff)
qed

lemma fill_batch_orders_fit:
  assumes fit: "mints_fit m" and f: "fill_batch_orders E m r = (m', out)"
  shows "mints_fit m'"
proof -
  let ?bid = "bs_batch_order_id (status_heap m ! r)"
  show ?thesis
  proof (cases "map_of (engagements m) ?bid")
    case None
    with f fit show ?thesis by (simp add: fill_batch_orders_def Let_def)
  next
    case (Some es)
    obtain m1 b1 eos out1 where l: "fill_loop E m (status_heap m ! r) (engaged_orders es) = (m1, b1, eos, out1)"
      by (metis prod_cases4)
    with f Some have m': "m' = m1\<lparr>status_heap := (status_heap m1)[r := b1],
        engagements := put_assoc ?bid (es\<lparr>engaged_orders := eos\<rparr>) (engagements m1)\<rparr>"
      by (simp add: fill_batch_orders_def Let_def)
    from fit Some have ok: "refs_ok (length (order_heap m)) es"
      unfolding mints_fit_def by (blast intro: refs_ok_engagements)
    then have "mints_fit m1"
      by (intro fill_loop_fit [OF l fit]) (simp add: refs_ok_def)
    moreover have "refs_ok (length (order_heap m1)) (es\<lparr>engaged_orders := eos\<rparr>)"
      using fill_loop_books [OF l] refs_ok_same [OF _ ok] by simp
    ultimately show ?thesis
      by (elim mint_quiet_fit) (auto simp: m' mint_quiet_def handed_out_def dest!: set_put_assoc)
  qed
qed

section \<open>Completion\<close>

text \<open>What a pass over the notes does, and how it extends to one more note.\<close>

definition retained ::
  "solver_order list \<Rightarrow> ('k \<times> nat) list \<Rightarrow> solver_order list \<Rightarrow> ('k \<times> nat) list \<Rightarrow> nat list \<Rightarrow> bool" where
  "retained heap ms h kept mints \<longleftrightarrow>
     order_keys h = order_keys heap \<and> distinct mints \<and> set mints \<subseteq> snd ` set ms \<and>
     (\<forall>i\<in>set mints. s_status (h ! i) = FullyMintable) \<and>
     (\<forall>j. j \<notin> set mints \<longrightarrow> h ! j = heap ! j) \<and> set kept \<subseteq> set ms \<and>
     snd ` set kept \<inter> set mints = {} \<and> (distinct (map fst ms) \<longrightarrow> distinct (map fst kept))"

lemma retained_mint:
  assumes r: "retained (heap[i := s]) ms h kept mints" and i: "i < length heap" "i \<notin> snd ` set ms"
    and s: "get_key s = get_key (heap ! i)" "s_status s = FullyMintable"
  shows "retained heap ((k, i) # ms) h kept (i # mints)"
proof -
  have "order_keys (heap[i := s]) = order_keys heap" by (rule map_list_update_same) (rule s(1))
  moreover have "set mints \<subseteq> snd ` set ms" "snd ` set kept \<subseteq> snd ` set ms"
    using r by (auto simp: retained_def)
  with i(2) have fresh: "i \<notin> set mints" "i \<notin> snd ` set kept" by auto
  moreover from r fresh(1) i s(2) have "s_status (h ! i) = FullyMintable"
    unfolding retained_def by simp
  moreover have other: "h ! j = heap ! j" if "j \<noteq> i" "j \<notin> set mints" for j
    using r that unfolding retained_def by simp
  ultimately show ?thesis
    unfolding retained_def
  proof (intro conjI ballI allI impI, goal_cases)
    case 1 then show ?case using r by (simp add: retained_def)
  next
    case 2 then show ?case using r by (simp add: retained_def)
  next
    case 3 then show ?case using r by (auto simp: retained_def)
  next
    case (4 j) then show ?case using r by (auto simp: retained_def)
  next
    case (5 j) then show ?case by simp
  next
    case 6 then show ?case using r by (auto simp: retained_def)
  next
    case 7 then show ?case using r by (simp add: retained_def)
  next
    case 8 then show ?case using r by (simp add: retained_def)
  qed
qed

lemma retained_keep:
  assumes r: "retained heap ms h kept mints" and i: "i \<notin> snd ` set ms"
  shows "retained heap ((k, i) # ms) h ((k, i) # kept) mints"
proof -
  have "set mints \<subseteq> snd ` set ms" "fst ` set kept \<subseteq> fst ` set ms" using r by (auto simp: retained_def)
  with i have "i \<notin> set mints" "fst ` set kept \<subseteq> fst ` set ms" by auto
  with r show ?thesis
    unfolding retained_def
  proof (intro conjI ballI allI impI, goal_cases)
    case 3 then show ?case by auto
  next
    case 6 then show ?case by auto
  next
    case 8 then show ?case by auto
  qed simp_all
qed

lemma retain_mints_spec:
  "retain_mints ready heap ms = (h, kept, mints) \<Longrightarrow> distinct (map snd ms) \<Longrightarrow>
     (\<forall>(k, i)\<in>set ms. i < length heap) \<Longrightarrow> retained heap ms h kept mints"
proof (induction ready heap ms arbitrary: h kept mints rule: retain_mints.induct)
  case (1 ready heap)
  then show ?case by (simp add: retained_def)
next
  case (2 ready heap k i ms)
  let ?s = "heap ! i"
  let ?heap = "heap[i := set_order_status ?s FullyMintable]"
  have i: "i < length heap" "i \<notin> snd ` set ms" using 2(5,6) by (auto simp: image_iff)
  have sub: "distinct (map snd ms)" "\<forall>(k, i)\<in>set ms. i < length heap" "\<forall>(k, i)\<in>set ms. i < length ?heap"
    using 2(5,6) by auto
  consider (full) "s_status ?s = FullyMintable"
    | (part) "s_status ?s \<noteq> FullyMintable" "s_status ?s = PartlyMintable \<and> s_timestamp ?s \<le> ready"
    | (keep) "s_status ?s \<noteq> FullyMintable" "\<not> (s_status ?s = PartlyMintable \<and> s_timestamp ?s \<le> ready)"
    by blast
  then show ?case
  proof cases
    case full
    obtain h1 k1 m1 where r: "retain_mints ready heap ms = (h1, k1, m1)" by (metis prod_cases3)
    with 2(4) full have eqs: "h = h1" "kept = k1" "mints = i # m1" by (simp_all add: Let_def)
    from 2(1) [OF refl full r sub(1,2)] have "retained (heap[i := ?s]) ms h1 k1 m1" by simp
    from retained_mint [OF this i refl full] show ?thesis unfolding eqs .
  next
    case part
    obtain h1 k1 m1 where r: "retain_mints ready ?heap ms = (h1, k1, m1)" by (metis prod_cases3)
    with 2(4) part have eqs: "h = h1" "kept = k1" "mints = i # m1" by (simp_all add: Let_def)
    from retained_mint [OF 2(2) [OF refl part r sub(1,3)] i] show ?thesis
      unfolding eqs by (simp add: set_order_status_def get_key_def)
  next
    case keep
    obtain h1 k1 m1 where r: "retain_mints ready heap ms = (h1, k1, m1)" by (metis prod_cases3)
    with 2(4) keep have eqs: "h = h1" "kept = (k, i) # k1" "mints = m1" by (auto simp: Let_def)
    from retained_keep [OF 2(3) [OF refl keep r sub(1,2)] i(2)] show ?thesis unfolding eqs .
  qed
qed

lemma continue_orders_spec:
  "continue_orders heap is = (h, continued) \<Longrightarrow>
     map s_status h = map s_status heap \<and> order_keys h = order_keys heap"
proof (induction heap "is" arbitrary: h continued rule: continue_orders.induct)
  case (2 heap i "is")
  let ?s = "(heap ! i)\<lparr>collateral_carried := s_engaged_collateral (heap ! i), s_engaged_collateral := 0\<rparr>"
  have "map s_status (heap[i := ?s]) = map s_status heap" "order_keys (heap[i := ?s]) = order_keys heap"
    by (simp_all add: map_list_update_same get_key_def)
  with 2 show ?case by (auto simp: Let_def split: if_splits prod.splits)
qed simp
lemma complete_batch_fit:
  assumes fit: "mints_fit m" and c: "complete_batch E m bid r ts = (m', out)"
  shows "mints_fit m'"
proof -
  obtain b carry res where co: "carry_over (dec E) (status_heap m ! r) (carried m) = (b, carry, res)"
    by (metis prod_cases3)
  let ?m = "m\<lparr>status_heap := (status_heap m)[r := b], carried := carry\<rparr>"
  have quiet: "mints_fit ?m"
    by (rule mint_quiet_fit [OF fit]) (auto simp: mint_quiet_def handed_out_def)
  show ?thesis
  proof (cases "res = Inr () \<and> map_of (engagements m) bid \<noteq> None")
    case False
    with c co quiet show ?thesis
      by (cases res; cases "map_of (engagements m) bid") (auto simp: complete_batch_def Let_def)
  next
    case True
    then obtain es where es: "map_of (engagements m) bid = Some es" and res: "res = Inr ()" by blast
    obtain h1 kept mints where rm: "retain_mints (ts - mint_wait_period E) (order_heap m) (ready_mints m) =
      (h1, kept, mints)" by (metis prod_cases3)
    obtain h2 continued where cont: "continue_orders h1 (map se_index_order (engaged_orders es)) = (h2, continued)"
      by fastforce
    from c co res es rm cont have m': "order_heap m' = h2" "ready_mints m' = kept"
      "engagements m' = engagements m" "handed_out m' = handed_out m @ mints"
      by (auto simp: complete_batch_def Let_def emit_def handed_out_def)
    have "distinct (map snd (ready_mints m))"
    proof -
      have "inj_on snd (set (ready_mints m))"
      proof (rule inj_onI)
        fix x y
        assume xy: "x \<in> set (ready_mints m)" "y \<in> set (ready_mints m)" "snd x = snd y"
        then have "fst x = get_key (order_heap m ! snd x)" "fst y = get_key (order_heap m ! snd y)"
          by (metis note_fits [OF fit] prod.collapse)+
        with xy(3) show "x = y" by (simp add: prod_eq_iff)
      qed
      moreover have "distinct (ready_mints m)" using fit by (auto simp: mints_fit_def distinct_map)
      ultimately show ?thesis by (simp add: distinct_map)
    qed
    then have ret: "retained (order_heap m) (ready_mints m) h1 kept mints"
      using fit by (intro retain_mints_spec [OF rm]) (auto simp: mints_fit_def)
    from continue_orders_spec [OF cont] have st: "map s_status h2 = map s_status h1" "order_keys h2 = order_keys h1"
      by simp_all
    have keys: "order_keys h2 = order_keys (order_heap m)" using ret st by (simp add: retained_def)
    then have len: "length h2 = length (order_heap m)" by (rule map_eq_imp_length_eq)
    then have len1: "length h1 = length (order_heap m)" using st(2) map_eq_imp_length_eq by metis
    have status: "s_status (h2 ! j) = s_status (h1 ! j)" if "j < length (order_heap m)" for j
      using st(1) len len1 that by (metis nth_map)
    have key: "get_key (h2 ! j) = get_key (order_heap m ! j)" if "j < length (order_heap m)" for j
      using keys len that by (metis nth_map)
    have sub: "set mints \<subseteq> snd ` set (ready_mints m)" "set kept \<subseteq> set (ready_mints m)"
      "snd ` set kept \<inter> set mints = {}" "distinct mints" "distinct (map fst kept)"
      using ret fit by (simp_all add: retained_def mints_fit_def)
    have noted: "i < length (order_heap m) \<and> i \<notin> set (handed_out m)" if "i \<in> snd ` set (ready_mints m)" for i
      using fit that by (auto simp: mints_fit_def)
    have past: "past_filling (s_status (h2 ! i))" if i: "i \<in> set (handed_out m @ mints)" for i
    proof (cases "i \<in> set mints")
      case True
      then have "s_status (h1 ! i) = FullyMintable" using ret by (simp add: retained_def)
      moreover have "i < length (order_heap m)" using noted sub(1) True by blast
      ultimately show ?thesis using status [of i] by (simp add: past_filling_def)
    next
      case False
      with i ret have "h1 ! i = order_heap m ! i" by (simp add: retained_def)
      with i False fit status show ?thesis by (auto simp: mints_fit_def)
    qed
    have "set (handed_out m) \<inter> set mints = {}" using noted sub(1) by blast
    then have "distinct (handed_out m @ mints)" using fit sub(4) by (simp add: mints_fit_def)
    moreover have "\<forall>i\<in>set (handed_out m @ mints). i < length h2"
    proof
      fix i
      assume "i \<in> set (handed_out m @ mints)"
      then show "i < length h2"
        using fit noted [of i] sub(1) len by (cases "i \<in> set mints") (auto simp: mints_fit_def)
    qed
    moreover have "i < length h2 \<and> k = get_key (h2 ! i) \<and> i \<notin> set (handed_out m @ mints)"
      if "(k, i) \<in> set kept" for k i
    proof -
      from that sub(2) have r: "(k, i) \<in> set (ready_mints m)" by blast
      from note_fits [OF fit r]
      have f: "i < length (order_heap m)" "k = get_key (order_heap m ! i)" "i \<notin> set (handed_out m)"
        by simp_all
      moreover have "i \<in> snd ` set kept" using that by force
      ultimately show ?thesis using key len sub(3) by auto
    qed
    moreover have "\<forall>(bid, es)\<in>set (engagements m). refs_ok (length h2) es"
      using fit len by (simp add: mints_fit_def)
    ultimately show ?thesis using past sub(5) unfolding mints_fit_def m' by blast
  qed
qed

section \<open>The other calls\<close>

lemma build_batch_order_quiet: "build_batch_order E m es ts = (m', r) \<Longrightarrow> mint_quiet m m'"
  by (auto simp: build_batch_order_def mint_quiet_def handed_out_def split: prod.splits)

lemma mint_quiet_trans: "mint_quiet m m' \<Longrightarrow> mint_quiet m' m'' \<Longrightarrow> mint_quiet m m''"
  by (fastforce simp: mint_quiet_def)

lemma register_batch_quiet: "register_batch E m bo b = (m', r) \<Longrightarrow> mint_quiet m m'"
  by (auto simp: register_batch_def Let_def emit_def mint_quiet_def handed_out_def split: if_splits)

lemma carried_quiet: "mint_quiet m m' \<Longrightarrow> mint_quiet m (m'\<lparr>carried := carry\<rparr>)"
  by (auto simp: mint_quiet_def handed_out_def)

lemma send_batch_quiet:
  assumes s: "send_batch E m es ts = (m', r)"
  shows "mint_quiet m m'"
proof -
  have refl: "mint_quiet m m" by (auto simp: mint_quiet_def)
  obtain m1 x where b: "build_batch_order E m es ts = (m1, x)" by fastforce
  note q1 = build_batch_order_quiet [OF b]
  have "m' = m \<or> m' = m1 \<or> (\<exists>carry. m' = m1\<lparr>carried := carry\<rparr> \<or>
      (\<exists>bo st. register_batch E (m1\<lparr>carried := carry\<rparr>) bo st = (m', r)))"
    using s b by (auto simp: send_batch_def split: if_splits sum.splits option.splits prod.splits)
  then show ?thesis
    using refl q1 carried_quiet [OF q1] register_batch_quiet mint_quiet_trans by metis
qed

lemma send_all_batches_fit: "send_all_batches E ts m ess = (m', sent, fs) \<Longrightarrow> mints_fit m \<Longrightarrow> mints_fit m'"
proof (induction ess arbitrary: m sent fs)
  case (Cons es ess)
  obtain m1 x where s: "send_batch E m es ts = (m1, x)" by fastforce
  obtain m2 sent' fs' where rest: "send_all_batches E ts m1 ess = (m2, sent', fs')" by (metis prod_cases3)
  have "m' = m2" using Cons.prems(1) s rest by (auto split: sum.splits)
  with Cons.IH [of m1] rest mint_quiet_fit [OF Cons.prems(2) send_batch_quiet [OF s]] show ?case by blast
qed simp

lemma fill_internally_fit:
  assumes "mints_fit m" and f: "fill_internally E ts m r = (m', out)"
  shows "mints_fit m'"
proof -
  obtain m1 x where b: "fill_batch_orders E m r = (m1, x)" by fastforce
  note fit = fill_batch_orders_fit [OF assms(1) b]
  have "m' = m1 \<or> (\<exists>bid y. complete_batch E m1 bid r ts = (m', y))"
    using f b by (cases x rule: succeeded.cases)
      (auto simp: fill_internally_def Let_def split: if_splits prod.splits)
  with fit complete_batch_fit show ?thesis by blast
qed

lemma fill_all_internally_fit: "fill_all_internally E ts m rs = (m', out) \<Longrightarrow> mints_fit m \<Longrightarrow> mints_fit m'"
proof (induction rs arbitrary: m out)
  case (Cons r rs)
  obtain m1 x where f: "fill_internally E ts m r = (m1, x)" by fastforce
  note fit = fill_internally_fit [OF Cons.prems(2) f]
  show ?case
  proof (cases x)
    case Panic
    with Cons.prems(1) f fit show ?thesis by simp
  next
    case (Returns y)
    obtain m2 z where rest: "fill_all_internally E ts m1 rs = (m2, z)" by fastforce
    with Cons.prems(1) f Returns have "m' = m2" by (cases z rule: succeeded.cases) auto
    with Cons.IH [OF _ fit] rest show ?thesis by blast
  qed
qed simp

lemma process_batches_fit:
  assumes fit: "mints_fit m" and p: "process_batches E m ts = (m', out)"
  shows "mints_fit m'"
proof -
  let ?n = "min (length (ready_batches m)) (max_batch_size E)"
  let ?m = "m\<lparr>ready_batches := drop ?n (ready_batches m)\<rparr>"
  have fit0: "mints_fit ?m" by (rule mint_quiet_fit [OF fit]) (auto simp: mint_quiet_def handed_out_def)
  obtain m1 sent fs where a: "send_all_batches E ts ?m
      (List.map_filter (\<lambda>bid. map_of (engagements m) bid) (take ?n (ready_batches m))) = (m1, sent, fs)"
    by (metis prod_cases3)
  obtain m2 x where f: "fill_all_internally E ts m1 sent = (m2, x)" by fastforce
  have fit2: "mints_fit m2" by (rule fill_all_internally_fit [OF f send_all_batches_fit [OF a fit0]])
  have "fst (send_more_batches E m ts) = m2"
    using a f by (cases x rule: succeeded.cases) (auto simp: send_more_batches_def Let_def)
  then obtain y where s: "send_more_batches E m ts = (m2, y)" by (metis prod.collapse)
  have "m' = m2 \<or> m' = cleanup_batches m2"
    using p s by (cases y rule: succeeded.cases) (auto simp: process_batches_def Let_def)
  moreover obtain bs es where c: "cleanup_loop (status_heap m2) (batches m2) (engagements m2) = (bs, es)"
    by fastforce
  have "mint_quiet m2 (cleanup_batches m2)"
    using cleanup_loop_subset [OF c] by (auto simp: cleanup_batches_def c mint_quiet_def handed_out_def)
  ultimately show ?thesis using fit2 mint_quiet_fit by blast
qed

lemma engage_one_past:
  "engage_one D ts a s e = (s', e') \<Longrightarrow>
     get_key s' = get_key s \<and> (past_filling (s_status s) \<longrightarrow> past_filling (s_status s')) \<and>
     se_index_order e' = se_index_order e"
  by (auto simp: engage_one_def set_order_status_def past_filling_def get_key_def Let_def
      split: option.splits if_splits)

lemma engage_all_past:
  "engage_all D ts answers heap es = (heap', es') \<Longrightarrow>
     order_keys heap' = order_keys heap \<and>
     (\<forall>j. past_filling (s_status (heap ! j)) \<longrightarrow> past_filling (s_status (heap' ! j)))"
proof (induction es arbitrary: heap heap' es')
  case (Cons e es)
  let ?i = "se_index_order e"
  obtain s e1 where o1: "engage_one D ts (answers (se_address e, se_client_order_id e)) (heap ! ?i) e = (s, e1)"
    by fastforce
  obtain h es1 where rest: "engage_all D ts answers (heap[?i := s]) es = (h, es1)" by fastforce
  from Cons.prems o1 rest have eqs: "heap' = h" by (simp add: Let_def)
  have "order_keys (heap[?i := s]) = order_keys heap"
    by (rule map_list_update_same) (use engage_one_past [OF o1] in simp)
  moreover have "past_filling (s_status (heap[?i := s] ! j))" if "past_filling (s_status (heap ! j))" for j
    using that engage_one_past [OF o1] by (cases "?i < length heap"; cases "?i = j") (auto simp: list_update_beyond)
  ultimately show ?case using Cons.IH [OF rest] eqs by simp
qed simp

lemma handle_engage_fit:
  assumes fit: "mints_fit m" and h: "handle_engage_index_order E m bid answers ts = (m', out)"
  shows "mints_fit m'"
proof (cases "map_of (engagements m) bid")
  case None
  with h fit show ?thesis by (simp add: handle_engage_index_order_def)
next
  case (Some es)
  obtain heap eos where e: "engage_all (dec E) ts answers (order_heap m) (engaged_orders es) = (heap, eos)"
    by fastforce
  from h Some e have m': "m' = m\<lparr>order_heap := heap,
      engagements := put_assoc bid (es\<lparr>engaged_orders := eos\<rparr>) (engagements m),
      ready_batches := ready_batches m @ [bid]\<rparr>"
    by (simp add: handle_engage_index_order_def)
  note past = engage_all_past [OF e]
  then have len: "length heap = length (order_heap m)" by (metis map_eq_imp_length_eq)
  have key: "get_key (heap ! j) = get_key (order_heap m ! j)" if "j < length (order_heap m)" for j
    using past len that by (metis nth_map)
  from fit Some have ok: "refs_ok (length (order_heap m)) es"
    unfolding mints_fit_def by (blast intro: refs_ok_engagements)
  have "refs_ok (length (order_heap m)) (es\<lparr>engaged_orders := eos\<rparr>)"
    using refs_ok_same [OF _ ok] engage_all_lots [OF e] by simp
  then show ?thesis
    using fit len key past unfolding m' mints_fit_def handed_out_def by (auto dest!: set_put_assoc)
qed

lemma handle_new_lot_fit:
  assumes fit: "mints_fit m"
    and h: "handle_new_lot E m oid bid lid closing sy sd price q fee ts = (m', out)"
  shows "mints_fit m'"
proof (cases "map_of (batches m) bid")
  case None
  with h fit show ?thesis by (simp add: handle_new_lot_def)
next
  case (Some r)
  obtain b x where u: "batch_update (dec E) (status_heap m ! r) oid lid closing (sy, sd) price q fee ts = (b, x)"
    by fastforce
  let ?m = "m\<lparr>status_heap := (status_heap m)[r := b]\<rparr>"
  have "mints_fit ?m" by (rule mint_quiet_fit [OF fit]) (auto simp: mint_quiet_def handed_out_def)
  moreover have "m' = ?m \<or> (\<exists>y. fill_batch_orders E ?m r = (m', y))"
    using h Some u by (cases x) (auto simp: handle_new_lot_def Let_def)
  ultimately show ?thesis using fill_batch_orders_fit by blast
qed

lemma handle_cancel_order_fit:
  assumes fit: "mints_fit m" and h: "handle_cancel_order E m bid sy sd qc c ts = (m', out)"
  shows "mints_fit m'"
proof (cases "map_of (batches m) bid")
  case None
  with h fit show ?thesis by (simp add: handle_cancel_order_def)
next
  case (Some r)
  obtain b x where u: "batch_cancel (status_heap m ! r) (sy, sd) qc c ts = (b, x)" by fastforce
  let ?m = "m\<lparr>status_heap := (status_heap m)[r := b]\<rparr>"
  have "mints_fit ?m" by (rule mint_quiet_fit [OF fit]) (auto simp: mint_quiet_def handed_out_def)
  moreover have "m' = ?m \<or> (\<exists>y. complete_batch E ?m bid r ts = (m', y))"
    using h Some u by (cases x) (auto simp: handle_cancel_order_def Let_def split: if_splits)
  ultimately show ?thesis using complete_batch_fit by blast
qed

section \<open>No order is handed out twice\<close>

text \<open>
  What a run assumes of the solver: it adds orders, keeps the identity of each, and does not put
  an order that was handed out for minting back to be filled. An engagement names orders that
  exist.
\<close>

fun minting_call :: "batch_manager \<Rightarrow> batch_call \<Rightarrow> bool" where
  "minting_call m (SolverUpdate heap) \<longleftrightarrow> length (order_heap m) \<le> length heap \<and>
     take (length (order_heap m)) (order_keys heap) = order_keys (order_heap m) \<and>
     list_all (\<lambda>i. past_filling (s_status (heap ! i))) (handed_out m)"
| "minting_call m (NewEngagement es) \<longleftrightarrow> refs_ok (length (order_heap m)) es"
| "minting_call m _ \<longleftrightarrow> True"

lemma batch_step_fit:
  assumes fit: "mints_fit m" and ok: "minting_call m c"
  shows "mints_fit (batch_step E m c)"
proof (cases c)
  case (NewEngagement es)
  with ok have "mint_quiet m (batch_step E m c)"
    by (auto simp: batch_step_def handle_new_engagement_def Let_def mint_quiet_def handed_out_def
        dest!: set_put_assoc)
  with fit show ?thesis by (rule mint_quiet_fit)
next
  case (EngageOrders bid answers ts)
  with handle_engage_fit [OF fit] show ?thesis by (auto simp: batch_step_def split: prod.splits)
next
  case (NewLot oid bid lid closing sy sd price q fee ts)
  with handle_new_lot_fit [OF fit] show ?thesis by (auto simp: batch_step_def split: prod.splits)
next
  case (CancelOrder bid sy sd q x ts)
  with handle_cancel_order_fit [OF fit] show ?thesis by (auto simp: batch_step_def split: prod.splits)
next
  case (Process ts)
  with process_batches_fit [OF fit] show ?thesis by (auto simp: batch_step_def split: prod.splits)
next
  case (SolverUpdate heap)
  with ok have len: "length (order_heap m) \<le> length heap"
    and keys: "take (length (order_heap m)) (order_keys heap) = order_keys (order_heap m)"
    and past: "\<forall>i\<in>set (handed_out m). past_filling (s_status (heap ! i))"
    by (auto simp: list_all_iff)
  have key: "get_key (heap ! i) = get_key (order_heap m ! i)" if "i < length (order_heap m)" for i
    using keys len that by (metis length_map nth_map nth_take order_less_le_trans)
  have refs: "\<forall>(bid, es)\<in>set (engagements m). refs_ok (length heap) es"
    using fit len by (auto simp: mints_fit_def intro: refs_ok_mono)
  have noted: "\<forall>(k, i)\<in>set (ready_mints m). i < length heap \<and> k = get_key (heap ! i) \<and> i \<notin> set (handed_out m)"
    using note_fits [OF fit] key len by fastforce
  have "\<forall>i\<in>set (handed_out m). i < length heap" using fit len by (auto simp: mints_fit_def)
  with fit past refs noted SolverUpdate show ?thesis
    by (simp add: batch_step_def mints_fit_def handed_out_def)
qed

interpretation batch_mints: reactive "batch_step E" minting_call mints_fit for E
  by unfold_locales (rule batch_step_fit)


definition demo_mint_calls :: "batch_call list" where
  "demo_mint_calls = take 4 demo_batch_calls @ [CancelOrder ''B1'' ''BTC'' Buy 1 True 20,
     SolverUpdate [demo_batch_order\<lparr>s_status := Minted\<rparr>], Process 21]"

declare demo_mint_calls_def [evals] handed_out_def [evals] past_filling_def [evals]


section \<open>One order that cannot be filled\<close>

text \<open>
  An order that is past filling blocks the orders behind it. When the first order engaged
  in a batch has been minted or has failed, every lot that arrives for the batch is booked to its
  position and the call then fails, with no order filled and nothing asked of the host.
\<close>

theorem past_order_blocks_batch:
  assumes "map_of (batches m) bid = Some r" "r < length (status_heap m)"
    and "bs_batch_order_id (status_heap m ! r) = bid"
    and "map_of (engagements m) bid = Some es" "engaged_orders es = e # behind"
    and "s_status (order_heap m ! se_index_order e) = st" "past_filling st" "st \<noteq> FullyMintable"
    and "batch_update (dec E) (status_heap m ! r) oid lid closing (sy, sd) price q fee ts = (b, Inr ())"
  shows "\<exists>m' err. handle_new_lot E m oid bid lid closing sy sd price q fee ts = (m', Returns (Inl err)) \<and>
    status_heap m' ! r = b \<and> order_heap m' = order_heap m \<and> effects m' = effects m"
proof -
  from assms(9) obtain p where "map_of (bs_positions (status_heap m ! r)) (sy, sd) = Some p"
    by (auto simp: batch_update_def split: option.splits)
  with assms(9) have "bs_batch_order_id b = bs_batch_order_id (status_heap m ! r)"
    by (auto simp: batch_update_def batch_fill_def attempt_def Let_def split: option.splits)
  with assms have "fill_batch_orders E (m\<lparr>status_heap := (status_heap m)[r := b]\<rparr>) r =
      (m\<lparr>status_heap := (status_heap m)[r := b],
         engagements := put_assoc bid (es\<lparr>engaged_orders := e # behind\<rparr>) (engagements m)\<rparr>,
       Returns (Inl ''Invalid Index order state''))"
    by (auto simp: fill_batch_orders_def fill_index_order_def past_filling_def Let_def)
  with assms show ?thesis by (simp add: handle_new_lot_def Let_def)
qed

definition demo_blocked :: batch_manager where
  "demo_blocked = demo_filling\<lparr>order_heap := [demo_batch_order\<lparr>s_status := Minted\<rparr>]\<rparr>"

declare demo_blocked_def [evals]

lemma past_order_blocks_batch_witness:
  "\<exists>m' err. handle_new_lot demo_batch_env demo_blocked ''o'' ''B1'' ''l1'' None ''BTC'' Buy 10 3 1 3 =
     (m', Returns (Inl err)) \<and> effects m' = effects demo_blocked"
proof -
  have "map_of (batches demo_blocked) ''B1'' = Some 0" "0 < length (status_heap demo_blocked)"
    "bs_batch_order_id (status_heap demo_blocked ! 0) = ''B1''"
    by (simp_all add: evals)
  moreover have "\<exists>es. map_of (engagements demo_blocked) ''B1'' = Some es \<and>
      engaged_orders es = hd (engaged_orders es) # [] \<and> se_index_order (hd (engaged_orders es)) = 0"
    by (simp add: evals)
  then obtain es where "map_of (engagements demo_blocked) ''B1'' = Some es"
    "engaged_orders es = hd (engaged_orders es) # []" "se_index_order (hd (engaged_orders es)) = 0" by blast
  moreover have "s_status (order_heap demo_blocked ! 0) = Minted" by (simp add: evals)
  moreover have "past_filling Minted" "Minted \<noteq> FullyMintable" by (simp_all add: past_filling_def)
  moreover have "snd (batch_update (dec demo_batch_env) (status_heap demo_blocked ! 0) ''o'' ''l1'' None
      (''BTC'', Buy) 10 3 1 3) = Inr ()"
    by (simp add: evals)
  then obtain b where "batch_update (dec demo_batch_env) (status_heap demo_blocked ! 0) ''o'' ''l1'' None
      (''BTC'', Buy) 10 3 1 3 = (b, Inr ())" by (metis prod.collapse)
  ultimately show ?thesis using past_order_blocks_batch by metis
qed

end
