(* ===== verification/Persistence.thy ===== *)
theory Persistence
  imports Prelude
begin

text \<open>
  Where the managers keep their state, \<open>libs/symm-core/src/core/persistence.rs\<close>: a value per
  handle, where a handle is the root or a child of a handle. Values are JSON texts; turning a
  Rust value into a text and back is \<open>serde_json\<close>'s work and a parameter, \<open>codec\<close>. The trait
  \<open>Persistence\<close> is the record \<open>persistence_ops\<close> over a state of the provider, and what its
  clients rely on is the locale \<open>persistence\<close>. \<open>InMemoryPersistence\<close> is its provider here;
  \<open>JsonFilePersistence\<close>, the one the application uses, is the theory \<open>FilePersistence\<close>.
\<close>

section \<open>The interface\<close>

text \<open>A handle is the list of the keys that lead to it; \<open>child\<close> cannot fail in either provider.\<close>

type_synonym handle = "string list"

record 's persistence_ops =
  load_value :: "'s \<Rightarrow> handle \<Rightarrow> string option result"
  store_value :: "'s \<Rightarrow> handle \<Rightarrow> string \<Rightarrow> 's \<times> unit result"

definition child :: "handle \<Rightarrow> string \<Rightarrow> handle" where
  "child h k = h @ [k]"

text \<open>Serialization: a value may have no text, and a text may be no value.\<close>

record 'v codec =
  encode :: "'v \<Rightarrow> string option"
  decode :: "string \<Rightarrow> 'v option"

definition codec_ok :: "'v codec \<Rightarrow> bool" where
  "codec_ok c \<longleftrightarrow> (\<forall>v t. encode c v = Some t \<longrightarrow> decode c t = Some v)"

definition store_json :: "'s persistence_ops \<Rightarrow> 'v codec \<Rightarrow> 's \<Rightarrow> handle \<Rightarrow> 'v \<Rightarrow> 's \<times> unit result" where
  "store_json P c s h v =
     (case encode c v of
        None \<Rightarrow> (s, Inl ''Failed to serialize'')
      | Some t \<Rightarrow> store_value P s h t)"

definition load_json :: "'s persistence_ops \<Rightarrow> 'v codec \<Rightarrow> 's \<Rightarrow> handle \<Rightarrow> 'v option result" where
  "load_json P c s h =
     rbind (load_value P s h)
       (\<lambda>x. case x of
          None \<Rightarrow> Inr None
        | Some t \<Rightarrow> (case decode c t of None \<Rightarrow> Inl ''Failed to deserialize'' | Some v \<Rightarrow> Inr (Some v)))"

text \<open>
  The contract, for the handles a provider has a place for: a store that succeeds is what the next
  load of the same place returns, and a store, failed or not, leaves every other place alone.
\<close>

locale persistence =
  fixes P :: "'s persistence_ops"
    and slot :: "handle \<Rightarrow> 'p"
    and valid :: "handle \<Rightarrow> bool"
  assumes load_stored: "valid h \<Longrightarrow> valid h' \<Longrightarrow> store_value P s h t = (s', Inr u) \<Longrightarrow> slot h' = slot h \<Longrightarrow>
      load_value P s' h' = Inr (Some t)"
    and load_kept: "valid h \<Longrightarrow> valid h' \<Longrightarrow> store_value P s h t = (s', r) \<Longrightarrow> slot h' \<noteq> slot h \<Longrightarrow>
      load_value P s' h' = load_value P s h'"
begin

lemma json_stored:
  assumes "store_json P c s h v = (s', Inr u)" "codec_ok c" "valid h" "valid h'" "slot h' = slot h"
  shows "load_json P c s' h' = Inr (Some v)"
  using assms load_stored
  by (auto simp: store_json_def load_json_def codec_ok_def split: option.splits)

lemma json_kept:
  assumes "store_json P c s h v = (s', r)" "valid h" "valid h'" "slot h' \<noteq> slot h"
  shows "load_json P c' s' h' = load_json P c' s h'"
  using assms load_kept
  by (auto simp: store_json_def load_json_def split: option.splits)

end

text \<open>A provider with a place of its own for the root and for its child under every flat key.\<close>

locale keyed_persistence = persistence +
  fixes flat :: "string \<Rightarrow> bool"
  assumes valid_root: "valid []"
    and valid_child: "flat k \<Longrightarrow> valid (child [] k)"
    and slot_root: "flat k \<Longrightarrow> slot (child [] k) \<noteq> slot []"
    and slot_child: "flat k \<Longrightarrow> flat k' \<Longrightarrow> slot (child [] k) = slot (child [] k') \<Longrightarrow> k = k'"
begin

lemma child_stored:
  assumes "store_json P c s (child [] k) v = (s', Inr u)" "flat k"
  shows "codec_ok c \<Longrightarrow> load_json P c s' (child [] k) = Inr (Some v)"
    and "load_json P c' s' [] = load_json P c' s []"
    and "flat k' \<Longrightarrow> k' \<noteq> k \<Longrightarrow> load_json P c'' s' (child [] k') = load_json P c'' s (child [] k')"
proof -
  note ok = valid_root valid_child [OF assms(2)]
  show "codec_ok c \<Longrightarrow> load_json P c s' (child [] k) = Inr (Some v)"
    using json_stored [OF assms(1)] ok by blast
  show "load_json P c' s' [] = load_json P c' s []"
    using slot_root [OF assms(2)] by (intro json_kept [OF assms(1)] ok) simp
  show "load_json P c'' s' (child [] k') = load_json P c'' s (child [] k')" if "flat k'" "k' \<noteq> k"
    using slot_child assms(2) that by (intro json_kept [OF assms(1)] ok valid_child) auto
qed

lemma root_stored:
  assumes "store_json P c s [] v = (s', Inr u)"
  shows "codec_ok c \<Longrightarrow> load_json P c s' [] = Inr (Some v)"
    and "flat k \<Longrightarrow> load_json P c' s' (child [] k) = load_json P c' s (child [] k)"
  using json_stored [OF assms _ valid_root valid_root] slot_root
  by (blast, intro json_kept [OF assms] valid_root valid_child) auto

end

section \<open>In memory\<close>

text \<open>The shared \<open>data\<close> map of \<open>InMemoryPersistence\<close>, and the prefix a handle has in it.\<close>

type_synonym memory = "string \<Rightarrow> string option"

definition child_prefix :: "string \<Rightarrow> string \<Rightarrow> string" where
  "child_prefix prefix k = (if prefix = '''' then k else prefix @ ''/'' @ k)"

definition prefix_of :: "handle \<Rightarrow> string" where
  "prefix_of h = foldl child_prefix '''' h"

definition memory_key :: "handle \<Rightarrow> string" where
  "memory_key h = (if prefix_of h = '''' then ''root'' else prefix_of h)"

definition memory_load_value :: "memory \<Rightarrow> handle \<Rightarrow> string option result" where
  "memory_load_value s h = Inr (s (memory_key h))"

definition memory_store_value :: "memory \<Rightarrow> handle \<Rightarrow> string \<Rightarrow> memory \<times> unit result" where
  "memory_store_value s h t = (s(memory_key h \<mapsto> t), Inr ())"

definition memory_ops :: "memory persistence_ops" where
  "memory_ops = \<lparr>load_value = memory_load_value, store_value = memory_store_value\<rparr>"

text \<open>The root is filed under a word of its own, which no child may use, nor the empty text.\<close>

definition memory_child :: "string \<Rightarrow> bool" where
  "memory_child k \<longleftrightarrow> k \<noteq> [] \<and> k \<noteq> ''root''"

interpretation memory: keyed_persistence memory_ops memory_key "\<lambda>_. True" memory_child
  by unfold_locales
    (auto simp: memory_ops_def memory_load_value_def memory_store_value_def memory_key_def
      prefix_of_def child_def child_prefix_def memory_child_def split: if_splits)

end
