(* ===== verification/FilePersistence.thy ===== *)
theory FilePersistence
  imports Persistence "HOL-Library.Sublist"
begin

text \<open>
  \<open>JsonFilePersistence\<close>, \<open>libs/symm-core/src/core/persistence.rs\<close>: every handle is the path of a
  JSON file, and a child lives in the directory named after its parent. The file system is
  modelled as far as \<open>std::fs\<close> and \<open>std::path\<close> use it there: a tree of directories and files, the
  working directory, and which directories cannot be made and which files cannot be written. There
  are no links, and a file that exists can be read.
\<close>

section \<open>The file system\<close>

datatype node = File string | Dir "string \<Rightarrow> node option"

type_synonym location = "string list"

record disk =
  tree :: node
  work_dir :: location
  no_dir :: "location \<Rightarrow> bool"
  write_fault :: "location \<Rightarrow> string option option"

text \<open>What is at a location, and putting a node there; a directory on the way that is missing is made.\<close>

fun node_at :: "node \<Rightarrow> location \<Rightarrow> node option" where
  "node_at n [] = Some n"
| "node_at (File t) (c # cs) = None"
| "node_at (Dir d) (c # cs) = (case d c of None \<Rightarrow> None | Some n \<Rightarrow> node_at n cs)"

fun put_node :: "location \<Rightarrow> node \<Rightarrow> node \<Rightarrow> node" where
  "put_node [] x n = x"
| "put_node (c # cs) x (File t) = File t"
| "put_node (c # cs) x (Dir d) =
     Dir (d(c \<mapsto> put_node cs x (case d c of None \<Rightarrow> Dir Map.empty | Some n \<Rightarrow> n)))"

definition is_dir :: "disk \<Rightarrow> location \<Rightarrow> bool" where
  "is_dir s p \<longleftrightarrow> (case node_at (tree s) p of Some (Dir _) \<Rightarrow> True | _ \<Rightarrow> False)"

definition put_at :: "location \<Rightarrow> node \<Rightarrow> disk \<Rightarrow> disk" where
  "put_at p x s = s\<lparr>tree := put_node p x (tree s)\<rparr>"

text \<open>Where a component of a path leads to, and where a whole path does, if its directories exist.\<close>

definition enter :: "location \<Rightarrow> string \<Rightarrow> location" where
  "enter cur c = (if c = ''..'' then butlast cur else cur @ [c])"

fun walk :: "disk \<Rightarrow> location \<Rightarrow> string list \<Rightarrow> location option" where
  "walk s cur [] = Some cur"
| "walk s cur (c # cs) = (if is_dir s cur then walk s (enter cur c) cs else None)"

text \<open>\<open>create_dir_all\<close>: the directories made before a failure stay.\<close>

fun make_dirs :: "disk \<Rightarrow> location \<Rightarrow> string list \<Rightarrow> disk \<times> location result" where
  "make_dirs s cur [] = (s, Inr cur)"
| "make_dirs s cur (c # cs) =
     (let p = enter cur c
      in if is_dir s cur \<and> is_dir s p then make_dirs s p cs
         else if is_dir s cur \<and> node_at (tree s) p = None \<and> \<not> no_dir s p
           then make_dirs (put_at p (Dir Map.empty) s) p cs
         else (s, Inl ''Failed to create parent directory''))"

section \<open>Paths\<close>

text \<open>The parts of a text between slashes; empty parts and single dots lead nowhere.\<close>

fun split_path :: "string \<Rightarrow> string list" where
  "split_path [] = [[]]"
| "split_path (c # cs) =
     (if c = CHR ''/'' then [] # split_path cs
      else case split_path cs of [] \<Rightarrow> [[c]] | p # ps \<Rightarrow> (c # p) # ps)"

definition steps_of :: "string list \<Rightarrow> string list" where
  "steps_of = filter (\<lambda>c. c \<noteq> [] \<and> c \<noteq> ''.'')"

datatype path = Relative "string list" | Absolute "string list"

fun components :: "path \<Rightarrow> string list" where
  "components (Relative cs) = cs"
| "components (Absolute cs) = cs"

fun map_path :: "(string list \<Rightarrow> string list) \<Rightarrow> path \<Rightarrow> path" where
  "map_path f (Relative cs) = Relative (f cs)"
| "map_path f (Absolute cs) = Absolute (f cs)"

definition is_absolute :: "string \<Rightarrow> bool" where
  "is_absolute t \<longleftrightarrow> t \<noteq> [] \<and> hd t = CHR ''/''"

definition path_from :: "string \<Rightarrow> path" where
  "path_from t = (if is_absolute t then Absolute else Relative) (steps_of (split_path t))"

text \<open>\<open>PathBuf::push\<close>: an absolute path replaces the one it is pushed on.\<close>

definition push_path :: "path \<Rightarrow> string \<Rightarrow> path" where
  "push_path p t = (if is_absolute t then path_from t else map_path (\<lambda>cs. cs @ steps_of (split_path t)) p)"

text \<open>
  The file name without its extension: \<open>None\<close> if it has none, as a name without a dot, one whose
  only dot is the first character, and the parent directory.
\<close>

definition file_stem :: "string \<Rightarrow> string option" where
  "file_stem n = (if n = ''..'' then None
     else case dropWhile (\<lambda>c. c \<noteq> CHR ''.'') (rev n) of
            [] \<Rightarrow> None
          | [_] \<Rightarrow> None
          | _ # r \<Rightarrow> Some (rev r))"

definition drop_extension :: "string list \<Rightarrow> string list" where
  "drop_extension cs = (if cs = [] then [] else case file_stem (last cs) of
     None \<Rightarrow> cs | Some n \<Rightarrow> steps_of (butlast cs @ [n]))"

section \<open>The provider\<close>

definition create_child_path :: "path \<Rightarrow> string \<Rightarrow> path" where
  "create_child_path p key = push_path (map_path drop_extension p) (key @ ''.json'')"

definition path_of :: "path \<Rightarrow> handle \<Rightarrow> path" where
  "path_of base h = foldl create_child_path base h"

fun start_of :: "disk \<Rightarrow> path \<Rightarrow> location" where
  "start_of s (Relative _) = work_dir s"
| "start_of s (Absolute _) = []"

definition file_load_value :: "path \<Rightarrow> disk \<Rightarrow> handle \<Rightarrow> string option result" where
  "file_load_value base s h =
     (let p = path_of base h
      in case Option.bind (walk s (start_of s p) (components p)) (node_at (tree s)) of
           None \<Rightarrow> Inr None
         | Some (Dir _) \<Rightarrow> Inl ''Is a directory''
         | Some (File t) \<Rightarrow> Inr (Some t))"

text \<open>A write that fails leaves some text in the file, or the file as it was.\<close>

definition write_file :: "disk \<Rightarrow> location \<Rightarrow> string \<Rightarrow> disk \<times> unit result" where
  "write_file s p t =
     (if p = [] \<or> \<not> is_dir s (butlast p) \<or> is_dir s p then (s, Inl ''Failed to write json file'')
      else case write_fault s p of
             None \<Rightarrow> (put_at p (File t) s, Inr ())
           | Some None \<Rightarrow> (s, Inl ''Failed to write json file'')
           | Some (Some t') \<Rightarrow> (put_at p (File t') s, Inl ''Failed to write json file''))"

definition file_store_value :: "path \<Rightarrow> disk \<Rightarrow> handle \<Rightarrow> string \<Rightarrow> disk \<times> unit result" where
  "file_store_value base s h t =
     (let p = path_of base h
      in if components p = [] then (s, Inl ''Failed to write json file'')
         else case make_dirs s (start_of s p) (butlast (components p)) of
                (s', Inl e) \<Rightarrow> (s', Inl e)
              | (s', Inr d) \<Rightarrow> write_file s' (enter d (last (components p))) t)"

definition file_ops :: "path \<Rightarrow> disk persistence_ops" where
  "file_ops base = \<lparr>load_value = file_load_value base, store_value = file_store_value base\<rparr>"

text \<open>The file the application keeps its invoices in, \<open>src/app/mint_invoice_manager.rs\<close>.\<close>

definition invoice_root :: path where
  "invoice_root = path_from ''./persistence/InvoiceManager.json''"

lemma invoice_root: "invoice_root = Relative [''persistence'', ''InvoiceManager.json'']"
  by (simp add: invoice_root_def path_from_def is_absolute_def steps_of_def)


section \<open>What the tree keeps\<close>

lemma node_at_append: "node_at n (p @ q) = Option.bind (node_at n p) (\<lambda>m. node_at m q)"
proof (induction p arbitrary: n)
  case (Cons c p)
  show ?case
  proof (cases n)
    case (Dir d)
    with Cons show ?thesis by (cases "d c") simp_all
  qed simp
qed simp

lemma node_at_put:
  assumes "\<not> prefix q p" "\<not> prefix p q"
  shows "node_at (put_node p x n) q = node_at n q"
  using assms
proof (induction p arbitrary: n q)
  case (Cons c cs)
  from Cons.prems obtain c' q' where q: "q = c' # q'" by (cases q) auto
  show ?case
  proof (cases n)
    case (Dir d)
    show ?thesis
    proof (cases "c = c'")
      case True
      with Cons.prems q have np: "\<not> prefix q' cs" "\<not> prefix cs q'" by auto
      have "node_at (Dir Map.empty) q' = None" using np by (cases q') auto
      with True Dir q Cons.IH [OF np] show ?thesis by (cases "d c") auto
    qed (use Dir q in auto)
  qed (use q in simp)
qed simp

text \<open>Below a location where nothing was, an empty directory has nothing either.\<close>

lemma node_at_empty_dirs: "\<not> prefix q cs \<Longrightarrow> node_at (put_node cs (Dir Map.empty) (Dir Map.empty)) q = None"
proof (induction cs arbitrary: q)
  case Nil
  then show ?case by (cases q) auto
next
  case (Cons c cs)
  then show ?case by (cases q) auto
qed

lemma node_at_put_dir:
  assumes "\<not> prefix q p" "node_at n p = None"
  shows "node_at (put_node p (Dir Map.empty) n) q = node_at n q"
  using assms
proof (induction p arbitrary: n q)
  case (Cons c cs)
  from Cons.prems obtain c' q' where q: "q = c' # q'" by (cases q) auto
  show ?case
  proof (cases n)
    case (Dir d)
    show ?thesis
    proof (cases "c = c'")
      case True
      with Cons.prems q have np: "\<not> prefix q' cs" by auto
      show ?thesis
      proof (cases "d c")
        case None
        with True Dir q node_at_empty_dirs [OF np] show ?thesis by simp
      next
        case (Some m)
        with Cons.prems(2) Dir True q Cons.IH [OF np, of m] show ?thesis by simp
      qed
    qed (use Dir q in auto)
  qed (use q in simp)
qed simp

lemma node_at_put_same:
  assumes "node_at n p = Some (Dir d)"
  shows "node_at (put_node (p @ [c]) x n) (p @ [c]) = Some x"
  using assms
proof (induction p arbitrary: n)
  case Nil
  then show ?case by simp
next
  case (Cons a p)
  then show ?case by (cases n) (auto split: option.splits)
qed

section \<open>Paths without parent directories\<close>

lemma walk_plain:
  "''..'' \<notin> set cs \<Longrightarrow> Option.bind (walk s cur cs) (node_at (tree s)) = node_at (tree s) (cur @ cs)"
proof (induction cs arbitrary: cur)
  case (Cons c cs)
  show ?case
  proof (cases "is_dir s cur")
    case True
    with Cons.prems have "enter cur c = cur @ [c]" by (auto simp: enter_def)
    with True Cons show ?thesis by simp
  next
    case False
    then show ?thesis by (auto simp: is_dir_def node_at_append split: option.splits node.splits)
  qed
qed simp

lemma make_dirs_plain:
  assumes "make_dirs s cur cs = (s', r)" "''..'' \<notin> set cs"
  shows "work_dir s' = work_dir s \<and> (\<forall>q. \<not> prefix q (cur @ cs) \<longrightarrow> node_at (tree s') q = node_at (tree s) q) \<and>
    (\<forall>d. r = Inr d \<longrightarrow> d = cur @ cs)"
  using assms
proof (induction cs arbitrary: s cur)
  case (Cons c cs)
  let ?p = "cur @ [c]"
  from Cons.prems have p: "enter cur c = ?p" "''..'' \<notin> set cs" by (auto simp: enter_def)
  consider (there) "make_dirs s ?p cs = (s', r)"
    | (made) "make_dirs (put_at ?p (Dir Map.empty) s) ?p cs = (s', r)" "node_at (tree s) ?p = None"
    | (failed) "s' = s" "r = Inl ''Failed to create parent directory''"
  proof (cases "is_dir s cur \<and> is_dir s ?p")
    case True
    with Cons.prems(1) there show thesis by (simp add: p)
  next
    case False
    with Cons.prems(1) made failed show thesis
      by (cases "is_dir s cur \<and> node_at (tree s) ?p = None \<and> \<not> no_dir s ?p") (simp_all add: p Let_def)
  qed
  then show ?case
  proof cases
    case there
    from Cons.IH [OF there p(2)] show ?thesis by simp
  next
    case made
    have "node_at (put_node ?p (Dir Map.empty) (tree s)) q = node_at (tree s) q" if "\<not> prefix q (cur @ c # cs)" for q
    proof (rule node_at_put_dir [OF _ made(2)])
      show "\<not> prefix q ?p" using that by (metis append.assoc append_Cons append_Nil prefix_order.trans prefixI)
    qed
    with Cons.IH [OF made(1) p(2)] show ?thesis by (simp add: put_at_def)
  next
    case failed
    then show ?thesis by simp
  qed
qed auto

lemma put_file_keeps:
  assumes "\<not> is_dir s p" "\<not> prefix q p"
  shows "node_at (tree (put_at p (File t) s)) q = node_at (tree s) q"
proof (cases "prefix p q")
  case True
  with assms(2) obtain c r where q: "q = p @ c # r"
    by (metis append_Nil2 neq_Nil_conv prefixE prefix_order.refl)
  have "node_at (put_node p (File t) n) (p @ c # r) = None" for n
    by (induction p arbitrary: n) (case_tac n; auto)+
  moreover have "node_at (tree s) q = None"
    using assms(1) by (auto simp: q node_at_append is_dir_def split: option.splits node.splits)
  ultimately show ?thesis by (simp add: put_at_def q)
next
  case False
  with assms(2) show ?thesis by (simp add: put_at_def node_at_put)
qed

lemma write_file_plain:
  assumes "write_file s p t = (s', r)"
  shows "work_dir s' = work_dir s \<and> (\<forall>q. \<not> prefix q p \<longrightarrow> node_at (tree s') q = node_at (tree s) q) \<and>
    (\<forall>u. r = Inr u \<longrightarrow> node_at (tree s') p = Some (File t))"
proof (cases "p = [] \<or> \<not> is_dir s (butlast p) \<or> is_dir s p")
  case True
  with assms show ?thesis by (auto simp: write_file_def)
next
  case False
  then obtain d where d: "node_at (tree s) (butlast p) = Some (Dir d)" "p \<noteq> []" "\<not> is_dir s p"
    by (auto simp: is_dir_def split: option.splits node.splits)
  have "node_at (tree (put_at p (File t) s)) p = Some (File t)"
    using node_at_put_same [OF d(1), of "last p" "File t"] d(2) by (simp add: put_at_def)
  moreover have "work_dir (put_at p x s) = work_dir s" for x by (simp add: put_at_def)
  ultimately show ?thesis
    using assms False put_file_keeps [OF d(3)] by (auto simp: write_file_def split: option.splits)
qed

text \<open>What loading and storing do when the path of the handle goes down only.\<close>

lemma file_load_plain:
  assumes "path_of base h = Relative cs" "''..'' \<notin> set cs"
  shows "file_load_value base s h = (case node_at (tree s) (work_dir s @ cs) of
      None \<Rightarrow> Inr None | Some (Dir _) \<Rightarrow> Inl ''Is a directory'' | Some (File t) \<Rightarrow> Inr (Some t))"
  by (simp add: file_load_value_def assms walk_plain)

lemma file_store_plain:
  assumes "path_of base h = Relative cs" "''..'' \<notin> set cs" "cs \<noteq> []"
    and "file_store_value base s h t = (s', r)"
  shows "work_dir s' = work_dir s \<and>
    (\<forall>q. \<not> prefix q (work_dir s @ cs) \<longrightarrow> node_at (tree s') q = node_at (tree s) q) \<and>
    (\<forall>u. r = Inr u \<longrightarrow> node_at (tree s') (work_dir s @ cs) = Some (File t))"
proof -
  obtain s1 r1 where made: "make_dirs s (work_dir s) (butlast cs) = (s1, r1)" by fastforce
  have "''..'' \<notin> set (butlast cs)" using assms(2) in_set_butlastD by metis
  note m = make_dirs_plain [OF made this]
  have below: "\<not> prefix q (work_dir s @ butlast cs)" if "\<not> prefix q (work_dir s @ cs)" for q
    using that assms(3) by (metis append.assoc append_butlast_last_id prefix_order.trans prefixI)
  show ?thesis
  proof (cases r1)
    case (Inl e)
    with assms(1,3,4) made have "s' = s1" "r = Inl e" by (auto simp: file_store_value_def)
    with m below show ?thesis by simp
  next
    case (Inr d)
    with m have d: "d = work_dir s @ butlast cs" by simp
    have "last cs \<noteq> ''..''" using assms(2,3) by (metis last_in_set)
    with d assms(3) have "enter d (last cs) = work_dir s @ cs" by (simp add: enter_def)
    with Inr assms(1,3,4) made have "write_file s1 (work_dir s @ cs) t = (s', r)" by (simp add: file_store_value_def)
    from write_file_plain [OF this] m below show ?thesis by auto
  qed
qed

section \<open>Keys without surprises\<close>

fun join_path :: "string list \<Rightarrow> string" where
  "join_path [] = []"
| "join_path [p] = p"
| "join_path (p # q # ps) = p @ CHR ''/'' # join_path (q # ps)"

lemma split_path_nonempty [simp]: "split_path t \<noteq> []"
  by (induction t) (auto split: list.splits)

lemma join_split [simp]: "join_path (split_path t) = t"
proof (induction t)
  case (Cons c t)
  obtain p ps where s: "split_path t = p # ps" by (cases "split_path t") auto
  with Cons show ?case by (cases ps) auto
qed simp

lemma split_path_inj: "split_path s = split_path t \<Longrightarrow> s = t"
  by (metis join_split)

lemma split_path_append:
  "CHR ''/'' \<notin> set e \<Longrightarrow> split_path (t @ e) = butlast (split_path t) @ [last (split_path t) @ e]"
proof (induction t)
  case Nil
  then show ?case by (induction e) auto
next
  case (Cons c t)
  obtain p ps where s: "split_path t = p # ps" by (cases "split_path t") auto
  with Cons show ?case by (cases ps) auto
qed

text \<open>
  A key the provider files where one expects it: no part is empty or a dot or two, so that the path
  goes down with every part, and no directory on the way is named like a file of the provider.
\<close>

definition flat_key :: "string \<Rightarrow> bool" where
  "flat_key k \<longleftrightarrow> list_all (\<lambda>c. c \<noteq> [] \<and> c \<noteq> ''.'' \<and> c \<noteq> ''..'') (split_path k) \<and>
     list_all (\<lambda>c. \<not> suffix ''.json'' c) (butlast (split_path k))"

definition file_handle :: "handle \<Rightarrow> bool" where
  "file_handle h \<longleftrightarrow> h = [] \<or> (\<exists>k. h = [k] \<and> flat_key k)"

definition child_steps :: "string \<Rightarrow> string list" where
  "child_steps k = butlast (split_path k) @ [last (split_path k) @ ''.json'']"

lemma child_steps_inj: "child_steps k = child_steps k' \<Longrightarrow> k = k'"
  by (auto simp: child_steps_def intro!: split_path_inj) (metis append_butlast_last_id split_path_nonempty)

lemma child_path: "flat_key k \<Longrightarrow>
    path_of invoice_root [k] = Relative (''persistence'' # ''InvoiceManager'' # child_steps k)"
proof -
  assume k: "flat_key k"
  have steps: "split_path (k @ ''.json'') = child_steps k"
    unfolding child_steps_def by (rule split_path_append) simp
  have "list_all (\<lambda>c. c \<noteq> [] \<and> c \<noteq> ''.'') (split_path k)"
    using k by (auto simp: flat_key_def list_all_iff)
  then have "steps_of (child_steps k) = child_steps k"
    by (auto simp: steps_of_def child_steps_def list_all_iff intro!: filter_True dest: in_set_butlastD)
  moreover have "\<not> is_absolute (k @ ''.json'')"
    using k by (cases k) (auto simp: is_absolute_def flat_key_def split: if_splits)
  moreover have "drop_extension [''persistence'', ''InvoiceManager.json''] = [''persistence'', ''InvoiceManager'']"
    by (simp add: drop_extension_def file_stem_def steps_of_def)
  ultimately show ?thesis
    by (simp add: path_of_def create_child_path_def push_path_def invoice_root steps)
qed

text \<open>The path of the root and of a child under a flat key go down and are not above each other.\<close>

lemma file_paths:
  assumes "file_handle h"
  obtains cs where "path_of invoice_root h = Relative cs" "''..'' \<notin> set cs" "cs \<noteq> []"
    "\<And>h' cs'. file_handle h' \<Longrightarrow> path_of invoice_root h' = Relative cs' \<Longrightarrow> prefix cs cs' \<Longrightarrow> cs = cs'"
proof -
  let ?d = "[''persistence'', ''InvoiceManager'']"
  have root: "path_of invoice_root [] = Relative [''persistence'', ''InvoiceManager.json'']"
    by (simp add: path_of_def invoice_root)
  consider (top) "h = []" | (below) k where "h = [k]" "flat_key k" using assms by (auto simp: file_handle_def)
  then show thesis
  proof cases
    case top
    show thesis
    proof (rule that [of "[''persistence'', ''InvoiceManager.json'']"])
      fix h' cs'
      assume "file_handle h'" "path_of invoice_root h' = Relative cs'" "prefix [''persistence'', ''InvoiceManager.json''] cs'"
      then show "[''persistence'', ''InvoiceManager.json''] = cs'"
        using root child_path by (auto simp: file_handle_def)
    qed (use top root in simp_all)
  next
    case below
    have dots: "''..'' \<notin> set (child_steps k)"
      using below(2) by (auto simp: child_steps_def flat_key_def list_all_iff dest: in_set_butlastD)
    show thesis
    proof (rule that [of "?d @ child_steps k"])
      fix h' cs'
      assume h': "file_handle h'" "path_of invoice_root h' = Relative cs'" "prefix (?d @ child_steps k) cs'"
      then obtain k' where k': "h' = [k']" "flat_key k'" "prefix (child_steps k) (child_steps k')" "cs' = ?d @ child_steps k'"
        using root child_path by (auto simp: file_handle_def)
      have "suffix ''.json'' (last (child_steps k))" by (simp add: child_steps_def suffixI)
      moreover have "c \<in> set (butlast (child_steps k')) \<Longrightarrow> \<not> suffix ''.json'' c" for c
        using k'(2) by (simp add: child_steps_def flat_key_def list_all_iff)
      moreover have "child_steps k \<noteq> []" by (simp add: child_steps_def)
      ultimately have "\<not> prefix (child_steps k) (butlast (child_steps k'))"
        by (meson last_in_set set_mono_prefix subsetD)
      with k'(3) have "child_steps k = child_steps k'"
        by (metis append_butlast_last_id butlast.simps(1) prefix_snoc prefix_Nil)
      then show "?d @ child_steps k = cs'" by (simp add: k'(4))
    qed (use below child_path dots in simp_all)
  qed
qed

interpretation files: keyed_persistence "file_ops invoice_root" "path_of invoice_root" file_handle flat_key
proof
  fix s s' :: disk and h h' t u r
  assume h: "file_handle h" and h': "file_handle h'"
  obtain cs where cs: "path_of invoice_root h = Relative cs" "''..'' \<notin> set cs" "cs \<noteq> []"
    using file_paths [OF h] by metis
  obtain cs' where cs': "path_of invoice_root h' = Relative cs'" "''..'' \<notin> set cs'"
    and apart: "prefix cs' cs \<Longrightarrow> cs' = cs"
    using file_paths [OF h'] h cs(1) by metis
  {
    assume st: "store_value (file_ops invoice_root) s h t = (s', Inr u)"
      and same: "path_of invoice_root h' = path_of invoice_root h"
    have st': "file_store_value invoice_root s h t = (s', Inr u)" using st by (simp add: file_ops_def)
    from file_store_plain [OF cs st'] same cs cs'
    show "load_value (file_ops invoice_root) s' h' = Inr (Some t)"
      by (simp add: file_ops_def file_load_plain)
  next
    assume st: "store_value (file_ops invoice_root) s h t = (s', r)"
      and other: "path_of invoice_root h' \<noteq> path_of invoice_root h"
    have st': "file_store_value invoice_root s h t = (s', r)" using st by (simp add: file_ops_def)
    have "\<not> prefix (work_dir s @ cs') (work_dir s @ cs)" using other apart cs cs' by auto
    with file_store_plain [OF cs st'] cs'
    show "load_value (file_ops invoice_root) s' h' = load_value (file_ops invoice_root) s h'"
      by (simp add: file_ops_def file_load_plain)
  }
next
  show "file_handle []" by (simp add: file_handle_def)
  show "file_handle (child [] k)" if "flat_key k" for k using that by (simp add: file_handle_def child_def)
  show "path_of invoice_root (child [] k) \<noteq> path_of invoice_root []" if "flat_key k" for k
    using child_path [OF that] by (simp add: child_def path_of_def invoice_root)
  show "k = k'" if "flat_key k" "flat_key k'" "path_of invoice_root (child [] k) = path_of invoice_root (child [] k')" for k k'
    using that child_path [OF that(1)] child_path [OF that(2)] child_steps_inj by (simp add: child_def)
qed

end
