(* ===== verification/MintInvoice.thy ===== *)
theory MintInvoice
  imports IndexOrder SolverOrder CollateralPosition FilePersistence "HOL-Library.List_Lexorder" "HOL-Library.Char_ord"
begin

text \<open>
  Mint invoices, \<open>src/solver/mint_invoice.rs\<close>, and their manager,
  \<open>src/solver/mint_invoice_manager.rs\<close>. The printed invoice matters for what it computes: its
  sums use the operators of \<open>Decimal\<close>, which panic on overflow and on a division by zero, and they
  run whether or not the debug log is on. \<open>None\<close> stands for that panic.
\<close>

section \<open>The printed invoice\<close>

text \<open>\<open>Itertools::coalesce\<close> with a closure that merges two equal neighbours or keeps both.\<close>

fun coalesce :: "('a \<Rightarrow> 'a \<Rightarrow> bool) \<Rightarrow> ('a \<Rightarrow> 'a \<Rightarrow> 'a option) \<Rightarrow> 'a list \<Rightarrow> 'a list option" where
  "coalesce same merge [] = Some []"
| "coalesce same merge [a] = Some [a]"
| "coalesce same merge (a # b # bs) =
     (if same a b
      then (case merge a b of None \<Rightarrow> None | Some c \<Rightarrow> coalesce same merge (c # bs))
      else map_option ((#) a) (coalesce same merge (b # bs)))"

fun map_options :: "('a \<Rightarrow> 'b option) \<Rightarrow> 'a list \<Rightarrow> 'b list option" where
  "map_options f [] = Some []"
| "map_options f (x # xs) = do { y \<leftarrow> f x; ys \<leftarrow> map_options f xs; Some (y # ys) }"

text \<open>A sum that starts from zero and stops at the first sum that overflows.\<close>

fun dec_sum :: "dec_ops \<Rightarrow> amount \<Rightarrow> amount list \<Rightarrow> amount option" where
  "dec_sum D acc [] = Some acc"
| "dec_sum D acc (x # xs) = do { acc' \<leftarrow> dec_add D acc x; dec_sum D acc' xs }"

definition same_lot :: "solver_order_asset_lot \<Rightarrow> solver_order_asset_lot \<Rightarrow> bool" where
  "same_lot a b \<longleftrightarrow> al_lot_id a = al_lot_id b"

definition add_lots ::
  "dec_ops \<Rightarrow> solver_order_asset_lot \<Rightarrow> solver_order_asset_lot \<Rightarrow> solver_order_asset_lot option" where
  "add_lots D a b = do {
     f \<leftarrow> dec_add D (assigned_fee a) (assigned_fee b);
     q \<leftarrow> dec_add D (assigned_quantity a) (assigned_quantity b);
     Some (a\<lparr>assigned_fee := f, assigned_quantity := q\<rparr>)
   }"

definition lot_amount :: "dec_ops \<Rightarrow> solver_order_asset_lot \<Rightarrow> amount option" where
  "lot_amount D l = do { v \<leftarrow> dec_mul D (assigned_quantity l) (al_price l); dec_add D v (assigned_fee l) }"

type_synonym sub_total = "symbol \<times> amount \<times> amount \<times> amount"

definition sub_total_of :: "dec_ops \<Rightarrow> solver_order_asset_lot \<Rightarrow> sub_total option" where
  "sub_total_of D l = do {
     v \<leftarrow> dec_mul D (al_price l) (assigned_quantity l);
     x \<leftarrow> dec_add D v (assigned_fee l);
     Some (al_symbol l, assigned_quantity l, assigned_fee l, x)
   }"

fun add_sub_totals :: "dec_ops \<Rightarrow> sub_total \<Rightarrow> sub_total \<Rightarrow> sub_total option" where
  "add_sub_totals D (s, q, f, x) (s', q', f', x') = do {
     q'' \<leftarrow> dec_add D q q';
     f'' \<leftarrow> dec_add D f f';
     x'' \<leftarrow> dec_add D x x';
     Some (s, q'', f'', x'')
   }"

fun average_price :: "dec_ops \<Rightarrow> sub_total \<Rightarrow> amount option" where
  "average_price D (s, q, f, x) = do { v \<leftarrow> dec_sub D x f; dec_div D v q }"

text \<open>The two percentages are computed only when the debug log is on.\<close>

definition fill_rates :: "dec_ops \<Rightarrow> amount \<Rightarrow> amount \<Rightarrow> amount \<Rightarrow> amount \<Rightarrow> unit option" where
  "fill_rates D amount_paid total_paid total_collateral management_fee = do {
     a \<leftarrow> dec_mul D 100 total_paid;
     _ \<leftarrow> dec_div D a total_collateral;
     b \<leftarrow> dec_mul D 100 amount_paid;
     c \<leftarrow> dec_sub D total_collateral management_fee;
     _ \<leftarrow> dec_div D b c;
     Some ()
   }"

definition sub_totals_of :: "dec_ops \<Rightarrow> solver_order_asset_lot list \<Rightarrow> sub_total list option" where
  "sub_totals_of D ls = do {
     rows \<leftarrow> map_options (sub_total_of D) ls;
     coalesce (\<lambda>a b. fst a = fst b) (add_sub_totals D) (sort_key fst rows)
   }"

definition print_mint_invoice ::
  "dec_ops \<Rightarrow> bool \<Rightarrow> index_order \<Rightarrow> index_order_update \<Rightarrow> amount \<Rightarrow> solver_order_asset_lot list \<Rightarrow>
     unit option" where
  "print_mint_invoice D debug io u amount_paid ls = do {
     merged \<leftarrow> coalesce same_lot (add_lots D) (sort_key al_lot_id ls);
     amounts \<leftarrow> map_options (lot_amount D) merged;
     total_amount \<leftarrow> dec_sum D 0 amounts;
     sub_totals \<leftarrow> sub_totals_of D merged;
     _ \<leftarrow> map_options (average_price D) sub_totals;
     _ \<leftarrow> (if debug then dec_sub D total_amount amount_paid else Some 0);
     with_fee \<leftarrow> dec_add D total_amount (update_fee u);
     total_collateral \<leftarrow> dec_add D with_fee (case io_engaged io of None \<Rightarrow> 0 | Some e \<Rightarrow> e);
     total_paid \<leftarrow> dec_add D amount_paid (update_fee u);
     (if debug then fill_rates D amount_paid total_paid total_collateral (update_fee u) else Some ())
   }"

text \<open>The fill report computes two sums, and only when the debug log is on.\<close>

definition print_fill_report :: "dec_ops \<Rightarrow> bool \<Rightarrow> index_order \<Rightarrow> index_order_update \<Rightarrow> unit option" where
  "print_fill_report D debug io u =
     (if \<not> debug then Some ()
      else do {
        _ \<leftarrow> dec_add D (u_remaining u) (case u_engaged u of None \<Rightarrow> 0 | Some e \<Rightarrow> e);
        _ \<leftarrow> dec_add D (io_remaining io) (case io_engaged io of None \<Rightarrow> 0 | Some e \<Rightarrow> e);
        Some ()
      })"

section \<open>The invoice\<close>

record mint_invoice =
  mi_client_order_id :: client_order_id
  mi_payment_id :: payment_id
  mi_seq_num :: u256
  mi_symbol :: symbol
  mi_filled_quantity :: amount
  total_amount :: amount
  mi_amount_paid :: amount
  amount_remaining :: amount
  management_fee :: amount
  assets_value :: amount
  exchange_fee :: amount
  mi_fill_rate :: amount
  mi_lots :: "solver_order_asset_lot list"
  mi_position :: collateral_position
  mi_timestamp :: timestamp

definition mint_invoice_try_new ::
  "dec_ops \<Rightarrow> bool \<Rightarrow> index_order \<Rightarrow> index_order_update \<Rightarrow> payment_id \<Rightarrow> u256 \<Rightarrow> amount \<Rightarrow> amount \<Rightarrow>
     solver_order_asset_lot list \<Rightarrow> collateral_position \<Rightarrow> timestamp \<Rightarrow> mint_invoice outcome" where
  "mint_invoice_try_new D debug io u pid seq_num filled amount_paid ls p ts =
     (case print_mint_invoice D debug io u amount_paid ls of
        None \<Rightarrow> Panic
      | Some _ \<Rightarrow> Returns (
          rbind (ok_or (dec_add D amount_paid (update_fee u)) ''Math problem'') (\<lambda>paid.
          rbind (ok_or (dec_sub D (original_collateral_amount u) (u_collateral_spent u)) ''Math problem'') (\<lambda>remaining.
          rbind (ok_or (dec_sub D (original_collateral_amount u) (update_fee u)) ''Math problem'') (\<lambda>to_spend.
          rbind (ok_or (checked_math (dec_sub D (u_collateral_spent u) (update_fee u)) (\<lambda>x. dec_div D x to_spend))
                   ''Math problem'') (\<lambda>rate.
          rbind (ok_or (Option.bind (map_options (\<lambda>l. dec_mul D (al_price l) (assigned_quantity l)) ls) (dec_sum D 0))
                   ''Math error'') (\<lambda>value.
          rbind (ok_or (dec_sum D 0 (map assigned_fee ls)) ''Math error'') (\<lambda>fees.
          Inr \<lparr>mi_client_order_id = u_client_order_id u, mi_payment_id = pid, mi_seq_num = seq_num,
               mi_symbol = io_symbol io, mi_filled_quantity = filled,
               total_amount = original_collateral_amount u, mi_amount_paid = paid,
               amount_remaining = remaining, management_fee = update_fee u, assets_value = value,
               exchange_fee = fees, mi_fill_rate = rate, mi_lots = ls, mi_position = p,
               mi_timestamp = ts\<rparr>))))))))"

section \<open>Keys and texts\<close>

text \<open>\<open>Display\<close> of an unsigned integer; that of an address is the parameter \<open>A\<close>.\<close>

fun digits :: "nat \<Rightarrow> string" where
  "digits n = (if n < 10 then [char_of (48 + n)] else digits (n div 10) @ [char_of (48 + n mod 10)])"

declare digits.simps [simp del]

definition create_invoice_key :: "(address \<Rightarrow> string) \<Rightarrow> u32 \<Rightarrow> address \<Rightarrow> client_order_id \<Rightarrow> string" where
  "create_invoice_key A chain addr coid =
     ''chain_'' @ digits (unat chain) @ ''/address_'' @ A addr @ ''/order_'' @ coid"

section \<open>The manager\<close>

record invoice_metadata =
  im_chain_id :: u32
  im_address :: address
  im_client_order_id :: client_order_id
  im_payment_id :: payment_id
  im_seq_num :: u256
  im_symbol :: symbol
  im_filled_quantity :: amount
  im_total_amount :: amount
  im_amount_paid :: amount
  im_amount_remaining :: amount
  im_management_fee :: amount
  im_assets_value :: amount
  im_exchange_fee :: amount
  im_fill_rate :: amount
  im_timestamp :: timestamp

definition metadata_of :: "mint_invoice \<Rightarrow> invoice_metadata" where
  "metadata_of i = \<lparr>im_chain_id = 0, im_address = 0, im_client_order_id = mi_client_order_id i,
     im_payment_id = mi_payment_id i, im_seq_num = mi_seq_num i, im_symbol = mi_symbol i,
     im_filled_quantity = mi_filled_quantity i, im_total_amount = total_amount i,
     im_amount_paid = mi_amount_paid i, im_amount_remaining = amount_remaining i,
     im_management_fee = management_fee i, im_assets_value = assets_value i,
     im_exchange_fee = exchange_fee i, im_fill_rate = mi_fill_rate i, im_timestamp = mi_timestamp i\<rparr>"

record get_invoice_data =
  gi_chain_id :: u32
  gi_address :: address
  gi_invoice :: mint_invoice

record get_invoices_data =
  gs_chain_id :: u32
  gs_address :: address
  gs_client_order_id :: client_order_id
  gs_payment_id :: payment_id
  gs_seq_num :: u256
  gs_symbol :: symbol
  gs_filled_quantity :: amount
  gs_total_amount :: amount
  gs_amount_paid :: amount
  gs_amount_remaining :: amount
  gs_management_fee :: amount
  gs_assets_value :: amount
  gs_exchange_fee :: amount
  gs_fill_rate :: amount
  gs_timestamp :: timestamp

definition invoices_data_of :: "invoice_metadata \<Rightarrow> get_invoices_data" where
  "invoices_data_of m = \<lparr>gs_chain_id = im_chain_id m, gs_address = im_address m,
     gs_client_order_id = im_client_order_id m, gs_payment_id = im_payment_id m,
     gs_seq_num = im_seq_num m, gs_symbol = im_symbol m, gs_filled_quantity = im_filled_quantity m,
     gs_total_amount = im_total_amount m, gs_amount_paid = im_amount_paid m,
     gs_amount_remaining = im_amount_remaining m, gs_management_fee = im_management_fee m,
     gs_assets_value = im_assets_value m, gs_exchange_fee = im_exchange_fee m,
     gs_fill_rate = im_fill_rate m, gs_timestamp = im_timestamp m\<rparr>"

text \<open>
  What the manager is given: its persistence, how its two kinds of files are written, and how an
  address is displayed. Its own state is the list of metadata; the state of the persistence is
  kept beside it.
\<close>

record 's invoice_env =
  storage :: "'s persistence_ops"
  invoice_codec :: "mint_invoice codec"
  metadata_codec :: "invoice_metadata list codec"
  show_address :: "address \<Rightarrow> string"

record 's mint_invoice_manager =
  stored :: 's
  metadata :: "invoice_metadata list"

definition mint_invoice_manager_new :: "'s \<Rightarrow> 's mint_invoice_manager" where
  "mint_invoice_manager_new s = \<lparr>stored = s, metadata = []\<rparr>"

definition invoice_handle :: "'s invoice_env \<Rightarrow> u32 \<Rightarrow> address \<Rightarrow> client_order_id \<Rightarrow> handle" where
  "invoice_handle E chain addr coid = child [] (create_invoice_key (show_address E) chain addr coid)"

definition store_metadata :: "'s invoice_env \<Rightarrow> 's mint_invoice_manager \<Rightarrow> 's mint_invoice_manager \<times> unit result" where
  "store_metadata E m =
     (case store_json (storage E) (metadata_codec E) (stored m) [] (metadata m) of
        (s, r) \<Rightarrow> (m\<lparr>stored := s\<rparr>, r))"

definition load_metadata :: "'s invoice_env \<Rightarrow> 's mint_invoice_manager \<Rightarrow> 's mint_invoice_manager \<times> unit result" where
  "load_metadata E m =
     (let m1 = m\<lparr>metadata := []\<rparr>
      in case load_json (storage E) (metadata_codec E) (stored m) [] of
           Inl e \<Rightarrow> (m1, Inl e)
         | Inr None \<Rightarrow> (m1, Inr ())
         | Inr (Some ms) \<Rightarrow> (m1\<lparr>metadata := ms\<rparr>, Inr ()))"

definition add_invoice ::
  "'s invoice_env \<Rightarrow> 's mint_invoice_manager \<Rightarrow> u32 \<Rightarrow> address \<Rightarrow> mint_invoice \<Rightarrow>
     's mint_invoice_manager \<times> unit result" where
  "add_invoice E m chain addr i =
     (case store_json (storage E) (invoice_codec E) (stored m)
             (invoice_handle E chain addr (mi_client_order_id i)) i of
        (s, Inl e) \<Rightarrow> (m\<lparr>stored := s\<rparr>, Inl e)
      | (s, Inr _) \<Rightarrow>
          store_metadata E (m\<lparr>stored := s,
            metadata := metadata m @ [(metadata_of i)\<lparr>im_chain_id := chain, im_address := addr\<rparr>]\<rparr>))"

definition get_invoice ::
  "'s invoice_env \<Rightarrow> 's mint_invoice_manager \<Rightarrow> u32 \<Rightarrow> address \<Rightarrow> client_order_id \<Rightarrow>
     get_invoice_data option result" where
  "get_invoice E m chain addr coid =
     (if \<not> list_ex (\<lambda>x. im_chain_id x = chain \<and> im_address x = addr \<and> im_client_order_id x = coid) (metadata m)
      then Inr None
      else rbind (load_json (storage E) (invoice_codec E) (stored m) (invoice_handle E chain addr coid))
             (\<lambda>x. Inr (map_option (\<lambda>i. \<lparr>gi_chain_id = chain, gi_address = addr, gi_invoice = i\<rparr>) x)))"

definition get_invoices_in_date_range ::
  "'s mint_invoice_manager \<Rightarrow> timestamp \<Rightarrow> timestamp \<Rightarrow> get_invoices_data list" where
  "get_invoices_in_date_range m from_date to_date =
     map invoices_data_of (filter (\<lambda>x. im_timestamp x \<ge> from_date \<and> im_timestamp x \<le> to_date) (metadata m))"

section \<open>Every invoice has its own file\<close>

text \<open>
  What the code relies on in the display of an address: \<open>0x\<close> and forty hexadecimal digits, so
  neither a slash nor a dot.
\<close>

definition address_display :: "(address \<Rightarrow> string) \<Rightarrow> bool" where
  "address_display A \<longleftrightarrow> inj A \<and>
     (\<forall>a. length (A a) = 42 \<and> CHR ''/'' \<notin> set (A a) \<and> CHR ''.'' \<notin> set (A a))"

lemma digit_eq: "m < 10 \<Longrightarrow> n < 10 \<Longrightarrow> (char_of (48 + m) :: char) = char_of (48 + n) \<longleftrightarrow> m = (n :: nat)"
  by (simp add: char_of_eq_iff take_bit_eq_mod)

lemma digits_no_path: "c \<in> set (digits n) \<Longrightarrow> c \<noteq> CHR ''/'' \<and> c \<noteq> CHR ''.''"
proof (induction n rule: digits.induct)
  case (1 n)
  have d: "d < 10 \<Longrightarrow> (char_of (48 + d) :: char) \<noteq> CHR ''/'' \<and> (char_of (48 + d) :: char) \<noteq> CHR ''.''" for d :: nat
    by (simp add: char_of_eq_iff take_bit_eq_mod)
  show ?case
  proof (cases "n < 10")
    case True
    with 1 d show ?thesis by (subst (asm) (2) digits.simps) auto
  next
    case False
    with 1 d [of "n mod 10"] show ?thesis by (subst (asm) (2) digits.simps) auto
  qed
qed

lemma digits_inj: "digits m = digits n \<Longrightarrow> m = n"
proof (induction m arbitrary: n rule: digits.induct)
  case (1 m)
  have ne: "digits k \<noteq> [] \<and> [] \<noteq> digits k" for k
    by (subst (1 2) digits.simps) auto
  have eq: "digits m = (if m < 10 then [] else digits (m div 10)) @ [char_of (48 + m mod 10)]" for m
    by (subst digits.simps) auto
  from 1(2) eq [of m] eq [of n]
  have "(if m < 10 then [] else digits (m div 10)) = (if n < 10 then [] else digits (n div 10))"
    and mod: "m mod 10 = n mod 10"
    by (auto simp: digit_eq)
  with ne 1(1) [of "n div 10"] have "m div 10 = n div 10" by (auto split: if_splits)
  with mod show ?case by (metis div_mult_mod_eq)
qed

lemma create_invoice_key_inj:
  assumes A: "address_display A"
    and eq: "create_invoice_key A chain addr coid = create_invoice_key A chain' addr' coid'"
  shows "chain = chain' \<and> addr = addr' \<and> coid = coid'"
proof -
  have split: "takeWhile (\<lambda>c. c \<noteq> CHR ''/'') (digits n @ CHR ''/'' # cs) = digits n" for n cs
    using digits_no_path by (subst takeWhile_append2) auto
  from eq have eq': "digits (unat chain) @ CHR ''/'' # ''address_'' @ A addr @ ''/order_'' @ coid =
      digits (unat chain') @ CHR ''/'' # ''address_'' @ A addr' @ ''/order_'' @ coid'"
    by (simp add: create_invoice_key_def)
  then have "digits (unat chain) = digits (unat chain')" by (metis split)
  moreover from this digits_inj have "chain = chain'" by (metis word_unat_eq_iff)
  ultimately show ?thesis using eq' A by (auto simp: address_display_def dest: injD)
qed

text \<open>The key of an order whose id has no slash has three parts.\<close>

lemma split_path_slash: "CHR ''/'' \<notin> set p \<Longrightarrow> split_path (p @ CHR ''/'' # t) = p # split_path t"
  by (induction p) auto

lemma split_path_one: "CHR ''/'' \<notin> set p \<Longrightarrow> split_path p = [p]"
  by (induction p) auto

lemma no_dot_no_json: "CHR ''.'' \<notin> set c \<Longrightarrow> \<not> suffix ''.json'' c"
  by (auto simp: suffix_def)

lemma flat_invoice_key:
  assumes A: "address_display A" and coid: "CHR ''/'' \<notin> set coid"
  shows "flat_key (create_invoice_key A chain addr coid)"
    and "split_path (create_invoice_key A chain addr coid) =
      [''chain_'' @ digits (unat chain), ''address_'' @ A addr, ''order_'' @ coid]"
proof -
  let ?c = "''chain_'' @ digits (unat chain)" and ?a = "''address_'' @ A addr" and ?o = "''order_'' @ coid"
  have no: "CHR ''/'' \<notin> set ?c" "CHR ''/'' \<notin> set ?a" "CHR ''/'' \<notin> set ?o" "CHR ''.'' \<notin> set ?c" "CHR ''.'' \<notin> set ?a"
    using A coid digits_no_path by (auto simp: address_display_def)
  have key: "create_invoice_key A chain addr coid = ?c @ CHR ''/'' # ?a @ CHR ''/'' # ?o"
    by (simp add: create_invoice_key_def)
  show parts: "split_path (create_invoice_key A chain addr coid) = [?c, ?a, ?o]"
    unfolding key by (simp only: split_path_slash split_path_one no not_False_eq_True)
  with no_dot_no_json [OF no(4)] no_dot_no_json [OF no(5)] show "flat_key (create_invoice_key A chain addr coid)"
    by (simp add: flat_key_def)
qed

context keyed_persistence
begin

lemma invoice_filed:
  assumes P: "storage E = P" "codec_ok (invoice_codec E)" "codec_ok (metadata_codec E)"
    and A: "address_display (show_address E)"
    and here: "flat (create_invoice_key (show_address E) chain addr (mi_client_order_id i))"
    and added: "add_invoice E m chain addr i = (m', Inr ())"
  shows "load_json P (invoice_codec E) (stored m') (invoice_handle E chain addr (mi_client_order_id i)) = Inr (Some i)"
    and "flat (create_invoice_key (show_address E) chain' addr' coid') \<Longrightarrow>
      (chain', addr', coid') \<noteq> (chain, addr, mi_client_order_id i) \<Longrightarrow>
      load_json P (invoice_codec E) (stored m') (invoice_handle E chain' addr' coid') =
        load_json P (invoice_codec E) (stored m) (invoice_handle E chain' addr' coid')"
    and "load_json P (metadata_codec E) (stored m') [] = Inr (Some (metadata m'))"
    and "metadata m' = metadata m @ [(metadata_of i)\<lparr>im_chain_id := chain, im_address := addr\<rparr>]"
proof -
  from added P obtain s where
    s: "store_json P (invoice_codec E) (stored m) (invoice_handle E chain addr (mi_client_order_id i)) i = (s, Inr ())"
    and r: "store_json P (metadata_codec E) s [] (metadata m') = (stored m', Inr ())"
    and m': "metadata m' = metadata m @ [(metadata_of i)\<lparr>im_chain_id := chain, im_address := addr\<rparr>]"
    by (auto simp: add_invoice_def store_metadata_def split: prod.splits sum.splits)
  note child = child_stored [OF s [unfolded invoice_handle_def] here]
  note top = root_stored [OF r]
  show "load_json P (invoice_codec E) (stored m') (invoice_handle E chain addr (mi_client_order_id i)) = Inr (Some i)"
    unfolding invoice_handle_def using child(1) top(2) here P(2) by metis
  show "load_json P (invoice_codec E) (stored m') (invoice_handle E chain' addr' coid') =
      load_json P (invoice_codec E) (stored m) (invoice_handle E chain' addr' coid')"
    if "flat (create_invoice_key (show_address E) chain' addr' coid')"
      "(chain', addr', coid') \<noteq> (chain, addr, mi_client_order_id i)"
    unfolding invoice_handle_def using child(3) top(2) create_invoice_key_inj [OF A] that by metis
  show "load_json P (metadata_codec E) (stored m') [] = Inr (Some (metadata m'))"
    using top(1) P(3) by blast
  show "metadata m' = metadata m @ [(metadata_of i)\<lparr>im_chain_id := chain, im_address := addr\<rparr>]"
    by (rule m')
qed

lemma invoice_found:
  assumes "storage E = P" "codec_ok (invoice_codec E)" "codec_ok (metadata_codec E)"
    and "address_display (show_address E)"
    and "flat (create_invoice_key (show_address E) chain addr (mi_client_order_id i))"
    and "add_invoice E m chain addr i = (m', Inr ())"
  shows "get_invoice E m' chain addr (mi_client_order_id i) =
      Inr (Some \<lparr>gi_chain_id = chain, gi_address = addr, gi_invoice = i\<rparr>)"
    and "flat (create_invoice_key (show_address E) chain' addr' coid') \<Longrightarrow>
      (chain', addr', coid') \<noteq> (chain, addr, mi_client_order_id i) \<Longrightarrow>
      get_invoice E m' chain' addr' coid' = get_invoice E m chain' addr' coid'"
    and "load_metadata E (mint_invoice_manager_new (stored m')) = (m', Inr ())"
  using invoice_filed [OF assms] assms(1)
  by (auto simp: get_invoice_def metadata_of_def load_metadata_def mint_invoice_manager_new_def)

end

text \<open>
  C32: with the JSON files the application keeps its invoices in, and as long as no order id has a
  slash, an invoice that was added is found again, whole, by its chain, address and order; the
  look-up of every other order gives what it gave before; and a manager started on the files lists
  the same invoices. The files are those of one process: nobody else writes to them, and a file
  that exists can be read.
\<close>

theorem invoice_found_again:
  assumes "storage E = file_ops invoice_root" "codec_ok (invoice_codec E)" "codec_ok (metadata_codec E)"
    and "address_display (show_address E)" "CHR ''/'' \<notin> set (mi_client_order_id i)"
    and "add_invoice E m chain addr i = (m', Inr ())"
  shows "get_invoice E m' chain addr (mi_client_order_id i) =
      Inr (Some \<lparr>gi_chain_id = chain, gi_address = addr, gi_invoice = i\<rparr>) \<and>
    ((chain', addr', coid') \<noteq> (chain, addr, mi_client_order_id i) \<and> CHR ''/'' \<notin> set coid' \<longrightarrow>
      get_invoice E m' chain' addr' coid' = get_invoice E m chain' addr' coid') \<and>
    load_metadata E (mint_invoice_manager_new (stored m')) = (m', Inr ())"
proof -
  note found = files.invoice_found [OF assms(1-4) flat_invoice_key(1) [OF assms(4,5)] assms(6)]
  show ?thesis using found(1,3) by (intro conjI impI found(2) flat_invoice_key(1) [OF assms(4)]) auto
qed

text \<open>An address displayed as hexadecimal digits, and the one invoice the witness files.\<close>

fun hex_digits :: "nat \<Rightarrow> nat \<Rightarrow> string" where
  "hex_digits 0 n = []"
| "hex_digits (Suc k) n = hex_digits k (n div 16) @ [char_of (48 + n mod 16)]"

definition hex_address :: "address \<Rightarrow> string" where
  "hex_address a = ''0x'' @ hex_digits 40 (unat a)"

lemma hex_digits_no_path: "c \<in> set (hex_digits k n) \<Longrightarrow> c \<noteq> CHR ''/'' \<and> c \<noteq> CHR ''.''"
proof (induction k arbitrary: n)
  case (Suc k)
  have "(char_of (48 + n mod 16) :: char) \<noteq> CHR ''/'' \<and> (char_of (48 + n mod 16) :: char) \<noteq> CHR ''.''"
    by (simp add: char_of_eq_iff take_bit_eq_mod)
  with Suc show ?case by auto
qed simp

lemma length_hex_digits [simp]: "length (hex_digits k n) = k"
  by (induction k arbitrary: n) auto

lemma hex_digit_eq: "m < 16 \<Longrightarrow> n < 16 \<Longrightarrow> (char_of (48 + m) :: char) = char_of (48 + n) \<longleftrightarrow> m = (n :: nat)"
  by (simp add: char_of_eq_iff take_bit_eq_mod)

lemma hex_digits_inj: "hex_digits k m = hex_digits k n \<Longrightarrow> m mod 16 ^ k = n mod 16 ^ k"
proof (induction k arbitrary: m n)
  case (Suc k)
  then have "hex_digits k (m div 16) = hex_digits k (n div 16)" "m mod 16 = n mod 16"
    by (simp_all add: hex_digit_eq)
  with Suc.IH [of "m div 16" "n div 16"] show ?case by (simp add: mod_mult2_eq)
qed simp

lemma address_display_hex: "address_display hex_address"
proof -
  have "unat (a :: address) mod 16 ^ 40 = unat a" for a
    using unsigned_less [of a] by (intro mod_less) simp
  then have "inj hex_address"
    by (intro injI) (metis hex_address_def hex_digits_inj same_append_eq word_unat_eq_iff)
  then show ?thesis using hex_digits_no_path by (auto simp: address_display_def hex_address_def)
qed

definition demo_invoice :: mint_invoice where
  "demo_invoice = \<lparr>mi_client_order_id = ''c'', mi_payment_id = ''p'', mi_seq_num = 1, mi_symbol = ''IDX'',
     mi_filled_quantity = 1, total_amount = 100, mi_amount_paid = 90, amount_remaining = 10,
     management_fee = 1, assets_value = 88, exchange_fee = 1, mi_fill_rate = 9/10, mi_lots = [],
     mi_position = collateral_position_new 1 2 0, mi_timestamp = 5\<rparr>"

definition demo_codec :: "'v \<Rightarrow> 'v codec" where
  "demo_codec v = \<lparr>encode = (\<lambda>x. if x = v then Some ''{}'' else None), decode = (\<lambda>t. Some v)\<rparr>"

definition demo_disk :: disk where
  "demo_disk = \<lparr>tree = Dir Map.empty, work_dir = [], no_dir = (\<lambda>_. False), write_fault = (\<lambda>_. None)\<rparr>"

definition demo_file_env :: "disk invoice_env" where
  "demo_file_env = \<lparr>storage = file_ops invoice_root, invoice_codec = demo_codec demo_invoice,
     metadata_codec = demo_codec [(metadata_of demo_invoice)\<lparr>im_chain_id := 1, im_address := 2\<rparr>],
     show_address = hex_address\<rparr>"

text \<open>A store to an empty disk makes the directories and the file.\<close>

lemma demo_disk_stores:
  "\<exists>m'. add_invoice demo_file_env (mint_invoice_manager_new demo_disk) 1 2 demo_invoice = (m', Inr ())"
proof -
  let ?k = "create_invoice_key hex_address 1 2 ''c''"
  have k: "flat_key ?k" "split_path ?k = [''chain_'' @ digits 1, ''address_'' @ hex_address 2, ''order_c'']"
    using flat_invoice_key [OF address_display_hex, of "''c''" 1 2] by simp_all
  have "path_of invoice_root [?k] = Relative [''persistence'', ''InvoiceManager'', ''chain_'' @ digits 1,
      ''address_'' @ hex_address 2, ''order_c.json'']"
    using child_path [OF k(1)] by (simp add: child_steps_def k(2))
  moreover have "path_of invoice_root [] = Relative [''persistence'', ''InvoiceManager.json'']"
    by (simp add: path_of_def invoice_root)
  ultimately show ?thesis
    by (simp add: add_invoice_def demo_file_env_def store_json_def demo_codec_def file_ops_def invoice_handle_def
      child_def demo_invoice_def file_store_value_def store_metadata_def mint_invoice_manager_new_def demo_disk_def
      enter_def is_dir_def put_at_def write_file_def Let_def)
qed

theorem invoice_found_again_witness:
  "\<exists>m'. add_invoice demo_file_env (mint_invoice_manager_new demo_disk) 1 2 demo_invoice = (m', Inr ()) \<and>
     get_invoice demo_file_env m' 1 2 ''c'' =
       Inr (Some \<lparr>gi_chain_id = 1, gi_address = 2, gi_invoice = demo_invoice\<rparr>) \<and>
     get_invoice demo_file_env m' 1 2 ''d'' = Inr None"
proof -
  let ?E = demo_file_env and ?m = "mint_invoice_manager_new demo_disk"
  have codec: "codec_ok (demo_codec v)" for v :: 'v by (simp add: codec_ok_def demo_codec_def)
  obtain m' where m': "add_invoice ?E ?m 1 2 demo_invoice = (m', Inr ())" using demo_disk_stores by blast
  have E: "storage ?E = file_ops invoice_root" "codec_ok (invoice_codec ?E)" "codec_ok (metadata_codec ?E)"
    "address_display (show_address ?E)"
    by (simp_all add: demo_file_env_def codec address_display_hex)
  have c: "mi_client_order_id demo_invoice = ''c''" by (simp add: demo_invoice_def)
  then have plain: "CHR ''/'' \<notin> set (mi_client_order_id demo_invoice)" by simp
  from invoice_found_again [OF E plain m', where chain' = 1 and addr' = 2 and coid' = "''d''"] c m' show ?thesis
    by (auto simp: get_invoice_def mint_invoice_manager_new_def)
qed

text \<open>
  With a slash in the id of an order, the file is not the order's own: the client at address 3 names
  an order so that its invoice is written over the invoice of order \<open>c\<close> of the client at address 2.
\<close>

definition demo_forged :: mint_invoice where
  "demo_forged = demo_invoice\<lparr>mi_client_order_id := ''a/../../address_'' @ hex_address 2 @ ''/order_c''\<rparr>"

definition demo_forging_env :: "disk invoice_env" where
  "demo_forging_env = demo_file_env\<lparr>metadata_codec := \<lparr>encode = (\<lambda>_. Some ''[]''), decode = (\<lambda>_. Some [])\<rparr>,
     invoice_codec := \<lparr>encode = (\<lambda>x. Some (if x = demo_invoice then ''[1]'' else ''[2]'')),
       decode = (\<lambda>t. Some (if t = ''[1]'' then demo_invoice else demo_forged))\<rparr>\<rparr>"

lemma order_id_names_another_file:
  "\<exists>m1 m2. add_invoice demo_forging_env (mint_invoice_manager_new demo_disk) 1 2 demo_invoice = (m1, Inr ()) \<and>
     add_invoice demo_forging_env m1 1 3 demo_forged = (m2, Inr ()) \<and>
     get_invoice demo_forging_env m2 1 2 ''c'' =
       Inr (Some \<lparr>gi_chain_id = 1, gi_address = 2, gi_invoice = demo_forged\<rparr>)"
proof -
  let ?k = "create_invoice_key hex_address 1 2 ''c''" and ?f = "create_invoice_key hex_address 1 3 (mi_client_order_id demo_forged)"
  let ?c = "''chain_'' @ digits 1" and ?two = "''address_'' @ hex_address 2" and ?three = "''address_'' @ hex_address 3"
  have k: "flat_key ?k" "split_path ?k = [?c, ?two, ''order_c'']"
    using flat_invoice_key [OF address_display_hex, of "''c''" 1 2] by simp_all
  have no: "CHR ''/'' \<notin> set ?c" "CHR ''/'' \<notin> set ?two" "CHR ''/'' \<notin> set ?three"
    using address_display_hex digits_no_path by (auto simp: address_display_def)
  have "CHR ''/'' \<notin> set (hex_address 2)" using address_display_hex by (simp add: address_display_def)
  then have two: "split_path (hex_address 2 @ ''/order_c.json'') = [hex_address 2, ''order_c.json'']"
    by (simp add: split_path_slash)
  have f: "?f @ ''.json'' = ?c @ CHR ''/'' # ?three @ CHR ''/'' # ''order_a'' @ CHR ''/'' # ''..'' @ CHR ''/'' # ''..'' @
      CHR ''/'' # ?two @ CHR ''/'' # ''order_c.json''"
    by (simp add: create_invoice_key_def demo_forged_def)
  have "split_path (?f @ ''.json'') = [?c, ?three, ''order_a'', ''..'', ''..'', ?two, ''order_c.json'']"
    unfolding f split_path_slash [OF no(1)] split_path_slash [OF no(3)] by (simp add: two)
  then have "path_of invoice_root [?f] = Relative [''persistence'', ''InvoiceManager'', ?c, ?three, ''order_a'', ''..'', ''..'',
      ?two, ''order_c.json'']"
    by (simp add: path_of_def create_child_path_def push_path_def invoice_root drop_extension_def file_stem_def steps_of_def
      is_absolute_def create_invoice_key_def)
  moreover have "path_of invoice_root [?k] = Relative [''persistence'', ''InvoiceManager'', ?c, ?two, ''order_c.json'']"
    using child_path [OF k(1)] by (simp add: child_steps_def k(2))
  moreover have "path_of invoice_root [] = Relative [''persistence'', ''InvoiceManager.json'']"
    by (simp add: path_of_def invoice_root)
  moreover have "hex_address 3 \<noteq> hex_address 2" "hex_address 2 \<noteq> hex_address 3"
    using address_display_hex by (auto simp: address_display_def dest: injD)
  moreover have "demo_forged \<noteq> demo_invoice" by (simp add: demo_forged_def demo_invoice_def)
  moreover have "mi_client_order_id demo_invoice = ''c''" by (simp add: demo_invoice_def)
  ultimately show ?thesis
    by (simp add: add_invoice_def get_invoice_def demo_forging_env_def demo_file_env_def store_json_def load_json_def
      file_ops_def invoice_handle_def child_def file_store_value_def file_load_value_def store_metadata_def
      mint_invoice_manager_new_def demo_disk_def enter_def is_dir_def put_at_def write_file_def metadata_of_def Let_def)
qed

section \<open>When printing an invoice panics\<close>

text \<open>A decimal arithmetic in which nothing overflows; only a division by zero fails.\<close>

definition dec_total :: "dec_ops \<Rightarrow> bool" where
  "dec_total D \<longleftrightarrow>
     (\<forall>a b. dec_add D a b = Some (a + b) \<and> dec_sub D a b = Some (a - b) \<and> dec_mul D a b \<noteq> None \<and>
       (dec_div D a b = None \<longleftrightarrow> b = 0))"

lemma dec_totalD:
  assumes "dec_total D"
  shows "dec_add D a b = Some (a + b)" "dec_sub D a b = Some (a - b)"
    "dec_div D a b = None \<longleftrightarrow> b = 0"
  using assms by (auto simp: dec_total_def)

lemma dec_total_mul:
  assumes "dec_total D"
  obtains m where "\<And>a b. dec_mul D a b = Some (m a b)"
  using assms that [of "\<lambda>a b. the (dec_mul D a b)"] by (auto simp: dec_total_def)

lemma coalesce_keys:
  "coalesce same merge xs = Some ys \<Longrightarrow> (\<And>a b. same a b \<longleftrightarrow> k a = k b) \<Longrightarrow>
     (\<And>a b c. merge a b = Some c \<Longrightarrow> k c = k a) \<Longrightarrow> sorted (map k xs) \<Longrightarrow>
     sorted_wrt (<) (map k ys) \<and> k ` set ys = (k ` set xs :: 'k::linorder set)"
proof (induction same merge xs arbitrary: ys rule: coalesce.induct)
  case (3 same merge a b bs)
  show ?case
  proof (cases "same a b")
    case True
    with 3(3) obtain c where c: "merge a b = Some c" "coalesce same merge (c # bs) = Some ys"
      by (auto split: option.splits)
    from 3(5) [OF c(1)] 3(4) True have "k c = k a" "k c = k b" by auto
    with 3(1) [OF True c 3(4,5)] 3(6) show ?thesis by auto
  next
    case False
    with 3(3) obtain zs where zs: "coalesce same merge (b # bs) = Some zs" "ys = a # zs" by auto
    from False 3(4,6) have "k a < k b" by auto
    moreover from 3(2) [OF False zs(1) 3(4,5)] 3(6)
    have "sorted_wrt (<) (map k zs)" "k ` set zs = k ` set (b # bs)" by auto
    moreover have "k b \<le> k x" if "x \<in> set (b # bs)" for x using that 3(6) by auto
    ultimately show ?thesis using zs(2) by (auto dest: less_le_trans)
  qed
qed auto

lemma coalesce_total:
  "(\<And>a b. Q a \<Longrightarrow> Q b \<Longrightarrow> same a b \<Longrightarrow> \<exists>c. merge a b = Some c \<and> Q c \<and> g c = g a + (g b :: amount)) \<Longrightarrow>
     \<forall>x\<in>set xs. Q x \<Longrightarrow> \<exists>ys. coalesce same merge xs = Some ys \<and> (\<forall>y\<in>set ys. Q y) \<and> total g ys = total g xs"
proof (induction same merge xs rule: coalesce.induct)
  case (3 same merge a b bs)
  show ?case
  proof (cases "same a b")
    case True
    with 3(3) [of a b] 3(4) obtain c where c: "merge a b = Some c" "Q c" "g c = g a + g b" by auto
    with 3(1) [OF True c(1) 3(3)] 3(4) show ?thesis using True by (auto simp: add.assoc)
  next
    case False
    with 3(2) [OF False 3(3)] 3(4) show ?thesis by auto
  qed
qed auto

lemma map_options_total: "(\<And>x. f x = Some (g x)) \<Longrightarrow> map_options f xs = Some (map g xs)"
  by (induction xs) auto

lemma map_options_None: "map_options f xs = None \<longleftrightarrow> (\<exists>x\<in>set xs. f x = None)"
  by (induction xs) (auto split: Option.bind_splits)

lemma dec_sum_total: "dec_total D \<Longrightarrow> dec_sum D a xs = Some (a + sum_list xs)"
  by (induction xs arbitrary: a) (auto simp: dec_totalD)

lemma total_sort_key: "total f (sort_key k xs) = (total f xs :: amount)"
  by (metis mset_map mset_sort sum_mset_sum_list)

lemma total_at_no_key: "y \<notin> k ` set zs \<Longrightarrow> total (\<lambda>z. if k z = y then w z else (0 :: amount)) zs = 0"
  by (induction zs) auto

lemma total_at_key:
  "distinct (map k ys) \<Longrightarrow> y \<in> set ys \<Longrightarrow> total (\<lambda>z. if k z = k y then w z else (0 :: amount)) ys = w y"
  by (induction ys) (auto simp: total_at_no_key)

lemma sub_totals_total:
  assumes D: "dec_total D"
  shows "\<exists>ys. sub_totals_of D ls = Some ys \<and> fst ` set ys = al_symbol ` set ls \<and>
    (\<forall>y\<in>set ys. fst (snd y) = total assigned_quantity (filter (\<lambda>l. al_symbol l = fst y) ls))"
proof -
  obtain m where m: "\<And>a b. dec_mul D a b = Some (m a b)" using dec_total_mul [OF D] by metis
  let ?row = "\<lambda>l. (al_symbol l, assigned_quantity l, assigned_fee l, m (al_price l) (assigned_quantity l) + assigned_fee l)"
  let ?g = "\<lambda>s y. if fst y = s then fst (snd y) else (0 :: amount)"
  let ?xs = "sort_key fst (map ?row ls)"
  have rows: "map_options (sub_total_of D) ls = Some (map ?row ls)"
    using D by (intro map_options_total) (simp add: sub_total_of_def dec_totalD m)
  have merge: "\<exists>c. add_sub_totals D a b = Some c \<and> True \<and> ?g s c = ?g s a + ?g s b" if "fst a = fst b" for a b s
    using that D by (cases a; cases b) (simp add: dec_totalD)
  have run: "\<exists>ys. coalesce (\<lambda>a b. fst a = fst b) (add_sub_totals D) ?xs = Some ys \<and>
      (\<forall>y\<in>set ys. True) \<and> total (?g s) ys = total (?g s) ?xs" for s
    by (rule coalesce_total) (use merge in auto)
  obtain ys where ys: "coalesce (\<lambda>a b. fst a = fst b) (add_sub_totals D) ?xs = Some ys"
    using run by blast
  with run have tot: "total (?g s) ys = total (?g s) ?xs" for s by simp
  have keys: "sorted_wrt (<) (map fst ys) \<and> fst ` set ys = fst ` set ?xs"
    by (rule coalesce_keys [OF ys]) (auto split: Option.bind_splits)
  then have dist: "distinct (map fst ys)" using strict_sorted_iff by blast
  have sorting: "total (?g s) ?xs = total (?g s) (map ?row ls)" for s
    by (simp only: total_sort_key)
  have rows_of: "total (?g s) (map ?row ls) = total assigned_quantity (filter (\<lambda>l. al_symbol l = s) ls)" for s
    by (induction ls) auto
  have "fst (snd y) = total assigned_quantity (filter (\<lambda>l. al_symbol l = fst y) ls)" if "y \<in> set ys" for y
    using total_at_key [OF dist that, of "\<lambda>y. fst (snd y)"] by (simp only: tot sorting rows_of)
  with rows ys keys show ?thesis by (auto simp: sub_totals_of_def image_image)
qed

lemma merged_lots_total:
  assumes D: "dec_total D" and sy: "\<forall>l\<in>set ls. al_symbol l = sy (al_lot_id l)"
  shows "\<exists>ms. coalesce same_lot (add_lots D) (sort_key al_lot_id ls) = Some ms \<and>
    (\<forall>s. total assigned_quantity (filter (\<lambda>l. al_symbol l = s) ms) =
         total assigned_quantity (filter (\<lambda>l. al_symbol l = s) ls)) \<and>
    al_symbol ` set ms = al_symbol ` set ls"
proof -
  let ?xs = "sort_key al_lot_id ls"
  let ?Q = "\<lambda>l. al_symbol l = sy (al_lot_id l)"
  let ?g = "\<lambda>s l. if al_symbol l = s then assigned_quantity l else 0"
  have merge: "\<exists>c. add_lots D a b = Some c \<and> ?Q c \<and> ?g s c = ?g s a + ?g s b"
    if "same_lot a b" "?Q a" "?Q b" for a b s
    using that D by (simp add: add_lots_def dec_totalD same_lot_def)
  have run: "\<exists>ms. coalesce same_lot (add_lots D) ?xs = Some ms \<and> (\<forall>l\<in>set ms. ?Q l) \<and>
      total (?g s) ms = total (?g s) ?xs" for s
    by (rule coalesce_total) (use merge sy in auto)
  obtain ms where ms: "coalesce same_lot (add_lots D) ?xs = Some ms" using run by blast
  with run have tot: "total (?g s) ms = total (?g s) ?xs" and Q: "\<forall>l\<in>set ms. ?Q l" for s by auto
  have sorting: "total (?g s) ?xs = total (?g s) ls" for s
    by (rule total_sort_key)
  have filt: "total (?g s) zs = total assigned_quantity (filter (\<lambda>l. al_symbol l = s) zs)" for s zs
    by (induction zs) auto
  have "sorted_wrt (<) (map al_lot_id ms) \<and> al_lot_id ` set ms = al_lot_id ` set ?xs"
    by (rule coalesce_keys [OF ms]) (auto simp: same_lot_def add_lots_def split: Option.bind_splits)
  then have "al_lot_id ` set ms = al_lot_id ` set ls" by simp
  then have "sy ` al_lot_id ` set ms = sy ` al_lot_id ` set ls" by simp
  moreover have "al_symbol ` set ms = sy ` al_lot_id ` set ms" using Q by (auto simp: image_image)
  moreover have "al_symbol ` set ls = sy ` al_lot_id ` set ls" using sy by (auto simp: image_image)
  moreover have "\<forall>s. total assigned_quantity (filter (\<lambda>l. al_symbol l = s) ms) =
      total assigned_quantity (filter (\<lambda>l. al_symbol l = s) ls)"
    by (simp only: filt [symmetric] tot sorting simp_thms)
  ultimately show ?thesis using ms by simp
qed

lemma average_price_None:
  "dec_total D \<Longrightarrow> average_price D y = None \<longleftrightarrow> fst (snd y) = 0"
  by (cases y) (simp add: dec_totalD)

text \<open>
  Apart from overflow, printing an invoice panics exactly when the lots assigned for one of
  its assets add up to quantity zero: the average price of that asset is a division by zero. Each
  lot belongs to one asset, and the debug log is off.
\<close>

theorem invoice_print_panics:
  assumes "dec_total D" and "\<forall>l\<in>set ls. al_symbol l = sy (al_lot_id l)"
  shows "print_mint_invoice D False io u amount_paid ls = None \<longleftrightarrow>
    (\<exists>l\<in>set ls. total assigned_quantity (filter (\<lambda>l'. al_symbol l' = al_symbol l) ls) = 0)"
proof -
  from merged_lots_total [OF assms] obtain ms
    where ms: "coalesce same_lot (add_lots D) (sort_key al_lot_id ls) = Some ms"
      and tot: "\<forall>s. total assigned_quantity (filter (\<lambda>l. al_symbol l = s) ms) =
         total assigned_quantity (filter (\<lambda>l. al_symbol l = s) ls)"
      and syms: "al_symbol ` set ms = al_symbol ` set ls" by blast
  from sub_totals_total [OF assms(1), of ms] obtain ys
    where ys: "sub_totals_of D ms = Some ys" "fst ` set ys = al_symbol ` set ms"
      and q: "\<forall>y\<in>set ys. fst (snd y) = total assigned_quantity (filter (\<lambda>l. al_symbol l = fst y) ms)" by blast
  obtain m where m: "\<And>a b. dec_mul D a b = Some (m a b)" using dec_total_mul [OF assms(1)] by metis
  have amounts: "map_options (lot_amount D) ms =
      Some (map (\<lambda>l. m (assigned_quantity l) (al_price l) + assigned_fee l) ms)"
    using assms(1) by (intro map_options_total) (simp add: lot_amount_def dec_totalD m)
  have "print_mint_invoice D False io u amount_paid ls = None \<longleftrightarrow> map_options (average_price D) ys = None"
    using assms(1)
    by (cases "map_options (average_price D) ys")
      (simp_all add: print_mint_invoice_def ms ys(1) amounts dec_sum_total dec_totalD)
  also have "\<dots> \<longleftrightarrow> (\<exists>y\<in>set ys. total assigned_quantity (filter (\<lambda>l. al_symbol l = fst y) ls) = 0)"
    using q tot average_price_None [OF assms(1)] by (simp add: map_options_None)
  also have "\<dots> \<longleftrightarrow> (\<exists>s\<in>fst ` set ys. total assigned_quantity (filter (\<lambda>l. al_symbol l = s) ls) = 0)"
    by blast
  also have "\<dots> \<longleftrightarrow> (\<exists>l\<in>set ls. total assigned_quantity (filter (\<lambda>l'. al_symbol l' = al_symbol l) ls) = 0)"
    unfolding ys(2) syms by blast
  finally show ?thesis .
qed

definition dec_ideal :: dec_ops where
  "dec_ideal = \<lparr>dec_add = (\<lambda>a b. Some (a + b)), dec_sub = (\<lambda>a b. Some (a - b)),
     dec_mul = (\<lambda>a b. Some (a * b)), dec_div = (\<lambda>a b. if b = 0 then None else Some (a / b))\<rparr>"

lemma dec_total_ideal: "dec_total dec_ideal"
  by (simp add: dec_total_def dec_ideal_def)

definition demo_assigned :: "lot_id \<Rightarrow> amount \<Rightarrow> solver_order_asset_lot" where
  "demo_assigned i q = \<lparr>al_lot_id = i, al_symbol = ''BTC'', al_price = 10, al_original_quantity = 5,
     al_remaining_quantity = 5, al_original_fee = 1, assigned_quantity = q, assigned_fee = 1/10,
     al_created_timestamp = 0, assigned_timestamp = 0\<rparr>"

theorem invoice_print_panics_witness:
  "print_mint_invoice dec_ideal False (index_order_new 1 2 ''IDX'' Buy 0)
     (index_order_update_new ''c'' Buy 100 0) 90 [demo_assigned ''a'' 0] = None \<and>
   print_mint_invoice dec_ideal False (index_order_new 1 2 ''IDX'' Buy 0)
     (index_order_update_new ''c'' Buy 100 0) 90 [demo_assigned ''a'' 1, demo_assigned ''b'' 0] \<noteq> None"
  by (subst (1 2) invoice_print_panics [OF dec_total_ideal, where sy = "\<lambda>_. ''BTC''"])
    (auto simp: demo_assigned_def)

end
