(* ===== verification/Server.thy ===== *)
theory Server
  imports MintInvoice
begin

text \<open>
  The messages between the index maker and its clients, \<open>src/server/server.rs\<close>. The argument of
  a constructor is the field of the same position in the source.
\<close>

text \<open>\<open>ServerEvent\<close>: chain, address, client order or quote, symbol, side, collateral, time.\<close>

datatype server_event =
    EvNewIndexOrder u32 address client_order_id symbol side amount timestamp
  | EvCancelIndexOrder u32 address client_order_id symbol amount timestamp
  | EvNewQuoteRequest u32 address string symbol side amount timestamp
  | EvCancelQuoteRequest u32 address string symbol timestamp
  | EvAccountToCustody
  | EvCustodyToAccount

datatype new_index_order_nak_reason =
    DuplicateClientOrderId string
  | NewOrderInvalidSymbol string
  | NewOrderOtherReason string

datatype cancel_index_order_nak_reason =
    IndexOrderNotFound string
  | CancelOrderOtherReason string

datatype new_index_quote_nak_reason =
    DuplicateIndexQuoteId string
  | NewQuoteInvalidSymbol string
  | NewQuoteOtherReason string

datatype cancel_index_quote_nak_reason =
    IndexQuoteNotFound string
  | CancelQuoteInvalidSymbol string
  | CancelQuoteOtherReason string

datatype new_quote_request_nak_reason =
    DuplicateClientQuoteId string
  | QuoteRequestInvalidSymbol string
  | QuoteRequestOtherReason string

datatype server_error = ServerOtherReason string

datatype 'r server_response_reason = User 'r | ServerSide server_error

text \<open>
  \<open>ServerResponse\<close>. Each names the chain, the address and the order or quote; a fill then has the
  filled quantity, the collateral spent and remaining, the fill rate and a status.
\<close>

datatype server_response =
    NewIndexOrderAck u32 address client_order_id timestamp
  | NewIndexOrderNak u32 address client_order_id "new_index_order_nak_reason server_response_reason" timestamp
  | CancelIndexOrderAck u32 address client_order_id timestamp
  | CancelIndexOrderNak u32 address client_order_id "cancel_index_order_nak_reason server_response_reason" timestamp
  | IndexOrderFill u32 address client_order_id amount amount amount amount string timestamp
  | MintInvoiceIssued u32 address client_order_id mint_invoice timestamp
  | NewIndexQuoteAck u32 address string timestamp
  | NewIndexQuoteNak u32 address string "new_index_quote_nak_reason server_response_reason" timestamp
  | NewQuoteRequestAck u32 address string timestamp
  | NewQuoteRequestNak u32 address string "new_quote_request_nak_reason server_response_reason" timestamp
  | CancelIndexQuoteAck u32 address string timestamp
  | CancelIndexQuoteNak u32 address string "cancel_index_quote_nak_reason server_response_reason" timestamp
  | IndexQuoteResponse u32 address string amount timestamp

end
