(* ===== verification/IndexOrderManager.thy ===== *)
theory IndexOrderManager
  imports Server BatchManager
begin

text \<open>
  The manager of all users' index orders, \<open>src/solver/index_order_manager.rs\<close>: requests of the
  clients, and what the solver reports back. The orders of a user are an association list from
  symbols; the observer's events and the server's responses are recorded in one list, in order.
  A request that fails may have changed the state before; the changed state is returned with the
  failure. Storing the orders is left out.
\<close>

section \<open>Data\<close>

record engage_order_request =
  er_chain_id :: u32
  er_address :: address
  er_client_order_id :: client_order_id
  er_symbol :: symbol
  er_collateral_amount :: amount

text \<open>\<open>IndexOrderEvent\<close>, with its fields in the order of the source.\<close>

datatype index_order_event =
    NewIndexOrder u32 address client_order_id symbol side amount timestamp
  | EngageIndexOrder batch_order_id "((address \<times> client_order_id) \<times> engaged_index_order) list" timestamp
  | CollateralReady u32 address client_order_id amount amount amount timestamp
  | UpdateIndexOrder u32 address client_order_id amount amount timestamp
  | CancelIndexOrder u32 address client_order_id timestamp

datatype order_effect = Publish index_order_event | Respond server_response

text \<open>
  The parameters: decimals, the scale of a normalized decimal, whether the debug log is on, and
  what the invoice manager is given.
\<close>

record 's order_env =
  order_dec :: dec_ops
  scale_of :: "amount \<Rightarrow> nat"
  debug_log :: bool
  invoicing :: "'s invoice_env"

record 's index_order_manager =
  index_orders :: "u32 \<times> address \<Rightarrow> (symbol \<times> index_order) list option"
  index_symbols :: "symbol set"
  order_tolerance :: amount
  invoices :: "'s mint_invoice_manager"
  order_effects :: "order_effect list"

definition index_order_manager_new :: "'s mint_invoice_manager \<Rightarrow> amount \<Rightarrow> 's index_order_manager" where
  "index_order_manager_new im tol = \<lparr>index_orders = Map.empty, index_symbols = {},
     order_tolerance = tol, invoices = im, order_effects = []\<rparr>"

definition add_index_symbol :: "'s index_order_manager \<Rightarrow> symbol \<Rightarrow> 's index_order_manager" where
  "add_index_symbol m sy = m\<lparr>index_symbols := insert sy (index_symbols m)\<rparr>"

definition remove_index_symbol :: "'s index_order_manager \<Rightarrow> symbol \<Rightarrow> 's index_order_manager" where
  "remove_index_symbol m sy = m\<lparr>index_symbols := index_symbols m - {sy}\<rparr>"

definition effect :: "order_effect \<Rightarrow> 's index_order_manager \<Rightarrow> 's index_order_manager" where
  "effect e m = m\<lparr>order_effects := order_effects m @ [e]\<rparr>"

definition user_orders :: "'s index_order_manager \<Rightarrow> u32 \<times> address \<Rightarrow> (symbol \<times> index_order) list" where
  "user_orders m k = (case index_orders m k of None \<Rightarrow> [] | Some os \<Rightarrow> os)"

definition find_index_order :: "'s index_order_manager \<Rightarrow> u32 \<Rightarrow> address \<Rightarrow> symbol \<Rightarrow> index_order option" where
  "find_index_order m chain addr sy = map_of (user_orders m (chain, addr)) sy"

text \<open>Writing through the reference \<open>get_mut\<close> or \<open>entry\<close> returned.\<close>

definition put_order ::
  "'s index_order_manager \<Rightarrow> u32 \<Rightarrow> address \<Rightarrow> symbol \<Rightarrow> index_order \<Rightarrow> 's index_order_manager" where
  "put_order m chain addr sy io =
     m\<lparr>index_orders := (index_orders m)((chain, addr) \<mapsto> put_assoc sy io (user_orders m (chain, addr)))\<rparr>"

section \<open>Requests of the clients\<close>

definition publish_outcome ::
  "u32 \<Rightarrow> address \<Rightarrow> client_order_id \<Rightarrow> symbol \<Rightarrow> side \<Rightarrow> timestamp \<Rightarrow> update_index_order_outcome \<Rightarrow>
     's index_order_manager \<Rightarrow> 's index_order_manager" where
  "publish_outcome chain addr coid sy sd ts r m =
     (case r of
        Push amount \<Rightarrow> effect (Publish (NewIndexOrder chain addr coid sy sd amount ts)) m
      | UpdateReduce removed remaining \<Rightarrow>
          effect (Publish (UpdateIndexOrder chain addr coid removed remaining ts)) m
      | Flip sd' amount \<Rightarrow>
          effect (Publish (NewIndexOrder chain addr coid sy sd' amount ts))
            (effect (Publish (CancelIndexOrder chain addr coid ts)) m))"

definition new_index_order ::
  "'s order_env \<Rightarrow> 's index_order_manager \<Rightarrow> u32 \<Rightarrow> address \<Rightarrow> client_order_id \<Rightarrow> symbol \<Rightarrow> side \<Rightarrow> amount \<Rightarrow>
     timestamp \<Rightarrow> 's index_order_manager \<times> (new_index_order_nak_reason server_response_reason + unit)" where
  "new_index_order E m chain addr coid sy sd amount ts =
     (if 6 < scale_of E amount then (m, Inl (User (NewOrderOtherReason ''Too much precision'')))
      else if sd = Sell then (m, Inl (User (NewOrderOtherReason ''We don't support Sell yet!'')))
      else if sy \<notin> index_symbols m then (m, Inl (User (NewOrderInvalidSymbol sy)))
      else let orders = user_orders m (chain, addr);
               m1 = m\<lparr>index_orders := (index_orders m)((chain, addr) \<mapsto> orders)\<rparr>
      in if list_ex (\<lambda>(_, io). find_order_update io coid \<noteq> None) orders
         then (m1, Inl (User (DuplicateClientOrderId coid)))
         else let io = (case map_of orders sy of None \<Rightarrow> index_order_new chain addr sy sd ts | Some io \<Rightarrow> io)
         in case update_order (order_dec E) io coid sd amount ts (order_tolerance m) of
              (io', Inl e) \<Rightarrow>
                (put_order m1 chain addr sy io', Inl (ServerSide (ServerOtherReason ''Cannot update order'')))
            | (io', Inr r) \<Rightarrow>
                (publish_outcome chain addr coid sy sd ts r (put_order m1 chain addr sy io'), Inr ()))"

text \<open>\<open>None\<close> when \<open>solver_cancel\<close> panics.\<close>

definition cancel_index_order ::
  "'s order_env \<Rightarrow> 's index_order_manager \<Rightarrow> u32 \<Rightarrow> address \<Rightarrow> client_order_id \<Rightarrow> symbol \<Rightarrow> timestamp \<Rightarrow>
     's index_order_manager \<times> (cancel_index_order_nak_reason server_response_reason + unit) option" where
  "cancel_index_order E m chain addr coid sy ts =
     (case find_index_order m chain addr sy of
        None \<Rightarrow> (m, Some (Inl (ServerSide (ServerOtherReason ''Cannot find index order''))))
      | Some io \<Rightarrow>
          (case solver_cancel (order_dec E) io coid of
             None \<Rightarrow> (m, None)
           | Some io' \<Rightarrow>
               (effect (Publish (CancelIndexOrder chain addr coid ts)) (put_order m chain addr sy io'),
                Some (Inr ()))))"

text \<open>A refusal that is the client's own doing is no failure of the manager.\<close>

definition refusal :: "'r server_response_reason \<Rightarrow> unit outcome" where
  "refusal reason = (case reason of User _ \<Rightarrow> Returns (Inr ()) | ServerSide _ \<Rightarrow> Returns (Inl ''Internal server error''))"

definition handle_server_message ::
  "'s order_env \<Rightarrow> 's index_order_manager \<Rightarrow> server_event \<Rightarrow> 's index_order_manager \<times> unit outcome" where
  "handle_server_message E m ev =
     (case ev of
        EvNewIndexOrder chain addr coid sy sd amount ts \<Rightarrow>
          (case new_index_order E m chain addr coid sy sd amount ts of
             (m', Inl reason) \<Rightarrow> (effect (Respond (NewIndexOrderNak chain addr coid reason ts)) m', refusal reason)
           | (m', Inr _) \<Rightarrow> (effect (Respond (NewIndexOrderAck chain addr coid ts)) m', Returns (Inr ())))
      | EvCancelIndexOrder chain addr coid sy amount ts \<Rightarrow>
          (case cancel_index_order E m chain addr coid sy ts of
             (m', None) \<Rightarrow> (m', Panic)
           | (m', Some (Inl reason)) \<Rightarrow>
               (effect (Respond (CancelIndexOrderNak chain addr coid reason ts)) m', refusal reason)
           | (m', Some (Inr _)) \<Rightarrow>
               (effect (Respond (CancelIndexOrderAck chain addr coid ts)) m', Returns (Inr ())))
      | _ \<Rightarrow> (m, Returns (Inr ())))"

section \<open>Collateral\<close>

fun update_first :: "('a \<Rightarrow> bool) \<Rightarrow> ('a \<Rightarrow> 'a) \<Rightarrow> 'a list \<Rightarrow> 'a list" where
  "update_first P f [] = []"
| "update_first P f (x # xs) = (if P x then f x # xs else x # update_first P f xs)"

text \<open>The update's own account of the collateral that became ready and the fees it cost.\<close>

definition update_ready ::
  "dec_ops \<Rightarrow> amount \<Rightarrow> index_order_update \<Rightarrow> amount \<Rightarrow> amount \<Rightarrow> timestamp \<Rightarrow> index_order_update option" where
  "update_ready D tol u amount fees ts = do {
     spent \<leftarrow> dec_add D (u_collateral_spent u) fees;
     fee \<leftarrow> dec_add D (update_fee u) fees;
     remaining \<leftarrow> dec_sub D (u_remaining u) fees;
     least \<leftarrow> dec_sub D amount tol;
     (if remaining < least then None
      else Some (u\<lparr>u_collateral_spent := spent, update_fee := fee, u_remaining := remaining, u_timestamp := ts\<rparr>))
   }"

definition order_ready :: "dec_ops \<Rightarrow> index_order \<Rightarrow> amount \<Rightarrow> timestamp \<Rightarrow> index_order option" where
  "order_ready D io fees ts = do {
     remaining \<leftarrow> dec_sub D (io_remaining io) fees;
     spent \<leftarrow> dec_add D (io_collateral_spent io) fees;
     all_fees \<leftarrow> dec_add D (io_fees io) fees;
     Some (io\<lparr>io_remaining := remaining, io_collateral_spent := spent, io_fees := all_fees,
             io_last_update_timestamp := ts\<rparr>)
   }"

definition collateral_ready ::
  "'s order_env \<Rightarrow> 's index_order_manager \<Rightarrow> u32 \<Rightarrow> address \<Rightarrow> client_order_id \<Rightarrow> symbol \<Rightarrow> amount \<Rightarrow> amount \<Rightarrow>
     timestamp \<Rightarrow> 's index_order_manager \<times> unit result" where
  "collateral_ready E m chain addr coid sy amount fees ts =
     (let failed = Inl ''Failed to update index order'' in
      case find_index_order m chain addr sy of
        None \<Rightarrow> (m, failed)
      | Some io \<Rightarrow>
          (case find_order_update io coid of
             None \<Rightarrow> (m, failed)
           | Some u \<Rightarrow>
               (case update_ready (order_dec E) (order_tolerance m) u amount fees ts of
                  None \<Rightarrow> (m, failed)
                | Some u' \<Rightarrow>
                    (let io1 = io\<lparr>order_updates :=
                                   update_first (\<lambda>u. u_client_order_id u = coid) (\<lambda>_. u') (order_updates io)\<rparr>
                     in case order_ready (order_dec E) io1 fees ts of
                          None \<Rightarrow> (put_order m chain addr sy io1, failed)
                        | Some io2 \<Rightarrow>
                            (effect (Respond (IndexOrderFill chain addr coid 0 (u_collateral_spent u')
                                       (u_remaining u') 0 ''collateral ready'' ts))
                             (effect (Publish (CollateralReady chain addr coid (u_remaining u')
                                       (u_collateral_spent u') (update_fee u') ts))
                               (put_order m chain addr sy io2)), Inr ())))))"
section \<open>Minting\<close>

definition remove_index_order ::
  "'s index_order_manager \<Rightarrow> u32 \<Rightarrow> address \<Rightarrow> symbol \<Rightarrow> client_order_id \<Rightarrow>
     's index_order_manager \<times> index_order option result" where
  "remove_index_order m chain addr sy coid =
     (case find_index_order m chain addr sy of
        None \<Rightarrow> (m, Inl ''No Index orders found'')
      | Some io \<Rightarrow>
          (case solver_complete io coid of
             (io', Inl e) \<Rightarrow> (put_order m chain addr sy io', Inl e)
           | (io', Inr _) \<Rightarrow>
               if order_updates io' = []
               then (m\<lparr>index_orders := (index_orders m)((chain, addr) \<mapsto>
                        filter (\<lambda>(sy', _). sy' \<noteq> sy) (user_orders m (chain, addr)))\<rparr>, Inr (Some io'))
               else (put_order m chain addr sy io', Inr None)))"

text \<open>
  The closure \<open>process\<close>, on the order it drains: the last closed update of that name is invoiced.
  It returns the order it leaves behind.
\<close>

definition invoice_update ::
  "'s order_env \<Rightarrow> 's index_order_manager \<Rightarrow> index_order \<Rightarrow> u32 \<Rightarrow> address \<Rightarrow> client_order_id \<Rightarrow> payment_id \<Rightarrow>
     u256 \<Rightarrow> amount \<Rightarrow> amount \<Rightarrow> solver_order_asset_lot list \<Rightarrow> collateral_position \<Rightarrow> timestamp \<Rightarrow>
     's index_order_manager \<times> unit outcome" where
  "invoice_update E m io chain addr coid pid seq_num filled amount_paid ls p ts =
     (case filter (\<lambda>u. u_client_order_id u = coid) (snd (drain_closed_updates io)) of
        [] \<Rightarrow> (m, Returns (Inl ''Update not found''))
      | u # us \<Rightarrow>
          (case mint_invoice_try_new (order_dec E) (debug_log E) (fst (drain_closed_updates io)) (last (u # us))
                  pid seq_num filled amount_paid ls p ts of
             Panic \<Rightarrow> (m, Panic)
           | Returns (Inl e) \<Rightarrow> (m, Returns (Inl e))
           | Returns (Inr i) \<Rightarrow>
               (case add_invoice (invoicing E) (invoices m) chain addr i of
                  (im, Inl e) \<Rightarrow> (m\<lparr>invoices := im\<rparr>, Returns (Inl e))
                | (im, Inr _) \<Rightarrow>
                    (effect (Respond (MintInvoiceIssued chain addr coid i ts)) (m\<lparr>invoices := im\<rparr>),
                     Returns (Inr ())))))"

definition order_request_minted ::
  "'s order_env \<Rightarrow> 's index_order_manager \<Rightarrow> u32 \<Rightarrow> address \<Rightarrow> client_order_id \<Rightarrow> symbol \<Rightarrow> payment_id \<Rightarrow>
     u256 \<Rightarrow> amount \<Rightarrow> amount \<Rightarrow> solver_order_asset_lot list \<Rightarrow> collateral_position \<Rightarrow> timestamp \<Rightarrow>
     's index_order_manager \<times> unit outcome" where
  "order_request_minted E m chain addr coid sy pid seq_num filled amount_paid ls p ts =
     (case remove_index_order m chain addr sy coid of
        (m1, Inl e) \<Rightarrow> (m1, Returns (Inl e))
      | (m1, Inr removed) \<Rightarrow>
          (let m2 = effect (Publish (CancelIndexOrder chain addr coid ts)) m1
           in case removed of
                Some io \<Rightarrow> invoice_update E m2 io chain addr coid pid seq_num filled amount_paid ls p ts
              | None \<Rightarrow>
                  (case find_index_order m2 chain addr sy of
                     None \<Rightarrow> (m2, Returns (Inl ''cannot find index order''))
                   | Some io \<Rightarrow>
                       invoice_update E (put_order m2 chain addr sy (fst (drain_closed_updates io))) io
                         chain addr coid pid seq_num filled amount_paid ls p ts)))"

section \<open>Fills\<close>

text \<open>The computed figures: the update and the order after the fill, and the collateral unspent.\<close>

definition fill_figures ::
  "dec_ops \<Rightarrow> index_order \<Rightarrow> index_order_update \<Rightarrow> amount \<Rightarrow> amount \<Rightarrow> timestamp \<Rightarrow>
     (index_order_update \<times> index_order \<times> amount) option" where
  "fill_figures D io u collateral_spent fill_amount ts = do {
     io_filled \<leftarrow> dec_add D (io_filled_quantity io) fill_amount;
     io_spent \<leftarrow> dec_add D (io_collateral_spent io) collateral_spent;
     io_old \<leftarrow> io_engaged io;
     io_new \<leftarrow> dec_sub D io_old collateral_spent;
     filled \<leftarrow> dec_add D (u_filled_quantity u) fill_amount;
     spent \<leftarrow> dec_add D (u_collateral_spent u) collateral_spent;
     old \<leftarrow> u_engaged u;
     new \<leftarrow> dec_sub D old collateral_spent;
     unspent \<leftarrow> dec_add D new (u_remaining u);
     Some (u\<lparr>u_filled_quantity := filled, u_collateral_spent := spent, u_engaged := Some new, u_timestamp := ts\<rparr>,
           io\<lparr>io_filled_quantity := io_filled, io_collateral_spent := io_spent, io_engaged := Some io_new,
             io_last_update_timestamp := ts\<rparr>,
           unspent)
   }"

text \<open>Writing the update \<open>find_engaged_update\<close> finds: the front of the queue, or an engaged one.\<close>

definition put_engaged_update :: "client_order_id \<Rightarrow> index_order_update \<Rightarrow> index_order \<Rightarrow> index_order" where
  "put_engaged_update coid u io =
     (case order_updates io of
        f # us \<Rightarrow>
          if u_client_order_id f = coid then io\<lparr>order_updates := u # us\<rparr>
          else io\<lparr>engaged_updates := update_first (\<lambda>x. u_client_order_id x = coid) (\<lambda>_. u) (engaged_updates io)\<rparr>
      | [] \<Rightarrow>
          io\<lparr>engaged_updates := update_first (\<lambda>x. u_client_order_id x = coid) (\<lambda>_. u) (engaged_updates io)\<rparr>)"

definition status_string :: "solver_order_status \<Rightarrow> string" where
  "status_string st =
     (case st of Engaged \<Rightarrow> ''in progress'' | PartlyMintable \<Rightarrow> ''mintable''
      | FullyMintable \<Rightarrow> ''fully mintable'' | _ \<Rightarrow> ''N/A'')"

definition fill_order_request ::
  "'s order_env \<Rightarrow> 's index_order_manager \<Rightarrow> u32 \<Rightarrow> address \<Rightarrow> client_order_id \<Rightarrow> symbol \<Rightarrow> amount \<Rightarrow> amount \<Rightarrow>
     amount \<Rightarrow> solver_order_status \<Rightarrow> timestamp \<Rightarrow> 's index_order_manager \<times> unit outcome" where
  "fill_order_request E m chain addr coid sy collateral_spent fill_amount fill_rate st ts =
     (case find_index_order m chain addr sy of
        None \<Rightarrow> (m, Returns (Inl ''cannot find index order''))
      | Some io \<Rightarrow>
     (case find_engaged_update io coid of
        None \<Rightarrow> (m, Returns (Inl ''cannot find engaged update''))
      | Some u \<Rightarrow>
     (case fill_figures (order_dec E) io u collateral_spent fill_amount ts of
        None \<Rightarrow> (m, Returns (Inl ''Failed to update index order''))
      | Some (u', io', unspent) \<Rightarrow>
     (case print_fill_report (order_dec E) (debug_log E) io u of
        None \<Rightarrow> (m, Panic)
      | Some _ \<Rightarrow>
          (effect (Respond (IndexOrderFill chain addr coid (u_filled_quantity u') (u_collateral_spent u')
                     unspent fill_rate (status_string st) ts))
             (put_order m chain addr sy (put_engaged_update coid u' io')), Returns (Inr ()))))))"

section \<open>Failures and engagements\<close>

definition order_failed ::
  "'s order_env \<Rightarrow> 's index_order_manager \<Rightarrow> u32 \<Rightarrow> address \<Rightarrow> client_order_id \<Rightarrow> symbol \<Rightarrow> timestamp \<Rightarrow>
     's index_order_manager \<times> unit outcome" where
  "order_failed E m chain addr coid sy ts =
     (case find_index_order m chain addr sy of
        None \<Rightarrow> (m, Returns (Inl ''Cannot find index order''))
      | Some io \<Rightarrow>
          (case solver_cancel (order_dec E) io coid of
             None \<Rightarrow> (m, Panic)
           | Some io' \<Rightarrow>
               (effect (Respond (NewIndexOrderNak chain addr coid
                          (ServerSide (ServerOtherReason ''Cannot handle order: Solver failed'')) ts))
                 (effect (Publish (CancelIndexOrder chain addr coid ts)) (put_order m chain addr sy io')),
                Returns (Inr ()))))"

text \<open>
  The loop of \<open>engage_orders\<close>. An order whose engaged collateral overflows is cancelled instead,
  and left out of the result.
\<close>

fun engage_loop_orders ::
  "'s order_env \<Rightarrow> engage_order_request list \<Rightarrow> 's index_order_manager \<Rightarrow>
     ((address \<times> client_order_id) \<times> engaged_index_order) list \<Rightarrow>
     's index_order_manager \<times> ((address \<times> client_order_id) \<times> engaged_index_order) list outcome" where
  "engage_loop_orders E [] m res = (m, Returns (Inr res))"
| "engage_loop_orders E (r # rs) m res =
     (let chain = er_chain_id r; addr = er_address r; sy = er_symbol r; coid = er_client_order_id r in
      case find_index_order m chain addr sy of
        None \<Rightarrow> (m, Returns (Inl ''No such index order''))
      | Some io \<Rightarrow>
     (case solver_engage_one (order_dec E) io coid (er_collateral_amount r) (order_tolerance m) of
        (io', Inl e) \<Rightarrow> (put_order m chain addr sy io', Returns (Inl e))
      | (io', Inr (remaining, unmatched)) \<Rightarrow>
          (case (case unmatched of None \<Rightarrow> Some (er_collateral_amount r)
                 | Some x \<Rightarrow> dec_sub (order_dec E) (er_collateral_amount r) x) of
             Some engaged \<Rightarrow>
               engage_loop_orders E rs (put_order m chain addr sy io')
                 (put_assoc (addr, coid) \<lparr>ei_chain_id = chain, ei_address = addr, ei_client_order_id = coid,
                    collateral_engaged = engaged, collateral_remaining = remaining\<rparr> res)
           | None \<Rightarrow>
               (case solver_cancel (order_dec E) io' coid of
                  None \<Rightarrow> (put_order m chain addr sy io', Panic)
                | Some io'' \<Rightarrow> engage_loop_orders E rs (put_order m chain addr sy io'') res))))"

text \<open>\<open>now\<close> is the clock when the event is published.\<close>

definition engage_orders ::
  "'s order_env \<Rightarrow> 's index_order_manager \<Rightarrow> batch_order_id \<Rightarrow> engage_order_request list \<Rightarrow> timestamp \<Rightarrow>
     's index_order_manager \<times> unit outcome" where
  "engage_orders E m bid rs now =
     (case engage_loop_orders E rs m [] of
        (m', Panic) \<Rightarrow> (m', Panic)
      | (m', Returns (Inl e)) \<Rightarrow> (m', Returns (Inl e))
      | (m', Returns (Inr res)) \<Rightarrow>
          (effect (Publish (EngageIndexOrder bid res now)) m', Returns (Inr ())))"

end
