(* ===== verification/IndexOrderRuns.thy ===== *)
theory IndexOrderRuns
  imports IndexOrderManager
begin

text \<open>
  What holds of the index order manager through any run of its calls: whose orders it keeps, that
  their remaining collateral is that of their queues, and that no user has two queued orders of
  one name.
\<close>

section \<open>The orders of a user\<close>

definition ids_of :: "index_order \<Rightarrow> client_order_id list" where
  "ids_of io = map u_client_order_id (order_updates io)"

definition user_ids :: "(symbol \<times> index_order) list \<Rightarrow> client_order_id list" where
  "user_ids os = concat (map (\<lambda>p. ids_of (snd p)) os)"

lemma user_ids_simps [simp]:
  "user_ids [] = []"
  "user_ids (p # os) = ids_of (snd p) @ user_ids os"
  by (simp_all add: user_ids_def)

lemma ids_in_user: "map_of os sy = Some io \<Longrightarrow> i \<in> set (ids_of io) \<Longrightarrow> i \<in> set (user_ids os)"
  by (induction os) (auto split: if_splits)

lemma user_ids_put_subset: "set (user_ids (put_assoc sy io os)) \<subseteq> set (ids_of io) \<union> set (user_ids os)"
  by (induction os) (auto split: if_splits)

definition order_kept :: "amount \<Rightarrow> u32 \<times> address \<Rightarrow> symbol \<times> index_order \<Rightarrow> bool" where
  "order_kept slack k p \<longleftrightarrow> (io_chain_id (snd p), io_address (snd p)) = k \<and> io_symbol (snd p) = fst p \<and>
     io_side (snd p) = Buy \<and> follows slack (snd p)"

definition user_kept :: "amount \<Rightarrow> u32 \<times> address \<Rightarrow> (symbol \<times> index_order) list \<Rightarrow> bool" where
  "user_kept slack k os \<longleftrightarrow> distinct (map fst os) \<and> distinct (user_ids os) \<and> (\<forall>p\<in>set os. order_kept slack k p)"

definition orders_kept :: "amount \<Rightarrow> 's index_order_manager \<Rightarrow> bool" where
  "orders_kept slack m \<longleftrightarrow> (\<forall>k os. index_orders m k = Some os \<longrightarrow> user_kept slack k os)"

text \<open>The names an order may have after a step: its own, or names the user has nowhere.\<close>

definition own_ids :: "(symbol \<times> index_order) list \<Rightarrow> symbol \<Rightarrow> index_order \<Rightarrow> bool" where
  "own_ids os sy io \<longleftrightarrow> distinct (ids_of io) \<and>
     (\<forall>i\<in>set (ids_of io). i \<in> set (user_ids os) \<longrightarrow>
        (case map_of os sy of None \<Rightarrow> False | Some io' \<Rightarrow> i \<in> set (ids_of io')))"

lemma put_distinct_ids:
  "distinct (map fst os) \<Longrightarrow> distinct (user_ids os) \<Longrightarrow> own_ids os sy io \<Longrightarrow>
     distinct (user_ids (put_assoc sy io os))"
proof (induction os)
  case (Cons p os)
  obtain sy' io' where p: "p = (sy', io')" by fastforce
  show ?case
  proof (cases "sy' = sy")
    case True
    with Cons.prems p show ?thesis by (auto simp: own_ids_def)
  next
    case False
    have own: "own_ids os sy io" using Cons.prems(3) p False by (simp add: own_ids_def)
    have apart: "i \<notin> set (ids_of io)" if "i \<in> set (ids_of io')" for i
    proof
      assume "i \<in> set (ids_of io)"
      moreover have "i \<in> set (user_ids (p # os))" using that p by simp
      ultimately have "case map_of (p # os) sy of None \<Rightarrow> False | Some io2 \<Rightarrow> i \<in> set (ids_of io2)"
        using Cons.prems(3) unfolding own_ids_def by blast
      then obtain io2 where "map_of os sy = Some io2" "i \<in> set (ids_of io2)"
        using p False by (cases "map_of os sy") auto
      with that Cons.prems(2) p show False by (auto dest: ids_in_user)
    qed
    have "distinct (user_ids (put_assoc sy io os))"
      using Cons.prems(1,2) p by (intro Cons.IH own) auto
    moreover have "set (ids_of io') \<inter> set (user_ids (put_assoc sy io os)) = {}"
      using apart user_ids_put_subset [of sy io os] Cons.prems(2) p by fastforce
    ultimately show ?thesis using Cons.prems(2) p False by simp
  qed
qed (simp add: own_ids_def)

lemma orders_kept_mono: "orders_kept s m \<Longrightarrow> s \<le> s' \<Longrightarrow> orders_kept s' m"
  unfolding orders_kept_def user_kept_def order_kept_def by (blast intro: follows_mono)

lemma orders_kept_cong: "index_orders m' = index_orders m \<Longrightarrow> orders_kept s m' = orders_kept s m"
  by (simp add: orders_kept_def)

lemma orders_kept_effect [simp]: "orders_kept s (effect e m) = orders_kept s m"
  by (simp add: effect_def orders_kept_def)

lemma user_kept_orders: "orders_kept s m \<Longrightarrow> user_kept s k (user_orders m k)"
  unfolding orders_kept_def user_orders_def
  by (cases "index_orders m k") (auto simp: user_kept_def simp del: split_paired_All)

lemma find_kept:
  "orders_kept s m \<Longrightarrow> find_index_order m chain addr sy = Some io \<Longrightarrow> order_kept s (chain, addr) (sy, io)"
  using user_kept_orders [of s m "(chain, addr)"]
  by (auto simp: find_index_order_def user_kept_def dest: map_of_SomeD)

lemma find_distinct_ids:
  "orders_kept s m \<Longrightarrow> find_index_order m chain addr sy = Some io \<Longrightarrow> distinct (ids_of io)"
proof -
  have "distinct (user_ids os) \<Longrightarrow> map_of os sy = Some io \<Longrightarrow> distinct (ids_of io)" for os
    by (induction os) (auto split: if_splits)
  then show "orders_kept s m \<Longrightarrow> find_index_order m chain addr sy = Some io \<Longrightarrow> distinct (ids_of io)"
    using user_kept_orders [of s m "(chain, addr)"] by (auto simp: find_index_order_def user_kept_def)
qed

lemma put_order_kept:
  assumes "orders_kept s m" "s \<le> s'"
    and "order_kept s' (chain, addr) (sy, io)" "own_ids (user_orders m (chain, addr)) sy io"
  shows "orders_kept s' (put_order m chain addr sy io)"
proof -
  have "user_kept s' k (user_orders m k)" for k
    using user_kept_orders [OF orders_kept_mono [OF assms(1,2)]] .
  from this [of "(chain, addr)"] assms(3,4)
  have "user_kept s' (chain, addr) (put_assoc sy io (user_orders m (chain, addr)))"
    by (auto simp: user_kept_def put_distinct_ids intro: put_assoc_distinct dest!: set_put_assoc)
  with orders_kept_mono [OF assms(1,2)] show ?thesis
    by (auto simp: orders_kept_def put_order_def)
qed

text \<open>A step on an order the manager holds, which keeps whose order it is and adds no name.\<close>

definition same_owner :: "index_order \<Rightarrow> index_order \<Rightarrow> bool" where
  "same_owner io io' \<longleftrightarrow> io_chain_id io' = io_chain_id io \<and> io_address io' = io_address io \<and>
     io_symbol io' = io_symbol io \<and> io_side io' = io_side io \<and> distinct (ids_of io') \<and>
     set (ids_of io') \<subseteq> set (ids_of io)"

lemma put_same_owner:
  assumes "orders_kept s m" "s \<le> s'" "find_index_order m chain addr sy = Some io"
    and "follows s' io'" "same_owner io io'"
  shows "orders_kept s' (put_order m chain addr sy io')"
proof (rule put_order_kept [OF assms(1,2)])
  show "order_kept s' (chain, addr) (sy, io')"
    using find_kept [OF assms(1,3)] assms(4,5) by (auto simp: order_kept_def same_owner_def)
  show "own_ids (user_orders m (chain, addr)) sy io'"
    using assms(3,5) by (auto simp: own_ids_def same_owner_def find_index_order_def)
qed

section \<open>What the calls do to one order\<close>

lemma update_first_map:
  "List.find P xs = Some x \<Longrightarrow> h y = h x \<Longrightarrow> map h (update_first P (\<lambda>_. y) xs) = map h xs"
  by (induction xs) auto

lemma update_first_total:
  "List.find P xs = Some x \<Longrightarrow>
     total g (update_first P (\<lambda>_. y) xs) = total g xs + (g y - g x :: amount)"
  by (induction xs) auto

lemma unengaged_map: "unengaged us = list_all (\<lambda>e. e = None) (map u_engaged us)"
  by (simp add: unengaged_def list_all_iff)

lemma unengaged_tl_cong: "map u_engaged us = map u_engaged vs \<Longrightarrow> unengaged (tl us) = unengaged (tl vs)"
  by (simp add: unengaged_map map_tl)

lemma same_owner_refl: "distinct (ids_of io) \<Longrightarrow> same_owner io io"
  by (simp add: same_owner_def)

lemma update_order_buy:
  assumes "dec_exact D" "update_order D io coid Buy a ts tol = (io', r)" "io_side io = Buy" "follows s io"
  shows "(case r of Inl e \<Rightarrow> io' = io
    | Inr x \<Rightarrow> x = Push a \<and> follows s io' \<and> ids_of io' = ids_of io @ [coid] \<and>
        (io_chain_id io', io_address io', io_symbol io', io_side io') =
        (io_chain_id io, io_address io, io_symbol io, io_side io))"
  using assms
  by (auto simp: update_order_def Let_def index_order_update_new_def follows_def queued_def ids_of_def
      unengaged_tl_snoc split: option.splits dest!: dec_add_exact)

lemma engage_front_id:
  "engage_front D coid a u = Inr (u', rest) \<Longrightarrow> u_client_order_id u' = u_client_order_id u"
  by (auto simp: engage_front_def Let_def split: if_splits option.splits)

lemma match_engage_one_owner:
  assumes "match_engage_one D tol io coid a = (io', r)" "distinct (ids_of io)"
  shows "same_owner io io'"
proof (cases "engaged_updates io \<noteq> [] \<and> u_client_order_id (last (engaged_updates io)) = coid")
  case True
  with assms show ?thesis by (auto simp: match_engage_one_def same_owner_refl split: if_splits)
next
  case False
  show ?thesis
  proof (cases "order_updates io")
    case Nil
    with False assms show ?thesis by (auto simp: match_engage_one_def same_owner_refl)
  next
    case (Cons u us)
    show ?thesis
    proof (cases "engage_front D coid a u")
      case (Inl e)
      with False Cons assms show ?thesis by (auto simp: match_engage_one_def same_owner_refl)
    next
      case (Inr x)
      obtain u' remaining unmatched where x: "x = (u', remaining, unmatched)" by (cases x)
      from engage_front_id [OF Inr [unfolded x]] False Cons Inr x assms show ?thesis
        by (auto simp: match_engage_one_def same_owner_def ids_of_def split: if_splits)
    qed
  qed
qed

lemma note_engaged_frame:
  "note_engaged D io a x = (io', r) \<Longrightarrow> order_updates io' = order_updates io \<and>
     (io_chain_id io', io_address io', io_symbol io', io_side io') =
     (io_chain_id io, io_address io, io_symbol io, io_side io)"
  by (auto simp: note_engaged_def Let_def split: option.splits)

lemma same_owner_frame:
  "same_owner io io1 \<Longrightarrow> order_updates io' = order_updates io1 \<and>
     (io_chain_id io', io_address io', io_symbol io', io_side io') =
     (io_chain_id io1, io_address io1, io_symbol io1, io_side io1) \<Longrightarrow> same_owner io io'"
  by (simp add: same_owner_def ids_of_def)

lemma solver_engage_one_owner:
  assumes "solver_engage_one D io coid a tol = (io', r)" "distinct (ids_of io)"
  shows "same_owner io io'"
proof -
  obtain io1 r1 where m: "match_engage_one D tol io coid a = (io1, r1)" by fastforce
  note own = match_engage_one_owner [OF m assms(2)]
  show ?thesis
    by (cases r1) (use m own assms(1) in \<open>auto simp: solver_engage_one_def split: option.splits
      dest!: note_engaged_frame intro: same_owner_frame [OF own]\<close>)
qed

lemma cancel_retain_kept: "cancel_retain D coid us r = Some (kept, gone, r') \<Longrightarrow>
    kept = filter (\<lambda>u. u_client_order_id u \<noteq> coid) us \<and> gone = filter (\<lambda>u. u_client_order_id u = coid) us"
  by (induction us arbitrary: r kept gone) (auto split: if_splits option.splits)

lemma solver_cancel_keeps:
  assumes "dec_exact D" "solver_cancel D io coid = Some io'"
  shows "follows s io \<Longrightarrow> follows s io'" "distinct (ids_of io) \<Longrightarrow> same_owner io io'"
    "order_updates io' = filter (\<lambda>u. u_client_order_id u \<noteq> coid) (order_updates io)"
    "engaged_updates io' = engaged_updates io"
proof -
  from assms(2) obtain kept gone r where
    run: "cancel_retain D coid (order_updates io) (io_remaining io) = Some (kept, gone, r)"
    and io': "io' = io\<lparr>order_updates := kept, closed_updates := closed_updates io @ gone, io_remaining := r\<rparr>"
    by (auto simp: solver_cancel_def)
  from cancel_retain_follows [OF assms(1) run] io' show "follows s io \<Longrightarrow> follows s io'"
    by (auto simp: follows_def queued_def)
  from cancel_retain_kept [OF run] io' show "distinct (ids_of io) \<Longrightarrow> same_owner io io'"
    "order_updates io' = filter (\<lambda>u. u_client_order_id u \<noteq> coid) (order_updates io)"
    "engaged_updates io' = engaged_updates io"
    by (auto simp: same_owner_def ids_of_def distinct_map_filter)
qed

lemma update_ready_figures:
  assumes "dec_exact D" "update_ready D tol u a fees ts = Some u'"
  shows "u_remaining u' = u_remaining u - fees \<and> u_engaged u' = u_engaged u \<and>
    u_client_order_id u' = u_client_order_id u \<and> u_collateral_spent u' = u_collateral_spent u + fees \<and>
    update_fee u' = update_fee u + fees"
  using assms
  by (auto simp: update_ready_def split: Option.bind_splits if_splits dest!: dec_add_exact dec_sub_exact)

lemma order_ready_figures:
  assumes "dec_exact D" "order_ready D io fees ts = Some io'"
  shows "io_remaining io' = io_remaining io - fees \<and> order_updates io' = order_updates io \<and>
    (io_chain_id io', io_address io', io_symbol io', io_side io') =
    (io_chain_id io, io_address io, io_symbol io, io_side io)"
  using assms
  by (auto simp: order_ready_def split: Option.bind_splits dest!: dec_add_exact dec_sub_exact)

lemma fill_figures_frame:
  assumes "dec_exact D" "fill_figures D io u spent amount ts = Some (u', io', unspent)"
  shows "u_remaining u' = u_remaining u \<and> u_client_order_id u' = u_client_order_id u \<and>
    io_remaining io' = io_remaining io \<and> order_updates io' = order_updates io \<and>
    engaged_updates io' = engaged_updates io \<and>
    (io_chain_id io', io_address io', io_symbol io', io_side io') =
    (io_chain_id io, io_address io, io_symbol io, io_side io)"
  using assms by (auto simp: fill_figures_def split: Option.bind_splits)

lemma find_engaged_front:
  "find_engaged_update io coid = Some u \<Longrightarrow> u_client_order_id u = coid \<and>
     (order_updates io \<noteq> [] \<and> u_client_order_id (hd (order_updates io)) = coid \<longrightarrow> u = hd (order_updates io))"
  by (cases "order_updates io") (auto simp: find_engaged_update_def find_Some_iff split: if_splits)

lemma put_engaged_follows:
  assumes "find_engaged_update io coid = Some u" "u_remaining u' = u_remaining u"
    and "u_client_order_id u' = coid" "order_updates io' = order_updates io"
    and "io_remaining io' = io_remaining io" "follows s io"
  shows "follows s (put_engaged_update coid u' io') \<and> ids_of (put_engaged_update coid u' io') = ids_of io \<and>
    (let x = put_engaged_update coid u' io' in (io_chain_id x, io_address x, io_symbol x, io_side x) =
      (io_chain_id io', io_address io', io_symbol io', io_side io'))"
  using assms find_engaged_front [OF assms(1)]
  by (auto simp: put_engaged_update_def follows_def queued_def ids_of_def Let_def split: list.splits)

section \<open>What the calls do to the manager\<close>

lemma touch_user_kept:
  "orders_kept s m \<Longrightarrow> orders_kept s (m\<lparr>index_orders := (index_orders m)(k \<mapsto> user_orders m k)\<rparr>)"
  using user_kept_orders [of s m k] by (simp add: orders_kept_def del: split_paired_All)

lemma user_orders_touch [simp]:
  "user_orders (m\<lparr>index_orders := (index_orders m)(k \<mapsto> user_orders m k)\<rparr>) k' = user_orders m k'"
  by (simp add: user_orders_def)

lemma orders_kept_publish [simp]:
  "orders_kept s (publish_outcome chain addr coid sy sd ts r m) = orders_kept s m"
  by (simp add: publish_outcome_def split: update_index_order_outcome.splits)

lemma not_queued:
  "\<not> list_ex (\<lambda>(_, io). find_order_update io coid \<noteq> None) os \<Longrightarrow> coid \<notin> set (user_ids os)"
  by (induction os) (auto simp: find_order_update_def ids_of_def find_None_iff)

lemma new_index_order_kept:
  assumes D: "dec_exact (order_dec E)" and kept: "orders_kept s m" "0 \<le> s"
  shows "orders_kept s (fst (new_index_order E m chain addr coid sy sd amount ts))"
proof (cases "6 < scale_of E amount \<or> sd = Sell \<or> sy \<notin> index_symbols m \<or>
    list_ex (\<lambda>(_, io). find_order_update io coid \<noteq> None) (user_orders m (chain, addr))")
  case True
  then show ?thesis
    using kept touch_user_kept [OF kept(1), of "(chain, addr)"]
    by (elim disjE) (simp_all add: new_index_order_def Let_def)
next
  case False
  let ?os = "user_orders m (chain, addr)"
  let ?m1 = "m\<lparr>index_orders := (index_orders m)((chain, addr) \<mapsto> ?os)\<rparr>"
  let ?io = "case map_of ?os sy of None \<Rightarrow> index_order_new chain addr sy Buy ts | Some io \<Rightarrow> io"
  have buy: "sd = Buy" using False by (cases sd) auto
  have fresh: "coid \<notin> set (user_ids ?os)" using False not_queued by blast
  obtain io' r where u: "update_order (order_dec E) ?io coid Buy amount ts (order_tolerance m) = (io', r)"
    by fastforce
  have io: "order_kept s (chain, addr) (sy, ?io)"
    using find_kept [OF kept(1), of chain addr sy] kept(2)
    by (auto simp: find_index_order_def order_kept_def index_order_new_def follows_def queued_def
        split: option.splits)
  then have side: "io_side ?io = Buy" "follows s ?io" by (auto simp: order_kept_def)
  note upd = update_order_buy [OF D u side]
  have ids: "set (ids_of ?io) \<subseteq> (case map_of ?os sy of None \<Rightarrow> {} | Some x \<Rightarrow> set (ids_of x))" "distinct (ids_of ?io)"
    using find_distinct_ids [OF kept(1), of chain addr sy]
    by (auto simp: find_index_order_def index_order_new_def ids_of_def split: option.splits)
  have no: "coid \<notin> set (ids_of ?io)" using ids(1) fresh ids_in_user by (fastforce split: option.splits)
  have ids': "ids_of io' = ids_of ?io \<or> ids_of io' = ids_of ?io @ [coid]" using upd by (cases r) auto
  have "own_ids ?os sy io'"
    using ids ids' no fresh by (auto simp: own_ids_def split: option.splits)
  moreover have "order_kept s (chain, addr) (sy, io')"
    using io upd by (cases r) (auto simp: order_kept_def)
  ultimately have "orders_kept s (put_order ?m1 chain addr sy io')"
    using touch_user_kept [OF kept(1)] by (intro put_order_kept [of s]) auto
  moreover have "fst (new_index_order E m chain addr coid sy sd amount ts) =
      (case r of Inl e \<Rightarrow> put_order ?m1 chain addr sy io'
       | Inr x \<Rightarrow> publish_outcome chain addr coid sy sd ts x (put_order ?m1 chain addr sy io'))"
    using False u buy by (simp add: new_index_order_def Let_def split: sum.splits)
  ultimately show ?thesis by (cases r) simp_all
qed

lemma cancelled_kept:
  assumes "dec_exact D" "orders_kept s m" "find_index_order m chain addr sy = Some io"
    and "solver_cancel D io coid = Some io'"
  shows "orders_kept s (put_order m chain addr sy io')"
proof (rule put_same_owner [OF assms(2) order.refl assms(3)])
  show "follows s io'"
    using find_kept [OF assms(2,3)] solver_cancel_keeps(1) [OF assms(1,4)] by (simp add: order_kept_def)
  show "same_owner io io'"
    using find_distinct_ids [OF assms(2,3)] solver_cancel_keeps(2) [OF assms(1,4)] by simp
qed

lemma server_message_kept:
  assumes "dec_exact (order_dec E)" "orders_kept s m" "0 \<le> s"
  shows "orders_kept s (fst (handle_server_message E m ev))"
proof (cases ev)
  case (EvNewIndexOrder chain addr coid sy sd amount ts)
  with new_index_order_kept [OF assms, of chain addr coid sy sd amount ts] show ?thesis
    by (auto simp: handle_server_message_def split: prod.splits sum.splits)
next
  case (EvCancelIndexOrder chain addr coid sy amount ts)
  with assms(2) cancelled_kept [OF assms(1,2)] show ?thesis
    by (auto simp: handle_server_message_def cancel_index_order_def split: option.splits)
qed (use assms in \<open>simp_all add: handle_server_message_def\<close>)

lemma order_failed_kept:
  "dec_exact (order_dec E) \<Longrightarrow> orders_kept s m \<Longrightarrow>
     orders_kept s (fst (order_failed E m chain addr coid sy ts))"
  using cancelled_kept [of "order_dec E" s m chain addr sy]
  by (auto simp: order_failed_def split: option.splits)

text \<open>
  A readiness report whose fees overflow in the order's figures, after the update was charged: the
  update is put back and the order is not.
\<close>

definition ready_overflows ::
  "'s order_env \<Rightarrow> 's index_order_manager \<Rightarrow> u32 \<Rightarrow> address \<Rightarrow> client_order_id \<Rightarrow> symbol \<Rightarrow> amount \<Rightarrow> amount \<Rightarrow>
     timestamp \<Rightarrow> bool" where
  "ready_overflows E m chain addr coid sy amount fees ts =
     (case find_index_order m chain addr sy of
        None \<Rightarrow> False
      | Some io \<Rightarrow>
          (case find_order_update io coid of
             None \<Rightarrow> False
           | Some u \<Rightarrow>
               update_ready (order_dec E) (order_tolerance m) u amount fees ts \<noteq> None \<and>
               order_ready (order_dec E) io fees ts = None))"

lemma order_ready_updates: "order_ready D (io\<lparr>order_updates := us\<rparr>) fees ts =
    map_option (\<lambda>io'. io'\<lparr>order_updates := us\<rparr>) (order_ready D io fees ts)"
  by (auto simp: order_ready_def split: Option.bind_splits)

text \<open>What the report leaves of the order's updates, whatever comes of it.\<close>

lemma ready_updates:
  assumes D: "dec_exact (order_dec E)" and kept: "orders_kept s m" and io: "find_index_order m chain addr sy = Some io"
    and u: "find_order_update io coid = Some u"
    and u': "update_ready (order_dec E) (order_tolerance m) u amount fees ts = Some u'"
  defines "us \<equiv> update_first (\<lambda>u. u_client_order_id u = coid) (\<lambda>_. u') (order_updates io)"
  shows "same_owner io (io\<lparr>order_updates := us\<rparr>)" and "unengaged (tl us)"
    and "total u_remaining us = total u_remaining (order_updates io) - fees"
proof -
  note fu = update_ready_figures [OF D u'] and find = u [unfolded find_order_update_def]
  from fu have ids: "map u_client_order_id us = map u_client_order_id (order_updates io)"
    and eng: "map u_engaged us = map u_engaged (order_updates io)"
    unfolding us_def using update_first_map [OF find] by auto
  show "total u_remaining us = total u_remaining (order_updates io) - fees"
    unfolding us_def using fu update_first_total [OF find, of u_remaining u'] by auto
  show "same_owner io (io\<lparr>order_updates := us\<rparr>)"
    using ids find_distinct_ids [OF kept io] by (auto simp: same_owner_def ids_of_def)
  show "unengaged (tl us)"
    using find_kept [OF kept io] unengaged_tl_cong [OF eng] by (simp add: order_kept_def follows_def)
qed

lemma collateral_ready_kept:
  assumes D: "dec_exact (order_dec E)" and kept: "orders_kept s m"
    and ok: "\<not> ready_overflows E m chain addr coid sy amount fees ts"
  shows "orders_kept s (fst (collateral_ready E m chain addr coid sy amount fees ts))"
proof (cases "\<exists>io u u' io2. find_index_order m chain addr sy = Some io \<and> find_order_update io coid = Some u \<and>
    update_ready (order_dec E) (order_tolerance m) u amount fees ts = Some u' \<and> order_ready (order_dec E) io fees ts = Some io2")
  case True
  then obtain io u u' io2 where io: "find_index_order m chain addr sy = Some io"
    and u: "find_order_update io coid = Some u"
    and u': "update_ready (order_dec E) (order_tolerance m) u amount fees ts = Some u'"
    and io2: "order_ready (order_dec E) io fees ts = Some io2" by blast
  let ?us = "update_first (\<lambda>u. u_client_order_id u = coid) (\<lambda>_. u') (order_updates io)"
  let ?io2 = "io2\<lparr>order_updates := ?us\<rparr>"
  note upd = ready_updates [OF D kept io u u'] and fo = order_ready_figures [OF D io2]
  have "follows s ?io2"
    using find_kept [OF kept io] fo upd by (simp add: order_kept_def follows_def queued_def)
  moreover have "same_owner io ?io2" using fo upd(1) by (simp add: same_owner_def ids_of_def)
  ultimately have "orders_kept s (put_order m chain addr sy ?io2)"
    using put_same_owner [OF kept order.refl io] by blast
  with io u u' io2 show ?thesis by (simp add: collateral_ready_def Let_def order_ready_updates)
next
  case False
  with ok kept show ?thesis
    by (auto simp: collateral_ready_def ready_overflows_def Let_def order_ready_updates split: option.splits)
qed

text \<open>A step on an order the manager holds whose remaining collateral may no longer follow.\<close>

lemma put_loose:
  assumes "orders_kept s m" "find_index_order m chain addr sy = Some io"
    and "same_owner io io'" "unengaged (tl (order_updates io'))"
  shows "\<exists>s'\<ge>s. orders_kept s' (put_order m chain addr sy io')"
proof -
  let ?s = "max s \<bar>io_remaining io' - queued io'\<bar>"
  have "follows ?s io'" using assms(4) by (simp add: follows_def)
  with put_same_owner [OF assms(1) _ assms(2) _ assms(3), of ?s] show ?thesis by (intro exI [of _ ?s]) simp
qed

lemma collateral_ready_loose:
  assumes D: "dec_exact (order_dec E)" and kept: "orders_kept s m"
  shows "\<exists>s'\<ge>s. orders_kept s' (fst (collateral_ready E m chain addr coid sy amount fees ts))"
proof (cases "ready_overflows E m chain addr coid sy amount fees ts")
  case True
  then obtain io u u' where io: "find_index_order m chain addr sy = Some io"
    and u: "find_order_update io coid = Some u"
    and u': "update_ready (order_dec E) (order_tolerance m) u amount fees ts = Some u'"
    and none: "order_ready (order_dec E) io fees ts = None"
    by (auto simp: ready_overflows_def split: option.splits)
  note upd = ready_updates [OF D kept io u u']
  from put_loose [OF kept io upd(1)] upd(2) io u u' none show ?thesis
    by (simp add: collateral_ready_def Let_def order_ready_updates)
qed (use collateral_ready_kept [OF D kept] in blast)

lemma fill_order_request_kept:
  assumes D: "dec_exact (order_dec E)" and kept: "orders_kept s m"
  shows "orders_kept s (fst (fill_order_request E m chain addr coid sy spent amount rate st ts))"
proof (cases "\<exists>io u u' io' unspent. find_index_order m chain addr sy = Some io \<and>
    find_engaged_update io coid = Some u \<and>
    fill_figures (order_dec E) io u spent amount ts = Some (u', io', unspent)")
  case True
  then obtain io u u' io' unspent where io: "find_index_order m chain addr sy = Some io"
    and u: "find_engaged_update io coid = Some u"
    and f: "fill_figures (order_dec E) io u spent amount ts = Some (u', io', unspent)" by blast
  note fr = fill_figures_frame [OF D f]
  let ?x = "put_engaged_update coid u' io'"
  have "follows s io" using find_kept [OF kept io] by (simp add: order_kept_def)
  with put_engaged_follows [OF u] fr find_engaged_front [OF u]
  have x: "follows s ?x" "ids_of ?x = ids_of io" "(io_chain_id ?x, io_address ?x, io_symbol ?x, io_side ?x) =
      (io_chain_id io, io_address io, io_symbol io, io_side io)"
    unfolding Let_def by metis+
  then have "same_owner io ?x" using find_distinct_ids [OF kept io] by (simp add: same_owner_def)
  with put_same_owner [OF kept order.refl io x(1)] have "orders_kept s (put_order m chain addr sy ?x)" .
  with io u f kept show ?thesis
    by (cases "print_fill_report (order_dec E) (debug_log E) io u") (simp_all add: fill_order_request_def)
next
  case False
  with kept show ?thesis by (fastforce simp: fill_order_request_def split: option.splits)
qed

lemma remove_index_order_kept:
  assumes kept: "orders_kept s m"
  shows "orders_kept s (fst (remove_index_order m chain addr sy coid))"
proof (cases "find_index_order m chain addr sy")
  case (Some io)
  obtain io' r where c: "solver_complete io coid = (io', r)" by fastforce
  then have same: "order_updates io' = order_updates io" "follows s io \<Longrightarrow> follows s io'"
    "distinct (ids_of io) \<Longrightarrow> same_owner io io'"
    by (auto simp: solver_complete_def same_owner_def ids_of_def follows_def queued_def split: option.splits)
  from same have put: "orders_kept s (put_order m chain addr sy io')"
    using put_same_owner [OF kept order.refl Some] find_kept [OF kept Some] find_distinct_ids [OF kept Some]
    by (simp add: order_kept_def)
  have drop: "user_kept s k (filter (\<lambda>(sy', _). sy' \<noteq> sy) os)" if "user_kept s k os" for k os
  proof -
    have sub: "set (user_ids (filter P os)) \<subseteq> set (user_ids os)" for P and os :: "(symbol \<times> index_order) list"
      by (induction os) auto
    have "distinct (user_ids os) \<Longrightarrow> distinct (user_ids (filter P os))" for P and os :: "(symbol \<times> index_order) list"
      by (induction os) (auto dest!: subsetD [OF sub])
    with that show ?thesis by (auto simp: user_kept_def distinct_map_filter)
  qed
  have "orders_kept s (m\<lparr>index_orders := (index_orders m)((chain, addr) \<mapsto>
      filter (\<lambda>(sy', _). sy' \<noteq> sy) (user_orders m (chain, addr)))\<rparr>)"
    using kept drop [OF user_kept_orders [OF kept]] by (simp add: orders_kept_def del: split_paired_All)
  with put c Some show ?thesis by (simp add: remove_index_order_def split: sum.splits)
qed (simp add: remove_index_order_def kept)

lemma invoice_update_orders:
  "index_orders (fst (invoice_update E m io chain addr coid pid seq_num filled paid ls p ts)) = index_orders m"
  by (auto simp: invoice_update_def effect_def split: list.splits outcome.splits sum.splits prod.splits)

lemma order_request_minted_kept:
  assumes kept: "orders_kept s m"
  shows "orders_kept s (fst (order_request_minted E m chain addr coid sy pid seq_num filled paid ls p ts))"
proof -
  obtain m1 r where rm: "remove_index_order m chain addr sy coid = (m1, r)" by fastforce
  let ?m2 = "effect (Publish (CancelIndexOrder chain addr coid ts)) m1"
  have k: "orders_kept s ?m2" using remove_index_order_kept [OF kept, of chain addr sy coid] rm by simp
  have drained: "orders_kept s (put_order ?m2 chain addr sy (fst (drain_closed_updates io)))"
    if "find_index_order ?m2 chain addr sy = Some io" for io
    using find_kept [OF k that] find_distinct_ids [OF k that]
    by (intro put_same_owner [OF k order.refl that])
      (auto simp: drain_closed_updates_def order_kept_def follows_def queued_def same_owner_def ids_of_def)
  note inv = orders_kept_cong [OF invoice_update_orders, of s]
  show ?thesis
    using rm k drained by (auto simp: order_request_minted_def Let_def inv split: sum.splits option.splits)
qed

text \<open>An engagement that is refused changes nothing; one that overflows may have engaged the update.\<close>

lemma solver_engage_one_refused:
  "solver_engage_one D io coid a tol = (io', Inl e) \<Longrightarrow> e \<noteq> ''Math Problem'' \<Longrightarrow> io' = io"
  by (auto simp: solver_engage_one_def match_engage_one_def note_engaged_def Let_def
      split: prod.splits sum.splits option.splits if_splits list.splits)

lemma solver_engage_one_unengaged:
  assumes "solver_engage_one D io coid a tol = (io', r)" "unengaged (tl (order_updates io))"
  shows "unengaged (tl (order_updates io'))"
proof -
  obtain io1 x where m: "match_engage_one D tol io coid a = (io1, x)" by fastforce
  then have one: "unengaged (tl (order_updates io1))" using assms(2)
    by (auto simp: match_engage_one_def intro: unengaged_tl split: if_splits list.splits sum.splits)
  have "order_updates io' = order_updates io1"
    using assms(1) m by (auto simp: solver_engage_one_def dest!: note_engaged_frame split: sum.splits option.splits)
  with one show ?thesis by simp
qed

lemma cancelled_same_owner:
  assumes "dec_exact D" "same_owner io io1" "solver_cancel D io1 coid = Some io2"
  shows "same_owner io io2"
proof -
  have "distinct (ids_of io1)" using assms(2) by (simp add: same_owner_def)
  with solver_cancel_keeps(2) [OF assms(1,3)] assms(2) show ?thesis by (fastforce simp: same_owner_def)
qed

lemma engage_loop_orders_kept:
  assumes D: "dec_exact (order_dec E)" "0 \<le> order_tolerance m"
  shows "engage_loop_orders E rs m res = (m', out) \<Longrightarrow> out \<noteq> Returns (Inl ''Math Problem'') \<Longrightarrow> orders_kept s m \<Longrightarrow>
    list_all (\<lambda>r. 0 \<le> er_collateral_amount r) rs \<Longrightarrow>
    orders_kept (s + 2 * of_nat (length rs) * order_tolerance m) m' \<and> order_tolerance m' = order_tolerance m"
  using D(2)
proof (induction rs arbitrary: m res s)
  case (Cons r rs)
  let ?c = "er_chain_id r" and ?a = "er_address r" and ?sy = "er_symbol r" and ?coid = "er_client_order_id r"
  let ?t = "order_tolerance m" and ?s = "s + 2 * of_nat (length (r # rs)) * order_tolerance m"
  have up: "s \<le> ?s" "s + 2 * ?t \<le> ?s" using Cons.prems(5) by (simp_all add: algebra_simps)
  show ?case
  proof (cases "find_index_order m ?c ?a ?sy")
    case None
    with Cons.prems(1,3) up(1) show ?thesis by (auto simp: Let_def intro: orders_kept_mono)
  next
    case io: (Some io)
    obtain io1 x where eng: "solver_engage_one (order_dec E) io ?coid (er_collateral_amount r) ?t = (io1, x)" by fastforce
    have own: "same_owner io io1"
      using solver_engage_one_owner [OF eng] find_distinct_ids [OF Cons.prems(3) io] by blast
    have f0: "follows s io" using find_kept [OF Cons.prems(3) io] by (simp add: order_kept_def)
    show ?thesis
    proof (cases x)
      case (Inl e)
      with Cons.prems(1,2) io eng have m': "m' = put_order m ?c ?a ?sy io1" "e \<noteq> ''Math Problem''"
        by (auto simp: Let_def)
      then have "io1 = io" using solver_engage_one_refused eng Inl by blast
      with put_same_owner [OF Cons.prems(3) order.refl io f0] own m'(1) up(1) show ?thesis
        by (auto simp: put_order_def intro: orders_kept_mono)
    next
      case (Inr y)
      obtain rem unm where y: "y = (rem, unm)" by (cases y)
      have f: "follows (s + 2 * ?t) io1"
        using solver_engage_one_follows [OF D(1) Cons.prems(5) f0 _ eng [unfolded Inr]] Cons.prems(4) by simp
      have step: "orders_kept (s + 2 * ?t) (put_order m ?c ?a ?sy io1)"
        using put_same_owner [OF Cons.prems(3) _ io f own] Cons.prems(5) by simp
      have later: "orders_kept (s + 2 * ?t + 2 * of_nat (length rs) * ?t) m' \<and> order_tolerance m' = ?t"
        if "engage_loop_orders E rs (put_order m ?c ?a ?sy io2) res2 = (m', out)"
          and "orders_kept (s + 2 * ?t) (put_order m ?c ?a ?sy io2)" for io2 res2
        using Cons.IH [OF that(1) Cons.prems(2) that(2)] Cons.prems(4,5) by (simp add: put_order_def)
      have cancelled: "orders_kept (s + 2 * ?t) (put_order m ?c ?a ?sy io2)"
        if "solver_cancel (order_dec E) io1 ?coid = Some io2" for io2
        using put_same_owner [OF Cons.prems(3) _ io solver_cancel_keeps(1) [OF D(1) that f] cancelled_same_owner [OF D(1) own that]]
          Cons.prems(5) by simp
      have panicked: "orders_kept ?s (put_order m ?c ?a ?sy io1)" using step up(2) by (rule orders_kept_mono)
      from Cons.prems(1) io eng Inr y step later cancelled panicked show ?thesis
        by (auto simp: Let_def put_order_def algebra_simps split: option.splits)
    qed
  qed
qed simp

lemma engage_loop_orders_loose:
  assumes D: "dec_exact (order_dec E)"
  shows "engage_loop_orders E rs m res = (m', out) \<Longrightarrow> orders_kept s m \<Longrightarrow> \<exists>s'\<ge>s. orders_kept s' m'"
proof (induction rs arbitrary: m res s)
  case (Cons r rs)
  let ?c = "er_chain_id r" and ?a = "er_address r" and ?sy = "er_symbol r" and ?coid = "er_client_order_id r"
  show ?case
  proof (cases "find_index_order m ?c ?a ?sy")
    case None
    with Cons.prems show ?thesis by (auto simp: Let_def)
  next
    case io: (Some io)
    obtain io1 x where eng: "solver_engage_one (order_dec E) io ?coid (er_collateral_amount r) (order_tolerance m) = (io1, x)"
      by fastforce
    have own: "same_owner io io1"
      using solver_engage_one_owner [OF eng] find_distinct_ids [OF Cons.prems(2) io] by blast
    have un: "unengaged (tl (order_updates io1))"
      using solver_engage_one_unengaged [OF eng] find_kept [OF Cons.prems(2) io] by (simp add: order_kept_def follows_def)
    from put_loose [OF Cons.prems(2) io own un] obtain s1 where
      s1: "s \<le> s1" "orders_kept s1 (put_order m ?c ?a ?sy io1)" by blast
    have later: "\<exists>s'\<ge>s. orders_kept s' m'"
      if "engage_loop_orders E rs (put_order m ?c ?a ?sy io2) res2 = (m', out)"
        and "\<exists>s2\<ge>s. orders_kept s2 (put_order m ?c ?a ?sy io2)" for io2 res2
    proof -
      from that(2) obtain s2 where "s \<le> s2" "orders_kept s2 (put_order m ?c ?a ?sy io2)" by blast
      with Cons.IH [OF that(1)] show ?thesis by (meson order_trans)
    qed
    have cancelled: "\<exists>s2\<ge>s. orders_kept s2 (put_order m ?c ?a ?sy io2)"
      if c: "solver_cancel (order_dec E) io1 ?coid = Some io2" for io2
    proof (rule put_loose [OF Cons.prems(2) io cancelled_same_owner [OF D own c]])
      have "follows \<bar>io_remaining io1 - queued io1\<bar> io1" using un by (simp add: follows_def)
      from solver_cancel_keeps(1) [OF D c this] show "unengaged (tl (order_updates io2))" by (simp add: follows_def)
    qed
    show ?thesis
    proof (cases x)
      case (Inl e)
      with Cons.prems(1) io eng s1 show ?thesis by (auto simp: Let_def)
    next
      case (Inr y)
      obtain rem unm where y: "y = (rem, unm)" by (cases y)
      have one: "\<exists>s2\<ge>s. orders_kept s2 (put_order m ?c ?a ?sy io1)" using s1 by blast
      note later1 = later [OF _ one] and later2 = later [OF _ cancelled]
      show ?thesis
      proof (cases "case unm of None \<Rightarrow> Some (er_collateral_amount r)
          | Some z \<Rightarrow> dec_sub (order_dec E) (er_collateral_amount r) z")
        case None
        with Cons.prems(1) io eng Inr y one later2 show ?thesis by (auto simp: Let_def split: option.splits)
      next
        case (Some engaged)
        with Cons.prems(1) io eng Inr y later1 show ?thesis by (simp add: Let_def)
      qed
    qed
  qed
qed auto

section \<open>Runs\<close>

text \<open>The calls the application makes, with the arguments of the method each stands for.\<close>

datatype order_call =
    Message server_event
  | MarkReady u32 address client_order_id symbol amount amount timestamp
  | MarkMinted u32 address client_order_id symbol payment_id u256 amount amount
      "solver_order_asset_lot list" collateral_position timestamp
  | MarkFilled u32 address client_order_id symbol amount amount amount solver_order_status timestamp
  | MarkFailed u32 address client_order_id symbol timestamp
  | EngageOrders batch_order_id "engage_order_request list" timestamp
  | AddIndexSymbol symbol
  | RemoveIndexSymbol symbol

definition order_call_run ::
  "'s order_env \<Rightarrow> 's index_order_manager \<Rightarrow> order_call \<Rightarrow> 's index_order_manager \<times> unit outcome" where
  "order_call_run E m c =
     (case c of
        Message ev \<Rightarrow> handle_server_message E m ev
      | MarkReady chain addr coid sy amount fees ts \<Rightarrow>
          map_prod id Returns (collateral_ready E m chain addr coid sy amount fees ts)
      | MarkMinted chain addr coid sy pid n filled paid ls p ts \<Rightarrow>
          order_request_minted E m chain addr coid sy pid n filled paid ls p ts
      | MarkFilled chain addr coid sy spent amount rate st ts \<Rightarrow>
          fill_order_request E m chain addr coid sy spent amount rate st ts
      | MarkFailed chain addr coid sy ts \<Rightarrow> order_failed E m chain addr coid sy ts
      | EngageOrders bid rs ts \<Rightarrow> engage_orders E m bid rs ts
      | AddIndexSymbol sy \<Rightarrow> (add_index_symbol m sy, Returns (Inr ()))
      | RemoveIndexSymbol sy \<Rightarrow> (remove_index_symbol m sy, Returns (Inr ())))"

text \<open>The manager, and how many engagements it was asked for so far.\<close>

definition order_call_step ::
  "'s order_env \<Rightarrow> 's index_order_manager \<times> nat \<Rightarrow> order_call \<Rightarrow> 's index_order_manager \<times> nat" where
  "order_call_step E st c =
     (fst (order_call_run E (fst st) c),
      snd st + (case c of EngageOrders _ rs _ \<Rightarrow> length rs | _ \<Rightarrow> 0))"

text \<open>
  Every call may fail or panic. Only one whose decimals overflow when an update has been changed
  and its order has not, leaves the one without the other: a readiness report and an engagement.
\<close>

definition order_call_ok :: "'s order_env \<Rightarrow> 's index_order_manager \<times> nat \<Rightarrow> order_call \<Rightarrow> bool" where
  "order_call_ok E st c \<longleftrightarrow>
     (case c of
        MarkReady chain addr coid sy amount fees ts \<Rightarrow> \<not> ready_overflows E (fst st) chain addr coid sy amount fees ts
      | EngageOrders _ rs _ \<Rightarrow>
          snd (order_call_run E (fst st) c) \<noteq> Returns (Inl ''Math Problem'') \<and>
          list_all (\<lambda>r. 0 \<le> er_collateral_amount r) rs
      | _ \<Rightarrow> True)"

text \<open>Whatever fails: the orders are their users' and have different names.\<close>

definition orders_sound :: "'s index_order_manager \<times> nat \<Rightarrow> bool" where
  "orders_sound st \<longleftrightarrow> (\<exists>s\<ge>0. orders_kept s (fst st))"

definition orders_follow :: "amount \<Rightarrow> 's index_order_manager \<times> nat \<Rightarrow> bool" where
  "orders_follow tol st \<longleftrightarrow> order_tolerance (fst st) = tol \<and>
     orders_kept (2 * of_nat (snd st) * tol) (fst st)"

lemma tolerance_frames [simp]:
  "order_tolerance (effect e m) = order_tolerance m"
  "order_tolerance (put_order m chain addr sy io) = order_tolerance m"
  "order_tolerance (publish_outcome chain addr coid sy sd ts r m) = order_tolerance m"
  by (simp_all add: effect_def put_order_def publish_outcome_def split: update_index_order_outcome.splits)

lemma invoice_update_tolerance [simp]:
  "order_tolerance (fst (invoice_update E m io chain addr coid pid seq_num filled paid ls p ts)) = order_tolerance m"
  by (auto simp: invoice_update_def effect_def split: list.splits outcome.splits sum.splits prod.splits)

lemma new_index_order_tolerance:
  "order_tolerance (fst (new_index_order E m chain addr coid sy sd a ts)) = order_tolerance m"
  by (simp add: new_index_order_def Let_def split: prod.splits sum.splits)

lemma remove_index_order_tolerance:
  "order_tolerance (fst (remove_index_order m chain addr sy coid)) = order_tolerance m"
  by (simp add: remove_index_order_def split: prod.splits sum.splits option.splits)

lemma server_message_tolerance:
  "order_tolerance (fst (handle_server_message E m ev)) = order_tolerance m"
proof (cases ev)
  case (EvNewIndexOrder chain addr coid sy sd amount ts)
  with new_index_order_tolerance [of E m chain addr coid sy sd amount ts] show ?thesis
    by (auto simp: handle_server_message_def split: prod.splits sum.splits)
next
  case (EvCancelIndexOrder chain addr coid sy amount ts)
  then show ?thesis by (auto simp: handle_server_message_def cancel_index_order_def split: option.splits)
qed (simp_all add: handle_server_message_def)

lemma call_tolerance:
  assumes "\<And>bid rs ts. c \<noteq> EngageOrders bid rs ts"
  shows "order_tolerance (fst (order_call_run E m c)) = order_tolerance m"
proof (cases c)
  case (Message ev)
  then show ?thesis by (simp add: order_call_run_def server_message_tolerance)
next
  case (MarkReady)
  then show ?thesis
    by (simp add: order_call_run_def collateral_ready_def Let_def split: option.splits)
next
  case (MarkMinted chain addr coid sy)
  with remove_index_order_tolerance [of m chain addr sy coid] show ?thesis
    by (auto simp: order_call_run_def order_request_minted_def Let_def split: prod.splits sum.splits option.splits)
next
  case (MarkFilled)
  then show ?thesis
    by (simp add: order_call_run_def fill_order_request_def split: option.splits prod.splits)
next
  case (MarkFailed)
  then show ?thesis by (simp add: order_call_run_def order_failed_def split: option.splits)
next
  case (EngageOrders)
  with assms show ?thesis by blast
qed (simp_all add: order_call_run_def add_index_symbol_def remove_index_symbol_def)

lemma engage_orders_manager:
  assumes "engage_loop_orders E rs m [] = (m1, out)"
  shows "orders_kept s (fst (engage_orders E m bid rs ts)) = orders_kept s m1"
    "order_tolerance (fst (engage_orders E m bid rs ts)) = order_tolerance m1"
  using assms by (cases out rule: outcome.exhaust; auto simp: engage_orders_def split: sum.splits)+

lemma order_call_sound:
  assumes D: "dec_exact (order_dec E)" and sound: "orders_sound st"
  shows "orders_sound (order_call_step E st c)"
proof -
  from sound obtain s where s: "0 \<le> s" "orders_kept s (fst st)" by (auto simp: orders_sound_def)
  let ?m = "fst st"
  have "\<exists>s'\<ge>s. orders_kept s' (fst (order_call_run E ?m c))"
  proof (cases c)
    case (Message ev)
    with server_message_kept [OF D s(2,1)] show ?thesis by (auto simp: order_call_run_def)
  next
    case (MarkReady chain addr coid sy a fees ts)
    with collateral_ready_loose [OF D s(2)] show ?thesis by (simp add: order_call_run_def)
  next
    case MarkMinted
    with order_request_minted_kept [OF s(2)] show ?thesis by (auto simp: order_call_run_def)
  next
    case MarkFilled
    with fill_order_request_kept [OF D s(2)] show ?thesis by (auto simp: order_call_run_def)
  next
    case MarkFailed
    with order_failed_kept [OF D s(2)] show ?thesis by (auto simp: order_call_run_def)
  next
    case (EngageOrders bid rs ts)
    obtain m1 out where run: "engage_loop_orders E rs ?m [] = (m1, out)" by fastforce
    from engage_loop_orders_loose [OF D run s(2)] EngageOrders engage_orders_manager(1) [OF run, where bid = bid and ts = ts]
    show ?thesis by (simp add: order_call_run_def)
  qed (use s(2) in \<open>auto simp: order_call_run_def add_index_symbol_def remove_index_symbol_def orders_kept_def\<close>)
  with s(1) show ?thesis by (auto simp: orders_sound_def order_call_step_def intro: order_trans)
qed

interpretation order_names: reactive "order_call_step E" "\<lambda>_ _. dec_exact (order_dec E)" orders_sound for E
  by unfold_locales (rule order_call_sound)

lemma order_call_follow:
  assumes f: "orders_follow tol st" and D: "dec_exact (order_dec E)" "0 \<le> tol"
    and ok: "order_call_ok E st c"
  shows "orders_follow tol (order_call_step E st c)"
proof -
  obtain m n where st: "st = (m, n)" by fastforce
  define s where "s = 2 * of_nat n * tol"
  have kept: "orders_kept s m" "order_tolerance m = tol" "0 \<le> s"
    using f st D(2) by (auto simp: orders_follow_def s_def)
  show ?thesis
  proof (cases "\<exists>bid rs ts. c = EngageOrders bid rs ts")
    case True
    then obtain bid rs ts where c: "c = EngageOrders bid rs ts" by blast
    obtain m1 out where run: "engage_loop_orders E rs m [] = (m1, out)" by fastforce
    with ok st c have amounts: "list_all (\<lambda>r. 0 \<le> er_collateral_amount r) rs" and out: "out \<noteq> Returns (Inl ''Math Problem'')"
      by (auto simp: order_call_ok_def order_call_run_def engage_orders_def)
    from engage_loop_orders_kept [OF D(1) _ run out kept(1) amounts] kept(2) D(2)
    have "orders_kept (s + 2 * of_nat (length rs) * tol) m1" "order_tolerance m1 = tol" by simp_all
    then show ?thesis
      using c st engage_orders_manager [OF run, where bid = bid and ts = ts]
      by (simp add: orders_follow_def order_call_step_def order_call_run_def s_def algebra_simps)
  next
    case False
    then have "order_tolerance (fst (order_call_run E m c)) = tol" using call_tolerance kept(2) by blast
    moreover have "orders_kept s (fst (order_call_run E m c))"
    proof (cases c)
      case (Message ev)
      with server_message_kept [OF D(1) kept(1,3)] show ?thesis by (simp add: order_call_run_def)
    next
      case (MarkReady chain addr coid sy a fees ts)
      with ok st collateral_ready_kept [OF D(1) kept(1)] show ?thesis
        by (simp add: order_call_ok_def order_call_run_def)
    next
      case MarkMinted
      with order_request_minted_kept [OF kept(1)] show ?thesis by (simp add: order_call_run_def)
    next
      case MarkFilled
      with fill_order_request_kept [OF D(1) kept(1)] show ?thesis by (simp add: order_call_run_def)
    next
      case MarkFailed
      with order_failed_kept [OF D(1) kept(1)] show ?thesis by (simp add: order_call_run_def)
    qed (use False kept orders_kept_cong in \<open>auto simp: order_call_run_def add_index_symbol_def
      remove_index_symbol_def orders_kept_def\<close>)
    ultimately show ?thesis using False st
      by (cases c) (auto simp: orders_follow_def order_call_step_def s_def)
  qed
qed

interpretation order_manager: reactive "order_call_step E"
    "\<lambda>st c. (dec_exact (order_dec E) \<and> 0 \<le> tol) \<and> order_call_ok E st c" "orders_follow tol" for E tol
  by unfold_locales (use order_call_follow in blast)

lemma orders_follow_new: "orders_follow tol (index_order_manager_new im tol, 0)"
  by (simp add: orders_follow_def orders_kept_def index_order_manager_new_def)

text \<open>
  C23: in every state of the manager, whatever calls failed or panicked on the way there, an order
  is the one its user and index name, on the buy side, and no two queued updates of a user, of
  whatever index, carry the same client order id. Unless the decimals of a readiness report or
  of an engagement overflowed half-way, or a negative amount was engaged, an order's remaining
  collateral is what its queued updates have left, up to two tolerances per engagement asked for so
  far; requests and engagements that are refused do not disturb it.
\<close>

theorem user_orders_follow_queues:
  assumes "dec_exact (order_dec E)" "0 \<le> tol"
    and "run (order_call_step E) (index_order_manager_new im tol, 0) calls = (m, n)"
    and "find_index_order m chain addr sy = Some io"
  shows "(io_chain_id io, io_address io, io_symbol io, io_side io) = (chain, addr, sy, Buy) \<and>
    distinct (user_ids (user_orders m (chain, addr))) \<and>
    (admits (order_call_ok E) (order_call_step E) (index_order_manager_new im tol, 0) calls \<longrightarrow>
      \<bar>io_remaining io - queued io\<bar> \<le> 2 * of_nat n * tol)"
proof -
  let ?st = "(index_order_manager_new im tol, 0 :: nat)"
  have "orders_sound ?st" by (auto simp: orders_sound_def orders_kept_def index_order_manager_new_def)
  from order_names.run_inv [OF this admits_const [OF assms(1)], of calls] assms(3)
  obtain s where kept: "orders_kept s m" by (auto simp: orders_sound_def)
  have "\<bar>io_remaining io - queued io\<bar> \<le> 2 * of_nat n * tol"
    if "admits (order_call_ok E) (order_call_step E) ?st calls"
  proof -
    have "orders_follow tol (m, n)"
      using order_manager.run_inv [OF orders_follow_new admits_conj [OF conjI [OF assms(1,2)] that]] assms(3)
      by simp
    then have "orders_kept (2 * of_nat n * tol) m" by (simp add: orders_follow_def)
    from find_kept [OF this assms(4)] show ?thesis by (simp add: order_kept_def follows_def)
  qed
  with find_kept [OF kept assms(4)] user_kept_orders [OF kept, of "(chain, addr)"] show ?thesis
    by (auto simp: order_kept_def user_kept_def)
qed

definition demo_invoice_env :: "memory invoice_env" where
  "demo_invoice_env = \<lparr>storage = memory_ops, invoice_codec = demo_codec demo_invoice,
     metadata_codec = demo_codec [(metadata_of demo_invoice)\<lparr>im_chain_id := 1, im_address := 2\<rparr>],
     show_address = hex_address\<rparr>"

definition demo_order_env :: "memory order_env" where
  "demo_order_env = \<lparr>order_dec = dec_upto 1000, scale_of = (\<lambda>_. 0), debug_log = False,
     invoicing = demo_invoice_env\<rparr>"

definition demo_order_calls :: "order_call list" where
  "demo_order_calls =
    [AddIndexSymbol ''IDX'', Message (EvNewIndexOrder 1 2 ''a'' ''IDX'' Buy 100 0),
     Message (EvNewIndexOrder 1 2 ''a'' ''IDX'' Buy 50 0), Message (EvNewIndexOrder 1 2 ''b'' ''IDX'' Buy 50 0),
     MarkReady 1 2 ''a'' ''IDX'' 90 5 1,
     EngageOrders ''B1'' [\<lparr>er_chain_id = 1, er_address = 2, er_client_order_id = ''a'', er_symbol = ''IDX'',
       er_collateral_amount = 40\<rparr>] 2]"

declare demo_order_env_def [evals] demo_order_calls_def [evals] index_order_manager_new_def [evals]
  order_call_step_def [evals] order_call_run_def [evals] order_call_ok_def [evals] ready_overflows_def [evals] handle_server_message_def [evals]
  new_index_order_def [evals] update_order_def [evals] publish_outcome_def [evals] put_order_def [evals]
  effect_def [evals] user_orders_def [evals] find_index_order_def [evals] collateral_ready_def [evals]
  update_ready_def [evals] order_ready_def [evals] engage_orders_def [evals] refusal_def [evals]
  find_order_update_def [evals] index_order_new_def [evals] index_order_update_new_def [evals]
  solver_engage_one_def [evals] match_engage_one_def [evals] engage_front_def [evals] note_engaged_def [evals]
  add_index_symbol_def [evals] remove_index_symbol_def [evals] safe_add_assign_def [evals]

theorem user_orders_follow_queues_witness:
  "\<exists>m io. run (order_call_step demo_order_env)
       (index_order_manager_new (mint_invoice_manager_new Map.empty) (1/100), 0) demo_order_calls = (m, 1) \<and>
     find_index_order m 1 2 ''IDX'' = Some io \<and> io_remaining io = 105 \<and> io_engaged io = Some 40 \<and>
     \<bar>io_remaining io - queued io\<bar> \<le> 2 * of_nat 1 * (1/100) \<and>
     distinct (user_ids (user_orders m (1, 2)))"
proof -
  let ?s = "(index_order_manager_new (mint_invoice_manager_new Map.empty) (1/100), 0)
    :: memory index_order_manager \<times> nat"
  let ?r = "run (order_call_step demo_order_env) ?s demo_order_calls"
  have n: "snd ?r = 1" by (simp add: evals)
  obtain io where io: "find_index_order (fst ?r) 1 2 ''IDX'' = Some io" "io_remaining io = 105" "io_engaged io = Some 40"
    by (simp add: evals)
  have ok: "admits (order_call_ok demo_order_env) (order_call_step demo_order_env) ?s demo_order_calls"
    by (simp add: evals)
  from n have r: "?r = (fst ?r, 1)" by (metis prod.collapse)
  have D: "dec_exact (order_dec demo_order_env)" by (simp add: demo_order_env_def)
  from user_orders_follow_queues [OF D _ r io(1)] ok r io show ?thesis by auto
qed

lemma find_effects [simp]:
  "find_index_order (m\<lparr>order_effects := fx\<rparr>) c a s = find_index_order m c a s"
  "find_index_order (effect e m) c a s = find_index_order m c a s"
  by (simp_all add: find_index_order_def user_orders_def effect_def)

lemma find_touch:
  "find_index_order (m\<lparr>index_orders := (index_orders m)(k \<mapsto> user_orders m k)\<rparr>) c a s = find_index_order m c a s"
  by (simp add: find_index_order_def)

lemma update_order_some_buy:
  assumes "dec_exact (order_dec E)" and kept: "orders_kept s m"
    and io: "io = (case map_of (user_orders m (chain, addr)) sy of
        None \<Rightarrow> index_order_new chain addr sy Buy ts | Some io \<Rightarrow> io)"
    and u: "update_order (order_dec E) io coid Buy amount ts tol = (io', Inr r)"
  shows "r = Push amount"
proof -
  have "io_side io = Buy"
    using find_kept [OF kept, of chain addr sy] io
    by (auto simp: find_index_order_def order_kept_def index_order_new_def split: option.splits)
  with u show ?thesis by (auto simp: update_order_def Let_def split: option.splits)
qed

lemma new_index_order_answer:
  assumes D: "dec_exact (order_dec E)" and kept: "orders_kept s m"
  shows "(case new_index_order E m chain addr coid sy sd amount ts of
     (m', Inr _) \<Rightarrow> order_effects m' = order_effects m @ [Publish (NewIndexOrder chain addr coid sy Buy amount ts)] \<and>
       coid \<notin> set (user_ids (user_orders m (chain, addr)))
   | (m', Inl (User _)) \<Rightarrow> order_effects m' = order_effects m \<and>
       (\<forall>c a s. find_index_order m' c a s = find_index_order m c a s)
   | (m', Inl (ServerSide _)) \<Rightarrow> order_effects m' = order_effects m)"
proof (cases "6 < scale_of E amount \<or> sd = Sell \<or> sy \<notin> index_symbols m \<or>
    list_ex (\<lambda>(_, io). find_order_update io coid \<noteq> None) (user_orders m (chain, addr))")
  case True
  then show ?thesis by (elim disjE) (simp_all add: new_index_order_def Let_def find_touch)
next
  case False
  let ?os = "user_orders m (chain, addr)"
  let ?io = "case map_of ?os sy of None \<Rightarrow> index_order_new chain addr sy Buy ts | Some io \<Rightarrow> io"
  have buy: "sd = Buy" using False by (cases sd) auto
  obtain io' r where u: "update_order (order_dec E) ?io coid Buy amount ts (order_tolerance m) = (io', r)"
    by fastforce
  have "coid \<notin> set (user_ids ?os)" using False not_queued by blast
  moreover from update_order_some_buy [OF D kept refl] u have "r = Inr x \<Longrightarrow> x = Push amount" for x by blast
  ultimately show ?thesis using False u buy
    by (cases r) (auto simp: new_index_order_def Let_def publish_outcome_def effect_def put_order_def)
qed

section \<open>What a client is told\<close>

text \<open>
  A new order is answered once. It is either accepted, and then announced to the solver with
  the collateral asked for and acknowledged, in this order; or refused with one negative answer
  and nothing announced, and then every order of every user is as before, when the refusal is the
  client's doing. This holds in every state the manager reaches.
\<close>

theorem new_order_answered_once:
  assumes "dec_exact (order_dec E)" "0 \<le> tol"
    and "admits (order_call_ok E) (order_call_step E) (index_order_manager_new im tol, 0) calls"
    and "run (order_call_step E) (index_order_manager_new im tol, 0) calls = (m, n)"
    and "handle_server_message E m (EvNewIndexOrder chain addr coid sy sd amount ts) = (m', out)"
  shows "order_effects m' = order_effects m @
      [Publish (NewIndexOrder chain addr coid sy Buy amount ts), Respond (NewIndexOrderAck chain addr coid ts)] \<and>
      out = Returns (Inr ()) \<and> coid \<notin> set (user_ids (user_orders m (chain, addr))) \<or>
    (\<exists>reason. order_effects m' = order_effects m @ [Respond (NewIndexOrderNak chain addr coid reason ts)] \<and>
      (case reason of
         User _ \<Rightarrow> out = Returns (Inr ()) \<and> (\<forall>c a s. find_index_order m' c a s = find_index_order m c a s)
       | ServerSide _ \<Rightarrow> out = Returns (Inl ''Internal server error'')))"
proof -
  have "orders_follow tol (m, n)"
    using order_manager.run_inv [OF orders_follow_new admits_conj [OF conjI [OF assms(1,2)] assms(3)]] assms(4)
    by simp
  then have kept: "orders_kept (2 * of_nat n * tol) m" by (simp add: orders_follow_def)
  obtain m1 r where new: "new_index_order E m chain addr coid sy sd amount ts = (m1, r)" by fastforce
  note answer = new_index_order_answer [OF assms(1) kept, where chain = chain and addr = addr and coid = coid
      and sy = sy and sd = sd and amount = amount and ts = ts, unfolded new prod.case]
  show ?thesis
  proof (cases r)
    case (Inl reason)
    with answer assms(5) new show ?thesis
      by (intro disjI2 exI [of _ reason])
        (auto simp: handle_server_message_def effect_def refusal_def split: server_response_reason.splits)
  next
    case (Inr x)
    with answer assms(5) new show ?thesis by (auto simp: handle_server_message_def effect_def)
  qed
qed

theorem new_order_answered_once_witness:
  "\<exists>m m' out. fst (run (order_call_step demo_order_env)
       (index_order_manager_new (mint_invoice_manager_new Map.empty) (1/100), 0) demo_order_calls) = m \<and>
     handle_server_message demo_order_env m (EvNewIndexOrder 1 2 ''b'' ''IDX'' Buy 10 3) = (m', out) \<and>
     (\<exists>reason. order_effects m' = order_effects m @ [Respond (NewIndexOrderNak 1 2 ''b'' reason 3)])"
proof -
  let ?s = "(index_order_manager_new (mint_invoice_manager_new Map.empty) (1/100), 0)
    :: memory index_order_manager \<times> nat"
  let ?m = "fst (run (order_call_step demo_order_env) ?s demo_order_calls)"
  obtain m' out where h: "handle_server_message demo_order_env ?m (EvNewIndexOrder 1 2 ''b'' ''IDX'' Buy 10 3) = (m', out)"
    by fastforce
  have ok: "admits (order_call_ok demo_order_env) (order_call_step demo_order_env) ?s demo_order_calls"
    by (simp add: evals)
  have D: "dec_exact (order_dec demo_order_env)" by (simp add: demo_order_env_def)
  have "''b'' \<in> set (user_ids (user_orders ?m (1, 2)))" by (simp add: evals ids_of_def)
  with new_order_answered_once [OF D _ ok prod.collapse [symmetric] h] h show ?thesis by auto
qed

section \<open>Cancelling an order the solver is filling\<close>

lemma find_put_order [simp]:
  "find_index_order (put_order m chain addr sy io) chain addr sy = Some io"
  by (simp add: find_index_order_def user_orders_def put_order_def map_of_put_assoc)

text \<open>
  A cancel is acknowledged even when the solver is engaged with the order, and the order can
  then no longer be filled. When the update a client cancels is not yet engaged in full, so that
  it is still queued, the cancel removes it from the queue with whatever is engaged of it; every
  fill the batch manager reports for it afterwards fails, and changes nothing.
\<close>

theorem cancelled_order_cannot_be_filled:
  assumes "dec_exact (order_dec E)"
    and "find_index_order m chain addr sy = Some io"
    and "\<forall>u\<in>set (engaged_updates io). u_client_order_id u \<noteq> coid"
    and "handle_server_message E m (EvCancelIndexOrder chain addr coid sy amount ts) = (m', Returns (Inr ()))"
  shows "last (order_effects m') = Respond (CancelIndexOrderAck chain addr coid ts) \<and>
    fill_order_request E m' chain addr coid sy spent fill rate st ts' =
      (m', Returns (Inl ''cannot find engaged update''))"
proof -
  from assms(2,4) obtain io' where io': "solver_cancel (order_dec E) io coid = Some io'"
    and m': "m' = effect (Respond (CancelIndexOrderAck chain addr coid ts))
      (effect (Publish (CancelIndexOrder chain addr coid ts)) (put_order m chain addr sy io'))"
    by (auto simp: handle_server_message_def cancel_index_order_def split: option.splits)
  have "u_client_order_id u \<noteq> coid" if "u \<in> set (take 1 (order_updates io') @ engaged_updates io')" for u
  proof -
    from that have "u \<in> set (order_updates io') \<or> u \<in> set (engaged_updates io')" by (auto dest: in_set_takeD)
    with solver_cancel_keeps(3,4) [OF assms(1) io'] assms(3) show ?thesis by auto
  qed
  then have "find_engaged_update io' coid = None"
    unfolding find_engaged_update_def find_None_iff by blast
  with m' show ?thesis by (simp add: fill_order_request_def effect_def)
qed

theorem cancelled_order_cannot_be_filled_witness:
  "\<exists>m io m'. fst (run (order_call_step demo_order_env)
       (index_order_manager_new (mint_invoice_manager_new Map.empty) (1/100), 0) demo_order_calls) = m \<and>
     find_index_order m 1 2 ''IDX'' = Some io \<and> u_engaged (hd (order_updates io)) = Some 40 \<and>
     handle_server_message demo_order_env m (EvCancelIndexOrder 1 2 ''a'' ''IDX'' 95 3) = (m', Returns (Inr ())) \<and>
     fill_order_request demo_order_env m' 1 2 ''a'' ''IDX'' 30 1 (1/2) Engaged 4 =
       (m', Returns (Inl ''cannot find engaged update''))"
proof -
  let ?s = "(index_order_manager_new (mint_invoice_manager_new Map.empty) (1/100), 0)
    :: memory index_order_manager \<times> nat"
  let ?m = "fst (run (order_call_step demo_order_env) ?s demo_order_calls)"
  let ?h = "handle_server_message demo_order_env ?m (EvCancelIndexOrder 1 2 ''a'' ''IDX'' 95 3)"
  obtain io where io: "find_index_order ?m 1 2 ''IDX'' = Some io" "engaged_updates io = []"
    "u_engaged (hd (order_updates io)) = Some 40"
    by (simp add: evals)
  have "snd ?h = Returns (Inr ())" by (simp add: evals cancel_index_order_def solver_cancel_def)
  then have h: "?h = (fst ?h, Returns (Inr ()))" by (metis prod.collapse)
  have D: "dec_exact (order_dec demo_order_env)" by (simp add: demo_order_env_def)
  from cancelled_order_cannot_be_filled [OF D io(1) _ h] io h show ?thesis by auto
qed

section \<open>Engaging the orders of a batch\<close>

text \<open>
  An engagement that fails half way is not taken back. When the first order of a batch is
  engaged and a later one names an index its user has no order for, the call fails; nothing is
  published, so nobody learns of the engagement, but the first order has given its collateral up.
\<close>

theorem failed_engagement_is_kept:
  assumes "find_index_order m (er_chain_id r) (er_address r) (er_symbol r) = Some io"
    and "solver_engage_one (order_dec E) io (er_client_order_id r) (er_collateral_amount r) (order_tolerance m) =
      (io', Inr (remaining, None))"
    and "(er_chain_id r', er_address r') \<noteq> (er_chain_id r, er_address r)"
    and "find_index_order m (er_chain_id r') (er_address r') (er_symbol r') = None"
  shows "\<exists>m'. engage_orders E m bid (r # r' # rs) now = (m', Returns (Inl ''No such index order'')) \<and>
    order_effects m' = order_effects m \<and>
    find_index_order m' (er_chain_id r) (er_address r) (er_symbol r) = Some io'"
proof -
  let ?m = "put_order m (er_chain_id r) (er_address r) (er_symbol r) io'"
  have "find_index_order ?m (er_chain_id r') (er_address r') (er_symbol r') = None"
    using assms(3,4) by (auto simp: find_index_order_def user_orders_def put_order_def)
  with assms(1,2) have "engage_orders E m bid (r # r' # rs) now = (?m, Returns (Inl ''No such index order''))"
    by (simp add: engage_orders_def Let_def)
  then show ?thesis by (simp add: put_order_def find_put_order [unfolded put_order_def])
qed

theorem failed_engagement_is_kept_witness:
  "\<exists>m m' io'. fst (run (order_call_step demo_order_env)
       (index_order_manager_new (mint_invoice_manager_new Map.empty) (1/100), 0) demo_order_calls) = m \<and>
     engage_orders demo_order_env m ''B2''
       [\<lparr>er_chain_id = 1, er_address = 2, er_client_order_id = ''a'', er_symbol = ''IDX'', er_collateral_amount = 5\<rparr>,
        \<lparr>er_chain_id = 1, er_address = 3, er_client_order_id = ''c'', er_symbol = ''IDX'', er_collateral_amount = 5\<rparr>] 9 =
       (m', Returns (Inl ''No such index order'')) \<and>
     order_effects m' = order_effects m \<and>
     find_index_order m' 1 2 ''IDX'' = Some io' \<and> io_engaged io' = Some 45"
proof -
  let ?s = "(index_order_manager_new (mint_invoice_manager_new Map.empty) (1/100), 0)
    :: memory index_order_manager \<times> nat"
  let ?m = "fst (run (order_call_step demo_order_env) ?s demo_order_calls)"
  let ?r = "\<lparr>er_chain_id = 1, er_address = 2, er_client_order_id = ''a'', er_symbol = ''IDX'', er_collateral_amount = 5\<rparr>"
  let ?r' = "\<lparr>er_chain_id = 1, er_address = 3, er_client_order_id = ''c'', er_symbol = ''IDX'', er_collateral_amount = 5\<rparr>"
  obtain io io' remaining where io: "find_index_order ?m 1 2 ''IDX'' = Some io"
    and eng: "solver_engage_one (order_dec demo_order_env) io ''a'' 5 (order_tolerance ?m) = (io', Inr (remaining, None))"
    and e: "io_engaged io' = Some 45"
    by (simp add: evals)
  have none: "find_index_order ?m 1 3 ''IDX'' = None" by (simp add: evals)
  from failed_engagement_is_kept [where r = ?r and r' = ?r' and m = ?m and E = demo_order_env and bid = "''B2''"
      and rs = "[]" and now = 9, simplified, OF io eng none] e
  show ?thesis by auto
qed

section \<open>Minting\<close>

lemma add_invoice_metadata:
  "add_invoice E m chain addr i = (m', Inr u) \<Longrightarrow>
     metadata m' = metadata m @ [(metadata_of i)\<lparr>im_chain_id := chain, im_address := addr\<rparr>]"
  by (auto simp: add_invoice_def store_metadata_def split: prod.splits sum.splits)

lemma mint_invoice_of:
  "mint_invoice_try_new D debug io u pid n filled paid ls p ts = Returns (Inr i) \<Longrightarrow>
     mi_client_order_id i = u_client_order_id u \<and> mi_lots i = ls \<and> mi_filled_quantity i = filled \<and>
     total_amount i = original_collateral_amount u"
  by (auto simp: mint_invoice_try_new_def rbind_eq_Inr split: option.splits)

lemma invoice_update_ok:
  assumes "invoice_update E m io chain addr coid pid n filled paid ls p ts = (m', Returns (Inr ()))"
  shows "\<exists>i. mi_client_order_id i = coid \<and> mi_lots i = ls \<and>
    order_effects m' = order_effects m @ [Respond (MintInvoiceIssued chain addr coid i ts)] \<and>
    metadata (invoices m') = metadata (invoices m) @ [(metadata_of i)\<lparr>im_chain_id := chain, im_address := addr\<rparr>]"
proof -
  let ?us = "filter (\<lambda>u. u_client_order_id u = coid) (snd (drain_closed_updates io))"
  from assms obtain i im where us: "?us \<noteq> []"
    and i: "mint_invoice_try_new (order_dec E) (debug_log E) (fst (drain_closed_updates io)) (last ?us)
        pid n filled paid ls p ts = Returns (Inr i)"
    and im: "add_invoice (invoicing E) (invoices m) chain addr i = (im, Inr ())"
    and m': "m' = effect (Respond (MintInvoiceIssued chain addr coid i ts)) (m\<lparr>invoices := im\<rparr>)"
    by (auto simp: invoice_update_def split: list.splits outcome.splits sum.splits prod.splits)
  from us have "last ?us \<in> set ?us" by (rule last_in_set)
  then have "u_client_order_id (last ?us) = coid" by simp
  with mint_invoice_of [OF i] add_invoice_metadata [OF im] m' show ?thesis by (auto simp: effect_def)
qed

lemma remove_index_order_ok:
  assumes "remove_index_order m chain addr sy coid = (m1, Inr r)"
    and "find_index_order m chain addr sy = Some io"
    and "distinct (map u_client_order_id (engaged_updates io))"
    and "distinct (map fst (user_orders m (chain, addr)))"
  shows "order_effects m1 = order_effects m \<and> invoices m1 = invoices m \<and>
    (case find_index_order m1 chain addr sy of
       None \<Rightarrow> r \<noteq> None
     | Some io' \<Rightarrow> r = None \<and> coid \<notin> set (map u_client_order_id (engaged_updates io')))"
proof -
  obtain io' x where c: "solver_complete io coid = (io', x)" by fastforce
  with assms(1,2) have x: "x = Inr ()" by (auto simp: remove_index_order_def split: sum.splits)
  from c x obtain u us where rem: "remove_first (\<lambda>u. u_client_order_id u = coid) (engaged_updates io) = Some (u, us)"
    and io': "engaged_updates io' = us" by (auto simp: solver_complete_def split: option.splits)
  from remove_first_Some [OF rem] assms(3) have gone: "coid \<notin> set (map u_client_order_id us)" by auto
  have "map_of (filter (\<lambda>(sy', _). sy' \<noteq> sy) os) sy = None" for os :: "(symbol \<times> index_order) list"
    by (induction os) auto
  with assms(1,2) c x gone io' show ?thesis
    by (auto simp: remove_index_order_def find_index_order_def user_orders_def put_order_def map_of_put_assoc
        split: if_splits)
qed

lemma minted_again_fails:
  assumes "find_index_order m chain addr sy = None \<or>
    (\<exists>io. find_index_order m chain addr sy = Some io \<and> coid \<notin> set (map u_client_order_id (engaged_updates io)))"
  shows "\<exists>m' e. order_request_minted E m chain addr coid sy pid n filled paid ls p ts = (m', Returns (Inl e)) \<and>
    order_effects m' = order_effects m \<and> invoices m' = invoices m"
proof (cases "find_index_order m chain addr sy")
  case (Some io)
  with assms have "\<forall>u\<in>set (engaged_updates io). u_client_order_id u \<noteq> coid" by auto
  then have "remove_first (\<lambda>u. u_client_order_id u = coid) (engaged_updates io) = None"
    by (simp add: remove_first_None)
  with Some show ?thesis
    by (simp add: order_request_minted_def remove_index_order_def solver_complete_def put_order_def)
qed (simp add: order_request_minted_def remove_index_order_def)

text \<open>
  C31: minting an order that succeeds has told the solver that the order is over and the client
  its invoice, in this order, and has filed exactly that invoice, for that order and with the lots
  of the mint; a second mint of the same order fails, tells nobody anything and files nothing. The
  engaged updates of the user's order for the index have different names.
\<close>

theorem minted_once:
  assumes "find_index_order m chain addr sy = Some io"
    and "distinct (map u_client_order_id (engaged_updates io))"
    and "distinct (map fst (user_orders m (chain, addr)))"
    and "order_request_minted E m chain addr coid sy pid n filled paid ls p ts = (m', Returns (Inr ()))"
  shows "(\<exists>i. mi_client_order_id i = coid \<and> mi_lots i = ls \<and>
      order_effects m' = order_effects m @
        [Publish (CancelIndexOrder chain addr coid ts), Respond (MintInvoiceIssued chain addr coid i ts)] \<and>
      metadata (invoices m') = metadata (invoices m) @
        [(metadata_of i)\<lparr>im_chain_id := chain, im_address := addr\<rparr>]) \<and>
    (\<exists>m'' e. order_request_minted E m' chain addr coid sy pid' n' filled' paid' ls' p' ts' = (m'', Returns (Inl e)) \<and>
      order_effects m'' = order_effects m' \<and> invoices m'' = invoices m')"
proof -
  from assms(4) obtain m1 r where rm: "remove_index_order m chain addr sy coid = (m1, Inr r)"
    by (cases "remove_index_order m chain addr sy coid"; cases "snd (remove_index_order m chain addr sy coid)")
      (auto simp: order_request_minted_def)
  note ok = remove_index_order_ok [OF rm assms(1-3)]
  let ?m2 = "effect (Publish (CancelIndexOrder chain addr coid ts)) m1"
  from assms(4) rm obtain m3 io3 where
    inv: "invoice_update E m3 io3 chain addr coid pid n filled paid ls p ts = (m', Returns (Inr ()))"
    and m3: "m3 = ?m2 \<and> r = Some io3 \<or> r = None \<and> find_index_order m1 chain addr sy = Some io3 \<and>
      m3 = put_order ?m2 chain addr sy (fst (drain_closed_updates io3))"
    by (auto simp: order_request_minted_def Let_def split: option.splits)
  have orders: "index_orders m' = index_orders m3"
    using invoice_update_orders [of E m3 io3 chain addr coid pid n filled paid ls p ts] inv by simp
  then have find: "find_index_order m' chain addr sy = find_index_order m3 chain addr sy"
    by (simp add: find_index_order_def user_orders_def)
  have m3': "order_effects m3 = order_effects m @ [Publish (CancelIndexOrder chain addr coid ts)]"
    "invoices m3 = invoices m"
    using m3 ok by (auto simp: effect_def put_order_def)
  have "find_index_order m' chain addr sy = None \<or> (\<exists>io. find_index_order m' chain addr sy = Some io \<and>
      coid \<notin> set (map u_client_order_id (engaged_updates io)))"
    unfolding find using m3 ok by (auto simp: drain_closed_updates_def split: option.splits)
  from minted_again_fails [OF this] invoice_update_ok [OF inv] m3' show ?thesis by simp
qed

definition demo_mint_env :: "memory order_env" where
  "demo_mint_env = demo_order_env\<lparr>invoicing := \<lparr>storage = memory_ops,
     invoice_codec = \<lparr>encode = (\<lambda>_. Some ''i''), decode = (\<lambda>_. None)\<rparr>,
     metadata_codec = \<lparr>encode = (\<lambda>_. Some ''m''), decode = (\<lambda>_. None)\<rparr>, show_address = hex_address\<rparr>\<rparr>"

definition demo_engaged_calls :: "order_call list" where
  "demo_engaged_calls =
    [AddIndexSymbol ''IDX'', Message (EvNewIndexOrder 1 2 ''a'' ''IDX'' Buy 100 0),
     MarkReady 1 2 ''a'' ''IDX'' 95 5 1,
     EngageOrders ''B1'' [\<lparr>er_chain_id = 1, er_address = 2, er_client_order_id = ''a'', er_symbol = ''IDX'',
       er_collateral_amount = 95\<rparr>] 2, MarkFilled 1 2 ''a'' ''IDX'' 90 9 (9/10) FullyMintable 3]"

declare demo_mint_env_def [evals] demo_engaged_calls_def [evals] fill_order_request_def [evals]
  find_engaged_update_def [evals] fill_figures_def [evals] print_fill_report_def [evals] put_engaged_update_def [evals]
  order_request_minted_def [evals] remove_index_order_def [evals] solver_complete_def [evals]
  invoice_update_def [evals] drain_closed_updates_def [evals] mint_invoice_try_new_def [evals]
  print_mint_invoice_def [evals] same_lot_def [evals] add_lots_def [evals] lot_amount_def [evals]
  sub_totals_of_def [evals] sub_total_of_def [evals] demo_assigned_def [evals] add_invoice_def [evals]
  store_json_def [evals] store_metadata_def [evals] memory_ops_def [evals] memory_store_value_def [evals]
  status_string_def [evals] checked_math_def [evals] mint_invoice_manager_new_def [evals]

theorem minted_once_witness:
  "\<exists>m m' i. fst (run (order_call_step demo_mint_env)
       (index_order_manager_new (mint_invoice_manager_new Map.empty) (1/100), 0) demo_engaged_calls) = m \<and>
     order_request_minted demo_mint_env m 1 2 ''a'' ''IDX'' ''p'' 7 9 90 [demo_assigned ''l'' 1]
       (collateral_position_new 1 2 0) 4 = (m', Returns (Inr ())) \<and>
     order_effects m' = order_effects m @
       [Publish (CancelIndexOrder 1 2 ''a'' 4), Respond (MintInvoiceIssued 1 2 ''a'' i 4)]"
proof -
  let ?s = "(index_order_manager_new (mint_invoice_manager_new Map.empty) (1/100), 0)
    :: memory index_order_manager \<times> nat"
  let ?m = "fst (run (order_call_step demo_mint_env) ?s demo_engaged_calls)"
  let ?r = "order_request_minted demo_mint_env ?m 1 2 ''a'' ''IDX'' ''p'' 7 9 90 [demo_assigned ''l'' 1]
    (collateral_position_new 1 2 0) 4"
  obtain io where io: "find_index_order ?m 1 2 ''IDX'' = Some io" "distinct (map u_client_order_id (engaged_updates io))"
    by (simp add: evals)
  have d: "distinct (map fst (user_orders ?m (1, 2)))" by (simp add: evals)
  have "snd ?r = Returns (Inr ())" by (simp add: evals)
  then have r: "?r = (fst ?r, Returns (Inr ()))" by (metis prod.collapse)
  from minted_once [OF io d r] r show ?thesis by blast
qed

end
