(* ===== verification/Quotes.thy ===== *)
theory Quotes
  imports Server
begin

text \<open>
  Quotes on an index. The solver's queues of them, \<open>src/solver/solver_quote.rs\<close>, hand out the
  quotes of many users one per user at a time; the manager of the users' quote requests,
  \<open>src/solver/index_quote_manager.rs\<close> with \<open>index_quote.rs\<close>, answers the clients. Quotes the
  solver shares by reference live in \<open>cq_heap\<close>. What the manager publishes to the solver and what
  it answers to the server are recorded in one list, in order.
\<close>

section \<open>Queues of the solver\<close>

datatype solver_quote_status =
    QuoteOpen | QuoteReady | QuoteInvalidSymbol | InvalidQuote | QuoteServiceUnavailable
  | QuoteInternalError

record solver_quote =
  q_chain_id :: u32
  q_address :: address
  q_client_quote_id :: string
  q_symbol :: symbol
  q_side :: side
  q_collateral_amount :: amount
  q_quantity_possible :: amount
  q_timestamp :: timestamp
  q_status :: solver_quote_status

record solver_client_quotes =
  cq_heap :: "solver_quote list"
  client_quotes :: "client_key \<times> string \<Rightarrow> nat option"
  client_quotes_queues :: "client_key \<Rightarrow> string list option"
  quote_notify_queue :: "client_key list"
  quote_wait_period :: duration

definition solver_client_quotes_new :: "duration \<Rightarrow> solver_client_quotes" where
  "solver_client_quotes_new w = \<lparr>cq_heap = [], client_quotes = (\<lambda>_. None),
     client_quotes_queues = (\<lambda>_. None), quote_notify_queue = [], quote_wait_period = w\<rparr>"

definition get_client_quote :: "solver_client_quotes \<Rightarrow> client_key \<Rightarrow> string \<Rightarrow> nat option" where
  "get_client_quote st k cid = client_quotes st (k, cid)"

definition get_next_client_quote ::
  "solver_client_quotes \<Rightarrow> timestamp \<Rightarrow> solver_client_quotes \<times> nat option" where
  "get_next_client_quote st ts =
     (let ready_timestamp = ts - quote_wait_period st
      in case quote_notify_queue st of
        [] \<Rightarrow> (st, None)
      | front # rest \<Rightarrow>
          (case client_quotes_queues st front of
             Some (cid # _) \<Rightarrow>
               (case client_quotes st (front, cid) of
                  Some h \<Rightarrow> if ready_timestamp < q_timestamp (cq_heap st ! h) then (st, None)
                            else (st\<lparr>quote_notify_queue := rest\<rparr>, Some h)
                | None \<Rightarrow> (st, None))
           | _ \<Rightarrow> (st, None)))"

definition solver_quote_new ::
  "client_key \<Rightarrow> string \<Rightarrow> symbol \<Rightarrow> side \<Rightarrow> amount \<Rightarrow> timestamp \<Rightarrow> solver_quote" where
  "solver_quote_new k cid sy sd amount ts = \<lparr>q_chain_id = fst k, q_address = snd k,
     q_client_quote_id = cid, q_symbol = sy, q_side = sd, q_collateral_amount = amount,
     q_quantity_possible = 0, q_timestamp = ts, q_status = QuoteOpen\<rparr>"

definition add_client_quote ::
  "solver_client_quotes \<Rightarrow> client_key \<Rightarrow> string \<Rightarrow> symbol \<Rightarrow> side \<Rightarrow> amount \<Rightarrow> timestamp \<Rightarrow>
     solver_client_quotes \<times> unit result" where
  "add_client_quote st k cid sy sd amount ts =
     (if client_quotes st (k, cid) \<noteq> None then (st, Inl ''Duplicate Client Quote ID'')
      else let st1 = st\<lparr>cq_heap := cq_heap st @ [solver_quote_new k cid sy sd amount ts],
                        client_quotes := (client_quotes st)((k, cid) \<mapsto> length (cq_heap st))\<rparr>
           in case client_quotes_queues st k of
                None \<Rightarrow> (st1\<lparr>client_quotes_queues := (client_quotes_queues st)(k \<mapsto> [cid]),
                             quote_notify_queue := quote_notify_queue st @ [k]\<rparr>, Inr ())
              | Some q \<Rightarrow>
                  (st1\<lparr>client_quotes_queues := (client_quotes_queues st)(k \<mapsto> q @ [cid])\<rparr>, Inr ()))"

definition cancel_client_quote ::
  "solver_client_quotes \<Rightarrow> client_key \<Rightarrow> string \<Rightarrow> solver_client_quotes \<times> unit result" where
  "cancel_client_quote st k cid =
     (if client_quotes st (k, cid) = None then (st, Inl ''Failed to remove entry'')
      else let st1 = st\<lparr>client_quotes := (client_quotes st)((k, cid) := None)\<rparr>
           in case client_quotes_queues st k of
                None \<Rightarrow> (st1, Inr ())
              | Some [] \<Rightarrow> (st1\<lparr>client_quotes_queues := (client_quotes_queues st)(k := None)\<rparr>, Inr ())
              | Some (front # q) \<Rightarrow>
                  if front = cid then
                    (if q = []
                     then (st1\<lparr>client_quotes_queues := (client_quotes_queues st)(k := None)\<rparr>, Inr ())
                     else (st1\<lparr>client_quotes_queues := (client_quotes_queues st)(k \<mapsto> q),
                               quote_notify_queue := quote_notify_queue st @ [k]\<rparr>, Inr ()))
                  else (st1\<lparr>client_quotes_queues :=
                              (client_quotes_queues st)(k \<mapsto> filter (\<lambda>x. x \<noteq> cid) (front # q))\<rparr>, Inr ()))"

section \<open>Requests of the users\<close>

record index_quote =
  iq_chain_id :: u32
  iq_address :: address
  iq_client_quote_id :: string
  iq_symbol :: symbol
  iq_side :: side
  iq_collateral_amount :: amount
  iq_quantity_possible :: amount
  iq_created_timestamp :: timestamp
  iq_last_update_timestamp :: timestamp

definition index_quote_new ::
  "u32 \<Rightarrow> address \<Rightarrow> string \<Rightarrow> symbol \<Rightarrow> side \<Rightarrow> amount \<Rightarrow> timestamp \<Rightarrow> index_quote" where
  "index_quote_new chain addr cid sy sd amount ts = \<lparr>iq_chain_id = chain, iq_address = addr,
     iq_client_quote_id = cid, iq_symbol = sy, iq_side = sd, iq_collateral_amount = amount,
     iq_quantity_possible = 0, iq_created_timestamp = ts, iq_last_update_timestamp = ts\<rparr>"

datatype quote_request_event =
    NewQuoteRequest u32 address string symbol side amount timestamp
  | CancelQuoteRequest u32 address string timestamp

datatype quote_effect = PublishQuote quote_request_event | RespondQuote server_response

record quote_request_manager =
  quote_symbols :: "symbol set"
  quote_requests :: "client_key \<Rightarrow> (symbol \<Rightarrow> index_quote option) option"
  quote_effects :: "quote_effect list"

definition quote_request_manager_new :: quote_request_manager where
  "quote_request_manager_new = \<lparr>quote_symbols = {}, quote_requests = (\<lambda>_. None), quote_effects = []\<rparr>"

definition add_quote_symbol :: "quote_request_manager \<Rightarrow> symbol \<Rightarrow> quote_request_manager" where
  "add_quote_symbol m sy = m\<lparr>quote_symbols := insert sy (quote_symbols m)\<rparr>"

definition remove_quote_symbol :: "quote_request_manager \<Rightarrow> symbol \<Rightarrow> quote_request_manager" where
  "remove_quote_symbol m sy = m\<lparr>quote_symbols := quote_symbols m - {sy}\<rparr>"

definition quote_effect_to :: "quote_effect \<Rightarrow> quote_request_manager \<Rightarrow> quote_request_manager" where
  "quote_effect_to e m = m\<lparr>quote_effects := quote_effects m @ [e]\<rparr>"

definition new_quote_request ::
  "quote_request_manager \<Rightarrow> u32 \<Rightarrow> address \<Rightarrow> string \<Rightarrow> symbol \<Rightarrow> side \<Rightarrow> amount \<Rightarrow> timestamp \<Rightarrow>
     quote_request_manager \<times> (new_index_quote_nak_reason server_response_reason + unit)" where
  "new_quote_request m chain addr cid sy sd amount ts =
     (if sd = Sell then (m, Inl (User (NewQuoteOtherReason ''We don't support Sell yet!'')))
      else if sy \<notin> quote_symbols m then (m, Inl (User (NewQuoteInvalidSymbol sy)))
      else let requests = (case quote_requests m (chain, addr) of None \<Rightarrow> (\<lambda>_. None) | Some r \<Rightarrow> r)
      in if requests sy \<noteq> None
         then (m\<lparr>quote_requests := (quote_requests m)((chain, addr) \<mapsto> requests)\<rparr>,
               Inl (User (NewQuoteOtherReason ''Quote already in process'')))
         else (quote_effect_to (PublishQuote (NewQuoteRequest chain addr cid sy sd amount ts))
                 (m\<lparr>quote_requests := (quote_requests m)((chain, addr) \<mapsto>
                     requests(sy \<mapsto> index_quote_new chain addr cid sy sd amount ts))\<rparr>), Inr ()))"

text \<open>The request is removed before its identifier is compared with the one to cancel.\<close>

definition cancel_quote_request ::
  "quote_request_manager \<Rightarrow> u32 \<Rightarrow> address \<Rightarrow> string \<Rightarrow> symbol \<Rightarrow> timestamp \<Rightarrow>
     quote_request_manager \<times> (cancel_index_quote_nak_reason server_response_reason + unit)" where
  "cancel_quote_request m chain addr cid sy ts =
     (if sy \<notin> quote_symbols m then (m, Inl (User (CancelQuoteInvalidSymbol sy)))
      else case quote_requests m (chain, addr) of
        None \<Rightarrow> (m, Inl (User (IndexQuoteNotFound ''No quotes found for user'')))
      | Some requests \<Rightarrow>
          (case requests sy of
             None \<Rightarrow> (m, Inl (User (IndexQuoteNotFound ''No quote found for user'')))
           | Some r \<Rightarrow>
               (let m1 = m\<lparr>quote_requests := (quote_requests m)((chain, addr) \<mapsto> requests(sy := None))\<rparr>
                in if iq_client_quote_id r \<noteq> cid
                   then (m1, Inl (User (IndexQuoteNotFound ''Found quote found for user'')))
                   else (quote_effect_to (PublishQuote (CancelQuoteRequest chain addr cid ts)) m1,
                         Inr ()))))"

definition quote_refusal :: "'r server_response_reason \<Rightarrow> unit result" where
  "quote_refusal reason =
     (case reason of User _ \<Rightarrow> Inr () | ServerSide _ \<Rightarrow> Inl ''Internal server error'')"

definition quote_handle_server_message ::
  "quote_request_manager \<Rightarrow> server_event \<Rightarrow> quote_request_manager \<times> unit result" where
  "quote_handle_server_message m ev =
     (case ev of
        EvNewQuoteRequest chain addr cid sy sd amount ts \<Rightarrow>
          (case new_quote_request m chain addr cid sy sd amount ts of
             (m', Inl reason) \<Rightarrow>
               (quote_effect_to (RespondQuote (NewIndexQuoteNak chain addr cid reason ts)) m',
                quote_refusal reason)
           | (m', Inr _) \<Rightarrow>
               (quote_effect_to (RespondQuote (NewIndexQuoteAck chain addr cid ts)) m', Inr ()))
      | EvCancelQuoteRequest chain addr cid sy ts \<Rightarrow>
          (case cancel_quote_request m chain addr cid sy ts of
             (m', Inl reason) \<Rightarrow>
               (quote_effect_to (RespondQuote (CancelIndexQuoteNak chain addr cid reason ts)) m',
                quote_refusal reason)
           | (m', Inr _) \<Rightarrow>
               (quote_effect_to (RespondQuote (CancelIndexQuoteAck chain addr cid ts)) m', Inr ()))
      | _ \<Rightarrow> (m, Inr ()))"

text \<open>\<open>respond_quote\<close> is a \<open>todo!\<close>.\<close>

definition respond_quote :: "quote_request_manager \<Rightarrow> unit \<Rightarrow> unit outcome" where
  "respond_quote m q = Panic"

section \<open>Solved quotes\<close>

definition quote_key :: "solver_quote \<Rightarrow> client_key" where
  "quote_key q = (q_chain_id q, q_address q)"

definition forget_quote :: "solver_quote \<Rightarrow> quote_request_manager \<Rightarrow> quote_request_manager" where
  "forget_quote q m =
     (case quote_requests m (quote_key q) of
        None \<Rightarrow> m
      | Some requests \<Rightarrow>
          m\<lparr>quote_requests := (quote_requests m)(quote_key q \<mapsto> requests(q_symbol q := None))\<rparr>)"

definition cancel_of :: "solver_quote \<Rightarrow> quote_effect" where
  "cancel_of q =
     PublishQuote (CancelQuoteRequest (q_chain_id q) (q_address q) (q_client_quote_id q) (q_timestamp q))"

definition answer_solved :: "solver_quote \<Rightarrow> quote_effect" where
  "answer_solved q =
     RespondQuote (IndexQuoteResponse (q_chain_id q) (q_address q) (q_client_quote_id q)
       (q_quantity_possible q) (q_timestamp q))"

definition answer_failed :: "solver_quote \<Rightarrow> quote_effect" where
  "answer_failed q =
     RespondQuote (NewIndexQuoteNak (q_chain_id q) (q_address q) (q_client_quote_id q)
       (ServerSide (ServerOtherReason ''Failed to compute quote'')) (q_timestamp q))"

definition quotes_solved ::
  "quote_request_manager \<Rightarrow> solver_quote list \<Rightarrow> solver_quote list \<Rightarrow> quote_request_manager \<times> unit result" where
  "quotes_solved m solved failed =
     (let m1 = fold forget_quote (solved @ failed) m;
          m2 = fold (\<lambda>q. quote_effect_to (answer_solved q) \<circ> quote_effect_to (cancel_of q)) solved m1;
          m3 = fold (\<lambda>q. quote_effect_to (answer_failed q) \<circ> quote_effect_to (cancel_of q)) failed m2
      in (m3, Inr ()))"

end
