(* ===== verification/SimpleSolver.thy ===== *)
theory SimpleSolver
  imports Quotes BatchManager PriceTracker CollateralManager
begin

text \<open>
  The solver's strategy, \<open>src/solver/solvers/simple_solver.rs\<close>: how much of each index a batch of
  orders may buy, what is bought of each asset, and how the fills of an asset are shared.

  What the strategy asks of the solver (\<open>SolverStrategyHost\<close>) is the record \<open>strategy_host\<close>. Orders
  and quotes are shared by reference: a batch is a list of indices into the heap of orders, and an
  operation returns the heap with the statuses it has set. A hash map that the code walks is an
  association list with each key once. \<open>Decimal::ceil\<close>, minimum and comparisons are exact.
\<close>

section \<open>Data\<close>

record strategy_host =
  host_batch_order_id :: batch_order_id
  host_basket :: "symbol \<Rightarrow> basket option"
  host_prices :: "price_type \<Rightarrow> symbol list \<Rightarrow> get_prices_response"
  host_liquidity :: "side \<Rightarrow> (symbol \<times> amount) list \<Rightarrow> (symbol \<Rightarrow> amount option) result"
  host_liquidity_levels ::
    "side \<Rightarrow> nat \<Rightarrow> symbol list \<Rightarrow> (symbol \<Rightarrow> price_point_entry option option) result"
  host_total_volley_size :: "amount result"

record simple_solver =
  price_threshold :: amount
  max_levels :: nat
  fee_factor :: amount
  max_order_volley_size :: amount
  max_volley_size :: amount
  min_asset_volley_size :: amount
  asset_volley_step_size :: amount
  max_total_volley_size :: amount
  min_total_volley_available :: amount

type_synonym amounts = "(symbol \<times> amount) list"
type_synonym order_key = "address \<times> client_order_id"
type_synonym quantities = "(order_key \<times> (amount \<times> amounts)) list"

record simple_solver_engagements =
  e_baskets :: "(symbol \<times> basket) list"
  e_asset_price_limits :: amounts
  e_index_price_limits :: amounts
  asset_order_quantities :: amounts
  quantity_contributions :: quantities
  contribution_fractions :: "(order_key \<times> amounts) list"

record solve_engagements_result =
  engaged_solver_orders_of :: engaged_solver_orders
  failed_orders :: "nat list"

definition simple_solver_new ::
  "amount \<Rightarrow> nat \<Rightarrow> amount \<Rightarrow> amount \<Rightarrow> amount \<Rightarrow> amount \<Rightarrow> amount \<Rightarrow> amount \<Rightarrow> amount \<Rightarrow> simple_solver" where
  "simple_solver_new threshold n fee order_volley volley min_asset step max_total min_total =
     \<lparr>price_threshold = threshold, max_levels = n, fee_factor = fee,
      max_order_volley_size = order_volley, max_volley_size = volley,
      min_asset_volley_size = min_asset, asset_volley_step_size = step,
      max_total_volley_size = max_total, min_total_volley_available = min_total\<rparr>"

text \<open>\<open>HashMap::from_iter\<close>, and walks that stop at the first failure.\<close>

definition collect_map :: "('k \<times> 'v) list \<Rightarrow> ('k \<times> 'v) list" where
  "collect_map kvs = fold (\<lambda>(k, v) m. put_assoc k v m) kvs []"

fun map_while :: "('a \<Rightarrow> 'b option) \<Rightarrow> 'a list \<Rightarrow> 'b list" where
  "map_while f [] = []"
| "map_while f (x # xs) = (case f x of None \<Rightarrow> [] | Some y \<Rightarrow> y # map_while f xs)"

fun try_map :: "('a \<Rightarrow> 'b result) \<Rightarrow> 'a list \<Rightarrow> 'b list result" where
  "try_map f [] = Inr []"
| "try_map f (x # xs) = rbind (f x) (\<lambda>y. rbind (try_map f xs) (\<lambda>ys. Inr (y # ys)))"

fun try_fold :: "('s \<Rightarrow> 'a \<Rightarrow> 's result) \<Rightarrow> 's \<Rightarrow> 'a list \<Rightarrow> 's result" where
  "try_fold f s [] = Inr s"
| "try_fold f s (x # xs) = rbind (f s x) (\<lambda>s'. try_fold f s' xs)"

section \<open>Walks over a batch\<close>

definition order_key_of :: "solver_order \<Rightarrow> order_key" where
  "order_key_of s = (s_address s, s_client_order_id s)"

text \<open>The orders that stay, what the scan gave for each, and the orders that failed.\<close>

fun scan_order_batch ::
  "solver_order_status \<Rightarrow> (solver_order \<Rightarrow> 'r result) \<Rightarrow> solver_order list \<Rightarrow> nat list \<Rightarrow>
     (order_key \<times> 'r) list \<Rightarrow>
     solver_order list \<times> nat list \<times> (order_key \<times> 'r) list \<times> nat list" where
  "scan_order_batch error_status scan heap [] good = (heap, [], good, [])"
| "scan_order_batch error_status scan heap (i # is) good =
     (case scan (heap ! i) of
        Inr r \<Rightarrow>
          (case scan_order_batch error_status scan heap is
                  (put_assoc (order_key_of (heap ! i)) r good) of
             (heap', kept, good', bad) \<Rightarrow> (heap', i # kept, good', bad))
      | Inl _ \<Rightarrow>
          (case scan_order_batch error_status scan
                  (heap[i := set_order_status (heap ! i) error_status]) is good of
             (heap', kept, good', bad) \<Rightarrow> (heap', kept, good', i # bad)))"

definition or_insert :: "'k \<Rightarrow> 'v \<Rightarrow> ('k \<times> 'v) list \<Rightarrow> ('k \<times> 'v) list" where
  "or_insert k v m = (if map_of m k = None then put_assoc k v m else m)"

fun get_baskets ::
  "strategy_host \<Rightarrow> solver_order list \<Rightarrow> nat list \<Rightarrow> (symbol \<times> basket) list \<Rightarrow>
     solver_order list \<times> nat list \<times> (symbol \<times> basket) list \<times> nat list" where
  "get_baskets H heap [] bs = (heap, [], bs, [])"
| "get_baskets H heap (i # is) bs =
     (let sy = s_symbol (heap ! i)
      in case host_basket H sy of
        Some b \<Rightarrow>
          (case get_baskets H heap is (or_insert sy b bs) of
             (heap', kept, bs', bad) \<Rightarrow> (heap', i # kept, bs', bad))
      | None \<Rightarrow>
          (case get_baskets H (heap[i := set_order_status (heap ! i) InvalidSymbol]) is bs of
             (heap', kept, bs', bad) \<Rightarrow> (heap', kept, bs', i # bad)))"

definition set_quote_status :: "solver_quote \<Rightarrow> solver_quote_status \<Rightarrow> solver_quote" where
  "set_quote_status q st = q\<lparr>q_status := st\<rparr>"

fun get_baskets_from_quotes ::
  "strategy_host \<Rightarrow> solver_quote list \<Rightarrow> nat list \<Rightarrow> (symbol \<times> basket) list \<Rightarrow>
     solver_quote list \<times> nat list \<times> (symbol \<times> basket) list \<times> nat list" where
  "get_baskets_from_quotes H heap [] bs = (heap, [], bs, [])"
| "get_baskets_from_quotes H heap (i # is) bs =
     (let sy = q_symbol (heap ! i)
      in case host_basket H sy of
        Some b \<Rightarrow>
          (case get_baskets_from_quotes H heap is (or_insert sy b bs) of
             (heap', kept, bs', bad) \<Rightarrow> (heap', i # kept, bs', bad))
      | None \<Rightarrow>
          (case get_baskets_from_quotes H
                  (heap[i := set_quote_status (heap ! i) QuoteInvalidSymbol]) is bs of
             (heap', kept, bs', bad) \<Rightarrow> (heap', kept, bs', i # bad)))"

definition asset_symbol :: "basket_asset \<Rightarrow> symbol" where
  "asset_symbol a = ticker (w_asset (ba_weight a))"

definition symbols_of :: "(symbol \<times> basket) list \<Rightarrow> symbol list" where
  "symbols_of bs = remdups (concat (map (\<lambda>(_, b). map asset_symbol (basket_assets b)) bs))"

section \<open>Prices and liquidity\<close>

text \<open>An order crosses the book on the opposite side, and may move it by the price threshold.\<close>

definition price_factor :: "dec_ops \<Rightarrow> simple_solver \<Rightarrow> side \<Rightarrow> (price_type \<times> amount) result" where
  "price_factor D S sd =
     (case sd of
        Buy \<Rightarrow> rbind (ok_or (dec_add D 1 (price_threshold S))
                 ''Math Problem: Failed to compute price factor for Ask'') (\<lambda>f. Inr (BestAsk, f))
      | Sell \<Rightarrow> rbind (ok_or (dec_sub D 1 (price_threshold S))
                 ''Math Problem: Failed to compute price factor for Bid'') (\<lambda>f. Inr (BestBid, f)))"

definition get_asset_price_limits ::
  "dec_ops \<Rightarrow> simple_solver \<Rightarrow> strategy_host \<Rightarrow> side \<Rightarrow> symbol list \<Rightarrow> (amounts \<times> symbol list) result" where
  "get_asset_price_limits D S H sd symbols =
     rbind (price_factor D S sd) (\<lambda>(price_type, factor).
       let res = host_prices H price_type symbols;
           limits = collect_map (map_while (\<lambda>(s, p). map_option (Pair s) (dec_mul D p factor)) (r_prices res))
       in if length limits \<noteq> length (r_prices res)
          then Inl ''Math Problem: Failed to compute price limits''
          else Inr (limits, missing_symbols res))"

text \<open>
  One entry of the walk over the liquidity levels. A symbol without levels is remembered as
  missing; a cap that would leave less than the minimal volley is not applied.
\<close>

definition cap_one ::
  "dec_ops \<Rightarrow> simple_solver \<Rightarrow> amounts \<times> amounts \<times> symbol list \<Rightarrow> symbol \<times> price_point_entry option \<Rightarrow>
     (amounts \<times> amounts \<times> symbol list) result" where
  "cap_one D S st entry =
     (let (liquidity, limits, missing) = st; (sy, lv) = entry
      in case lv of
           None \<Rightarrow> Inr (liquidity, limits, missing @ [sy])
         | Some l \<Rightarrow>
             rbind (ok_or (map_of limits sy) ''Missing price limit'') (\<lambda>_.
             rbind (ok_or (map_of liquidity sy) ''Missing liquidity'') (\<lambda>q.
               if pp_quantity l < q
               then rbind (ok_or (dec_mul D (pp_price l) (pp_quantity l))
                        ''Failed to compute asset volley size'') (\<lambda>v.
                      if v < min_asset_volley_size S then Inr (liquidity, limits, missing)
                      else Inr (put_assoc sy (pp_quantity l) liquidity,
                                put_assoc sy (pp_price l) limits, missing))
               else Inr (liquidity, limits, missing))))"

definition cap_asset_liquidity ::
  "dec_ops \<Rightarrow> simple_solver \<Rightarrow> (symbol \<times> price_point_entry option) list \<Rightarrow> amounts \<Rightarrow> amounts \<Rightarrow>
     (amounts \<times> amounts) result" where
  "cap_asset_liquidity D S lvs liquidity limits =
     rbind (try_fold (cap_one D S) (liquidity, limits, []) lvs) (\<lambda>(liquidity', limits', missing).
       if missing \<noteq> [] then Inl ''Missing liquidity levels for: '' else Inr (liquidity', limits'))"

text \<open>The indexes with a price, and those whose price cannot be computed.\<close>

definition get_index_price ::
  "dec_ops \<Rightarrow> (symbol \<times> basket) list \<Rightarrow> amounts \<Rightarrow> amounts \<times> symbol list" where
  "get_index_price D bs asset_prices =
     (let priced = map (\<lambda>(s, b). (s, get_current_price D b (map_of asset_prices))) bs
      in (List.map_filter (\<lambda>(s, r). case r of Inr p \<Rightarrow> Some (s, p) | Inl _ \<Rightarrow> None) priced,
          List.map_filter (\<lambda>(s, r). case r of Inr _ \<Rightarrow> None | Inl _ \<Rightarrow> Some s) priced))"

text \<open>The hash maps the host answers with, listed along the symbols asked for.\<close>

definition listed :: "symbol list \<Rightarrow> (symbol \<Rightarrow> 'v option) \<Rightarrow> (symbol \<times> 'v) list" where
  "listed symbols m = List.map_filter (\<lambda>s. map_option (Pair s) (m s)) symbols"

section \<open>Quantities\<close>

definition asset_quantities_for ::
  "dec_ops \<Rightarrow> basket \<Rightarrow> amount \<Rightarrow> amounts result" where
  "asset_quantities_for D b q =
     (let m = collect_map (map_while (\<lambda>a. map_option (Pair (asset_symbol a)) (dec_mul D (quantity a) q))
                             (basket_assets b))
      in if length m \<noteq> length (basket_assets b) then Inl ''Failed to compute asset quantities''
         else Inr m)"

definition compute_quantities_for_order ::
  "dec_ops \<Rightarrow> simple_solver \<Rightarrow> (symbol \<times> basket) list \<Rightarrow> amounts \<Rightarrow> solver_order \<Rightarrow>
     (amount \<times> amounts) result" where
  "compute_quantities_for_order D S bs index_price_limits s =
     rbind (ok_or (map_of bs (s_symbol s)) ''Basket not found'') (\<lambda>b.
     rbind (ok_or (map_of index_price_limits (s_symbol s)) ''Can't find index price'') (\<lambda>index_price.
     rbind (ok_or (dec_add D (s_remaining_collateral s) (collateral_carried s))
       ''Carried collateral addition error'') (\<lambda>carried.
     rbind (ok_or (dec_div D carried (fee_factor S)) ''Fee factor division error'') (\<lambda>available.
     rbind (ok_or (dec_div D (min available (max_order_volley_size S)) index_price)
       ''Index order quantity computation error'') (\<lambda>q.
     rbind (asset_quantities_for D b q) (\<lambda>qs. Inr (q, qs)))))))"

definition cap_volley_size_for_order ::
  "dec_ops \<Rightarrow> amount \<Rightarrow> quantities \<Rightarrow> solver_order \<Rightarrow> (amount \<times> amounts) result" where
  "cap_volley_size_for_order D volley_fraction qs s =
     rbind (ok_or (map_of qs (order_key_of s)) ''Cannot find index order quantity'') (\<lambda>(q, aqs).
     rbind (ok_or (dec_mul D q volley_fraction) ''Cannot calculate capped order quantity'') (\<lambda>q'.
     rbind (try_map (\<lambda>(sy, aq). rbind (ok_or (dec_mul D aq volley_fraction)
         ''Failed to compute caped asset quantity'') (\<lambda>aq'. Inr (sy, aq'))) aqs) (\<lambda>aqs'.
       Inr (q', aqs'))))"

fun add_quantities :: "dec_ops \<Rightarrow> amounts \<Rightarrow> amounts \<Rightarrow> amounts result" where
  "add_quantities D [] res = Inr res"
| "add_quantities D ((sy, q) # qs) res =
     (case map_of res sy of
        None \<Rightarrow> add_quantities D qs (put_assoc sy q res)
      | Some current \<Rightarrow>
          rbind (ok_or (dec_add D current q) ''Math problem while summing up quantities'')
            (\<lambda>v. add_quantities D qs (put_assoc sy v res)))"

definition summarise_asset_quantities :: "dec_ops \<Rightarrow> quantities \<Rightarrow> amounts result" where
  "summarise_asset_quantities D qs = try_fold (\<lambda>res (_, _, aqs). add_quantities D aqs res) [] qs"

definition asset_volley_size ::
  "dec_ops \<Rightarrow> amounts \<Rightarrow> symbol \<times> amount \<Rightarrow> amount result" where
  "asset_volley_size D asset_prices entry =
     rbind (ok_or (map_of asset_prices (fst entry)) ''Cannot find price for an asset'') (\<lambda>price.
       ok_or (dec_mul D price (snd entry)) ''Cannot calculate volley size for an asset'')"

definition compute_volley_size :: "dec_ops \<Rightarrow> amounts \<Rightarrow> amounts \<Rightarrow> amount result" where
  "compute_volley_size D aqs asset_prices =
     try_fold (\<lambda>acc entry. rbind (asset_volley_size D asset_prices entry) (\<lambda>v.
        ok_or (dec_add D acc v) ''Cannot calculate total volley size for an asset'')) 0 aqs"

text \<open>The keys of the map walked are distinct, so that no insertion finds its key taken.\<close>

definition compute_asset_volley_size :: "dec_ops \<Rightarrow> amounts \<Rightarrow> amounts \<Rightarrow> amounts result" where
  "compute_asset_volley_size D aqs asset_prices =
     try_map (\<lambda>entry. rbind (asset_volley_size D asset_prices entry) (\<lambda>v. Inr (fst entry, v))) aqs"

section \<open>Contributions\<close>

text \<open>
  What one asset of an order lets the order buy: the order's share of the asset's liquidity, in
  proportion to the quantities all orders of the batch need of it.
\<close>

definition possible_order_quantity ::
  "dec_ops \<Rightarrow> simple_solver \<Rightarrow> amounts \<Rightarrow> amounts \<Rightarrow> amounts \<Rightarrow> amount \<Rightarrow> symbol \<times> amount \<Rightarrow> amount result" where
  "possible_order_quantity D S asset_prices liquidity totals order_quantity entry =
     (let (sy, q) = entry in
     rbind (ok_or (map_of liquidity sy) ''Failed to obtain total asset liquidity'') (\<lambda>l.
     rbind (ok_or (map_of asset_prices sy) ''Price of an asset must be known at this stage'') (\<lambda>p.
     rbind (ok_or (dec_mul D l p) ''Failed to compute total asset volume'') (\<lambda>volume.
     if volume < min_asset_volley_size S
     then Inl ''Failed to obtain non-zero total asset liquidity''
     else
       rbind (ok_or (map_of totals sy) ''Failed to obtain total asset quantity'') (\<lambda>total_quantity.
       rbind (ok_or (dec_div D q total_quantity) ''Failed to compute asset contribution fraction'') (\<lambda>f.
       rbind (ok_or (dec_mul D l f) ''Failed to compute asset liquidity contribution'') (\<lambda>c.
         ok_or (checked_math (dec_mul D c order_quantity) (\<lambda>x. dec_div D x q))
           ''Failed to compute possible order quantity'')))))))"

definition compute_contribution_for_order ::
  "dec_ops \<Rightarrow> simple_solver \<Rightarrow> amounts \<Rightarrow> amounts \<Rightarrow> amounts \<Rightarrow> quantities \<Rightarrow> solver_order \<Rightarrow> amount result" where
  "compute_contribution_for_order D S asset_prices liquidity totals qs s =
     rbind (ok_or (map_of qs (order_key_of s)) ''Missing asset quantities'') (\<lambda>(order_quantity, aqs).
       try_fold (\<lambda>fitting entry.
           rbind (possible_order_quantity D S asset_prices liquidity totals order_quantity entry)
             (\<lambda>possible. Inr (min fitting possible)))
         order_quantity aqs)"

definition compute_asset_contributions_for_order ::
  "dec_ops \<Rightarrow> (symbol \<times> basket) list \<Rightarrow> (order_key \<times> amount) list \<Rightarrow> solver_order \<Rightarrow>
     (amount \<times> amounts) result" where
  "compute_asset_contributions_for_order D bs contributions s =
     rbind (ok_or (map_of contributions (order_key_of s)) ''Missing order contribution'') (\<lambda>q.
     rbind (ok_or (map_of bs (s_symbol s)) ''Missing basket'') (\<lambda>b.
     rbind (try_map (\<lambda>a. rbind (ok_or (dec_mul D (quantity a) q)
         ''Failed to compute asset contribution quantity'') (\<lambda>aq. Inr (asset_symbol a, aq)))
         (basket_assets b)) (\<lambda>aqs.
       Inr (q, collect_map aqs))))"

definition compute_asset_contribution_fractions_for_order ::
  "dec_ops \<Rightarrow> amounts \<Rightarrow> quantities \<Rightarrow> solver_order \<Rightarrow> amounts result" where
  "compute_asset_contribution_fractions_for_order D totals qs s =
     rbind (ok_or (map_of qs (order_key_of s)) ''Missing asset quantities'') (\<lambda>(_, aqs).
       try_map (\<lambda>(sy, q).
           rbind (ok_or (map_of totals sy) ''Failed to obtain total asset quantity'') (\<lambda>t.
           rbind (ok_or (dec_div D q t) ''Failed to compute asset contribution fraction'') (\<lambda>f.
             Inr (sy, f)))) aqs)"

definition compute_quantities_for ::
  "dec_ops \<Rightarrow> simple_solver \<Rightarrow> (symbol \<times> basket) list \<Rightarrow> amounts \<Rightarrow> solver_order list \<Rightarrow> nat list \<Rightarrow>
     solver_order list \<times> nat list \<times> quantities \<times> nat list" where
  "compute_quantities_for D S bs index_price_limits heap batch =
     scan_order_batch InternalError (compute_quantities_for_order D S bs index_price_limits) heap batch []"

definition cap_volley_size ::
  "dec_ops \<Rightarrow> solver_order list \<Rightarrow> nat list \<Rightarrow> amount \<Rightarrow> amount \<Rightarrow> quantities \<Rightarrow>
     (solver_order list \<times> nat list \<times> quantities \<times> nat list) result" where
  "cap_volley_size D heap batch total_volley max_volley qs =
     (if total_volley < max_volley then Inr (heap, batch, qs, [])
      else rbind (ok_or (dec_div D max_volley total_volley) ''Failed to compute volley fraction'')
        (\<lambda>f. Inr (scan_order_batch InternalError (cap_volley_size_for_order D f qs) heap batch [])))"

text \<open>
  The order for one asset: at least the minimal volley, rounded up to whole steps. The quantity
  the padding adds is computed for the log only, and a failure to do so is a failure.
\<close>

definition pad_one :: "dec_ops \<Rightarrow> simple_solver \<Rightarrow> amounts \<Rightarrow> symbol \<times> amount \<Rightarrow> (symbol \<times> amount) result" where
  "pad_one D S asset_prices entry =
     (let (sy, volley) = entry in
     rbind (ok_or (map_of asset_prices sy) ''Cannot find price for an asset'') (\<lambda>price.
     rbind (ok_or (dec_div D volley price) ''Cannot calculate quantity for an asset'') (\<lambda>asset_quantity.
     rbind (ok_or (dec_div D (max volley (min_asset_volley_size S)) (asset_volley_step_size S))
       ''Cannot calculate k-steps for an asset'') (\<lambda>k.
     rbind (ok_or (dec_mul D (of_int \<lceil>k\<rceil>) (asset_volley_step_size S))
       ''Cannot calculate aligned size for an asset'') (\<lambda>aligned.
     rbind (ok_or (dec_div D aligned price) ''Cannot calculate quantity for an asset'') (\<lambda>q.
     rbind (ok_or (dec_sub D q asset_quantity) ''Cannot calculate quantity extra for an asset'') (\<lambda>_.
       Inr (sy, q))))))))"

definition pad_asset_volley_sizes ::
  "dec_ops \<Rightarrow> simple_solver \<Rightarrow> amounts \<Rightarrow> amounts \<Rightarrow> amounts result" where
  "pad_asset_volley_sizes D S asset_prices volleys = try_map (pad_one D S asset_prices) volleys"

definition compute_contributions_for ::
  "dec_ops \<Rightarrow> simple_solver \<Rightarrow> amounts \<Rightarrow> amounts \<Rightarrow> amounts \<Rightarrow> quantities \<Rightarrow> solver_order list \<Rightarrow> nat list \<Rightarrow>
     solver_order list \<times> nat list \<times> (order_key \<times> amount) list \<times> nat list" where
  "compute_contributions_for D S asset_prices liquidity totals qs heap batch =
     scan_order_batch InternalError (compute_contribution_for_order D S asset_prices liquidity totals qs) heap batch []"

definition compute_asset_contributions_for ::
  "dec_ops \<Rightarrow> (symbol \<times> basket) list \<Rightarrow> (order_key \<times> amount) list \<Rightarrow> solver_order list \<Rightarrow> nat list \<Rightarrow>
     solver_order list \<times> nat list \<times> quantities \<times> nat list" where
  "compute_asset_contributions_for D bs contributions heap batch =
     scan_order_batch InternalError (compute_asset_contributions_for_order D bs contributions) heap batch []"

definition compute_asset_contribution_fractions_for ::
  "dec_ops \<Rightarrow> amounts \<Rightarrow> quantities \<Rightarrow> solver_order list \<Rightarrow> nat list \<Rightarrow>
     solver_order list \<times> nat list \<times> (order_key \<times> amounts) list \<times> nat list" where
  "compute_asset_contribution_fractions_for D totals qs heap batch =
     scan_order_batch InternalError (compute_asset_contribution_fractions_for_order D totals qs) heap batch []"

section \<open>One side of a batch\<close>

text \<open>
  \<open>solve_engagements_for\<close>. First what the market allows: baskets, price limits, liquidity.
\<close>

definition market_for ::
  "dec_ops \<Rightarrow> simple_solver \<Rightarrow> strategy_host \<Rightarrow> side \<Rightarrow> (symbol \<times> basket) list \<Rightarrow>
     (amounts \<times> amounts \<times> amounts) result" where
  "market_for D S H sd bs =
     (let symbols = symbols_of bs in
     rbind (get_asset_price_limits D S H sd symbols) (\<lambda>(limits, missing).
     if missing \<noteq> [] then Inl ''Missing prices for assets: ''
     else
       rbind (host_liquidity H (opposite_side sd) limits) (\<lambda>liquidity.
       rbind (host_liquidity_levels H (opposite_side sd) (max_levels S) symbols) (\<lambda>lvs.
       rbind (cap_asset_liquidity D S (listed symbols lvs) (listed symbols liquidity) limits)
         (\<lambda>(liquidity', limits').
           (case get_index_price D bs limits' of
              (index_limits, []) \<Rightarrow> Inr (limits', liquidity', index_limits)
            | (_, _ # _) \<Rightarrow> Inl ''Missing prices for indexes: ''))))))"

text \<open>
  Then the quantities: what the collateral buys, cut down to a share of the liquidity. The last
  two lists are the orders that failed before and in the last walk.
\<close>

definition allocate ::
  "dec_ops \<Rightarrow> simple_solver \<Rightarrow> (symbol \<times> basket) list \<Rightarrow> amounts \<times> amounts \<times> amounts \<Rightarrow>
     solver_order list \<Rightarrow> nat list \<Rightarrow>
     solver_order list \<times> (nat list \<times> quantities \<times> amounts \<times> nat list \<times> nat list) result" where
  "allocate D S bs market heap batch =
     (let (limits, liquidity, index_limits) = market;
          (heap1, batch1, qs, bad1) = compute_quantities_for D S bs index_limits heap batch
      in case summarise_asset_quantities D qs of
           Inl e \<Rightarrow> (heap1, Inl e)
         | Inr totals \<Rightarrow>
             let (heap2, batch2, contributions, bad2) =
                   compute_contributions_for D S limits liquidity totals qs heap1 batch1;
                 (heap3, batch3, qs3, bad3) =
                   compute_asset_contributions_for D bs contributions heap2 batch2
             in (heap3, rbind (summarise_asset_quantities D qs3)
                          (\<lambda>totals3. Inr (batch3, qs3, totals3, bad1 @ bad2, bad3))))"

text \<open>
  Last the cap on the volley of the batch, the fractions by which fills are shared, and the orders
  for the assets, which are computed from the totals before the cap.
\<close>

definition distribute ::
  "dec_ops \<Rightarrow> simple_solver \<Rightarrow> amount \<Rightarrow> amounts \<Rightarrow> solver_order list \<Rightarrow> nat list \<Rightarrow> quantities \<Rightarrow>
     amounts \<Rightarrow>
     solver_order list \<times> (nat list \<times> amounts \<times> quantities \<times> (order_key \<times> amounts) list \<times> nat list \<times> nat list) result" where
  "distribute D S max_volley limits heap batch qs totals =
     (case rbind (compute_volley_size D totals limits)
             (\<lambda>volley. cap_volley_size D heap batch volley max_volley qs) of
        Inl e \<Rightarrow> (heap, Inl e)
      | Inr (heap4, batch4, qs4, bad4) \<Rightarrow>
          (let (heap5, batch5, fractions, bad5) =
                 compute_asset_contribution_fractions_for D totals qs4 heap4 batch4
           in (heap5,
               rbind (compute_asset_volley_size D totals limits) (\<lambda>volleys.
               rbind (pad_asset_volley_sizes D S limits volleys) (\<lambda>padded.
                 Inr (batch5, padded, qs4, fractions, bad4, bad5))))))"

definition share_out ::
  "dec_ops \<Rightarrow> simple_solver \<Rightarrow> amount \<Rightarrow> (symbol \<times> basket) list \<Rightarrow> amounts \<times> amounts \<times> amounts \<Rightarrow>
     solver_order list \<Rightarrow> nat list \<Rightarrow> nat list \<Rightarrow>
     solver_order list \<times> (nat list \<times> simple_solver_engagements \<times> nat list) result" where
  "share_out D S max_volley bs market heap batch bad_index_symbol =
     (case allocate D S bs market heap batch of
        (heap3, Inl e) \<Rightarrow> (heap3, Inl e)
      | (heap3, Inr (batch3, qs3, totals, bad12, bad3)) \<Rightarrow>
          (let (limits, liquidity, index_limits) = market
           in case distribute D S max_volley limits heap3 batch3 qs3 totals of
                (heap5, Inl e) \<Rightarrow> (heap5, Inl e)
              | (heap5, Inr (batch5, padded, qs4, fractions, bad4, bad5)) \<Rightarrow>
                  (heap5,
                   Inr (batch5,
                        \<lparr>e_baskets = bs, e_asset_price_limits = limits, e_index_price_limits = index_limits,
                         asset_order_quantities = padded, quantity_contributions = qs4,
                         contribution_fractions = fractions\<rparr>,
                        bad_index_symbol @ bad12 @ bad4 @ bad3 @ bad5))))"

definition solve_engagements_for ::
  "dec_ops \<Rightarrow> simple_solver \<Rightarrow> strategy_host \<Rightarrow> side \<Rightarrow> amount \<Rightarrow> solver_order list \<Rightarrow> nat list \<Rightarrow>
     solver_order list \<times> (nat list \<times> simple_solver_engagements \<times> nat list) result" where
  "solve_engagements_for D S H sd max_volley heap batch =
     (let (heap1, batch1, bs, bad) = get_baskets H heap batch []
      in case market_for D S H sd bs of
           Inl e \<Rightarrow> (heap1, Inl e)
         | Inr market \<Rightarrow> share_out D S max_volley bs market heap1 batch1 bad)"

definition engage ::
  "dec_ops \<Rightarrow> simple_solver \<Rightarrow> simple_solver_engagements \<Rightarrow> solver_order list \<Rightarrow> nat \<Rightarrow>
     (simple_solver_engagements \<times> engagement) result" where
  "engage D S e heap i =
     (let s = heap ! i; k = order_key_of s in
     rbind (ok_or (map_of (e_baskets e) (s_symbol s)) ''Missing basket'') (\<lambda>b.
     rbind (ok_or (map_of (e_index_price_limits e) (s_symbol s)) ''Missing index price'') (\<lambda>price.
     rbind (ok_or (map_of (quantity_contributions e) k) ''Missing quantity contributions'') (\<lambda>(q, aqs).
     rbind (ok_or (map_of (contribution_fractions e) k) ''Missing contribution fractions'') (\<lambda>fs.
     rbind (ok_or (checked_math (dec_mul D price q) (\<lambda>x. dec_mul D x (fee_factor S)))
       ''Failed to compute enagaged collateral'') (\<lambda>engaged.
     rbind (ok_or (dec_sub D engaged (collateral_carried s))
       ''Failed to compute new enagaged collateral'') (\<lambda>new_engaged.
       Inr (e\<lparr>quantity_contributions := filter (\<lambda>(k', _). k' \<noteq> k) (quantity_contributions e),
              contribution_fractions := filter (\<lambda>(k', _). k' \<noteq> k) (contribution_fractions e)\<rparr>,
            \<lparr>se_index_order = i, asset_contribution_fractions = map_of fs,
             asset_quantity_contributions = map_of aqs, se_chain_id = s_chain_id s,
             se_address = s_address s, se_client_order_id = s_client_order_id s,
             se_symbol = s_symbol s, se_basket = b, se_engaged_side = Buy,
             se_engaged_collateral = engaged, new_engaged_collateral = new_engaged,
             engaged_quantity = q, engaged_price = price, se_filled_quantity = 0\<rparr>))))))))"

fun engage_each ::
  "dec_ops \<Rightarrow> simple_solver \<Rightarrow> simple_solver_engagements \<Rightarrow> solver_order list \<Rightarrow> nat list \<Rightarrow>
     engagement list result" where
  "engage_each D S e heap [] = Inr []"
| "engage_each D S e heap (i # is) =
     rbind (engage D S e heap i) (\<lambda>(e', en).
     rbind (engage_each D S e' heap is) (\<lambda>ens. Inr (en # ens)))"

section \<open>The strategy\<close>

text \<open>Buys, then sells. Baskets found for sells are a \<open>todo!\<close>.\<close>

definition solve_sides ::
  "dec_ops \<Rightarrow> simple_solver \<Rightarrow> strategy_host \<Rightarrow> amount \<Rightarrow> solver_order list \<Rightarrow> nat list \<Rightarrow>
     solver_order list \<times> solve_engagements_result outcome" where
  "solve_sides D S H max_volley heap batch =
     (let buys = filter (\<lambda>i. s_side (heap ! i) = Buy) batch;
          sells = filter (\<lambda>i. s_side (heap ! i) = Sell) batch
      in case solve_engagements_for D S H Buy max_volley heap buys of
           (heap1, Inl e) \<Rightarrow> (heap1, Returns (Inl e))
         | (heap1, Inr (buys1, engaged_buys, failed_buys)) \<Rightarrow>
             (case solve_engagements_for D S H Sell max_volley heap1 sells of
                (heap2, Inl e) \<Rightarrow> (heap2, Returns (Inl e))
              | (heap2, Inr (sells2, engaged_sells, failed_sells)) \<Rightarrow>
                  if e_baskets engaged_sells \<noteq> [] then (heap2, Panic)
                  else (heap2, Returns (rbind (engage_each D S engaged_buys heap2 buys1) (\<lambda>ens.
                    Inr \<lparr>engaged_solver_orders_of =
                            \<lparr>es_batch_order_id = host_batch_order_id H,
                             asset_price_limits = map_of (e_asset_price_limits engaged_buys),
                             asset_quantities = asset_order_quantities engaged_buys,
                             engaged_orders = ens\<rparr>,
                         failed_orders = failed_buys @ failed_sells\<rparr>)))))"

text \<open>\<open>None\<close> when the volley in flight leaves too little for another batch.\<close>

definition solve_engagements ::
  "dec_ops \<Rightarrow> simple_solver \<Rightarrow> strategy_host \<Rightarrow> solver_order list \<Rightarrow> nat list \<Rightarrow>
     solver_order list \<times> solve_engagements_result option outcome" where
  "solve_engagements D S H heap batch =
     (case rbind (host_total_volley_size H) (\<lambda>in_flight.
             ok_or (dec_sub D (max_total_volley_size S) in_flight)
               ''Math error while calculating remaining volley size'') of
        Inl e \<Rightarrow> (heap, Returns (Inl e))
      | Inr remaining \<Rightarrow>
          if remaining < min_total_volley_available S then (heap, Returns (Inr None))
          else (case solve_sides D S H (min (max_volley_size S) remaining) heap batch of
                  (heap', x) \<Rightarrow> (heap', obind x (\<lambda>r. Returns (Inr (Some r))))))"

text \<open>How much collateral each asset of an order's basket needs.\<close>

definition query_collateral_management ::
  "dec_ops \<Rightarrow> simple_solver \<Rightarrow> strategy_host \<Rightarrow> solver_order \<Rightarrow> collateral_management result" where
  "query_collateral_management D S H s =
     rbind (ok_or (host_basket H (s_symbol s)) ''Basket not found'') (\<lambda>b.
     rbind (get_asset_price_limits D S H (s_side s) (remdups (map asset_symbol (basket_assets b))))
       (\<lambda>(asset_prices, missing).
     if missing \<noteq> [] then Inl ''Missing symbols''
     else
       rbind (ok_or (checked_math (dec_div D (s_remaining_collateral s) (fee_factor S))
           (\<lambda>x. dec_add D x (collateral_carried s))) ''Fee factor multiplication error'') (\<lambda>available.
       rbind (get_current_price D b (map_of asset_prices)) (\<lambda>index_price.
       rbind (try_map (\<lambda>a.
           rbind (ok_or (map_of asset_prices (asset_symbol a)) ''Missing asset price'') (\<lambda>p.
           rbind (ok_or (dec_div D index_price p) ''Failed to compute asset contribution'') (\<lambda>c.
           rbind (ok_or (dec_mul D available c) ''Failed to compute asset requirement'') (\<lambda>r.
             Inr (asset_symbol a, r))))) (basket_assets b)) (\<lambda>requirements.
         Inr \<lparr>m_chain_id = s_chain_id s, m_address = s_address s,
              m_client_order_id = s_client_order_id s, m_symbol = s_symbol s, m_side = s_side s,
              m_collateral_amount = s_remaining_collateral s,
              m_asset_requirements = collect_map requirements\<rparr>)))))"

fun quote_each ::
  "dec_ops \<Rightarrow> simple_solver \<Rightarrow> amounts \<Rightarrow> solver_quote list \<Rightarrow> nat list \<Rightarrow>
     solver_quote list \<times> (nat list \<times> nat list) result" where
  "quote_each D S index_limits heap [] = (heap, Inr ([], []))"
| "quote_each D S index_limits heap (i # is) =
     (let q = heap ! i
      in case map_of index_limits (q_symbol q) of
           None \<Rightarrow>
             (case quote_each D S index_limits
                     (heap[i := set_quote_status q QuoteServiceUnavailable]) is of
                (heap', r) \<Rightarrow> (heap', rbind r (\<lambda>(solved, failed). Inr (solved, i # failed))))
         | Some price \<Rightarrow>
             (case rbind (ok_or (dec_div D (q_collateral_amount q) (fee_factor S))
                     ''Fee factor multiplication error'')
                   (\<lambda>available. ok_or (dec_div D available price) ''Index price division error'') of
                Inl e \<Rightarrow> (heap, Inl e)
              | Inr possible \<Rightarrow>
                  (case quote_each D S index_limits
                          (heap[i := set_quote_status (q\<lparr>q_quantity_possible := possible\<rparr>) QuoteReady]) is of
                     (heap', r) \<Rightarrow> (heap', rbind r (\<lambda>(solved, failed). Inr (i # solved, failed))))))"

text \<open>The quotes without a basket are in neither list of the result.\<close>

definition solve_quotes_for ::
  "dec_ops \<Rightarrow> simple_solver \<Rightarrow> strategy_host \<Rightarrow> side \<Rightarrow> solver_quote list \<Rightarrow> nat list \<Rightarrow>
     solver_quote list \<times> (nat list \<times> nat list) result" where
  "solve_quotes_for D S H sd heap batch =
     (let (heap1, batch1, bs, _) = get_baskets_from_quotes H heap batch []
      in case get_asset_price_limits D S H sd (symbols_of bs) of
           Inl e \<Rightarrow> (heap1, Inl e)
         | Inr (limits, _) \<Rightarrow> quote_each D S (fst (get_index_price D bs limits)) heap1 batch1)"

definition solve_quotes ::
  "dec_ops \<Rightarrow> simple_solver \<Rightarrow> strategy_host \<Rightarrow> solver_quote list \<Rightarrow> nat list \<Rightarrow>
     solver_quote list \<times> (nat list \<times> nat list) result" where
  "solve_quotes D S H heap batch =
     (case solve_quotes_for D S H Buy heap (filter (\<lambda>i. q_side (heap ! i) = Buy) batch) of
        (heap1, Inl e) \<Rightarrow> (heap1, Inl e)
      | (heap1, Inr (solved_buys, failed_buys)) \<Rightarrow>
          (case solve_quotes_for D S H Sell heap1 (filter (\<lambda>i. q_side (heap ! i) = Sell) batch) of
             (heap2, Inl e) \<Rightarrow> (heap2, Inl e)
           | (heap2, Inr (solved_sells, failed_sells)) \<Rightarrow>
               (heap2, Inr (solved_buys @ solved_sells, failed_buys @ failed_sells))))"

end
