(* ===== verification/SolverStrategy.thy ===== *)
theory SolverStrategy
  imports SimpleSolver
begin

text \<open>
  What the strategy of \<open>SimpleSolver\<close> guarantees: a batch is divided into engaged and failed orders,
  a walk over a batch changes nothing but statuses of orders that fail, the quantities engaged fit
  the collateral of each order and the liquidity of each asset, the fractions by which fills are
  shared add up, and the padded asset orders are whole steps of at least the minimal volley. The
  interface \<open>strategy\<close> is what the solver relies on whatever its strategy.
\<close>

section \<open>Walks over a batch partition it\<close>

lemma scan_partition:
  "scan_order_batch st f heap batch good = (heap', kept, good', bad) \<Longrightarrow> mset kept + mset bad = mset batch"
proof (induction batch arbitrary: heap good heap' kept good' bad)
  case (Cons i batch)
  from Cons.prems show ?case
    by (auto split: sum.splits prod.splits dest!: Cons.IH)
qed simp

text \<open>A walk changes nothing but statuses, and those of failed orders only.\<close>

definition restated :: "nat set \<Rightarrow> solver_order list \<Rightarrow> solver_order list \<Rightarrow> bool" where
  "restated is heap heap' \<longleftrightarrow> length heap' = length heap \<and>
     (\<forall>j. \<exists>st. heap' ! j = set_order_status (heap ! j) st \<and> (j \<notin> is \<longrightarrow> heap' ! j = heap ! j))"

lemma set_order_status_self: "set_order_status s (s_status s) = s"
  by (simp add: set_order_status_def)

lemma set_order_status_twice [simp]: "set_order_status (set_order_status s a) b = set_order_status s b"
  by (simp add: set_order_status_def)

lemma restated_refl [intro]: "restated is heap heap"
  unfolding restated_def using set_order_status_self by metis

lemma some_status: "\<exists>st. s = set_order_status s st"
  using set_order_status_self by metis

lemma restated_one [intro]: "i \<in> is \<Longrightarrow> restated is heap (heap[i := set_order_status (heap ! i) st])"
  by (cases "i < length heap")
    (auto simp: restated_def nth_list_update list_update_beyond some_status)

lemma restated_mono: "restated is heap heap' \<Longrightarrow> is \<subseteq> js \<Longrightarrow> restated js heap heap'"
  unfolding restated_def by (meson subsetD)

lemma restated_trans: "restated is a b \<Longrightarrow> restated is b c \<Longrightarrow> restated is a c"
  unfolding restated_def by (metis set_order_status_twice)

lemma restated_update:
  "restated is (heap[i := set_order_status (heap ! i) st]) heap' \<Longrightarrow> i \<in> js \<Longrightarrow> is \<subseteq> js \<Longrightarrow> restated js heap heap'"
  by (meson restated_mono restated_one restated_trans)

lemma scan_restates:
  "scan_order_batch st f heap batch good = (heap', kept, good', bad) \<Longrightarrow> restated (set batch) heap heap'"
proof (induction batch arbitrary: heap good heap' kept good' bad)
  case (Cons i batch)
  from Cons.prems show ?case
    by (auto split: sum.splits prod.splits dest!: Cons.IH elim: restated_update restated_mono)
qed auto

lemma get_baskets_partition:
  "get_baskets H heap batch bs = (heap', kept, bs', bad) \<Longrightarrow>
     mset kept + mset bad = mset batch \<and> restated (set batch) heap heap'"
proof (induction batch arbitrary: heap bs heap' kept bs' bad)
  case (Cons i batch)
  from Cons.prems show ?case
    by (auto simp: Let_def split: option.splits prod.splits dest!: Cons.IH
        elim: restated_update restated_mono)
qed auto

lemma or_insert_not_Nil [simp]: "or_insert k v m \<noteq> []"
  by (cases m) (auto simp: or_insert_def)

lemma get_baskets_Nil:
  "get_baskets H heap batch bs = (heap', kept, [], bad) \<Longrightarrow> kept = [] \<and> bs = []"
proof (induction batch arbitrary: heap bs heap' kept bad)
  case (Cons i batch)
  from Cons.prems show ?case
    by (auto simp: Let_def split: option.splits prod.splits dest: Cons.IH)
qed simp

text \<open>What a walk gives each order it keeps, when the orders have distinct names.\<close>

lemma put_assoc_fresh: "k \<notin> fst ` set m \<Longrightarrow> put_assoc k v m = m @ [(k, v)]"
  by (induction m) auto

lemma keys_elsewhere:
  assumes "distinct (map (\<lambda>i. order_key_of (heap ! i)) (i # batch))" "j \<in> set batch"
  shows "heap[i := s] ! j = heap ! j"
proof -
  from assms have "i \<noteq> j" by auto
  then show ?thesis by simp
qed

lemma scan_good:
  assumes "scan_order_batch st f heap batch good = (heap', kept, good', bad)"
    and "distinct (map (\<lambda>i. order_key_of (heap ! i)) batch)"
    and "\<forall>i\<in>set batch. order_key_of (heap ! i) \<notin> fst ` set good"
  shows "kept = filter (\<lambda>i. \<not> isl (f (heap ! i))) batch \<and>
    good' = good @ map (\<lambda>i. (order_key_of (heap ! i), projr (f (heap ! i)))) kept \<and>
    (\<forall>i\<in>set kept. heap' ! i = heap ! i)"
  using assms
proof (induction batch arbitrary: heap good heap' kept good' bad)
  case (Cons i batch)
  show ?case
  proof (cases "f (heap ! i)")
    case (Inl e)
    define h where "h = heap[i := set_order_status (heap ! i) st]"
    from Inl Cons.prems(1) obtain kept1 bad1 where rest:
      "scan_order_batch st f h batch good = (heap', kept1, good', bad1)" "kept = kept1" "bad = i # bad1"
      by (auto simp: h_def split: prod.splits)
    have same: "h ! j = heap ! j" if "j \<in> set batch" for j
      using keys_elsewhere [OF Cons.prems(2) that] by (simp add: h_def)
    have "map (\<lambda>j. order_key_of (h ! j)) batch = map (\<lambda>j. order_key_of (heap ! j)) batch"
      using same by (intro map_cong) auto
    with Cons.prems(2) have d: "distinct (map (\<lambda>j. order_key_of (h ! j)) batch)"
      by (metis distinct.simps(2) list.simps(9))
    have n: "\<forall>j\<in>set batch. order_key_of (h ! j) \<notin> fst ` set good"
      using Cons.prems(3) same by simp
    have f: "filter (\<lambda>j. \<not> isl (f (h ! j))) batch = filter (\<lambda>j. \<not> isl (f (heap ! j))) batch"
      using same by (intro filter_cong) auto
    have "map (\<lambda>j. (order_key_of (h ! j), projr (f (h ! j)))) kept1 =
      map (\<lambda>j. (order_key_of (heap ! j), projr (f (heap ! j)))) kept1"
      using Cons.IH [OF rest(1) d n] same by (intro map_cong) auto
    moreover have "kept1 = filter (\<lambda>j. \<not> isl (f (heap ! j))) batch"
      using Cons.IH [OF rest(1) d n] f by metis
    moreover have "good' = good @ map (\<lambda>j. (order_key_of (h ! j), projr (f (h ! j)))) kept1"
      using Cons.IH [OF rest(1) d n] by metis
    moreover have "\<forall>j\<in>set kept1. heap' ! j = heap ! j"
      using Cons.IH [OF rest(1) d n] same f by (metis filter_is_subset subsetD)
    ultimately show ?thesis using rest(2) Inl by simp
  next
    case (Inr r)
    let ?g = "good @ [(order_key_of (heap ! i), r)]"
    from Cons.prems(3) have "put_assoc (order_key_of (heap ! i)) r good = ?g" by (intro put_assoc_fresh) simp
    with Inr Cons.prems(1) obtain kept1 bad1 where rest:
      "scan_order_batch st f heap batch ?g = (heap', kept1, good', bad1)" "kept = i # kept1"
      by (auto split: prod.splits)
    have n: "\<forall>j\<in>set batch. order_key_of (heap ! j) \<notin> fst ` set ?g"
    proof
      fix j assume j: "j \<in> set batch"
      from Cons.prems(2) have "order_key_of (heap ! i) \<notin> (\<lambda>i. order_key_of (heap ! i)) ` set batch" by simp
      with imageI [OF j, of "\<lambda>i. order_key_of (heap ! i)"]
      have "order_key_of (heap ! j) \<noteq> order_key_of (heap ! i)" by auto
      with Cons.prems(3) j show "order_key_of (heap ! j) \<notin> fst ` set ?g" by simp
    qed
    have "distinct (map (\<lambda>i. order_key_of (heap ! i)) batch)" using Cons.prems(2) by simp
    from Cons.IH [OF rest(1) this n] have IH: "kept1 = filter (\<lambda>i. \<not> isl (f (heap ! i))) batch"
      "good' = ?g @ map (\<lambda>i. (order_key_of (heap ! i), projr (f (heap ! i)))) kept1"
      "\<forall>j\<in>set kept1. heap' ! j = heap ! j" by metis+
    have "i \<notin> set batch" using Cons.prems(2) by auto
    with scan_restates [OF rest(1)] have "heap' ! i = heap ! i" by (auto simp: restated_def)
    with IH rest(2) Inr show ?thesis by simp
  qed
qed simp

lemmas walk_hints = compute_quantities_for_def compute_contributions_for_def
  compute_asset_contributions_for_def compute_asset_contribution_fractions_for_def

section \<open>A batch is engaged or failed\<close>

lemma cap_partition:
  "cap_volley_size D heap batch v mx qs = Inr (heap', kept, qs', bad) \<Longrightarrow>
     mset kept + mset bad = mset batch \<and> restated (set batch) heap heap'"
  by (auto simp: cap_volley_size_def result_simps dest: scan_partition scan_restates split: if_splits)

lemma kept_subset: "mset kept + mset bad = mset batch \<Longrightarrow> set kept \<subseteq> set batch"
  by (metis mset_subset_eq_add_left set_mset_mono set_mset_mset)

lemma allocate_partition:
  assumes "allocate D S bs market heap batch = (heap', r)"
  shows "restated (set batch) heap heap' \<and>
    (\<forall>kept qs totals bad bad'. r = Inr (kept, qs, totals, bad, bad') \<longrightarrow> mset kept + mset bad + mset bad' = mset batch)"
proof -
  obtain limits liquidity index_limits where market: "market = (limits, liquidity, index_limits)"
    by (cases market) auto
  obtain heap1 batch1 qs bad1 where 1: "compute_quantities_for D S bs index_limits heap batch = (heap1, batch1, qs, bad1)"
    by (metis prod_cases4)
  note p1 = scan_partition [OF 1 [unfolded walk_hints]] and r1 = scan_restates [OF 1 [unfolded walk_hints]]
  show ?thesis
  proof (cases "summarise_asset_quantities D qs")
    case (Inl e)
    with assms market 1 r1 show ?thesis by (auto simp: allocate_def)
  next
    case t: (Inr totals)
    obtain heap2 batch2 cs bad2 where 2: "compute_contributions_for D S limits liquidity totals qs heap1 batch1 = (heap2, batch2, cs, bad2)"
      by (metis prod_cases4)
    note p2 = scan_partition [OF 2 [unfolded walk_hints]] and r2 = scan_restates [OF 2 [unfolded walk_hints]]
    obtain heap3 batch3 qs3 bad3 where 3: "compute_asset_contributions_for D bs cs heap2 batch2 = (heap3, batch3, qs3, bad3)"
      by (metis prod_cases4)
    note p3 = scan_partition [OF 3 [unfolded walk_hints]] and r3 = scan_restates [OF 3 [unfolded walk_hints]]
    have sub: "set batch1 \<subseteq> set batch" "set batch2 \<subseteq> set batch"
      using kept_subset [OF p1] kept_subset [OF p2] by auto
    have "restated (set batch) heap heap3"
      using r1 restated_mono [OF r2 sub(1)] restated_mono [OF r3 sub(2)] by (blast intro: restated_trans)
    moreover have "heap' = heap3" "r = rbind (summarise_asset_quantities D qs3) (\<lambda>totals3. Inr (batch3, qs3, totals3, bad1 @ bad2, bad3))"
      using assms by (simp_all add: allocate_def market 1 2 3 t)
    ultimately show ?thesis using p1 p2 p3 by (auto simp: result_simps ac_simps)
  qed
qed

lemma distribute_partition:
  assumes "distribute D S mv limits heap batch qs totals = (heap', r)"
  shows "restated (set batch) heap heap' \<and>
    (\<forall>kept padded qs' fs bad bad'. r = Inr (kept, padded, qs', fs, bad, bad') \<longrightarrow>
       mset kept + mset bad + mset bad' = mset batch)"
proof (cases "rbind (compute_volley_size D totals limits) (\<lambda>volley. cap_volley_size D heap batch volley mv qs)")
  case (Inl e)
  with assms show ?thesis by (auto simp: distribute_def)
next
  case (Inr x)
  then obtain volley heap4 batch4 qs4 bad4 where 4: "cap_volley_size D heap batch volley mv qs = Inr (heap4, batch4, qs4, bad4)"
    "x = (heap4, batch4, qs4, bad4)"
    by (auto simp: result_simps) (metis prod_cases4)
  note c = cap_partition [OF 4(1)]
  obtain heap5 batch5 fs bad5 where 5: "compute_asset_contribution_fractions_for D totals qs4 heap4 batch4 = (heap5, batch5, fs, bad5)"
    by (metis prod_cases4)
  note p5 = scan_partition [OF 5 [unfolded walk_hints]] and r5 = scan_restates [OF 5 [unfolded walk_hints]]
  have "restated (set batch) heap heap5"
    using c restated_mono [OF r5] kept_subset by (blast intro: restated_trans)
  moreover have "heap' = heap5" "r = rbind (compute_asset_volley_size D totals limits) (\<lambda>volleys.
     rbind (pad_asset_volley_sizes D S limits volleys) (\<lambda>padded. Inr (batch5, padded, qs4, fs, bad4, bad5)))"
    using assms Inr 4(2) by (simp_all add: distribute_def 5)
  ultimately show ?thesis using c p5 by (auto simp: result_simps ac_simps)
qed

lemma share_out_partition:
  assumes "share_out D S mv bs market heap batch bad0 = (heap', r)"
  shows "restated (set batch) heap heap' \<and>
    (\<forall>kept e bad. r = Inr (kept, e, bad) \<longrightarrow> mset kept + mset bad = mset batch + mset bad0 \<and>
      set kept \<subseteq> set batch \<and> e_baskets e = bs)"
proof -
  obtain limits liquidity index_limits where market: "market = (limits, liquidity, index_limits)"
    by (cases market) auto
  obtain heap3 a where 3: "allocate D S bs market heap batch = (heap3, a)" by fastforce
  note p3 = allocate_partition [OF this]
  show ?thesis
  proof (cases a)
    case (Inl e)
    with assms 3 p3 show ?thesis by (auto simp: share_out_def)
  next
    case (Inr x)
    then obtain batch3 qs3 totals bad12 bad3 where x: "a = Inr (batch3, qs3, totals, bad12, bad3)"
      by (metis prod_cases5)
    then have m3: "mset batch3 + mset bad12 + mset bad3 = mset batch" using p3 by blast
    then have sub: "set batch3 \<subseteq> set batch"
      by (metis kept_subset mset_append add.assoc)
    obtain heap5 y where 5: "distribute D S mv limits heap3 batch3 qs3 totals = (heap5, y)" by fastforce
    note p5 = distribute_partition [OF this]
    have "restated (set batch) heap heap5"
      using p3 p5 restated_mono [OF _ sub] by (blast intro: restated_trans)
    moreover have "heap' = heap5" using assms
      by (auto simp: share_out_def 3 [unfolded market] x market 5 split: sum.splits)
    moreover have "mset kept + mset bad = mset batch + mset bad0 \<and> set kept \<subseteq> set batch \<and> e_baskets e = bs"
      if "r = Inr (kept, e, bad)" for kept e bad
    proof -
      from assms that obtain padded qs4 fs bad4 bad5 where y: "y = Inr (kept, padded, qs4, fs, bad4, bad5)"
        "bad = bad0 @ bad12 @ bad4 @ bad3 @ bad5" "e_baskets e = bs"
        by (auto simp: share_out_def 3 [unfolded market] x market 5 split: sum.splits)
      with p5 have m5: "mset kept + mset bad4 + mset bad5 = mset batch3" by blast
      then have "set kept \<subseteq> set batch3" by (metis kept_subset mset_append add.assoc)
      with sub y m3 [symmetric] m5 [symmetric] show ?thesis by (auto simp: ac_simps)
    qed
    ultimately show ?thesis by blast
  qed
qed

lemma solve_engagements_for_partition:
  assumes "solve_engagements_for D S H sd mv heap batch = (heap', r)"
  shows "restated (set batch) heap heap' \<and>
    (\<forall>kept e bad. r = Inr (kept, e, bad) \<longrightarrow> mset kept + mset bad = mset batch \<and> (e_baskets e = [] \<longrightarrow> kept = []))"
proof -
  obtain heap1 batch1 bs bad1 where 1: "get_baskets H heap batch [] = (heap1, batch1, bs, bad1)"
    by (metis prod_cases4)
  note p1 = get_baskets_partition [OF 1]
  show ?thesis
  proof (cases "market_for D S H sd bs")
    case (Inl e)
    with assms 1 p1 show ?thesis by (auto simp: solve_engagements_for_def)
  next
    case (Inr market)
    with assms 1 have run: "share_out D S mv bs market heap1 batch1 bad1 = (heap', r)"
      by (simp add: solve_engagements_for_def)
    note p2 = share_out_partition [OF this]
    have "restated (set batch) heap heap'"
      using p1 restated_mono [OF conjunct1 [OF p2] kept_subset [OF conjunct1 [OF p1]]] restated_trans by blast
    moreover have "kept = []" if "r = Inr (kept, e, bad)" "e_baskets e = []" for kept e bad
    proof -
      from that p2 have "bs = []" "set kept \<subseteq> set batch1" by blast+
      moreover from this(1) 1 have "batch1 = []" by (simp add: get_baskets_Nil)
      ultimately show ?thesis by simp
    qed
    moreover have "mset kept + mset bad = mset batch" if "r = Inr (kept, e, bad)" for kept e bad
      using that p2 p1 by metis
    ultimately show ?thesis by blast
  qed
qed

lemma engage_index: "engage D S e heap i = Inr (e', en) \<Longrightarrow> se_index_order en = i \<and>
    se_address en = s_address (heap ! i) \<and> se_client_order_id en = s_client_order_id (heap ! i)"
  by (auto simp: engage_def result_simps Let_def)

lemma engage_orders_index: "engage_each D S e heap is = Inr ens \<Longrightarrow> map se_index_order ens = is"
  by (induction "is" arbitrary: e ens) (auto simp: result_simps dest: engage_index)

text \<open>What a success of the strategy consists of.\<close>

lemma solve_sides_Inr:
  assumes "solve_sides D S H mv heap batch = (heap', Returns (Inr r))"
  obtains heap1 buys eb fb es fs where
    "solve_engagements_for D S H Buy mv heap (filter (\<lambda>i. s_side (heap ! i) = Buy) batch) = (heap1, Inr (buys, eb, fb))"
    "solve_engagements_for D S H Sell mv heap1 (filter (\<lambda>i. s_side (heap ! i) = Sell) batch) = (heap', Inr ([], es, fs))"
    "engage_each D S eb heap' buys = Inr (engaged_orders (engaged_solver_orders_of r))"
    "asset_quantities (engaged_solver_orders_of r) = asset_order_quantities eb"
    "asset_price_limits (engaged_solver_orders_of r) = map_of (e_asset_price_limits eb)"
    "es_batch_order_id (engaged_solver_orders_of r) = host_batch_order_id H"
    "failed_orders r = fb @ fs"
proof -
  note run = assms [unfolded solve_sides_def Let_def]
  obtain heap1 x where x: "solve_engagements_for D S H Buy mv heap (filter (\<lambda>i. s_side (heap ! i) = Buy) batch) = (heap1, x)"
    by fastforce
  with run obtain y where "x = Inr y" by (cases x) auto
  then obtain buys eb fb where
    4: "solve_engagements_for D S H Buy mv heap (filter (\<lambda>i. s_side (heap ! i) = Buy) batch) = (heap1, Inr (buys, eb, fb))"
    using x by (cases y) auto
  obtain heap2 z where z: "solve_engagements_for D S H Sell mv heap1 (filter (\<lambda>i. s_side (heap ! i) = Sell) batch) = (heap2, z)"
    by fastforce
  with run 4 obtain y where "z = Inr y" by (cases z) auto
  then obtain sells es fs where
    5: "solve_engagements_for D S H Sell mv heap1 (filter (\<lambda>i. s_side (heap ! i) = Sell) batch) = (heap2, Inr (sells, es, fs))"
    using z by (cases y) auto
  have 6: "e_baskets es = []" and h: "heap' = heap2"
    using run 4 5 by (auto split: if_splits)
  with 5 solve_engagements_for_partition have 7: "sells = []" by blast
  obtain ens where 8: "engage_each D S eb heap2 buys = Inr ens"
    "r = \<lparr>engaged_solver_orders_of = \<lparr>es_batch_order_id = host_batch_order_id H,
            asset_price_limits = map_of (e_asset_price_limits eb),
            asset_quantities = asset_order_quantities eb, engaged_orders = ens\<rparr>, failed_orders = fb @ fs\<rparr>"
    using run 4 5 6 by (auto simp: result_simps)
  show ?thesis
    by (rule that [OF 4 5 [unfolded 7 h [symmetric]]]) (use 8 h in simp_all)
qed

lemma solve_engagements_Some:
  assumes "solve_engagements D S H heap batch = (heap', Returns (Inr (Some r)))"
  obtains in_flight remaining where
    "host_total_volley_size H = Inr in_flight"
    "dec_sub D (max_total_volley_size S) in_flight = Some remaining"
    "min_total_volley_available S \<le> remaining"
    "solve_sides D S H (min (max_volley_size S) remaining) heap batch = (heap', Returns (Inr r))"
proof -
  obtain remaining where r: "rbind (host_total_volley_size H) (\<lambda>in_flight.
      ok_or (dec_sub D (max_total_volley_size S) in_flight)
        ''Math error while calculating remaining volley size'') = Inr remaining"
    using assms by (auto simp: solve_engagements_def split: sum.splits)
  then have "\<not> remaining < min_total_volley_available S" using assms by (auto simp: solve_engagements_def)
  moreover obtain x where x: "solve_sides D S H (min (max_volley_size S) remaining) heap batch = (heap', x)"
    "obind x (\<lambda>r. Returns (Inr (Some r))) = Returns (Inr (Some r))"
    using assms r calculation by (auto simp: solve_engagements_def split: prod.splits)
  have "x = Returns (Inr r)" using x(2) by (induction x "\<lambda>r. Returns (Inr (Some r) :: solve_engagements_result option result)" rule: obind.induct) auto
  ultimately show ?thesis using r x(1) that by (auto simp: result_simps)
qed

lemma filter_sides: "mset (filter (\<lambda>i. s_side (h ! i) = Buy) xs) + mset (filter (\<lambda>i. s_side (h ! i) = Sell) xs) = mset xs"
proof -
  have "(\<lambda>i. s_side (h ! i) = Sell) = (\<lambda>i. s_side (h ! i) \<noteq> Buy)" by (metis side.exhaust side.distinct(1))
  then show ?thesis by (metis multiset_partition mset_filter)
qed

lemma solve_sides_accounts:
  assumes "solve_sides D S H mv heap batch = (heap', Returns (Inr r))"
  shows "mset (map se_index_order (engaged_orders (engaged_solver_orders_of r))) + mset (failed_orders r) = mset batch"
  using assms
proof (rule solve_sides_Inr)
  fix heap1 buys eb fb es fs
  assume 1: "solve_engagements_for D S H Buy mv heap (filter (\<lambda>i. s_side (heap ! i) = Buy) batch) = (heap1, Inr (buys, eb, fb))"
    and 2: "solve_engagements_for D S H Sell mv heap1 (filter (\<lambda>i. s_side (heap ! i) = Sell) batch) = (heap', Inr ([], es, fs))"
    and 3: "engage_each D S eb heap' buys = Inr (engaged_orders (engaged_solver_orders_of r))"
    and 4: "failed_orders r = fb @ fs"
  from 1 have "mset buys + mset fb = mset (filter (\<lambda>i. s_side (heap ! i) = Buy) batch)"
    using solve_engagements_for_partition by blast
  moreover from 2 have "mset fs = mset (filter (\<lambda>i. s_side (heap ! i) = Sell) batch)"
    using solve_engagements_for_partition by fastforce
  moreover have "mset (map se_index_order (engaged_orders (engaged_solver_orders_of r))) + mset (failed_orders r) =
      mset buys + mset fb + mset fs"
    using engage_orders_index [OF 3] 4 by simp
  ultimately show ?thesis using filter_sides [of heap batch] by metis
qed

section \<open>Sums over the maps of a batch\<close>

lemma collect_map_snoc: "collect_map (kvs @ [(k, v)]) = put_assoc k v (collect_map kvs)"
  by (simp add: collect_map_def)

lemma length_put_assoc: "length (put_assoc k v m) = (if k \<in> fst ` set m then length m else Suc (length m))"
  by (induction m) (force split: if_splits)+

lemma collect_map_keys: "fst ` set (collect_map kvs) = fst ` set kvs"
proof (induction kvs rule: rev_induct)
  case (snoc x kvs)
  then show ?case by (cases x) (simp add: collect_map_snoc put_assoc_keys)
qed (simp add: collect_map_def)

lemma length_collect_map: "length (collect_map kvs) = card (fst ` set kvs)"
proof (induction kvs rule: rev_induct)
  case (snoc x kvs)
  then show ?case
    by (cases x) (simp add: collect_map_snoc length_put_assoc collect_map_keys card_insert_if)
qed (simp add: collect_map_def)

lemma collect_map_distinct: "distinct (map fst kvs) \<Longrightarrow> collect_map kvs = kvs"
proof (induction kvs rule: rev_induct)
  case (snoc x kvs)
  then show ?case by (cases x) (simp add: collect_map_snoc put_assoc_fresh)
qed (simp add: collect_map_def)

lemma collect_map_full: "length (collect_map kvs) = length kvs \<Longrightarrow> distinct (map fst kvs) \<and> collect_map kvs = kvs"
  using collect_map_distinct card_distinct [of "map fst kvs"] by (auto simp: length_collect_map)

lemma map_while_full: "length (map_while f xs) = length xs \<Longrightarrow> \<forall>x\<in>set xs. f x \<noteq> None"
  by (induction xs) (auto split: option.splits)

lemma map_while_Some: "\<forall>x\<in>set xs. f x \<noteq> None \<Longrightarrow> map_while f xs = map (\<lambda>x. the (f x)) xs"
  by (induction xs) auto

lemma length_map_while: "length (map_while f xs) \<le> length xs"
  by (induction xs) (auto split: option.splits)

lemma try_map_Inr: "try_map f xs = Inr ys \<longleftrightarrow> list_all2 (\<lambda>x y. f x = Inr y) xs ys"
  by (induction xs arbitrary: ys) (auto simp: result_simps list_all2_Cons1)

definition amount_at :: "symbol \<Rightarrow> amounts \<Rightarrow> amount" where
  "amount_at a m = (case map_of m a of None \<Rightarrow> 0 | Some q \<Rightarrow> q)"

lemma amount_at_put [simp]: "amount_at a (put_assoc k v m) = (if a = k then v else amount_at a m)"
  by (simp add: amount_at_def map_of_put_assoc)

lemma amount_at_Cons: "amount_at a ((k, v) # m) = (if a = k then v else amount_at a m)"
  by (simp add: amount_at_def)

lemma amount_at_absent: "a \<notin> fst ` set m \<Longrightarrow> amount_at a m = 0"
  by (simp add: amount_at_def map_of_eq_None_iff option.case_eq_if)

lemma add_quantities_at:
  "add_quantities D qs res = Inr res' \<Longrightarrow> dec_exact D \<Longrightarrow> distinct (map fst qs) \<Longrightarrow>
     amount_at a res' = amount_at a res + amount_at a qs \<and>
     fst ` set res' = fst ` set res \<union> fst ` set qs"
proof (induction D qs res arbitrary: res' rule: add_quantities.induct)
  case (1 D res)
  then show ?case by (simp add: amount_at_def)
next
  case (2 D sy q qs res)
  show ?case
  proof (cases "map_of res sy")
    case None
    with 2 have "amount_at a res' = amount_at a (put_assoc sy q res) + amount_at a qs"
      "fst ` set res' = fst ` set (put_assoc sy q res) \<union> fst ` set qs" by auto
    moreover have "amount_at sy res = 0" using None by (simp add: amount_at_def)
    ultimately show ?thesis using 2(5)
      by (auto simp: amount_at_Cons put_assoc_keys amount_at_absent)
  next
    case (Some c)
    with 2(3) obtain v where v: "dec_add D c q = Some v" "add_quantities D qs (put_assoc sy v res) = Inr res'"
      by (auto simp: result_simps)
    with 2(2) [OF Some] 2(4,5) have "amount_at a res' = amount_at a (put_assoc sy v res) + amount_at a qs"
      "fst ` set res' = fst ` set (put_assoc sy v res) \<union> fst ` set qs" by auto
    moreover have "v = c + q" using v(1) 2(4) by (auto dest!: dec_add_exact)
    moreover have "amount_at sy res = c" using Some by (simp add: amount_at_def)
    moreover have "sy \<in> fst ` set res" using Some by (force dest: map_of_SomeD)
    ultimately show ?thesis using 2(5)
      by (auto simp: amount_at_Cons put_assoc_keys amount_at_absent)
  qed
qed

lemma summarise_from:
  "try_fold (\<lambda>res (_, _, aqs). add_quantities D aqs res) res qs = Inr totals \<Longrightarrow> dec_exact D \<Longrightarrow>
     \<forall>(_, _, aqs)\<in>set qs. distinct (map fst aqs) \<Longrightarrow>
     amount_at a totals = amount_at a res + total (\<lambda>(_, _, aqs). amount_at a aqs) qs \<and>
     fst ` set totals = fst ` set res \<union> (\<Union>(_, _, aqs)\<in>set qs. fst ` set aqs)"
proof (induction qs arbitrary: res)
  case (Cons x qs)
  obtain k Q aqs where x: "x = (k, Q, aqs)" by (cases x) auto
  with Cons.prems obtain res1 where r: "add_quantities D aqs res = Inr res1"
    "try_fold (\<lambda>res (_, _, aqs). add_quantities D aqs res) res1 qs = Inr totals"
    by (auto simp: result_simps)
  from add_quantities_at [OF r(1) Cons.prems(2)] Cons.IH [OF r(2) Cons.prems(2)] Cons.prems(3) x
  show ?case by (auto simp: add.assoc)
qed simp

lemma summarise_at:
  assumes "summarise_asset_quantities D qs = Inr totals" "dec_exact D"
    and "\<forall>(_, _, aqs)\<in>set qs. distinct (map fst aqs)"
  shows "amount_at a totals = total (\<lambda>(_, _, aqs). amount_at a aqs) qs \<and>
    fst ` set totals = (\<Union>(_, _, aqs)\<in>set qs. fst ` set aqs)"
  using summarise_from [OF assms(1) [unfolded summarise_asset_quantities_def] assms(2,3)]
  by (simp add: amount_at_def)

lemma map_of_keyed:
  "distinct (map key xs) \<Longrightarrow> i \<in> set xs \<Longrightarrow> map_of (map (\<lambda>i. (key i, f i)) xs) (key i) = Some (f i)"
  by (induction xs) (auto simp: image_iff)


section \<open>What one order is allotted\<close>

lemma asset_quantities_Inr:
  assumes "asset_quantities_for D b q = Inr m"
  shows "distinct (map asset_symbol (basket_assets b)) \<and>
    (\<forall>a\<in>set (basket_assets b). dec_mul D (quantity a) q \<noteq> None) \<and>
    m = map (\<lambda>a. (asset_symbol a, the (dec_mul D (quantity a) q))) (basket_assets b)"
proof -
  let ?f = "\<lambda>a. map_option (Pair (asset_symbol a)) (dec_mul D (quantity a) q)"
  let ?kvs = "map_while ?f (basket_assets b)"
  from assms have m: "m = collect_map ?kvs" and "length (collect_map ?kvs) = length (basket_assets b)"
    by (auto simp: asset_quantities_for_def Let_def split: if_splits)
  moreover have "length (collect_map ?kvs) \<le> length ?kvs"
    using card_length [of "map fst ?kvs"] by (simp add: length_collect_map)
  ultimately have full: "length ?kvs = length (basket_assets b)" "length (collect_map ?kvs) = length ?kvs"
    using length_map_while [of ?f "basket_assets b"] by auto
  then have some: "\<forall>a\<in>set (basket_assets b). dec_mul D (quantity a) q \<noteq> None"
    using map_while_full by fastforce
  then have kvs: "?kvs = map (\<lambda>a. (asset_symbol a, the (dec_mul D (quantity a) q))) (basket_assets b)"
    by (subst map_while_Some) auto
  with collect_map_full [OF full(2)] some m show ?thesis by (simp add: comp_def)
qed

lemma compute_quantities_Inr:
  assumes "compute_quantities_for_order D S bs idx s = Inr (q, aqs)"
  obtains b price carried available where
    "map_of bs (s_symbol s) = Some b" "map_of idx (s_symbol s) = Some price"
    "dec_add D (s_remaining_collateral s) (collateral_carried s) = Some carried"
    "dec_div D carried (fee_factor S) = Some available"
    "dec_div D (min available (max_order_volley_size S)) price = Some q"
    "asset_quantities_for D b q = Inr aqs"
  using assms by (auto simp: compute_quantities_for_order_def result_simps)

lemma fitting_below:
  "try_fold (\<lambda>fitting entry. rbind (g entry) (\<lambda>p. Inr (min fitting p))) w xs = Inr q \<Longrightarrow>
     q \<le> w \<and> (\<forall>entry\<in>set xs. \<exists>p. g entry = Inr p \<and> q \<le> (p :: amount))"
  by (induction xs arbitrary: w) (fastforce simp: result_simps)+

lemma compute_contribution_Inr:
  assumes "compute_contribution_for_order D S ps liquidity totals qs s = Inr q"
  obtains w aqs where "map_of qs (order_key_of s) = Some (w, aqs)" "q \<le> w"
    "\<forall>entry\<in>set aqs. \<exists>p. possible_order_quantity D S ps liquidity totals w entry = Inr p \<and> q \<le> p"
  using assms
  by (auto simp: compute_contribution_for_order_def result_simps dest!: fitting_below intro: that)

lemma compute_asset_contributions_Inr:
  assumes "compute_asset_contributions_for_order D bs cs s = Inr (q, aqs)"
    and "map_of bs (s_symbol s) = Some b" "distinct (map asset_symbol (basket_assets b))"
  shows "map_of cs (order_key_of s) = Some q \<and>
    (\<forall>a\<in>set (basket_assets b). dec_mul D (quantity a) q \<noteq> None) \<and>
    aqs = map (\<lambda>a. (asset_symbol a, the (dec_mul D (quantity a) q))) (basket_assets b)"
proof -
  from assms(1,2) obtain kvs where c: "map_of cs (order_key_of s) = Some q" and
    k: "list_all2 (\<lambda>a y. rbind (ok_or (dec_mul D (quantity a) q)
       ''Failed to compute asset contribution quantity'') (\<lambda>aq. Inr (asset_symbol a, aq)) = Inr y)
       (basket_assets b) kvs" and aqs: "aqs = collect_map kvs"
    by (auto simp: compute_asset_contributions_for_order_def result_simps try_map_Inr)
  from k have kvs: "kvs = map (\<lambda>a. (asset_symbol a, the (dec_mul D (quantity a) q))) (basket_assets b)"
    and some: "\<forall>a\<in>set (basket_assets b). dec_mul D (quantity a) q \<noteq> None"
    by (induction rule: list_all2_induct) (auto simp: result_simps)
  with assms(3) aqs c show ?thesis by (simp add: collect_map_distinct comp_def)
qed

text \<open>All that a successful allocation has computed, for orders of distinct names.\<close>

text \<open>
  A stage of the computation: over orders that no earlier stage touched, the orders it keeps are
  those its function answers, each with its answer under its name, and it leaves them as they were.
\<close>

lemma scan_stage:
  assumes run: "scan_order_batch st f heap batch [] = (heap', kept, good, bad)"
    and keys: "distinct (map (\<lambda>i. order_key_of (heap0 ! i)) batch)"
    and same: "\<forall>i\<in>set batch. heap ! i = heap0 ! i"
  shows "good = map (\<lambda>i. (order_key_of (heap0 ! i), projr (f (heap0 ! i)))) kept"
    "distinct (map (\<lambda>i. order_key_of (heap0 ! i)) kept)" "set kept \<subseteq> set batch"
    "\<forall>i\<in>set kept. heap' ! i = heap0 ! i"
    "i \<in> set kept \<Longrightarrow> \<exists>r. f (heap0 ! i) = Inr r \<and> map_of good (order_key_of (heap0 ! i)) = Some r"
proof -
  have k: "map (\<lambda>i. order_key_of (heap ! i)) batch = map (\<lambda>i. order_key_of (heap0 ! i)) batch" using same by simp
  from scan_good [OF run] keys k
  have kept: "kept = filter (\<lambda>i. \<not> isl (f (heap ! i))) batch"
    and good: "good = map (\<lambda>i. (order_key_of (heap ! i), projr (f (heap ! i)))) kept"
    and same': "\<forall>i\<in>set kept. heap' ! i = heap ! i" by simp_all
  show sub: "set kept \<subseteq> set batch" using kept by auto
  show good': "good = map (\<lambda>i. (order_key_of (heap0 ! i), projr (f (heap0 ! i)))) kept"
    unfolding good using sub same by (intro map_cong) auto
  show dist: "distinct (map (\<lambda>i. order_key_of (heap0 ! i)) kept)"
    unfolding kept by (rule distinct_map_filter [OF keys])
  show "\<forall>i\<in>set kept. heap' ! i = heap0 ! i" using same same' sub by auto
  assume i: "i \<in> set kept"
  then have "\<not> isl (f (heap0 ! i))" using same unfolding kept by auto
  then obtain r where "f (heap0 ! i) = Inr r" by (cases "f (heap0 ! i)") auto
  then show "\<exists>r. f (heap0 ! i) = Inr r \<and> map_of good (order_key_of (heap0 ! i)) = Some r"
    unfolding good' by (subst map_of_keyed [OF dist i]) simp
qed

lemma allocate_Inr:
  assumes run: "allocate D S bs (limits, liquidity, idx) heap batch = (heap', Inr (kept, qs3, totals3, bad, bad'))"
    and keys: "distinct (map (\<lambda>i. order_key_of (heap ! i)) batch)"
  obtains batch1 qs totals where
    "distinct (map (\<lambda>i. order_key_of (heap ! i)) batch1)" "set batch1 \<subseteq> set batch"
    "\<forall>i\<in>set batch1. \<exists>r. compute_quantities_for_order D S bs idx (heap ! i) = Inr r"
    "qs = map (\<lambda>i. (order_key_of (heap ! i), projr (compute_quantities_for_order D S bs idx (heap ! i)))) batch1"
    "summarise_asset_quantities D qs = Inr totals"
    "distinct (map (\<lambda>i. order_key_of (heap ! i)) kept)" "set kept \<subseteq> set batch1"
    "\<exists>cs. \<forall>i\<in>set kept. \<exists>q aqs. compute_contribution_for_order D S limits liquidity totals qs (heap ! i) = Inr q \<and>
       map_of cs (order_key_of (heap ! i)) = Some q \<and>
       compute_asset_contributions_for_order D bs cs (heap ! i) = Inr (q, aqs) \<and>
       map_of qs3 (order_key_of (heap ! i)) = Some (q, aqs)"
    "map fst qs3 = map (\<lambda>i. order_key_of (heap ! i)) kept"
    "summarise_asset_quantities D qs3 = Inr totals3"
    "\<forall>i\<in>set kept. heap' ! i = heap ! i"
proof -
  let ?key = "\<lambda>i. order_key_of (heap ! i)"
  obtain heap1 batch1 qs bad1 where 1: "compute_quantities_for D S bs idx heap batch = (heap1, batch1, qs, bad1)"
    by (metis prod_cases4)
  note s1 = scan_stage [OF 1 [unfolded walk_hints] keys ballI [OF refl]]
  from run 1 obtain totals where t: "summarise_asset_quantities D qs = Inr totals"
    by (auto simp: allocate_def split: sum.splits)
  obtain heap2 batch2 cs bad2 where 2: "compute_contributions_for D S limits liquidity totals qs heap1 batch1 = (heap2, batch2, cs, bad2)"
    by (metis prod_cases4)
  note s2 = scan_stage [OF 2 [unfolded walk_hints] s1(2,4)]
  obtain heap3 batch3 qs3' bad3 where 3: "compute_asset_contributions_for D bs cs heap2 batch2 = (heap3, batch3, qs3', bad3)"
    by (metis prod_cases4)
  note s3 = scan_stage [OF 3 [unfolded walk_hints] s2(2,4)]
  from run 1 2 3 t have out: "heap' = heap3" "kept = batch3" "qs3 = qs3'" "summarise_asset_quantities D qs3 = Inr totals3"
    by (auto simp: allocate_def result_simps)
  have each: "\<exists>q aqs. compute_contribution_for_order D S limits liquidity totals qs (heap ! i) = Inr q \<and>
      map_of cs (?key i) = Some q \<and> compute_asset_contributions_for_order D bs cs (heap ! i) = Inr (q, aqs) \<and>
      map_of qs3 (?key i) = Some (q, aqs)" if i: "i \<in> set batch3" for i
  proof -
    from s3(5) [OF i] obtain x where x: "compute_asset_contributions_for_order D bs cs (heap ! i) = Inr x"
      "map_of qs3 (?key i) = Some x" using out(3) by auto
    from i s3(3) have "i \<in> set batch2" by auto
    with s2(5) obtain q where q: "compute_contribution_for_order D S limits liquidity totals qs (heap ! i) = Inr q"
      "map_of cs (?key i) = Some q" by auto
    from x q have "fst x = q" by (auto simp: compute_asset_contributions_for_order_def result_simps)
    with q x show ?thesis by (cases x) auto
  qed
  have "\<exists>cs. \<forall>i\<in>set batch3. \<exists>q aqs. compute_contribution_for_order D S limits liquidity totals qs (heap ! i) = Inr q \<and>
      map_of cs (?key i) = Some q \<and> compute_asset_contributions_for_order D bs cs (heap ! i) = Inr (q, aqs) \<and>
      map_of qs3 (?key i) = Some (q, aqs)" using each by blast
  moreover have "map fst qs3 = map ?key kept" using s3(1) out by simp
  moreover have "\<forall>i\<in>set batch1. \<exists>r. compute_quantities_for_order D S bs idx (heap ! i) = Inr r" using s1(5) by blast
  ultimately show ?thesis using that s1(1-4) s2(2-4) s3(2-4) t out by auto
qed

section \<open>A batch fits the liquidity of every asset\<close>

text \<open>
  The decimal's products and quotients of values that are not negative are not negative.
\<close>

definition dec_signs :: "dec_ops \<Rightarrow> bool" where
  "dec_signs D \<longleftrightarrow> (\<forall>a b c. 0 \<le> a \<longrightarrow> 0 \<le> b \<longrightarrow>
     (dec_mul D a b = Some c \<longrightarrow> 0 \<le> c) \<and> (dec_div D a b = Some c \<longrightarrow> 0 \<le> c))"

lemma dec_signs_upto [simp, intro]: "dec_signs (dec_upto m)"
proof -
  have "0 \<le> a / b" "0 \<le> a * b" if "0 \<le> a" "0 \<le> b" for a b :: amount using that by simp_all
  then show ?thesis by (simp add: dec_signs_def)
qed

lemma dec_signsD:
  assumes "dec_signs D" "0 \<le> a" "0 \<le> b"
  shows "dec_mul D a b = Some c \<Longrightarrow> 0 \<le> c" "dec_div D a b = Some c \<Longrightarrow> 0 \<le> c"
  using assms unfolding dec_signs_def by blast+

text \<open>
  By how much rounding errors up to \<open>e\<close> can push an order over its share of the liquidity \<open>l\<close>, when
  a unit of its index holds \<open>b\<close> of the asset and it wants \<open>q\<close> of it.
\<close>

definition share_slack :: "amount \<Rightarrow> amount \<Rightarrow> amount \<Rightarrow> amount \<Rightarrow> amount" where
  "share_slack e l b q = e * (l + 2 + b + (l + e * (l + 1) + b) / q)"

lemma share_fits:
  fixes e l b q T w f c x p g k :: amount
  assumes sgn: "0 \<le> e" "0 \<le> l" "0 \<le> b" "0 < q" "q \<le> T"
    and r: "\<bar>q - b * w\<bar> \<le> e" "\<bar>f - q / T\<bar> \<le> e" "\<bar>c - l * f\<bar> \<le> e" "\<bar>x - c * w\<bar> \<le> e"
      "\<bar>p - x / q\<bar> \<le> e" "g \<le> p" "\<bar>k - b * g\<bar> \<le> e"
  shows "k \<le> l * q / T + share_slack e l b q"
proof -
  have T: "0 < T" "0 \<le> q / T" "q / T \<le> 1" using sgn by auto
  have lf: "\<bar>l * f - l * (q / T)\<bar> \<le> l * e"
    using r(2) sgn by (metis abs_mult abs_of_nonneg mult_left_mono right_diff_distrib)
  have lq: "0 \<le> l * (q / T)" "l * (q / T) \<le> l"
    by (rule mult_nonneg_nonneg [OF sgn(2) T(2)]) (rule mult_left_le [OF T(3) sgn(2)])
  have c: "c \<le> l * (q / T) + l * e + e" "\<bar>c\<bar> \<le> l + e * (l + 1)"
    using lf lq r(3) by (auto simp: algebra_simps abs_le_iff)
  have "\<bar>c * (b * w - q)\<bar> \<le> (l + e * (l + 1)) * e"
    unfolding abs_mult using c(2) r(1) by (intro mult_mono) auto
  then have bw: "c * (b * w) \<le> c * q + (l + e * (l + 1)) * e" by (simp add: algebra_simps abs_le_iff)
  have "b * x \<le> b * (c * w + e)" using r(4) sgn by (intro mult_left_mono) (auto simp: abs_le_iff)
  then have "b * x \<le> c * q + (l + e * (l + 1)) * e + b * e" using bw by (simp add: algebra_simps)
  then have bx: "b * x / q \<le> c + ((l + e * (l + 1)) * e + b * e) / q"
    using sgn by (simp add: field_simps)
  have "b * g \<le> b * (x / q + e)" using r(5,6) sgn by (intro mult_left_mono) (auto simp: abs_le_iff)
  then have "k \<le> b * x / q + b * e + e" using r(7) by (simp add: algebra_simps abs_le_iff)
  also have "\<dots> \<le> l * (q / T) + l * e + e + ((l + e * (l + 1)) * e + b * e) / q + b * e + e"
    using bx c(1) by linarith
  also have "\<dots> = l * q / T + share_slack e l b q"
    using sgn T by (simp add: share_slack_def field_simps)
  finally show ?thesis .
qed

definition wanted ::
  "dec_ops \<Rightarrow> simple_solver \<Rightarrow> (symbol \<times> basket) list \<Rightarrow> amounts \<Rightarrow> symbol \<Rightarrow> solver_order \<Rightarrow> amount" where
  "wanted D S bs idx a s = amount_at a (snd (projr (compute_quantities_for_order D S bs idx s)))"

definition order_slack ::
  "dec_ops \<Rightarrow> simple_solver \<Rightarrow> (symbol \<times> basket) list \<Rightarrow> amounts \<Rightarrow> amount \<Rightarrow> amount \<Rightarrow> symbol \<Rightarrow> solver_order \<Rightarrow> amount" where
  "order_slack D S bs idx e l a s =
     (case map_of bs (s_symbol s) of
        None \<Rightarrow> 0
      | Some b \<Rightarrow>
          total (\<lambda>ba. if asset_symbol ba = a
             then share_slack e l (quantity ba) (wanted D S bs idx a s)
             else 0) (basket_assets b))"

lemma amount_at_basket:
  assumes "distinct (map asset_symbol (basket_assets b))" "ba \<in> set (basket_assets b)"
  shows "amount_at (asset_symbol ba) (map (\<lambda>a. (asset_symbol a, f a)) (basket_assets b)) = f ba"
  using map_of_keyed [OF assms, of f] by (simp add: amount_at_def)

lemma total_one_asset:
  assumes "distinct (map asset_symbol xs)" "ba \<in> set xs"
  shows "total (\<lambda>x. if asset_symbol x = asset_symbol ba then f x else (0 :: amount)) xs = f ba"
  using assms
proof (induction xs)
  case (Cons x xs)
  have none: "total (\<lambda>x. if asset_symbol x = a then f x else 0) ys = 0" if "a \<notin> asset_symbol ` set ys" for a ys
    using that by (induction ys) auto
  from Cons show ?case by (auto simp: none image_iff split: if_splits)
qed simp

text \<open>The quantities wanted are not negative, and what an order gets is a share of the liquidity.\<close>

lemma wanted_nonneg:
  assumes D: "dec_exact D" "dec_signs D"
    and q: "compute_quantities_for_order D S bs idx s = Inr (w, aqs)"
    and s: "0 < fee_factor S" "0 \<le> max_order_volley_size S" "0 \<le> s_remaining_collateral s + collateral_carried s"
    and m: "\<forall>(_, b)\<in>set bs. \<forall>a\<in>set (basket_assets b). 0 \<le> quantity a" "\<forall>(_, p)\<in>set idx. 0 \<le> p"
  shows "0 \<le> w \<and> 0 \<le> wanted D S bs idx a s"
proof -
  from q obtain b price carried available where
    b: "map_of bs (s_symbol s) = Some b" and p: "map_of idx (s_symbol s) = Some price" and
    c: "dec_add D (s_remaining_collateral s) (collateral_carried s) = Some carried" and
    av: "dec_div D carried (fee_factor S) = Some available" and
    w: "dec_div D (min available (max_order_volley_size S)) price = Some w" and
    aq: "asset_quantities_for D b w = Inr aqs" by (rule compute_quantities_Inr)
  have "0 \<le> carried" using c D(1) s(3) by (auto dest!: dec_add_exact)
  from dec_signsD(2) [OF D(2) this less_imp_le [OF s(1)] av] have "0 \<le> available" .
  moreover have "0 \<le> price" using p m(2) by (auto dest: map_of_SomeD)
  ultimately have w0: "0 \<le> w" using w s(2) D(2) dec_signsD(2) [of D "min available (max_order_volley_size S)" price w] by simp
  note A = asset_quantities_Inr [OF aq]
  have "0 \<le> amount_at a aqs"
  proof (cases "a \<in> asset_symbol ` set (basket_assets b)")
    case True
    then obtain ba where ba: "ba \<in> set (basket_assets b)" "a = asset_symbol ba" by auto
    with A obtain v where v: "dec_mul D (quantity ba) w = Some v" by blast
    have "0 \<le> quantity ba" using m(1) b ba(1) by (auto dest!: map_of_SomeD)
    with v w0 D(2) have "0 \<le> v" by (auto intro: dec_signsD(1))
    then show ?thesis using A ba v amount_at_basket [of b ba "\<lambda>a. the (dec_mul D (quantity a) w)"] by simp
  next
    case False
    with A have "a \<notin> fst ` set aqs" by auto
    then show ?thesis by (simp add: amount_at_absent)
  qed
  with w0 q show ?thesis by (simp add: wanted_def)
qed

lemma share_of_liquidity:
  assumes D: "dec_exact D" "dec_rounds D e" "dec_signs D" and e: "0 \<le> e"
    and q: "compute_quantities_for_order D S bs idx s = Inr (w, aqs)" "0 \<le> w"
    and b: "map_of bs (s_symbol s) = Some b" "ba \<in> set (basket_assets b)" "0 \<le> quantity ba"
    and p: "possible_order_quantity D S limits liquidity totals w (asset_symbol ba, wanted D S bs idx (asset_symbol ba) s) = Inr p"
      "g \<le> p"
    and l: "map_of liquidity (asset_symbol ba) = Some l" "0 \<le> l"
    and k: "dec_mul D (quantity ba) g = Some k"
    and T: "T = amount_at (asset_symbol ba) totals" "wanted D S bs idx (asset_symbol ba) s \<le> T"
  shows "k \<le> l * wanted D S bs idx (asset_symbol ba) s / T + order_slack D S bs idx e l (asset_symbol ba) s"
proof -
  let ?q = "wanted D S bs idx (asset_symbol ba) s"
  from q(1) obtain b' where b': "map_of bs (s_symbol s) = Some b'" "asset_quantities_for D b' w = Inr aqs"
    by (rule compute_quantities_Inr)
  with b have A: "distinct (map asset_symbol (basket_assets b))"
    "\<forall>a\<in>set (basket_assets b). dec_mul D (quantity a) w \<noteq> None"
    "aqs = map (\<lambda>a. (asset_symbol a, the (dec_mul D (quantity a) w))) (basket_assets b)"
    using asset_quantities_Inr [of D b w aqs] by auto
  from A(2) b(2) obtain v where v: "dec_mul D (quantity ba) w = Some v" by blast
  then have qv: "?q = v" using A(3) q amount_at_basket [OF A(1) b(2), of "\<lambda>a. the (dec_mul D (quantity a) w)"]
    by (simp add: wanted_def)
  from p(1) l obtain t f c x where p': "map_of totals (asset_symbol ba) = Some t" "dec_div D ?q t = Some f"
    "dec_mul D l f = Some c" "dec_mul D c w = Some x" "dec_div D x ?q = Some p"
    by (auto simp: possible_order_quantity_def result_simps checked_math_def Let_def bind_eq_Some_conv split: if_splits)
  have t: "t = T" using p'(1) T(1) by (simp add: amount_at_def)
  have "0 \<le> v" using v b(3) q(2) D(3) dec_signsD(1) by blast
  moreover have "?q \<noteq> 0" using p'(5) D(2) by (auto dest: dec_rounds_div)
  ultimately have "0 < ?q" using qv by simp
  have "k \<le> l * ?q / T + share_slack e l (quantity ba) ?q"
  proof (rule share_fits [where p = p and x = x and c = c and f = f and g = g and w = w])
    show "\<bar>?q - quantity ba * w\<bar> \<le> e" using v qv D(2) by (auto dest: dec_rounds_mul)
    show "\<bar>f - ?q / T\<bar> \<le> e" using p'(2) t D(2) by (auto dest: dec_rounds_div)
    show "\<bar>p - x / ?q\<bar> \<le> e" using p'(5) D(2) by (auto dest: dec_rounds_div)
    show "\<bar>c - l * f\<bar> \<le> e" "\<bar>x - c * w\<bar> \<le> e" "\<bar>k - quantity ba * g\<bar> \<le> e"
      using p'(3,4) k D(2) by (auto dest: dec_rounds_mul)
  qed (use e l b p T \<open>0 < ?q\<close> in auto)
  moreover have "order_slack D S bs idx e l (asset_symbol ba) s = share_slack e l (quantity ba) ?q"
    using total_one_asset [OF A(1) b(2), of "\<lambda>x. share_slack e l (quantity x) ?q"] b(1)
    by (simp add: order_slack_def)
  ultimately show ?thesis by simp
qed

lemma sum_over_keys:
  assumes "map fst qs = map key xs" "distinct (map key xs)"
  shows "total f qs = total (\<lambda>i. f (key i, the (map_of qs (key i)))) xs"
  using assms
proof (induction xs arbitrary: qs)
  case (Cons i xs)
  then obtain v qs' where qs: "qs = (key i, v) # qs'" "map fst qs' = map key xs" by (cases qs) auto
  have "total f qs' = total (\<lambda>i. f (key i, the (map_of qs' (key i)))) xs"
    using Cons.IH [OF qs(2)] Cons.prems by simp
  also have "\<dots> = total (\<lambda>j. f (key j, the (map_of qs (key j)))) xs"
    using qs(1) Cons.prems(2) by (intro arg_cong [of _ _ sum_list] map_cong refl) (auto simp: image_iff)
  finally show ?case using qs by simp
qed simp

lemma total_zero: "(\<And>x. x \<in> set xs \<Longrightarrow> f x = 0) \<Longrightarrow> total f xs = (0 :: amount)"
  by (induction xs) auto

lemma total_of_shares:
  "total (\<lambda>i. l * q i / t + s i) xs = l * total q xs / t + (total s xs :: amount)"
  by (induction xs) (simp_all add: add_divide_distrib algebra_simps)

lemma sublist_total_le:
  assumes "distinct xs" "distinct ys" "set xs \<subseteq> set ys" "\<And>i. i \<in> set ys \<Longrightarrow> 0 \<le> (f i :: amount)"
  shows "total f xs \<le> total f ys"
  using assms by (auto simp: sum_list_distinct_conv_sum_set intro!: sum_mono2)

text \<open>What the market and the orders must be like for the bound: nothing is negative.\<close>

definition sound_market ::
  "simple_solver \<Rightarrow> (symbol \<times> basket) list \<Rightarrow> amounts \<Rightarrow> solver_order list \<Rightarrow> nat list \<Rightarrow> bool" where
  "sound_market S bs idx heap batch \<longleftrightarrow> 0 < fee_factor S \<and> 0 \<le> max_order_volley_size S \<and>
     list_all (\<lambda>i. 0 \<le> s_remaining_collateral (heap ! i) + collateral_carried (heap ! i)) batch \<and>
     list_all (\<lambda>(_, b). list_all (\<lambda>a. 0 \<le> quantity a) (basket_assets b)) bs \<and>
     list_all (\<lambda>(_, p). 0 \<le> p) idx \<and> distinct (map (\<lambda>i. order_key_of (heap ! i)) batch)"

text \<open>What an allocation computed: the orders first considered, their quantities and the sums.\<close>

definition allocated ::
  "dec_ops \<Rightarrow> simple_solver \<Rightarrow> (symbol \<times> basket) list \<Rightarrow> amounts \<Rightarrow> amounts \<Rightarrow> amounts \<Rightarrow> solver_order list \<Rightarrow>
     nat list \<Rightarrow> amounts \<Rightarrow> nat list \<Rightarrow> quantities \<Rightarrow> amounts \<Rightarrow> bool" where
  "allocated D S bs limits liquidity idx heap batch1 totals1 kept qs totals \<longleftrightarrow>
     (let key = (\<lambda>i. order_key_of (heap ! i));
          qs1 = map (\<lambda>i. (key i, projr (compute_quantities_for_order D S bs idx (heap ! i)))) batch1
      in distinct (map key batch1) \<and> distinct (map key kept) \<and> set kept \<subseteq> set batch1 \<and>
         (\<forall>i\<in>set batch1. \<exists>r. compute_quantities_for_order D S bs idx (heap ! i) = Inr r) \<and>
         summarise_asset_quantities D qs1 = Inr totals1 \<and>
         (\<forall>i\<in>set kept. \<exists>cs q aqs. compute_contribution_for_order D S limits liquidity totals1 qs1 (heap ! i) = Inr q \<and>
            compute_asset_contributions_for_order D bs cs (heap ! i) = Inr (q, aqs) \<and> map_of qs (key i) = Some (q, aqs)) \<and>
         map fst qs = map key kept \<and> summarise_asset_quantities D qs = Inr totals)"

lemma allocate_allocated:
  assumes "allocate D S bs (limits, liquidity, idx) heap batch = (heap', Inr (kept, qs, totals, bad, bad'))"
    and "distinct (map (\<lambda>i. order_key_of (heap ! i)) batch)"
  obtains batch1 totals1 where "set batch1 \<subseteq> set batch"
    "allocated D S bs limits liquidity idx heap batch1 totals1 kept qs totals"
  using assms by (rule allocate_Inr) (rule that, assumption, auto simp: allocated_def Let_def, blast)

lemma sound_marketD:
  assumes "sound_market S bs idx heap batch"
  shows "0 < fee_factor S" "0 \<le> max_order_volley_size S" "distinct (map (\<lambda>i. order_key_of (heap ! i)) batch)"
    "i \<in> set batch \<Longrightarrow> 0 \<le> s_remaining_collateral (heap ! i) + collateral_carried (heap ! i)"
    "\<forall>(_, b)\<in>set bs. \<forall>a\<in>set (basket_assets b). 0 \<le> quantity a" "\<forall>(_, p)\<in>set idx. 0 \<le> p"
    "map_of bs sy = Some b \<Longrightarrow> ba \<in> set (basket_assets b) \<Longrightarrow> 0 \<le> quantity ba"
  using assms by (auto simp: sound_market_def list_all_iff dest!: map_of_SomeD)

lemma allocated_wanted:
  assumes al: "allocated D S bs limits liquidity idx heap batch1 totals1 kept qs totals"
    and D: "dec_exact D" "dec_signs D" and S: "sound_market S bs idx heap batch" "set batch1 \<subseteq> set batch"
    and i: "i \<in> set batch1"
  obtains w aqs b where "compute_quantities_for_order D S bs idx (heap ! i) = Inr (w, aqs)" "0 \<le> w"
    "0 \<le> wanted D S bs idx a (heap ! i)" "map_of bs (s_symbol (heap ! i)) = Some b" "asset_quantities_for D b w = Inr aqs"
proof -
  from al i obtain w aqs where w: "compute_quantities_for_order D S bs idx (heap ! i) = Inr (w, aqs)"
    unfolding allocated_def Let_def by fast
  then obtain b where b: "map_of bs (s_symbol (heap ! i)) = Some b" "asset_quantities_for D b w = Inr aqs"
    by (rule compute_quantities_Inr)
  from i S(2) have "i \<in> set batch" by blast
  from wanted_nonneg [OF D w sound_marketD(1,2) [OF S(1)] sound_marketD(4) [OF S(1) this] sound_marketD(5,6) [OF S(1)]]
  show ?thesis using that w b by blast
qed

lemma allocated_total:
  assumes al: "allocated D S bs limits liquidity idx heap batch1 totals1 kept qs totals" and D: "dec_exact D"
  shows "amount_at a totals1 = total (\<lambda>i. wanted D S bs idx a (heap ! i)) batch1"
proof -
  have "distinct (map fst (snd (projr (compute_quantities_for_order D S bs idx (heap ! i)))))" if i: "i \<in> set batch1" for i
  proof -
    from al i obtain w aqs where r: "compute_quantities_for_order D S bs idx (heap ! i) = Inr (w, aqs)"
      unfolding allocated_def Let_def by fast
    then obtain b where "asset_quantities_for D b w = Inr aqs" by (rule compute_quantities_Inr)
    with asset_quantities_Inr [OF this] r show ?thesis by (auto simp: comp_def)
  qed
  moreover from al have "summarise_asset_quantities D (map (\<lambda>i. (order_key_of (heap ! i),
      projr (compute_quantities_for_order D S bs idx (heap ! i)))) batch1) = Inr totals1"
    by (simp add: allocated_def Let_def)
  from summarise_at [OF this D, of a] calculation show ?thesis
    by (auto simp: wanted_def comp_def split_def)
qed

text \<open>What one order is allotted of an asset: its share of the liquidity, up to its slack.\<close>

lemma allotted_within_share:
  assumes D: "dec_exact D" "dec_rounds D e" "dec_signs D" "0 \<le> e"
    and S: "\<And>ba. ba \<in> set (basket_assets b) \<Longrightarrow> 0 \<le> quantity ba" and l: "map_of liquidity a = Some l" "0 \<le> l"
    and w: "compute_quantities_for_order D S bs idx s = Inr (w, aqs1)" "0 \<le> w" "map_of bs (s_symbol s) = Some b"
      "asset_quantities_for D b w = Inr aqs1"
    and fit: "\<forall>entry\<in>set aqs1. \<exists>p. possible_order_quantity D S limits liquidity totals1 w entry = Inr p \<and> g \<le> p"
    and g: "compute_asset_contributions_for_order D bs cs s = Inr (g, aqs)"
    and T: "T = amount_at a totals1" "wanted D S bs idx a s \<le> T"
  shows "amount_at a aqs \<le> l * wanted D S bs idx a s / T + order_slack D S bs idx e l a s \<and> distinct (map fst aqs)"
proof -
  note A = asset_quantities_Inr [OF w(4)]
  then have dist: "distinct (map asset_symbol (basket_assets b))" by simp
  note C = compute_asset_contributions_Inr [OF g w(3) dist]
  have "amount_at a aqs \<le> l * wanted D S bs idx a s / T + order_slack D S bs idx e l a s"
  proof (cases "a \<in> asset_symbol ` set (basket_assets b)")
    case True
    then obtain ba where ba: "ba \<in> set (basket_assets b)" "a = asset_symbol ba" by auto
    have at: "amount_at a (map (\<lambda>a. (asset_symbol a, the (dec_mul D (quantity a) x))) (basket_assets b)) =
        the (dec_mul D (quantity ba) x)" for x
      unfolding ba(2) by (rule amount_at_basket [OF dist ba(1)])
    have "(a, wanted D S bs idx a s) \<in> set aqs1" using A ba w at by (auto simp: wanted_def)
    with fit obtain p where p: "possible_order_quantity D S limits liquidity totals1 w (a, wanted D S bs idx a s) = Inr p" "g \<le> p"
      by blast
    from C ba(1) obtain k where k: "dec_mul D (quantity ba) g = Some k" by blast
    from share_of_liquidity [OF D w(1,2,3) ba(1) S [OF ba(1)] p [unfolded ba(2)] l [unfolded ba(2)] k T [unfolded ba(2)]]
    show ?thesis using C at k ba(2) by simp
  next
    case False
    with A C have "a \<notin> fst ` set aqs" "a \<notin> fst ` set aqs1" by auto
    then have "amount_at a aqs = 0" "wanted D S bs idx a s = 0" using w by (simp_all add: wanted_def amount_at_absent)
    moreover have "order_slack D S bs idx e l a s = 0" using False w(3) by (auto simp: order_slack_def intro!: total_zero)
    ultimately show ?thesis by simp
  qed
  with C dist show ?thesis by (simp add: comp_def)
qed

lemma allocated_share:
  assumes al: "allocated D S bs limits liquidity idx heap batch1 totals1 kept qs totals"
    and D: "dec_exact D" "dec_rounds D e" "dec_signs D" "0 \<le> e"
    and S: "sound_market S bs idx heap batch" "set batch1 \<subseteq> set batch" and l: "map_of liquidity a = Some l" "0 \<le> l"
    and i: "i \<in> set kept"
  shows "amount_at a (snd (the (map_of qs (order_key_of (heap ! i))))) \<le>
      l * wanted D S bs idx a (heap ! i) / total (\<lambda>i. wanted D S bs idx a (heap ! i)) batch1 +
      order_slack D S bs idx e l a (heap ! i) \<and> distinct (map fst (snd (the (map_of qs (order_key_of (heap ! i))))))"
proof -
  let ?q = "\<lambda>i. wanted D S bs idx a (heap ! i)" and ?key = "\<lambda>i. order_key_of (heap ! i)"
  let ?qs1 = "map (\<lambda>i. (?key i, projr (compute_quantities_for_order D S bs idx (heap ! i)))) batch1"
  from al i have i1: "i \<in> set batch1" and keys1: "distinct (map ?key batch1)" by (auto simp: allocated_def Let_def)
  from al i obtain cs g aqs where g: "compute_contribution_for_order D S limits liquidity totals1 ?qs1 (heap ! i) = Inr g"
    "compute_asset_contributions_for_order D bs cs (heap ! i) = Inr (g, aqs)" "map_of qs (?key i) = Some (g, aqs)"
    unfolding allocated_def Let_def by blast
  from allocated_wanted [OF al D(1,3) S i1] obtain w aqs1 b where
    w: "compute_quantities_for_order D S bs idx (heap ! i) = Inr (w, aqs1)" "0 \<le> w"
      "map_of bs (s_symbol (heap ! i)) = Some b" "asset_quantities_for D b w = Inr aqs1" by blast
  have "map_of ?qs1 (?key i) = Some (w, aqs1)" by (subst map_of_keyed [OF keys1 i1]) (simp add: w)
  with g(1) have fit: "\<forall>entry\<in>set aqs1. \<exists>p. possible_order_quantity D S limits liquidity totals1 w entry = Inr p \<and> g \<le> p"
    by (auto elim: compute_contribution_Inr)
  have "total ?q [i] \<le> total ?q batch1"
  proof (rule sublist_total_le)
    show "0 \<le> ?q j" if "j \<in> set batch1" for j by (rule allocated_wanted [OF al D(1,3) S that])
  qed (use i1 keys1 in \<open>auto simp: distinct_map\<close>)
  then have T: "?q i \<le> total ?q batch1" by simp
  show ?thesis using allotted_within_share [OF D sound_marketD(7) [OF S(1) w(3)] l w fit g(2)
    allocated_total [OF al D(1), symmetric] T] g(3) by simp
qed

lemma allocated_sum:
  assumes al: "allocated D S bs limits liquidity idx heap batch1 totals1 kept qs totals" and D: "dec_exact D"
    and each: "\<And>i. i \<in> set kept \<Longrightarrow> distinct (map fst (snd (the (map_of qs (order_key_of (heap ! i))))))"
  shows "amount_at a totals = total (\<lambda>i. amount_at a (snd (the (map_of qs (order_key_of (heap ! i)))))) kept"
proof -
  let ?key = "\<lambda>i. order_key_of (heap ! i)"
  from al have fsts: "map fst qs = map ?key kept" and keys: "distinct (map ?key kept)"
    and sum: "summarise_asset_quantities D qs = Inr totals" by (auto simp: allocated_def Let_def)
  have "(k, g, aqs) \<in> set qs \<Longrightarrow> distinct (map fst aqs)" for k g aqs
  proof -
    assume m: "(k, g, aqs) \<in> set qs"
    then have "k \<in> set (map fst qs)" by force
    with fsts obtain i where i: "i \<in> set kept" "k = ?key i" by auto
    have "map_of qs k = Some (g, aqs)" using m fsts keys by (metis map_of_is_SomeI)
    with each [OF i(1)] i(2) show ?thesis by simp
  qed
  then have "amount_at a totals = total (\<lambda>(_, _, aqs). amount_at a aqs) qs"
    using summarise_at [OF sum D, of a] by blast
  with sum_over_keys [OF fsts keys, of "\<lambda>(_, _, aqs). amount_at a aqs"] show ?thesis by (simp add: split_def)
qed

lemma share_of_total_le:
  assumes "0 \<le> (s :: amount)" "s \<le> t" "0 \<le> l" shows "l * s / t \<le> l"
proof -
  have "s / t \<le> 1" using assms by (cases "t = 0") (auto simp: divide_le_eq_1)
  with mult_left_le [OF this assms(3)] show ?thesis by simp
qed

text \<open>
  C6: what a batch of orders asks of an asset, after every order has been cut down to its share,
  does not exceed the asset's liquidity, up to the rounding of the decimals.
\<close>

theorem batch_fits_liquidity:
  assumes "dec_exact D" "dec_rounds D e" "dec_signs D" "0 \<le> e"
    and "sound_market S bs idx heap batch"
    and "allocate D S bs (limits, liquidity, idx) heap batch = (heap', Inr (kept, qs, totals, bad, bad'))"
    and "map_of liquidity a = Some l" "0 \<le> l"
  shows "amount_at a totals \<le> l + total (\<lambda>i. order_slack D S bs idx e l a (heap ! i)) kept"
proof -
  let ?q = "\<lambda>i. wanted D S bs idx a (heap ! i)" and ?slack = "\<lambda>i. order_slack D S bs idx e l a (heap ! i)"
  from allocate_allocated [OF assms(6) sound_marketD(3) [OF assms(5)]] obtain batch1 totals1 where
    sub: "set batch1 \<subseteq> set batch" and al: "allocated D S bs limits liquidity idx heap batch1 totals1 kept qs totals" .
  let ?T = "total ?q batch1"
  note share = allocated_share [OF al assms(1-5) sub assms(7,8)]
  have q0: "0 \<le> ?q i" if "i \<in> set batch1" for i by (rule allocated_wanted [OF al assms(1,3,5) sub that])
  have "amount_at a totals = total (\<lambda>i. amount_at a (snd (the (map_of qs (order_key_of (heap ! i)))))) kept"
    using allocated_sum [OF al assms(1)] share by blast
  also have "\<dots> \<le> total (\<lambda>i. l * ?q i / ?T + ?slack i) kept" using share by (intro sum_list_mono) auto
  also have "\<dots> = l * total ?q kept / ?T + total ?slack kept" by (rule total_of_shares)
  also have "l * total ?q kept / ?T \<le> l"
  proof (rule share_of_total_le [OF _ _ assms(8)])
    from al have "distinct kept" "distinct batch1" "set kept \<subseteq> set batch1"
      by (auto simp: allocated_def Let_def distinct_map)
    then show "total ?q kept \<le> ?T" "0 \<le> total ?q kept"
      using q0 by (auto intro!: sublist_total_le total_nonneg)
  qed
  finally show ?thesis by simp
qed


section \<open>An order engages no more than it has\<close>

lemma map_of_removed: "map_of (filter (\<lambda>(k', _). k' \<noteq> k) m) j = (if j = k then None else map_of m j)"
  by (induction m) auto

lemma engage_Inr:
  assumes "engage D S e heap i = Inr (e', en)"
  obtains q aqs fs x where
    "map_of (e_index_price_limits e) (s_symbol (heap ! i)) = Some (engaged_price en)"
    "map_of (quantity_contributions e) (order_key_of (heap ! i)) = Some (q, aqs)"
    "map_of (contribution_fractions e) (order_key_of (heap ! i)) = Some fs"
    "dec_mul D (engaged_price en) q = Some x" "dec_mul D x (fee_factor S) = Some (se_engaged_collateral en)"
    "se_index_order en = i" "engaged_quantity en = q" "asset_contribution_fractions en = map_of fs"
    "se_address en = s_address (heap ! i)" "se_client_order_id en = s_client_order_id (heap ! i)"
    "e_index_price_limits e' = e_index_price_limits e"
    "quantity_contributions e' = filter (\<lambda>(k', _). k' \<noteq> order_key_of (heap ! i)) (quantity_contributions e)"
    "contribution_fractions e' = filter (\<lambda>(k', _). k' \<noteq> order_key_of (heap ! i)) (contribution_fractions e)"
  using assms
  by (auto simp: engage_def result_simps Let_def checked_math_def bind_eq_Some_conv intro!: that)

text \<open>The engagements of a batch: one for each order, each by the figures computed for its name.\<close>

definition engaged_as :: "dec_ops \<Rightarrow> simple_solver \<Rightarrow> simple_solver_engagements \<Rightarrow> solver_order \<Rightarrow> engagement \<Rightarrow> bool" where
  "engaged_as D S e s en \<longleftrightarrow> (\<exists>q aqs fs x.
     map_of (e_index_price_limits e) (s_symbol s) = Some (engaged_price en) \<and>
     map_of (quantity_contributions e) (order_key_of s) = Some (q, aqs) \<and>
     map_of (contribution_fractions e) (order_key_of s) = Some fs \<and>
     dec_mul D (engaged_price en) q = Some x \<and> dec_mul D x (fee_factor S) = Some (se_engaged_collateral en) \<and>
     engaged_quantity en = q \<and> asset_contribution_fractions en = map_of fs \<and>
     (se_address en, se_client_order_id en) = order_key_of s)"

lemma engaged_as_less:
  assumes "engaged_as D S e' s en" "e_index_price_limits e' = e_index_price_limits e"
    "quantity_contributions e' = filter (\<lambda>(k', _). k' \<noteq> k) (quantity_contributions e)"
    "contribution_fractions e' = filter (\<lambda>(k', _). k' \<noteq> k) (contribution_fractions e)"
  shows "engaged_as D S e s en \<and> order_key_of s \<noteq> k"
  using assms by (auto simp: engaged_as_def map_of_removed split: if_splits)

lemma engage_orders_Inr:
  "engage_each D S e heap is = Inr ens \<Longrightarrow>
     list_all2 (\<lambda>i en. se_index_order en = i \<and> engaged_as D S e (heap ! i) en) is ens \<and>
     distinct (map (\<lambda>i. order_key_of (heap ! i)) is)"
proof (induction "is" arbitrary: e ens)
  case (Cons i "is")
  then obtain e' en ens' where one: "engage D S e heap i = Inr (e', en)" and
    rest: "engage_each D S e' heap is = Inr ens'" and ens: "ens = en # ens'"
    by (auto simp: result_simps)
  from one have here: "se_index_order en = i \<and> engaged_as D S e (heap ! i) en"
    by (rule engage_Inr) (auto simp: engaged_as_def order_key_of_def)
  have less: "e_index_price_limits e' = e_index_price_limits e"
    "quantity_contributions e' = filter (\<lambda>(k', _). k' \<noteq> order_key_of (heap ! i)) (quantity_contributions e)"
    "contribution_fractions e' = filter (\<lambda>(k', _). k' \<noteq> order_key_of (heap ! i)) (contribution_fractions e)"
    by (rule engage_Inr [OF one], assumption)+
  from Cons.IH [OF rest]
  have all: "list_all2 (\<lambda>j en. se_index_order en = j \<and> engaged_as D S e' (heap ! j) en) is ens'"
    and dist: "distinct (map (\<lambda>j. order_key_of (heap ! j)) is)" by simp_all
  have "list_all2 (\<lambda>j en. (se_index_order en = j \<and> engaged_as D S e (heap ! j) en) \<and>
      order_key_of (heap ! j) \<noteq> order_key_of (heap ! i)) is ens'"
    using all by (rule list_all2_mono) (use engaged_as_less [OF _ less] in blast)
  then have "list_all2 (\<lambda>j en. se_index_order en = j \<and> engaged_as D S e (heap ! j) en) is ens'"
    and "\<forall>j\<in>set is. order_key_of (heap ! j) \<noteq> order_key_of (heap ! i)"
    by (auto simp: list_all2_conv_all_nth in_set_conv_nth)
  with here dist ens show ?case by (auto simp: image_iff)
qed simp

lemma collateral_fits:
  fixes e p F C av cap w g q x y f :: amount
  assumes sgn: "0 \<le> e" "0 < p" "0 < F" "0 \<le> min av cap"
    and r: "\<bar>av - C / F\<bar> \<le> e" "\<bar>w - min av cap / p\<bar> \<le> e" "g \<le> w"
      "q \<le> g \<or> 0 \<le> f \<and> f \<le> 1 + e \<and> q \<le> g * f + e" "\<bar>x - p * q\<bar> \<le> e" "\<bar>y - x * F\<bar> \<le> e"
  shows "y \<le> C + e * (1 + F * (2 + 2 * p + cap + e * p))"
proof -
  let ?A = "min av cap" let ?W = "max w 0"
  have W: "p * ?W \<le> ?A + e * p"
  proof -
    have "?W \<le> ?A / p + e" using r(2) sgn by (auto simp: abs_le_iff)
    then have "p * ?W \<le> p * (?A / p + e)" using sgn by (intro mult_left_mono) auto
    then show ?thesis using sgn by (simp add: algebra_simps)
  qed
  have "q \<le> ?W * (1 + e) + e"
  proof (cases "q \<le> g")
    case True
    have "?W \<le> ?W * (1 + e)" using sgn by (simp add: mult_le_cancel_left1)
    with True r(3) sgn show ?thesis by linarith
  next
    case False
    with r(4) have f: "0 \<le> f" "f \<le> 1 + e" "q \<le> g * f + e" by auto
    have "g * f \<le> ?W * f" using r(3) f by (intro mult_right_mono) auto
    also have "\<dots> \<le> ?W * (1 + e)" using f by (intro mult_left_mono) auto
    finally show ?thesis using f by linarith
  qed
  then have "p * q \<le> p * (?W * (1 + e) + e)" using sgn by (intro mult_left_mono) auto
  also have "\<dots> = p * ?W * (1 + e) + p * e" by (simp add: algebra_simps)
  also have "\<dots> \<le> (?A + e * p) * (1 + e) + p * e"
    using W sgn by (intro add_right_mono mult_right_mono) auto
  also have "\<dots> = ?A + e * ?A + e * p + e * e * p + p * e" by (simp add: algebra_simps)
  also have "\<dots> \<le> (C / F + e) + e * cap + e * p + e * e * p + p * e"
  proof -
    have "?A \<le> C / F + e" using r(1) by (auto simp: abs_le_iff)
    moreover have "e * ?A \<le> e * cap" using sgn by (intro mult_left_mono) auto
    ultimately show ?thesis by linarith
  qed
  finally have "x \<le> C / F + e * (2 + 2 * p + cap + e * p)"
    using r(5) by (simp add: algebra_simps abs_le_iff)
  then have "x * F \<le> (C / F + e * (2 + 2 * p + cap + e * p)) * F" using sgn by (intro mult_right_mono) auto
  also have "\<dots> = C + e * (F * (2 + 2 * p + cap + e * p))" using sgn by (simp add: algebra_simps)
  finally show ?thesis using r(6) by (simp add: algebra_simps abs_le_iff)
qed

text \<open>What one side of a batch went through, for orders of distinct names.\<close>

lemma restated_same:
  assumes "restated is heap heap'"
  shows "order_key_of (heap' ! i) = order_key_of (heap ! i)" "s_symbol (heap' ! i) = s_symbol (heap ! i)"
    "s_remaining_collateral (heap' ! i) = s_remaining_collateral (heap ! i)"
    "collateral_carried (heap' ! i) = collateral_carried (heap ! i)"
    "s_side (heap' ! i) = s_side (heap ! i)"
proof -
  from assms obtain st where "heap' ! i = set_order_status (heap ! i) st" unfolding restated_def by blast
  then show "order_key_of (heap' ! i) = order_key_of (heap ! i)" "s_symbol (heap' ! i) = s_symbol (heap ! i)"
    "s_remaining_collateral (heap' ! i) = s_remaining_collateral (heap ! i)"
    "collateral_carried (heap' ! i) = collateral_carried (heap ! i)"
    "s_side (heap' ! i) = s_side (heap ! i)"
    by (simp_all add: set_order_status_def order_key_of_def)
qed

lemma keys_restated:
  "restated is heap heap' \<Longrightarrow> map (\<lambda>i. order_key_of (heap' ! i)) xs = map (\<lambda>i. order_key_of (heap ! i)) xs"
  by (simp add: restated_same(1))

lemma distinct_keys_subset:
  assumes "distinct (map key xs)" "mset ys + mset zs = mset xs"
  shows "distinct (map key ys)"
proof -
  have "mset (map key xs) = mset (map key (ys @ zs))" using assms(2) by (metis mset_append mset_map)
  with assms(1) have "distinct (map key (ys @ zs))" by (metis mset_eq_imp_distinct_iff)
  then show ?thesis by simp
qed

text \<open>The cap scales what an order was allotted, or leaves it.\<close>

lemma cap_one_order:
  assumes cap: "cap_volley_size D heap batch volley mv qs = Inr (heap', kept, qs', bad)"
    and keys: "distinct (map (\<lambda>i. order_key_of (heap ! i)) batch)"
    and i: "i \<in> set kept" "map_of qs' (order_key_of (heap ! i)) = Some (q', aqs')"
  shows "map_of qs (order_key_of (heap ! i)) = Some (q', aqs') \<or>
    (\<exists>f q aqs. mv \<le> volley \<and> dec_div D mv volley = Some f \<and>
       map_of qs (order_key_of (heap ! i)) = Some (q, aqs) \<and> dec_mul D q f = Some q')"
proof (cases "volley < mv")
  case True
  with cap i show ?thesis by (simp add: cap_volley_size_def)
next
  case False
  with cap obtain f where f: "dec_div D mv volley = Some f" and
    scan: "scan_order_batch InternalError (cap_volley_size_for_order D f qs) heap batch [] = (heap', kept, qs', bad)"
    by (auto simp: cap_volley_size_def result_simps)
  from scan_good [OF scan keys] have
    kept: "kept = filter (\<lambda>i. \<not> isl (cap_volley_size_for_order D f qs (heap ! i))) batch" and
    qs': "qs' = map (\<lambda>i. (order_key_of (heap ! i), projr (cap_volley_size_for_order D f qs (heap ! i)))) kept"
    by simp_all
  have "distinct (map (\<lambda>i. order_key_of (heap ! i)) kept)"
    by (rule distinct_keys_subset [OF keys scan_partition [OF scan]])
  from map_of_keyed [OF this i(1), of "\<lambda>i. projr (cap_volley_size_for_order D f qs (heap ! i))"] i(2)
  have "projr (cap_volley_size_for_order D f qs (heap ! i)) = (q', aqs')" unfolding qs' by simp
  moreover have "\<not> isl (cap_volley_size_for_order D f qs (heap ! i))" using i(1) unfolding kept by simp
  ultimately have "cap_volley_size_for_order D f qs (heap ! i) = Inr (q', aqs')" by (metis sum.collapse(2))
  then obtain q aqs where "map_of qs (order_key_of (heap ! i)) = Some (q, aqs)" "dec_mul D q f = Some q'"
    by (auto simp: cap_volley_size_for_order_def result_simps)
  with f False show ?thesis by (auto simp: not_less)
qed

lemma distribute_cap:
  assumes "distribute D S mv limits heap batch qs totals = (heap', Inr (kept, padded, qs', fs, bad, bad'))"
  obtains volley heap4 batch4 where "cap_volley_size D heap batch volley mv qs = Inr (heap4, batch4, qs', bad)"
    "compute_volley_size D totals limits = Inr volley"
    "compute_asset_contribution_fractions_for D totals qs' heap4 batch4 = (heap', kept, fs, bad')"
    "set kept \<subseteq> set batch4"
    "rbind (compute_asset_volley_size D totals limits) (pad_asset_volley_sizes D S limits) = Inr padded"
proof -
  obtain volley x where v: "compute_volley_size D totals limits = Inr volley" "cap_volley_size D heap batch volley mv qs = Inr x"
    using assms by (auto simp: distribute_def result_simps split: sum.splits)
  obtain heap4 batch4 qs4 bad4 where x: "x = (heap4, batch4, qs4, bad4)" by (metis prod_cases4)
  obtain heap5 batch5 fs5 bad5 where 5: "compute_asset_contribution_fractions_for D totals qs4 heap4 batch4 = (heap5, batch5, fs5, bad5)"
    by (metis prod_cases4)
  from assms v x 5 have eq: "heap' = heap5" "kept = batch5" "qs' = qs4" "fs = fs5" "bad = bad4" "bad' = bad5"
    "rbind (compute_asset_volley_size D totals limits) (pad_asset_volley_sizes D S limits) = Inr padded"
    by (auto simp: distribute_def result_simps)
  with that v x 5 kept_subset [OF scan_partition [OF 5 [unfolded walk_hints]]] show ?thesis by blast
qed

lemma volley_factor:
  assumes "dec_rounds D e" "dec_signs D" "dec_div D mv volley = Some f" "0 < mv" "mv \<le> volley"
  shows "0 \<le> f \<and> f \<le> 1 + e"
proof -
  have "0 \<le> f" using assms dec_signsD(2) [of D mv volley f] by simp
  moreover have "f \<le> mv / volley + e" using assms(1,3) by (auto dest!: dec_rounds_div simp: abs_le_iff)
  moreover have "mv / volley \<le> 1" using assms by simp
  ultimately show ?thesis by linarith
qed

text \<open>
  What one side of a batch computes: the allocation of an order that is kept, and the volley that
  the cap compares with its limit.
\<close>

lemma side_steps:
  assumes run: "solve_engagements_for D S H sd mv heap batch = (heap', Inr (kept, eb, bad))"
    and keys: "distinct (map (\<lambda>i. order_key_of (heap ! i)) batch)"
  obtains bs limits liquidity heap1 batch1 totals1 heap3 batch3 qs3 totals volley heap4 batch4 bad4 where
    "restated (set batch) heap heap1" "restated (set batch) heap heap3"
    "allocated D S bs limits liquidity (e_index_price_limits eb) heap1 batch1 totals1 batch3 qs3 totals"
    "distinct (map (\<lambda>i. order_key_of (heap3 ! i)) batch3)"
    "cap_volley_size D heap3 batch3 volley mv qs3 = Inr (heap4, batch4, quantity_contributions eb, bad4)"
    "set kept \<subseteq> set batch4" "set batch4 \<subseteq> set batch3"
proof -
  obtain heap1 batch0 bs bad1 where 1: "get_baskets H heap batch [] = (heap1, batch0, bs, bad1)"
    by (metis prod_cases4)
  note p1 = get_baskets_partition [OF 1]
  from run 1 obtain limits liquidity idx where
    run2: "share_out D S mv bs (limits, liquidity, idx) heap1 batch0 bad1 = (heap', Inr (kept, eb, bad))"
    by (auto simp: solve_engagements_for_def split: sum.splits)
  obtain heap3 a where 3: "allocate D S bs (limits, liquidity, idx) heap1 batch0 = (heap3, a)" by fastforce
  with run2 obtain batch3 qs3 totals bad12 bad3 where a: "a = Inr (batch3, qs3, totals, bad12, bad3)"
    by (auto simp: share_out_def split: sum.splits)
  note 3 = 3 [unfolded a]
  from run2 3 obtain padded fs bad4 bad5 where
    5: "distribute D S mv limits heap3 batch3 qs3 totals = (heap', Inr (kept, padded, quantity_contributions eb, fs, bad4, bad5))"
    and idx: "e_index_price_limits eb = idx"
    by (auto simp: share_out_def split: sum.splits prod.splits)
  from 5 obtain volley heap4 batch4 where
    4: "cap_volley_size D heap3 batch3 volley mv qs3 = Inr (heap4, batch4, quantity_contributions eb, bad4)"
      "set kept \<subseteq> set batch4" by (rule distribute_cap)
  have r1: "restated (set batch) heap heap1" using p1 by simp
  have r13: "restated (set batch0) heap1 heap3" using allocate_partition [OF 3] by simp
  have keys1: "distinct (map (\<lambda>i. order_key_of (heap1 ! i)) batch0)"
    using distinct_keys_subset [OF keys conjunct1 [OF p1]] keys_restated [OF r1] by metis
  have m3: "mset batch3 + mset (bad12 @ bad3) = mset batch0"
    using allocate_partition [OF 3] by (simp add: ac_simps)
  have keys3: "distinct (map (\<lambda>i. order_key_of (heap3 ! i)) batch3)"
    using distinct_keys_subset [OF keys1 m3] keys_restated [OF r13] by metis
  have "restated (set batch) heap heap3"
    using restated_trans [OF r1 restated_mono [OF r13 kept_subset [OF conjunct1 [OF p1]]]] .
  with that r1 keys3 4 idx allocate_allocated [OF 3 keys1] cap_partition [OF 4(1)] kept_subset
  show ?thesis by metis
qed

text \<open>
  What an order gets in the end: no more than what its collateral buys, scaled by at most the
  whole and the rounding of it.
\<close>

lemma side_allots:
  assumes D: "dec_rounds D e" "dec_signs D" and mv: "0 < mv"
    and run: "solve_engagements_for D S H sd mv heap batch = (heap', Inr (kept, eb, bad))"
    and keys: "distinct (map (\<lambda>i. order_key_of (heap ! i)) batch)"
    and i: "i \<in> set kept" "map_of (quantity_contributions eb) (order_key_of (heap ! i)) = Some (q', aqs')"
  obtains bs w aqs g f s where
    "restated (set batch) heap s" "compute_quantities_for_order D S bs (e_index_price_limits eb) (s ! i) = Inr (w, aqs)"
    "g \<le> w" "q' = g \<or> 0 \<le> f \<and> f \<le> 1 + e \<and> q' \<le> g * f + e"
proof -
  from run keys obtain bs limits liquidity heap1 batch1 totals1 heap3 batch3 qs3 totals volley heap4 batch4 bad4 where
    r1: "restated (set batch) heap heap1" and r3: "restated (set batch) heap heap3" and
    al: "allocated D S bs limits liquidity (e_index_price_limits eb) heap1 batch1 totals1 batch3 qs3 totals" and
    keys3: "distinct (map (\<lambda>i. order_key_of (heap3 ! i)) batch3)" and
    cap: "cap_volley_size D heap3 batch3 volley mv qs3 = Inr (heap4, batch4, quantity_contributions eb, bad4)" and
    sub: "set kept \<subseteq> set batch4" "set batch4 \<subseteq> set batch3" by (rule side_steps)
  let ?key = "order_key_of (heap1 ! i)"
  let ?qs1 = "map (\<lambda>i. (order_key_of (heap1 ! i), projr (compute_quantities_for_order D S bs (e_index_price_limits eb) (heap1 ! i)))) batch1"
  have same: "order_key_of (heap3 ! i) = order_key_of (heap ! i)" "?key = order_key_of (heap ! i)"
    using restated_same(1) [OF r1] restated_same(1) [OF r3] by simp_all
  from i(1) sub have i4: "i \<in> set batch4" and i3: "i \<in> set batch3" by auto
  have cap_cases: "map_of qs3 ?key = Some (q', aqs') \<or> (\<exists>f q aqs. mv \<le> volley \<and> dec_div D mv volley = Some f \<and>
      map_of qs3 ?key = Some (q, aqs) \<and> dec_mul D q f = Some q')"
    using cap_one_order [OF cap keys3 i4, of q' aqs'] i(2) same by simp
  obtain q aqs3 f where q: "map_of qs3 ?key = Some (q, aqs3)"
    and scaled: "q' = q \<or> 0 \<le> f \<and> f \<le> 1 + e \<and> q' \<le> q * f + e"
    using cap_cases that volley_factor [OF D _ mv] dec_rounds_mul [OF _ D(1)] by (fastforce simp: abs_le_iff)
  from al i3 q have c: "compute_contribution_for_order D S limits liquidity totals1 ?qs1 (heap1 ! i) = Inr q"
    unfolding allocated_def Let_def by fastforce
  from al i3 have i1: "i \<in> set batch1" and k1: "distinct (map (\<lambda>i. order_key_of (heap1 ! i)) batch1)"
    by (auto simp: allocated_def Let_def)
  from al i1 obtain w aqs where w: "compute_quantities_for_order D S bs (e_index_price_limits eb) (heap1 ! i) = Inr (w, aqs)"
    unfolding allocated_def Let_def by fast
  have "map_of ?qs1 ?key = Some (w, aqs)" by (subst map_of_keyed [OF k1 i1]) (simp add: w)
  with c have "q \<le> w" by (auto elim: compute_contribution_Inr)
  with that r1 w scaled show ?thesis by blast
qed

text \<open>An order that was allotted \<open>q\<close> engages what \<open>q\<close> costs, and so no more than its collateral.\<close>

lemma allotted_within_collateral:
  assumes D: "dec_exact D" "dec_rounds D e" "dec_signs D" "0 \<le> e"
    and S: "0 < fee_factor S" "0 \<le> max_order_volley_size S" "0 < price"
    and C: "0 \<le> s_remaining_collateral s + collateral_carried s"
    and w: "compute_quantities_for_order D S bs idx s = Inr (w, aqs)" "map_of idx (s_symbol s) = Some price"
    and g: "g \<le> w" "q = g \<or> 0 \<le> f \<and> f \<le> 1 + e \<and> q \<le> g * f + e"
    and y: "dec_mul D price q = Some x" "dec_mul D x (fee_factor S) = Some y"
  shows "y \<le> s_remaining_collateral s + collateral_carried s +
    e * (1 + fee_factor S * (2 + 2 * price + max_order_volley_size S + e * price))"
proof -
  from w obtain carried available where
    c: "dec_add D (s_remaining_collateral s) (collateral_carried s) = Some carried" and
    av: "dec_div D carried (fee_factor S) = Some available" and
    wq: "dec_div D (min available (max_order_volley_size S)) price = Some w"
    by (auto elim!: compute_quantities_Inr)
  from c D(1) have carried: "carried = s_remaining_collateral s + collateral_carried s" by (auto dest!: dec_add_exact)
  with C have "0 \<le> available" using dec_signsD(2) [OF D(3) _ _ av] S(1) by simp
  then have A: "0 \<le> min available (max_order_volley_size S)" using S(2) by simp
  show ?thesis unfolding carried [symmetric]
  proof (rule collateral_fits [OF D(4) S(3,1) A])
    show "\<bar>available - carried / fee_factor S\<bar> \<le> e" "\<bar>w - min available (max_order_volley_size S) / price\<bar> \<le> e"
      using av wq D(2) by (auto dest: dec_rounds_div)
    show "\<bar>x - price * q\<bar> \<le> e" "\<bar>y - x * fee_factor S\<bar> \<le> e" using y D(2) by (auto dest: dec_rounds_mul)
  qed (use g in auto)
qed

text \<open>The engagement of one side's order, in terms of the orders before the batch.\<close>

lemma side_engages:
  assumes run: "solve_sides D S H mv heap batch = (heap', Returns (Inr r))"
    and keys: "distinct (map (\<lambda>i. order_key_of (heap ! i)) batch)"
    and en: "en \<in> set (engaged_orders (engaged_solver_orders_of r))"
  obtains heap1 buys eb fb q aqs x where
    "solve_engagements_for D S H Buy mv heap (filter (\<lambda>i. s_side (heap ! i) = Buy) batch) = (heap1, Inr (buys, eb, fb))"
    "distinct (map (\<lambda>i. order_key_of (heap ! i)) (filter (\<lambda>i. s_side (heap ! i) = Buy) batch))"
    "se_index_order en \<in> set buys" "se_index_order en \<in> set batch"
    "map_of (e_index_price_limits eb) (s_symbol (heap ! se_index_order en)) = Some (engaged_price en)"
    "map_of (quantity_contributions eb) (order_key_of (heap ! se_index_order en)) = Some (q, aqs)"
    "dec_mul D (engaged_price en) q = Some x" "dec_mul D x (fee_factor S) = Some (se_engaged_collateral en)"
proof -
  let ?buys = "filter (\<lambda>i. s_side (heap ! i) = Buy) batch" and ?i = "se_index_order en"
  from run obtain heap1 buys eb fb es fs where
    b: "solve_engagements_for D S H Buy mv heap ?buys = (heap1, Inr (buys, eb, fb))" and
    s: "solve_engagements_for D S H Sell mv heap1 (filter (\<lambda>i. s_side (heap ! i) = Sell) batch) = (heap', Inr ([], es, fs))" and
    each: "engage_each D S eb heap' buys = Inr (engaged_orders (engaged_solver_orders_of r))"
    by (rule solve_sides_Inr)
  note pb = solve_engagements_for_partition [OF b] and ps = solve_engagements_for_partition [OF s]
  from engage_orders_Inr [OF each] en have i: "?i \<in> set buys" "engaged_as D S eb (heap' ! ?i) en"
    by (auto simp: list_all2_conv_all_nth in_set_conv_nth)
  have sub: "set ?buys \<subseteq> set batch" "set (filter (\<lambda>i. s_side (heap ! i) = Sell) batch) \<subseteq> set batch" by auto
  have "restated (set batch) heap heap'"
    by (rule restated_trans [OF restated_mono [OF conjunct1 [OF pb] sub(1)] restated_mono [OF conjunct1 [OF ps] sub(2)]])
  note same = restated_same [OF this, of ?i]
  have "mset buys + mset fb = mset ?buys" using pb by blast
  then have "?i \<in> set batch" using i(1) kept_subset sub(1) by blast
  moreover have "distinct (map (\<lambda>i. order_key_of (heap ! i)) ?buys)" using keys by (simp add: distinct_map_filter)
  ultimately show ?thesis using that b i unfolding engaged_as_def same by metis
qed

text \<open>
  C5: a successful batch engages no order for more collateral than it has, remaining and carried
  over, up to the rounding of the decimals.
\<close>

theorem engaged_within_collateral:
  assumes "dec_exact D" "dec_rounds D e" "dec_signs D" "0 \<le> e"
    and "0 < min_total_volley_available S" "0 < max_volley_size S" "0 < fee_factor S" "0 \<le> max_order_volley_size S"
    and "distinct (map (\<lambda>i. order_key_of (heap ! i)) batch)"
    and "\<forall>i\<in>set batch. 0 \<le> s_remaining_collateral (heap ! i) + collateral_carried (heap ! i)"
    and "solve_engagements D S H heap batch = (heap', Returns (Inr (Some r)))"
    and "en \<in> set (engaged_orders (engaged_solver_orders_of r))" "0 < engaged_price en"
    and "s = heap ! se_index_order en"
  shows "se_engaged_collateral en \<le> s_remaining_collateral s + collateral_carried s +
    e * (1 + fee_factor S * (2 + 2 * engaged_price en + max_order_volley_size S + e * engaged_price en))"
proof -
  let ?i = "se_index_order en"
  from assms(11) obtain remaining where rem: "min_total_volley_available S \<le> remaining"
    and sides: "solve_sides D S H (min (max_volley_size S) remaining) heap batch = (heap', Returns (Inr r))"
    by (rule solve_engagements_Some)
  have mv: "0 < min (max_volley_size S) remaining" using rem assms(5,6) by simp
  from sides assms(9,12) obtain heap1 buys eb fb q aqs x where
    b: "solve_engagements_for D S H Buy (min (max_volley_size S) remaining) heap
        (filter (\<lambda>i. s_side (heap ! i) = Buy) batch) = (heap1, Inr (buys, eb, fb))"
      "distinct (map (\<lambda>i. order_key_of (heap ! i)) (filter (\<lambda>i. s_side (heap ! i) = Buy) batch))"
      "?i \<in> set buys" and i: "?i \<in> set batch" and
    price: "map_of (e_index_price_limits eb) (s_symbol s) = Some (engaged_price en)" and
    q: "map_of (quantity_contributions eb) (order_key_of (heap ! ?i)) = Some (q, aqs)" and
    x: "dec_mul D (engaged_price en) q = Some x" "dec_mul D x (fee_factor S) = Some (se_engaged_collateral en)"
    unfolding assms(14) by (rule side_engages)
  obtain bs w aqs1 g f h where h: "restated (set (filter (\<lambda>i. s_side (heap ! i) = Buy) batch)) heap h" and
    w: "compute_quantities_for_order D S bs (e_index_price_limits eb) (h ! ?i) = Inr (w, aqs1)" and
    g: "g \<le> w" "q = g \<or> 0 \<le> f \<and> f \<le> 1 + e \<and> q \<le> g * f + e"
    by (rule side_allots [OF assms(2,3) mv b q])
  note same = restated_same [OF h, of ?i, folded assms(14)]
  have "0 \<le> s_remaining_collateral s + collateral_carried s" using assms(10,14) i by simp
  with allotted_within_collateral [OF assms(1-4,7,8,13) _ w _ g x] price show ?thesis by (simp add: same)
qed

section \<open>Names, caps and padding\<close>

text \<open>
  A batch that succeeds has each client order name of an address once. Two orders of one
  address and name on two chains in one batch make the whole batch fail, whatever the others are.
\<close>

theorem engaged_names_distinct:
  assumes "solve_engagements D S H heap batch = (heap', Returns (Inr (Some r)))"
  shows "distinct (map (\<lambda>en. (se_address en, se_client_order_id en)) (engaged_orders (engaged_solver_orders_of r)))"
proof -
  from assms obtain mv where "solve_sides D S H mv heap batch = (heap', Returns (Inr r))"
    by (rule solve_engagements_Some)
  then obtain eb buys where en: "engage_each D S eb heap' buys = Inr (engaged_orders (engaged_solver_orders_of r))"
    by (rule solve_sides_Inr)
  from engage_orders_Inr [OF this] have all: "list_all2 (\<lambda>i en. se_index_order en = i \<and> engaged_as D S eb (heap' ! i) en)
      buys (engaged_orders (engaged_solver_orders_of r))" and d: "distinct (map (\<lambda>i. order_key_of (heap' ! i)) buys)"
    by simp_all
  from all have "map (\<lambda>en. (se_address en, se_client_order_id en)) (engaged_orders (engaged_solver_orders_of r)) =
      map (\<lambda>i. order_key_of (heap' ! i)) buys"
    by (induction rule: list_all2_induct) (auto simp: engaged_as_def)
  with d show ?thesis by simp
qed

text \<open>
  The orders for the assets do not depend on the cap on the volley of a batch: two caps that
  allow a batch at all give the same asset orders, whatever they leave the index orders.
\<close>

theorem cap_leaves_asset_orders:
  assumes "solve_engagements_for D S H sd mv heap batch = (heap1, Inr (kept1, e1, bad1))"
    and "solve_engagements_for D S H sd mv' heap batch = (heap2, Inr (kept2, e2, bad2))"
  shows "asset_order_quantities e1 = asset_order_quantities e2"
proof -
  obtain h b bs bad where 1: "get_baskets H heap batch [] = (h, b, bs, bad)" by (metis prod_cases4)
  from assms(1) 1 obtain limits liquidity idx where m: "market_for D S H sd bs = Inr (limits, liquidity, idx)"
    by (auto simp: solve_engagements_for_def split: sum.splits)
  have padded: "\<exists>totals. asset_order_quantities e = projr (rbind (compute_asset_volley_size D totals limits) (pad_asset_volley_sizes D S limits)) \<and>
      totals = fst (snd (snd (projr (snd (allocate D S bs (limits, liquidity, idx) h b)))))"
    if "solve_engagements_for D S H sd v heap batch = (heap', Inr (kept, e, bad'))" for v heap' kept e bad'
  proof -
    from that 1 m have run: "share_out D S v bs (limits, liquidity, idx) h b bad = (heap', Inr (kept, e, bad'))"
      by (simp add: solve_engagements_for_def)
    obtain h3 x where "allocate D S bs (limits, liquidity, idx) h b = (h3, x)" by fastforce
    with run obtain batch3 qs3 totals bad12 bad3 where
      3: "allocate D S bs (limits, liquidity, idx) h b = (h3, Inr (batch3, qs3, totals, bad12, bad3))"
      by (auto simp: share_out_def split: sum.splits)
    from run 3 obtain qs fs bad4 bad5 where
      "distribute D S v limits h3 batch3 qs3 totals = (heap', Inr (kept, asset_order_quantities e, qs, fs, bad4, bad5))"
      by (auto simp: share_out_def split: sum.splits prod.splits)
    then have "rbind (compute_asset_volley_size D totals limits) (pad_asset_volley_sizes D S limits) = Inr (asset_order_quantities e)"
      by (rule distribute_cap)
    with 3 show ?thesis by simp
  qed
  from padded [OF assms(1)] padded [OF assms(2)] show ?thesis by metis
qed

lemma scaled_error:
  assumes "\<bar>q - x / p\<bar> \<le> e" "0 < p"
  shows "\<bar>q * p - x\<bar> \<le> e * (p :: amount)"
proof -
  have "q * p - x = (q - x / p) * p" using assms(2) by (simp add: field_simps)
  then have "\<bar>q * p - x\<bar> = \<bar>q - x / p\<bar> * p" using assms(2) by (simp add: abs_mult)
  then show ?thesis using assms by (simp add: mult_right_mono)
qed

text \<open>
  The order for an asset is worth at least the minimal volley and at least what the batch
  needs of the asset, by less than a step more than the larger of the two, and a whole number of
  steps, up to the rounding of the decimals.
\<close>

theorem padded_orders_are_whole_steps:
  assumes "dec_rounds D e" "0 \<le> e" "0 < asset_volley_step_size S"
    and "pad_asset_volley_sizes D S limits volleys = Inr padded"
    and "(a, v) \<in> set volleys" "distinct (map fst volleys)" "map_of limits a = Some p" "0 < p"
    and "slack = e * (1 + asset_volley_step_size S + p)"
  shows "\<exists>q k. map_of padded a = Some q \<and>
    max v (min_asset_volley_size S) - slack \<le> q * p \<and>
    q * p < max v (min_asset_volley_size S) + asset_volley_step_size S + slack \<and>
    \<bar>q * p - of_int k * asset_volley_step_size S\<bar> \<le> slack"
proof -
  let ?step = "asset_volley_step_size S" and ?need = "max v (min_asset_volley_size S)"
  from assms(4) have all: "list_all2 (\<lambda>x y. pad_one D S limits x = Inr y) volleys padded"
    by (simp add: pad_asset_volley_sizes_def try_map_Inr)
  then have fsts: "map fst padded = map fst volleys"
    by (induction rule: list_all2_induct) (auto simp: pad_one_def result_simps Let_def)
  from assms(5) obtain n where n: "n < length volleys" "volleys ! n = (a, v)" by (auto simp: in_set_conv_nth)
  define y where "y = padded ! n"
  have y: "pad_one D S limits (a, v) = Inr y" "y \<in> set padded"
    using list_all2_nthD [OF all n(1)] list_all2_lengthD [OF all] n unfolding y_def by simp_all
  from y(1) assms(7) obtain k al q where
    k: "dec_div D ?need ?step = Some k" and al: "dec_mul D (of_int \<lceil>k\<rceil>) ?step = Some al" and
    q: "dec_div D al p = Some q" "y = (a, q)"
    by (auto simp: pad_one_def result_simps Let_def)
  have at: "map_of padded a = Some q" using y(2) q(2) fsts assms(6) by (metis map_of_is_SomeI)
  have rk: "\<bar>k - ?need / ?step\<bar> \<le> e" using k assms(1) by (auto dest: dec_rounds_div)
  have ral: "\<bar>al - of_int \<lceil>k\<rceil> * ?step\<bar> \<le> e" using al assms(1) by (auto dest: dec_rounds_mul)
  have "\<bar>q - al / p\<bar> \<le> e" using q(1) assms(1) by (auto dest: dec_rounds_div)
  then have rq: "\<bar>q * p - al\<bar> \<le> e * p" using assms(8) by (rule scaled_error)
  have need: "\<bar>k * ?step - ?need\<bar> \<le> e * ?step" using rk assms(3) by (rule scaled_error)
  have c: "k * ?step \<le> of_int \<lceil>k\<rceil> * ?step" "of_int \<lceil>k\<rceil> * ?step < (k + 1) * ?step"
    using assms(3) by (auto intro: mult_right_mono mult_strict_right_mono) linarith+
  have slack: "slack = e + e * ?step + e * p" using assms(9) by (simp add: algebra_simps)
  have es: "0 \<le> e * ?step" using assms(2,3) by simp
  have "?need - slack \<le> q * p" using need c(1) ral rq slack unfolding abs_le_iff by linarith
  moreover have "q * p < ?need + ?step + slack"
    using need c(2) ral rq slack unfolding abs_le_iff by (simp add: algebra_simps)
  moreover have "\<bar>q * p - of_int \<lceil>k\<rceil> * ?step\<bar> \<le> slack"
    using ral rq slack es unfolding abs_le_iff by linarith
  ultimately show ?thesis using at by blast
qed

lemma filter_all: "length (filter P xs) = length xs \<Longrightarrow> filter P xs = xs \<and> (\<forall>x\<in>set xs. P x)"
  by (metis filter_id_conv length_filter_less order_less_irrefl)

lemma totals_close:
  assumes "\<And>i. i \<in> set xs \<Longrightarrow> \<bar>f i - g i\<bar> \<le> (e :: amount)"
  shows "\<bar>total f xs - total g xs\<bar> \<le> e * of_nat (length xs)"
  using assms
proof (induction xs)
  case (Cons x xs)
  have "\<bar>total f xs - total g xs\<bar> \<le> e * of_nat (length xs)" using Cons by simp
  moreover have "\<bar>f x - g x\<bar> \<le> e" using Cons.prems by simp
  ultimately show ?case by (simp add: algebra_simps abs_le_iff)
qed simp

lemma fractions_at:
  assumes "dec_rounds D e" "0 \<le> e"
    and "list_all2 (\<lambda>(sy, q) y. rbind (ok_or (map_of totals sy) ''Failed to obtain total asset quantity'') (\<lambda>t.
           rbind (ok_or (dec_div D q t) ''Failed to compute asset contribution fraction'') (\<lambda>f.
             Inr (sy, f))) = Inr y) aqs fs"
  shows "\<bar>amount_at a fs - amount_at a aqs / amount_at a totals\<bar> \<le> e"
  using assms(3)
proof (induction rule: list_all2_induct)
  case Nil
  show ?case using assms(2) by (simp add: amount_at_def)
next
  case (Cons x aqs y fs)
  obtain sy q where x: "x = (sy, q)" by (cases x) auto
  with Cons(1) obtain t f where t: "map_of totals sy = Some t" "dec_div D q t = Some f" "y = (sy, f)"
    by (auto simp: result_simps)
  then have "\<bar>f - q / t\<bar> \<le> e" using assms(1) by (auto dest: dec_rounds_div)
  moreover have "amount_at sy totals = t" using t(1) by (simp add: amount_at_def)
  ultimately show ?case using Cons(3) x t(3) by (auto simp: amount_at_Cons)
qed

text \<open>
  What a batch that is not capped needs of an asset is shared out whole: the fractions of its
  orders add up to one, up to the rounding of one division for each order.
\<close>

theorem fractions_share_the_whole:
  assumes "dec_exact D" "dec_rounds D e"
    and "compute_asset_contribution_fractions_for D totals qs heap batch = (heap', kept, fractions, [])"
    and "summarise_asset_quantities D qs = Inr totals"
    and "map fst qs = map (\<lambda>i. order_key_of (heap ! i)) batch" "distinct (map fst qs)"
    and "\<forall>(_, _, aqs)\<in>set qs. distinct (map fst aqs)"
    and "amount_at a totals \<noteq> 0" "0 \<le> e"
  shows "\<bar>total (\<lambda>(_, fs). amount_at a fs) fractions - 1\<bar> \<le> e * of_nat (length batch)"
proof -
  let ?key = "\<lambda>i. order_key_of (heap ! i)" and ?T = "amount_at a totals"
  let ?f = "\<lambda>i. compute_asset_contribution_fractions_for_order D totals qs (heap ! i)"
  have keys: "distinct (map ?key batch)" using assms(5,6) by simp
  note scan = assms(3) [unfolded walk_hints]
  from scan_partition [OF scan] have "mset kept = mset batch" by simp
  then have len: "length kept = length batch" by (rule mset_eq_length)
  from scan_good [OF scan keys] have kf: "kept = filter (\<lambda>i. \<not> isl (?f i)) batch"
    and fs: "fractions = map (\<lambda>i. (?key i, projr (?f i))) kept" by simp_all
  from filter_all [OF len [unfolded kf]] kf have kept: "kept = batch" "\<forall>i\<in>set batch. \<not> isl (?f i)"
    by metis+
  let ?q = "\<lambda>i. amount_at a (snd (the (map_of qs (?key i))))"
  have each: "\<bar>amount_at a (projr (?f i)) - ?q i / ?T\<bar> \<le> e" if "i \<in> set batch" for i
  proof -
    from kept(2) that obtain x where x: "?f i = Inr x" by (cases "?f i") auto
    then obtain z where z: "map_of qs (?key i) = Some z"
      by (cases "map_of qs (?key i)") (simp_all add: compute_asset_contribution_fractions_for_order_def)
    obtain w aqs where q: "z = (w, aqs)" by (cases z)
    from x z q have f: "list_all2 (\<lambda>(sy, q) y. rbind (ok_or (map_of totals sy) ''Failed to obtain total asset quantity'') (\<lambda>t.
           rbind (ok_or (dec_div D q t) ''Failed to compute asset contribution fraction'') (\<lambda>f.
             Inr (sy, f))) = Inr y) aqs x"
      by (simp add: compute_asset_contribution_fractions_for_order_def try_map_Inr case_prod_unfold)
    from f have "\<bar>amount_at a x - amount_at a aqs / ?T\<bar> \<le> e"
      by (rule fractions_at [OF assms(2,9)])
    with x z q show ?thesis by simp
  qed
  have "total (\<lambda>(_, _, aqs). amount_at a aqs) qs = total ?q batch"
    using sum_over_keys [OF assms(5), of "\<lambda>(_, _, aqs). amount_at a aqs"] keys by (simp add: split_def)
  then have "total ?q batch = ?T" using summarise_at [OF assms(4,1,7), of a] by simp
  then have one: "total (\<lambda>i. ?q i / ?T) batch = 1"
    using total_of_shares [of 1 ?q ?T "\<lambda>_. 0" batch] assms(8) by (simp add: total_zero)
  have "\<bar>total (\<lambda>i. amount_at a (projr (?f i))) batch - total (\<lambda>i. ?q i / ?T) batch\<bar> \<le> e * of_nat (length batch)"
    using each by (rule totals_close)
  then show ?thesis using kept(1) fs one by (simp add: comp_def)
qed


section \<open>The contract of a strategy\<close>

text \<open>
  What the solver relies on: an order handed to the strategy comes back engaged or failed, once,
  and the strategy changes nothing but statuses of the orders it was handed.
\<close>

locale strategy =
  fixes solve :: "solver_order list \<Rightarrow> nat list \<Rightarrow> solver_order list \<times> solve_engagements_result option outcome"
  assumes accounts: "solve heap batch = (heap', Returns (Inr (Some r))) \<Longrightarrow>
      mset (map se_index_order (engaged_orders (engaged_solver_orders_of r))) + mset (failed_orders r) = mset batch"
    and restates: "solve heap batch = (heap', x) \<Longrightarrow> restated (set batch) heap heap'"
begin

lemma engaged_from_batch:
  assumes "solve heap batch = (heap', Returns (Inr (Some r)))"
  shows "set (map se_index_order (engaged_orders (engaged_solver_orders_of r))) \<union> set (failed_orders r) = set batch"
  using accounts [OF assms] by (metis set_append set_mset_mset mset_append)

lemma engaged_or_failed:
  assumes "solve heap batch = (heap', Returns (Inr (Some r)))" "distinct batch" "i \<in> set batch"
  shows "i \<in> set (map se_index_order (engaged_orders (engaged_solver_orders_of r))) \<longleftrightarrow> i \<notin> set (failed_orders r)"
proof -
  have "distinct (map se_index_order (engaged_orders (engaged_solver_orders_of r)) @ failed_orders r)"
    using accounts [OF assms(1)] assms(2) by (metis mset_append mset_eq_imp_distinct_iff)
  then show ?thesis using engaged_from_batch [OF assms(1)] assms(3) by auto
qed

lemma others_untouched:
  assumes "solve heap batch = (heap', x)"
  shows "length heap' = length heap" "j \<notin> set batch \<Longrightarrow> heap' ! j = heap ! j"
    "\<exists>st. heap' ! j = set_order_status (heap ! j) st"
  using restates [OF assms] by (auto simp: restated_def)

end

lemma solve_sides_restates: "solve_sides D S H mv heap batch = (heap', x) \<Longrightarrow> restated (set batch) heap heap'"
proof -
  assume run: "solve_sides D S H mv heap batch = (heap', x)"
  let ?buys = "filter (\<lambda>i. s_side (heap ! i) = Buy) batch" and ?sells = "filter (\<lambda>i. s_side (heap ! i) = Sell) batch"
  have sub: "set ?buys \<subseteq> set batch" "set ?sells \<subseteq> set batch" by auto
  obtain heap1 a where a: "solve_engagements_for D S H Buy mv heap ?buys = (heap1, a)" by fastforce
  obtain heap2 b where b: "solve_engagements_for D S H Sell mv heap1 ?sells = (heap2, b)" by fastforce
  have r1: "restated (set batch) heap heap1"
    by (rule restated_mono [OF conjunct1 [OF solve_engagements_for_partition [OF a]] sub(1)])
  have "restated (set batch) heap heap2"
    by (rule restated_trans [OF r1 restated_mono [OF conjunct1 [OF solve_engagements_for_partition [OF b]] sub(2)]])
  moreover have "heap' = heap1 \<or> heap' = heap2"
    using run a b by (auto simp: solve_sides_def Let_def split: sum.splits prod.splits if_splits)
  ultimately show ?thesis using r1 by auto
qed

interpretation simple: strategy "solve_engagements D S H" for D S H
proof unfold_locales
  fix heap batch heap' r
  assume "solve_engagements D S H heap batch = (heap', Returns (Inr (Some r)))"
  then obtain mv where "solve_sides D S H mv heap batch = (heap', Returns (Inr r))"
    by (rule solve_engagements_Some)
  then show "mset (map se_index_order (engaged_orders (engaged_solver_orders_of r))) + mset (failed_orders r) = mset batch"
    by (rule solve_sides_accounts)
next
  fix heap batch heap' x
  assume "solve_engagements D S H heap batch = (heap', x)"
  then show "restated (set batch) heap heap'"
    by (auto simp: solve_engagements_def split: sum.splits if_splits prod.splits intro: solve_sides_restates)
qed

text \<open>
  A batch that succeeds accounts for every order it was given, once: it is engaged or it is
  reported as failed, and the solving changed nothing of any order but its status.
\<close>

theorem every_order_engaged_or_failed:
  assumes "solve_engagements D S H heap batch = (heap', Returns (Inr (Some r)))"
  shows "mset (map se_index_order (engaged_orders (engaged_solver_orders_of r))) + mset (failed_orders r) = mset batch \<and>
    (\<forall>j. \<exists>st. heap' ! j = set_order_status (heap ! j) st \<and> (j \<notin> set batch \<longrightarrow> st = s_status (heap ! j)))"
proof (intro conjI allI)
  show "mset (map se_index_order (engaged_orders (engaged_solver_orders_of r))) + mset (failed_orders r) = mset batch"
    by (rule simple.accounts [OF assms])
  fix j
  show "\<exists>st. heap' ! j = set_order_status (heap ! j) st \<and> (j \<notin> set batch \<longrightarrow> st = s_status (heap ! j))"
  proof (cases "j \<in> set batch")
    case False
    then show ?thesis using simple.others_untouched(2) [OF assms False] set_order_status_self by metis
  qed (use simple.others_untouched(3) [OF assms] in blast)
qed

section \<open>Quotes\<close>

lemma quotes_kept:
  "get_baskets_from_quotes H heap batch bs = (heap', kept, bs', bad) \<Longrightarrow>
     kept = filter (\<lambda>i. host_basket H (q_symbol (heap ! i)) \<noteq> None) batch \<and>
     (\<forall>j. q_side (heap' ! j) = q_side (heap ! j) \<and> q_symbol (heap' ! j) = q_symbol (heap ! j))"
proof (induction batch arbitrary: heap bs heap' kept bs' bad)
  case (Cons i batch)
  show ?case
  proof (cases "host_basket H (q_symbol (heap ! i))")
    case None
    define h where "h = heap[i := set_quote_status (heap ! i) QuoteInvalidSymbol]"
    have same: "q_side (h ! j) = q_side (heap ! j) \<and> q_symbol (h ! j) = q_symbol (heap ! j)" for j
      unfolding h_def by (cases "i < length heap") (auto simp: nth_list_update set_quote_status_def list_update_beyond)
    from Cons.prems None obtain kept1 bad1 where "get_baskets_from_quotes H h batch bs = (heap', kept1, bs', bad1)" "kept = kept1"
      by (auto simp: h_def Let_def split: prod.splits)
    with Cons.IH [OF this(1)] None show ?thesis by (simp add: conjunct1 [OF same] conjunct2 [OF same])
  next
    case (Some b)
    from Cons.prems Some obtain kept1 where "get_baskets_from_quotes H heap batch (or_insert (q_symbol (heap ! i)) b bs) = (heap', kept1, bs', bad)"
      "kept = i # kept1"
      by (auto simp: Let_def split: prod.splits)
    with Cons.IH [OF this(1)] Some show ?thesis by simp
  qed
qed simp

lemma quote_each_partition:
  "quote_each D S idx heap batch = (heap', r) \<Longrightarrow>
     (\<forall>solved failed. r = Inr (solved, failed) \<longrightarrow> mset solved + mset failed = mset batch) \<and>
     (\<forall>j. q_side (heap' ! j) = q_side (heap ! j) \<and> q_symbol (heap' ! j) = q_symbol (heap ! j))"
proof (induction batch arbitrary: heap heap' r)
  case (Cons i batch)
  have same: "q_side (heap[i := q] ! j) = q_side (heap ! j) \<and> q_symbol (heap[i := q] ! j) = q_symbol (heap ! j)"
    if "q_side q = q_side (heap ! i)" "q_symbol q = q_symbol (heap ! i)" for j q
    using that by (cases "i < length heap") (auto simp: nth_list_update list_update_beyond)
  show ?case
  proof (cases "map_of idx (q_symbol (heap ! i))")
    case None
    from Cons.prems None obtain r1 where
      rest: "quote_each D S idx (heap[i := set_quote_status (heap ! i) QuoteServiceUnavailable]) batch = (heap', r1)"
      "r = rbind r1 (\<lambda>(solved, failed). Inr (solved, i # failed))"
      by (auto simp: Let_def split: prod.splits)
    from Cons.IH [OF rest(1)] rest(2) same [of "set_quote_status (heap ! i) QuoteServiceUnavailable"]
    show ?thesis by (cases r1) (auto simp: set_quote_status_def)
  next
    case (Some price)
    let ?x = "rbind (ok_or (dec_div D (q_collateral_amount (heap ! i)) (fee_factor S)) ''Fee factor multiplication error'')
                   (\<lambda>available. ok_or (dec_div D available price) ''Index price division error'')"
    show ?thesis
    proof (cases ?x)
      case (Inl e)
      with Cons.prems Some show ?thesis by (auto simp: Let_def)
    next
      case (Inr p)
      let ?q = "set_quote_status ((heap ! i)\<lparr>q_quantity_possible := p\<rparr>) QuoteReady"
      from Cons.prems Some Inr obtain r1 where
        rest: "quote_each D S idx (heap[i := ?q]) batch = (heap', r1)"
        "r = rbind r1 (\<lambda>(solved, failed). Inr (i # solved, failed))"
        by (auto simp: Let_def split: prod.splits)
      from Cons.IH [OF rest(1)] rest(2) same [of ?q]
      show ?thesis by (cases r1) (auto simp: set_quote_status_def)
    qed
  qed
qed simp

lemma solve_quotes_for_partition:
  assumes "solve_quotes_for D S H sd heap batch = (heap', Inr (solved, failed))"
  shows "mset solved + mset failed = mset (filter (\<lambda>i. host_basket H (q_symbol (heap ! i)) \<noteq> None) batch) \<and>
    (\<forall>j. q_side (heap' ! j) = q_side (heap ! j) \<and> q_symbol (heap' ! j) = q_symbol (heap ! j))"
proof -
  obtain heap1 batch1 bs bad where 1: "get_baskets_from_quotes H heap batch [] = (heap1, batch1, bs, bad)"
    by (metis prod_cases4)
  with assms obtain idx where "quote_each D S idx heap1 batch1 = (heap', Inr (solved, failed))"
    by (auto simp: solve_quotes_for_def split: sum.splits)
  from quote_each_partition [OF this] quotes_kept [OF 1] show ?thesis by simp
qed

text \<open>
  Solving quotes answers, once each, exactly the quotes whose index has a basket: a quote on
  an unknown index is neither solved nor failed.
\<close>

theorem quotes_answered_are_known:
  assumes "solve_quotes D S H heap batch = (heap', Inr (solved, failed))"
  shows "mset solved + mset failed = mset (filter (\<lambda>i. host_basket H (q_symbol (heap ! i)) \<noteq> None) batch)"
proof -
  let ?known = "\<lambda>i. host_basket H (q_symbol (heap ! i)) \<noteq> None"
  obtain heap1 x where b: "solve_quotes_for D S H Buy heap (filter (\<lambda>i. q_side (heap ! i) = Buy) batch) = (heap1, x)"
    by fastforce
  with assms obtain sb fb where x: "x = Inr (sb, fb)" by (cases x) (auto simp: solve_quotes_def)
  note pb = solve_quotes_for_partition [OF b [unfolded x]]
  obtain heap2 y where s: "solve_quotes_for D S H Sell heap1 (filter (\<lambda>i. q_side (heap ! i) = Sell) batch) = (heap2, y)"
    by fastforce
  with assms b x pb obtain ss fs where y: "y = Inr (ss, fs)" by (cases y) (auto simp: solve_quotes_def)
  note ps = solve_quotes_for_partition [OF s [unfolded y]]
  have known: "(\<lambda>i. host_basket H (q_symbol (heap1 ! i)) \<noteq> None) = ?known" using pb by simp
  have res: "heap' = heap2" "solved = sb @ ss" "failed = fb @ fs"
    using assms b s x y by (simp_all add: solve_quotes_def)
  have "mset solved + mset failed = (mset sb + mset fb) + (mset ss + mset fs)" unfolding res by simp
  also have "\<dots> = mset (filter ?known (filter (\<lambda>i. q_side (heap ! i) = Buy) batch)) +
      mset (filter ?known (filter (\<lambda>i. q_side (heap ! i) = Sell) batch))"
    using conjunct1 [OF pb] conjunct1 [OF ps] unfolding known by (simp only:)
  also have "\<dots> = mset (filter ?known batch)"
  proof (induction batch)
    case (Cons i batch)
    then show ?case by (cases "q_side (heap ! i)") auto
  qed simp
  finally show ?thesis .
qed


section \<open>A batch of two orders\<close>

definition demo_market_basket :: basket where
  "demo_market_basket = \<lparr>basket_assets =
     [\<lparr>ba_weight = \<lparr>w_asset = \<lparr>ticker = ''A'', listing = ''X''\<rparr>, weight = 1 / 2\<rparr>, quantity = 2\<rparr>,
      \<lparr>ba_weight = \<lparr>w_asset = \<lparr>ticker = ''B'', listing = ''X''\<rparr>, weight = 1 / 2\<rparr>, quantity = 1\<rparr>]\<rparr>"

definition demo_host :: strategy_host where
  "demo_host = \<lparr>host_batch_order_id = ''B1'',
     host_basket = [''I'' \<mapsto> demo_market_basket],
     host_prices = (\<lambda>_ ss. \<lparr>r_prices = map (\<lambda>s. (s, if s = ''A'' then 10 else 20)) ss, missing_symbols = []\<rparr>),
     host_liquidity = (\<lambda>_ _. Inr (\<lambda>_. Some 30)),
     host_liquidity_levels = (\<lambda>_ _ _. Inr (\<lambda>_. Some (Some \<lparr>pp_price = 11, pp_quantity = 100\<rparr>))),
     host_total_volley_size = Inr 0\<rparr>"

definition demo_solver :: simple_solver where
  "demo_solver = simple_solver_new 0 5 1 500 1000 15 10 2000 5"

definition demo_orders_two :: "solver_order list" where
  "demo_orders_two =
     [solver_order_new (1, 7) ''O1'' ''I'' Buy 400 0, solver_order_new (1, 8) ''O2'' ''I'' Buy 800 0]"

lemmas strategy_defs = solve_engagements_def solve_sides_def solve_engagements_for_def market_for_def
  share_out_def allocate_def distribute_def walk_hints cap_volley_size_def get_asset_price_limits_def
  price_factor_def cap_asset_liquidity_def cap_one_def get_index_price_def listed_def symbols_of_def
  asset_quantities_for_def compute_quantities_for_order_def cap_volley_size_for_order_def
  summarise_asset_quantities_def asset_volley_size_def compute_volley_size_def
  compute_asset_volley_size_def possible_order_quantity_def compute_contribution_for_order_def
  compute_asset_contributions_for_order_def compute_asset_contribution_fractions_for_order_def
  pad_one_def pad_asset_volley_sizes_def engage_def or_insert_def order_key_of_def asset_symbol_def
  collect_map_def set_order_status_def List.map_filter_def

declare strategy_defs [evals] demo_market_basket_def [evals] demo_host_def [evals]
  demo_solver_def [evals] demo_orders_two_def [evals] simple_solver_new_def [evals]
  solver_order_new_def [evals]

definition demo_result :: solve_engagements_result where
  "demo_result = (case snd (solve_engagements (dec_upto 1000000) demo_solver demo_host demo_orders_two [0, 1]) of
     Returns (Inr (Some r)) \<Rightarrow> r | _ \<Rightarrow> undefined)"

lemma demo_solved:
  "solve_engagements (dec_upto 1000000) demo_solver demo_host demo_orders_two [0, 1] =
     (demo_orders_two, Returns (Inr (Some demo_result)))"
  "map engaged_quantity (engaged_orders (engaged_solver_orders_of demo_result)) = [20 / 3, 25 / 3]"
  "map engaged_price (engaged_orders (engaged_solver_orders_of demo_result)) = [40, 40]"
  "failed_orders demo_result = []"
  by (simp_all add: demo_result_def evals)

theorem every_order_engaged_or_failed_witness:
  "mset (map se_index_order (engaged_orders (engaged_solver_orders_of demo_result))) +
     mset (failed_orders demo_result) = mset [0, 1]"
  using every_order_engaged_or_failed [OF demo_solved(1)] by simp

theorem engaged_names_distinct_witness:
  "distinct (map (\<lambda>en. (se_address en, se_client_order_id en)) (engaged_orders (engaged_solver_orders_of demo_result)))"
  by (rule engaged_names_distinct [OF demo_solved(1)])

theorem engaged_within_collateral_witness:
  "\<exists>en\<in>set (engaged_orders (engaged_solver_orders_of demo_result)).
     se_engaged_collateral en \<le> s_remaining_collateral (demo_orders_two ! se_index_order en) +
       collateral_carried (demo_orders_two ! se_index_order en) + 0"
proof -
  obtain en ens where en: "engaged_orders (engaged_solver_orders_of demo_result) = en # ens"
    using demo_solved(2) by (cases "engaged_orders (engaged_solver_orders_of demo_result)") auto
  then have "engaged_price en = 40" using demo_solved(3) by simp
  then have "se_engaged_collateral en \<le> s_remaining_collateral (demo_orders_two ! se_index_order en) +
       collateral_carried (demo_orders_two ! se_index_order en) +
       0 * (1 + fee_factor demo_solver * (2 + 2 * engaged_price en + max_order_volley_size demo_solver + 0 * engaged_price en))"
    using en by (intro engaged_within_collateral [OF _ _ _ _ _ _ _ _ _ _ demo_solved(1), of 0 en]) (auto simp: evals)
  with en show ?thesis by simp
qed

theorem batch_fits_liquidity_witness:
  "\<exists>heap' kept qs totals bad bad'.
     allocate (dec_upto 1000000) demo_solver [(''I'', demo_market_basket)]
       ([(''A'', 10), (''B'', 20)], [(''A'', 30), (''B'', 30)], [(''I'', 40)]) demo_orders_two [0, 1] =
       (heap', Inr (kept, qs, totals, bad, bad')) \<and>
     amount_at ''A'' totals \<le> 30 + total (\<lambda>i. order_slack (dec_upto 1000000) demo_solver
       [(''I'', demo_market_basket)] [(''I'', 40)] 0 30 ''A'' (demo_orders_two ! i)) kept"
proof -
  let ?run = "allocate (dec_upto 1000000) demo_solver [(''I'', demo_market_basket)]
       ([(''A'', 10), (''B'', 20)], [(''A'', 30), (''B'', 30)], [(''I'', 40)]) demo_orders_two [0, 1]"
  obtain heap' kept qs totals bad bad' where run: "?run = (heap', Inr (kept, qs, totals, bad, bad'))"
    by (simp add: evals)
  have "amount_at ''A'' totals \<le> 30 + total (\<lambda>i. order_slack (dec_upto 1000000) demo_solver
       [(''I'', demo_market_basket)] [(''I'', 40)] 0 30 ''A'' (demo_orders_two ! i)) kept"
    by (rule batch_fits_liquidity [OF _ _ _ _ _ run])
      (auto simp: sound_market_def demo_market_basket_def demo_solver_def simple_solver_new_def
        demo_orders_two_def solver_order_new_def order_key_of_def)
  with run show ?thesis by blast
qed

theorem cap_leaves_asset_orders_witness:
  "\<exists>heap1 kept1 e1 bad1 heap2 kept2 e2 bad2.
     solve_engagements_for (dec_upto 1000000) demo_solver demo_host Buy 1000 demo_orders_two [0, 1] = (heap1, Inr (kept1, e1, bad1)) \<and>
     solve_engagements_for (dec_upto 1000000) demo_solver demo_host Buy 300 demo_orders_two [0, 1] = (heap2, Inr (kept2, e2, bad2)) \<and>
     map (\<lambda>(_, q, _). q) (quantity_contributions e1) = [20 / 3, 25 / 3] \<and>
     map (\<lambda>(_, q, _). q) (quantity_contributions e2) = [10 / 3, 25 / 6] \<and>
     asset_order_quantities e1 = asset_order_quantities e2"
proof -
  let ?run = "\<lambda>mv. solve_engagements_for (dec_upto 1000000) demo_solver demo_host Buy mv demo_orders_two [0, 1]"
  obtain heap1 kept1 e1 bad1 where 1: "?run 1000 = (heap1, Inr (kept1, e1, bad1))"
    "map (\<lambda>(_, q, _). q) (quantity_contributions e1) = [20 / 3, 25 / 3]"
    by (simp add: evals)
  obtain heap2 kept2 e2 bad2 where 2: "?run 300 = (heap2, Inr (kept2, e2, bad2))"
    "map (\<lambda>(_, q, _). q) (quantity_contributions e2) = [10 / 3, 25 / 6]"
    by (simp add: evals)
  show ?thesis
    by (intro exI conjI) (rule 1 2 cap_leaves_asset_orders [OF 1(1) 2(1)])+
qed

theorem padded_orders_are_whole_steps_witness:
  "\<exists>q k. map_of [(''A'', 2 :: amount)] ''A'' = Some q \<and>
     max 12 (min_asset_volley_size demo_solver) - 0 \<le> q * 10 \<and>
     q * 10 < max 12 (min_asset_volley_size demo_solver) + asset_volley_step_size demo_solver + 0 \<and>
     \<bar>q * 10 - of_int k * asset_volley_step_size demo_solver\<bar> \<le> 0"
proof (rule padded_orders_are_whole_steps [of "dec_upto 1000000" 0 demo_solver "[(''A'', 10)]" "[(''A'', 12)]"])
  have "\<lceil>3 / 2 :: amount\<rceil> = 2" by (simp add: ceiling_eq_iff)
  then show "pad_asset_volley_sizes (dec_upto 1000000) demo_solver [(''A'', 10)] [(''A'', 12)] = Inr [(''A'', 2)]"
    by (simp add: evals)
qed (auto simp: demo_solver_def simple_solver_new_def)

theorem fractions_share_the_whole_witness:
  "\<exists>heap' kept fractions.
     compute_asset_contribution_fractions_for (dec_upto 1000000) [(''A'', 30)]
       [((7, ''O1''), 5, [(''A'', 10)]), ((8, ''O2''), 10, [(''A'', 20)])] demo_orders_two [0, 1] =
       (heap', kept, fractions, []) \<and>
     \<bar>total (\<lambda>(_, fs). amount_at ''A'' fs) fractions - 1\<bar> \<le> 0 * of_nat (length [0, 1 :: nat])"
proof -
  let ?qs = "[((7, ''O1''), 5, [(''A'', 10)]), ((8, ''O2''), 10, [(''A'', 20)])] :: quantities"
  obtain heap' kept fractions where run: "compute_asset_contribution_fractions_for (dec_upto 1000000) [(''A'', 30)]
       ?qs demo_orders_two [0, 1] = (heap', kept, fractions, [])"
    by (simp add: evals)
  have "\<bar>total (\<lambda>(_, fs). amount_at ''A'' fs) fractions - 1\<bar> \<le> 0 * of_nat (length [0, 1 :: nat])"
    by (rule fractions_share_the_whole [OF _ _ run])
      (auto simp: summarise_asset_quantities_def amount_at_def demo_orders_two_def solver_order_new_def
        order_key_of_def fits_def)
  with run show ?thesis by blast
qed

definition demo_quotes :: "solver_quote list" where
  "demo_quotes = [solver_quote_new (1, 7) ''Q1'' ''I'' Buy 400 0, solver_quote_new (1, 8) ''Q2'' ''J'' Buy 800 0]"

theorem quotes_answered_are_known_witness:
  "\<exists>heap'. solve_quotes (dec_upto 1000000) demo_solver demo_host demo_quotes [0, 1] = (heap', Inr ([0], [])) \<and>
     mset [0] + mset [] = mset (filter (\<lambda>i. host_basket demo_host (q_symbol (demo_quotes ! i)) \<noteq> None) [0, 1])"
proof -
  have "\<exists>heap'. solve_quotes (dec_upto 1000000) demo_solver demo_host demo_quotes [0, 1] = (heap', Inr ([0], []))"
    by (simp add: evals demo_quotes_def solver_quote_new_def solve_quotes_def solve_quotes_for_def set_quote_status_def)
  with quotes_answered_are_known show ?thesis by blast
qed

end
