(* ===== verification/Solver.thy ===== *)
theory Solver
  imports SimpleSolver IndexOrderManager InventoryManager
begin

text \<open>
  The solver, \<open>src/solver/solver.rs\<close>: the component that owns the clients' queues and drives all
  others. Its state holds the state of every component it reaches through a shared reference; a call
  on a component replaces that part. The orders it shares with the batch manager are the heap of its
  own queues, which it lends to the manager for each call (\<open>with_batches\<close>). Events a component
  publishes are not handled during the call that publishes them: they go through a channel and come
  back to the handlers below, so they are recorded, in order, in the component's list of effects.
  Calls on the chain connector return nothing and are recorded. Storing is left out, except for the
  solver's own snapshot.
\<close>

section \<open>Data\<close>

datatype solver_status = Created | WarmingUp | Running | ShuttingDown | Stopped

text \<open>\<open>IntoPrimitive\<close> and \<open>TryFromPrimitive\<close> of an enumeration represented by a byte.\<close>

fun status_into :: "solver_status \<Rightarrow> 8 word" where
  "status_into Created = 0"
| "status_into WarmingUp = 1"
| "status_into Running = 2"
| "status_into ShuttingDown = 3"
| "status_into Stopped = 4"

definition status_try_from :: "8 word \<Rightarrow> solver_status option" where
  "status_try_from b =
     (if b = 0 then Some Created else if b = 1 then Some WarmingUp else if b = 2 then Some Running
      else if b = 3 then Some ShuttingDown else if b = 4 then Some Stopped else None)"

record solver_strategy =
  query_collateral :: "strategy_host \<Rightarrow> solver_order \<Rightarrow> collateral_management result"
  engage_batch :: "strategy_host \<Rightarrow> solver_order list \<Rightarrow> nat list \<Rightarrow>
    solver_order list \<times> solve_engagements_result option outcome"
  answer_quotes :: "strategy_host \<Rightarrow> solver_quote list \<Rightarrow> nat list \<Rightarrow>
    solver_quote list \<times> (nat list \<times> nat list) result"

datatype chain_call =
    SolverWeightsSet symbol basket
  | MintIndex u32 symbol amount address u256 amount timestamp
  | PollOnce u32 address symbol

datatype chain_notification =
    CuratorWeightsSet symbol basket_definition
  | ChainDeposit u32 address u256 amount timestamp
  | WithdrawalRequest u32 address amount timestamp
  | ChainConnected u32 timestamp
  | ChainDisconnected u32 string timestamp

text \<open>
  The parameters: the strategy, the constants of the solver and of the components, the answers of
  the market's sessions and of the bridges, the identifiers handed out, the order in which hash maps
  are listed, and the clock.
\<close>

record 's solver_env =
  strategy_of :: solver_strategy
  order_env_of :: "'s order_env"
  batch_env_of :: batch_env
  router_of :: collateral_router
  bridge_says :: "transfer_call \<Rightarrow> unit result"
  session_send :: "session_id \<Rightarrow> single_order \<Rightarrow> unit result"
  payment_id_of :: "nat \<Rightarrow> payment_id"
  batch_id_of :: "nat \<Rightarrow> batch_order_id"
  arrange_of :: "symbol list \<Rightarrow> symbol list"
  listing_for :: "basket_manager \<Rightarrow> (symbol \<times> basket) list"
  clock :: timestamp
  batch_limit :: nat
  negligible :: amount
  order_expiry_after :: duration

record 's solver =
  status_byte :: "8 word"
  sol_orders :: solver_client_orders
  sol_quotes :: solver_client_quotes
  ready_orders :: "nat list"
  solver_mints :: "nat list"
  sol_batches :: batch_manager
  sol_collateral :: collateral_manager
  collateral_events :: "collateral_event list"
  transfer_calls :: "transfer_call list"
  sol_index_orders :: "'s index_order_manager"
  sol_quote_requests :: quote_request_manager
  sol_inventory :: inventory_manager
  sol_tracker :: order_tracker
  sol_baskets :: basket_manager
  basket_events :: "basket_notification list"
  sol_prices :: price_tracker
  sol_books :: book_manager
  chain_calls :: "chain_call list"
  next_payment :: nat
  next_batch :: nat

abbreviation (input) env_dec :: "'s solver_env \<Rightarrow> dec_ops" where
  "env_dec E \<equiv> order_dec (order_env_of E)"

text \<open>Running one step after another, up to the first failure or panic.\<close>

definition and_then :: "'a \<times> unit outcome \<Rightarrow> ('a \<Rightarrow> 'a \<times> unit outcome) \<Rightarrow> 'a \<times> unit outcome" where
  "and_then r k = (case r of (s, Returns (Inr _)) \<Rightarrow> k s | (s, Returns (Inl e)) \<Rightarrow> (s, Returns (Inl e)) | (s, Panic) \<Rightarrow> (s, Panic))"

definition ok :: "'a \<Rightarrow> 'a \<times> unit outcome" where
  "ok s = (s, Returns (Inr ()))"

text \<open>A failure that is only logged; a panic is not caught.\<close>

definition logged :: "'a \<times> unit outcome \<Rightarrow> 'a \<times> unit outcome" where
  "logged r = (case r of (s, Panic) \<Rightarrow> (s, Panic) | (s, Returns _) \<Rightarrow> ok s)"

section \<open>The components it calls\<close>

definition order_at :: "'s solver \<Rightarrow> nat \<Rightarrow> solver_order" where
  "order_at S i = co_heap (sol_orders S) ! i"

definition write_order :: "nat \<Rightarrow> solver_order \<Rightarrow> 's solver \<Rightarrow> 's solver" where
  "write_order i s S =
     S\<lparr>sol_orders := (sol_orders S)\<lparr>co_heap := (co_heap (sol_orders S))[i := s]\<rparr>\<rparr>"

definition solver_set_status :: "nat \<Rightarrow> solver_order_status \<Rightarrow> 's solver \<Rightarrow> 's solver" where
  "solver_set_status i st S = write_order i (set_order_status (order_at S i) st) S"

definition with_index_orders ::
  "'s solver \<Rightarrow> 's index_order_manager \<times> unit outcome \<Rightarrow> 's solver \<times> unit outcome" where
  "with_index_orders S r = (case r of (m, x) \<Rightarrow> (S\<lparr>sol_index_orders := m\<rparr>, x))"

definition fail_order ::
  "'s solver_env \<Rightarrow> 's solver \<Rightarrow> nat \<Rightarrow> timestamp \<Rightarrow> 's solver \<times> unit outcome" where
  "fail_order E S i ts =
     (let s = order_at S i
      in with_index_orders S
           (order_failed (order_env_of E) (sol_index_orders S) (s_chain_id s) (s_address s)
              (s_client_order_id s) (s_symbol s) ts))"

definition host_of :: "'s solver_env \<Rightarrow> 's solver \<Rightarrow> strategy_host" where
  "host_of E S = \<lparr>host_batch_order_id = batch_id_of E (next_batch S),
     host_basket = get_basket (sol_baskets S),
     host_prices = get_prices (env_dec E) (arrange_of E) (sol_prices S),
     host_liquidity = bm_get_liquidity (env_dec E) (sol_books S),
     host_liquidity_levels = bm_get_liquidity_levels (env_dec E) (sol_books S),
     host_total_volley_size = Inr (total_volley_size (sol_batches S))\<rparr>"

text \<open>
  What the batch manager asks of its host during a call is answered from the state the earlier
  requests of the same call have left: \<open>replay\<close> is that state, \<open>None\<close> if one of them panicked.
\<close>

fun replay ::
  "'s solver_env \<Rightarrow> order_tracker \<times> 's index_order_manager \<Rightarrow> batch_effect list \<Rightarrow>
     (order_tracker \<times> 's index_order_manager) option" where
  "replay E (t, m) [] = Some (t, m)"
| "replay E (t, m) (SendOrderBatch b # es) = replay E (fst (new_order_batch (session_send E) t b), m) es"
| "replay E (t, m) (FillOrderRequest r # es) =
     (case fill_order_request (order_env_of E) m (fr_chain_id r) (fr_address r) (fr_client_order_id r)
             (fr_symbol r) (fr_collateral_spent r) (fr_fill_amount r) (fr_fill_rate r) (fr_status r)
             (fr_timestamp r) of
        (_, Panic) \<Rightarrow> None
      | (m', Returns _) \<Rightarrow> replay E (t, m') es)"
| "replay E (t, m) (PublishBatch _ # es) = replay E (t, m) es"

definition answer_send ::
  "'s solver_env \<Rightarrow> 's solver \<Rightarrow> batch_effect list \<Rightarrow> batch_order \<Rightarrow> unit result" where
  "answer_send E S es b =
     (case replay E (sol_tracker S, sol_index_orders S) es of
        None \<Rightarrow> Inl ''panic''
      | Some (t, _) \<Rightarrow> snd (new_order_batch (session_send E) t b))"

definition answer_fill ::
  "'s solver_env \<Rightarrow> 's solver \<Rightarrow> batch_effect list \<Rightarrow> fill_request \<Rightarrow> unit result" where
  "answer_fill E S es r =
     (case replay E (sol_tracker S, sol_index_orders S) es of
        None \<Rightarrow> Inl ''panic''
      | Some (_, m) \<Rightarrow>
          (case snd (fill_order_request (order_env_of E) m (fr_chain_id r) (fr_address r)
                       (fr_client_order_id r) (fr_symbol r) (fr_collateral_spent r) (fr_fill_amount r)
                       (fr_fill_rate r) (fr_status r) (fr_timestamp r)) of
             Panic \<Rightarrow> Inl ''panic''
           | Returns x \<Rightarrow> x))"

definition batch_env_for :: "'s solver_env \<Rightarrow> 's solver \<Rightarrow> batch_env" where
  "batch_env_for E S =
     (let n = length (effects (sol_batches S))
      in (batch_env_of E)\<lparr>send_answer := (\<lambda>es. answer_send E S (drop n es)),
                          fill_answer := (\<lambda>es. answer_fill E S (drop n es))\<rparr>)"

definition with_batches ::
  "'s solver_env \<Rightarrow> 's solver \<Rightarrow> (batch_env \<Rightarrow> batch_manager \<Rightarrow> batch_manager \<times> 'a outcome) \<Rightarrow>
     's solver \<times> 'a outcome" where
  "with_batches E S f =
     (let m = (sol_batches S)\<lparr>order_heap := co_heap (sol_orders S)\<rparr>;
          (m', x) = f (batch_env_for E S) m
      in case replay E (sol_tracker S, sol_index_orders S) (drop (length (effects (sol_batches S))) (effects m')) of
           None \<Rightarrow> (S, Panic)
         | Some (t, iom) \<Rightarrow>
             (S\<lparr>sol_batches := m', sol_orders := (sol_orders S)\<lparr>co_heap := order_heap m'\<rparr>,
                sol_tracker := t, sol_index_orders := iom\<rparr>, x))"

section \<open>Status\<close>

definition solver_new ::
  "batch_manager \<Rightarrow> collateral_manager \<Rightarrow> 's index_order_manager \<Rightarrow> quote_request_manager \<Rightarrow>
     inventory_manager \<Rightarrow> order_tracker \<Rightarrow> basket_manager \<Rightarrow> price_tracker \<Rightarrow> book_manager \<Rightarrow>
     duration \<Rightarrow> duration \<Rightarrow> 's solver" where
  "solver_new bm cm iom qm im t bs ps ob order_wait quote_wait =
     \<lparr>status_byte = status_into Created, sol_orders = solver_client_orders_new order_wait,
      sol_quotes = solver_client_quotes_new quote_wait, ready_orders = [], solver_mints = [],
      sol_batches = bm, sol_collateral = cm, collateral_events = [], transfer_calls = [],
      sol_index_orders = iom, sol_quote_requests = qm, sol_inventory = im, sol_tracker = t,
      sol_baskets = bs, basket_events = [], sol_prices = ps, sol_books = ob, chain_calls = [],
      next_payment = 0, next_batch = 0\<rparr>"

text \<open>\<open>None\<close> is the panic of \<open>expect\<close> on a byte that is no status.\<close>

definition get_status :: "'s solver \<Rightarrow> solver_status option" where
  "get_status S = status_try_from (status_byte S)"

definition set_solver_status :: "solver_status \<Rightarrow> 's solver \<Rightarrow> 's solver" where
  "set_solver_status st S = S\<lparr>status_byte := status_into st\<rparr>"

definition begin_warming_up :: "'s solver \<Rightarrow> 's solver \<times> unit outcome" where
  "begin_warming_up S = ok (set_solver_status WarmingUp S)"

definition complete_warming_up :: "'s solver_env \<Rightarrow> 's solver \<Rightarrow> 's solver \<times> unit outcome" where
  "complete_warming_up E S =
     (let symbols = map ticker (get_all_assets (listing_for E (sol_baskets S)));
          res = get_prices (env_dec E) (arrange_of E) (sol_prices S) MidPoint symbols
      in ok (if missing_symbols res = [] then set_solver_status Running S else S))"

definition initiate_shutdown :: "'s solver \<Rightarrow> 's solver" where
  "initiate_shutdown S = set_solver_status ShuttingDown S"

text \<open>The status of the batches is only logged.\<close>

definition complete_shutdown :: "'s solver_env \<Rightarrow> 's solver \<Rightarrow> timestamp \<Rightarrow> 's solver \<times> unit outcome" where
  "complete_shutdown E S ts =
     (case with_batches E S (\<lambda>BE m. process_batches BE m ts) of
        (S', Panic) \<Rightarrow> (S', Panic)
      | (S', Returns _) \<Rightarrow> ok (set_solver_status Stopped S'))"

definition is_accepting_orders :: "'s solver \<Rightarrow> bool option" where
  "is_accepting_orders S = map_option (\<lambda>st. st = Running) (get_status S)"

section \<open>Engaging orders\<close>

definition get_order_batch :: "'s solver_env \<Rightarrow> 's solver \<Rightarrow> 's solver \<times> nat list" where
  "get_order_batch E S =
     (let n = min (length (ready_orders S)) (batch_limit E)
      in (S\<lparr>ready_orders := drop n (ready_orders S)\<rparr>, take n (ready_orders S)))"

definition put_order_back :: "'s solver \<Rightarrow> nat \<Rightarrow> timestamp \<Rightarrow> 's solver" where
  "put_order_back S i ts = S\<lparr>sol_orders := put_back (sol_orders S) i SolverReady ts\<rparr>"

fun handle_failed_orders ::
  "'s solver_env \<Rightarrow> 's solver \<Rightarrow> nat list \<Rightarrow> timestamp \<Rightarrow> 's solver \<times> unit outcome" where
  "handle_failed_orders E S [] ts = ok S"
| "handle_failed_orders E S (i # is) ts =
     and_then (if s_status (order_at S i) = ServiceUnavailable then ok (put_order_back S i ts)
               else fail_order E S i ts)
       (\<lambda>S'. handle_failed_orders E S' is ts)"

text \<open>
  Engagements too small to be worth it: the orders that are mintable are minted, the others are
  reported as failed; a failure to do so is only logged.
\<close>

fun drop_orders ::
  "'s solver_env \<Rightarrow> 's solver \<Rightarrow> nat list \<Rightarrow> timestamp \<Rightarrow> 's solver \<times> unit outcome" where
  "drop_orders E S [] ts = ok S"
| "drop_orders E S (i # is) ts =
     and_then (logged (fail_order E S i ts)) (\<lambda>S'. drop_orders E S' is ts)"

definition settle_unengaged ::
  "'s solver_env \<Rightarrow> 's solver \<Rightarrow> nat list \<Rightarrow> timestamp \<Rightarrow> 's solver \<times> unit outcome" where
  "settle_unengaged E S left_out ts =
     (let mintable = (\<lambda>i. s_status (order_at S i) = PartlyMintable)
      in drop_orders E (S\<lparr>solver_mints := solver_mints S @ filter mintable left_out\<rparr>)
           (filter (\<lambda>i. \<not> mintable i) left_out) ts)"

definition engage_request :: "engagement \<Rightarrow> engage_order_request" where
  "engage_request e = \<lparr>er_chain_id = se_chain_id e, er_address = se_address e,
     er_client_order_id = se_client_order_id e, er_symbol = se_symbol e,
     er_collateral_amount = new_engaged_collateral e\<rparr>"

text \<open>The batch manager books the batch first; then the index order manager engages its orders.\<close>

definition send_engagements ::
  "'s solver_env \<Rightarrow> 's solver \<Rightarrow> engaged_solver_orders \<Rightarrow> 's solver \<times> unit outcome" where
  "send_engagements E S es =
     (if engaged_orders es = [] then ok S
      else case handle_new_engagement (sol_batches S) es of
             (bm, Inl e) \<Rightarrow> (S\<lparr>sol_batches := bm\<rparr>, Returns (Inl e))
           | (bm, Inr bid) \<Rightarrow>
               with_index_orders (S\<lparr>sol_batches := bm\<rparr>)
                 (engage_orders (order_env_of E) (sol_index_orders S) bid
                    (map engage_request (engaged_orders es)) (clock E)))"

text \<open>The strategy works on the heap of orders; every call may take a batch identifier.\<close>

definition run_strategy ::
  "'s solver_env \<Rightarrow> 's solver \<Rightarrow> nat list \<Rightarrow> 's solver \<times> solve_engagements_result option outcome" where
  "run_strategy E S batch =
     (case engage_batch (strategy_of E) (host_of E S) (co_heap (sol_orders S)) batch of
        (heap, x) \<Rightarrow>
          (S\<lparr>sol_orders := (sol_orders S)\<lparr>co_heap := heap\<rparr>, next_batch := Suc (next_batch S)\<rparr>, x))"

definition engage_result ::
  "'s solver_env \<Rightarrow> 's solver \<Rightarrow> solve_engagements_result \<Rightarrow> timestamp \<Rightarrow> 's solver \<times> unit outcome" where
  "engage_result E S r ts =
     and_then (handle_failed_orders E S (failed_orders r) ts) (\<lambda>S1.
       let es = engaged_solver_orders_of r;
           kept = filter (\<lambda>e. negligible E < se_engaged_collateral e) (engaged_orders es);
           left_out = map se_index_order (filter (\<lambda>e. \<not> negligible E < se_engaged_collateral e) (engaged_orders es))
       in and_then (settle_unengaged E S1 left_out ts) (\<lambda>S2.
            send_engagements E S2 (es\<lparr>engaged_orders := kept\<rparr>)))"

text \<open>
  A batch the strategy fails on is put back; a batch it declines (\<open>None\<close>) has been taken off the
  queue and is not put back.
\<close>

definition engage_more_orders ::
  "'s solver_env \<Rightarrow> 's solver \<Rightarrow> timestamp \<Rightarrow> 's solver \<times> unit outcome" where
  "engage_more_orders E S ts =
     (case is_accepting_orders S of
        None \<Rightarrow> (S, Panic)
      | Some accepting \<Rightarrow>
          if \<not> accepting then ok S
          else let (S1, batch) = get_order_batch E S
          in if batch = [] then ok S1
             else case run_strategy E S1 batch of
                    (S2, Panic) \<Rightarrow> (S2, Panic)
                  | (S2, Returns (Inl e)) \<Rightarrow>
                      (fold (\<lambda>i S. put_order_back S i ts) batch S2, Returns (Inl e))
                  | (S2, Returns (Inr None)) \<Rightarrow> ok S2
                  | (S2, Returns (Inr (Some r))) \<Rightarrow> engage_result E S2 r ts)"

section \<open>Serving clients\<close>

definition manage_order_collateral :: "'s solver_env \<Rightarrow> 's solver \<Rightarrow> nat \<Rightarrow> 's solver \<times> unit outcome" where
  "manage_order_collateral E S i =
     (let S1 = solver_set_status i ManageCollateral S
      in case query_collateral (strategy_of E) (host_of E S1) (order_at S1 i) of
           Inl e \<Rightarrow> (S1, Returns (Inl e))
         | Inr req \<Rightarrow> ok (S1\<lparr>sol_collateral := manage_collateral (sol_collateral S1) req\<rparr>))"

text \<open>The failure is reported with the time of the order, which shadows the current one.\<close>

definition serve_client :: "'s solver_env \<Rightarrow> 's solver \<Rightarrow> nat \<Rightarrow> 's solver \<times> unit outcome" where
  "serve_client E S i =
     (let ts = s_timestamp (order_at S i)
      in case (case s_status (order_at S i) of
                 Open \<Rightarrow> manage_order_collateral E S i
               | SolverReady \<Rightarrow> ok (S\<lparr>ready_orders := ready_orders S @ [i]\<rparr>)
               | _ \<Rightarrow> (S, Returns (Inl ''Programming error: Expected either Open | Ready order status''))) of
           (S1, Panic) \<Rightarrow> (S1, Panic)
         | (S1, Returns (Inr _)) \<Rightarrow> ok S1
         | (S1, Returns (Inl e)) \<Rightarrow> fail_order E (solver_set_status i InternalError S1) i ts)"

abbreviation (input) waiting :: "'s solver \<Rightarrow> client_key list" where
  "waiting S \<equiv> client_notify_queue (sol_orders S)"

lemma waiting_write [simp]:
  "waiting (write_order i s S) = waiting S"
  "waiting (solver_set_status i st S) = waiting S"
  by (simp_all add: write_order_def solver_set_status_def)

lemma waiting_fail_order: "waiting (fst (fail_order E S i ts)) = waiting S"
  by (simp add: fail_order_def with_index_orders_def Let_def split: prod.splits)

lemma waiting_serve_client: "waiting (fst (serve_client E S i)) = waiting S"
  by (auto simp: serve_client_def manage_order_collateral_def ok_def Let_def waiting_fail_order
      split: solver_order_status.splits sum.splits)

lemma next_order_shortens:
  assumes "get_next_client_order co ts = (co', Some i)"
  shows "length (client_notify_queue co') < length (client_notify_queue co)"
  using assms by (auto simp: get_next_client_order_def split: list.splits option.splits if_splits)

function serve_more_clients :: "'s solver_env \<Rightarrow> 's solver \<Rightarrow> timestamp \<Rightarrow> 's solver \<times> unit outcome" where
  "serve_more_clients E S ts =
     (case get_next_client_order (sol_orders S) ts of
        (co, None) \<Rightarrow> ok (S\<lparr>sol_orders := co\<rparr>)
      | (co, Some i) \<Rightarrow>
          (case serve_client E (S\<lparr>sol_orders := co\<rparr>) i of
             (S', Returns (Inr _)) \<Rightarrow> serve_more_clients E S' ts
           | (S', x) \<Rightarrow> (S', x)))"
  by pat_completeness auto

termination serve_more_clients
proof (relation "measure (\<lambda>(E, S, ts). length (waiting S))")
  fix E :: "'s solver_env" and S :: "'s solver" and ts co y i S' z x b
  assume next_order: "(co, y) = get_next_client_order (sol_orders S) ts" "y = Some i"
    and served: "(S', z) = serve_client E (S\<lparr>sol_orders := co\<rparr>) i"
  have "waiting S' = client_notify_queue co"
    using waiting_serve_client [of E "S\<lparr>sol_orders := co\<rparr>" i] by (simp flip: served)
  then show "((E, S', ts), (E, S, ts)) \<in> measure (\<lambda>(E, S, ts). length (waiting S))"
    using next_order_shortens [OF next_order(1) [symmetric, unfolded next_order(2)]] by simp
qed auto

declare serve_more_clients.simps [simp del]

section \<open>Quotes\<close>

text \<open>All quotes that are ready are taken off the queue.\<close>

function take_quotes :: "solver_client_quotes \<Rightarrow> timestamp \<Rightarrow> solver_client_quotes \<times> nat list" where
  "take_quotes cq ts =
     (case get_next_client_quote cq ts of
        (cq', None) \<Rightarrow> (cq', [])
      | (cq', Some i) \<Rightarrow> (case take_quotes cq' ts of (cq'', is) \<Rightarrow> (cq'', i # is)))"
  by pat_completeness auto

termination take_quotes
proof (relation "measure (\<lambda>(cq, ts). length (quote_notify_queue cq))")
  fix cq :: solver_client_quotes and ts cq' y i
  assume "(cq', y) = get_next_client_quote cq ts" "y = Some i"
  then have "get_next_client_quote cq ts = (cq', Some i)" by simp
  then show "((cq', ts), (cq, ts)) \<in> measure (\<lambda>(cq, ts). length (quote_notify_queue cq))"
    by (auto simp: get_next_client_quote_def Let_def split: list.splits option.splits if_splits)
qed auto

declare take_quotes.simps [simp del]

definition stamp_quotes :: "timestamp \<Rightarrow> nat list \<Rightarrow> solver_quote list \<Rightarrow> solver_quote list" where
  "stamp_quotes ts is heap = fold (\<lambda>i h. h[i := (h ! i)\<lparr>q_timestamp := ts\<rparr>]) is heap"

definition process_more_quotes :: "'s solver_env \<Rightarrow> 's solver \<Rightarrow> timestamp \<Rightarrow> 's solver \<times> unit outcome" where
  "process_more_quotes E S ts =
     (case take_quotes (sol_quotes S) ts of
        (cq, batch) \<Rightarrow>
          if batch = [] then ok (S\<lparr>sol_quotes := cq\<rparr>)
          else (case answer_quotes (strategy_of E) (host_of E S) (cq_heap cq) batch of
                  (heap, Inl e) \<Rightarrow> (S\<lparr>sol_quotes := cq\<lparr>cq_heap := heap\<rparr>\<rparr>, Returns (Inl e))
                | (heap, Inr (solved, failed)) \<Rightarrow>
                    (let heap' = stamp_quotes ts (solved @ failed) heap;
                         (qm, x) = quotes_solved (sol_quote_requests S) (map ((!) heap') solved)
                                     (map ((!) heap') failed)
                     in (S\<lparr>sol_quotes := cq\<lparr>cq_heap := heap'\<rparr>, sol_quote_requests := qm\<rparr>, Returns x))))"

section \<open>Minting\<close>

definition mint_index_order ::
  "'s solver_env \<Rightarrow> 's solver \<Rightarrow> nat \<Rightarrow> timestamp \<Rightarrow> 's solver \<times> unit outcome" where
  "mint_index_order E S i ts =
     (let s = order_at S i
      in case s_payment_id s of
           None \<Rightarrow> (S, Returns (Inl ''Missing payment ID''))
         | Some pid \<Rightarrow>
             (case cm_confirm_payment (env_dec E) (sol_collateral S) (s_chain_id s) (s_address s)
                     (s_client_order_id s) pid ts (s_side s) (collateral_routed s) of
                (cm, evs, x) \<Rightarrow>
                  (S\<lparr>sol_collateral := cm, collateral_events := collateral_events S @ evs\<rparr>, Returns x)))"

text \<open>All mints are taken off the queue; the first that fails ends the loop.\<close>

fun mint_each :: "'s solver_env \<Rightarrow> 's solver \<Rightarrow> nat list \<Rightarrow> timestamp \<Rightarrow> 's solver \<times> unit outcome" where
  "mint_each E S [] ts = ok S"
| "mint_each E S (i # is) ts = and_then (mint_index_order E S i ts) (\<lambda>S'. mint_each E S' is ts)"

definition mint_indexes :: "'s solver_env \<Rightarrow> 's solver \<Rightarrow> timestamp \<Rightarrow> 's solver \<times> unit outcome" where
  "mint_indexes E S ts = mint_each E (S\<lparr>solver_mints := []\<rparr>) (solver_mints S) ts"

section \<open>One tick\<close>

definition process_collateral_step :: "'s solver_env \<Rightarrow> 's solver \<Rightarrow> timestamp \<Rightarrow> 's solver \<times> unit outcome" where
  "process_collateral_step E S ts =
     (case process_collateral (bridge_says E) (router_of E) (sol_collateral S) ts of
        (cm, evs, calls, x) \<Rightarrow>
          (S\<lparr>sol_collateral := cm, collateral_events := collateral_events S @ evs,
             transfer_calls := transfer_calls S @ calls\<rparr>, x))"

definition process_batches_step :: "'s solver_env \<Rightarrow> 's solver \<Rightarrow> timestamp \<Rightarrow> 's solver \<times> unit outcome" where
  "process_batches_step E S ts =
     (case with_batches E S (\<lambda>BE m. process_batches BE m ts) of
        (S', Panic) \<Rightarrow> (S', Panic)
      | (S', Returns _) \<Rightarrow> ok S')"

definition run_tick :: "'s solver_env \<Rightarrow> 's solver \<Rightarrow> timestamp \<Rightarrow> 's solver \<times> unit outcome" where
  "run_tick E S ts =
     and_then (logged (process_collateral_step E S ts)) (\<lambda>S.
     and_then (logged (mint_indexes E S ts)) (\<lambda>S.
     and_then (logged (serve_more_clients E S ts)) (\<lambda>S.
     and_then (logged (engage_more_orders E S ts)) (\<lambda>S.
     and_then (process_batches_step E S ts) (\<lambda>S.
       logged (process_more_quotes E S ts))))))"

text \<open>\<open>solve\<close> returns the status it found.\<close>

definition solve :: "'s solver_env \<Rightarrow> 's solver \<Rightarrow> timestamp \<Rightarrow> 's solver \<times> solver_status outcome" where
  "solve E S ts =
     (case get_status S of
        None \<Rightarrow> (S, Panic)
      | Some st \<Rightarrow>
          (case (case st of
                   Created \<Rightarrow> begin_warming_up S
                 | WarmingUp \<Rightarrow> complete_warming_up E S
                 | Running \<Rightarrow> run_tick E S ts
                 | ShuttingDown \<Rightarrow> complete_shutdown E S ts
                 | Stopped \<Rightarrow> ok S) of
             (S', Panic) \<Rightarrow> (S', Panic)
           | (S', Returns (Inl _)) \<Rightarrow> (initiate_shutdown S', Returns (Inr st))
           | (S', Returns (Inr _)) \<Rightarrow> (S', Returns (Inr st))))"

definition solver_solve_quotes :: "'s solver_env \<Rightarrow> 's solver \<Rightarrow> timestamp \<Rightarrow> 's solver \<times> unit outcome" where
  "solver_solve_quotes E S ts = logged (process_more_quotes E S ts)"

section \<open>Handlers\<close>

definition take_payment_id :: "'s solver_env \<Rightarrow> 's solver \<Rightarrow> 's solver \<times> payment_id" where
  "take_payment_id E S = (S\<lparr>next_payment := Suc (next_payment S)\<rparr>, payment_id_of E (next_payment S))"

text \<open>
  A definition whose basket cannot be built is only logged. The deposit and the withdrawal each
  take a payment identifier.
\<close>

fun handle_chain_event :: "'s solver_env \<Rightarrow> 's solver \<Rightarrow> chain_notification \<Rightarrow> 's solver \<times> unit outcome" where
  "handle_chain_event E S (CuratorWeightsSet sy def) =
     (let res = get_prices (env_dec E) (arrange_of E) (sol_prices S) VolumeWeighted
                  (map (\<lambda>w. ticker (w_asset w)) (weights def))
      in case set_basket_from_definition (env_dec E) (sol_baskets S) sy def (map_of (r_prices res)) 1000 of
           (bm, evs, _) \<Rightarrow> ok (S\<lparr>sol_baskets := bm, basket_events := basket_events S @ evs\<rparr>))"
| "handle_chain_event E S (ChainDeposit chain addr seq_num amount ts) =
     (let (S1, pid) = take_payment_id E S
      in case handle_deposit (env_dec E) (sol_collateral S1) pid chain addr seq_num amount ts of
           (cm, x) \<Rightarrow> (S1\<lparr>sol_collateral := cm\<rparr>, Returns x))"
| "handle_chain_event E S (WithdrawalRequest chain addr amount ts) =
     (let (S1, pid) = take_payment_id E S
      in case handle_withdrawal (env_dec E) (sol_collateral S1) pid chain addr amount ts of
           (cm, x) \<Rightarrow> (S1\<lparr>sol_collateral := cm\<rparr>, Returns x))"
| "handle_chain_event E S (ChainConnected chain ts) = ok S"
| "handle_chain_event E S (ChainDisconnected chain reason ts) = ok S"

fun handle_batch_event :: "'s solver \<Rightarrow> batch_event \<Rightarrow> 's solver \<times> unit outcome" where
  "handle_batch_event S (BatchComplete bid continued) = ok (S\<lparr>ready_orders := ready_orders S @ continued\<rparr>)"
| "handle_batch_event S (BatchMintable mintable) = ok (S\<lparr>solver_mints := solver_mints S @ mintable\<rparr>)"

definition call_chain :: "chain_call \<Rightarrow> 's solver \<Rightarrow> 's solver" where
  "call_chain c S = S\<lparr>chain_calls := chain_calls S @ [c]\<rparr>"

text \<open>Collateral reached its destination: a payment is authorized, and the order manager is told.\<close>

definition collateral_arrived ::
  "'s solver_env \<Rightarrow> 's solver \<Rightarrow> nat \<Rightarrow> u32 \<Rightarrow> address \<Rightarrow> client_order_id \<Rightarrow> amount \<Rightarrow> amount \<Rightarrow> timestamp \<Rightarrow>
     's solver \<times> unit outcome" where
  "collateral_arrived E S i chain addr coid amount fee ts =
     (let S1 = write_order i ((order_at S i)\<lparr>collateral_routed := amount\<rparr>) S;
          sd = s_side (order_at S i); sy = s_symbol (order_at S i);
          (S2, pid) = take_payment_id E S1
      in case cm_preauth_payment (env_dec E) (sol_collateral S2) pid chain addr coid ts sd amount of
           (cm, evs, Inl e) \<Rightarrow>
             (S2\<lparr>sol_collateral := cm, collateral_events := collateral_events S2 @ evs\<rparr>, Returns (Inl e))
         | (cm, evs, Inr _) \<Rightarrow>
             (case collateral_ready (order_env_of E) (sol_index_orders S2) chain addr coid sy amount fee ts of
                (iom, x) \<Rightarrow>
                  (S2\<lparr>sol_collateral := cm, collateral_events := collateral_events S2 @ evs,
                      sol_index_orders := iom\<rparr>, Returns x)))"

definition fail_named ::
  "'s solver_env \<Rightarrow> 's solver \<Rightarrow> u32 \<Rightarrow> address \<Rightarrow> client_order_id \<Rightarrow> symbol \<Rightarrow> timestamp \<Rightarrow> 's solver \<times> unit outcome" where
  "fail_named E S chain addr coid sy ts =
     with_index_orders S (order_failed (order_env_of E) (sol_index_orders S) chain addr coid sy ts)"

text \<open>
  The order is tried again unless another order of the user waits or it has expired.
\<close>

definition collateral_later ::
  "'s solver_env \<Rightarrow> 's solver \<Rightarrow> nat \<Rightarrow> u32 \<Rightarrow> address \<Rightarrow> client_order_id \<Rightarrow> timestamp \<Rightarrow> 's solver \<times> unit outcome" where
  "collateral_later E S i chain addr coid ts =
     (let s = order_at S i
      in if peek_next_client_order (sol_orders S) (chain, addr) ts = None \<and>
            ts - s_created_timestamp s < order_expiry_after E
         then ok (call_chain (PollOnce chain addr (s_symbol s))
                    (S\<lparr>sol_orders := put_back (sol_orders S) i Open ts\<rparr>))
         else fail_named E (solver_set_status i InvalidCollateral S) chain addr coid (s_symbol s) ts)"

text \<open>The answer to a payment's authorization.\<close>

definition payment_approved ::
  "'s solver \<Rightarrow> nat \<Rightarrow> payment_id \<Rightarrow> 's solver \<times> unit outcome" where
  "payment_approved S i pid =
     (let s = order_at S i;
          S1 = write_order i (s\<lparr>s_payment_id := Some pid\<rparr>) S
      in if s_payment_id s \<noteq> None then (S1, Returns (Inl ''Payment ID already set''))
         else if s_status s = SolverReady then ok (S1\<lparr>ready_orders := ready_orders S1 @ [i]\<rparr>)
         else ok (solver_set_status i SolverReady S1))"

text \<open>The payment is confirmed: the index is minted, lots are assigned, the order is reported.\<close>

definition payment_confirmed ::
  "'s solver_env \<Rightarrow> 's solver \<Rightarrow> nat \<Rightarrow> u32 \<Rightarrow> address \<Rightarrow> client_order_id \<Rightarrow> payment_id \<Rightarrow> amount \<Rightarrow> timestamp \<Rightarrow>
     u256 list \<Rightarrow> collateral_position \<Rightarrow> 's solver \<times> unit outcome" where
  "payment_confirmed E S i chain addr coid pid amount_paid ts seq_nums position =
     (let s = order_at S i;
          last_seq_num = (if seq_nums = [] then 0 else last seq_nums);
          S1 = call_chain (MintIndex (s_chain_id s) (s_symbol s) (s_filled_quantity s) (s_address s)
                 last_seq_num amount_paid ts) S
      in case compress_lots (env_dec E) s of
           (s1, Inl e) \<Rightarrow> (write_order i s1 S1, Returns (Inl e))
         | (s1, Inr _) \<Rightarrow>
             (let entries = collect_lot_assignments s1 last_seq_num
              in case im_assign_lots (sol_inventory S) entries (remdups (map (\<lambda>((sy, _), _). sy) entries)) of
                   (im, Inl e) \<Rightarrow> ((write_order i s1 S1)\<lparr>sol_inventory := im\<rparr>, Returns (Inl e))
                 | (im, Inr _) \<Rightarrow>
                     (let S2 = (write_order i (s1\<lparr>lots := []\<rparr>) S1)\<lparr>sol_inventory := im\<rparr>
                      in and_then
                           (with_index_orders S2
                             (order_request_minted (order_env_of E) (sol_index_orders S2) chain addr coid
                                (s_symbol s1) pid last_seq_num (s_filled_quantity s1) amount_paid (lots s1)
                                position ts))
                           (\<lambda>S3. ok (solver_set_status i Minted S3)))))"

fun handle_collateral_event :: "'s solver_env \<Rightarrow> 's solver \<Rightarrow> collateral_event \<Rightarrow> 's solver \<times> unit outcome" where
  "handle_collateral_event E S (CollateralManager.CollateralReady chain addr coid amount ts status) =
     (case get_client_order (sol_orders S) (chain, addr) coid of
        None \<Rightarrow> (S, Returns (Inl ''Failed to find order''))
      | Some i \<Rightarrow>
          (case status of
             RoutingReady fee \<Rightarrow> collateral_arrived E S i chain addr coid amount fee ts
           | CheckLater \<Rightarrow> collateral_later E S i chain addr coid ts
           | NotReady \<Rightarrow>
               fail_named E (solver_set_status i InvalidCollateral S) chain addr coid
                 (s_symbol (order_at S i)) ts))"
| "handle_collateral_event E S (PreAuthResponse chain addr coid amount ts status) =
     (case status of
        Approved pid \<Rightarrow>
          (case get_client_order (sol_orders S) (chain, addr) coid of
             Some i \<Rightarrow> payment_approved S i pid
           | None \<Rightarrow> ok S)
      | PreAuthNotEnoughFunds \<Rightarrow> ok S)"
| "handle_collateral_event E S (ConfirmResponse chain addr coid pid amount_paid ts status position) =
     (case get_client_order (sol_orders S) (chain, addr) coid of
        None \<Rightarrow> ok S
      | Some i \<Rightarrow>
          (case status of
             Authorized seq_nums \<Rightarrow>
               payment_confirmed E S i chain addr coid pid amount_paid ts seq_nums position
           | ConfirmNotEnoughFunds \<Rightarrow>
               fail_named E S chain addr coid (s_symbol (order_at S i)) ts))"

text \<open>The order manager has booked the collateral of an order.\<close>

definition order_collateral_ready ::
  "'s solver \<Rightarrow> nat \<Rightarrow> amount \<Rightarrow> amount \<Rightarrow> timestamp \<Rightarrow> 's solver \<times> unit outcome" where
  "order_collateral_ready S i remaining spent ts =
     (let s = (order_at S i)\<lparr>s_collateral_spent := spent, s_remaining_collateral := remaining, s_timestamp := ts\<rparr>;
          S1 = write_order i s S
      in if s_status s = SolverReady then ok (S1\<lparr>ready_orders := ready_orders S1 @ [i]\<rparr>)
         else ok (solver_set_status i SolverReady S1))"

definition with_queues :: "'s solver \<Rightarrow> solver_client_orders \<times> unit result \<Rightarrow> 's solver \<times> unit outcome" where
  "with_queues S r = (case r of (co, x) \<Rightarrow> (S\<lparr>sol_orders := co\<rparr>, Returns x))"

fun handle_index_order :: "'s solver_env \<Rightarrow> 's solver \<Rightarrow> index_order_event \<Rightarrow> 's solver \<times> unit outcome" where
  "handle_index_order E S (NewIndexOrder chain addr coid sy sd amount ts) =
     with_queues S (add_client_order (sol_orders S) (chain, addr) coid sy sd amount ts)"
| "handle_index_order E S (CancelIndexOrder chain addr coid ts) =
     with_queues S (cancel_client_order (sol_orders S) (chain, addr) coid)"
| "handle_index_order E S (UpdateIndexOrder chain addr coid removed remaining ts) =
     with_queues S (update_client_order (env_dec E) (sol_orders S) (chain, addr) coid removed ts)"
| "handle_index_order E S (EngageIndexOrder bid engaged ts) =
     with_batches E S (\<lambda>BE m. handle_engage_index_order BE m bid (map_of engaged) ts)"
| "handle_index_order E S (IndexOrderManager.CollateralReady chain addr coid remaining spent fees ts) =
     (case get_client_order (sol_orders S) (chain, addr) coid of
        None \<Rightarrow> (S, Returns (Inl ''Handle collateral ready ack: Missing order''))
      | Some i \<Rightarrow> order_collateral_ready S i remaining spent ts)"

fun handle_quote_request :: "'s solver \<Rightarrow> quote_request_event \<Rightarrow> 's solver \<times> unit outcome" where
  "handle_quote_request S (NewQuoteRequest chain addr cid sy sd amount ts) =
     (case add_client_quote (sol_quotes S) (chain, addr) cid sy sd amount ts of
        (cq, x) \<Rightarrow> (S\<lparr>sol_quotes := cq\<rparr>, Returns x))"
| "handle_quote_request S (CancelQuoteRequest chain addr cid ts) =
     (case cancel_client_quote (sol_quotes S) (chain, addr) cid of
        (cq, x) \<Rightarrow> (S\<lparr>sol_quotes := cq\<rparr>, Returns x))"

text \<open>A rejected order shuts the solver down.\<close>

fun handle_inventory_event :: "'s solver_env \<Rightarrow> 's solver \<Rightarrow> inventory_event \<Rightarrow> 's solver \<times> unit outcome" where
  "handle_inventory_event E S (OpenLot l) =
     with_batches E S (\<lambda>BE m. handle_new_lot BE m (ol_order_id l) (ol_batch_order_id l) (ol_lot_id l) None
       (ol_symbol l) (ol_side l) (ol_price l) (ol_quantity l) (ol_fee l) (ol_timestamp l))"
| "handle_inventory_event E S (CloseLot l) =
     with_batches E S (\<lambda>BE m. handle_new_lot BE m (cl_closing_order_id l) (cl_closing_batch_order_id l)
       (cl_original_lot_id l) (Some (cl_closing_lot_id l)) (cl_symbol l) (cl_side l) (cl_closing_price l)
       (cl_quantity_closed l) (cl_closing_fee l) (cl_closing_timestamp l))"
| "handle_inventory_event E S (InventoryCancel c) =
     with_batches E (if is_rejected (tc_cancel_status c) then initiate_shutdown S else S)
       (\<lambda>BE m. apsnd Returns (handle_cancel_order BE m (tc_batch_order_id c) (tc_symbol c) (tc_side c)
          (tc_quantity_cancelled c) (is_cancelled_or_rejected (tc_cancel_status c)) (tc_cancel_timestamp c)))"

definition handle_price_event :: "'s solver \<Rightarrow> price_event \<Rightarrow> 's solver" where
  "handle_price_event S ev = S"

definition handle_book_event :: "'s solver \<Rightarrow> order_book_event \<Rightarrow> 's solver" where
  "handle_book_event S ev = S"

definition know_symbol :: "symbol \<Rightarrow> basket \<Rightarrow> 's solver \<Rightarrow> 's solver" where
  "know_symbol sy b S =
     (let S1 = call_chain (SolverWeightsSet sy b) S
      in S1\<lparr>sol_quote_requests := add_quote_symbol (sol_quote_requests S1) sy,
            sol_index_orders := add_index_symbol (sol_index_orders S1) sy\<rparr>)"

text \<open>The removal of a basket ends in a \<open>todo!\<close>.\<close>

fun handle_basket_event :: "'s solver \<Rightarrow> basket_notification \<Rightarrow> 's solver \<times> unit outcome" where
  "handle_basket_event S (BasketAdded sy b) = ok (know_symbol sy b S)"
| "handle_basket_event S (BasketUpdated sy b) = ok (know_symbol sy b S)"
| "handle_basket_event S (BasketRemoved sy) =
     (S\<lparr>sol_quote_requests := remove_quote_symbol (sol_quote_requests S) sy,
        sol_index_orders := remove_index_symbol (sol_index_orders S) sy\<rparr>, Panic)"

section \<open>The snapshot of the solver\<close>

text \<open>
  \<open>solver_order_serde.rs\<close>: the map of orders is stored as the list of its entries, in the order
  \<open>es\<close> the map lists them, each with a copy of the order. Restoring makes new orders; one that was
  stored while its collateral was managed is put back as open.
\<close>

record stored_client_orders =
  stored_orders :: "((client_key \<times> client_order_id) \<times> solver_order) list"
  stored_queues :: "client_key \<Rightarrow> client_order_id list option"
  stored_notify :: "client_key list"
  stored_wait :: duration

definition store_client_orders ::
  "((client_key \<times> client_order_id) \<times> nat) list \<Rightarrow> solver_client_orders \<Rightarrow> stored_client_orders" where
  "store_client_orders es co = \<lparr>stored_orders = map (\<lambda>(k, h). (k, co_heap co ! h)) es,
     stored_queues = client_order_queues co, stored_notify = client_notify_queue co,
     stored_wait = client_wait_period co\<rparr>"

definition recover_order :: "nat \<Rightarrow> solver_client_orders \<Rightarrow> solver_client_orders" where
  "recover_order i co =
     (let s = co_heap co ! i
      in if s_status s = ManageCollateral then put_back co i Open (s_timestamp s) else co)"

definition restore_client_orders :: "stored_client_orders \<Rightarrow> solver_client_orders" where
  "restore_client_orders st =
     (let n = length (stored_orders st);
          co = \<lparr>co_heap = map snd (stored_orders st),
                client_orders = map_of (zip (map fst (stored_orders st)) [0..<n]),
                client_order_queues = stored_queues st, client_notify_queue = stored_notify st,
                client_wait_period = stored_wait st\<rparr>
      in fold recover_order [0..<n] co)"

record solver_persisted_state =
  persisted_orders :: stored_client_orders
  persisted_ready_orders :: "(u32 \<times> address \<times> client_order_id) list"
  persisted_ready_mints :: "(u32 \<times> address \<times> client_order_id) list"

definition create_solver_state_snapshot ::
  "((client_key \<times> client_order_id) \<times> nat) list \<Rightarrow> 's solver \<Rightarrow> solver_persisted_state" where
  "create_solver_state_snapshot es S =
     \<lparr>persisted_orders = store_client_orders es (sol_orders S),
      persisted_ready_orders = map (\<lambda>i. get_key (order_at S i)) (ready_orders S),
      persisted_ready_mints = map (\<lambda>i. get_key (order_at S i)) (solver_mints S)\<rparr>"

definition find_stored ::
  "solver_client_orders \<Rightarrow> (u32 \<times> address \<times> client_order_id) list \<Rightarrow> nat list" where
  "find_stored co ks = List.map_filter (\<lambda>(chain, addr, coid). get_client_order co (chain, addr) coid) ks"

definition load_solver_state :: "solver_persisted_state \<Rightarrow> 's solver \<Rightarrow> 's solver" where
  "load_solver_state st S =
     (let co = restore_client_orders (persisted_orders st)
      in S\<lparr>sol_orders := co, ready_orders := find_stored co (persisted_ready_orders st),
           solver_mints := find_stored co (persisted_ready_mints st)\<rparr>)"

end
