(* ===== verification/SolverRuns.thy ===== *)
theory SolverRuns
  imports Solver SolverStrategy BatchMint IndexOrderRuns
begin

text \<open>
  The solver at work: what its status may become, that a rejected order stops it from engaging
  anything else, that its queues of clients are served to the end, what the approvals an order
  waits for do in either order, what is lost when a step of a tick fails, and what its snapshot
  restores.
\<close>

section \<open>The simple solver as the strategy\<close>

definition simple_strategy :: "dec_ops \<Rightarrow> simple_solver \<Rightarrow> solver_strategy" where
  "simple_strategy D P = \<lparr>query_collateral = query_collateral_management D P,
     engage_batch = solve_engagements D P, answer_quotes = solve_quotes D P\<rparr>"

text \<open>A solver of one index for the witnesses.\<close>

definition demo_solver_env :: "memory solver_env" where
  "demo_solver_env = \<lparr>strategy_of = simple_strategy (dec_upto 1000000) demo_solver,
     order_env_of = demo_mint_env, batch_env_of = demo_batch_env,
     router_of = collateral_router_new, bridge_says = (\<lambda>_. Inr ()), session_send = (\<lambda>_ _. Inr ()),
     payment_id_of = (\<lambda>n. ''P'' @ replicate n CHR ''0''), batch_id_of = (\<lambda>n. ''B'' @ replicate n CHR ''0''),
     arrange_of = id, listing_for = (\<lambda>_. []), clock = 9, batch_limit = 4, negligible = 1 / 1000,
     order_expiry_after = 100\<rparr>"

definition demo_order_state :: "memory index_order_manager" where
  "demo_order_state = index_order_manager_new (mint_invoice_manager_new Map.empty) (1 / 100)"

definition demo_idle :: "memory solver" where
  "demo_idle = solver_new (batch_manager_new []) (collateral_manager_new 0)
     demo_order_state quote_request_manager_new
     (inventory_manager_new 0) (order_tracker_new 0) basket_manager_new price_tracker_new
     (book_manager_new 0) 10 10"

definition demo_running :: "memory solver" where
  "demo_running = (set_solver_status Running demo_idle)\<lparr>sol_orders := \<lparr>co_heap = demo_orders_two,
     client_orders = [((1, 7), ''O1'') \<mapsto> 0, ((1, 8), ''O2'') \<mapsto> 1],
     client_order_queues = [(1, 7) \<mapsto> [''O1''], (1, 8) \<mapsto> [''O2'']], client_notify_queue = [],
     client_wait_period = 10\<rparr>, ready_orders := [0, 1]\<rparr>"

section \<open>The life of the solver\<close>

lemma status_round_trip [simp]: "status_try_from (status_into st) = Some st"
  by (cases st) (simp_all add: status_try_from_def)

lemma status_try_from_into: "status_try_from b = Some st \<Longrightarrow> status_into st = b"
  by (auto simp: status_try_from_def split: if_splits)

lemma get_set_status [simp]: "get_status (set_solver_status st S) = Some st"
  by (simp add: get_status_def set_solver_status_def)

text \<open>What a step of the solver may do to its status.\<close>

inductive status_step :: "solver_status \<Rightarrow> solver_status \<Rightarrow> bool" where
  stay: "status_step st st"
| start: "status_step Created WarmingUp"
| warm: "status_step WarmingUp Running"
| shut: "status_step st ShuttingDown"
| halt: "status_step ShuttingDown Stopped"

inductive_cases status_step_cases [elim!]: "status_step a b"
inductive_simps status_step_from [simp]: "status_step ShuttingDown b" "status_step Stopped b"

text \<open>The part of the state that only ticks and rejected orders change.\<close>

definition control :: "'s solver \<Rightarrow> 8 word \<times> nat" where
  "control S = (status_byte S, next_batch S)"

lemma control_sel: "control S = control S' \<Longrightarrow> get_status S = get_status S' \<and> next_batch S = next_batch S'"
  by (simp add: control_def get_status_def)

lemma control_updates [simp]:
  "control (S\<lparr>sol_orders := a\<rparr>) = control S" "control (S\<lparr>sol_quotes := b\<rparr>) = control S"
  "control (S\<lparr>ready_orders := c\<rparr>) = control S" "control (S\<lparr>solver_mints := d\<rparr>) = control S"
  "control (S\<lparr>sol_batches := e\<rparr>) = control S" "control (S\<lparr>sol_collateral := f\<rparr>) = control S"
  "control (S\<lparr>collateral_events := g\<rparr>) = control S" "control (S\<lparr>transfer_calls := h\<rparr>) = control S"
  "control (S\<lparr>sol_index_orders := i\<rparr>) = control S" "control (S\<lparr>sol_quote_requests := j\<rparr>) = control S"
  "control (S\<lparr>sol_inventory := k\<rparr>) = control S" "control (S\<lparr>sol_tracker := l\<rparr>) = control S"
  "control (S\<lparr>sol_baskets := m\<rparr>) = control S" "control (S\<lparr>basket_events := n\<rparr>) = control S"
  "control (S\<lparr>chain_calls := q\<rparr>) = control S" "control (S\<lparr>next_payment := r\<rparr>) = control S"
  by (simp_all add: control_def)

lemma control_parts [simp]:
  "control (write_order i s S) = control S"
  "control (solver_set_status i st S) = control S"
  "control (put_order_back S i ts) = control S"
  "control (call_chain c S) = control S"
  "control (know_symbol sy b S) = control S"
  "control (fst (with_index_orders S r)) = control S"
  "control (fst (fail_order E S i ts)) = control S"
  "control (fst (fail_named E S chain addr coid sy ts)) = control S"
  "control (fst (with_queues S q)) = control S"
  "control (fst (take_payment_id E S)) = control S"
  by (simp_all add: write_order_def solver_set_status_def put_order_back_def call_chain_def
      know_symbol_def with_index_orders_def fail_order_def fail_named_def with_queues_def
      take_payment_id_def Let_def split: prod.splits)

lemma control_with_batches [simp]: "control (fst (with_batches E S f)) = control S"
  by (auto simp: with_batches_def Let_def split: prod.splits option.splits)

lemma status_with_batches [simp]: "get_status (fst (with_batches E S f)) = get_status S"
  using control_sel [OF control_with_batches] by blast

lemma control_ok [simp]: "control (fst (ok S)) = control S"
  by (simp add: ok_def)

lemma control_logged [simp]: "control (fst (logged r)) = control (fst r)"
  by (auto simp: logged_def ok_def split: prod.splits outcome.splits)

lemma control_and_then:
  assumes "control (fst r) = c" "\<And>s. control s = c \<Longrightarrow> control (fst (k s)) = c"
  shows "control (fst (and_then r k)) = c"
  using assms by (auto simp: and_then_def split: prod.splits outcome.splits sum.splits)

lemma control_handle_failed [simp]: "control (fst (handle_failed_orders E S is ts)) = control S"
  by (induction E S "is" ts rule: handle_failed_orders.induct) (auto intro!: control_and_then)

lemma control_drop_orders [simp]: "control (fst (drop_orders E S is ts)) = control S"
  by (induction E S "is" ts rule: drop_orders.induct) (auto intro!: control_and_then)

lemma control_mint_each [simp]: "control (fst (mint_each E S is ts)) = control S"
  by (induction E S "is" ts rule: mint_each.induct)
    (auto simp: mint_index_order_def Let_def intro!: control_and_then split: option.splits prod.splits)

lemma control_serve_client [simp]: "control (fst (serve_client E S i)) = control S"
  by (auto simp: serve_client_def manage_order_collateral_def Let_def ok_def
      split: solver_order_status.splits sum.splits)

lemma control_serve_more [simp]: "control (fst (serve_more_clients E S ts)) = control S"
proof (induction E S ts rule: serve_more_clients.induct)
  case (1 E S ts)
  obtain co x where next_order: "get_next_client_order (sol_orders S) ts = (co, x)" by fastforce
  show ?case
  proof (cases x)
    case None
    with next_order show ?thesis by (simp add: serve_more_clients.simps [of E S ts])
  next
    case (Some i)
    obtain S' y where y: "serve_client E (S\<lparr>sol_orders := co\<rparr>) i = (S', y)" by fastforce
    have c: "control S' = control S" using control_serve_client [of E "S\<lparr>sol_orders := co\<rparr>" i] y by simp
    show ?thesis
    proof (cases "\<exists>u. y = Returns (Inr u)")
      case True
      with 1 [OF next_order [symmetric] Some y [symmetric]] c next_order Some y show ?thesis
        by (auto simp: serve_more_clients.simps [of E S ts])
    next
      case False
      with c next_order Some y show ?thesis
        by (auto simp: serve_more_clients.simps [of E S ts] split: outcome.splits sum.splits)
    qed
  qed
qed

lemma control_process_quotes [simp]: "control (fst (process_more_quotes E S ts)) = control S"
  by (auto simp: process_more_quotes_def Let_def split: prod.splits sum.splits)

lemma control_simple_steps [simp]:
  "control (fst (process_collateral_step E S ts)) = control S"
  "control (fst (mint_indexes E S ts)) = control S"
  by (simp_all add: process_collateral_step_def mint_indexes_def split: prod.splits)

lemma control_chain [simp]: "control (fst (handle_chain_event E S cn)) = control S"
  by (cases cn) (auto simp: take_payment_id_def Let_def split: prod.splits)

lemma control_batch [simp]: "control (fst (handle_batch_event S be)) = control S"
  by (cases be) auto

lemma control_order [simp]: "control (fst (handle_index_order E S ie)) = control S"
  by (cases ie) (auto simp: order_collateral_ready_def Let_def split: option.splits)

lemma control_quote [simp]: "control (fst (handle_quote_request S qe)) = control S"
  by (cases qe) (auto split: prod.splits)

lemma control_basket [simp]: "control (fst (handle_basket_event S bn)) = control S"
  by (cases bn) auto

lemma control_approved [simp]: "control (fst (payment_approved S i pid)) = control S"
  by (simp add: payment_approved_def Let_def)

lemma control_arrived [simp]: "control (fst (collateral_arrived E S i chain addr coid amount fee ts)) = control S"
  by (auto simp: collateral_arrived_def take_payment_id_def Let_def split: prod.splits sum.splits)

lemma control_later [simp]: "control (fst (collateral_later E S i chain addr coid ts)) = control S"
  by (simp add: collateral_later_def Let_def)

lemma control_confirmed [simp]:
  "control (fst (payment_confirmed E S i chain addr coid pid amount ts seq_nums position)) = control S"
  by (auto simp: payment_confirmed_def Let_def split: prod.splits sum.splits intro!: control_and_then)

lemma control_collateral [simp]: "control (fst (handle_collateral_event E S ce)) = control S"
  by (cases ce) (auto split: option.splits routing_status.splits preauth_status.splits confirm_status.splits)

text \<open>The events of the solver: ticks, and what the components publish.\<close>

datatype solver_event =
    Tick timestamp
  | QuoteTick timestamp
  | OnChain chain_notification
  | OnBatch batch_event
  | OnCollateral collateral_event
  | OnOrder index_order_event
  | OnQuote quote_request_event
  | OnInventory inventory_event
  | OnBasket basket_notification

fun solver_step :: "'s solver_env \<Rightarrow> 's solver \<Rightarrow> solver_event \<Rightarrow> 's solver" where
  "solver_step E S (Tick ts) = fst (solve E S ts)"
| "solver_step E S (QuoteTick ts) = fst (solver_solve_quotes E S ts)"
| "solver_step E S (OnChain ev) = fst (handle_chain_event E S ev)"
| "solver_step E S (OnBatch ev) = fst (handle_batch_event S ev)"
| "solver_step E S (OnCollateral ev) = fst (handle_collateral_event E S ev)"
| "solver_step E S (OnOrder ev) = fst (handle_index_order E S ev)"
| "solver_step E S (OnQuote ev) = fst (handle_quote_request S ev)"
| "solver_step E S (OnInventory ev) = fst (handle_inventory_event E S ev)"
| "solver_step E S (OnBasket ev) = fst (handle_basket_event S ev)"

lemma status_engage_more: "status_byte (fst (engage_more_orders E S ts)) = status_byte S"
proof -
  have put: "control (fold (\<lambda>i S. put_order_back S i ts) js S') = control S'" for js and S' :: "'a solver"
    by (induction js arbitrary: S') auto
  have ran: "status_byte (fst (run_strategy E S' batch)) = status_byte S'" for S' batch
    by (simp add: run_strategy_def split: prod.splits)
  have sent: "control (fst (send_engagements E S' es)) = control S'" for S' es
    by (auto simp: send_engagements_def split: prod.splits sum.splits)
  have res: "control (fst (engage_result E S' r ts)) = control S'" for S' r
    by (auto simp: engage_result_def settle_unengaged_def Let_def sent intro!: control_and_then)
  have "status_byte (fst (get_order_batch E S)) = status_byte S" by (simp add: get_order_batch_def Let_def)
  then show ?thesis
    using ran [of "fst (get_order_batch E S)" "snd (get_order_batch E S)"] put res
    by (auto simp: engage_more_orders_def control_def ok_def split: option.splits prod.splits outcome.splits sum.splits)
qed

lemma status_run_tick: "status_byte (fst (run_tick E S ts)) = status_byte S"
proof -
  have tr: "status_byte (fst (and_then r k)) = b"
    if "status_byte (fst r) = b" "\<And>s. status_byte s = b \<Longrightarrow> status_byte (fst (k s)) = b" for r b and k :: "'a solver \<Rightarrow> _"
    using that by (auto simp: and_then_def split: prod.splits outcome.splits sum.splits)
  have c: "status_byte s' = b" if "control s' = control s" "status_byte s = b" for s s' :: "'a solver" and b
    using that by (simp add: control_def)
  have lg: "status_byte (fst (logged r)) = status_byte (fst r)" for r :: "'a solver \<times> unit outcome"
    using control_logged [of r] by (simp add: control_def)
  have pb: "status_byte (fst (process_batches_step E s ts)) = status_byte s" for s
    using control_with_batches [of E s "\<lambda>BE m. process_batches BE m ts"]
    by (auto simp: process_batches_step_def ok_def control_def split: prod.splits outcome.splits)
  show ?thesis
    unfolding run_tick_def
    by (intro tr) (auto simp: lg pb status_engage_more intro: c)
qed

text \<open>
  C25: whatever the solver does to its status byte, it is a move of the life cycle: it warms up, it
  runs, it shuts down and stops, it can be shut down at any time, and it never holds a byte that is
  no status.
\<close>

theorem status_follows_life_cycle:
  assumes "get_status S = Some st"
  shows "\<exists>st'. get_status (solver_step E S ev) = Some st' \<and> status_step st st'"
proof (cases ev)
  case (Tick ts)
  have halted: "get_status (fst (complete_shutdown E S ts)) \<in> {Some st, Some Stopped}"
  proof -
    obtain S' x where run: "with_batches E S (\<lambda>BE m. process_batches BE m ts) = (S', x)" by fastforce
    have "get_status S' = Some st"
      using status_with_batches [of E S "\<lambda>BE m. process_batches BE m ts"] run assms by simp
    with run show ?thesis by (cases x) (simp_all add: complete_shutdown_def ok_def)
  qed
  show ?thesis
  proof (cases st)
    case Running
    have "get_status (fst (run_tick E S ts)) = Some st"
      using status_run_tick [of E S ts] assms by (simp add: get_status_def)
    with Running Tick assms show ?thesis
      by (auto simp: solve_def initiate_shutdown_def split: prod.splits outcome.splits sum.splits intro: status_step.intros)
  next
    case ShuttingDown
    with Tick assms halted show ?thesis
      by (auto simp: solve_def initiate_shutdown_def split: prod.splits outcome.splits sum.splits)
  qed (use Tick assms in \<open>auto simp: solve_def begin_warming_up_def complete_warming_up_def ok_def Let_def
      intro: status_step.intros\<close>)
next
  case (OnInventory ie)
  have "get_status (solver_step E S ev) \<in> {Some st, Some ShuttingDown}"
    using OnInventory assms by (cases ie) (auto simp: initiate_shutdown_def)
  then show ?thesis by (auto intro: status_step.intros)
next
  case (QuoteTick ts)
  have "control (solver_step E S ev) = control S" using QuoteTick by (simp add: solver_solve_quotes_def)
  then show ?thesis using control_sel assms by (metis stay)
qed (use assms control_sel stay in \<open>metis control_chain control_batch control_collateral control_order
    control_quote control_basket solver_step.simps\<close>)+

theorem status_follows_life_cycle_witness:
  "\<exists>st'. get_status (solver_step demo_solver_env demo_running (OnInventory (InventoryCancel
     \<lparr>tc_order_id = ''o'', tc_batch_order_id = ''b'', tc_symbol = ''A'', tc_side = Buy,
       tc_quantity_cancelled = 1, tc_original_quantity = 1, tc_quantity_remaining = 0,
       tc_cancel_status = RejectedBy ''x'', tc_cancel_timestamp = 1\<rparr>))) = Some st' \<and> status_step Running st'"
  by (rule status_follows_life_cycle) (simp add: demo_running_def get_status_def set_solver_status_def status_try_from_def)

section \<open>A rejected order stops the solver\<close>

definition halting :: "nat \<Rightarrow> 's solver \<Rightarrow> bool" where
  "halting n S \<longleftrightarrow> get_status S \<in> {Some ShuttingDown, Some Stopped} \<and> next_batch S = n"

lemma halting_control: "control S' = control S \<Longrightarrow> halting n S' = halting n S"
  using control_sel [of S' S] by (simp add: halting_def)

lemma halting_shut: "halting n S \<Longrightarrow> halting n (initiate_shutdown S)"
  by (simp add: halting_def initiate_shutdown_def set_solver_status_def get_status_def status_try_from_def)

lemma halting_solve: "halting n S \<Longrightarrow> halting n (fst (solve E S ts))"
proof -
  assume h: "halting n S"
  obtain S' x where run: "with_batches E S (\<lambda>BE m. process_batches BE m ts) = (S', x)" by fastforce
  have c: "control S' = control S" using control_with_batches [of E S "\<lambda>BE m. process_batches BE m ts"] run by simp
  then have h': "halting n S'" using h halting_control by blast
  have "halting n (set_solver_status Stopped S')"
    using h' by (simp add: halting_def set_solver_status_def get_status_def status_try_from_def)
  note stopped = this
  from h consider "get_status S = Some ShuttingDown" | "get_status S = Some Stopped" by (auto simp: halting_def)
  then show ?thesis
  proof cases
    case 1
    with h' run stopped show ?thesis by (cases x) (simp_all add: solve_def complete_shutdown_def ok_def)
  next
    case 2
    with h show ?thesis by (simp add: solve_def ok_def)
  qed
qed

interpretation halted: reactive "solver_step E" "\<lambda>_ _. True" "halting n" for E :: "'s solver_env" and n
proof unfold_locales
  fix S :: "'s solver" and ev
  assume h: "halting n S"
  show "halting n (solver_step E S ev)"
  proof (cases ev)
    case (Tick ts)
    with halting_solve [OF h] show ?thesis by simp
  next
    case (OnInventory ie)
    with h halting_shut [OF h] show ?thesis
      by (cases ie) (auto simp: halting_control [OF control_with_batches])
  next
    case (QuoteTick ts)
    with h show ?thesis by (simp add: solver_solve_quotes_def halting_control [OF control_logged]
      halting_control [OF control_process_quotes])
  qed (use h in \<open>simp_all add: halting_control [OF control_chain] halting_control [OF control_batch]
      halting_control [OF control_collateral] halting_control [OF control_order]
      halting_control [OF control_quote] halting_control [OF control_basket]\<close>)
qed

text \<open>
  C8: once the market has rejected an order, the solver never asks its strategy for another
  engagement, whatever happens afterwards, and its status stays in the shutdown.
\<close>

theorem rejection_stops_engaging:
  assumes "is_rejected (tc_cancel_status c)"
    and "S' = run (solver_step E) (solver_step E S (OnInventory (InventoryCancel c))) es"
  shows "get_status S' \<in> {Some ShuttingDown, Some Stopped} \<and> next_batch S' = next_batch S"
proof -
  have "halting (next_batch S) (initiate_shutdown S)"
    by (simp add: halting_def initiate_shutdown_def set_solver_status_def get_status_def status_try_from_def)
  then have "halting (next_batch S) (solver_step E S (OnInventory (InventoryCancel c)))"
    using assms(1) by (simp add: halting_control [OF control_with_batches])
  from halted.run_inv [OF this] assms(2) show ?thesis by (simp add: halting_def)
qed

definition demo_rejection :: tracker_cancel where
  "demo_rejection = \<lparr>tc_order_id = ''o'', tc_batch_order_id = ''b'', tc_symbol = ''A'', tc_side = Buy,
     tc_quantity_cancelled = 1, tc_original_quantity = 1, tc_quantity_remaining = 0,
     tc_cancel_status = RejectedBy ''x'', tc_cancel_timestamp = 1\<rparr>"

theorem rejection_stops_engaging_witness:
  "next_batch (run (solver_step demo_solver_env)
     (solver_step demo_solver_env demo_running (OnInventory (InventoryCancel demo_rejection))) [Tick 20, Tick 30]) = 0 \<and>
   get_status demo_running = Some Running"
proof -
  have "is_rejected (tc_cancel_status demo_rejection)" by (simp add: demo_rejection_def)
  from rejection_stops_engaging [OF this refl, of demo_solver_env demo_running "[Tick 20, Tick 30]"]
  show ?thesis by (simp add: demo_running_def demo_idle_def solver_new_def get_status_def set_solver_status_def
      status_try_from_def)
qed

section \<open>Serving clients\<close>

lemma serve_keeps_next:
  assumes "serve_client E S i = (S', x)"
  shows "waiting S' = waiting S"
  using waiting_serve_client [of E S i] assms by simp

text \<open>
  C33: the loop over the waiting clients ends for every queue; it takes clients off the front of the
  queue only, and when it ends without a failure no client at the front is ready.
\<close>

theorem serving_drains_queue:
  assumes "serve_more_clients E S ts = (S', Returns r)"
  shows "(\<exists>k\<le>length (waiting S). waiting S' = drop k (waiting S)) \<and>
    (r = Inr () \<longrightarrow> snd (get_next_client_order (sol_orders S') ts) = None)"
  using assms
proof (induction E S ts rule: serve_more_clients.induct)
  case (1 E S ts)
  obtain co x where nxt: "get_next_client_order (sol_orders S) ts = (co, x)" by fastforce
  show ?case
  proof (cases x)
    case None
    with nxt have same: "co = sol_orders S"
      by (auto simp: get_next_client_order_def split: list.splits option.splits if_splits)
    from 1(2) nxt None have S': "S' = S\<lparr>sol_orders := co\<rparr>"
      by (simp add: serve_more_clients.simps [of E S ts] ok_def)
    with same nxt None show ?thesis by (auto intro: exI [of _ 0])
  next
    case (Some i)
    with nxt have tl: "client_notify_queue co = drop 1 (waiting S)" "0 < length (waiting S)"
      by (auto simp: get_next_client_order_def split: list.splits option.splits if_splits)
    obtain S1 y where y: "serve_client E (S\<lparr>sol_orders := co\<rparr>) i = (S1, y)" by fastforce
    have w1: "waiting S1 = drop 1 (waiting S)" using serve_keeps_next [OF y] tl by simp
    show ?thesis
    proof (cases "y = Returns (Inr ())")
      case True
      have rest: "serve_more_clients E S1 ts = (S', Returns r)"
        using 1(2) nxt Some y True by (simp add: serve_more_clients.simps [of E S ts])
      from 1(1) [OF nxt [symmetric] Some y [symmetric] True refl rest] obtain k where
        k: "k \<le> length (waiting S1)" "waiting S' = drop k (waiting S1)"
        and d: "r = Inr () \<longrightarrow> snd (get_next_client_order (sol_orders S') ts) = None" by blast
      have "length (waiting S1) = length (waiting S) - 1" using w1 by simp
      then have "Suc k \<le> length (waiting S)" using k(1) tl(2) by linarith
      moreover have "waiting S' = drop (Suc k) (waiting S)" using k(2) w1 by simp
      ultimately show ?thesis using d by blast
    next
      case False
      then have "S' = S1 \<and> r \<noteq> Inr ()"
        using 1(2) nxt Some y by (auto simp: serve_more_clients.simps [of E S ts] split: outcome.splits sum.splits)
      moreover have "1 \<le> length (waiting S)" using tl(2) by linarith
      ultimately show ?thesis using w1 by blast
    qed
  qed
qed

definition demo_serving :: "memory solver" where
  "demo_serving = demo_running\<lparr>ready_orders := [], sol_orders := (sol_orders demo_running)\<lparr>
     co_heap := map (\<lambda>s. s\<lparr>s_status := SolverReady\<rparr>) demo_orders_two, client_notify_queue := [(1, 7), (1, 8)]\<rparr>\<rparr>"

declare demo_idle_def [evals] demo_running_def [evals] demo_serving_def [evals] solver_new_def [evals]
  set_solver_status_def [evals] get_status_def [evals] status_try_from_def [evals] ok_def [evals]
  and_then_def [evals] logged_def [evals] order_at_def [evals] write_order_def [evals]
  solver_set_status_def [evals] demo_solver_env_def [evals] demo_order_state_def [evals]
  serve_client_def [evals] get_next_client_order_def [evals] check_ready_def [evals]

theorem serving_drains_queue_witness:
  "\<exists>S' r. serve_more_clients demo_solver_env demo_serving 20 = (S', Returns r) \<and> ready_orders S' = [0, 1] \<and>
     (\<exists>k\<le>length (waiting demo_serving). waiting S' = drop k (waiting demo_serving)) \<and>
     (r = Inr () \<longrightarrow> snd (get_next_client_order (sol_orders S') 20) = None)"
proof -
  let ?co = "sol_orders demo_serving"
  define S1 where "S1 = demo_serving\<lparr>sol_orders := ?co\<lparr>client_notify_queue := [(1, 8)]\<rparr>, ready_orders := [0]\<rparr>"
  define S2 where "S2 = demo_serving\<lparr>sol_orders := ?co\<lparr>client_notify_queue := []\<rparr>, ready_orders := [0, 1]\<rparr>"
  have co: "co_heap ?co = map (\<lambda>s. s\<lparr>s_status := SolverReady\<rparr>) demo_orders_two"
    "client_orders ?co = [((1, 7), ''O1'') \<mapsto> 0, ((1, 8), ''O2'') \<mapsto> 1]"
    "client_order_queues ?co = [(1, 7) \<mapsto> [''O1''], (1, 8) \<mapsto> [''O2'']]"
    "client_notify_queue ?co = [(1, 7), (1, 8)]" "client_wait_period ?co = 10" "ready_orders demo_serving = []"
    by (simp_all add: demo_serving_def demo_running_def)
  note steps = serve_more_clients.simps get_next_client_order_def check_ready_def serve_client_def ok_def
    order_at_def demo_orders_two_def solver_order_new_def co S1_def S2_def
  have "serve_more_clients demo_solver_env demo_serving 20 = serve_more_clients demo_solver_env S1 20"
    by (subst serve_more_clients.simps) (simp add: steps(2-))
  also have "\<dots> = serve_more_clients demo_solver_env S2 20"
    by (subst serve_more_clients.simps) (simp add: steps(2-))
  also have "\<dots> = (S2, Returns (Inr ()))"
    by (subst serve_more_clients.simps) (simp add: steps(2-))
  finally have run: "serve_more_clients demo_solver_env demo_serving 20 = (S2, Returns (Inr ()))" .
  have ready: "ready_orders S2 = [0, 1]" by (simp add: S2_def)
  from serving_drains_queue [OF run] run ready show ?thesis by blast
qed

section \<open>The two approvals of an order\<close>

text \<open>
  C26: an order waits for two approvals, that of its payment and that of the order manager, and
  they may come in either order: both orders of the two events lead to the same state, in which the
  order is ready and has been queued for engagement exactly once.
\<close>

theorem approvals_commute:
  assumes "get_client_order (sol_orders S) (chain, addr) coid = Some i"
    and "i < length (co_heap (sol_orders S))"
    and "s_status (order_at S i) \<noteq> SolverReady" "s_payment_id (order_at S i) = None"
    and "paid = OnCollateral (PreAuthResponse chain addr coid amount ts (Approved pid))"
    and "booked = OnOrder (IndexOrderManager.CollateralReady chain addr coid remaining spent fees ts')"
  shows "solver_step E (solver_step E S paid) booked = solver_step E (solver_step E S booked) paid \<and>
    ready_orders (solver_step E (solver_step E S paid) booked) = ready_orders S @ [i] \<and>
    order_at (solver_step E (solver_step E S paid) booked) i = (order_at S i)\<lparr>s_payment_id := Some pid,
      s_collateral_spent := spent, s_remaining_collateral := remaining, s_timestamp := ts',
      s_status := SolverReady\<rparr>"
proof -
  have fields: "s\<lparr>s_payment_id := p, s_status := st, s_collateral_spent := c, s_remaining_collateral := r,
      s_timestamp := t\<rparr> = s\<lparr>s_collateral_spent := c, s_remaining_collateral := r, s_timestamp := t,
      s_status := st, s_payment_id := p\<rparr>" for s p st c r t
    by simp
  have final: "s\<lparr>s_collateral_spent := c, s_remaining_collateral := r, s_timestamp := t,
      s_status := st, s_payment_id := p\<rparr> = s\<lparr>s_payment_id := p, s_collateral_spent := c,
      s_remaining_collateral := r, s_timestamp := t, s_status := st\<rparr>" for s p st c r t
    by simp
  show ?thesis
    using assms
    by (simp add: payment_approved_def order_collateral_ready_def get_client_order_def order_at_def
        write_order_def solver_set_status_def set_order_status_def ok_def Let_def fields final)
qed

text \<open>
  A payment that is approved twice is refused the second time, but the order keeps the second
  payment identifier.
\<close>

theorem second_approval_overwrites:
  assumes "get_client_order (sol_orders S) (chain, addr) coid = Some i"
    and "i < length (co_heap (sol_orders S))" "s_payment_id (order_at S i) = Some pid"
    and "handle_collateral_event E S (PreAuthResponse chain addr coid amount ts (Approved pid')) = (S', x)"
  shows "x = Returns (Inl ''Payment ID already set'') \<and> s_payment_id (order_at S' i) = Some pid' \<and>
    ready_orders S' = ready_orders S"
  using assms by (auto simp: payment_approved_def order_at_def write_order_def Let_def)

section \<open>What a failed step loses\<close>

lemma and_then_Panic [simp]: "and_then (s, Panic) k = (s, Panic)"
  and and_then_Inl [simp]: "and_then (s, Returns (Inl e)) k = (s, Returns (Inl e))"
  and and_then_Inr [simp]: "and_then (s, Returns (Inr u)) k = k s"
  by (simp_all add: and_then_def)

text \<open>
  A batch the strategy declines has been taken off the queue of ready orders and is put
  nowhere: the clients' queues are as before, nothing is engaged, and the call succeeds.
\<close>

theorem declined_batch_is_dropped:
  assumes "get_status S = Some Running" "batch = take (batch_limit E) (ready_orders S)"
    and "engage_batch (strategy_of E) (host_of E S) (co_heap (sol_orders S)) batch = (heap, Returns (Inr None))"
    and "engage_more_orders E S ts = (S', x)"
  shows "x = Returns (Inr ()) \<and> ready_orders S' = drop (batch_limit E) (ready_orders S) \<and>
    waiting S' = waiting S \<and> solver_mints S' = solver_mints S \<and> sol_batches S' = sol_batches S \<and>
    sol_index_orders S' = sol_index_orders S"
proof -
  have host: "host_of E (S\<lparr>ready_orders := r\<rparr>) = host_of E S" for r by (simp add: host_of_def)
  have "take (min (length (ready_orders S)) (batch_limit E)) (ready_orders S) = batch"
    "drop (min (length (ready_orders S)) (batch_limit E)) (ready_orders S) = drop (batch_limit E) (ready_orders S)"
    using assms(2) by (simp_all add: min_def)
  with assms host show ?thesis
    by (cases "batch = []") (auto simp: engage_more_orders_def is_accepting_orders_def get_order_batch_def
        run_strategy_def ok_def Let_def)
qed

text \<open>
  A mint that fails ends the tick's mints: those before it are done, the queue of mints is
  empty, so the orders after it are never minted.
\<close>

theorem failed_mint_drops_rest:
  assumes "solver_mints S = ms @ i # rest"
    and "mint_each E (S\<lparr>solver_mints := []\<rparr>) ms ts = (S1, Returns (Inr ()))"
    and "mint_index_order E S1 i ts = (S2, Returns (Inl e))"
  shows "mint_indexes E S ts = (S2, Returns (Inl e)) \<and> solver_mints S2 = []"
proof -
  have split: "mint_each E S0 (ms @ js) ts = and_then (mint_each E S0 ms ts) (\<lambda>S'. mint_each E S' js ts)" for S0 js
    by (induction ms arbitrary: S0) (auto simp: ok_def and_then_def split: prod.splits outcome.splits sum.splits)
  have one: "solver_mints (fst (mint_index_order E S0 j ts)) = solver_mints S0" for S0 j
    by (auto simp: mint_index_order_def Let_def split: option.splits prod.splits)
  have kept: "solver_mints (fst (mint_each E S0 js ts)) = solver_mints S0" for S0 js
  proof (induction js arbitrary: S0)
    case (Cons j js)
    obtain S3 y where y: "mint_index_order E S0 j ts = (S3, y)" by fastforce
    then have "solver_mints S3 = solver_mints S0" using one [of S0 j] by simp
    with Cons [of S3] y show ?case by (auto simp: and_then_def split: outcome.splits sum.splits)
  qed (simp add: ok_def)
  have "solver_mints S2 = []"
    using one [of S1 i] kept [of "S\<lparr>solver_mints := []\<rparr>" ms] assms(2,3) by simp
  with assms show ?thesis by (simp add: mint_indexes_def split)
qed

text \<open>
  The tick that shuts the solver down stops it at once, whatever the batch manager still has to
  fill; no later tick serves anything.
\<close>

theorem shutdown_does_not_wait:
  assumes "get_status S = Some ShuttingDown" "solve E S ts = (S', x)" "x \<noteq> Panic"
    and "with_batches E S (\<lambda>BE m. process_batches BE m ts) = (S1, y)"
  shows "get_status S' = Some Stopped \<and> batches (sol_batches S') = batches (sol_batches S1) \<and>
    solve E S' ts' = (S', Returns (Inr Stopped))"
proof -
  from assms(1,2,3,4) have "S' = set_solver_status Stopped S1"
    by (cases y) (auto simp: solve_def complete_shutdown_def ok_def)
  moreover have "get_status (set_solver_status Stopped S1) = Some Stopped" by simp
  ultimately show ?thesis by (simp add: solve_def ok_def set_solver_status_def)
qed

text \<open>
  Confirming a payment tells the chain to mint before anything else is done, once, and the call
  is not taken back when a later step fails.
\<close>

theorem mint_precedes_checks:
  assumes "payment_confirmed E S i chain addr coid pid paid ts seq_nums position = (S', x)"
    and "s = order_at S i"
  shows "chain_calls S' = chain_calls S @ [MintIndex (s_chain_id s) (s_symbol s) (s_filled_quantity s)
    (s_address s) (if seq_nums = [] then 0 else last seq_nums) paid ts]"
  using assms
  by (auto simp: payment_confirmed_def call_chain_def write_order_def with_index_orders_def
      solver_set_status_def and_then_def ok_def Let_def split: prod.splits sum.splits outcome.splits)

lemma demo_running_parts [simp]:
  "co_heap (sol_orders demo_running) = demo_orders_two" "get_status demo_running = Some Running"
  "client_orders (sol_orders demo_running) = [((1, 7), ''O1'') \<mapsto> 0, ((1, 8), ''O2'') \<mapsto> 1]"
  "ready_orders demo_running = [0, 1]" "solver_mints demo_running = []" "chain_calls demo_running = []"
  by (simp_all add: demo_running_def demo_idle_def solver_new_def get_status_def set_solver_status_def status_try_from_def)

theorem approvals_commute_witness:
  "\<exists>S'. S' = solver_step demo_solver_env (solver_step demo_solver_env demo_running
       (OnCollateral (PreAuthResponse 1 7 ''O1'' 400 3 (Approved ''P''))))
       (OnOrder (IndexOrderManager.CollateralReady 1 7 ''O1'' 390 0 10 4)) \<and>
     ready_orders S' = [0, 1, 0] \<and> s_remaining_collateral (order_at S' 0) = 390"
  using approvals_commute [of demo_running 1 7 "''O1''" 0, OF _ _ _ _ refl refl, of demo_solver_env 400 3 "''P''" 390 0 10 4]
  by (auto simp: get_client_order_def order_at_def demo_orders_two_def solver_order_new_def simp del: solver_step.simps)

definition demo_approved :: "memory solver" where
  "demo_approved = solver_step demo_solver_env demo_running
     (OnCollateral (PreAuthResponse 1 7 ''O1'' 400 3 (Approved ''P'')))"

lemma demo_approved_order:
  "get_client_order (sol_orders demo_approved) (1, 7) ''O1'' = Some 0"
  "length (co_heap (sol_orders demo_approved)) = 2" "s_payment_id (order_at demo_approved 0) = Some ''P''"
  by (simp_all add: demo_approved_def payment_approved_def get_client_order_def order_at_def write_order_def
      solver_set_status_def set_order_status_def ok_def Let_def demo_orders_two_def solver_order_new_def)

theorem second_approval_overwrites_witness:
  "\<exists>S' x. handle_collateral_event demo_solver_env demo_approved (PreAuthResponse 1 7 ''O1'' 400 4 (Approved ''R'')) = (S', x) \<and>
     x = Returns (Inl ''Payment ID already set'') \<and> s_payment_id (order_at S' 0) = Some ''R''"
proof -
  obtain S' x where run: "handle_collateral_event demo_solver_env demo_approved
      (PreAuthResponse 1 7 ''O1'' 400 4 (Approved ''R'')) = (S', x)" by fastforce
  from second_approval_overwrites [OF demo_approved_order(1) _ demo_approved_order(3) run] run
  show ?thesis by (simp add: demo_approved_order)
qed

theorem mint_precedes_checks_witness:
  "\<exists>S' x. payment_confirmed demo_solver_env demo_running 0 1 7 ''O1'' ''P'' 390 4 [11, 12]
       (collateral_position_new 1 7 0) = (S', x) \<and>
     chain_calls S' = [MintIndex 1 ''I'' 0 7 12 390 4]"
proof -
  obtain S' x where run: "payment_confirmed demo_solver_env demo_running 0 1 7 ''O1'' ''P'' 390 4 [11, 12]
       (collateral_position_new 1 7 0) = (S', x)" by fastforce
  from mint_precedes_checks [OF run refl] run show ?thesis
    by (simp add: order_at_def demo_orders_two_def solver_order_new_def)
qed

theorem failed_mint_drops_rest_witness:
  "\<exists>S'. mint_indexes demo_solver_env (demo_running\<lparr>solver_mints := [0, 1]\<rparr>) 5 =
     (S', Returns (Inl ''Missing payment ID'')) \<and> solver_mints S' = []"
proof -
  let ?S = "demo_running\<lparr>solver_mints := [0, 1]\<rparr>"
  have "mint_index_order demo_solver_env (?S\<lparr>solver_mints := []\<rparr>) 0 5 =
      (?S\<lparr>solver_mints := []\<rparr>, Returns (Inl ''Missing payment ID''))"
    by (simp add: mint_index_order_def order_at_def demo_orders_two_def solver_order_new_def)
  from failed_mint_drops_rest [of ?S "[]", OF _ _ this] show ?thesis by (simp add: ok_def)
qed

definition demo_full :: "memory solver" where
  "demo_full = demo_running\<lparr>sol_batches := (batch_manager_new demo_orders_two)\<lparr>total_volley_size := 1999\<rparr>\<rparr>"

theorem declined_batch_is_dropped_witness:
  "\<exists>S'. engage_more_orders demo_solver_env demo_full 20 = (S', Returns (Inr ())) \<and>
     ready_orders demo_full = [0, 1] \<and> ready_orders S' = [] \<and> waiting S' = []"
proof -
  have full: "get_status demo_full = Some Running" "ready_orders demo_full = [0, 1]" "waiting demo_full = []"
    by (simp_all add: demo_full_def demo_running_def get_status_def set_solver_status_def status_try_from_def)
  have batch: "[0, 1] = take (batch_limit demo_solver_env) (ready_orders demo_full)"
    by (simp add: full demo_solver_env_def)
  have declined: "engage_batch (strategy_of demo_solver_env) (host_of demo_solver_env demo_full)
      (co_heap (sol_orders demo_full)) [0, 1] = (co_heap (sol_orders demo_full), Returns (Inr None))"
    by (simp add: demo_solver_env_def simple_strategy_def solve_engagements_def host_of_def demo_full_def
        demo_solver_def simple_solver_new_def rbind_def ok_or_def fits_def)
  obtain S' x where run: "engage_more_orders demo_solver_env demo_full 20 = (S', x)" by fastforce
  from declined_batch_is_dropped [OF full(1) batch declined run] run full show ?thesis
    by (simp add: demo_solver_env_def)
qed

definition demo_stopping :: "memory solver" where
  "demo_stopping = set_solver_status ShuttingDown (demo_running\<lparr>sol_batches := demo_filling\<rparr>)"

theorem shutdown_does_not_wait_witness:
  "\<exists>S'. fst (solve demo_solver_env demo_stopping 30) = S' \<and> get_status S' = Some Stopped \<and>
     batches (sol_batches S') \<noteq> []"
proof -
  obtain S' x where run: "solve demo_solver_env demo_stopping 30 = (S', x)" by fastforce
  have st: "get_status demo_stopping = Some ShuttingDown" by (simp add: demo_stopping_def)
  obtain S1 y where b: "with_batches demo_solver_env demo_stopping (\<lambda>BE m. process_batches BE m 30) = (S1, y)"
    by fastforce
  have "snd (with_batches demo_solver_env demo_stopping (\<lambda>BE m. process_batches BE m 30)) \<noteq> Panic"
    "batches (sol_batches (fst (with_batches demo_solver_env demo_stopping (\<lambda>BE m. process_batches BE m 30)))) \<noteq> []"
    by (simp_all add: with_batches_def batch_env_for_def demo_stopping_def evals)
  with b have ok: "y \<noteq> Panic" "batches (sol_batches S1) \<noteq> []" by simp_all
  from run st b ok(1) have "x \<noteq> Panic"
    by (cases y) (auto simp: solve_def complete_shutdown_def ok_def)
  from shutdown_does_not_wait [OF st run this b] ok(2) run show ?thesis by simp
qed

section \<open>The snapshot\<close>

text \<open>The order as it comes back: one stored while its collateral was managed starts over.\<close>

definition recovered :: "solver_order \<Rightarrow> solver_order" where
  "recovered s = (if s_status s = ManageCollateral then s\<lparr>s_status := Open\<rparr> else s)"

definition names_orders :: "((client_key \<times> client_order_id) \<times> nat) list \<Rightarrow> solver_client_orders \<Rightarrow> bool" where
  "names_orders es co \<longleftrightarrow> distinct (map fst es) \<and> map_of es = client_orders co"

lemma recover_order_heap:
  "co_heap (recover_order i co) = (if i < length (co_heap co)
     then (co_heap co)[i := recovered (co_heap co ! i)] else co_heap co)"
  by (auto simp: recover_order_def recovered_def put_back_def Let_def list_update_beyond)

lemma list_update_other: "j \<in> set js \<Longrightarrow> i \<notin> set js \<Longrightarrow> xs[i := x] ! j = xs ! j"
  by (cases "i = j") auto

lemma recover_orders:
  assumes "distinct is" "\<forall>i\<in>set is. i < length (co_heap co)"
  shows "length (co_heap (fold recover_order is co)) = length (co_heap co) \<and>
    client_orders (fold recover_order is co) = client_orders co \<and>
    (\<forall>j. co_heap (fold recover_order is co) ! j =
      (if j \<in> set is then recovered (co_heap co ! j) else co_heap co ! j))"
  using assms
proof (induction "is" arbitrary: co)
  case (Cons i js)
  have "client_orders (recover_order i co) = client_orders co"
    by (simp add: recover_order_def put_back_def Let_def)
  with Cons show ?case by (auto simp: recover_order_heap list_update_other)
qed simp

lemma stored_names:
  assumes "distinct (map fst es)"
  shows "map_of (zip (map fst es) [0..<length es]) k = Some n \<longleftrightarrow> n < length es \<and> fst (es ! n) = k"
proof -
  have "map fst (zip (map fst es) [0..<length es]) = map fst es" by simp
  then have "map_of (zip (map fst es) [0..<length es]) k = Some n \<longleftrightarrow> (k, n) \<in> set (zip (map fst es) [0..<length es])"
    using assms by (metis map_of_eq_Some_iff)
  also have "\<dots> \<longleftrightarrow> n < length es \<and> fst (es ! n) = k" by (auto simp: set_zip intro!: exI [of _ n])
  finally show ?thesis .
qed

lemma restored_orders:
  assumes "names_orders es co"
  shows "map_option (\<lambda>i. co_heap (restore_client_orders (store_client_orders es co)) ! i)
      (client_orders (restore_client_orders (store_client_orders es co)) k) =
    map_option (\<lambda>i. recovered (co_heap co ! i)) (client_orders co k)"
proof -
  let ?st = "store_client_orders es co"
  define base where "base = \<lparr>co_heap = map snd (stored_orders ?st),
    client_orders = map_of (zip (map fst (stored_orders ?st)) [0..<length (stored_orders ?st)]),
    client_order_queues = stored_queues ?st, client_notify_queue = stored_notify ?st,
    client_wait_period = stored_wait ?st\<rparr>"
  have base: "co_heap base = map (\<lambda>(k, h). co_heap co ! h) es"
    "client_orders base = map_of (zip (map fst es) [0..<length es])"
    by (simp_all add: base_def store_client_orders_def comp_def case_prod_beta')
  have d: "distinct (map fst es)" "map_of es = client_orders co" using assms by (simp_all add: names_orders_def)
  have R: "restore_client_orders ?st = fold recover_order [0..<length es] base"
    by (simp add: restore_client_orders_def base_def store_client_orders_def Let_def)
  note rec = recover_orders [of "[0..<length es]" base]
  show ?thesis
  proof (cases "client_orders co k")
    case None
    with d have "map_of (zip (map fst es) [0..<length es]) k = None"
      by (metis length_map length_upt map_fst_zip map_of_eq_None_iff minus_nat.diff_0 set_map)
    with None R rec base show ?thesis by simp
  next
    case (Some h)
    with d obtain n where n: "n < length es" "es ! n = (k, h)" by (metis in_set_conv_nth map_of_SomeD)
    with stored_names [OF d(1)] have "map_of (zip (map fst es) [0..<length es]) k = Some n" by simp
    with n Some R rec base show ?thesis by simp
  qed
qed

definition order_owner :: "solver_order \<Rightarrow> client_key" where
  "order_owner s = (s_chain_id s, s_address s)"

lemma recover_queues:
  assumes "distinct is" "\<forall>i\<in>set is. i < length (co_heap co)"
  shows "client_order_queues (fold recover_order is co) = client_order_queues co \<and>
    client_notify_queue (fold recover_order is co) = client_notify_queue co @
      map order_owner (filter (\<lambda>s. s_status s = ManageCollateral) (map ((!) (co_heap co)) is))"
  using assms
proof (induction "is" arbitrary: co)
  case (Cons i js)
  have same: "map ((!) (co_heap (recover_order i co))) js = map ((!) (co_heap co)) js"
    using Cons.prems by (auto simp: recover_order_heap list_update_other)
  have here: "client_order_queues (recover_order i co) = client_order_queues co"
    "client_notify_queue (recover_order i co) = client_notify_queue co @
       (if s_status (co_heap co ! i) = ManageCollateral then [order_owner (co_heap co ! i)] else [])"
    by (simp_all add: recover_order_def put_back_def order_owner_def Let_def)
  have "length (co_heap (recover_order i co)) = length (co_heap co)" by (simp add: recover_order_heap)
  with Cons.IH [of "recover_order i co"] Cons.prems same here show ?case by simp
qed simp

lemma restored_queues:
  shows "client_order_queues (restore_client_orders (store_client_orders es co)) = client_order_queues co \<and>
    client_notify_queue (restore_client_orders (store_client_orders es co)) = client_notify_queue co @
      map order_owner (filter (\<lambda>s. s_status s = ManageCollateral) (map (\<lambda>(k, h). co_heap co ! h) es))"
proof -
  have heap: "map ((!) (map (\<lambda>(k, h). co_heap co ! h) es)) [0..<length es] = map (\<lambda>(k, h). co_heap co ! h) es"
    by (rule nth_equalityI) auto
  show ?thesis
    using recover_queues [of "[0..<length es]" "\<lparr>co_heap = map (\<lambda>(k, h). co_heap co ! h) es,
      client_orders = map_of (zip (map fst es) [0..<length es]), client_order_queues = client_order_queues co,
      client_notify_queue = client_notify_queue co, client_wait_period = client_wait_period co\<rparr>"]
    by (simp add: restore_client_orders_def store_client_orders_def Let_def comp_def case_prod_beta' heap
        [unfolded case_prod_beta'])
qed

lemma found_again:
  assumes "names_orders es co" "co' = restore_client_orders (store_client_orders es co)"
    and "\<forall>i\<in>set is. client_orders co (order_owner (co_heap co ! i), s_client_order_id (co_heap co ! i)) = Some i"
  shows "map ((!) (co_heap co')) (find_stored co' (map (\<lambda>i. get_key (co_heap co ! i)) is)) =
    map (\<lambda>i. recovered (co_heap co ! i)) is"
  using assms(3)
proof (induction "is")
  case (Cons i js)
  let ?k = "(order_owner (co_heap co ! i), s_client_order_id (co_heap co ! i))"
  from restored_orders [OF assms(1), of ?k] Cons.prems obtain n where
    n: "client_orders co' ?k = Some n" "co_heap co' ! n = recovered (co_heap co ! i)"
    unfolding assms(2) by (auto simp: map_option_eq_Some)
  have "find_stored co' (get_key (co_heap co ! i) # ks) = n # find_stored co' ks" for ks
    using n by (simp add: find_stored_def map_filter_simps get_key_def order_owner_def get_client_order_def)
  with Cons n show ?case by simp
qed (simp add: find_stored_def map_filter_simps)

text \<open>
  C27: loading a snapshot of the solver gives back every order a client has under its name, the
  queues of the clients, and the orders that were ready to be engaged or minted, in their order; an
  order whose collateral was being managed is open again and its client is notified again.
\<close>

theorem snapshot_restores_orders:
  assumes "names_orders es (sol_orders S)" "S' = load_solver_state (create_solver_state_snapshot es S) S0"
    and "\<forall>i\<in>set (ready_orders S @ solver_mints S). get_client_order (sol_orders S) (order_owner (order_at S i))
      (s_client_order_id (order_at S i)) = Some i"
  shows "(\<forall>k coid. map_option (order_at S') (get_client_order (sol_orders S') k coid) =
      map_option (\<lambda>i. recovered (order_at S i)) (get_client_order (sol_orders S) k coid)) \<and>
    client_order_queues (sol_orders S') = client_order_queues (sol_orders S) \<and>
    waiting S' = waiting S @ map order_owner (filter (\<lambda>s. s_status s = ManageCollateral)
      (map (\<lambda>(k, i). order_at S i) es)) \<and>
    map (order_at S') (ready_orders S') = map (\<lambda>i. recovered (order_at S i)) (ready_orders S) \<and>
    map (order_at S') (solver_mints S') = map (\<lambda>i. recovered (order_at S i)) (solver_mints S)"
proof -
  let ?co = "restore_client_orders (store_client_orders es (sol_orders S))"
  have at: "order_at S' = (!) (co_heap ?co)" "order_at S = (!) (co_heap (sol_orders S))"
    by (auto simp: fun_eq_iff order_at_def assms(2) load_solver_state_def create_solver_state_snapshot_def Let_def)
  have parts: "sol_orders S' = ?co"
    "ready_orders S' = find_stored ?co (map (\<lambda>i. get_key (co_heap (sol_orders S) ! i)) (ready_orders S))"
    "solver_mints S' = find_stored ?co (map (\<lambda>i. get_key (co_heap (sol_orders S) ! i)) (solver_mints S))"
    by (simp_all add: assms(2) load_solver_state_def create_solver_state_snapshot_def Let_def at(2))
  have ready: "\<forall>i\<in>set is. client_orders (sol_orders S) (order_owner (co_heap (sol_orders S) ! i),
      s_client_order_id (co_heap (sol_orders S) ! i)) = Some i"
    if "is = ready_orders S \<or> is = solver_mints S" for "is"
    using assms(3) that by (auto simp: get_client_order_def at(2))
  show ?thesis
    using restored_orders [OF assms(1)] restored_queues [of es "sol_orders S"]
      found_again [OF assms(1) refl ready [OF disjI1 [OF refl]]]
      found_again [OF assms(1) refl ready [OF disjI2 [OF refl]]]
    by (simp add: parts at get_client_order_def)
qed

definition demo_stored :: "memory solver" where
  "demo_stored = write_order 1 ((order_at demo_running 1)\<lparr>s_status := ManageCollateral\<rparr>)
     (demo_running\<lparr>ready_orders := [0]\<rparr>)"

theorem snapshot_restores_orders_witness:
  "\<exists>S'. S' = load_solver_state (create_solver_state_snapshot [(((1, 8), ''O2''), 1), (((1, 7), ''O1''), 0)]
       demo_stored) demo_idle \<and>
     map (order_at S') (ready_orders S') = [demo_orders_two ! 0] \<and> waiting S' = [(1, 8)]"
proof -
  have co: "sol_orders demo_stored = (sol_orders demo_running)\<lparr>co_heap :=
      [demo_orders_two ! 0, (demo_orders_two ! 1)\<lparr>s_status := ManageCollateral\<rparr>]\<rparr>"
    "ready_orders demo_stored = [0]" "solver_mints demo_stored = []" "waiting demo_stored = []"
    by (simp_all add: demo_stored_def write_order_def order_at_def)
      (simp_all add: demo_orders_two_def demo_running_def)
  have names: "names_orders [(((1, 8), ''O2''), 1), (((1, 7), ''O1''), 0)] (sol_orders demo_stored)"
    by (auto simp: names_orders_def co fun_eq_iff)
  define S' where "S' = load_solver_state (create_solver_state_snapshot [(((1, 8), ''O2''), 1), (((1, 7), ''O1''), 0)]
       demo_stored) demo_idle"
  have "\<forall>i\<in>set (ready_orders demo_stored @ solver_mints demo_stored). get_client_order (sol_orders demo_stored)
      (order_owner (order_at demo_stored i)) (s_client_order_id (order_at demo_stored i)) = Some i"
    by (simp add: co order_at_def get_client_order_def order_owner_def demo_orders_two_def solver_order_new_def)
  note restored = snapshot_restores_orders [OF names S'_def this, THEN conjunct2, THEN conjunct2]
  have "map (order_at S') (ready_orders S') = [recovered (order_at demo_stored 0)]"
    using restored [THEN conjunct2, THEN conjunct1] by (simp add: co)
  moreover have "waiting S' = [(1, 8)]"
    using restored [THEN conjunct1]
    by (simp add: co order_at_def order_owner_def demo_orders_two_def solver_order_new_def)
      (simp add: demo_running_def)
  ultimately show ?thesis
    unfolding S'_def by (simp add: co order_at_def recovered_def demo_orders_two_def solver_order_new_def)
qed

section \<open>Where the orders of a batch go\<close>

text \<open>What reporting and putting back orders leaves alone.\<close>

definition booked :: "'s solver \<Rightarrow> batch_manager \<times> nat list \<times> nat list" where
  "booked S = (sol_batches S, ready_orders S, solver_mints S)"

lemma booked_parts [simp]:
  "booked (put_order_back S i ts) = booked S" "booked (fst (fail_order E S i ts)) = booked S"
  "booked (fst (ok S)) = booked S"
  by (simp_all add: booked_def put_order_back_def fail_order_def with_index_orders_def ok_def Let_def split: prod.splits)

lemma booked_and_then:
  assumes "booked (fst r) = c" "\<And>s. booked s = c \<Longrightarrow> booked (fst (k s)) = c"
  shows "booked (fst (and_then r k)) = c"
  using assms by (auto simp: and_then_def split: prod.splits outcome.splits sum.splits)

lemma booked_logged [simp]: "booked (fst (logged r)) = booked (fst r)"
  by (auto simp: logged_def ok_def split: prod.splits outcome.splits)

lemma booked_handle_failed [simp]: "booked (fst (handle_failed_orders E S is ts)) = booked S"
  by (induction E S "is" ts rule: handle_failed_orders.induct) (auto intro!: booked_and_then)

lemma booked_drop_orders [simp]: "booked (fst (drop_orders E S is ts)) = booked S"
  by (induction E S "is" ts rule: drop_orders.induct) (auto intro!: booked_and_then)

lemma and_then_Inr_cases:
  assumes "and_then r k = (s, Returns (Inr u))"
  obtains s1 v where "r = (s1, Returns (Inr v))" "k s1 = (s, Returns (Inr u))"
  using assms by (auto simp: and_then_def split: prod.splits outcome.splits sum.splits)

lemma send_engagements_books:
  assumes "send_engagements E S es = (S', Returns (Inr u))"
  shows "ready_orders S' = ready_orders S \<and> solver_mints S' = solver_mints S \<and>
    (if engaged_orders es = [] then sol_batches S' = sol_batches S
     else map_of (engagements (sol_batches S)) (es_batch_order_id es) = None \<and>
       sol_batches S' = (sol_batches S)\<lparr>engagements :=
         put_assoc (es_batch_order_id es) es (engagements (sol_batches S))\<rparr>)"
  using assms
  by (auto simp: send_engagements_def handle_new_engagement_def with_index_orders_def ok_def Let_def
      split: if_splits prod.splits)

lemma settle_unengaged_books:
  assumes "settle_unengaged E S is ts = (S', Returns (Inr u))"
  shows "sol_batches S' = sol_batches S \<and> ready_orders S' = ready_orders S \<and>
    solver_mints S' = solver_mints S @ filter (\<lambda>i. s_status (order_at S i) = PartlyMintable) is"
  using assms booked_drop_orders [of E "S\<lparr>solver_mints := solver_mints S @
    filter (\<lambda>i. s_status (order_at S i) = PartlyMintable) is\<rparr>"
    "filter (\<lambda>i. \<not> s_status (order_at S i) = PartlyMintable) is" ts]
  by (simp add: settle_unengaged_def booked_def Let_def)

lemma engage_result_books:
  assumes "engage_result E S r ts = (S', Returns (Inr u))"
    and "es = engaged_solver_orders_of r"
    and "kept = filter (\<lambda>e. negligible E < se_engaged_collateral e) (engaged_orders es)"
    and "left_out = map se_index_order (filter (\<lambda>e. \<not> negligible E < se_engaged_collateral e) (engaged_orders es))"
  shows "ready_orders S' = ready_orders S \<and>
    (if kept = [] then sol_batches S' = sol_batches S
     else map_of (engagements (sol_batches S)) (es_batch_order_id es) = None \<and>
       sol_batches S' = (sol_batches S)\<lparr>engagements :=
         put_assoc (es_batch_order_id es) (es\<lparr>engaged_orders := kept\<rparr>) (engagements (sol_batches S))\<rparr>)"
proof -
  from assms(1) obtain S1 v where f: "handle_failed_orders E S (failed_orders r) ts = (S1, Returns (Inr v))"
    and rest: "and_then (settle_unengaged E S1 left_out ts)
      (\<lambda>S2. send_engagements E S2 (es\<lparr>engaged_orders := kept\<rparr>)) = (S', Returns (Inr u))"
    unfolding engage_result_def Let_def assms(2-4) by (elim and_then_Inr_cases) auto
  from rest obtain S2 w where s: "settle_unengaged E S1 left_out ts = (S2, Returns (Inr w))"
    and e: "send_engagements E S2 (es\<lparr>engaged_orders := kept\<rparr>) = (S', Returns (Inr u))"
    by (elim and_then_Inr_cases) auto
  have "booked S1 = booked S" using booked_handle_failed [of E S "failed_orders r" ts] f by simp
  with settle_unengaged_books [OF s] send_engagements_books [OF e] show ?thesis
    by (auto simp: booked_def split: if_splits)
qed

text \<open>
  What the client of a failed order is told, whether the index order manager has the order, and
  a report: the order's cancellation is published, the client is refused, and no order is lost.
\<close>

definition told_failed :: "solver_order \<Rightarrow> timestamp \<Rightarrow> order_effect list" where
  "told_failed s ts =
     [Publish (CancelIndexOrder (s_chain_id s) (s_address s) (s_client_order_id s) ts),
      Respond (NewIndexOrderNak (s_chain_id s) (s_address s) (s_client_order_id s)
        (ServerSide (ServerOtherReason ''Cannot handle order: Solver failed'')) ts)]"

definition has_index_order :: "'s index_order_manager \<Rightarrow> solver_order \<Rightarrow> bool" where
  "has_index_order m s \<longleftrightarrow> find_index_order m (s_chain_id s) (s_address s) (s_symbol s) \<noteq> None"

definition reported :: "solver_order list \<Rightarrow> timestamp \<Rightarrow> 's index_order_manager \<Rightarrow> 's index_order_manager \<Rightarrow> bool" where
  "reported ss ts m m' \<longleftrightarrow> (\<forall>s. has_index_order m' s = has_index_order m s) \<and>
     order_effects m' = order_effects m @ concat (map (\<lambda>s. told_failed s ts) (filter (has_index_order m) ss))"

lemma reported_Nil [simp]: "reported [] ts m m' \<longleftrightarrow>
    (\<forall>s. has_index_order m' s = has_index_order m s) \<and> order_effects m' = order_effects m"
  by (simp add: reported_def)

lemma reported_append:
  assumes "reported ss ts m m1" "reported ss' ts m1 m'"
  shows "reported (ss @ ss') ts m m'"
proof -
  from assms(1) have "has_index_order m1 = has_index_order m" by (auto simp: reported_def)
  with assms show ?thesis by (auto simp: reported_def)
qed

lemmas reported_Cons = reported_append [where ss = "[s]" for s, simplified append.simps]

lemma fail_order_reports:
  assumes "fail_order E S i ts = (S', Returns x)"
  obtains m where "S' = S\<lparr>sol_index_orders := m\<rparr>" "reported [order_at S i] ts (sol_index_orders S) m"
    "x = Inr () \<longleftrightarrow> has_index_order (sol_index_orders S) (order_at S i)"
proof -
  let ?s = "order_at S i"
  let ?m = "sol_index_orders S"
  obtain m where m: "order_failed (order_env_of E) ?m (s_chain_id ?s) (s_address ?s)
      (s_client_order_id ?s) (s_symbol ?s) ts = (m, Returns x)" and S': "S' = S\<lparr>sol_index_orders := m\<rparr>"
    using assms by (auto simp: fail_order_def with_index_orders_def Let_def split: prod.splits)
  show thesis
  proof (cases "find_index_order ?m (s_chain_id ?s) (s_address ?s) (s_symbol ?s)")
    case None
    with m have "m = ?m" "x = Inl ''Cannot find index order''" by (auto simp: order_failed_def)
    with S' None show thesis by (intro that [of m]) (auto simp: reported_def has_index_order_def)
  next
    case (Some io)
    with m obtain io' where "m = effect (Respond (NewIndexOrderNak (s_chain_id ?s) (s_address ?s) (s_client_order_id ?s)
        (ServerSide (ServerOtherReason ''Cannot handle order: Solver failed'')) ts))
        (effect (Publish (CancelIndexOrder (s_chain_id ?s) (s_address ?s) (s_client_order_id ?s) ts))
          (put_order ?m (s_chain_id ?s) (s_address ?s) (s_symbol ?s) io'))" "x = Inr ()"
      by (auto simp: order_failed_def split: option.splits)
    with Some S' show thesis
      by (intro that [of m]) (auto simp: reported_def has_index_order_def told_failed_def effect_def
        find_index_order_def user_orders_def put_order_def map_of_put_assoc)
  qed
qed

text \<open>
  The failed orders that are unavailable only for now are put back, in order; every other one is
  known to the index order manager and reported.
\<close>

definition unavailable :: "solver_order list \<Rightarrow> nat \<Rightarrow> bool" where
  "unavailable heap i \<longleftrightarrow> s_status (heap ! i) = ServiceUnavailable"

definition requeued :: "nat list \<Rightarrow> timestamp \<Rightarrow> solver_client_orders \<Rightarrow> solver_client_orders \<Rightarrow> bool" where
  "requeued is ts co co' \<longleftrightarrow>
     client_notify_queue co' = client_notify_queue co @ map (\<lambda>i. order_owner (co_heap co ! i)) is \<and>
     length (co_heap co') = length (co_heap co) \<and>
     (\<forall>j. co_heap co' ! j =
        (if j \<in> set is \<and> j < length (co_heap co) then (co_heap co ! j)\<lparr>s_status := SolverReady, s_timestamp := ts\<rparr> else co_heap co ! j))"
lemma nth_list_update_any: "xs[i := x] ! j = (if i = j \<and> j < length xs then x else xs ! j)"
  by (cases "i = j") (auto simp: not_less list_update_beyond)

lemma handle_failed_settles:
  assumes "handle_failed_orders E S is ts = (S', Returns (Inr u))" "distinct is"
  shows "requeued (filter (unavailable (co_heap (sol_orders S))) is) ts (sol_orders S) (sol_orders S') \<and>
    (\<forall>i\<in>set is. \<not> unavailable (co_heap (sol_orders S)) i \<longrightarrow> has_index_order (sol_index_orders S) (order_at S i)) \<and>
    reported (map (order_at S) (filter (\<lambda>i. \<not> unavailable (co_heap (sol_orders S)) i) is)) ts
      (sol_index_orders S) (sol_index_orders S')"
  using assms
proof (induction "is" arbitrary: S)
  case Nil
  then show ?case by (simp add: ok_def requeued_def)
next
  case (Cons i "is")
  let ?h = "co_heap (sol_orders S)"
  from Cons.prems(2) have i: "i \<notin> set is" "distinct is" by auto
  show ?case
  proof (cases "unavailable ?h i")
    case True
    then have rest: "handle_failed_orders E (put_order_back S i ts) is ts = (S', Returns (Inr u))"
      using Cons.prems(1) by (simp add: and_then_def ok_def unavailable_def order_at_def)
    have h: "co_heap (sol_orders (put_order_back S i ts)) = ?h[i := (?h ! i)\<lparr>s_status := SolverReady, s_timestamp := ts\<rparr>]"
      "client_notify_queue (sol_orders (put_order_back S i ts)) = client_notify_queue (sol_orders S) @ [order_owner (?h ! i)]"
      "sol_index_orders (put_order_back S i ts) = sol_index_orders S"
      by (simp_all add: put_order_back_def put_back_def Let_def order_owner_def)
    have same: "j \<in> set is \<Longrightarrow> order_at (put_order_back S i ts) j = order_at S j" for j
      using i(1) by (cases "j = i") (auto simp: order_at_def h)
    have un: "j \<in> set is \<Longrightarrow> unavailable (co_heap (sol_orders (put_order_back S i ts))) j = unavailable ?h j" for j
      using same by (simp add: unavailable_def order_at_def)
    have f: "filter (unavailable (co_heap (sol_orders (put_order_back S i ts)))) is = filter (unavailable ?h) is"
      "filter (\<lambda>j. \<not> unavailable (co_heap (sol_orders (put_order_back S i ts))) j) is = filter (\<lambda>j. \<not> unavailable ?h j) is"
      using un by (auto intro!: filter_cong)
    have m: "map (order_at (put_order_back S i ts)) (filter Q is) = map (order_at S) (filter Q is)"
      "map (\<lambda>j. order_owner (co_heap (sol_orders (put_order_back S i ts)) ! j)) (filter Q is) =
       map (\<lambda>j. order_owner (?h ! j)) (filter Q is)" for Q
      using same by (auto simp: order_at_def)
    note IH = Cons.IH [OF rest i(2), unfolded f m h(3)]
    from IH [THEN conjunct1] have q: "requeued (filter (unavailable ?h) (i # is)) ts (sol_orders S) (sol_orders S')"
      using True i(1) unfolding requeued_def m(2) h(2)
      by (auto simp: h(1) nth_list_update_any cong: if_cong split: if_splits)
    from IH [THEN conjunct2] same un True q show ?thesis by auto
  next
    case False
    then have "and_then (fail_order E S i ts) (\<lambda>S1. handle_failed_orders E S1 is ts) = (S', Returns (Inr u))"
      using Cons.prems(1) by (simp add: unavailable_def order_at_def)
    then obtain S1 v where one: "fail_order E S i ts = (S1, Returns (Inr v))"
      and rest: "handle_failed_orders E S1 is ts = (S', Returns (Inr u))" by (elim and_then_Inr_cases)
    from one obtain m where S1: "S1 = S\<lparr>sol_index_orders := m\<rparr>"
      and r: "reported [order_at S i] ts (sol_index_orders S) m"
      and k: "has_index_order (sol_index_orders S) (order_at S i)" by (elim fail_order_reports) auto
    have at: "order_at S1 = order_at S" "sol_orders S1 = sol_orders S" "sol_index_orders S1 = m"
      by (auto simp: S1 order_at_def)
    have "has_index_order m = has_index_order (sol_index_orders S)" using r by (auto simp: reported_def)
    with Cons.IH [OF rest i(2)] k False reported_Cons [OF r] show ?thesis by (simp add: at)
  qed
qed

text \<open>The orders left out of a batch that are not minted are reported, where they are known.\<close>

lemma drop_orders_reports:
  assumes "drop_orders E S is ts = (S', Returns (Inr u))"
  shows "sol_orders S' = sol_orders S \<and>
    reported (map (order_at S) is) ts (sol_index_orders S) (sol_index_orders S')"
  using assms
proof (induction "is" arbitrary: S)
  case Nil
  then show ?case by (simp add: ok_def)
next
  case (Cons i "is")
  then have "and_then (logged (fail_order E S i ts)) (\<lambda>S1. drop_orders E S1 is ts) = (S', Returns (Inr u))" by simp
  then obtain S1 v where one: "logged (fail_order E S i ts) = (S1, Returns (Inr v))"
    and rest: "drop_orders E S1 is ts = (S', Returns (Inr u))" by (elim and_then_Inr_cases)
  from one obtain x where "fail_order E S i ts = (S1, Returns x)"
    by (auto simp: logged_def ok_def split: prod.splits outcome.splits)
  then obtain m where S1: "S1 = S\<lparr>sol_index_orders := m\<rparr>"
    and r: "reported [order_at S i] ts (sol_index_orders S) m" by (elim fail_order_reports)
  have at: "order_at S1 = order_at S" "sol_orders S1 = sol_orders S" "sol_index_orders S1 = m"
    by (auto simp: S1 order_at_def)
  from Cons.IH [OF rest] reported_Cons [OF r] show ?case by (simp add: at)
qed

lemma settle_unengaged_reports:
  assumes "settle_unengaged E S is ts = (S', Returns (Inr u))"
  shows "sol_orders S' = sol_orders S \<and>
    reported (map (order_at S) (filter (\<lambda>i. s_status (order_at S i) \<noteq> PartlyMintable) is)) ts
      (sol_index_orders S) (sol_index_orders S')"
proof -
  have "order_at (S\<lparr>solver_mints := ms\<rparr>) = order_at S" for ms by (simp add: order_at_def fun_eq_iff)
  with drop_orders_reports [OF assms [unfolded settle_unengaged_def Let_def]] show ?thesis by simp
qed

lemma send_engagements_engages:
  assumes "send_engagements E S es = (S', Returns (Inr u))"
  shows "sol_orders S' = sol_orders S \<and>
    (if engaged_orders es = [] then sol_index_orders S' = sol_index_orders S
     else IndexOrderManager.engage_orders (order_env_of E) (sol_index_orders S) (es_batch_order_id es)
       (map engage_request (engaged_orders es)) (clock E) = (sol_index_orders S', Returns (Inr ())))"
  using assms
  by (auto simp: send_engagements_def handle_new_engagement_def with_index_orders_def ok_def Let_def
      split: if_splits prod.splits)
lemma engage_result_settles:
  assumes "engage_result E S r ts = (S', Returns (Inr u))"
    and "es = engaged_solver_orders_of r"
    and "kept = filter (\<lambda>e. negligible E < se_engaged_collateral e) (engaged_orders es)"
    and "left_out = map se_index_order (filter (\<lambda>e. \<not> negligible E < se_engaged_collateral e) (engaged_orders es))"
    and "heap = co_heap (sol_orders S)" "distinct (failed_orders r)" "set left_out \<inter> set (failed_orders r) = {}"
  shows "solver_mints S' = solver_mints S @ filter (\<lambda>i. s_status (heap ! i) = PartlyMintable) left_out \<and>
    requeued (filter (unavailable heap) (failed_orders r)) ts (sol_orders S) (sol_orders S') \<and>
    (\<forall>i\<in>set (failed_orders r). \<not> unavailable heap i \<longrightarrow> has_index_order (sol_index_orders S) (heap ! i)) \<and>
    (\<exists>M. reported (map ((!) heap) (filter (\<lambda>i. \<not> unavailable heap i) (failed_orders r) @
          filter (\<lambda>i. s_status (heap ! i) \<noteq> PartlyMintable) left_out)) ts (sol_index_orders S) M \<and>
       (if kept = [] then sol_index_orders S' = M
        else IndexOrderManager.engage_orders (order_env_of E) M (es_batch_order_id es) (map engage_request kept)
          (clock E) = (sol_index_orders S', Returns (Inr ()))))"
proof -
  from assms(1) obtain S1 v where f: "handle_failed_orders E S (failed_orders r) ts = (S1, Returns (Inr v))"
    and rest: "and_then (settle_unengaged E S1 left_out ts)
      (\<lambda>S2. send_engagements E S2 (es\<lparr>engaged_orders := kept\<rparr>)) = (S', Returns (Inr u))"
    unfolding engage_result_def Let_def assms(2-4) by (elim and_then_Inr_cases) auto
  from rest obtain S2 w where s: "settle_unengaged E S1 left_out ts = (S2, Returns (Inr w))"
    and e: "send_engagements E S2 (es\<lparr>engaged_orders := kept\<rparr>) = (S', Returns (Inr u))"
    by (elim and_then_Inr_cases)
  note one = handle_failed_settles [OF f assms(6), folded assms(5)]
  from one [THEN conjunct1] have same: "j \<in> set left_out \<Longrightarrow> order_at S1 j = heap ! j" for j
    using assms(5,7) by (auto simp: requeued_def order_at_def)
  have f1: "filter (\<lambda>i. Q (s_status (order_at S1 i))) left_out = filter (\<lambda>i. Q (s_status (heap ! i))) left_out"
    and m1: "map (order_at S1) (filter Q' left_out) = map ((!) heap) (filter Q' left_out)" for Q Q'
    using same by (auto intro!: filter_cong)
  have "booked S1 = booked S" using booked_handle_failed [of E S "failed_orders r" ts] f by simp
  then have mints: "solver_mints S' = solver_mints S @ filter (\<lambda>i. s_status (heap ! i) = PartlyMintable) left_out"
    using settle_unengaged_books [OF s] send_engagements_books [OF e] f1 [of "\<lambda>st. st = PartlyMintable"]
    by (simp add: booked_def)
  note two = settle_unengaged_reports [OF s, unfolded f1 [where Q = "\<lambda>st. st \<noteq> PartlyMintable"] m1] and three = send_engagements_engages [OF e]
  have at: "order_at S = (!) heap" using assms(5) by (auto simp: order_at_def)
  have "requeued (filter (unavailable heap) (failed_orders r)) ts (sol_orders S) (sol_orders S')"
    using one two three by simp
  moreover have "reported (map ((!) heap) (filter (\<lambda>i. \<not> unavailable heap i) (failed_orders r) @
      filter (\<lambda>i. s_status (heap ! i) \<noteq> PartlyMintable) left_out)) ts (sol_index_orders S) (sol_index_orders S2)"
    unfolding map_append by (rule reported_append [OF one [THEN conjunct2, THEN conjunct2, unfolded at] two [THEN conjunct2]])
  ultimately show ?thesis using mints one [THEN conjunct2, THEN conjunct1, unfolded at] three by auto
qed

lemma mset_map_partition:
  "mset (map f xs) = mset (map f (filter P xs)) + mset (map f (filter (\<lambda>x. \<not> P x) xs))"
  by (induction xs) auto

text \<open>The solver as a client of a strategy: it relies on the contract only.\<close>

context strategy
begin

lemma batch_is_placed:
  assumes "engage_batch (strategy_of E) (host_of E S) = solve"
    and "get_status S = Some Running" "batch = take (batch_limit E) (ready_orders S)" "batch \<noteq> []"
    and "solve (co_heap (sol_orders S)) batch = (heap, Returns (Inr (Some r)))"
    and "engage_more_orders E S ts = (S', Returns (Inr ()))"
    and "es = engaged_solver_orders_of r"
    and "kept = filter (\<lambda>e. negligible E < se_engaged_collateral e) (engaged_orders es)"
    and "left_out = map se_index_order (filter (\<lambda>e. \<not> negligible E < se_engaged_collateral e) (engaged_orders es))"
  shows "mset batch = mset (map se_index_order kept) + mset left_out + mset (failed_orders r)"
    and "ready_orders S' = drop (batch_limit E) (ready_orders S)"
    and "kept \<noteq> [] \<Longrightarrow> map_of (engagements (sol_batches S)) (es_batch_order_id es) = None \<and>
      map_of (engagements (sol_batches S')) (es_batch_order_id es) = Some (es\<lparr>engaged_orders := kept\<rparr>)"
    and "kept = [] \<Longrightarrow> engagements (sol_batches S') = engagements (sol_batches S)"
    and "distinct batch \<Longrightarrow>
      solver_mints S' = solver_mints S @ filter (\<lambda>i. s_status (heap ! i) = PartlyMintable) left_out \<and>
      requeued (filter (unavailable heap) (failed_orders r)) ts ((sol_orders S)\<lparr>co_heap := heap\<rparr>) (sol_orders S') \<and>
      (\<forall>i\<in>set (failed_orders r). \<not> unavailable heap i \<longrightarrow> has_index_order (sol_index_orders S) (heap ! i)) \<and>
      (\<exists>M. reported (map ((!) heap) (filter (\<lambda>i. \<not> unavailable heap i) (failed_orders r) @
            filter (\<lambda>i. s_status (heap ! i) \<noteq> PartlyMintable) left_out)) ts (sol_index_orders S) M \<and>
         (if kept = [] then sol_index_orders S' = M
          else IndexOrderManager.engage_orders (order_env_of E) M (es_batch_order_id es) (map engage_request kept)
            (clock E) = (sol_index_orders S', Returns (Inr ()))))"
proof -
  have host: "host_of E (S\<lparr>ready_orders := q\<rparr>) = host_of E S" for q by (simp add: host_of_def)
  have bounds: "take (min (length (ready_orders S)) (batch_limit E)) (ready_orders S) = batch"
    "drop (min (length (ready_orders S)) (batch_limit E)) (ready_orders S) = drop (batch_limit E) (ready_orders S)"
    using assms(3) by (simp_all add: min_def)
  define S2 where "S2 = S\<lparr>ready_orders := drop (batch_limit E) (ready_orders S),
    sol_orders := (sol_orders S)\<lparr>co_heap := heap\<rparr>, next_batch := Suc (next_batch S)\<rparr>"
  have drained: "get_order_batch E S = (S\<lparr>ready_orders := drop (batch_limit E) (ready_orders S)\<rparr>, batch)"
    by (simp add: get_order_batch_def Let_def bounds)
  have ran: "run_strategy E (S\<lparr>ready_orders := drop (batch_limit E) (ready_orders S)\<rparr>) batch =
      (S2, Returns (Inr (Some r)))"
    by (simp add: run_strategy_def host assms(1,5) S2_def)
  from assms(2,4,6) have S2: "engage_result E S2 r ts = (S', Returns (Inr ()))"
    by (simp add: engage_more_orders_def is_accepting_orders_def drained ran)
  have parts: "booked S2 = (sol_batches S, drop (batch_limit E) (ready_orders S), solver_mints S)"
    by (simp add: booked_def S2_def)
  show all: "mset batch = mset (map se_index_order kept) + mset left_out + mset (failed_orders r)"
    unfolding accounts [OF assms(5), symmetric] assms(7-9) by (rule arg_cong2 [where f = plus, OF mset_map_partition refl])
  from engage_result_books [OF S2 assms(7-9)] parts
  show "ready_orders S' = drop (batch_limit E) (ready_orders S)"
    and "kept \<noteq> [] \<Longrightarrow> map_of (engagements (sol_batches S)) (es_batch_order_id es) = None \<and>
      map_of (engagements (sol_batches S')) (es_batch_order_id es) = Some (es\<lparr>engaged_orders := kept\<rparr>)"
    and "kept = [] \<Longrightarrow> engagements (sol_batches S') = engagements (sol_batches S)"
    by (auto simp: booked_def map_of_put_assoc split: if_splits)
  have heap: "heap = co_heap (sol_orders S2)" by (simp add: S2_def)
  assume "distinct batch"
  with all have "distinct (map se_index_order kept @ left_out @ failed_orders r)"
    by (metis mset_append add.assoc mset_eq_imp_distinct_iff)
  then have "distinct (failed_orders r)" "set left_out \<inter> set (failed_orders r) = {}" by auto
  from engage_result_settles [OF S2 assms(7-9) heap this]
  show "solver_mints S' = solver_mints S @ filter (\<lambda>i. s_status (heap ! i) = PartlyMintable) left_out \<and>
      requeued (filter (unavailable heap) (failed_orders r)) ts ((sol_orders S)\<lparr>co_heap := heap\<rparr>) (sol_orders S') \<and>
      (\<forall>i\<in>set (failed_orders r). \<not> unavailable heap i \<longrightarrow> has_index_order (sol_index_orders S) (heap ! i)) \<and>
      (\<exists>M. reported (map ((!) heap) (filter (\<lambda>i. \<not> unavailable heap i) (failed_orders r) @
            filter (\<lambda>i. s_status (heap ! i) \<noteq> PartlyMintable) left_out)) ts (sol_index_orders S) M \<and>
         (if kept = [] then sol_index_orders S' = M
          else IndexOrderManager.engage_orders (order_env_of E) M (es_batch_order_id es) (map engage_request kept)
            (clock E) = (sol_index_orders S', Returns (Inr ()))))"
    by (simp add: S2_def)
qed

end

text \<open>
  C7: a tick that succeeds in engaging a batch with the simple solver puts every order of the batch
  in exactly one place, and the ready orders behind the batch stay in the queue. Those engaged with
  more than a negligible amount are booked with the batch manager under the batch's new identifier,
  and the index order manager then engages exactly them. In a batch of distinct orders, those
  engaged with a negligible amount or less join the orders to mint, in order, if they are partly
  mintable, and are reported otherwise; the failed ones are put back to the end of the clients'
  queue as ready, in order, if the service was unavailable, and are reported otherwise. Reported
  means that the order's cancellation is published and its client is told, once, before the
  engagement's own effects; an order that was only left out is skipped if the index order manager
  does not know it.
\<close>

theorem batch_orders_are_placed:
  assumes "strategy_of E = simple_strategy D P"
    and "get_status S = Some Running" "batch = take (batch_limit E) (ready_orders S)" "batch \<noteq> []"
    and "solve_engagements D P (host_of E S) (co_heap (sol_orders S)) batch = (heap, Returns (Inr (Some r)))"
    and "engage_more_orders E S ts = (S', Returns (Inr ()))"
    and "es = engaged_solver_orders_of r"
    and "kept = filter (\<lambda>e. negligible E < se_engaged_collateral e) (engaged_orders es)"
    and "left_out = map se_index_order (filter (\<lambda>e. \<not> negligible E < se_engaged_collateral e) (engaged_orders es))"
  shows "mset batch = mset (map se_index_order kept) + mset left_out + mset (failed_orders r) \<and>
    ready_orders S' = drop (batch_limit E) (ready_orders S) \<and>
    (if kept = [] then engagements (sol_batches S') = engagements (sol_batches S)
     else map_of (engagements (sol_batches S)) (es_batch_order_id es) = None \<and>
       map_of (engagements (sol_batches S')) (es_batch_order_id es) = Some (es\<lparr>engaged_orders := kept\<rparr>)) \<and>
    (distinct batch \<longrightarrow>
      solver_mints S' = solver_mints S @ filter (\<lambda>i. s_status (heap ! i) = PartlyMintable) left_out \<and>
      requeued (filter (unavailable heap) (failed_orders r)) ts ((sol_orders S)\<lparr>co_heap := heap\<rparr>) (sol_orders S') \<and>
      (\<forall>i\<in>set (failed_orders r). \<not> unavailable heap i \<longrightarrow> has_index_order (sol_index_orders S) (heap ! i)) \<and>
      (\<exists>M. reported (map ((!) heap) (filter (\<lambda>i. \<not> unavailable heap i) (failed_orders r) @
            filter (\<lambda>i. s_status (heap ! i) \<noteq> PartlyMintable) left_out)) ts (sol_index_orders S) M \<and>
         (if kept = [] then sol_index_orders S' = M
          else IndexOrderManager.engage_orders (order_env_of E) M (es_batch_order_id es) (map engage_request kept)
            (clock E) = (sol_index_orders S', Returns (Inr ())))))"
proof -
  have "engage_batch (strategy_of E) (host_of E S) = solve_engagements D P (host_of E S)"
    using assms(1) by (simp add: simple_strategy_def)
  note placed = simple.batch_is_placed [OF this assms(2-9)]
  show ?thesis using placed(1,2,3,4) by (intro conjI impI placed(5)) simp_all
qed

definition demo_known_orders :: "memory index_order_manager" where
  "demo_known_orders = fst (run (order_call_step demo_order_env) (demo_order_state, 0)
    [AddIndexSymbol ''I'', Message (EvNewIndexOrder 1 7 ''O1'' ''I'' Buy 400 0),
     Message (EvNewIndexOrder 1 8 ''O2'' ''I'' Buy 800 0)])"

definition demo_asks :: "price_point_entry list \<Rightarrow> price_point_book" where
  "demo_asks es = (price_point_book_new (1 / 1000))\<lparr>ask_entries := (price_point_entries_new Sell (1 / 1000))\<lparr>entries := es\<rparr>\<rparr>"

definition demo_trading :: "memory solver" where
  "demo_trading = demo_running\<lparr>sol_index_orders := demo_known_orders,
     sol_baskets := \<lparr>baskets = [''I'' \<mapsto> demo_market_basket], has_observer = False\<rparr>,
     sol_prices := \<lparr>prices = (\<lambda>s. Some \<lparr>sequence_number = 7,
       best_bid_price = Some (if s = ''A'' then 10 else 20), best_ask_price = Some (if s = ''A'' then 10 else 20),
       best_bid_quantity = 1, best_ask_quantity = 1, last_trade_price = None, last_trade_quantity = 0\<rparr>)\<rparr>,
     sol_books := \<lparr>order_books = [''A'' \<mapsto> demo_asks [\<lparr>pp_price = 10, pp_quantity = 30\<rparr>],
       ''B'' \<mapsto> demo_asks [\<lparr>pp_price = 20, pp_quantity = 30\<rparr>]], bm_tolerance = 1 / 1000\<rparr>\<rparr>"

lemma demo_trading_orders: "sol_orders demo_trading = sol_orders demo_running"
   "sol_batches demo_trading = batch_manager_new []" "next_batch demo_trading = 0"
  by (simp_all add: demo_trading_def demo_running_def demo_idle_def solver_new_def set_solver_status_def)


lemmas market_evals = evals demo_trading_def get_basket_def get_prices_def price_of_def mid_point_def
  volume_weighted_def bm_get_liquidity_def bm_get_liquidity_levels_def demo_asks_def book_liquidity_def
  book_liquidity_levels_def get_liquidity_def get_liquidity_levels_def price_point_book_new_def
  price_point_entries_new_def is_finished_def levels_walk.simps(3) [of _ 4, simplified]
  levels_walk.simps(2) [of _ 3, simplified]

definition demo_placed :: solve_engagements_result where
  "demo_placed = (case snd (solve_engagements (dec_upto 1000000) demo_solver (host_of demo_solver_env demo_trading)
     demo_orders_two [0, 1]) of Returns (Inr (Some r)) \<Rightarrow> r | _ \<Rightarrow> undefined)"

lemma demo_placed:
  "solve_engagements (dec_upto 1000000) demo_solver (host_of demo_solver_env demo_trading) demo_orders_two [0, 1] =
     (demo_orders_two, Returns (Inr (Some demo_placed)))"
  "map engage_request (engaged_orders (engaged_solver_orders_of demo_placed)) =
     [\<lparr>er_chain_id = 1, er_address = 7, er_client_order_id = ''O1'', er_symbol = ''I'', er_collateral_amount = 800 / 3\<rparr>,
      \<lparr>er_chain_id = 1, er_address = 8, er_client_order_id = ''O2'', er_symbol = ''I'', er_collateral_amount = 1000 / 3\<rparr>]"
  "filter (\<lambda>e. \<not> negligible demo_solver_env < se_engaged_collateral e) (engaged_orders (engaged_solver_orders_of demo_placed)) = []"
  "failed_orders demo_placed = []"
  by (simp_all add: demo_placed_def host_of_def demo_trading_orders) (simp_all add: market_evals engage_request_def)

lemma demo_engaged_by_orders:
  "snd (IndexOrderManager.engage_orders demo_mint_env demo_known_orders bid
     (map engage_request (engaged_orders (engaged_solver_orders_of demo_placed))) 9) = Returns (Inr ())"
  by (simp add: demo_placed evals demo_known_orders_def)

lemma filter_none_left: "filter (\<lambda>x. \<not> P x) xs = [] \<Longrightarrow> filter P xs = xs"
  by (induction xs) (auto split: if_splits)

theorem batch_orders_are_placed_witness:
  "\<exists>S'. engage_more_orders demo_solver_env demo_trading 20 = (S', Returns (Inr ())) \<and>
     mset [0, 1] = mset (map se_index_order (engaged_orders (engaged_solver_orders_of demo_placed))) \<and>
     map_of (engagements (sol_batches S')) ''B'' = Some (engaged_solver_orders_of demo_placed)"
proof -
  have st: "get_status demo_trading = Some Running" "ready_orders demo_trading = [0, 1]"
    "sol_index_orders demo_trading = demo_known_orders"
    by (simp_all add: demo_trading_def demo_running_def get_status_def set_solver_status_def status_try_from_def)
  have env: "batch_limit demo_solver_env = 4" "clock demo_solver_env = 9"
    "order_env_of demo_solver_env = demo_mint_env"
    "strategy_of demo_solver_env = simple_strategy (dec_upto 1000000) demo_solver"
    by (simp_all add: demo_solver_env_def)
  have drained: "get_order_batch demo_solver_env demo_trading = (demo_trading\<lparr>ready_orders := []\<rparr>, [0, 1])"
    by (simp add: get_order_batch_def st env)
  have host: "host_of demo_solver_env (demo_trading\<lparr>ready_orders := []\<rparr>) = host_of demo_solver_env demo_trading"
    by (simp add: host_of_def)
  note none = demo_placed(3) and kept = filter_none_left [OF demo_placed(3)]
  have "es_batch_order_id (engaged_solver_orders_of demo_placed) = ''B''"
    by (simp add: demo_placed_def host_of_def demo_trading_orders) (simp add: market_evals)
  moreover have "engaged_orders (engaged_solver_orders_of demo_placed) \<noteq> []" using demo_placed(2) by auto
  ultimately have some: "es_batch_order_id (engaged_solver_orders_of demo_placed) = ''B''"
    "engaged_orders (engaged_solver_orders_of demo_placed) \<noteq> []" by auto
  obtain m where m: "IndexOrderManager.engage_orders demo_mint_env demo_known_orders ''B''
      (map engage_request (engaged_orders (engaged_solver_orders_of demo_placed))) 9 = (m, Returns (Inr ()))"
    using demo_engaged_by_orders [of "''B''"] by (metis prod.collapse)
  obtain S' where run: "engage_more_orders demo_solver_env demo_trading 20 = (S', Returns (Inr ()))"
    using some m
    by (auto simp: engage_more_orders_def is_accepting_orders_def st drained run_strategy_def host env
        simple_strategy_def demo_placed demo_trading_orders engage_result_def settle_unengaged_def kept ok_def
        send_engagements_def handle_new_engagement_def with_index_orders_def some batch_manager_new_def Let_def
        simp del: One_nat_def split: prod.splits)
  have batch: "[0, 1] = take (batch_limit demo_solver_env) (ready_orders demo_trading)" by (simp add: env st)
  have solved: "solve_engagements (dec_upto 1000000) demo_solver (host_of demo_solver_env demo_trading)
      (co_heap (sol_orders demo_trading)) [0, 1] = (demo_orders_two, Returns (Inr (Some demo_placed)))"
    by (simp add: demo_placed demo_trading_orders del: One_nat_def)
  from batch_orders_are_placed [OF env(4) st(1) batch _ solved run refl refl refl] some
  show ?thesis using run by (auto simp: env kept demo_placed)
qed

end
