(* ===== verification/QuoteRuns.thy ===== *)
theory QuoteRuns
  imports SolverRuns
begin

text \<open>
  What becomes of a request for a quote, from the client's message through the manager of requests
  and the solver's queue to its answer.
\<close>

section \<open>Requests of the users\<close>

text \<open>
  Every request for a quote is answered exactly once, and it is acknowledged exactly when it
  has been published to the solver, which happens for a purchase on a known index on which the user
  has no quote open; otherwise the request leaves the open quotes as they are.
\<close>

theorem quote_request_is_answered:
  assumes "quote_handle_server_message m (EvNewQuoteRequest chain addr cid sy sd amount ts) = (m', r)"
  defines "open_quote \<equiv> Option.bind (quote_requests m (chain, addr)) (\<lambda>rs. rs sy)"
  shows "(sd = Buy \<and> sy \<in> quote_symbols m \<and> open_quote = None \<longrightarrow>
      quote_effects m' = quote_effects m @ [PublishQuote (NewQuoteRequest chain addr cid sy sd amount ts),
        RespondQuote (NewIndexQuoteAck chain addr cid ts)] \<and>
      Option.bind (quote_requests m' (chain, addr)) (\<lambda>rs. rs sy) = Some (index_quote_new chain addr cid sy sd amount ts)) \<and>
    (\<not> (sd = Buy \<and> sy \<in> quote_symbols m \<and> open_quote = None) \<longrightarrow>
      (\<exists>reason. quote_effects m' = quote_effects m @ [RespondQuote (NewIndexQuoteNak chain addr cid reason ts)]) \<and>
      (\<forall>k sy'. Option.bind (quote_requests m' k) (\<lambda>rs. rs sy') = Option.bind (quote_requests m k) (\<lambda>rs. rs sy')))"
  using assms
  by (cases sd; cases "quote_requests m (chain, addr)")
    (auto simp: quote_handle_server_message_def new_quote_request_def quote_effect_to_def Let_def split: if_splits)

text \<open>
  A request to cancel a quote that names another quote than the one the user has open on the
  index is refused, but the open quote is forgotten all the same, and the solver, which still works
  on it, is not told.
\<close>

theorem foreign_cancel_forgets_quote:
  assumes "sy \<in> quote_symbols m" "quote_requests m (chain, addr) = Some rs" "rs sy = Some q"
    and "iq_client_quote_id q \<noteq> cid"
    and "quote_handle_server_message m (EvCancelQuoteRequest chain addr cid sy ts) = (m', r)"
  shows "(\<exists>reason. quote_effects m' = quote_effects m @ [RespondQuote (CancelIndexQuoteNak chain addr cid reason ts)]) \<and>
    Option.bind (quote_requests m' (chain, addr)) (\<lambda>rs. rs sy) = None"
  using assms
  by (auto simp: quote_handle_server_message_def cancel_quote_request_def quote_effect_to_def Let_def)

section \<open>Quotes that were solved\<close>

lemma fold_forget:
  "quote_effects (fold forget_quote qs m) = quote_effects m \<and>
   Option.bind (quote_requests (fold forget_quote qs m) k) (\<lambda>rs. rs sy) =
     (if \<exists>q\<in>set qs. quote_key q = k \<and> q_symbol q = sy then None
      else Option.bind (quote_requests m k) (\<lambda>rs. rs sy))"
  by (induction qs arbitrary: m) (auto simp: forget_quote_def split: option.splits)

lemma fold_answers:
  "quote_effects (fold (\<lambda>q. quote_effect_to (f q) \<circ> quote_effect_to (g q)) qs m) =
     quote_effects m @ concat (map (\<lambda>q. [g q, f q]) qs) \<and>
   quote_requests (fold (\<lambda>q. quote_effect_to (f q) \<circ> quote_effect_to (g q)) qs m) = quote_requests m"
  by (induction qs arbitrary: m) (auto simp: quote_effect_to_def)

text \<open>
  The quotes of a batch are each taken off the solver's queue and answered, in order, the solved
  ones with their quantity and the failed ones with a refusal, and they are no longer open; the
  quotes of no other user or index are touched.
\<close>

theorem solved_quotes_are_answered:
  assumes "quotes_solved m solved failed = (m', r)"
  shows "r = Inr () \<and>
    quote_effects m' = quote_effects m @ concat (map (\<lambda>q. [cancel_of q, answer_solved q]) solved) @
      concat (map (\<lambda>q. [cancel_of q, answer_failed q]) failed) \<and>
    (\<forall>k sy. Option.bind (quote_requests m' k) (\<lambda>rs. rs sy) =
      (if \<exists>q\<in>set (solved @ failed). quote_key q = k \<and> q_symbol q = sy then None
       else Option.bind (quote_requests m k) (\<lambda>rs. rs sy)))"
  using assms by (auto simp: quotes_solved_def Let_def fold_forget fold_answers)

section \<open>The solver's queue\<close>

text \<open>
  The loop that takes quotes off the queue ends; it takes them from the front, at most one per
  entry of the queue, each has waited long enough, and when it ends no quote at the front is ready.
\<close>

theorem quotes_taken_in_order:
  assumes "take_quotes cq ts = (cq', is)"
  shows "length is \<le> length (quote_notify_queue cq) \<and>
    quote_notify_queue cq' = drop (length is) (quote_notify_queue cq) \<and> cq_heap cq' = cq_heap cq \<and>
    client_quotes cq' = client_quotes cq \<and> snd (get_next_client_quote cq' ts) = None \<and>
    (\<forall>i\<in>set is. q_timestamp (cq_heap cq ! i) \<le> ts - quote_wait_period cq)"
  using assms
proof (induction cq ts arbitrary: cq' "is" rule: take_quotes.induct)
  case (1 cq ts)
  obtain cq1 x where nxt: "get_next_client_quote cq ts = (cq1, x)" by fastforce
  show ?case
  proof (cases x)
    case None
    with nxt have "cq1 = cq"
      by (auto simp: get_next_client_quote_def Let_def split: list.splits option.splits if_splits)
    moreover from 1(2) nxt None have "cq' = cq1" "is = []"
      by (simp_all add: take_quotes.simps [of cq ts])
    ultimately show ?thesis using nxt None by simp
  next
    case (Some i)
    with nxt have front: "quote_notify_queue cq \<noteq> []" "quote_notify_queue cq1 = drop 1 (quote_notify_queue cq)"
      "cq_heap cq1 = cq_heap cq" "client_quotes cq1 = client_quotes cq" "quote_wait_period cq1 = quote_wait_period cq"
      "q_timestamp (cq_heap cq ! i) \<le> ts - quote_wait_period cq"
      by (auto simp: get_next_client_quote_def Let_def split: list.splits option.splits if_splits)
    obtain cq2 js where rest: "take_quotes cq1 ts = (cq2, js)" by fastforce
    from 1(2) nxt Some rest have out: "cq' = cq2" "is = i # js"
      by (simp_all add: take_quotes.simps [of cq ts])
    from 1(1) [OF nxt [symmetric] Some rest] front out show ?thesis
      by (cases "quote_notify_queue cq") auto
  qed
qed

text \<open>
  The identifier of a quote is not checked against the user's quotes on other indexes: the
  request manager acknowledges and publishes such a request, and the solver then refuses it, so the
  user is never answered.
\<close>

theorem reused_quote_id_is_lost:
  assumes "client_quotes cq ((chain, addr), cid) = Some h"
    and "sy \<in> quote_symbols m" "Option.bind (quote_requests m (chain, addr)) (\<lambda>rs. rs sy) = None"
    and "quote_handle_server_message m (EvNewQuoteRequest chain addr cid sy Buy amount ts) = (m', r)"
  shows "quote_effects m' = quote_effects m @ [PublishQuote (NewQuoteRequest chain addr cid sy Buy amount ts),
      RespondQuote (NewIndexQuoteAck chain addr cid ts)] \<and>
    add_client_quote cq (chain, addr) cid sy Buy amount ts = (cq, Inl ''Duplicate Client Quote ID'')"
  using assms
  by (cases "quote_requests m (chain, addr)")
    (auto simp: quote_handle_server_message_def new_quote_request_def quote_effect_to_def add_client_quote_def
      Let_def split: if_splits)

text \<open>
  When the strategy fails on a batch of quotes, the quotes have left the solver's queue and none
  of them is answered.
\<close>

theorem failed_quotes_are_lost:
  assumes "take_quotes (sol_quotes S) ts = (cq, batch)" "batch \<noteq> []"
    and "answer_quotes (strategy_of E) (host_of E S) (cq_heap cq) batch = (heap, Inl e)"
    and "process_more_quotes E S ts = (S', x)"
  shows "x = Returns (Inl e) \<and> quote_effects (sol_quote_requests S') = quote_effects (sol_quote_requests S) \<and>
    quote_notify_queue (sol_quotes S') = quote_notify_queue cq"
  using assms by (auto simp: process_more_quotes_def)

section \<open>A manager with one index\<close>

definition demo_requests :: quote_request_manager where
  "demo_requests = add_quote_symbol (add_quote_symbol quote_request_manager_new ''I'') ''J''"

definition demo_open_quote :: quote_request_manager where
  "demo_open_quote = fst (quote_handle_server_message demo_requests (EvNewQuoteRequest 1 7 ''Q1'' ''I'' Buy 400 0))"

lemmas quote_evals = demo_requests_def demo_open_quote_def add_quote_symbol_def quote_request_manager_new_def
  quote_handle_server_message_def new_quote_request_def quote_effect_to_def

theorem quote_request_is_answered_witness:
  "quote_effects demo_open_quote = [PublishQuote (NewQuoteRequest 1 7 ''Q1'' ''I'' Buy 400 0),
     RespondQuote (NewIndexQuoteAck 1 7 ''Q1'' 0)]"
proof -
  obtain m' r where run: "quote_handle_server_message demo_requests (EvNewQuoteRequest 1 7 ''Q1'' ''I'' Buy 400 0) = (m', r)"
    by fastforce
  from quote_request_is_answered [OF run] run show ?thesis
    by (simp add: demo_open_quote_def) (simp add: demo_requests_def add_quote_symbol_def quote_request_manager_new_def)
qed

theorem foreign_cancel_forgets_quote_witness:
  "\<exists>m' r. quote_handle_server_message demo_open_quote (EvCancelQuoteRequest 1 7 ''Q9'' ''I'' 1) = (m', r) \<and>
     Option.bind (quote_requests demo_open_quote (1, 7)) (\<lambda>rs. rs ''I'') \<noteq> None \<and>
     Option.bind (quote_requests m' (1, 7)) (\<lambda>rs. rs ''I'') = None"
proof -
  obtain rs q where q: "''I'' \<in> quote_symbols demo_open_quote" "quote_requests demo_open_quote (1, 7) = Some rs"
    "rs ''I'' = Some q" "iq_client_quote_id q \<noteq> ''Q9''"
    by (simp add: quote_evals index_quote_new_def)
  obtain m' r where run: "quote_handle_server_message demo_open_quote (EvCancelQuoteRequest 1 7 ''Q9'' ''I'' 1) = (m', r)"
    by fastforce
  from foreign_cancel_forgets_quote [OF q run] run q show ?thesis by auto
qed

theorem solved_quotes_are_answered_witness:
  "\<exists>m' r. quotes_solved demo_open_quote [hd demo_quotes] [] = (m', r) \<and> r = Inr () \<and>
     Option.bind (quote_requests m' (1, 7)) (\<lambda>rs. rs ''I'') = None"
proof -
  obtain m' r where run: "quotes_solved demo_open_quote [hd demo_quotes] [] = (m', r)" by fastforce
  from solved_quotes_are_answered [OF run] run show ?thesis
    by (auto simp: demo_quotes_def quote_key_def solver_quote_new_def)
qed

definition demo_quote_queue :: solver_client_quotes where
  "demo_quote_queue = fst (add_client_quote (solver_client_quotes_new 10) (1, 7) ''Q1'' ''I'' Buy 400 0)"

theorem quotes_taken_in_order_witness:
  "\<exists>cq' is. take_quotes demo_quote_queue 20 = (cq', is) \<and> length is \<le> 1 \<and>
     snd (get_next_client_quote cq' 20) = None"
proof -
  obtain cq' "is" where run: "take_quotes demo_quote_queue 20 = (cq', is)" by fastforce
  have "length (quote_notify_queue demo_quote_queue) = 1"
    by (simp add: demo_quote_queue_def add_client_quote_def solver_client_quotes_new_def)
  with quotes_taken_in_order [OF run] run show ?thesis by auto
qed

theorem reused_quote_id_is_lost_witness:
  "\<exists>m' r. quote_handle_server_message demo_open_quote (EvNewQuoteRequest 1 7 ''Q1'' ''J'' Buy 50 2) = (m', r) \<and>
     last (quote_effects m') = RespondQuote (NewIndexQuoteAck 1 7 ''Q1'' 2) \<and>
     snd (add_client_quote demo_quote_queue (1, 7) ''Q1'' ''J'' Buy 50 2) = Inl ''Duplicate Client Quote ID''"
proof -
  have q: "client_quotes demo_quote_queue ((1, 7), ''Q1'') = Some 0" "''J'' \<in> quote_symbols demo_open_quote"
    "Option.bind (quote_requests demo_open_quote (1, 7)) (\<lambda>rs. rs ''J'') = None"
    by (simp_all add: quote_evals demo_quote_queue_def add_client_quote_def solver_client_quotes_new_def)
  obtain m' r where run: "quote_handle_server_message demo_open_quote (EvNewQuoteRequest 1 7 ''Q1'' ''J'' Buy 50 2) = (m', r)"
    by fastforce
  from reused_quote_id_is_lost [OF q run] run show ?thesis by auto
qed

definition demo_failing_env :: "memory solver_env" where
  "demo_failing_env = demo_solver_env\<lparr>strategy_of := (strategy_of demo_solver_env)\<lparr>
     answer_quotes := (\<lambda>_ heap _. (heap, Inl ''Math problem''))\<rparr>\<rparr>"

definition demo_quoting :: "memory solver" where
  "demo_quoting = demo_running\<lparr>sol_quotes := demo_quote_queue, sol_quote_requests := demo_open_quote\<rparr>"

theorem failed_quotes_are_lost_witness:
  "\<exists>S' x. process_more_quotes demo_failing_env demo_quoting 20 = (S', x) \<and> x = Returns (Inl ''Math problem'') \<and>
     quote_effects (sol_quote_requests S') = quote_effects demo_open_quote"
proof -
  have parts: "sol_quotes demo_quoting = demo_quote_queue" "sol_quote_requests demo_quoting = demo_open_quote"
    by (simp_all add: demo_quoting_def)
  have none: "take_quotes (demo_quote_queue\<lparr>quote_notify_queue := []\<rparr>) 20 =
      (demo_quote_queue\<lparr>quote_notify_queue := []\<rparr>, [])"
    by (subst take_quotes.simps) (simp add: get_next_client_quote_def)
  have "get_next_client_quote demo_quote_queue 20 = (demo_quote_queue\<lparr>quote_notify_queue := []\<rparr>, Some 0)"
    by (simp add: get_next_client_quote_def demo_quote_queue_def add_client_quote_def
        solver_client_quotes_new_def solver_quote_new_def)
  with none have "take_quotes demo_quote_queue 20 = (demo_quote_queue\<lparr>quote_notify_queue := []\<rparr>, [0])"
    by (subst take_quotes.simps) simp
  then have taken: "take_quotes (sol_quotes demo_quoting) 20 = (demo_quote_queue\<lparr>quote_notify_queue := []\<rparr>, [0])"
    by (simp add: parts)
  have failed: "answer_quotes (strategy_of demo_failing_env) (host_of demo_failing_env demo_quoting)
      (cq_heap (demo_quote_queue\<lparr>quote_notify_queue := []\<rparr>)) [0] = (cq_heap demo_quote_queue, Inl ''Math problem'')"
    by (simp add: demo_failing_env_def)
  obtain S' x where run: "process_more_quotes demo_failing_env demo_quoting 20 = (S', x)" by fastforce
  from failed_quotes_are_lost [OF taken _ failed run] run show ?thesis by (simp add: parts)
qed

end
