(* ===== verification/Parsing.thy ===== *)
theory Parsing
  imports Prelude
begin

text \<open>
  What the adapters for the exchange share when they read its messages: results collected into the
  good and the bad (\<open>Itertools::partition_result\<close>), and the case of letters.
\<close>

text \<open>\<open>partition_result\<close>: the good values, and the errors.\<close>

fun partition_result :: "('e + 'a) list \<Rightarrow> 'a list \<times> 'e list" where
  "partition_result [] = ([], [])"
| "partition_result (r # rs) =
     (let (good, bad) = partition_result rs
      in case r of Inl e \<Rightarrow> (good, e # bad) | Inr x \<Rightarrow> (x # good, bad))"

lemma partition_all [simp]:
  "partition_result (map (\<lambda>s. Inr (f s)) subs) = (map f subs, [])"
  "partition_result (map (\<lambda>s. Inl (g s)) subs) = ([], map g subs)"
  by (induction subs) auto

text \<open>\<open>str::to_uppercase\<close> on the ASCII letters market names are made of.\<close>

definition to_upper :: "char \<Rightarrow> char" where
  "to_upper c = (if 97 \<le> (of_char c :: nat) \<and> (of_char c :: nat) \<le> 122 then char_of ((of_char c :: nat) - 32) else c)"

definition to_lower :: "char \<Rightarrow> char" where
  "to_lower c = (if 65 \<le> (of_char c :: nat) \<and> (of_char c :: nat) \<le> 90 then char_of ((of_char c :: nat) + 32) else c)"

text \<open>\<open>str::contains\<close>.\<close>

fun contains :: "string \<Rightarrow> string \<Rightarrow> bool" where
  "contains [] p = (p = [])"
| "contains (c # s) p = (take (length p) (c # s) = p \<or> contains s p)"

lemma contains_sublist: "contains s p \<longleftrightarrow> (\<exists>a b. s = a @ p @ b)"
proof
  show "contains s p \<Longrightarrow> \<exists>a b. s = a @ p @ b"
  proof (induction s)
    case (Cons c s)
    from Cons.prems consider "take (length p) (c # s) = p" | "contains s p" by auto
    then show ?case
    proof cases
      case 1
      then have "c # s = [] @ p @ drop (length p) (c # s)" by (metis append_Nil append_take_drop_id)
      then show ?thesis by blast
    next
      case 2
      with Cons.IH obtain a b where "s = a @ p @ b" by blast
      then have "c # s = (c # a) @ p @ b" by simp
      then show ?thesis by blast
    qed
  qed simp
next
  assume "\<exists>a b. s = a @ p @ b"
  then obtain a b where "s = a @ p @ b" by blast
  moreover have "contains (p @ b) p"
  proof (cases "p @ b")
    case (Cons c s)
    then have "take (length p) (c # s) = p" by (metis append_eq_conv_conj)
    with Cons show ?thesis by simp
  qed simp
  moreover have "contains t p \<Longrightarrow> contains (a @ t) p" for t by (induction a) auto
  ultimately show "contains s p" by blast
qed

text \<open>\<open>[String]::join\<close>.\<close>

fun join :: "string \<Rightarrow> string list \<Rightarrow> string" where
  "join sep [] = []"
| "join sep [s] = s"
| "join sep (s # ss) = s @ sep @ join sep ss"

text \<open>The decimal display of a number.\<close>

fun show_nat :: "nat \<Rightarrow> string" where
  "show_nat n = (if n < 10 then [char_of (48 + n)] else show_nat (n div 10) @ [char_of (48 + n mod 10)])"

declare show_nat.simps [simp del]

lemma show_nat_not_Nil [simp]: "show_nat n \<noteq> []" "[] \<noteq> show_nat n"
  by (subst show_nat.simps, simp)+

lemma digit_inject: "a < 10 \<Longrightarrow> b < 10 \<Longrightarrow> (char_of (48 + a) :: char) = char_of (48 + b) \<Longrightarrow> a = (b :: nat)"
proof -
  assume "a < 10" "b < 10" "(char_of (48 + a) :: char) = char_of (48 + b)"
  then have "(of_char (char_of (48 + a)) :: nat) = of_char (char_of (48 + b))" by simp
  then show "a = b" using \<open>a < 10\<close> \<open>b < 10\<close> by (simp only: of_char_of) simp
qed

lemma show_nat_inject: "show_nat m = show_nat n \<Longrightarrow> m = n"
proof (induction m arbitrary: n rule: less_induct)
  case (less m)
  have digits: "show_nat k = (if k < 10 then [] else show_nat (k div 10)) @ [char_of (48 + k mod 10)]" for k
    by (subst show_nat.simps) simp
  from less.prems have eq: "(if m < 10 then [] else show_nat (m div 10)) = (if n < 10 then [] else show_nat (n div 10))"
    and last: "(char_of (48 + m mod 10) :: char) = char_of (48 + n mod 10)"
    unfolding digits [of m] digits [of n] by simp_all
  have mods: "m mod 10 = n mod 10" using digit_inject [OF _ _ last] by simp
  show ?case
  proof (cases "m < 10")
    case True
    with eq have "n < 10" by (auto split: if_splits)
    with True mods show ?thesis by simp
  next
    case False
    with eq have "\<not> n < 10" "show_nat (m div 10) = show_nat (n div 10)" by (auto split: if_splits)
    with less.IH [of "m div 10" "n div 10"] False have "m div 10 = n div 10" by simp
    with mods show ?thesis by (metis div_mult_mod_eq)
  qed
qed

end
