(* ===== verification/DepthBook.thy ===== *)
theory DepthBook
  imports OrderBook Parsing "HOL-Library.Multiset"
begin

text \<open>
  The order books kept for the Binance feed, \<open>libs/binance-market-data/src/book.rs\<close>: a book is
  built from one depth snapshot, asked for over a channel and answered over HTTP, and from the
  stream of depth updates, which a book without a snapshot buffers.

  Messages arrive as the SDK's records of optional fields, of which the model has those the code
  reads; the decimal parser is a parameter, \<open>P\<close>. An operation takes the reading of the clock and
  whether the receiver of the snapshot requests is still there, and returns, beside its result,
  what it puts out: market data events and requests for snapshots, in order.
\<close>

section \<open>Messages\<close>

datatype price_level = PriceLevel amount amount

record depth_snapshot =
  snap_last_update_id :: u64
  snap_bids :: "price_level list"
  snap_asks :: "price_level list"

record diff_depth_update =
  first_update_id_in_event :: u64
  final_update_id_in_event :: u64
  upd_bids :: "price_level list"
  upd_asks :: "price_level list"

record book_ticker_update =
  tob_best_bid_price :: amount
  tob_best_bid_quantity :: amount
  tob_best_ask_price :: amount
  tob_best_ask_quantity :: amount
  tob_symbol :: string
  tob_update_id :: u64

definition price_level_try_from :: "(string \<Rightarrow> amount result) \<Rightarrow> string list \<Rightarrow> price_level result" where
  "price_level_try_from P value =
     (let (good, bad) = partition_result (map P value)
      in if bad \<noteq> [] then Inl ''Cannot parse price level''
         else case good of
                [a, b] \<Rightarrow> Inr (PriceLevel a b)
              | _ \<Rightarrow> Inl ''Expected two elements'')"

definition price_levels_try_from ::
  "(string \<Rightarrow> amount result) \<Rightarrow> string list list \<Rightarrow> price_level list result" where
  "price_levels_try_from P value =
     (let (good, bad) = partition_result (map (price_level_try_from P) value)
      in if bad \<noteq> [] then Inl ''Cannot parse price level'' else Inr good)"

record depth_response =
  dr_last_update_id :: "u64 option"
  dr_bids :: "string list list option"
  dr_asks :: "string list list option"

record diff_book_depth_response =
  db_first :: "u64 option"
  db_final :: "u64 option"
  db_bids :: "string list list option"
  db_asks :: "string list list option"

record book_ticker_response =
  bt_bid_price :: "string option"
  bt_bid_quantity :: "string option"
  bt_ask_price :: "string option"
  bt_ask_quantity :: "string option"
  bt_symbol :: "string option"
  bt_update_id :: "u64 option"

definition depth_snapshot_try_from ::
  "(string \<Rightarrow> amount result) \<Rightarrow> depth_response \<Rightarrow> depth_snapshot result" where
  "depth_snapshot_try_from P v =
     rbind (ok_or (dr_last_update_id v) ''Missing last update ID'') (\<lambda>n.
     rbind (rbind (ok_or (dr_bids v) ''Misssing bids'') (price_levels_try_from P)) (\<lambda>bids.
     rbind (rbind (ok_or (dr_asks v) ''Misssing asks'') (price_levels_try_from P)) (\<lambda>asks.
       Inr \<lparr>snap_last_update_id = n, snap_bids = bids, snap_asks = asks\<rparr>)))"

definition diff_depth_update_try_from ::
  "(string \<Rightarrow> amount result) \<Rightarrow> diff_book_depth_response \<Rightarrow> diff_depth_update result" where
  "diff_depth_update_try_from P v =
     rbind (ok_or (db_first v) ''Missing first update id'') (\<lambda>f.
     rbind (ok_or (db_final v) ''Missing final update id'') (\<lambda>l.
     rbind (rbind (ok_or (db_bids v) ''Missing bids'') (price_levels_try_from P)) (\<lambda>bids.
     rbind (rbind (ok_or (db_asks v) ''Missing asks'') (price_levels_try_from P)) (\<lambda>asks.
       Inr \<lparr>first_update_id_in_event = f, final_update_id_in_event = l, upd_bids = bids, upd_asks = asks\<rparr>))))"

definition book_ticker_update_try_from ::
  "(string \<Rightarrow> amount result) \<Rightarrow> book_ticker_response \<Rightarrow> book_ticker_update result" where
  "book_ticker_update_try_from P v =
     rbind (rbind (ok_or (bt_bid_price v) ''Missing bid price'') P) (\<lambda>bp.
     rbind (rbind (ok_or (bt_bid_quantity v) ''Missing bid quantity'') P) (\<lambda>bq.
     rbind (rbind (ok_or (bt_ask_price v) ''Missing ask price'') P) (\<lambda>ap.
     rbind (rbind (ok_or (bt_ask_quantity v) ''Missing ask quantity'') P) (\<lambda>aq.
     rbind (ok_or (bt_symbol v) ''Missing symbol'') (\<lambda>s.
     rbind (ok_or (bt_update_id v) ''Missing update id'') (\<lambda>n.
       Inr \<lparr>tob_best_bid_price = bp, tob_best_bid_quantity = bq, tob_best_ask_price = ap,
            tob_best_ask_quantity = aq, tob_symbol = s, tob_update_id = n\<rparr>))))))"

section \<open>A book\<close>

record depth_book =
  db_symbol :: symbol
  pending_updates :: "diff_depth_update list"
  last_update_id :: "u64 option"
  snapshot_requested :: bool
  last_update_timestamp :: timestamp

datatype feed_out = Publish market_data_event | SnapshotRequest symbol

definition depth_book_new :: "symbol \<Rightarrow> timestamp \<Rightarrow> depth_book" where
  "depth_book_new s now = \<lparr>db_symbol = s, pending_updates = [], last_update_id = None,
     snapshot_requested = False, last_update_timestamp = now\<rparr>"

definition request_snapshot :: "bool \<Rightarrow> depth_book \<Rightarrow> depth_book \<times> feed_out list \<times> unit result" where
  "request_snapshot up b =
     (b\<lparr>pending_updates := [], snapshot_requested := True\<rparr>,
      if up then ([SnapshotRequest (db_symbol b)], Inr ()) else ([], Inl ''Failed to request snapshot''))"

definition check_book_stale :: "bool \<Rightarrow> timestamp \<Rightarrow> depth_book \<Rightarrow> depth_book \<times> feed_out list \<times> bool result" where
  "check_book_stale up expiry_time b =
     (if expiry_time < last_update_timestamp b then (b, [], Inr False)
      else if snapshot_requested b then (b, [], Inr True)
      else case request_snapshot up b of
             (b', outs, Inl e) \<Rightarrow> (b', outs, Inl e)
           | (b', outs, Inr _) \<Rightarrow> (b', outs, Inr True))"

definition to_entries :: "price_level list \<Rightarrow> price_point_entry list" where
  "to_entries = map (\<lambda>l. case l of PriceLevel p q \<Rightarrow> \<lparr>pp_price = p, pp_quantity = q\<rparr>)"

definition push_pending :: "diff_depth_update \<Rightarrow> depth_book \<Rightarrow> depth_book" where
  "push_pending u b = b\<lparr>pending_updates := pending_updates b @ [u]\<rparr>"

text \<open>An update the book cannot use yet: the snapshot is asked for, unless it is on its way.\<close>

definition await_snapshot ::
  "bool \<Rightarrow> depth_book \<Rightarrow> diff_depth_update \<Rightarrow> depth_book \<times> feed_out list \<times> unit result" where
  "await_snapshot up b u =
     (if snapshot_requested b then (push_pending u b, [], Inr ())
      else case request_snapshot up b of
             (b', outs, Inl e) \<Rightarrow> (b', outs, Inl e)
           | (b', outs, Inr _) \<Rightarrow> (push_pending u b', outs, Inr ()))"

definition delta_event :: "symbol \<Rightarrow> diff_depth_update \<Rightarrow> feed_out" where
  "delta_event s u = Publish (OrderBookDelta s (final_update_id_in_event u)
     (to_entries (upd_bids u)) (to_entries (upd_asks u)))"

definition apply_update ::
  "bool \<Rightarrow> timestamp \<Rightarrow> depth_book \<Rightarrow> diff_depth_update \<Rightarrow> depth_book \<times> feed_out list \<times> unit result" where
  "apply_update up now b u =
     (case last_update_id b of
        Some last_id \<Rightarrow>
          if last_id + 1 < first_update_id_in_event u then await_snapshot up b u
          else if final_update_id_in_event u < last_id then (b, [], Inr ())
          else (b\<lparr>last_update_id := Some (final_update_id_in_event u), last_update_timestamp := now\<rparr>,
                [delta_event (db_symbol b) u], Inr ())
      | None \<Rightarrow> await_snapshot up b u)"

text \<open>The updates buffered while the snapshot was awaited, up to the first that fails.\<close>

fun apply_pending ::
  "bool \<Rightarrow> timestamp \<Rightarrow> depth_book \<Rightarrow> diff_depth_update list \<Rightarrow> depth_book \<times> feed_out list \<times> unit result" where
  "apply_pending up now b [] = (b, [], Inr ())"
| "apply_pending up now b (u # us) =
     (case apply_update up now b u of
        (b', outs, Inl e) \<Rightarrow> (b', outs, Inl e)
      | (b', outs, Inr _) \<Rightarrow>
          (case apply_pending up now b' us of (b'', outs', r) \<Rightarrow> (b'', outs @ outs', r)))"

fun level_price :: "price_level \<Rightarrow> amount" where
  "level_price (PriceLevel p q) = p"

definition top_event :: "symbol \<Rightarrow> u64 \<Rightarrow> price_level list \<Rightarrow> price_level list \<Rightarrow> feed_out list" where
  "top_event s n bids asks =
     (case (bids, asks) of
        (PriceLevel bp bq # _, PriceLevel ap aq # _) \<Rightarrow> [Publish (TopOfBook s n bp ap bq aq)]
      | _ \<Rightarrow> [])"

definition apply_snapshot ::
  "bool \<Rightarrow> timestamp \<Rightarrow> depth_book \<Rightarrow> depth_snapshot \<Rightarrow> depth_book \<times> feed_out list \<times> unit result" where
  "apply_snapshot up now b s =
     (if \<not> snapshot_requested b then (b, [], Inl ''Received snapshot that was not requested'')
      else
        let n = snap_last_update_id s;
            b' = b\<lparr>last_update_id := Some n, last_update_timestamp := now, snapshot_requested := False,
                    pending_updates := []\<rparr>;
            bids = sort_key (\<lambda>l. - level_price l) (snap_bids s);
            asks = sort_key level_price (snap_asks s);
            snapshot = Publish (OrderBookSnapshot (db_symbol b) n (to_entries bids) (to_entries asks))
        in if pending_updates b = [] then (b', snapshot # top_event (db_symbol b) n bids asks, Inr ())
           else case apply_pending up now b' (pending_updates b) of
                  (b'', outs, r) \<Rightarrow> (b'', snapshot # outs, r))"

section \<open>The books of a subscriber\<close>

text \<open>The books by symbol; a walk over all of them goes in the order of the list.\<close>

type_synonym depth_books = "(symbol \<times> depth_book) list"

fun stale_walk :: "bool \<Rightarrow> timestamp \<Rightarrow> depth_books \<Rightarrow> depth_books \<times> feed_out list \<times> bool result list" where
  "stale_walk up expiry_time [] = ([], [], [])"
| "stale_walk up expiry_time ((s, b) # bs) =
     (case (check_book_stale up expiry_time b, stale_walk up expiry_time bs) of
        ((b', outs, r), (bs', outs', rs)) \<Rightarrow> ((s, b') # bs', outs @ outs', r # rs))"

definition check_stale ::
  "bool \<Rightarrow> timestamp \<Rightarrow> depth_books \<Rightarrow> depth_books \<times> feed_out list \<times> (nat \<times> nat) result" where
  "check_stale up expiry_time bs =
     (case stale_walk up expiry_time bs of
        (bs', outs, rs) \<Rightarrow>
          let (successes, failures) = partition_result rs
          in (bs', outs, if failures \<noteq> [] then Inl ''Check stale failed''
                         else Inr (length (filter id successes), length bs')))"

definition add_book ::
  "bool \<Rightarrow> timestamp \<Rightarrow> depth_books \<Rightarrow> symbol \<Rightarrow> bool \<Rightarrow> depth_books \<times> feed_out list \<times> unit result" where
  "add_book up now bs s request =
     (case map_of bs s of
        Some _ \<Rightarrow> (bs, [], Inl ''Book already exists'')
      | None \<Rightarrow>
          let b = depth_book_new s now
          in if request then case request_snapshot up b of (b', outs, r) \<Rightarrow> (put_assoc s b' bs, outs, r)
             else (put_assoc s b bs, [], Inr ()))"

definition apply_depth_snapshot ::
  "(string \<Rightarrow> amount result) \<Rightarrow> bool \<Rightarrow> timestamp \<Rightarrow> depth_books \<Rightarrow> symbol \<Rightarrow> depth_response \<Rightarrow>
     depth_books \<times> feed_out list \<times> unit result" where
  "apply_depth_snapshot P up now bs s data =
     (case depth_snapshot_try_from P data of
        Inl _ \<Rightarrow> (bs, [], Inl ''Failed to parse snapshot data'')
      | Inr snapshot \<Rightarrow>
          (case map_of bs s of
             None \<Rightarrow> (bs, [], Inl ''Book does not exist'')
           | Some b \<Rightarrow>
               (case apply_snapshot up now b snapshot of (b', outs, r) \<Rightarrow> (put_assoc s b' bs, outs, r))))"

definition apply_book_update ::
  "(string \<Rightarrow> amount result) \<Rightarrow> bool \<Rightarrow> timestamp \<Rightarrow> depth_books \<Rightarrow> symbol \<Rightarrow> diff_book_depth_response \<Rightarrow>
     depth_books \<times> feed_out list \<times> unit result" where
  "apply_book_update P up now bs s data =
     (case diff_depth_update_try_from P data of
        Inl _ \<Rightarrow> (bs, [], Inl ''Cannot parse DiffDepthUpdate'')
      | Inr u \<Rightarrow>
          (case map_of bs s of
             None \<Rightarrow> (bs, [], Inl ''Book does not exist'')
           | Some b \<Rightarrow>
               (case apply_update up now b u of (b', outs, r) \<Rightarrow> (put_assoc s b' bs, outs, r))))"

definition apply_tob_update ::
  "(string \<Rightarrow> amount result) \<Rightarrow> symbol \<Rightarrow> book_ticker_response \<Rightarrow> feed_out list \<times> unit result" where
  "apply_tob_update P s data =
     (case book_ticker_update_try_from P data of
        Inl _ \<Rightarrow> ([], Inl ''Cannot parse BookTickerResponse'')
      | Inr t \<Rightarrow>
          ([Publish (TopOfBook (map to_upper s) (tob_update_id t) (tob_best_bid_price t) (tob_best_ask_price t)
              (tob_best_bid_quantity t) (tob_best_ask_quantity t))], Inr ()))"

section \<open>What the feed of a book promises\<close>

text \<open>The calls a book answers, in the order they come, with all they put out.\<close>

datatype book_call = CheckStale timestamp | Update diff_depth_update | Snapshot depth_snapshot

fun book_step :: "bool \<Rightarrow> timestamp \<Rightarrow> depth_book \<Rightarrow> book_call \<Rightarrow> depth_book \<times> feed_out list" where
  "book_step up now b (CheckStale e) = (let (b', outs, _) = check_book_stale up e b in (b', outs))"
| "book_step up now b (Update u) = (let (b', outs, _) = apply_update up now b u in (b', outs))"
| "book_step up now b (Snapshot s) = (let (b', outs, _) = apply_snapshot up now b s in (b', outs))"

fun book_run :: "depth_book \<Rightarrow> (bool \<times> timestamp \<times> book_call) list \<Rightarrow> depth_book \<times> feed_out list" where
  "book_run b [] = (b, [])"
| "book_run b ((up, now, c) # cs) =
     (case book_step up now b c of (b', outs) \<Rightarrow> (case book_run b' cs of (b'', outs') \<Rightarrow> (b'', outs @ outs')))"

text \<open>
  \<open>feed_last\<close> is the number the feed has reached. A feed is explained by a list of calls, one for
  each snapshot and each delta in it: a snapshot is one that was received, with its levels sorted;
  a delta is an update that was received, and its numbers reach back to the number the feed has
  reached, leaving no gap, and do not end before it. No delta comes before the first snapshot.
\<close>

fun feed_last :: "u64 option \<Rightarrow> feed_out list \<Rightarrow> u64 option" where
  "feed_last l [] = l"
| "feed_last l (Publish (OrderBookSnapshot s n bids asks) # outs) = feed_last (Some n) outs"
| "feed_last l (Publish (OrderBookDelta s n bids asks) # outs) = feed_last (Some n) outs"
| "feed_last l (_ # outs) = feed_last l outs"

definition snapshot_event :: "symbol \<Rightarrow> depth_snapshot \<Rightarrow> market_data_event" where
  "snapshot_event s d = OrderBookSnapshot s (snap_last_update_id d)
     (to_entries (sort_key (\<lambda>l. - level_price l) (snap_bids d))) (to_entries (sort_key level_price (snap_asks d)))"

definition in_sequence :: "u64 option \<Rightarrow> diff_depth_update \<Rightarrow> bool" where
  "in_sequence l u = (case l of None \<Rightarrow> False
     | Some n \<Rightarrow> first_update_id_in_event u \<le> n + 1 \<and> n \<le> final_update_id_in_event u)"

fun explained :: "symbol \<Rightarrow> u64 option \<Rightarrow> book_call list \<Rightarrow> feed_out list \<Rightarrow> bool" where
  "explained s l calls [] = (calls = [])"
| "explained s l calls (Publish (OrderBookSnapshot y n bids asks) # outs) =
     (case calls of
        Snapshot d # calls' \<Rightarrow> OrderBookSnapshot y n bids asks = snapshot_event s d \<and> explained s (Some n) calls' outs
      | _ \<Rightarrow> False)"
| "explained s l calls (Publish (OrderBookDelta y n bids asks) # outs) =
     (case calls of
        Update u # calls' \<Rightarrow> Publish (OrderBookDelta y n bids asks) = delta_event s u \<and> in_sequence l u \<and>
          explained s (Some n) calls' outs
      | _ \<Rightarrow> False)"
| "explained s l calls (_ # outs) = explained s l calls outs"

lemma feed_last_append [simp]: "feed_last l (outs @ outs') = feed_last (feed_last l outs) outs'"
  by (induction l outs rule: feed_last.induct) auto

lemma explained_append:
  "explained s l calls outs \<Longrightarrow> explained s (feed_last l outs) calls' outs' \<Longrightarrow> explained s l (calls @ calls') (outs @ outs')"
  by (induction s l calls outs rule: explained.induct) (auto split: list.splits book_call.splits)

definition pending_calls :: "depth_book \<Rightarrow> book_call multiset" where
  "pending_calls b = mset (map Update (pending_updates b))"

text \<open>A step explains what it puts out by the calls \<open>C\<close> it is given and the updates the book holds.\<close>

definition explains :: "depth_book \<Rightarrow> book_call multiset \<Rightarrow> depth_book \<times> feed_out list \<Rightarrow> bool" where
  "explains b C r \<longleftrightarrow> db_symbol (fst r) = db_symbol b \<and>
     last_update_id (fst r) = feed_last (last_update_id b) (snd r) \<and>
     (\<exists>calls. explained (db_symbol b) (last_update_id b) calls (snd r) \<and> mset calls + pending_calls (fst r) \<subseteq># pending_calls b + C)"

lemma explains_trans:
  assumes "explains b C (b1, outs1)" "explains b1 C' (b2, outs2)"
  shows "explains b (C + C') (b2, outs1 @ outs2)"
proof -
  from assms(1) obtain calls where 1: "explained (db_symbol b) (last_update_id b) calls outs1"
    "mset calls + pending_calls b1 \<subseteq># pending_calls b + C" "db_symbol b1 = db_symbol b" "last_update_id b1 = feed_last (last_update_id b) outs1"
    by (auto simp: explains_def)
  from assms(2) 1 obtain calls' where 2: "explained (db_symbol b) (feed_last (last_update_id b) outs1) calls' outs2"
    "mset calls' + pending_calls b2 \<subseteq># pending_calls b1 + C'" "db_symbol b2 = db_symbol b"
    "last_update_id b2 = feed_last (last_update_id b) (outs1 @ outs2)"
    by (auto simp: explains_def)
  have "mset calls' + pending_calls b2 + mset calls \<subseteq># pending_calls b1 + C' + mset calls"
    by (rule subset_mset.add_right_mono [OF 2(2)])
  also have "\<dots> = mset calls + pending_calls b1 + C'" by (simp only: ac_simps)
  also have "\<dots> \<subseteq># pending_calls b + C + C'" by (rule subset_mset.add_right_mono [OF 1(2)])
  finally have "mset (calls @ calls') + pending_calls b2 \<subseteq># pending_calls b + (C + C')" by (simp only: mset_append ac_simps)
  moreover have "explained (db_symbol b) (last_update_id b) (calls @ calls') (outs1 @ outs2)"
    by (rule explained_append [OF 1(1) 2(1)])
  ultimately show ?thesis unfolding explains_def using 2(3,4) by auto
qed

lemma explains_weaken: "explains b C r \<Longrightarrow> C \<subseteq># C' \<Longrightarrow> explains b C' r"
  unfolding explains_def by (meson subset_mset.add_left_mono subset_mset.order_trans)

lemma await_sel [simp]:
  "last_update_id (fst (await_snapshot up b u)) = last_update_id b"
  "snapshot_requested (fst (await_snapshot up b u))"
  "fst (snd (await_snapshot up b u)) = (if snapshot_requested b \<or> \<not> up then [] else [SnapshotRequest (db_symbol b)])"
  "isl (snd (snd (await_snapshot up b u))) \<longleftrightarrow> \<not> snapshot_requested b \<and> \<not> up"
  by (simp_all add: await_snapshot_def request_snapshot_def push_pending_def)

text \<open>An update is pending_calls back, old, or applied.\<close>

lemma apply_update_cases:
  obtains (await) "apply_update up now b u = await_snapshot up b u"
  | (old) l where "last_update_id b = Some l" "final_update_id_in_event u < l" "apply_update up now b u = (b, [], Inr ())"
  | (new) l where "last_update_id b = Some l" "first_update_id_in_event u \<le> l + 1" "l \<le> final_update_id_in_event u"
      "apply_update up now b u = (b\<lparr>last_update_id := Some (final_update_id_in_event u), last_update_timestamp := now\<rparr>,
         [delta_event (db_symbol b) u], Inr ())"
proof (cases "last_update_id b")
  case None
  then show ?thesis using await by (simp add: apply_update_def)
next
  case (Some l)
  consider "l + 1 < first_update_id_in_event u" | "\<not> l + 1 < first_update_id_in_event u" "final_update_id_in_event u < l"
    | "\<not> l + 1 < first_update_id_in_event u" "\<not> final_update_id_in_event u < l" by blast
  then show ?thesis
  proof cases
    case 1
    then show ?thesis using await Some by (simp add: apply_update_def)
  next
    case 2
    then show ?thesis using old Some by (simp add: apply_update_def)
  next
    case 3
    then show ?thesis using new Some by (simp add: apply_update_def leI)
  qed
qed

lemma explains_await: "explains b {#Update u#} (fst (await_snapshot up b u), fst (snd (await_snapshot up b u)))"
  by (auto simp: explains_def await_snapshot_def request_snapshot_def push_pending_def pending_calls_def intro!: exI [of _ "[]"])

lemma explains_update:
  assumes "apply_update up now b u = (b', outs, r)"
  shows "explains b {#Update u#} (b', outs)"
proof (cases rule: apply_update_cases [of up now b u])
  case await
  with assms have "b' = fst (await_snapshot up b u)" "outs = fst (snd (await_snapshot up b u))" by simp_all
  then show ?thesis using explains_await by simp
next
  case (old l)
  then show ?thesis using assms by (auto simp: explains_def intro!: exI [of _ "[]"])
next
  case (new l)
  then show ?thesis using assms
    by (auto simp: explains_def delta_event_def in_sequence_def pending_calls_def intro!: exI [of _ "[Update u]"])
qed

lemma explains_pending:
  "apply_pending up now b us = (b', outs, r) \<Longrightarrow> explains b (mset (map Update us)) (b', outs)"
proof (induction us arbitrary: b b' outs r)
  case Nil
  then show ?case by (auto simp: explains_def)
next
  case (Cons u us)
  obtain b1 outs1 r1 where 1: "apply_update up now b u = (b1, outs1, r1)" by (metis prod_cases3)
  note step = explains_update [OF 1]
  show ?case
  proof (cases r1)
    case (Inl e)
    with 1 Cons.prems have "b' = b1" "outs = outs1" by auto
    with step show ?thesis by (auto intro: explains_weaken)
  next
    case (Inr x)
    obtain b2 outs2 r2 where 2: "apply_pending up now b1 us = (b2, outs2, r2)" by (metis prod_cases3)
    with 1 Inr Cons.prems have "b' = b2" "outs = outs1 @ outs2" by auto
    with explains_trans [OF step Cons.IH [OF 2]] show ?thesis by simp
  qed
qed

lemma explained_top [simp]:
  "feed_last l (top_event s n bids asks) = l" "explained y l calls (top_event s n bids asks) \<longleftrightarrow> calls = []"
  by (auto simp: top_event_def split: list.splits price_level.splits)

lemma explains_snapshot:
  assumes "apply_snapshot up now b d = (b', outs, r)"
  shows "explains b {#Snapshot d#} (b', outs)"
proof (cases "snapshot_requested b \<and> pending_updates b \<noteq> []")
  case True
  let ?b = "b\<lparr>last_update_id := Some (snap_last_update_id d), last_update_timestamp := now,
    snapshot_requested := False, pending_updates := []\<rparr>"
  obtain outs1 where 1: "apply_pending up now ?b (pending_updates b) = (b', outs1, r)"
    "outs = Publish (snapshot_event (db_symbol b) d) # outs1"
    using True assms by (auto simp: apply_snapshot_def snapshot_event_def Let_def split: prod.splits)
  from explains_pending [OF 1(1)] obtain calls where
    "explained (db_symbol b) (Some (snap_last_update_id d)) calls outs1" "mset calls + pending_calls b' \<subseteq># pending_calls b"
    "db_symbol b' = db_symbol b" "last_update_id b' = feed_last (Some (snap_last_update_id d)) outs1"
    by (auto simp: explains_def pending_calls_def)
  then show ?thesis
    by (auto simp: explains_def 1(2) snapshot_event_def intro!: exI [of _ "Snapshot d # calls"])
next
  case False
  then show ?thesis
  proof (cases "snapshot_requested b")
    case True
    then show ?thesis using assms False
      by (auto simp: apply_snapshot_def explains_def snapshot_event_def pending_calls_def Let_def intro!: exI [of _ "[Snapshot d]"])
  qed (use assms in \<open>auto simp: apply_snapshot_def explains_def\<close>)
qed

lemma explains_step: "explains b {#c#} (book_step up now b c)"
proof (cases c)
  case (CheckStale e)
  then show ?thesis
    by (auto simp: check_book_stale_def request_snapshot_def explains_def pending_calls_def intro!: exI [of _ "[]"])
next
  case (Update u)
  then show ?thesis using explains_update by (auto split: prod.splits)
next
  case (Snapshot s)
  then show ?thesis using explains_snapshot by (auto split: prod.splits)
qed

abbreviation calls_of :: "(bool \<times> timestamp \<times> book_call) list \<Rightarrow> book_call multiset" where
  "calls_of cs \<equiv> mset (map (\<lambda>(_, _, c). c) cs)"

lemma explains_run: "explains b (calls_of cs) (book_run b cs)"
proof (induction b cs rule: book_run.induct)
  case (1 b)
  show ?case by (auto simp: explains_def)
next
  case (2 b up now c cs)
  obtain b1 outs1 where 1: "book_step up now b c = (b1, outs1)" by fastforce
  obtain b2 outs2 where 2: "book_run b1 cs = (b2, outs2)" by fastforce
  have "explains b1 (calls_of cs) (b2, outs2)" using "2.IH" [OF 1 [symmetric]] 2 by simp
  moreover have "explains b {#c#} (b1, outs1)" using explains_step [of b c up now] 1 by simp
  ultimately have "explains b ({#c#} + calls_of cs) (b2, outs1 @ outs2)" by (rule explains_trans [rotated])
  with 1 2 show ?case by simp
qed

text \<open>
  C21: whatever calls a book answers, in whatever order, and whenever its requests cannot be sent,
  everything in the feed it publishes goes back to a call of its own: each snapshot to a snapshot
  and each delta to an update that was received, none used twice. The deltas come in sequence:
  none before the first snapshot, and each starts at the latest where the feed has got to, so that no
  update is missing in between, and does not end before it. The number the feed has reached is the
  book's.
\<close>

theorem book_feed_in_sequence:
  "\<exists>used. mset used \<subseteq># calls_of calls \<and> explained s None used (snd (book_run (depth_book_new s now) calls)) \<and>
   last_update_id (fst (book_run (depth_book_new s now) calls)) =
     feed_last None (snd (book_run (depth_book_new s now) calls))"
proof -
  let ?r = "book_run (depth_book_new s now) calls"
  from explains_run [of "depth_book_new s now" calls] obtain used where
    "explained s None used (snd ?r)" "mset used + pending_calls (fst ?r) \<subseteq># calls_of calls"
    "last_update_id (fst ?r) = feed_last None (snd ?r)"
    by (auto simp: explains_def depth_book_new_def pending_calls_def)
  then show ?thesis by (metis mset_subset_eq_add_left subset_mset.order_trans)
qed

section \<open>One request at a time\<close>

fun is_request :: "feed_out \<Rightarrow> bool" where
  "is_request (SnapshotRequest s) = True"
| "is_request _ = False"

fun is_snapshot :: "feed_out \<Rightarrow> bool" where
  "is_snapshot (Publish (OrderBookSnapshot s n bids asks)) = True"
| "is_snapshot _ = False"

text \<open>Requests sent and snapshots published by a call, against the flag before and after it.\<close>

definition accounted :: "depth_book \<Rightarrow> depth_book \<times> feed_out list \<Rightarrow> bool" where
  "accounted b r \<longleftrightarrow> length (filter is_request (snd r)) + of_bool (snapshot_requested b) =
     length (filter is_snapshot (snd r)) + of_bool (snapshot_requested (fst r))"

lemma accounted_update:
  assumes "apply_update True now b u = (b', outs, r)"
  shows "accounted b (b', outs) \<and> r = Inr ()"
proof (cases rule: apply_update_cases [of True now b u])
  case await
  with assms have "b' = fst (await_snapshot True b u)" "outs = fst (snd (await_snapshot True b u))"
    "r = snd (snd (await_snapshot True b u))" by simp_all
  then show ?thesis by (simp add: accounted_def await_snapshot_def request_snapshot_def push_pending_def)
qed (use assms in \<open>auto simp: accounted_def delta_event_def\<close>)

lemma accounted_pending: "apply_pending True now b us = (b', outs, r) \<Longrightarrow> accounted b (b', outs)"
proof (induction us arbitrary: b b' outs r)
  case (Cons u us)
  obtain b1 outs1 r1 where 1: "apply_update True now b u = (b1, outs1, r1)" by (metis prod_cases3)
  from accounted_update [OF 1] Cons.prems 1 Cons.IH [of b1] show ?case
    by (fastforce simp: accounted_def split: prod.splits)
qed (simp add: accounted_def)

lemma accounted_step: "accounted b (book_step True now b c)"
proof (cases c)
  case (CheckStale e)
  then show ?thesis by (auto simp: check_book_stale_def request_snapshot_def accounted_def)
next
  case (Update u)
  then show ?thesis using accounted_update by (auto split: prod.splits)
next
  case (Snapshot s)
  have top: "filter is_request (top_event y n bids asks) = []" "filter is_snapshot (top_event y n bids asks) = []"
    for y n bids asks by (auto simp: top_event_def split: list.splits price_level.splits)
  let ?b = "b\<lparr>last_update_id := Some (snap_last_update_id s), last_update_timestamp := now,
    snapshot_requested := False, pending_updates := []\<rparr>"
  obtain b' outs r where "apply_pending True now ?b (pending_updates b) = (b', outs, r)" by (metis prod_cases3)
  with accounted_pending [OF this] Snapshot show ?thesis
    by (auto simp: apply_snapshot_def accounted_def Let_def top)
qed

lemma accounted_run: "\<forall>(up, _, _)\<in>set cs. up \<Longrightarrow> accounted b (book_run b cs)"
proof (induction b cs rule: book_run.induct)
  case (2 b up now c cs)
  then have "up" by simp
  with 2 accounted_step [of b now c] show ?case
    by (fastforce simp: accounted_def split: prod.splits)
qed (simp add: accounted_def)

text \<open>
  While requests can be sent, a book has at most one of them unanswered: the requests it has
  sent are the snapshots it has taken, and one more exactly when it is waiting.
\<close>

theorem one_snapshot_request_at_a_time:
  assumes "\<forall>(up, _, _)\<in>set calls. up"
  shows "length (filter is_request (snd (book_run (depth_book_new s now) calls))) =
    length (filter is_snapshot (snd (book_run (depth_book_new s now) calls))) +
    of_bool (snapshot_requested (fst (book_run (depth_book_new s now) calls)))"
  using accounted_run [OF assms, of "depth_book_new s now"] by (simp add: accounted_def depth_book_new_def)

definition demo_update :: "u64 \<Rightarrow> u64 \<Rightarrow> diff_depth_update" where
  "demo_update f l = \<lparr>first_update_id_in_event = f, final_update_id_in_event = l, upd_bids = [], upd_asks = []\<rparr>"

definition demo_snapshot :: "u64 \<Rightarrow> depth_snapshot" where
  "demo_snapshot n = \<lparr>snap_last_update_id = n, snap_bids = [], snap_asks = []\<rparr>"

theorem one_snapshot_request_at_a_time_witness:
  "length (filter is_request (snd (book_run (depth_book_new ''A'' 0)
     [(True, 1, Update (demo_update 5 6)), (True, 2, Snapshot (demo_snapshot 3)), (True, 3, Update (demo_update 7 8))]))) = 2"
proof -
  let ?calls = "[(True, 1 :: timestamp, Update (demo_update 5 6)), (True, 2, Snapshot (demo_snapshot 3)),
    (True, 3, Update (demo_update 7 8))]"
  have "length (filter is_request (snd (book_run (depth_book_new ''A'' 0) ?calls))) =
    length (filter is_snapshot (snd (book_run (depth_book_new ''A'' 0) ?calls))) +
    of_bool (snapshot_requested (fst (book_run (depth_book_new ''A'' 0) ?calls)))"
    by (rule one_snapshot_request_at_a_time) simp
  also have "\<dots> = 2"
    by (simp add: depth_book_new_def demo_update_def demo_snapshot_def apply_update_def apply_snapshot_def
      await_snapshot_def request_snapshot_def push_pending_def delta_event_def evals)
  finally show ?thesis .
qed

section \<open>Catching up after a snapshot\<close>

text \<open>Updates that each start where the one before ended, as the exchange numbers them.\<close>

fun contiguous :: "u64 \<Rightarrow> diff_depth_update list \<Rightarrow> bool" where
  "contiguous f [] = True"
| "contiguous f (u # us) = (first_update_id_in_event u = f \<and> f \<le> final_update_id_in_event u \<and>
     final_update_id_in_event u \<noteq> -1 \<and> contiguous (final_update_id_in_event u + 1) us)"

lemma inc_word:
  shows "(x :: u64) \<noteq> -1 \<Longrightarrow> x < x + 1" and "(x :: u64) < y \<Longrightarrow> x + 1 \<le> y"
proof -
  assume "x \<noteq> -1"
  then have "uint x \<noteq> 2 ^ 64 - 1"
    using word_uint_eqI [of x "-1"] by (auto simp: unsigned_minus_1_eq_mask mask_eq_exp_minus_1)
  moreover have "uint x < 2 ^ 64" using uint_lt2p [of x] by simp
  ultimately have "uint (x + 1) = uint x + 1" by (simp add: uint_plus_if')
  then show "x < x + 1" by (simp add: word_less_def)
qed (rule inc_le)

lemma contiguous_from: "contiguous f us \<Longrightarrow> u \<in> set us \<Longrightarrow> f \<le> final_update_id_in_event u"
proof (induction us arbitrary: f)
  case (Cons v us)
  show ?case
  proof (cases "u = v")
    case False
    with Cons have "final_update_id_in_event v + 1 \<le> final_update_id_in_event u" by auto
    moreover have "final_update_id_in_event v < final_update_id_in_event v + 1" using Cons.prems by (simp add: inc_word)
    ultimately show ?thesis using Cons.prems by auto
  qed (use Cons in simp)
qed simp

lemma apply_pending_contiguous:
  assumes "last_update_id b = Some l" "contiguous f us" "f \<le> l + 1" "l \<noteq> -1"
  shows "\<exists>b'. apply_pending up now b us =
      (b', map (delta_event (db_symbol b)) (filter (\<lambda>u. l \<le> final_update_id_in_event u) us), Inr ()) \<and>
    last_update_id b' = Some (if us = [] then l else max l (final_update_id_in_event (last us))) \<and>
    snapshot_requested b' = snapshot_requested b \<and> pending_updates b' = pending_updates b"
  using assms
proof (induction us arbitrary: b f l)
  case (Cons u us)
  let ?n = "final_update_id_in_event u"
  from Cons.prems have u: "first_update_id_in_event u = f" "f \<le> ?n" "?n \<noteq> -1" "contiguous (?n + 1) us" by auto
  show ?case
  proof (cases "?n < l")
    case True
    then have "apply_update up now b u = (b, [], Inr ())"
      using Cons.prems(1) u(1) leD [OF Cons.prems(3)] by (simp add: apply_update_def)
    moreover have "?n + 1 \<le> l + 1" using inc_word(2) [OF True] inc_word(1) [OF Cons.prems(4)] by simp
    from Cons.IH [OF Cons.prems(1) u(4) this Cons.prems(4)] obtain b' where
      "apply_pending up now b us = (b', map (delta_event (db_symbol b)) (filter (\<lambda>u. l \<le> final_update_id_in_event u) us), Inr ())"
      "last_update_id b' = Some (if us = [] then l else max l (final_update_id_in_event (last us)))"
      "snapshot_requested b' = snapshot_requested b" "pending_updates b' = pending_updates b" by blast
    ultimately show ?thesis using True by (auto simp: max_def not_le split: prod.splits)
  next
    case False
    let ?b = "b\<lparr>last_update_id := Some ?n, last_update_timestamp := now\<rparr>"
    have 1: "apply_update up now b u = (?b, [delta_event (db_symbol b) u], Inr ())"
      using Cons.prems(1) u(1) leD [OF Cons.prems(3)] False by (simp add: apply_update_def)
    have "?n < ?n + 1" using u(3) by (rule inc_word)
    then have later: "?n \<le> final_update_id_in_event v" if "v \<in> set us" for v
      using contiguous_from [OF u(4) that] by auto
    with leI [OF False] have "filter (\<lambda>u. l \<le> final_update_id_in_event u) us = us"
      "filter (\<lambda>v. ?n \<le> final_update_id_in_event v) us = us" by (auto simp: filter_id_conv intro: order_trans)
    moreover from Cons.IH [OF _ u(4) order_refl u(3), of ?b] obtain b' where
      "apply_pending up now ?b us = (b', map (delta_event (db_symbol b)) (filter (\<lambda>v. ?n \<le> final_update_id_in_event v) us), Inr ())"
      "last_update_id b' = Some (if us = [] then ?n else max ?n (final_update_id_in_event (last us)))"
      "snapshot_requested b' = snapshot_requested b" "pending_updates b' = pending_updates b" by auto
    ultimately show ?thesis using 1 False later [OF last_in_set] by (auto simp: max_def not_less split: prod.splits)
  qed
qed simp

text \<open>
  C13: when the buffered updates follow one another without a gap and reach back to the snapshot, the
  book catches up: after the snapshot it publishes exactly those of them whose last number is not
  below the snapshot's, in their order, and it stands at the last of them, waiting for nothing. An
  update that ends exactly at the snapshot is applied once more.
\<close>

theorem resync_catches_up:
  assumes "snapshot_requested b" "pending_updates b \<noteq> []" "contiguous f (pending_updates b)"
    and "f \<le> snap_last_update_id s + 1" "snap_last_update_id s \<noteq> -1"
  shows "\<exists>b' bids asks. apply_snapshot up now b s =
      (b', Publish (OrderBookSnapshot (db_symbol b) (snap_last_update_id s) bids asks) #
           map (delta_event (db_symbol b))
             (filter (\<lambda>u. snap_last_update_id s \<le> final_update_id_in_event u) (pending_updates b)), Inr ()) \<and>
    last_update_id b' = Some (max (snap_last_update_id s) (final_update_id_in_event (last (pending_updates b)))) \<and>
    \<not> snapshot_requested b' \<and> pending_updates b' = []"
proof -
  let ?b = "b\<lparr>last_update_id := Some (snap_last_update_id s), last_update_timestamp := now,
    snapshot_requested := False, pending_updates := []\<rparr>"
  from apply_pending_contiguous [OF _ assms(3-5), of ?b up now] assms(1,2) show ?thesis
    by (auto simp: apply_snapshot_def Let_def)
qed

theorem resync_catches_up_witness:
  "\<exists>b' bids asks. apply_snapshot True 9 ((depth_book_new ''A'' 0)\<lparr>snapshot_requested := True,
       pending_updates := [demo_update 3 4, demo_update 5 6, demo_update 7 8]\<rparr>) (demo_snapshot 5) =
     (b', [Publish (OrderBookSnapshot ''A'' 5 bids asks), delta_event ''A'' (demo_update 5 6),
           delta_event ''A'' (demo_update 7 8)], Inr ()) \<and> last_update_id b' = Some 8"
proof -
  let ?b = "(depth_book_new ''A'' 0)\<lparr>snapshot_requested := True,
    pending_updates := [demo_update 3 4, demo_update 5 6, demo_update 7 8]\<rparr>"
  have "\<exists>b' bids asks. apply_snapshot True 9 ?b (demo_snapshot 5) =
      (b', Publish (OrderBookSnapshot (db_symbol ?b) (snap_last_update_id (demo_snapshot 5)) bids asks) #
           map (delta_event (db_symbol ?b))
             (filter (\<lambda>u. snap_last_update_id (demo_snapshot 5) \<le> final_update_id_in_event u) (pending_updates ?b)), Inr ()) \<and>
    last_update_id b' = Some (max (snap_last_update_id (demo_snapshot 5)) (final_update_id_in_event (last (pending_updates ?b)))) \<and>
    \<not> snapshot_requested b' \<and> pending_updates b' = []"
    by (rule resync_catches_up [of _ 3]) (simp_all add: demo_update_def demo_snapshot_def)
  moreover have "db_symbol ?b = ''A''" "snap_last_update_id (demo_snapshot 5) = 5"
    "filter (\<lambda>u. 5 \<le> final_update_id_in_event u) (pending_updates ?b) = [demo_update 5 6, demo_update 7 8]"
    "max 5 (final_update_id_in_event (last (pending_updates ?b))) = 8"
    by (simp_all add: demo_update_def demo_snapshot_def depth_book_new_def)
  ultimately show ?thesis by (simp del: depth_book.simps) blast
qed

section \<open>What a book does not recover from\<close>

text \<open>
  A book asked again for a snapshot because it had gone stale goes on applying updates instead of
  buffering them. When the snapshot that answers is older than such an update, the book goes back
  to it without that update, and the next update in sequence makes it ask for a snapshot again.
\<close>

theorem stale_resync_goes_back:
  assumes "last_update_id b = Some l" "snapshot_requested b" "pending_updates b = []"
    and "first_update_id_in_event u \<le> l + 1" "l \<le> final_update_id_in_event u"
    and "snap_last_update_id s < final_update_id_in_event u" "final_update_id_in_event u \<noteq> -1"
    and "first_update_id_in_event v = final_update_id_in_event u + 1"
    and "apply_update True now b u = (b1, outs1, r1)" "apply_snapshot True now b1 s = (b2, outs2, r2)"
  shows "outs1 = [delta_event (db_symbol b) u] \<and> last_update_id b2 = Some (snap_last_update_id s) \<and>
    (\<exists>b3. apply_update True now b2 v = (b3, [SnapshotRequest (db_symbol b)], Inr ()) \<and> pending_updates b3 = [v])"
proof -
  have 1: "b1 = b\<lparr>last_update_id := Some (final_update_id_in_event u), last_update_timestamp := now\<rparr>"
    "outs1 = [delta_event (db_symbol b) u]"
    using assms(1,9) leD [OF assms(4)] leD [OF assms(5)] by (simp_all add: apply_update_def)
  then have 2: "last_update_id b2 = Some (snap_last_update_id s)" "\<not> snapshot_requested b2" "db_symbol b2 = db_symbol b"
    using assms(2,3,10) by (auto simp: apply_snapshot_def Let_def)
  have "snap_last_update_id s + 1 < first_update_id_in_event v"
    using inc_word(2) [OF assms(6)] inc_word(1) [OF assms(7)] assms(8) by simp
  then show ?thesis using 1 2 by (simp add: apply_update_def await_snapshot_def request_snapshot_def push_pending_def)
qed

theorem stale_resync_goes_back_witness:
  "\<exists>b1 outs1 r1 b2 outs2 r2 b3. apply_update True 9 ((depth_book_new ''A'' 0)\<lparr>snapshot_requested := True,
       last_update_id := Some 10\<rparr>) (demo_update 11 12) = (b1, outs1, r1) \<and>
     apply_snapshot True 9 b1 (demo_snapshot 10) = (b2, outs2, r2) \<and>
     apply_update True 9 b2 (demo_update 13 14) = (b3, [SnapshotRequest ''A''], Inr ())"
proof -
  let ?b = "(depth_book_new ''A'' 0)\<lparr>snapshot_requested := True, last_update_id := Some 10\<rparr>"
  obtain b1 outs1 r1 where 1: "apply_update True 9 ?b (demo_update 11 12) = (b1, outs1, r1)" by (metis prod_cases3)
  obtain b2 outs2 r2 where 2: "apply_snapshot True 9 b1 (demo_snapshot 10) = (b2, outs2, r2)" by (metis prod_cases3)
  have "\<exists>b3. apply_update True 9 b2 (demo_update 13 14) = (b3, [SnapshotRequest ''A''], Inr ())"
    using stale_resync_goes_back [OF _ _ _ _ _ _ _ _ 1 2, of 10 "demo_update 13 14"]
    by (auto simp: depth_book_new_def demo_update_def demo_snapshot_def)
  with 1 2 show ?thesis by blast
qed

text \<open>
  A book whose first snapshot never comes, because the request was lost or its answer could not
  be fetched, never asks again: it publishes nothing and buffers every update.
\<close>

theorem unanswered_book_stays_silent:
  assumes "snapshot_requested b" "last_update_id b = None"
    and "\<forall>(_, _, c)\<in>set calls. \<forall>s. c \<noteq> Snapshot s"
  shows "snd (book_run b calls) = [] \<and>
    length (pending_updates (fst (book_run b calls))) =
      length (pending_updates b) + length (filter (\<lambda>(_, _, c). \<exists>u. c = Update u) calls)"
  using assms
proof (induction b calls rule: book_run.induct)
  case (2 b up now c cs)
  then show ?case
    by (cases c) (auto simp: check_book_stale_def apply_update_def await_snapshot_def push_pending_def
        split: prod.splits)
qed simp

theorem unanswered_book_stays_silent_witness:
  "snd (book_run ((depth_book_new ''A'' 0)\<lparr>snapshot_requested := True\<rparr>)
     [(True, 1, Update (demo_update 5 6)), (True, 2, CheckStale 100), (True, 3, Update (demo_update 7 8))]) = []"
  by (rule conjunct1 [OF unanswered_book_stays_silent]) (auto simp: depth_book_new_def)

end
