(* ===== verification/MarketFeed.thy ===== *)
theory MarketFeed
  imports DepthBook
begin

text \<open>
  Who subscribes to which market, \<open>libs/market-data/src/\<close>: the subscriptions asked for
  (\<open>subscriptions.rs\<close>), the subscribers that hold them, each with a connection of its own
  (\<open>subscribers.rs\<close>, \<open>subscriber.rs\<close>), the arbiter that hands them out and takes those of a stopped
  subscriber back (\<open>arbiter.rs\<close>), and the checks of a Binance subscriber's loop
  (\<open>libs/binance-market-data/src/binance_subscriber.rs\<close>).

  A channel is the list of the messages in it and whether its receiver is still there. The tasks
  themselves are not part of the model: \<open>F\<close> is whether one can be created for a listing, \<open>G\<close>
  whether it can be started, and a task that ends drops the receiver of its channel.
\<close>

section \<open>Subscriptions\<close>

record subscription =
  ticker :: symbol
  listing :: symbol

record subscriptions =
  sender_open :: bool
  channel :: "subscription list"
  subscribed :: "subscription list"

definition subscriptions_new :: subscriptions where
  "subscriptions_new = \<lparr>sender_open = True, channel = [], subscribed = []\<rparr>"

definition get_subscription_count :: "subscriptions \<Rightarrow> nat" where
  "get_subscription_count S = length (subscribed S)"

definition subscribe :: "subscriptions \<Rightarrow> subscription list \<Rightarrow> subscriptions \<times> unit result" where
  "subscribe S subs =
     (let (successes, failures) = partition_result (map (\<lambda>s. if sender_open S then Inr s else Inl s) subs);
          S' = S\<lparr>channel := channel S @ successes\<rparr>
      in if failures \<noteq> [] then (S', Inl ''Subscriptions failed'')
         else (S'\<lparr>subscribed := fold List.insert successes (subscribed S)\<rparr>, Inr ()))"

section \<open>Subscribers\<close>

record subscriber =
  sr_listing :: symbol
  sr_subscriptions :: subscriptions
  sr_stopped :: bool

definition subscriber_new :: "symbol \<Rightarrow> subscriber" where
  "subscriber_new l = \<lparr>sr_listing = l, sr_subscriptions = subscriptions_new, sr_stopped = False\<rparr>"

definition subscriber_subscribe :: "subscriber \<Rightarrow> subscription list \<Rightarrow> subscriber \<times> unit result" where
  "subscriber_subscribe sr subs =
     (case subscribe (sr_subscriptions sr) subs of (S, r) \<Rightarrow> (sr\<lparr>sr_subscriptions := S\<rparr>, r))"

record subscribers =
  subscriber_list :: "subscriber list"
  max_subscriber_symbols :: nat

definition subscribers_new :: "nat \<Rightarrow> subscribers" where
  "subscribers_new n = \<lparr>subscriber_list = [], max_subscriber_symbols = n\<rparr>"

fun find_available :: "nat \<Rightarrow> symbol \<Rightarrow> subscriber list \<Rightarrow> nat option" where
  "find_available n l [] = None"
| "find_available n l (sr # srs) =
     (if sr_listing sr = l \<and> get_subscription_count (sr_subscriptions sr) < n then Some 0
      else map_option Suc (find_available n l srs))"

definition find_available_subscriber_mut :: "subscribers \<Rightarrow> symbol \<Rightarrow> nat option" where
  "find_available_subscriber_mut ss l = find_available (max_subscriber_symbols ss) l (subscriber_list ss)"

text \<open>A task that cannot be started leaves its subscriber in the list, its channel without a receiver.\<close>

definition start_new_subscriber_mut ::
  "(symbol \<Rightarrow> unit result) \<Rightarrow> (symbol \<Rightarrow> unit result) \<Rightarrow> subscribers \<Rightarrow> symbol \<Rightarrow> subscribers \<times> nat result" where
  "start_new_subscriber_mut F G ss l =
     (case F l of
        Inl e \<Rightarrow> (ss, Inl e)
      | Inr _ \<Rightarrow>
          (case G l of
             Inl e \<Rightarrow>
               (ss\<lparr>subscriber_list := subscriber_list ss @
                  [(subscriber_new l)\<lparr>sr_subscriptions := subscriptions_new\<lparr>sender_open := False\<rparr>\<rparr>]\<rparr>, Inl e)
           | Inr _ \<Rightarrow>
               (ss\<lparr>subscriber_list := subscriber_list ss @ [subscriber_new l]\<rparr>, Inr (length (subscriber_list ss)))))"

definition subscribe_at :: "subscribers \<Rightarrow> nat \<Rightarrow> subscription \<Rightarrow> subscribers \<times> unit result" where
  "subscribe_at ss i s =
     (case subscriber_subscribe (subscriber_list ss ! i) [s] of
        (sr, r) \<Rightarrow> (ss\<lparr>subscriber_list := (subscriber_list ss)[i := sr]\<rparr>, r))"

definition add_subscription ::
  "(symbol \<Rightarrow> unit result) \<Rightarrow> (symbol \<Rightarrow> unit result) \<Rightarrow> subscribers \<Rightarrow> subscription \<Rightarrow> subscribers \<times> unit result" where
  "add_subscription F G ss s =
     (case find_available_subscriber_mut ss (listing s) of
        Some i \<Rightarrow> subscribe_at ss i s
      | None \<Rightarrow>
          (case start_new_subscriber_mut F G ss (listing s) of
             (ss', Inl e) \<Rightarrow> (ss', Inl e)
           | (ss', Inr i) \<Rightarrow> subscribe_at ss' i s))"

definition check_stopped :: "subscribers \<Rightarrow> subscribers \<times> subscription list" where
  "check_stopped ss =
     (ss\<lparr>subscriber_list := filter (\<lambda>sr. \<not> sr_stopped sr) (subscriber_list ss)\<rparr>,
      concat (map (\<lambda>sr. subscribed (sr_subscriptions sr)) (filter sr_stopped (subscriber_list ss))))"

section \<open>The arbiter\<close>

record arbiter =
  arb_subscriptions :: subscriptions
  arb_subscribers :: subscribers

definition arbiter_new :: "nat \<Rightarrow> arbiter" where
  "arbiter_new n = \<lparr>arb_subscriptions = subscriptions_new, arb_subscribers = subscribers_new n\<rparr>"

definition arbiter_check :: "arbiter \<Rightarrow> arbiter" where
  "arbiter_check A =
     (case check_stopped (arb_subscribers A) of
        (ss, lost) \<Rightarrow>
          (if lost = [] then A\<lparr>arb_subscribers := ss\<rparr>
           else A\<lparr>arb_subscribers := ss, arb_subscriptions := fst (subscribe (arb_subscriptions A) lost)\<rparr>))"

text \<open>A subscription that cannot be added is logged and dropped.\<close>

definition arbiter_receive ::
  "(symbol \<Rightarrow> unit result) \<Rightarrow> (symbol \<Rightarrow> unit result) \<Rightarrow> arbiter \<Rightarrow> arbiter" where
  "arbiter_receive F G A =
     (case channel (arb_subscriptions A) of
        [] \<Rightarrow> A
      | s # rest \<Rightarrow>
          A\<lparr>arb_subscriptions := (arb_subscriptions A)\<lparr>channel := rest\<rparr>,
            arb_subscribers := fst (add_subscription F G (arb_subscribers A) s)\<rparr>)"

definition feed_subscribe :: "arbiter \<Rightarrow> subscription list \<Rightarrow> arbiter \<times> unit result" where
  "feed_subscribe A subs =
     (case subscribe (arb_subscriptions A) subs of (S, r) \<Rightarrow> (A\<lparr>arb_subscriptions := S\<rparr>, r))"

text \<open>The environment: a subscriber's task takes its next subscription, or ends.\<close>

definition task_takes :: "nat \<Rightarrow> arbiter \<Rightarrow> arbiter" where
  "task_takes i A =
     (let ss = arb_subscribers A; sr = subscriber_list ss ! i; S = sr_subscriptions sr
      in A\<lparr>arb_subscribers := ss\<lparr>subscriber_list := (subscriber_list ss)
            [i := sr\<lparr>sr_subscriptions := S\<lparr>channel := tl (channel S)\<rparr>\<rparr>]\<rparr>\<rparr>)"

definition task_ends :: "nat \<Rightarrow> arbiter \<Rightarrow> arbiter" where
  "task_ends i A =
     (let ss = arb_subscribers A; sr = subscriber_list ss ! i; S = sr_subscriptions sr
      in A\<lparr>arb_subscribers := ss\<lparr>subscriber_list := (subscriber_list ss)
            [i := sr\<lparr>sr_stopped := True, sr_subscriptions := S\<lparr>sender_open := False, channel := []\<rparr>\<rparr>]\<rparr>\<rparr>)"

section \<open>The checks of a Binance subscriber\<close>

definition create_task_for :: "symbol \<Rightarrow> unit result" where
  "create_task_for l = (if l \<noteq> ''Binance'' then Inl ''Unsupported listing'' else Inr ())"

text \<open>The periodic check: a loop all of whose books are stale ends, and with it the snapshot loop.\<close>

definition stale_check_tick ::
  "bool \<Rightarrow> duration \<Rightarrow> timestamp \<Rightarrow> depth_books \<Rightarrow> depth_books \<times> feed_out list \<times> bool" where
  "stale_check_tick up stale_timeout now bs =
     (case check_stale up (now - stale_timeout) bs of
        (bs', outs, Inl _) \<Rightarrow> (bs', outs, False)
      | (bs', outs, Inr (num_stale, num_subscriptions)) \<Rightarrow> (bs', outs, num_stale = num_subscriptions))"

section \<open>No subscription is lost\<close>

datatype feed_event =
    Subscribe "subscription list" | Receive | Check | TaskTakes nat | TaskEnds nat

fun feed_step ::
  "(symbol \<Rightarrow> unit result) \<Rightarrow> (symbol \<Rightarrow> unit result) \<Rightarrow> arbiter \<Rightarrow> feed_event \<Rightarrow> arbiter" where
  "feed_step F G A (Subscribe subs) = fst (feed_subscribe A subs)"
| "feed_step F G A Receive = arbiter_receive F G A"
| "feed_step F G A Check = arbiter_check A"
| "feed_step F G A (TaskTakes i) = task_takes i A"
| "feed_step F G A (TaskEnds i) = task_ends i A"

lemma set_fold_insert: "set (fold List.insert xs ys) = set xs \<union> set ys"
  by (induction xs arbitrary: ys) auto

lemma subscribe_cases:
  "subscribe S subs =
     (if sender_open S then (S\<lparr>channel := channel S @ subs, subscribed := fold List.insert subs (subscribed S)\<rparr>, Inr ())
      else if subs = [] then (S, Inr ()) else (S, Inl ''Subscriptions failed''))"
  using partition_all(1) [of "\<lambda>s. s" subs] partition_all(2) [of "\<lambda>s. s" subs]
  by (cases "sender_open S") (auto simp: subscribe_def)

lemma find_available_Some:
  "find_available n l srs = Some i \<Longrightarrow> i < length srs \<and> sr_listing (srs ! i) = l \<and>
     get_subscription_count (sr_subscriptions (srs ! i)) < n"
  by (induction srs arbitrary: i) (auto split: if_splits)

text \<open>
  The subscriptions the arbiter could not hand out: adding them failed, because no task could be
  started or because the subscriber chosen had ended unnoticed. The arbiter only logs them.
\<close>

fun refused :: "(symbol \<Rightarrow> unit result) \<Rightarrow> (symbol \<Rightarrow> unit result) \<Rightarrow> arbiter \<Rightarrow> feed_event \<Rightarrow> subscription list" where
  "refused F G A Receive =
     (case channel (arb_subscriptions A) of
        [] \<Rightarrow> []
      | s # _ \<Rightarrow> (if isl (snd (add_subscription F G (arb_subscribers A) s)) then [s] else []))"
| "refused F G A _ = []"

definition logged_step ::
  "(symbol \<Rightarrow> unit result) \<Rightarrow> (symbol \<Rightarrow> unit result) \<Rightarrow> arbiter \<times> subscription list \<Rightarrow> feed_event \<Rightarrow>
     arbiter \<times> subscription list" where
  "logged_step F G st ev = (feed_step F G (fst st) ev, snd st @ refused F G (fst st) ev)"

definition held :: "arbiter \<Rightarrow> subscription set" where
  "held A = (\<Union>sr\<in>set (subscriber_list (arb_subscribers A)). set (subscribed (sr_subscriptions sr)))"

definition covered :: "arbiter \<times> subscription list \<Rightarrow> bool" where
  "covered st \<longleftrightarrow> sender_open (arb_subscriptions (fst st)) \<and>
     set (subscribed (arb_subscriptions (fst st))) \<subseteq>
       set (channel (arb_subscriptions (fst st))) \<union> held (fst st) \<union> set (snd st)"

lemma held_update:
  assumes "set (subscribed (sr_subscriptions (srs ! i))) \<subseteq> set (subscribed (sr_subscriptions sr))"
  shows "(\<Union>x\<in>set srs. set (subscribed (sr_subscriptions x))) \<subseteq>
    (\<Union>x\<in>set (srs[i := sr]). set (subscribed (sr_subscriptions x)))"
proof (cases "i < length srs")
  case True
  show ?thesis
  proof
    fix s assume "s \<in> (\<Union>x\<in>set srs. set (subscribed (sr_subscriptions x)))"
    then obtain x where "x \<in> set srs" "s \<in> set (subscribed (sr_subscriptions x))" by auto
    then obtain j where j: "j < length srs" "s \<in> set (subscribed (sr_subscriptions (srs ! j)))"
      by (metis in_set_conv_nth)
    then have "s \<in> set (subscribed (sr_subscriptions (srs[i := sr] ! j)))"
      using assms by (cases "i = j") auto
    with j show "s \<in> (\<Union>x\<in>set (srs[i := sr]). set (subscribed (sr_subscriptions x)))"
      by (metis UN_I length_list_update nth_mem)
  qed
qed (simp add: list_update_beyond)

lemma subscribe_at_holds:
  assumes "i < length (subscriber_list ss)" "sender_open (sr_subscriptions (subscriber_list ss ! i))"
  shows "insert s (\<Union>x\<in>set (subscriber_list ss). set (subscribed (sr_subscriptions x))) \<subseteq>
    (\<Union>x\<in>set (subscriber_list (fst (subscribe_at ss i s))). set (subscribed (sr_subscriptions x)))"
proof -
  let ?sr = "fst (subscriber_subscribe (subscriber_list ss ! i) [s])"
  have sr: "set (subscribed (sr_subscriptions ?sr)) =
      insert s (set (subscribed (sr_subscriptions (subscriber_list ss ! i))))"
    using assms(2) by (simp add: subscriber_subscribe_def subscribe_cases)
  have "?sr \<in> set ((subscriber_list ss)[i := ?sr])" using assms(1) by (simp add: set_update_memI)
  moreover have "subscriber_list (fst (subscribe_at ss i s)) = (subscriber_list ss)[i := ?sr]"
    by (simp add: subscribe_at_def split: prod.splits)
  ultimately show ?thesis using sr held_update [of "subscriber_list ss" i ?sr] by auto
qed

lemma subscribe_at_result:
  "isl (snd (subscribe_at ss i s)) \<longleftrightarrow> \<not> sender_open (sr_subscriptions (subscriber_list ss ! i))"
  by (simp add: subscribe_at_def subscriber_subscribe_def subscribe_cases)

lemma subscribe_at_keeps:
  "(\<Union>x\<in>set (subscriber_list ss). set (subscribed (sr_subscriptions x))) \<subseteq>
    (\<Union>x\<in>set (subscriber_list (fst (subscribe_at ss i s))). set (subscribed (sr_subscriptions x)))"
proof -
  let ?sr = "fst (subscriber_subscribe (subscriber_list ss ! i) [s])"
  have "subscriber_list (fst (subscribe_at ss i s)) = (subscriber_list ss)[i := ?sr]"
    by (simp add: subscribe_at_def split: prod.splits)
  moreover have "set (subscribed (sr_subscriptions (subscriber_list ss ! i))) \<subseteq> set (subscribed (sr_subscriptions ?sr))"
    by (auto simp: subscriber_subscribe_def subscribe_cases)
  ultimately show ?thesis using held_update by simp
qed

text \<open>What was held stays held, and the subscription that was added is held unless that failed.\<close>

lemma add_subscription_holds:
  defines "held_by \<equiv> \<lambda>ss. \<Union>x\<in>set (subscriber_list ss). set (subscribed (sr_subscriptions x))"
  shows "held_by ss \<subseteq> held_by (fst (add_subscription F G ss s))"
    and "\<not> isl (snd (add_subscription F G ss s)) \<Longrightarrow> s \<in> held_by (fst (add_subscription F G ss s))"
proof -
  let ?ss = "ss\<lparr>subscriber_list := subscriber_list ss @ [subscriber_new (listing s)]\<rparr>"
  consider (old) i where "find_available_subscriber_mut ss (listing s) = Some i" "i < length (subscriber_list ss)"
      "add_subscription F G ss s = subscribe_at ss i s"
    | (failed) e where "snd (add_subscription F G ss s) = Inl e" "held_by ss \<subseteq> held_by (fst (add_subscription F G ss s))"
    | (new) "add_subscription F G ss s = subscribe_at ?ss (length (subscriber_list ss)) s"
  proof (cases "find_available_subscriber_mut ss (listing s)")
    case None
    then show ?thesis using failed new
      by (cases "F (listing s)"; cases "G (listing s)")
        (auto simp: add_subscription_def start_new_subscriber_mut_def held_by_def)
  next
    case (Some i)
    then show ?thesis using old [of i] find_available_Some
      by (auto simp: add_subscription_def find_available_subscriber_mut_def)
  qed
  then have "held_by ss \<subseteq> held_by (fst (add_subscription F G ss s)) \<and>
    (\<not> isl (snd (add_subscription F G ss s)) \<longrightarrow> s \<in> held_by (fst (add_subscription F G ss s)))"
  proof cases
    case (old i)
    then show ?thesis using subscribe_at_keeps [of ss i s] subscribe_at_holds [OF old(2), of s]
      by (auto simp: held_by_def subscribe_at_result)
  next
    case new
    have "held_by ss \<subseteq> held_by ?ss" by (auto simp: held_by_def)
    then show ?thesis using new subscribe_at_keeps [of ?ss "length (subscriber_list ss)" s]
        subscribe_at_holds [of "length (subscriber_list ss)" ?ss s]
      by (auto simp: held_by_def subscribe_at_result)
  qed simp
  then show "held_by ss \<subseteq> held_by (fst (add_subscription F G ss s))"
    and "\<not> isl (snd (add_subscription F G ss s)) \<Longrightarrow> s \<in> held_by (fst (add_subscription F G ss s))" by blast+
qed

lemma split_by:
  "(\<Union>x\<in>set xs. set (f x)) \<subseteq> (\<Union>x\<in>set (filter (\<lambda>x. \<not> P x) xs). set (f x)) \<union> set (concat (map f (filter P xs)))"
  by (induction xs) auto

lemma task_subscriptions [simp]:
  "arb_subscriptions (task_takes i A) = arb_subscriptions A" "arb_subscriptions (task_ends i A) = arb_subscriptions A"
  by (simp_all add: task_takes_def task_ends_def Let_def)

lemma held_task: "held A \<subseteq> held (task_takes i A)" "held A \<subseteq> held (task_ends i A)"
  unfolding held_def task_takes_def task_ends_def Let_def by (simp_all, (rule held_update, simp)+)

lemma cover_move: "S \<subseteq> C \<union> H \<union> R \<Longrightarrow> H \<subseteq> H' \<union> L \<Longrightarrow> S \<union> L \<subseteq> (C \<union> L) \<union> H' \<union> R"
  by blast

lemma arbiter_check_subscriptions:
  assumes "sender_open (arb_subscriptions A)"
  shows "sender_open (arb_subscriptions (arbiter_check A))"
    "set (channel (arb_subscriptions (arbiter_check A))) =
       set (channel (arb_subscriptions A)) \<union> set (snd (check_stopped (arb_subscribers A)))"
    "set (subscribed (arb_subscriptions (arbiter_check A))) =
       set (subscribed (arb_subscriptions A)) \<union> set (snd (check_stopped (arb_subscribers A)))"
  using assms by (auto simp: arbiter_check_def subscribe_cases set_fold_insert split: prod.splits)

lemma covered_step:
  assumes "covered (A, L)"
  shows "covered (logged_step F G (A, L) ev)"
proof (cases ev)
  case (Subscribe subs)
  with assms show ?thesis
    by (auto simp: covered_def held_def logged_step_def feed_subscribe_def subscribe_cases set_fold_insert)
next
  case Receive
  show ?thesis
  proof (cases "channel (arb_subscriptions A)")
    case Nil
    with Receive assms show ?thesis by (simp add: logged_step_def arbiter_receive_def)
  next
    case (Cons s rest)
    note added = add_subscription_holds [where ss = "arb_subscribers A" and F = F and G = G and s = s]
    let ?A = "arbiter_receive F G A"
    have A': "arb_subscriptions ?A = (arb_subscriptions A)\<lparr>channel := rest\<rparr>"
      "held A \<subseteq> held ?A" "refused F G A Receive = [s] \<or> s \<in> held ?A"
      using added by (auto simp: arbiter_receive_def Cons held_def)
    have A: "sender_open (arb_subscriptions A)"
      "set (subscribed (arb_subscriptions A)) \<subseteq> insert s (set rest) \<union> held A \<union> set L"
      using assms Cons by (auto simp: covered_def)
    have "set (subscribed (arb_subscriptions A)) \<subseteq> set rest \<union> held ?A \<union> (set L \<union> set (refused F G A Receive))"
      using A(2) A'(2,3) by (elim disjE) (auto simp del: refused.simps)
    with A(1) A'(1) Receive show ?thesis
      by (simp add: logged_step_def covered_def del: refused.simps)
  qed
next
  case Check
  have kept: "subscriber_list (arb_subscribers (arbiter_check A)) =
      filter (\<lambda>sr. \<not> sr_stopped sr) (subscriber_list (arb_subscribers A))"
    by (simp add: arbiter_check_def check_stopped_def)
  have moved: "held A \<subseteq> held (arbiter_check A) \<union> set (snd (check_stopped (arb_subscribers A)))"
    unfolding held_def kept check_stopped_def snd_conv by (rule split_by)
  from assms have A: "sender_open (arb_subscriptions A)"
    "set (subscribed (arb_subscriptions A)) \<subseteq> set (channel (arb_subscriptions A)) \<union> held A \<union> set L"
    by (simp_all only: covered_def fst_conv snd_conv)
  have "set (subscribed (arb_subscriptions (arbiter_check A))) \<subseteq>
      set (channel (arb_subscriptions (arbiter_check A))) \<union> held (arbiter_check A) \<union> set L"
    unfolding arbiter_check_subscriptions(2,3) [OF A(1)] by (rule cover_move [OF A(2) moved])
  with Check arbiter_check_subscriptions(1) [OF A(1)] show ?thesis by (simp add: covered_def logged_step_def)
next
  case (TaskTakes i)
  with assms held_task(1) [of A i] task_subscriptions [of i A] show ?thesis by (auto simp: covered_def logged_step_def)
next
  case (TaskEnds i)
  with assms held_task(2) [of A i] task_subscriptions [of i A] show ?thesis by (auto simp: covered_def logged_step_def)
qed

interpretation feed: reactive "logged_step F G" "\<lambda>_ _. True" covered for F G
  by unfold_locales (metis covered_step prod.collapse)

lemma logged_run: "fst (run (logged_step F G) st evs) = run (feed_step F G) (fst st) evs"
  by (induction evs arbitrary: st) (simp_all add: logged_step_def)

text \<open>
  C15: whatever is asked for, whatever tasks end and whatever hand-outs fail, a market that was
  subscribed to waits to be handed out, or is held by a subscriber, or is one whose hand-out failed
  with an error that was logged: a subscriber that ends gives its markets back, and a market is lost
  in no other way than by a hand-out that failed.
\<close>

theorem no_subscription_is_lost:
  assumes "run (logged_step F G) (arbiter_new n, []) evs = (A, failed)"
    and "s \<in> set (subscribed (arb_subscriptions A))"
  shows "s \<in> set (channel (arb_subscriptions A)) \<or>
    (\<exists>sr\<in>set (subscriber_list (arb_subscribers A)). s \<in> set (subscribed (sr_subscriptions sr))) \<or>
    s \<in> set failed"
proof -
  have "covered (arbiter_new n, [])" by (simp add: covered_def arbiter_new_def subscriptions_new_def)
  from feed.run_inv [OF this admits_True, of F G evs] assms show ?thesis by (auto simp: covered_def held_def)
qed

definition demo_market :: "symbol \<Rightarrow> subscription" where
  "demo_market t = \<lparr>ticker = t, listing = ''Binance''\<rparr>"

lemmas feed_evals = arbiter_new_def subscriptions_new_def subscribers_new_def feed_subscribe_def subscribe_cases
  arbiter_receive_def add_subscription_def find_available_subscriber_mut_def start_new_subscriber_mut_def
  subscribe_at_def subscriber_subscribe_def subscriber_new_def create_task_for_def demo_market_def
  task_ends_def task_takes_def arbiter_check_def check_stopped_def get_subscription_count_def
  logged_step_def

theorem no_subscription_is_lost_witness:
  "\<exists>A. run (logged_step create_task_for (\<lambda>_. Inr ())) (arbiter_new 5, [])
      [Subscribe [demo_market ''A''], Receive, TaskEnds 0, Check] = (A, []) \<and>
    (demo_market ''A'' \<in> set (channel (arb_subscriptions A)) \<or>
     (\<exists>sr\<in>set (subscriber_list (arb_subscribers A)). demo_market ''A'' \<in> set (subscribed (sr_subscriptions sr))))"
proof -
  let ?evs = "[Subscribe [demo_market ''A''], Receive, TaskEnds 0, Check]"
  obtain A L where run: "run (logged_step create_task_for (\<lambda>_. Inr ())) (arbiter_new 5, []) ?evs = (A, L)" by fastforce
  then have "L = []" "demo_market ''A'' \<in> set (subscribed (arb_subscriptions A))" by (auto simp: feed_evals)
  with no_subscription_is_lost [OF run, of "demo_market ''A''"] run show ?thesis by auto
qed

text \<open>
  A subscription handed to a subscriber that has ended but has not been noticed yet is gone: no
  subscriber holds it, and the next check does not bring it back.
\<close>

theorem late_subscription_is_lost:
  assumes "channel (arb_subscriptions A) = s # rest" "s \<notin> set rest"
    and "\<forall>sr\<in>set (subscriber_list (arb_subscribers A)). s \<notin> set (subscribed (sr_subscriptions sr))"
    and "find_available_subscriber_mut (arb_subscribers A) (listing s) = Some i"
    and "\<not> sender_open (sr_subscriptions (subscriber_list (arb_subscribers A) ! i))"
    and "A' = run (feed_step F G) A [Receive, Check]"
  shows "s \<notin> set (channel (arb_subscriptions A')) \<and>
    (\<forall>sr\<in>set (subscriber_list (arb_subscribers A')). s \<notin> set (subscribed (sr_subscriptions sr)))"
proof -
  let ?srs = "subscriber_list (arb_subscribers A)"
  have "fst (add_subscription F G (arb_subscribers A) s) =
      (arb_subscribers A)\<lparr>subscriber_list := ?srs[i := ?srs ! i]\<rparr>"
    using assms(4,5) by (simp add: add_subscription_def subscribe_at_def subscriber_subscribe_def subscribe_cases)
  then have "arbiter_receive F G A = A\<lparr>arb_subscriptions := (arb_subscriptions A)\<lparr>channel := rest\<rparr>\<rparr>"
    using assms(1) by (simp add: arbiter_receive_def)
  with assms(2,3,6) show ?thesis
    by (auto simp: arbiter_check_def check_stopped_def subscribe_cases split: if_splits)
qed

theorem late_subscription_is_lost_witness:
  "\<exists>A. channel (arb_subscriptions A) = [demo_market ''B''] \<and>
     (\<forall>sr\<in>set (subscriber_list (arb_subscribers (run (feed_step create_task_for (\<lambda>_. Inr ())) A [Receive, Check]))).
        demo_market ''B'' \<notin> set (subscribed (sr_subscriptions sr)))"
proof (intro exI conjI)
  let ?A = "run (feed_step create_task_for (\<lambda>_. Inr ())) (arbiter_new 5)
    [Subscribe [demo_market ''A''], Receive, TaskEnds 0, Subscribe [demo_market ''B'']]"
  show "channel (arb_subscriptions ?A) = [demo_market ''B'']" by (simp add: feed_evals)
  show "\<forall>sr\<in>set (subscriber_list (arb_subscribers (run (feed_step create_task_for (\<lambda>_. Inr ())) ?A [Receive, Check]))).
      demo_market ''B'' \<notin> set (subscribed (sr_subscriptions sr))"
    by (rule conjunct2 [OF late_subscription_is_lost [where A = ?A and i = 0 and rest = "[]", OF _ _ _ _ _ refl]])
      (simp_all add: feed_evals)
qed

section \<open>Loads and resets\<close>

definition within_load :: "arbiter \<Rightarrow> bool" where
  "within_load A \<longleftrightarrow> list_all (\<lambda>sr. get_subscription_count (sr_subscriptions sr) \<le>
     max 1 (max_subscriber_symbols (arb_subscribers A))) (subscriber_list (arb_subscribers A))"

lemma count_subscribe:
  "get_subscription_count (fst (subscribe S [s])) \<le> Suc (get_subscription_count S)"
  by (simp add: subscribe_cases get_subscription_count_def List.insert_def)

lemma subscribe_at_load:
  assumes "i < length (subscriber_list ss)"
    and "get_subscription_count (sr_subscriptions (subscriber_list ss ! i)) < max 1 n"
    and "list_all (\<lambda>sr. get_subscription_count (sr_subscriptions sr) \<le> max 1 n) (subscriber_list ss)"
  shows "list_all (\<lambda>sr. get_subscription_count (sr_subscriptions sr) \<le> max 1 n)
      (subscriber_list (fst (subscribe_at ss i s))) \<and>
    max_subscriber_symbols (fst (subscribe_at ss i s)) = max_subscriber_symbols ss"
proof -
  let ?sr = "fst (subscriber_subscribe (subscriber_list ss ! i) [s])"
  have "get_subscription_count (sr_subscriptions ?sr) \<le> max 1 n"
    using count_subscribe [of "sr_subscriptions (subscriber_list ss ! i)" s] assms(2)
    by (auto simp: subscriber_subscribe_def split: prod.splits)
  with assms(1,3) show ?thesis
    by (auto simp: subscribe_at_def list_all_iff dest!: set_update_subset_insert [THEN subsetD] split: prod.splits)
qed

lemma add_subscription_load:
  assumes "list_all (\<lambda>sr. get_subscription_count (sr_subscriptions sr) \<le> max 1 (max_subscriber_symbols ss)) (subscriber_list ss)"
  shows "list_all (\<lambda>sr. get_subscription_count (sr_subscriptions sr) \<le> max 1 (max_subscriber_symbols ss))
      (subscriber_list (fst (add_subscription F G ss s))) \<and>
    max_subscriber_symbols (fst (add_subscription F G ss s)) = max_subscriber_symbols ss"
proof (cases "find_available_subscriber_mut ss (listing s)")
  case (Some i)
  then have "i < length (subscriber_list ss)"
    "get_subscription_count (sr_subscriptions (subscriber_list ss ! i)) < max 1 (max_subscriber_symbols ss)"
    using find_available_Some [of _ _ _ i] by (force simp: find_available_subscriber_mut_def less_max_iff_disj)+
  from subscribe_at_load [OF this assms] Some show ?thesis by (simp add: add_subscription_def)
next
  case None
  let ?ss = "ss\<lparr>subscriber_list := subscriber_list ss @ [subscriber_new (listing s)]\<rparr>"
  have zero: "get_subscription_count (subscriptions_new\<lparr>sender_open := x\<rparr>) = 0"
    "get_subscription_count subscriptions_new = 0" for x
    by (simp_all add: get_subscription_count_def subscriptions_new_def)
  have "list_all (\<lambda>sr. get_subscription_count (sr_subscriptions sr) \<le> max 1 (max_subscriber_symbols ss))
      (subscriber_list (fst (subscribe_at ?ss (length (subscriber_list ss)) s))) \<and>
    max_subscriber_symbols (fst (subscribe_at ?ss (length (subscriber_list ss)) s)) = max_subscriber_symbols ?ss"
    by (rule subscribe_at_load) (use assms zero in \<open>auto simp: subscriber_new_def\<close>)
  with None assms show ?thesis
    by (auto simp: add_subscription_def start_new_subscriber_mut_def zero split: sum.splits)
qed

lemma within_load_step: "within_load A \<Longrightarrow> within_load (feed_step F G A ev)"
proof (cases ev)
  case Receive
  assume "within_load A"
  with Receive add_subscription_load [of "arb_subscribers A" F G] show ?thesis
    by (auto simp: within_load_def arbiter_receive_def split: list.splits)
next
  case Check
  assume "within_load A"
  with Check show ?thesis by (auto simp: within_load_def arbiter_check_def check_stopped_def list_all_iff)
next
  case (TaskTakes i)
  assume "within_load A"
  with TaskTakes show ?thesis
    by (cases "i < length (subscriber_list (arb_subscribers A))")
      (auto simp: within_load_def task_takes_def Let_def list_all_length nth_list_update get_subscription_count_def)
next
  case (TaskEnds i)
  assume "within_load A"
  with TaskEnds show ?thesis
    by (cases "i < length (subscriber_list (arb_subscribers A))")
      (auto simp: within_load_def task_ends_def Let_def list_all_length nth_list_update get_subscription_count_def)
qed (auto simp: within_load_def feed_subscribe_def split: prod.splits)

interpretation load: reactive "feed_step F G" "\<lambda>_ _. True" within_load for F G
  by unfold_locales (rule within_load_step)

text \<open>
  No subscriber is ever given more markets than the configured number, or than one where that is
  none, whatever is asked for and whatever tasks fail.
\<close>

theorem subscriber_load_is_bounded:
  "list_all (\<lambda>sr. length (subscribed (sr_subscriptions sr)) \<le>
      max 1 (max_subscriber_symbols (arb_subscribers (run (feed_step F G) (arbiter_new n) evs))))
    (subscriber_list (arb_subscribers (run (feed_step F G) (arbiter_new n) evs)))"
proof -
  have "within_load (arbiter_new n)" by (simp add: within_load_def arbiter_new_def subscribers_new_def)
  from load.run_inv [OF this admits_True, of F G evs] show ?thesis
    by (simp add: within_load_def get_subscription_count_def)
qed

lemma stale_walk_up:
  "stale_walk True e bs = (bs', outs, rs) \<Longrightarrow>
     rs = map (\<lambda>(_, b). Inr (\<not> e < last_update_timestamp b)) bs \<and> length bs' = length bs"
proof (induction bs arbitrary: bs' outs rs)
  case (Cons x bs)
  then show ?case
    by (cases x) (auto simp: check_book_stale_def request_snapshot_def split: prod.splits if_splits)
qed simp

text \<open>
  A subscriber resets exactly when none of its books has been updated within the timeout: in
  particular one without any books resets at its first check.
\<close>

theorem reset_iff_all_stale:
  "snd (snd (stale_check_tick True timeout now bs)) \<longleftrightarrow>
     (\<forall>(_, b)\<in>set bs. last_update_timestamp b \<le> now - timeout)"
proof -
  obtain bs' outs rs where w: "stale_walk True (now - timeout) bs = (bs', outs, rs)" by (metis prod_cases3)
  let ?P = "\<lambda>(_, b). \<not> now - timeout < last_update_timestamp b"
  from stale_walk_up [OF w] have rs: "partition_result rs = (map ?P bs, [])" "length bs' = length bs"
    using partition_all(1) [of ?P bs] by (simp_all add: comp_def case_prod_unfold)
  have "length (filter id (map ?P bs)) = length bs \<longleftrightarrow> list_all ?P bs"
    using filter_id_conv [of ?P bs] length_filter_less [of _ bs ?P]
    by (auto simp: filter_map comp_def list_all_iff) (metis filter_id_conv nat_neq_iff)+
  with w rs show ?thesis
    by (auto simp: stale_check_tick_def check_stale_def list_all_iff not_less split: prod.splits)
qed

end
