(* ===== verification/TradingMarkets.thy ===== *)
theory TradingMarkets
  imports Bits Parsing
begin

text \<open>
  What the exchange accepts, \<open>libs/binance-order-sending/src/trading_markets.rs\<close>: the filters of
  every market, read from the exchange's information, and the treatment of the price and quantity
  of an order so that they meet them.

  The price and the quantity are mutated in place and keep what a filter did before it failed, so a
  filter returns both beside its result. \<open>Decimal::rescale\<close> is the parameter \<open>R\<close>, the parser of
  decimals the parameter \<open>P\<close>; the records of the exchange's information have the fields that the
  code reads.
\<close>

section \<open>Filters\<close>

datatype market_filter =
    PriceFilter amount amount amount
  | LotSize amount amount amount
  | MinNotional amount
  | Notional amount amount

type_synonym price_quantity = "amount \<times> amount"

text \<open>The value in whole steps: rounded up when it may be padded, else down.\<close>

definition in_steps :: "dec_ops \<Rightarrow> bool \<Rightarrow> amount \<Rightarrow> amount \<Rightarrow> amount option" where
  "in_steps D allow_pad v step =
     Option.bind (dec_div D v step) (\<lambda>x. dec_mul D (of_int (if allow_pad then \<lceil>x\<rceil> else \<lfloor>x\<rfloor>)) step)"

fun apply_filter ::
  "dec_ops \<Rightarrow> market_filter \<Rightarrow> bool \<Rightarrow> price_quantity \<Rightarrow> price_quantity \<times> unit result" where
  "apply_filter D (PriceFilter min_price max_price tick_size) allow_pad (price, quantity) =
     (case in_steps D allow_pad price tick_size of
        None \<Rightarrow> ((price, quantity), Inl ''Math error'')
      | Some p \<Rightarrow>
          if p < min_price \<and> \<not> allow_pad then ((p, quantity), Inl ''Too small price'')
          else let p' = (if p < min_price then min_price else p)
               in ((if max_price < p' then max_price else p', quantity), Inr ()))"
| "apply_filter D (LotSize min_quantity max_quantity step_size) allow_pad (price, quantity) =
     (case in_steps D allow_pad quantity step_size of
        None \<Rightarrow> ((price, quantity), Inl ''Math error'')
      | Some q \<Rightarrow>
          if q < min_quantity \<and> \<not> allow_pad then ((price, min_quantity), Inl ''Too small quantity'')
          else ((price, if max_quantity < q then max_quantity else q), Inr ()))"
| "apply_filter D (MinNotional min_notional) allow_pad (price, quantity) =
     (case dec_div D min_notional price of
        None \<Rightarrow> ((price, quantity), Inl ''Math error'')
      | Some min_quantity \<Rightarrow>
          if allow_pad then ((price, min_quantity), Inr ())
          else if quantity < min_quantity then ((price, quantity), Inl ''Too small quantity for price'')
          else ((price, quantity), Inr ()))"
| "apply_filter D (Notional min_notional max_notional) allow_pad (price, quantity) =
     (case (dec_div D min_notional price, dec_div D max_notional price) of
        (Some min_quantity, Some max_quantity) \<Rightarrow>
          if quantity < min_quantity \<and> \<not> allow_pad
          then ((price, quantity), Inl ''Too small quantity for price'')
          else let q = (if quantity < min_quantity then min_quantity else quantity)
               in ((price, if max_quantity < q then max_quantity else q), Inr ())
      | _ \<Rightarrow> ((price, quantity), Inl ''Math error''))"

record exchange_filters =
  filter_type :: "string option"
  ef_min_price :: "string option"
  ef_max_price :: "string option"
  ef_tick_size :: "string option"
  ef_min_qty :: "string option"
  ef_max_qty :: "string option"
  ef_step_size :: "string option"
  ef_min_notional :: "string option"
  ef_max_notional :: "string option"

definition read_field :: "(string \<Rightarrow> amount result) \<Rightarrow> string option \<Rightarrow> report \<Rightarrow> amount result" where
  "read_field P v missing = rbind (ok_or v missing) P"

definition make_from :: "(string \<Rightarrow> amount result) \<Rightarrow> exchange_filters \<Rightarrow> market_filter option result" where
  "make_from P v =
     rbind (ok_or (filter_type v) ''Missing filter_type'') (\<lambda>t.
       if t = ''PRICE_FILTER'' then
         rbind (read_field P (ef_min_price v) ''Missing min_price'') (\<lambda>a.
         rbind (read_field P (ef_max_price v) ''Missing max_price'') (\<lambda>b.
         rbind (read_field P (ef_tick_size v) ''Missing tick_size'') (\<lambda>c. Inr (Some (PriceFilter a b c)))))
       else if t = ''LOT_SIZE'' then
         rbind (read_field P (ef_min_qty v) ''Missing min_qty'') (\<lambda>a.
         rbind (read_field P (ef_max_qty v) ''Missing max_qty'') (\<lambda>b.
         rbind (read_field P (ef_step_size v) ''Missing step_size'') (\<lambda>c. Inr (Some (LotSize a b c)))))
       else if t = ''MIN_NOTIONAL'' then
         rbind (read_field P (ef_min_notional v) ''Missing min_notional'') (\<lambda>a. Inr (Some (MinNotional a)))
       else if t = ''NOTIONAL'' then
         rbind (read_field P (ef_min_notional v) ''Missing min_notional'') (\<lambda>a.
         rbind (read_field P (ef_max_notional v) ''Missing max_notional'') (\<lambda>b. Inr (Some (Notional a b))))
       else Inr None)"

section \<open>Markets\<close>

record asset_info =
  ai_symbol :: symbol
  ai_precision :: u32
  commission_precision :: u32

record market_info =
  mk_symbol :: symbol
  mk_base :: asset_info
  mk_quote :: asset_info
  mk_filters :: "market_filter list"

text \<open>Every filter is applied, also after one that failed.\<close>

fun apply_filters ::
  "dec_ops \<Rightarrow> market_filter list \<Rightarrow> bool \<Rightarrow> price_quantity \<Rightarrow> price_quantity \<times> report list" where
  "apply_filters D [] allow_pad pq = (pq, [])"
| "apply_filters D (f # fs) allow_pad pq =
     (case apply_filter D f allow_pad pq of
        (pq', r) \<Rightarrow> (case apply_filters D fs allow_pad pq' of
           (pq'', bad) \<Rightarrow> (pq'', case r of Inl e \<Rightarrow> e # bad | Inr _ \<Rightarrow> bad)))"

definition market_treat_price_quantity ::
  "dec_ops \<Rightarrow> (amount \<Rightarrow> u32 \<Rightarrow> amount) \<Rightarrow> market_info \<Rightarrow> bool \<Rightarrow> price_quantity \<Rightarrow> price_quantity \<times> unit result" where
  "market_treat_price_quantity D R m allow_pad pq =
     (case apply_filters D (mk_filters m) allow_pad
             (R (fst pq) (ai_precision (mk_quote m)), R (snd pq) (ai_precision (mk_base m))) of
        (pq', bad) \<Rightarrow> (pq', if bad \<noteq> [] then Inl ''Error while applying filters'' else Inr ()))"

record exchange_symbol =
  es_symbol :: "string option"
  es_base_asset :: "string option"
  es_quote_asset :: "string option"
  es_filters :: "exchange_filters list option"
  es_base_asset_precision :: "u64 option"
  es_base_commission_precision :: "u64 option"
  es_quote_asset_precision :: "u64 option"
  es_quote_commission_precision :: "u64 option"

text \<open>The filters the model knows; unknown ones are left out, unreadable ones logged.\<close>

definition read_filters :: "(string \<Rightarrow> amount result) \<Rightarrow> exchange_filters list option \<Rightarrow> market_filter list" where
  "read_filters P fs =
     (case fs of None \<Rightarrow> [] | Some fs \<Rightarrow> List.map_filter id (fst (partition_result (map (make_from P) fs))))"

text \<open>\<open>as u32\<close> keeps the low bits of the exchange's 64-bit number.\<close>

definition market_info_try_from ::
  "(string \<Rightarrow> amount result) \<Rightarrow> exchange_symbol \<Rightarrow> market_info result" where
  "market_info_try_from P v =
     rbind (ok_or (es_symbol v) ''Missing symbol'') (\<lambda>s.
     rbind (ok_or (es_base_asset v) ''Missing base_asset'') (\<lambda>b.
     rbind (ok_or (es_quote_asset v) ''Missing quote_asset'') (\<lambda>q.
     rbind (ok_or (es_base_asset_precision v) ''Missing base_asset_precision'') (\<lambda>bp.
     rbind (ok_or (es_base_commission_precision v) ''Missing base_commission_precision'') (\<lambda>bc.
     rbind (ok_or (es_quote_asset_precision v) ''Missing quote_asset_precision'') (\<lambda>qp.
     rbind (ok_or (es_quote_commission_precision v) ''Missing quote_commission_precision'') (\<lambda>qc.
       Inr \<lparr>mk_symbol = map to_upper s,
            mk_base = \<lparr>ai_symbol = map to_upper b, ai_precision = ucast bp, commission_precision = ucast bc\<rparr>,
            mk_quote = \<lparr>ai_symbol = map to_upper q, ai_precision = ucast qp, commission_precision = ucast qc\<rparr>,
            mk_filters = read_filters P (es_filters v)\<rparr>)))))))"

type_synonym trading_markets = "symbol \<Rightarrow> market_info option"

definition trading_markets_new :: trading_markets where
  "trading_markets_new = Map.empty"

text \<open>Twice, so that what one filter changes is seen by the filters before it.\<close>

definition treat_price_quantity ::
  "dec_ops \<Rightarrow> (amount \<Rightarrow> u32 \<Rightarrow> amount) \<Rightarrow> trading_markets \<Rightarrow> symbol \<Rightarrow> bool \<Rightarrow> price_quantity \<Rightarrow>
     price_quantity \<times> unit result" where
  "treat_price_quantity D R M s allow_pad pq =
     (case M s of
        None \<Rightarrow> (pq, Inl ''Cannot find market info'')
      | Some m \<Rightarrow>
          (case market_treat_price_quantity D R m allow_pad pq of
             (pq', Inl e) \<Rightarrow> (pq', Inl e)
           | (pq', Inr _) \<Rightarrow> market_treat_price_quantity D R m allow_pad pq'))"

fun ingest_symbols ::
  "(string \<Rightarrow> amount result) \<Rightarrow> trading_markets \<Rightarrow> exchange_symbol list \<Rightarrow> trading_markets" where
  "ingest_symbols P M [] = M"
| "ingest_symbols P M (v # vs) =
     (case market_info_try_from P v of
        Inr m \<Rightarrow> ingest_symbols P (M(mk_symbol m \<mapsto> m)) vs
      | Inl _ \<Rightarrow> ingest_symbols P M vs)"

definition ingest_exchange_info ::
  "(string \<Rightarrow> amount result) \<Rightarrow> trading_markets \<Rightarrow> exchange_symbol list option \<Rightarrow> trading_markets" where
  "ingest_exchange_info P M symbols = (case symbols of None \<Rightarrow> M | Some vs \<Rightarrow> ingest_symbols P M vs)"

section \<open>What the filters make of an order\<close>

lemma price_ignores_quantity:
  "fst (fst (apply_filter D f pad (p, q))) = fst (fst (apply_filter D f pad (p, q')))"
  by (cases f) (auto simp: Let_def split: option.splits)

lemma price_of_filters:
  "fst (fst (apply_filters D fs pad (p, q))) = fst (fst (apply_filters D fs pad (p, q')))"
proof (induction fs arbitrary: p q q')
  case (Cons f fs)
  from price_ignores_quantity [of D f pad p q q'] Cons.IH show ?case
    by (auto split: prod.splits) (metis fst_conv)
qed simp

lemma apply_filters_append:
  "apply_filters D (fs @ gs) pad pq =
     (case apply_filters D fs pad pq of (pq', bad) \<Rightarrow>
        (case apply_filters D gs pad pq' of (pq'', bad') \<Rightarrow> (pq'', bad @ bad')))"
proof (induction fs arbitrary: pq)
  case (Cons f fs)
  obtain pq' r where 1: "apply_filter D f pad pq = (pq', r)" by fastforce
  with Cons.IH [of pq'] show ?case by (auto split: prod.splits sum.splits)
qed simp

text \<open>After a minimum notional, nothing is left of the quantity an order had.\<close>

lemma min_notional_forgets:
  assumes "MinNotional m \<in> set fs"
    and "apply_filters D fs True (p, q) = (pq1, [])" "apply_filters D fs True (p, q') = (pq2, [])"
  shows "pq1 = pq2"
proof -
  from assms(1) obtain as bs where fs: "fs = as @ MinNotional m # bs" by (metis split_list)
  obtain p1 q1 bad1 where 1: "apply_filters D as True (p, q) = ((p1, q1), bad1)" by (metis prod_cases3 prod.collapse)
  obtain p2 q2 bad2 where 2: "apply_filters D as True (p, q') = ((p2, q2), bad2)" by (metis prod_cases3 prod.collapse)
  from price_of_filters [of D as True p q q'] 1 2 have "p1 = p2" by simp
  with assms(2,3) 1 2 show ?thesis
    unfolding fs apply_filters_append by (auto split: option.splits prod.splits)
qed

text \<open>
  On a market with a minimum notional, padding replaces the quantity instead of raising it: two
  orders at one price, however different in size, are sent with the same quantity.
\<close>

theorem min_notional_forgets_quantity:
  assumes "M s = Some m" "MinNotional n \<in> set (mk_filters m)"
    and "treat_price_quantity D R M s True (price, q) = (pq1, Inr ())"
    and "treat_price_quantity D R M s True (price, q') = (pq2, Inr ())"
  shows "pq1 = pq2"
proof -
  let ?p = "R price (ai_precision (mk_quote m))" and ?r = "\<lambda>q. R q (ai_precision (mk_base m))"
  from assms(1,3) obtain pq where 1: "apply_filters D (mk_filters m) True (?p, ?r q) = (pq, [])"
    "market_treat_price_quantity D R m True pq = (pq1, Inr ())"
    by (auto simp: treat_price_quantity_def market_treat_price_quantity_def split: prod.splits sum.splits if_splits)
  from assms(1,4) obtain pq' where 2: "apply_filters D (mk_filters m) True (?p, ?r q') = (pq', [])"
    "market_treat_price_quantity D R m True pq' = (pq2, Inr ())"
    by (auto simp: treat_price_quantity_def market_treat_price_quantity_def split: prod.splits sum.splits if_splits)
  from min_notional_forgets [OF assms(2) 1(1) 2(1)] 1(2) 2(2) show ?thesis by simp
qed

definition demo_market_info :: "market_filter list \<Rightarrow> market_info" where
  "demo_market_info fs = \<lparr>mk_symbol = ''AB'', mk_base = \<lparr>ai_symbol = ''A'', ai_precision = 8, commission_precision = 8\<rparr>,
     mk_quote = \<lparr>ai_symbol = ''B'', ai_precision = 8, commission_precision = 8\<rparr>, mk_filters = fs\<rparr>"

lemmas market_evals = demo_market_info_def treat_price_quantity_def market_treat_price_quantity_def in_steps_def

theorem min_notional_forgets_quantity_witness:
  "\<exists>pq1 pq2. treat_price_quantity (dec_upto 1000000) (\<lambda>x _. x) [''AB'' \<mapsto> demo_market_info [MinNotional 5]] ''AB'' True (2, 1) = (pq1, Inr ()) \<and>
     treat_price_quantity (dec_upto 1000000) (\<lambda>x _. x) [''AB'' \<mapsto> demo_market_info [MinNotional 5]] ''AB'' True (2, 700) = (pq2, Inr ()) \<and>
     pq1 = pq2"
proof -
  let ?treat = "treat_price_quantity (dec_upto 1000000) (\<lambda>x _. x) [''AB'' \<mapsto> demo_market_info [MinNotional 5]] ''AB'' True"
  obtain pq1 where 1: "?treat (2, 1) = (pq1, Inr ())" by (simp add: market_evals evals)
  obtain pq2 where 2: "?treat (2, 700) = (pq2, Inr ())" by (simp add: market_evals evals)
  have "pq1 = pq2" by (rule min_notional_forgets_quantity [OF _ _ 1 2]) (auto simp: demo_market_info_def)
  with 1 2 show ?thesis by blast
qed

lemma price_after:
  assumes "\<forall>f\<in>set fs. \<forall>a b c. f \<noteq> PriceFilter a b c"
  shows "fst (fst (apply_filters D fs pad pq)) = fst pq"
  using assms
proof (induction fs arbitrary: pq)
  case (Cons f fs)
  obtain p q where pq: "pq = (p, q)" by fastforce
  have "fst (fst (apply_filter D f pad pq)) = p"
    using Cons.prems pq by (cases f) (auto simp: Let_def split: option.splits)
  with Cons.IH [of "fst (apply_filter D f pad pq)"] Cons.prems pq show ?case
    by (auto split: prod.splits)
qed simp

text \<open>
  The price of an order that passes the treatment lies within the market's price filter, the last
  one where there are several.
\<close>

theorem treated_price_within_filter:
  assumes "M s = Some m" "mk_filters m = as @ PriceFilter lo hi tick # bs"
    and "\<forall>f\<in>set bs. \<forall>a b c. f \<noteq> PriceFilter a b c" "lo \<le> hi"
    and "treat_price_quantity D R M s pad pq = ((price, quantity), Inr ())"
  shows "lo \<le> price \<and> price \<le> hi"
proof -
  from assms(1,5) obtain pq1 where run: "apply_filters D (as @ PriceFilter lo hi tick # bs) pad pq1 = ((price, quantity), [])"
    unfolding assms(2) [symmetric]
    by (auto simp: treat_price_quantity_def market_treat_price_quantity_def split: prod.splits sum.splits if_splits)
  obtain p q bad where 1: "apply_filters D as pad pq1 = ((p, q), bad)" by (metis prod_cases3 prod.collapse)
  obtain pq2 r where 2: "apply_filter D (PriceFilter lo hi tick) pad (p, q) = (pq2, r)" by fastforce
  from run 1 2 have r: "r = Inr ()" and 3: "apply_filters D bs pad pq2 = ((price, quantity), [])"
    by (auto simp: apply_filters_append split: prod.splits sum.splits)
  from price_after [OF assms(3), of D pad pq2] 3 have "price = fst pq2" by simp
  with 2 r assms(4) show ?thesis by (auto simp: Let_def split: option.splits if_splits)
qed

theorem treated_price_within_filter_witness:
  "\<exists>price quantity. treat_price_quantity (dec_upto 1000000) (\<lambda>x _. x)
       [''AB'' \<mapsto> demo_market_info [PriceFilter 1 100 (1 / 2), LotSize 1 50 1]] ''AB'' True (7 / 3, 2) = ((price, quantity), Inr ()) \<and>
     1 \<le> price \<and> price \<le> 100"
proof -
  have c: "\<lceil>14 / 3 :: amount\<rceil> = 5" by (simp add: ceiling_eq_iff)
  have run: "treat_price_quantity (dec_upto 1000000) (\<lambda>x _. x)
       [''AB'' \<mapsto> demo_market_info [PriceFilter 1 100 (1 / 2), LotSize 1 50 1]] ''AB'' True (7 / 3, 2) = ((5 / 2, 2), Inr ())"
    by (simp add: market_evals evals c)
  have "1 \<le> (5 / 2 :: amount) \<and> (5 / 2 :: amount) \<le> 100"
    by (rule treated_price_within_filter [OF _ _ _ _ run, where as = "[]" and tick = "1 / 2"])
      (auto simp: demo_market_info_def)
  with run show ?thesis by blast
qed

text \<open>
  Padding does not raise a quantity to the smallest lot: an order whose whole steps stay under it
  passes the filter as it is, and one that must not be padded fails with the quantity raised.
\<close>

theorem small_lot_is_not_padded:
  assumes "in_steps D True quantity step = Some q" "q < lo" "lo \<le> hi"
    and "in_steps D False quantity step = Some q'" "q' < lo"
  shows "apply_filter D (LotSize lo hi step) True (price, quantity) = ((price, q), Inr ()) \<and>
    (\<exists>e. apply_filter D (LotSize lo hi step) False (price, quantity) = ((price, lo), Inl e))"
  using assms by auto

theorem small_lot_is_not_padded_witness:
  "\<exists>e. apply_filter (dec_upto 1000) (LotSize 10 100 1) False (5, 3) = ((5, 10), Inl e)"
  by (rule conjunct2 [OF small_lot_is_not_padded [of _ _ _ 3 _ _ 3]]) (simp_all add: in_steps_def fits_def)

end
