(* ===== verification/OrderSessions.thy ===== *)
theory OrderSessions
  imports OrderTracker TradingMarkets Limiter "HOL-Library.Multiset"
begin

text \<open>
  Sending orders to Binance, \<open>libs/binance-order-sending/src/\<close>: the classification of errors
  (\<open>session_error.rs\<close>), a trading session and the commands it carries out
  (\<open>trading_session.rs\<close>), the life of a session from its set-up to its completion
  (\<open>session.rs\<close>, \<open>session_completion.rs\<close>), the sessions that are open (\<open>sessions.rs\<close>,
  \<open>subaccounts.rs\<close>), the arbiter that watches them (\<open>arbiter.rs\<close>) and the connector's interface
  (\<open>binance_order_sending.rs\<close>).

  The exchange's client is the parameter \<open>W\<close>: what each of its calls answers at the time, and
  its readings of the clock, each by its place in the call. \<open>P\<close> parses decimals, \<open>R\<close> rescales them, \<open>X\<close> gives
  exchange rates. A channel of commands is a queue; durations count nanoseconds.
\<close>

section \<open>Errors\<close>

datatype session_error =
    Disconnection string | AuthenticationError string | RateLimitExceeded string | ServerError string
  | NetworkError string | Timeout string | BadRequest string | ServiceUnavailable string
  | ConnectionLimitExceeded string | TradingRestriction string | OrderValidationError string
  | SubscriptionError string

fun should_reconnect :: "session_error \<Rightarrow> bool" where
  "should_reconnect (Disconnection _) = True"
| "should_reconnect (NetworkError _) = True"
| "should_reconnect (Timeout _) = True"
| "should_reconnect (ServerError _) = True"
| "should_reconnect (ServiceUnavailable _) = True"
| "should_reconnect (ConnectionLimitExceeded _) = True"
| "should_reconnect (SubscriptionError _) = True"
| "should_reconnect (RateLimitExceeded _) = True"
| "should_reconnect _ = False"

text \<open>
  The phrases an error is recognised by, in the order they are tried. Text is a list of bytes; the
  one phrase that is not ASCII has a Unicode hyphen.
\<close>

definition error_table :: "(string list \<times> (string \<Rightarrow> session_error)) list" where
  "error_table = [
    ([''internal error; unable to process your request'', ''-1001'', ''-1000'', ''-1006'',
      ''unknown error occurred while processing'', ''unexpected response was received'',
      ''execution status unknown'', ''disconnected'', ''connection closed'',
      ''connection refused'', ''connection reset'', ''websocket handshake'',
      ''websocket protocol error'', ''handshake failed'', ''protocol error'', ''abnormal close'',
      ''no active websocket connection'', ''no response error'',
      ''server'' @ [CHR 0xE2, CHR 0x80, CHR 0x90] @ ''side response error''], Disconnection),
    ([''timeout waiting for response'', ''-1007'', ''send status unknown'', ''websocket timeout'',
      ''websocket connection timed out'', ''timeout''], Timeout),
    ([''unauthorized'', ''-1002'', ''-2014'', ''-2015'', ''-1021'', ''-1022'',
      ''you are not authorized'', ''invalid api-key'', ''api-key format invalid'',
      ''invalid api-key, ip, or permissions'', ''signature'', ''timestamp for this request'',
      ''signature for this request is not valid'', ''authentication''], AuthenticationError),
    ([''too many requests'', ''-1003'', ''-1015'', ''-1034'', ''rate limit'',
      ''request weight used'', ''ip banned until'', ''way too much request weight'',
      ''too many new orders'', ''too many concurrent connections'',
      ''too many connection attempts'', ''banned'', ''status 418'',
      ''status 429''], RateLimitExceeded),
    ([''server'', ''-1008'', ''server is currently overloaded'', ''overloaded'',
      ''internal server error'', ''status 5''], ServerError),
    ([''-1016'', ''service is no longer available'', ''service shutting down''], ServiceUnavailable),
    ([''connection attempts'', ''connection limit'',
      ''concurrent connections''], ConnectionLimitExceeded),
    ([''-2036'', ''subscription not active'',
      ''user data stream subscription not active''], SubscriptionError),
    ([''market is closed'', ''this action is disabled'', ''account may not place'',
      ''trading is not enabled'', ''symbol is restricted'', ''insufficient balance'',
      ''market orders are not supported'', ''iceberg orders are not supported'',
      ''stop loss orders are not supported'', ''no trading window'', ''-2016''], TradingRestriction),
    ([''filter failure'', ''unknown order sent'', ''duplicate order sent'',
      ''order does not exist'', ''order would trigger immediately'',
      ''order would immediately match'', ''unsupported order combination'',
      ''order was not canceled due to cancel restrictions'', ''-1014'', ''-1020'', ''-2010'',
      ''-2011'', ''-2013'', ''-2026'', ''-2039'', ''price_filter'', ''percent_price'',
      ''lot_size'', ''min_notional'', ''notional'', ''iceberg_parts'', ''market_lot_size'',
      ''max_position'', ''max_num_orders'', ''max_num_algo_orders'',
      ''max_num_iceberg_orders''], OrderValidationError),
    ([''bad request'', ''-1013'', ''-11'', ''invalid'', ''illegal characters'',
      ''too many parameters'', ''mandatory parameter'', ''unknown parameter'',
      ''request was rejected'', ''status 400''], BadRequest)]"

text \<open>\<open>to_lowercase\<close> is that of ASCII letters.\<close>

definition from_eyre :: "string list \<Rightarrow> session_error" where
  "from_eyre error_chain =
     (let full_error = join '' -> '' error_chain;
          error_lower = map to_lower full_error
      in case find (\<lambda>(phrases, _). list_ex (contains error_lower) phrases) error_table of
           Some (_, kind) \<Rightarrow> kind full_error
         | None \<Rightarrow> NetworkError full_error)"

section \<open>A trading session\<close>

record credentials =
  account_name :: string
  enable_trading :: bool

datatype command =
    EnableTrading bool
  | SendOrder single_order
  | GetExchangeInfo "symbol list"
  | GetBalances nat

datatype session_out =
    Notification order_connector_notification
  | BalancesReply nat "(symbol \<times> amount) list"

datatype interval = Second | Minute | Hour | Day

record rate_limit =
  is_orders_limit :: bool
  rl_limit :: u64
  rl_interval :: interval
  rl_interval_num :: int
  rl_count :: u64

record order_place =
  op_side :: side
  op_symbol :: symbol
  op_price :: amount
  op_quantity :: amount
  op_client_order_id :: order_id

record account_balance =
  ab_asset :: "symbol option"
  ab_free :: "string option"
  ab_locked :: "string option"

text \<open>How a call of the client can fail: its request cannot be built, it fails, its answer has no data.\<close>

datatype call_failure = NotBuilt string | Failed string

record wsapi =
  ws_clock :: "nat \<Rightarrow> timestamp"
  ws_connect :: "session_error + unit"
  ws_logon :: "call_failure + rate_limit list option"
  ws_exchange_info :: "symbol list \<Rightarrow> call_failure + rate_limit list option \<times> exchange_symbol list option result"
  ws_account_status :: "call_failure + account_balance list option result"
  ws_user_stream_start :: "call_failure + rate_limit list option"
  ws_user_stream_subscribe :: "call_failure + rate_limit list option"
  ws_ping :: "unit result"
  ws_order_place :: "order_place \<Rightarrow> (rate_limit list option \<times> unit result) result"

record trading_session =
  ts_session_id :: session_id
  ts_markets :: trading_markets
  order_limit :: multi_limiter
  trading_enabled :: bool

definition trading_session_new :: "session_id \<Rightarrow> bool \<Rightarrow> trading_session" where
  "trading_session_new sid enabled = \<lparr>ts_session_id = sid, ts_markets = trading_markets_new,
     order_limit = multi_new [], trading_enabled = enabled\<rparr>"

text \<open>
  Out of the limit, the session sleeps once for half the smallest limit to be released. The clock
  is read before, for the period to sleep and after it.
\<close>

definition will_send_order :: "wsapi \<Rightarrow> trading_session \<Rightarrow> trading_session \<times> unit result" where
  "will_send_order W ts =
     (case multi_try_consume (order_limit ts) 1 (ws_clock W 0) of
        (l, True) \<Rightarrow> (ts\<lparr>order_limit := l\<rparr>, Inr ())
      | (l, False) \<Rightarrow>
          (case multi_try_consume l 1 (ws_clock W 2) of
             (l', True) \<Rightarrow> (ts\<lparr>order_limit := l'\<rparr>, Inr ())
           | (l', False) \<Rightarrow> (ts\<lparr>order_limit := l'\<rparr>, Inl ''Failed to satisfy rate-limit'')))"

definition sleep_time :: "wsapi \<Rightarrow> trading_session \<Rightarrow> duration" where
  "sleep_time W ts =
     multi_waiting_period_half_smallest_limit (fst (multi_try_consume (order_limit ts) 1 (ws_clock W 0))) (ws_clock W 1)"

fun interval_seconds :: "interval \<Rightarrow> int" where
  "interval_seconds Second = 1"
| "interval_seconds Minute = 60"
| "interval_seconds Hour = 3600"
| "interval_seconds Day = 86400"

definition update_limits :: "rate_limit list option \<Rightarrow> timestamp \<Rightarrow> trading_session \<Rightarrow> trading_session" where
  "update_limits limits now ts =
     (case limits of
        None \<Rightarrow> ts
      | Some ls \<Rightarrow>
          let values = map (\<lambda>l. (\<lparr>limit = unat (rl_limit l),
                  period = rl_interval_num l * interval_seconds (rl_interval l) * 1000000000\<rparr>, unat (rl_count l)))
                (filter is_orders_limit ls)
          in ts\<lparr>order_limit := multi_refit (order_limit ts) values now\<rparr>)"

definition call_error :: "string \<Rightarrow> string \<Rightarrow> call_failure \<Rightarrow> session_error" where
  "call_error build call f = (case f of NotBuilt e \<Rightarrow> BadRequest (build @ e) | Failed e \<Rightarrow> from_eyre [call @ e])"

definition logon :: "wsapi \<Rightarrow> trading_session \<Rightarrow> trading_session \<times> (session_error + unit)" where
  "logon W ts =
     (case ws_logon W of
        Inl f \<Rightarrow> (ts, Inl (call_error ''Failed to build logon request: '' ''Failed to logon: '' f))
      | Inr limits \<Rightarrow> (update_limits limits (ws_clock W 0) ts, Inr ()))"

definition set_enable_trading :: "bool \<Rightarrow> trading_session \<Rightarrow> trading_session \<times> (session_error + unit)" where
  "set_enable_trading enable ts =
     (if trading_enabled ts = enable then
        (ts, Inl (TradingRestriction (if trading_enabled ts then ''Trading already enabled'' else ''Trading already disabled'')))
      else (ts\<lparr>trading_enabled := enable\<rparr>, Inr ()))"

definition new_order_single ::
  "dec_ops \<Rightarrow> (amount \<Rightarrow> u32 \<Rightarrow> amount) \<Rightarrow> wsapi \<Rightarrow> trading_session \<Rightarrow> single_order \<Rightarrow>
     trading_session \<times> session_out list \<times> unit result" where
  "new_order_single D R W ts order =
     (case treat_price_quantity D R (ts_markets ts) (so_symbol order) True (so_price order, so_quantity order) of
        (_, Inl e) \<Rightarrow> (ts, [], Inl e)
      | ((price, quantity), Inr _) \<Rightarrow>
          let sent = [Notification (NewOrder (so_order_id order) (so_symbol order) (so_side order) price quantity (ws_clock W 3))]
          in if \<not> trading_enabled ts then (ts, sent, Inr ())
             else (case will_send_order W ts of
                     (ts', Inl e) \<Rightarrow> (ts', sent, Inl e)
                   | (ts', Inr _) \<Rightarrow>
                       (case ws_order_place W \<lparr>op_side = so_side order, op_symbol = so_symbol order, op_price = price,
                               op_quantity = quantity, op_client_order_id = so_order_id order\<rparr> of
                          Inl e \<Rightarrow> (ts', sent, Inl (''Failed to send order: '' @ e))
                        | Inr (limits, Inl e) \<Rightarrow>
                            (update_limits limits (ws_clock W 4) ts', sent, Inl (''Failed to place order: '' @ e))
                        | Inr (limits, Inr _) \<Rightarrow> (update_limits limits (ws_clock W 4) ts', sent, Inr ()))))"

definition get_exchange_info ::
  "(string \<Rightarrow> amount result) \<Rightarrow> wsapi \<Rightarrow> trading_session \<Rightarrow> symbol list \<Rightarrow> trading_session \<times> (session_error + unit)" where
  "get_exchange_info P W ts symbols =
     (case ws_exchange_info W symbols of
        Inl f \<Rightarrow> (ts, Inl (call_error ''Failed to build exchange info params: '' ''Failed to obtain exchange info: '' f))
      | Inr (limits, info) \<Rightarrow>
          let ts' = update_limits limits (ws_clock W 0) ts
          in case info of
               Inl e \<Rightarrow> (ts', Inl (ServerError (''Failed to obtain exchange info data: '' @ e)))
             | Inr vs \<Rightarrow> (ts'\<lparr>ts_markets := ingest_exchange_info P (ts_markets ts') vs\<rparr>, Inr ()))"

fun collect_balances ::
  "dec_ops \<Rightarrow> (string \<Rightarrow> amount result) \<Rightarrow> account_balance list \<Rightarrow> (symbol \<times> amount) list \<Rightarrow>
     session_error + (symbol \<times> amount) list" where
  "collect_balances D P [] res = Inr res"
| "collect_balances D P (b # bs) res =
     (case ab_asset b of
        None \<Rightarrow> collect_balances D P bs res
      | Some asset \<Rightarrow>
          (case (P (case ab_free b of None \<Rightarrow> [] | Some v \<Rightarrow> v), P (case ab_locked b of None \<Rightarrow> [] | Some v \<Rightarrow> v)) of
             (Inr free, Inr locked) \<Rightarrow>
               (case dec_add D free locked of
                  None \<Rightarrow> Inl (ServerError (''Failed to compute balance for: '' @ asset))
                | Some x \<Rightarrow> collect_balances D P bs (put_assoc asset x res))
           | (Inl e, _) \<Rightarrow> Inl (ServerError (''Failed to parse : '' @ e))
           | (_, Inl e) \<Rightarrow> Inl (ServerError (''Failed to parse : '' @ e))))"

definition get_balances ::
  "dec_ops \<Rightarrow> (string \<Rightarrow> amount result) \<Rightarrow> wsapi \<Rightarrow> nat \<Rightarrow> session_out list \<times> (session_error + unit)" where
  "get_balances D P W observer =
     (case ws_account_status W of
        Inl f \<Rightarrow> ([], Inl (call_error ''Failed to build account balances params: '' ''Failed to obtain account balances: '' f))
      | Inr (Inl e) \<Rightarrow> ([], Inl (ServerError (''Failed to obtain account balances data: '' @ e)))
      | Inr (Inr balances) \<Rightarrow>
          (case collect_balances D P (case balances of None \<Rightarrow> [] | Some bs \<Rightarrow> bs) [] of
             Inl e \<Rightarrow> ([], Inl e)
           | Inr res \<Rightarrow> ([BalancesReply observer res], Inr ())))"

text \<open>A failed order is rejected to the tracker, except where trading is disabled.\<close>

definition rejected_order :: "single_order \<Rightarrow> string \<Rightarrow> timestamp \<Rightarrow> session_out" where
  "rejected_order order reason ts =
     Notification (Rejected (so_order_id order) (so_symbol order) (so_side order) (so_price order) (so_quantity order) reason ts)"

fun send_command ::
  "dec_ops \<Rightarrow> (string \<Rightarrow> amount result) \<Rightarrow> (amount \<Rightarrow> u32 \<Rightarrow> amount) \<Rightarrow> wsapi \<Rightarrow> trading_session \<Rightarrow> command \<Rightarrow>
     trading_session \<times> session_out list \<times> (session_error + unit)" where
  "send_command D P R W ts (EnableTrading enable) =
     (case set_enable_trading enable ts of (ts', r) \<Rightarrow> (ts', [], r))"
| "send_command D P R W ts (SendOrder order) =
     (if \<not> trading_enabled ts then (ts, [], Inl (TradingRestriction ''Trading is disabled''))
      else case new_order_single D R W ts order of
             (ts', outs, Inr _) \<Rightarrow> (ts', outs, Inr ())
           | (ts', outs, Inl e) \<Rightarrow>
               (ts', outs @ [rejected_order order (''Failed to send order: '' @ e) (ws_clock W 5)], Inl (from_eyre [e])))"
| "send_command D P R W ts (GetExchangeInfo symbols) =
     (case get_exchange_info P W ts symbols of (ts', r) \<Rightarrow> (ts', [], r))"
| "send_command D P R W ts (GetBalances observer) =
     (case get_balances D P W observer of (outs, r) \<Rightarrow> (ts, outs, r))"

definition get_user_data :: "wsapi \<Rightarrow> trading_session \<Rightarrow> trading_session \<times> (session_error + unit)" where
  "get_user_data W ts =
     (case ws_user_stream_start W of
        Inl f \<Rightarrow> (ts, Inl (call_error ''Failed to configure user data stream: '' ''Failed to start user data stream: '' f))
      | Inr limits \<Rightarrow>
          let ts' = update_limits limits (ws_clock W 0) ts
          in case ws_user_stream_subscribe W of
               Inl f \<Rightarrow> (ts', Inl (call_error ''Failed to configure user data subscription: ''
                                    ''Failed to subscribe to user data stream: '' f))
             | Inr limits' \<Rightarrow> (update_limits limits' (ws_clock W 1) ts', Inr ()))"

definition ping_connection :: "wsapi \<Rightarrow> session_error + unit" where
  "ping_connection W = (case ws_ping W of Inr _ \<Rightarrow> Inr () | Inl e \<Rightarrow> Inl (from_eyre [''Failed to ping session: '' @ e]))"

section \<open>Reports of the exchange\<close>

record execution_report =
  er_side :: "string option"
  er_client_order_id :: "order_id option"
  er_symbol :: "symbol option"
  er_order_quantity :: "string option"
  er_cumulative_quantity :: "string option"
  er_executed_price :: "string option"
  er_executed_quantity :: "string option"
  er_commission_amount :: "string option"
  er_commission_asset :: "symbol option"
  er_order_status :: "string option"
  er_trade_id :: "u64 option"

definition compute_fee ::
  "dec_ops \<Rightarrow> (symbol \<Rightarrow> symbol \<Rightarrow> amount result) \<Rightarrow> symbol \<Rightarrow> amount \<Rightarrow> symbol \<Rightarrow> amount result" where
  "compute_fee D X quote base_amount base_symbol =
     rbind (X base_symbol quote) (\<lambda>rate.
       ok_or (dec_mul D rate base_amount) ''Failed to compute quote amount'')"

text \<open>\<open>to_string\<close> of a signed 64-bit number.\<close>

definition show_i64 :: "u64 \<Rightarrow> string" where
  "show_i64 n = (if sint n < 0 then ''-'' @ show_nat (nat (- sint n)) else show_nat (nat (sint n)))"

definition on_execution_report ::
  "dec_ops \<Rightarrow> (string \<Rightarrow> amount result) \<Rightarrow> (symbol \<Rightarrow> symbol \<Rightarrow> amount result) \<Rightarrow> symbol \<Rightarrow> timestamp \<Rightarrow>
     execution_report \<Rightarrow> order_connector_notification list result" where
  "on_execution_report D P X quote now v =
     rbind (rbind (ok_or (er_side v) ''Missing side'')
       (\<lambda>s. if s = ''BUY'' then Inr Buy else if s = ''SELL'' then Inr Sell else Inl ''Cannot parse side'')) (\<lambda>side.
     rbind (ok_or (er_client_order_id v) ''Missing client order ID'') (\<lambda>oid.
     rbind (ok_or (er_symbol v) ''Missing symbol'') (\<lambda>symbol.
     rbind (read_field P (er_order_quantity v) ''Missing order quantity'') (\<lambda>order_quantity.
     rbind (read_field P (er_cumulative_quantity v) ''Missing cumulative quantity'') (\<lambda>cumulative_quantity.
     rbind (ok_or (dec_sub D order_quantity cumulative_quantity) ''Cannot compute remaining quantity'') (\<lambda>remaining.
     rbind (read_field P (er_executed_price v) ''Missing executed price'') (\<lambda>price.
     rbind (read_field P (er_executed_quantity v) ''Missing executed quantity'') (\<lambda>quantity.
     rbind (read_field P (er_commission_amount v) ''Missing commission amount'') (\<lambda>commission.
     let fee = (case er_commission_asset v of
                  None \<Rightarrow> 0
                | Some asset \<Rightarrow> (case compute_fee D X quote commission asset of Inr f \<Rightarrow> f | Inl _ \<Rightarrow> 0))
     in rbind (ok_or (er_order_status v) ''Missing order status'') (\<lambda>status.
        rbind (ok_or (er_trade_id v) ''Missing trade ID'') (\<lambda>trade.
          Inr (if status = ''FILLED'' \<or> status = ''PARTIALLY_FILLED''
               then [Fill oid (show_i64 trade) symbol side price quantity fee now]
               else if status = ''EXPIRED'' then [Cancel oid symbol side remaining now]
               else []))))))))))))"

section \<open>The life of a session\<close>

record session_state =
  ss_session :: "trading_session option"
  ss_user_data :: bool
  ss_credentials :: credentials
  ss_session_id :: session_id
  ss_symbols :: "symbol list"

definition session_state_new :: "credentials \<Rightarrow> symbol list \<Rightarrow> session_state" where
  "session_state_new c symbols = \<lparr>ss_session = None, ss_user_data = False, ss_credentials = c,
     ss_session_id = account_name c, ss_symbols = symbols\<rparr>"

text \<open>\<open>Display\<close> of an error is a parameter of the reason a logout gives.\<close>

definition build_trading_session ::
  "(session_error \<Rightarrow> string) \<Rightarrow> wsapi \<Rightarrow> session_state \<Rightarrow> session_state \<times> session_out list \<times> (session_error + unit)" where
  "build_trading_session shown W st =
     (case ws_connect W of
        Inr _ \<Rightarrow> (st\<lparr>ss_session := Some (trading_session_new (account_name (ss_credentials st))
                     (enable_trading (ss_credentials st)))\<rparr>, [], Inr ())
      | Inl e \<Rightarrow>
          (st, [Notification (SessionLogout (ss_session_id st) (''Failed during session build: '' @ shown e) (ws_clock W 0))], Inl e))"

definition with_session ::
  "(trading_session \<Rightarrow> trading_session \<times> (session_error + unit)) \<Rightarrow> session_state \<Rightarrow>
     session_state \<times> (session_error + unit)" where
  "with_session f st =
     (case ss_session st of
        None \<Rightarrow> (st, Inr ())
      | Some ts \<Rightarrow> (case f ts of (ts', r) \<Rightarrow> (st\<lparr>ss_session := Some ts'\<rparr>, r)))"

definition obtain_user_data :: "wsapi \<Rightarrow> session_state \<Rightarrow> session_state \<times> session_out list \<times> (session_error + unit)" where
  "obtain_user_data W st =
     (case ss_session st of
        None \<Rightarrow> (st, [], Inr ())
      | Some ts \<Rightarrow>
          (case get_user_data W ts of
             (ts', Inl e) \<Rightarrow> (st\<lparr>ss_session := Some ts'\<rparr>, [], Inl e)
           | (ts', Inr _) \<Rightarrow>
               (st\<lparr>ss_session := Some ts', ss_user_data := True\<rparr>,
                [Notification (SessionLogon (ss_session_id st) (ws_clock W 2))], Inr ())))"

text \<open>The set-up ends at the first step that fails; only the first says so to the observer.\<close>

definition set_up_session ::
  "(session_error \<Rightarrow> string) \<Rightarrow> (string \<Rightarrow> amount result) \<Rightarrow> wsapi \<Rightarrow> session_state \<Rightarrow>
     session_state \<times> session_out list \<times> (session_error + unit)" where
  "set_up_session shown P W st =
     (case build_trading_session shown W st of
        (st1, outs, Inl e) \<Rightarrow> (st1, outs, Inl e)
      | (st1, outs, Inr _) \<Rightarrow>
          (case with_session (logon W) st1 of
             (st2, Inl e) \<Rightarrow> (st2, outs, Inl e)
           | (st2, Inr _) \<Rightarrow>
               (case with_session (\<lambda>ts. get_exchange_info P W ts (ss_symbols st2)) st2 of
                  (st3, Inl e) \<Rightarrow> (st3, outs, Inl e)
                | (st3, Inr _) \<Rightarrow>
                    (case obtain_user_data W st3 of (st4, outs', r) \<Rightarrow> (st4, outs @ outs', r)))))"

text \<open>
  The main loop, over what \<open>select!\<close> yields: the session is cancelled, the connection is pinged, the
  next command is taken from the channel; or, from outside, a command is put into the channel.
\<close>

datatype loop_event = Cancelled | PingTick | TakeCommand | CommandArrives command

datatype loop_end = Graceful | ConnectionLost session_error | StillRunning

fun run_main_loop ::
  "dec_ops \<Rightarrow> (string \<Rightarrow> amount result) \<Rightarrow> (amount \<Rightarrow> u32 \<Rightarrow> amount) \<Rightarrow> trading_session \<Rightarrow> command list \<Rightarrow>
     (wsapi \<times> loop_event) list \<Rightarrow> session_out list \<times> command list \<times> loop_end" where
  "run_main_loop D P R ts queue [] = ([], queue, StillRunning)"
| "run_main_loop D P R ts queue ((W, Cancelled) # evs) = ([], queue, Graceful)"
| "run_main_loop D P R ts queue ((W, PingTick) # evs) =
     (case ping_connection W of
        Inl e \<Rightarrow> ([], queue, ConnectionLost e)
      | Inr _ \<Rightarrow> run_main_loop D P R ts queue evs)"
| "run_main_loop D P R ts queue ((W, TakeCommand) # evs) =
     (case queue of
        [] \<Rightarrow> run_main_loop D P R ts queue evs
      | c # queue' \<Rightarrow>
          (case send_command D P R W ts c of
             (ts', outs, _) \<Rightarrow>
               (case run_main_loop D P R ts' queue' evs of (outs', rest, e) \<Rightarrow> (outs @ outs', rest, e))))"
| "run_main_loop D P R ts queue ((W, CommandArrives c) # evs) = run_main_loop D P R ts (queue @ [c]) evs"

datatype session_completion =
    CompletedWith credentials
  | CompletedBadly session_error "credentials option" session_id

definition completion_error :: "session_error \<Rightarrow> session_state \<Rightarrow> session_completion" where
  "completion_error e st =
     CompletedBadly e (if should_reconnect e then Some (ss_credentials st) else None) (ss_session_id st)"

text \<open>The whole task: what it put out, the commands left in its channel, its completion once it has ended.\<close>

definition session_task ::
  "(session_error \<Rightarrow> string) \<Rightarrow> dec_ops \<Rightarrow> (string \<Rightarrow> amount result) \<Rightarrow> (amount \<Rightarrow> u32 \<Rightarrow> amount) \<Rightarrow> wsapi \<Rightarrow>
     credentials \<Rightarrow> symbol list \<Rightarrow> command list \<Rightarrow> (wsapi \<times> loop_event) list \<Rightarrow>
     session_out list \<times> command list \<times> session_completion option" where
  "session_task shown D P R W c symbols queue evs =
     (case set_up_session shown P W (session_state_new c symbols) of
        (st, outs, Inl e) \<Rightarrow> (outs, queue, Some (completion_error e st))
      | (st, outs, Inr _) \<Rightarrow>
          (case (case ss_session st of
                   None \<Rightarrow> ([], queue, Graceful)
                 | Some ts \<Rightarrow> run_main_loop D P R ts queue evs) of
             (outs', rest, ConnectionLost e) \<Rightarrow> (outs @ outs', rest, Some (completion_error e st))
           | (outs', rest, StillRunning) \<Rightarrow> (outs @ outs', rest, None)
           | (outs', rest, Graceful) \<Rightarrow>
               (outs @ outs' @ [Notification (SessionLogout (ss_session_id st) ''Session ended gracefully'' (ws_clock W 6))],
                rest, Some (CompletedWith c))))"

section \<open>The sessions that are open\<close>

text \<open>
  A session is its channel of commands and, once its task has ended, the completion: the channel's
  receiver is part of the task's result and stays until the task is joined.
\<close>

record session =
  sess_queue :: "command list"
  sess_completion :: "session_completion option"

definition session_new :: session where
  "session_new = \<lparr>sess_queue = [], sess_completion = None\<rparr>"

definition has_stopped :: "session \<Rightarrow> bool" where
  "has_stopped s \<longleftrightarrow> sess_completion s \<noteq> None"

type_synonym sessions = "(session_id \<times> session) list"

definition add_session :: "sessions \<Rightarrow> credentials \<Rightarrow> sessions \<times> unit result" where
  "add_session ss c =
     (case map_of ss (account_name c) of
        Some _ \<Rightarrow> (ss, Inl ''Session already started'')
      | None \<Rightarrow> (put_assoc (account_name c) session_new ss, Inr ()))"

definition remove_session :: "session_id \<Rightarrow> sessions \<Rightarrow> sessions \<times> session option" where
  "remove_session sid ss = (filter (\<lambda>(k, _). k \<noteq> sid) ss, map_of ss sid)"

definition session_command :: "sessions \<Rightarrow> session_id \<Rightarrow> command \<Rightarrow> sessions \<times> unit result" where
  "session_command ss sid c =
     (case map_of ss sid of
        None \<Rightarrow> (ss, Inl ''Cannot find session'')
      | Some s \<Rightarrow> (put_assoc sid (s\<lparr>sess_queue := sess_queue s @ [c]\<rparr>) ss, Inr ()))"

definition send_order :: "sessions \<Rightarrow> session_id \<Rightarrow> single_order \<Rightarrow> sessions \<times> unit result" where
  "send_order ss sid order = session_command ss sid (SendOrder order)"

definition request_balances :: "sessions \<Rightarrow> session_id \<Rightarrow> nat \<Rightarrow> sessions \<times> unit result" where
  "request_balances ss sid observer = session_command ss sid (GetBalances observer)"

fun remove_sessions :: "session_id list \<Rightarrow> sessions \<Rightarrow> sessions \<times> session list" where
  "remove_sessions [] ss = (ss, [])"
| "remove_sessions (k # ks) ss =
     (case remove_session k ss of
        (ss', found) \<Rightarrow> (case remove_sessions ks ss' of
           (ss'', lost) \<Rightarrow> (ss'', case found of None \<Rightarrow> lost | Some s \<Rightarrow> s # lost)))"

text \<open>The stopped sessions are taken out first, and then looked up to be taken out.\<close>

definition check_stopped_sessions :: "sessions \<Rightarrow> sessions \<times> session list" where
  "check_stopped_sessions ss =
     (let lost = map fst (filter (\<lambda>(_, s). has_stopped s) ss)
      in remove_sessions lost (filter (\<lambda>(_, s). \<not> has_stopped s) ss))"

record sub_accounts =
  subaccount_queue :: "credentials list"
  subaccounts :: "string set"
  subaccounts_taken :: "string set"

definition sub_accounts_new :: sub_accounts where
  "sub_accounts_new = \<lparr>subaccount_queue = [], subaccounts = {}, subaccounts_taken = {}\<rparr>"

definition add_subaccount_taken :: "sub_accounts \<Rightarrow> string \<Rightarrow> sub_accounts \<times> unit result" where
  "add_subaccount_taken A name =
     (if name \<notin> subaccounts A then (A, Inl ''subaccount not found'')
      else if name \<in> subaccounts_taken A then (A, Inl ''subaccount already taken'')
      else (A\<lparr>subaccounts_taken := insert name (subaccounts_taken A)\<rparr>, Inr ()))"

text \<open>The receiver of the credentials lives as long as the connector, so sending them succeeds.\<close>

definition logon_subaccounts :: "sub_accounts \<Rightarrow> credentials list \<Rightarrow> sub_accounts" where
  "logon_subaccounts A cs = A\<lparr>subaccount_queue := subaccount_queue A @ cs,
     subaccounts := subaccounts A \<union> set (map account_name cs)\<rparr>"

section \<open>The arbiter\<close>

text \<open>The new session's channel takes all commands; an account that is still open keeps its session.\<close>

definition attempt_reconnection :: "sessions \<Rightarrow> credentials \<Rightarrow> command list \<Rightarrow> sessions \<times> command list" where
  "attempt_reconnection ss c commands =
     (case add_session ss c of
        (ss', Inl _) \<Rightarrow> (ss', commands)
      | (ss', Inr _) \<Rightarrow> (fold (\<lambda>cmd ss. fst (session_command ss (account_name c) cmd)) commands ss', []))"

fun answer_command :: "timestamp \<Rightarrow> command \<Rightarrow> session_out list" where
  "answer_command ts (SendOrder order) = [rejected_order order ''Sesssion disconnected'' ts]"
| "answer_command ts (GetBalances observer) = [BalancesReply observer []]"
| "answer_command ts _ = []"

definition process_session_completion ::
  "timestamp \<Rightarrow> sessions \<Rightarrow> command list \<Rightarrow> session_completion \<Rightarrow> bool \<Rightarrow> sessions \<times> session_out list" where
  "process_session_completion now ss commands completion should_attempt_reconnection =
     (case (case completion of
              CompletedWith _ \<Rightarrow> (ss, commands)
            | CompletedBadly e (Some c) _ \<Rightarrow>
                if should_attempt_reconnection \<and> should_reconnect e then attempt_reconnection ss c commands
                else (ss, commands)
            | CompletedBadly e None _ \<Rightarrow> (ss, commands)) of
        (ss', unanswered) \<Rightarrow> (ss', concat (map (answer_command now) unanswered)))"

fun process_completions ::
  "timestamp \<Rightarrow> bool \<Rightarrow> sessions \<Rightarrow> (command list \<times> session_completion) list \<Rightarrow> sessions \<times> session_out list" where
  "process_completions now reconnect ss [] = (ss, [])"
| "process_completions now reconnect ss ((commands, completion) # rest) =
     (case process_session_completion now ss commands completion reconnect of
        (ss', outs) \<Rightarrow> (case process_completions now reconnect ss' rest of (ss'', outs') \<Rightarrow> (ss'', outs @ outs')))"

text \<open>What joining a stopped session yields.\<close>

definition join_stopped :: "session \<Rightarrow> (command list \<times> session_completion) option" where
  "join_stopped s = map_option (Pair (sess_queue s)) (sess_completion s)"

definition arbiter_watch :: "timestamp \<Rightarrow> sessions \<Rightarrow> sessions \<times> session_out list" where
  "arbiter_watch now ss =
     (case check_stopped_sessions ss of
        (ss', lost) \<Rightarrow> process_completions now True ss' (List.map_filter join_stopped lost))"

text \<open>The next credentials: a session is opened for them, and the account is marked as taken.\<close>

definition arbiter_open :: "sessions \<Rightarrow> sub_accounts \<Rightarrow> sessions \<times> sub_accounts" where
  "arbiter_open ss A =
     (case subaccount_queue A of
        [] \<Rightarrow> (ss, A)
      | c # rest \<Rightarrow>
          (case add_session ss c of
             (ss', Inl _) \<Rightarrow> (ss', A\<lparr>subaccount_queue := rest\<rparr>)
           | (ss', Inr _) \<Rightarrow> (ss', fst (add_subaccount_taken (A\<lparr>subaccount_queue := rest\<rparr>) (account_name c)))))"

text \<open>
  When the arbiter stops, all sessions are stopped and their commands answered; \<open>J\<close> is what joining
  a session, which may still have been running, yields.
\<close>

definition arbiter_stop ::
  "(session \<Rightarrow> (command list \<times> session_completion) option) \<Rightarrow> timestamp \<Rightarrow> sessions \<Rightarrow> sessions \<times> session_out list" where
  "arbiter_stop J now ss = process_completions now False [] (List.map_filter J (map snd ss))"

section \<open>Errors that end a session for good\<close>

definition phrases_of :: "(string \<Rightarrow> session_error) \<Rightarrow> string list" where
  "phrases_of kind = concat (map fst (filter (\<lambda>(_, k). k [] = kind []) error_table))"

lemma find_row: "find P rows = Some (ps, kind) \<Longrightarrow> P (ps, kind) \<and> (ps, kind) \<in> set rows"
  by (induction rows) (auto split: if_splits)

lemma phrases_row: "(ps, kind) \<in> set error_table \<Longrightarrow> p \<in> set ps \<Longrightarrow> p \<in> set (phrases_of kind)"
  by (auto simp: phrases_of_def)

text \<open>
  A session is given up for good only for a reason that is named: its text has one of the phrases
  of an authentication failure, a trading restriction, an order's validation or a bad request. An
  error that is not recognised is retried.
\<close>

theorem only_named_errors_are_final:
  assumes "\<not> should_reconnect (from_eyre chain)"
  shows "\<exists>p\<in>set (phrases_of AuthenticationError @ phrases_of TradingRestriction @
    phrases_of OrderValidationError @ phrases_of BadRequest). contains (map to_lower (join '' -> '' chain)) p"
proof -
  let ?low = "map to_lower (join '' -> '' chain)"
  obtain ps kind where row: "find (\<lambda>(phrases, _). list_ex (contains ?low) phrases) error_table = Some (ps, kind)"
    and e: "from_eyre chain = kind (join '' -> '' chain)"
    using assms by (cases "find (\<lambda>(phrases, _). list_ex (contains ?low) phrases) error_table")
      (auto simp: from_eyre_def Let_def)
  from find_row [OF row] obtain p where p: "p \<in> set ps" "contains ?low p" and member: "(ps, kind) \<in> set error_table"
    by (auto simp: list_ex_iff)
  have "kind \<in> {Disconnection, Timeout, AuthenticationError, RateLimitExceeded, ServerError, ServiceUnavailable,
      ConnectionLimitExceeded, SubscriptionError, TradingRestriction, OrderValidationError, BadRequest}"
    using member unfolding error_table_def by auto
  with assms e have "kind \<in> {AuthenticationError, TradingRestriction, OrderValidationError, BadRequest}" by auto
  with phrases_row [OF member p(1)] p(2) show ?thesis by auto
qed

theorem only_named_errors_are_final_witness:
  "\<exists>p\<in>set (phrases_of AuthenticationError @ phrases_of TradingRestriction @
    phrases_of OrderValidationError @ phrases_of BadRequest). contains (map to_lower (join '' -> '' [''-1002''])) p"
  by (rule only_named_errors_are_final) code_simp

text \<open>A disconnection outranks every other reason the text may name.\<close>

theorem disconnection_outranks:
  assumes "p \<in> set (phrases_of Disconnection)" "contains (map to_lower (join '' -> '' chain)) p"
  shows "from_eyre chain = Disconnection (join '' -> '' chain)"
proof -
  obtain rows ps where t: "error_table = (ps, Disconnection) # rows" by (simp add: error_table_def)
  have "phrases_of Disconnection = ps" unfolding phrases_of_def t
    by (simp add: t) (use t in \<open>auto simp: error_table_def\<close>)
  with assms have "list_ex (contains (map to_lower (join '' -> '' chain))) ps" by (auto simp: list_ex_iff)
  then show ?thesis by (simp add: from_eyre_def t Let_def)
qed

section \<open>Orders are answered\<close>

fun rejected_of :: "session_out \<Rightarrow> order_id list" where
  "rejected_of (Notification (Rejected oid s sd p q r ts)) = [oid]"
| "rejected_of _ = []"

fun order_of :: "command \<Rightarrow> order_id list" where
  "order_of (SendOrder order) = [so_order_id order]"
| "order_of _ = []"


text \<open>A session that may not trade drops an order without a word to the tracker.\<close>

theorem disabled_session_drops_orders:
  assumes "\<not> trading_enabled ts"
  shows "\<exists>e. send_command D P R W ts (SendOrder order) = (ts, [], Inl e)"
  using assms by simp

text \<open>Orders that wait in the channels of the open sessions.\<close>

definition queued :: "sessions \<Rightarrow> order_id list" where
  "queued ss = concat (map (\<lambda>(_, s). concat (map order_of (sess_queue s))) ss)"

lemma queued_command:
  "map_of ss sid \<noteq> None \<Longrightarrow>
     mset (queued (fst (session_command ss sid c))) = mset (queued ss) + mset (order_of c)"
proof (induction ss)
  case (Cons x ss)
  obtain k s where x: "x = (k, s)" by fastforce
  show ?case
  proof (cases "k = sid")
    case True
    with x show ?thesis by (simp add: session_command_def queued_def ac_simps)
  next
    case False
    with Cons x show ?thesis by (auto simp: session_command_def queued_def split: option.splits)
  qed
qed simp

lemma queued_commands:
  "map_of ss sid \<noteq> None \<Longrightarrow>
     mset (queued (fold (\<lambda>cmd ss. fst (session_command ss sid cmd)) cmds ss)) =
       mset (queued ss) + mset (concat (map order_of cmds))"
proof (induction cmds arbitrary: ss)
  case (Cons c cmds)
  have "map_of (fst (session_command ss sid c)) sid \<noteq> None"
    using Cons.prems by (auto simp: session_command_def map_of_put_assoc split: option.splits)
  from Cons.IH [OF this] queued_command [OF Cons.prems] show ?case by simp
qed simp

lemma queued_added:
  assumes "add_session ss c = (ss', Inr ())"
  shows "queued ss' = queued ss" "map_of ss' (account_name c) \<noteq> None"
proof -
  from assms have n: "map_of ss (account_name c) = None" and ss': "ss' = put_assoc (account_name c) session_new ss"
    by (auto simp: add_session_def split: option.splits)
  from n have "put_assoc (account_name c) session_new ss = ss @ [(account_name c, session_new)]"
    by (induction ss) (auto split: if_splits)
  with ss' show "queued ss' = queued ss" by (simp add: queued_def session_new_def)
  show "map_of ss' (account_name c) \<noteq> None" unfolding ss' map_of_put_assoc by simp
qed

lemma answers_reject: "concat (map rejected_of (concat (map (answer_command now) cmds))) = concat (map order_of cmds)"
proof (induction cmds)
  case (Cons c cmds)
  then show ?case by (cases c) (simp_all add: rejected_order_def)
qed simp

text \<open>
  C12: when the completion of a session is processed with the commands left in its channel, every order
  among them is accounted for: the orders that wait in sessions afterwards and the orders rejected
  are together, each once, those that waited in sessions before and those left in the channel. It is
  a property of processing one completion; the sessions the watch finds stopped do not get there.
\<close>

theorem completion_answers_orders:
  assumes "process_session_completion now ss commands completion reconnect = (ss', outs)"
  shows "mset (queued ss') + mset (concat (map rejected_of outs)) =
    mset (queued ss) + mset (concat (map order_of commands))"
proof -
  have plain: "?thesis" if "ss' = ss" "outs = concat (map (answer_command now) commands)"
    using that answers_reject by simp
  show ?thesis
  proof (cases completion)
    case (CompletedWith c)
    with assms plain show ?thesis by (simp add: process_session_completion_def)
  next
    case (CompletedBadly e creds sid)
    show ?thesis
    proof (cases "\<exists>c. creds = Some c \<and> reconnect \<and> should_reconnect e")
      case False
      with CompletedBadly assms plain show ?thesis
        by (auto simp: process_session_completion_def split: option.splits if_splits)
    next
      case True
      then obtain c where c: "creds = Some c" "reconnect" "should_reconnect e" by blast
      obtain ss1 r where add: "add_session ss c = (ss1, r)" by fastforce
      show ?thesis
      proof (cases r)
        case (Inl err)
        with add have "ss1 = ss" by (auto simp: add_session_def split: option.splits)
        with CompletedBadly c add Inl assms plain show ?thesis
          by (simp add: process_session_completion_def attempt_reconnection_def)
      next
        case (Inr x)
        with CompletedBadly c add assms have
          "ss' = fold (\<lambda>cmd ss. fst (session_command ss (account_name c) cmd)) commands ss1" "outs = []"
          by (simp_all add: process_session_completion_def attempt_reconnection_def)
        with queued_commands [OF queued_added(2)] queued_added(1) add Inr show ?thesis by simp
      qed
    qed
  qed
qed

section \<open>A session that ends is forgotten\<close>

lemma remove_absent: "\<forall>k\<in>set ks. k \<notin> fst ` set ss \<Longrightarrow> remove_sessions ks ss = (ss, [])"
proof (induction ks)
  case (Cons k ks)
  then have "map_of ss k = None" by (simp add: map_of_eq_None_iff)
  moreover have "filter (\<lambda>(k', _). k' \<noteq> k) ss = ss"
    using Cons.prems by (auto simp: filter_id_conv image_iff)
  ultimately show ?case using Cons by (simp add: remove_session_def)
qed simp

text \<open>
  C39: the watch over the sessions finds none that has stopped: it takes them out of the map before it
  looks them up. A session that lost its connection is not opened again, and what waits in its
  channel is neither sent nor answered.
\<close>

theorem stopped_sessions_vanish:
  assumes "distinct (map fst ss)"
  shows "arbiter_watch now ss = (filter (\<lambda>(_, s). \<not> has_stopped s) ss, [])"
proof -
  let ?kept = "filter (\<lambda>(_, s). \<not> has_stopped s) ss"
  have "k \<notin> fst ` set ?kept" if "k \<in> set (map fst (filter (\<lambda>(_, s). has_stopped s) ss))" for k
    using that assms by (auto simp: distinct_map inj_on_def)
  then have "check_stopped_sessions ss = (?kept, [])"
    by (simp add: check_stopped_sessions_def remove_absent)
  then show ?thesis by (simp add: arbiter_watch_def map_filter_simps)
qed

section \<open>Who hears of a session's end\<close>

fun says_logon :: "session_out \<Rightarrow> bool" where
  "says_logon (Notification (SessionLogon sid ts)) = True"
| "says_logon _ = False"

fun says_logout :: "session_out \<Rightarrow> bool" where
  "says_logout (Notification (SessionLogout sid reason ts)) = True"
| "says_logout _ = False"

lemma commands_say_nothing:
  assumes "send_command D P R W ts c = (ts', outs, r)"
  shows "\<forall>out\<in>set outs. \<not> says_logon out \<and> \<not> says_logout out"
proof (cases c)
  case (SendOrder order)
  obtain ts1 outs1 r1 where 1: "new_order_single D R W ts order = (ts1, outs1, r1)" by (metis prod_cases3)
  then have "\<forall>out\<in>set outs1. \<not> says_logon out \<and> \<not> says_logout out"
    by (auto simp: new_order_single_def Let_def split: prod.splits sum.splits if_splits)
  with SendOrder assms 1 show ?thesis by (auto simp: rejected_order_def split: if_splits sum.splits)
next
  case (GetBalances observer)
  with assms show ?thesis
    by (auto simp: get_balances_def split: prod.splits sum.splits)
qed (use assms in \<open>auto split: prod.splits\<close>)

lemma loop_says_nothing:
  "run_main_loop D P R ts queue evs = (outs, rest, e) \<Longrightarrow> \<forall>out\<in>set outs. \<not> says_logon out \<and> \<not> says_logout out"
proof (induction D P R ts queue evs arbitrary: outs rest e rule: run_main_loop.induct)
  case (4 D P R ts queue W evs)
  show ?case
  proof (cases queue)
    case Nil
    with 4 show ?thesis by simp
  next
    case (Cons c queue')
    obtain ts1 outs1 r1 where 1: "send_command D P R W ts c = (ts1, outs1, r1)" by (metis prod_cases3)
    obtain outs2 rest2 e2 where 2: "run_main_loop D P R ts1 queue' evs = (outs2, rest2, e2)" by (metis prod_cases3)
    from "4.IH"(2) [OF Cons 1 [symmetric] refl 2] commands_say_nothing [OF 1] "4.prems" Cons 1 2 show ?thesis by auto
  qed
qed (auto split: sum.splits)

lemma set_up_says:
  assumes "set_up_session shown P W (session_state_new c symbols) = (st, outs, r)"
  shows "(isl r \<longrightarrow> (\<forall>out\<in>set outs. \<not> says_logon out)) \<and> (\<not> isl r \<longrightarrow> (\<forall>out\<in>set outs. \<not> says_logout out))"
proof (cases "ws_connect W")
  case (Inl e)
  from assms have "r = Inl e \<and> (\<forall>out\<in>set outs. \<not> says_logon out)"
    by (auto simp: set_up_session_def build_trading_session_def Inl)
  then show ?thesis by simp
next
  case (Inr u)
  obtain ts1 r1 where 1: "logon W (trading_session_new (account_name c) (enable_trading c)) = (ts1, r1)" by fastforce
  obtain ts2 r2 where 2: "get_exchange_info P W ts1 symbols = (ts2, r2)" by fastforce
  obtain ts3 r3 where 3: "get_user_data W ts2 = (ts3, r3)" by fastforce
  note steps = assms [unfolded set_up_session_def build_trading_session_def with_session_def obtain_user_data_def
    session_state_new_def, simplified Inr sum.case prod.case session_state.simps option.case 1]
  show ?thesis
  proof (cases r1)
    case (Inl e)
    with steps show ?thesis by simp
  next
    case r1: (Inr u1)
    show ?thesis
    proof (cases r2)
      case (Inl e)
      with steps r1 2 show ?thesis by simp
    next
      case (Inr u2)
      with steps r1 2 3 show ?thesis by (cases r3) auto
    qed
  qed
qed

text \<open>
  A session that has logged on and then ends with an error, its connection lost, reports no logout:
  whoever tracks the sessions still takes it for open.
\<close>

theorem lost_session_is_not_logged_out:
  assumes "session_task shown D P R W c symbols queue evs = (outs, rest, Some (CompletedBadly e creds sid))"
    and "\<exists>out\<in>set outs. says_logon out"
  shows "\<not> (\<exists>out\<in>set outs. says_logout out)"
proof -
  obtain st outs1 r where 1: "set_up_session shown P W (session_state_new c symbols) = (st, outs1, r)"
    by (metis prod_cases3)
  show ?thesis
  proof (cases r)
    case (Inl err)
    with 1 assms have "outs = outs1" by (simp add: session_task_def)
    with Inl assms(2) set_up_says [OF 1] show ?thesis by auto
  next
    case (Inr x)
    obtain outs2 rest2 loop where 2: "(case ss_session st of None \<Rightarrow> ([], queue, Graceful)
        | Some ts \<Rightarrow> run_main_loop D P R ts queue evs) = (outs2, rest2, loop)" by (metis prod_cases3)
    then have "\<forall>out\<in>set outs2. \<not> says_logout out"
      using loop_says_nothing [of D P R _ queue evs outs2 rest2 loop] by (auto split: option.splits)
    moreover have "outs = outs1 @ outs2"
      using assms(1) 1 2 Inr by (cases loop) (auto simp: session_task_def)
    ultimately show ?thesis using set_up_says [OF 1] Inr by auto
  qed
qed

text \<open>An order's cancel, as the exchange reports it, is for all that was not executed.\<close>

theorem expired_report_cancels_the_rest:
  assumes "dec_exact D" "on_execution_report D P X quote now v = Inr ns"
    and "er_order_status v = Some ''EXPIRED''" "er_order_quantity v = Some q" "er_cumulative_quantity v = Some z"
    and "P q = Inr order_quantity" "P z = Inr executed"
  shows "\<exists>oid symbol side. ns = [Cancel oid symbol side (order_quantity - executed) now]"
  using assms by (auto simp: on_execution_report_def read_field_def result_simps Let_def dest: dec_exact_sub)

section \<open>Runs\<close>

definition demo_single_order :: single_order where
  "demo_single_order = \<lparr>so_order_id = ''O1'', so_batch_order_id = ''B1'', so_symbol = ''AB'', so_side = Buy,
     so_price = 2, so_quantity = 3, so_created_timestamp = 0\<rparr>"

definition demo_api :: "unit result \<Rightarrow> wsapi" where
  "demo_api ping = \<lparr>ws_clock = int, ws_connect = Inr (), ws_logon = Inr None,
     ws_exchange_info = (\<lambda>_. Inr (None, Inr None)), ws_account_status = Inr (Inr None),
     ws_user_stream_start = Inr None, ws_user_stream_subscribe = Inr None, ws_ping = ping,
     ws_order_place = (\<lambda>_. Inr (None, Inr ()))\<rparr>"

definition demo_trading :: trading_session where
  "demo_trading = (trading_session_new ''S1'' True)\<lparr>ts_markets := [''AB'' \<mapsto> demo_market_info []]\<rparr>"

definition demo_credentials :: credentials where
  "demo_credentials = \<lparr>account_name = ''S1'', enable_trading = True\<rparr>"

lemmas session_evals = demo_single_order_def demo_api_def demo_trading_def demo_credentials_def
  trading_session_new_def trading_markets_new_def new_order_single_def will_send_order_def multi_try_consume_def
  multi_new_def update_limits_def market_evals session_task_def set_up_session_def build_trading_session_def
  with_session_def obtain_user_data_def session_state_new_def logon_def get_exchange_info_def get_user_data_def
  ping_connection_def completion_error_def ingest_exchange_info_def


theorem disabled_session_drops_orders_witness:
  "\<exists>e. send_command (dec_upto 1000) (\<lambda>_. Inr 0) (\<lambda>x _. x) (demo_api (Inr ())) (trading_session_new ''S1'' False)
     (SendOrder demo_single_order) = (trading_session_new ''S1'' False, [], Inl e)"
  by (rule disabled_session_drops_orders) (simp add: trading_session_new_def)

theorem completion_answers_orders_witness:
  "\<exists>ss' outs. process_session_completion 9 [] [SendOrder demo_single_order, EnableTrading True]
       (CompletedBadly (Timeout ''t'') (Some demo_credentials) ''S1'') True = (ss', outs) \<and>
     mset (queued ss') + mset (concat (map rejected_of outs)) = {#''O1''#}"
proof -
  let ?cmds = "[SendOrder demo_single_order, EnableTrading True]"
  obtain ss' outs where run: "process_session_completion 9 [] ?cmds
      (CompletedBadly (Timeout ''t'') (Some demo_credentials) ''S1'') True = (ss', outs)" by fastforce
  from completion_answers_orders [OF run] run show ?thesis by (simp add: queued_def demo_single_order_def)
qed

theorem stopped_sessions_vanish_witness:
  "arbiter_watch 9 [(''S1'', \<lparr>sess_queue = [SendOrder demo_single_order],
       sess_completion = Some (CompletedBadly (Timeout ''t'') (Some demo_credentials) ''S1'')\<rparr>)] = ([], [])"
proof -
  let ?ss = "[(''S1'', \<lparr>sess_queue = [SendOrder demo_single_order],
       sess_completion = Some (CompletedBadly (Timeout ''t'') (Some demo_credentials) ''S1'')\<rparr>)]"
  have "arbiter_watch 9 ?ss = (filter (\<lambda>(_, s). \<not> has_stopped s) ?ss, [])"
    by (rule stopped_sessions_vanish) simp
  then show ?thesis by (simp add: has_stopped_def)
qed

theorem lost_session_is_not_logged_out_witness:
  "\<exists>outs rest e creds. session_task (\<lambda>_. ''e'') (dec_upto 1000) (\<lambda>_. Inr 0) (\<lambda>x _. x) (demo_api (Inr ())) demo_credentials
       [''AB''] [] [(demo_api (Inl ''x''), PingTick)] = (outs, rest, Some (CompletedBadly e creds ''S1'')) \<and>
     (\<exists>out\<in>set outs. says_logon out) \<and> \<not> (\<exists>out\<in>set outs. says_logout out)"
proof -
  obtain outs rest e creds where run: "session_task (\<lambda>_. ''e'') (dec_upto 1000) (\<lambda>_. Inr 0) (\<lambda>x _. x)
      (demo_api (Inr ())) demo_credentials [''AB''] [] [(demo_api (Inl ''x''), PingTick)] =
      (outs, rest, Some (CompletedBadly e creds ''S1''))" "\<exists>out\<in>set outs. says_logon out"
    by (simp add: session_evals)
  with lost_session_is_not_logged_out [OF run] show ?thesis by blast
qed

theorem disconnection_outranks_witness:
  "from_eyre [''-1001 banned''] = Disconnection ''-1001 banned''"
proof -
  have "from_eyre [''-1001 banned''] = Disconnection (join '' -> '' [''-1001 banned''])"
    by (rule disconnection_outranks [of "''-1001''"]) code_simp+
  then show ?thesis by simp
qed

theorem expired_report_cancels_the_rest_witness:
  "\<exists>ns oid symbol side. on_execution_report (dec_upto 1000) (\<lambda>s. Inr (of_nat (length s))) (\<lambda>_ _. Inr 1) ''USDC'' 9
     \<lparr>er_side = Some ''BUY'', er_client_order_id = Some ''O1'', er_symbol = Some ''AB'', er_order_quantity = Some ''xxx'',
      er_cumulative_quantity = Some ''x'', er_executed_price = Some ''x'', er_executed_quantity = Some ''x'',
      er_commission_amount = Some ''x'', er_commission_asset = None, er_order_status = Some ''EXPIRED'', er_trade_id = Some 7\<rparr> = Inr ns \<and>
     ns = [Cancel oid symbol side 2 9]"
proof -
  let ?v = "\<lparr>er_side = Some ''BUY'', er_client_order_id = Some ''O1'', er_symbol = Some ''AB'', er_order_quantity = Some ''xxx'',
      er_cumulative_quantity = Some ''x'', er_executed_price = Some ''x'', er_executed_quantity = Some ''x'',
      er_commission_amount = Some ''x'', er_commission_asset = None, er_order_status = Some ''EXPIRED'', er_trade_id = Some 7\<rparr>"
  obtain ns where run: "on_execution_report (dec_upto 1000) (\<lambda>s. Inr (of_nat (length s))) (\<lambda>_ _. Inr 1) ''USDC'' 9 ?v = Inr ns"
    by (simp add: on_execution_report_def read_field_def evals)
  have "\<exists>oid symbol side. ns = [Cancel oid symbol side (3 - 1) 9]"
    by (rule expired_report_cancels_the_rest [OF _ run, of "''xxx''" "''x''"]) simp_all
  with run show ?thesis by simp
qed

end
