(* ===== verification/RateLimit.thy ===== *)
theory RateLimit
  imports Limiter Parsing
begin

text \<open>
  The rate limits of the FIX server, \<open>libs/axum-fix-server/src/plugins/rate_limit_plugin.rs\<close>, with
  the configurations of \<open>src/server/fix/rate_limit_config.rs\<close>: one limiter for the server, one for
  every session and one for every user, what a message weighs, and the clean-up of sessions that
  have been silent.

  Hash maps are association lists; the counters of the metrics are 64-bit words that wrap. The
  clock's reading is an argument of an operation, durations count nanoseconds.
\<close>

section \<open>Configuration\<close>

type_synonym user_id = "u32 \<times> address"

datatype message_type = OrderMessage | QuoteMessage | Administrative | Heartbeat

record rate_limit_config =
  session_limits :: "limiter_config list"
  user_limits :: "limiter_config list"
  global_limits :: "limiter_config list"
  message_type_weights :: "message_type \<Rightarrow> nat option"
  cleanup_interval_seconds :: u64
  max_inactive_session_age_seconds :: u64
  limits_enabled :: bool

definition seconds :: "int \<Rightarrow> duration" where
  "seconds n = n * 1000000000"

definition limit_per :: "nat \<Rightarrow> int \<Rightarrow> limiter_config" where
  "limit_per l s = \<lparr>limit = l, period = seconds s\<rparr>"

fun default_weights :: "message_type \<Rightarrow> nat option" where
  "default_weights OrderMessage = Some 10"
| "default_weights QuoteMessage = Some 5"
| "default_weights Administrative = Some 1"
| "default_weights Heartbeat = Some 1"

definition default_config :: rate_limit_config where
  "default_config = \<lparr>
     session_limits = [limit_per 50 10, limit_per 1000 60],
     user_limits = [limit_per 100 10, limit_per 5000 60, limit_per 50000 86400],
     global_limits = [limit_per 1000 10, limit_per 50000 60],
     message_type_weights = default_weights,
     cleanup_interval_seconds = 300, max_inactive_session_age_seconds = 3600, limits_enabled = True\<rparr>"

record fix_rate_limit_config =
  base_config :: rate_limit_config
  fix_message_weights :: "(string \<times> nat) list"
  send_nak_on_violation :: bool
  include_retry_after :: bool

definition fix_default_config :: fix_rate_limit_config where
  "fix_default_config = \<lparr>base_config = default_config,
     fix_message_weights = [(''NewIndexOrder'', 10), (''CancelIndexOrder'', 5), (''NewQuoteRequest'', 5),
       (''CancelQuoteRequest'', 3), (''AccountToCustody'', 1), (''CustodyToAccount'', 1), (''Heartbeat'', 1)],
     send_nak_on_violation = True, include_retry_after = True\<rparr>"

definition fix_production_config :: fix_rate_limit_config where
  "fix_production_config = fix_default_config\<lparr>base_config := default_config\<lparr>
     session_limits := [limit_per 30 10, limit_per 500 60],
     user_limits := [limit_per 50 10, limit_per 2000 60, limit_per 20000 86400],
     global_limits := [limit_per 500 10, limit_per 20000 60]\<rparr>\<rparr>"

definition fix_development_config :: fix_rate_limit_config where
  "fix_development_config = fix_default_config\<lparr>base_config := default_config\<lparr>
     session_limits := [limit_per 100 10, limit_per 2000 60],
     user_limits := [limit_per 200 10, limit_per 10000 60, limit_per 100000 86400],
     global_limits := [limit_per 2000 10, limit_per 100000 60]\<rparr>\<rparr>"

definition fix_disabled_config :: fix_rate_limit_config where
  "fix_disabled_config = fix_default_config\<lparr>base_config := default_config\<lparr>limits_enabled := False\<rparr>\<rparr>"

section \<open>The plugin\<close>

record rate_limit_metrics =
  rm_total_requests :: u64
  rm_rejected_requests :: u64
  rm_active_sessions :: u64
  rm_active_users :: u64

record session_metadata =
  sm_last_activity :: timestamp
  sm_user_id :: user_id
  sm_total_requests :: u64

record user_metadata =
  um_last_activity :: timestamp
  um_active_sessions :: "session_id list"
  um_total_requests :: u64

datatype rate_limit_error =
    GlobalLimitExceeded duration
  | SessionLimitExceeded session_id duration
  | UserLimitExceeded user_id message_type nat duration

datatype rate_limit_key = SessionKey session_id | UserKey u32 address | GlobalKey

record rate_limit_plugin =
  session_limiters :: "(session_id \<times> multi_limiter) list"
  user_limiters :: "(user_id \<times> multi_limiter) list"
  global_limiter :: multi_limiter
  rl_config :: rate_limit_config
  rl_metrics :: rate_limit_metrics
  rl_session_metadata :: "(session_id \<times> session_metadata) list"
  rl_user_metadata :: "(user_id \<times> user_metadata) list"

definition rate_limit_plugin_new :: "rate_limit_config \<Rightarrow> rate_limit_plugin" where
  "rate_limit_plugin_new cfg = \<lparr>session_limiters = [], user_limiters = [], global_limiter = multi_new (global_limits cfg),
     rl_config = cfg,
     rl_metrics = \<lparr>rm_total_requests = 0, rm_rejected_requests = 0, rm_active_sessions = 0, rm_active_users = 0\<rparr>,
     rl_session_metadata = [], rl_user_metadata = []\<rparr>"

definition remove_key :: "'k \<Rightarrow> ('k \<times> 'v) list \<Rightarrow> ('k \<times> 'v) list" where
  "remove_key k m = filter (\<lambda>(k', _). k' \<noteq> k) m"

definition count_rejected :: "rate_limit_plugin \<Rightarrow> rate_limit_plugin" where
  "count_rejected p = p\<lparr>rl_metrics := (rl_metrics p)\<lparr>rm_rejected_requests := rm_rejected_requests (rl_metrics p) + 1\<rparr>\<rparr>"

definition get_or_create_session_limiter ::
  "rate_limit_plugin \<Rightarrow> session_id \<Rightarrow> rate_limit_plugin \<times> multi_limiter" where
  "get_or_create_session_limiter p sid =
     (case map_of (session_limiters p) sid of
        Some l \<Rightarrow> (p, l)
      | None \<Rightarrow>
          let l = multi_new (session_limits (rl_config p))
          in (p\<lparr>session_limiters := put_assoc sid l (session_limiters p),
                 rl_metrics := (rl_metrics p)\<lparr>rm_active_sessions := rm_active_sessions (rl_metrics p) + 1\<rparr>\<rparr>, l))"

definition get_or_create_user_limiter ::
  "rate_limit_plugin \<Rightarrow> user_id \<Rightarrow> rate_limit_plugin \<times> multi_limiter" where
  "get_or_create_user_limiter p uid =
     (case map_of (user_limiters p) uid of
        Some l \<Rightarrow> (p, l)
      | None \<Rightarrow>
          let l = multi_new (user_limits (rl_config p))
          in (p\<lparr>user_limiters := put_assoc uid l (user_limiters p),
                 rl_metrics := (rl_metrics p)\<lparr>rm_active_users := rm_active_users (rl_metrics p) + 1\<rparr>\<rparr>, l))"

definition update_activity_timestamps ::
  "rate_limit_plugin \<Rightarrow> session_id \<Rightarrow> user_id \<Rightarrow> timestamp \<Rightarrow> rate_limit_plugin" where
  "update_activity_timestamps p sid uid now =
     (let sm = (case map_of (rl_session_metadata p) sid of
                  Some m \<Rightarrow> m\<lparr>sm_last_activity := now, sm_total_requests := sm_total_requests m + 1\<rparr>
                | None \<Rightarrow> \<lparr>sm_last_activity = now, sm_user_id = uid, sm_total_requests = 1\<rparr>);
          um = (case map_of (rl_user_metadata p) uid of
                  Some m \<Rightarrow> m\<lparr>um_last_activity := now, um_total_requests := um_total_requests m + 1,
                             um_active_sessions := List.insert sid (um_active_sessions m)\<rparr>
                | None \<Rightarrow> \<lparr>um_last_activity = now, um_active_sessions = [sid], um_total_requests = 1\<rparr>)
      in p\<lparr>rl_session_metadata := put_assoc sid sm (rl_session_metadata p),
            rl_user_metadata := put_assoc uid um (rl_user_metadata p)\<rparr>)"

text \<open>One of the three checks: the weight is taken from a limiter, or the request is counted as rejected.\<close>

definition take_from_session ::
  "rate_limit_plugin \<Rightarrow> session_id \<Rightarrow> timestamp \<Rightarrow> rate_limit_plugin \<times> (rate_limit_error + unit)" where
  "take_from_session p sid now =
     (case get_or_create_session_limiter p sid of
        (p1, l) \<Rightarrow>
          (case multi_try_consume l 1 now of
             (l', allowed) \<Rightarrow>
               let p2 = p1\<lparr>session_limiters := put_assoc sid l' (session_limiters p1)\<rparr>
               in if allowed then (p2, Inr ())
                  else (count_rejected p2, Inl (SessionLimitExceeded sid (multi_waiting_period_half_smallest_limit l' now)))))"

definition take_from_user ::
  "rate_limit_plugin \<Rightarrow> user_id \<Rightarrow> message_type \<Rightarrow> nat \<Rightarrow> timestamp \<Rightarrow> rate_limit_plugin \<times> (rate_limit_error + unit)" where
  "take_from_user p uid mt w now =
     (case get_or_create_user_limiter p uid of
        (p1, l) \<Rightarrow>
          (case multi_try_consume l w now of
             (l', allowed) \<Rightarrow>
               let p2 = p1\<lparr>user_limiters := put_assoc uid l' (user_limiters p1)\<rparr>
               in if allowed then (p2, Inr ())
                  else (count_rejected p2, Inl (UserLimitExceeded uid mt w (multi_waiting_period_half_smallest_limit l' now)))))"

definition check_rate_limits ::
  "rate_limit_plugin \<Rightarrow> session_id \<Rightarrow> user_id \<Rightarrow> timestamp \<Rightarrow> rate_limit_plugin \<times> (rate_limit_error + unit)" where
  "check_rate_limits p sid uid now =
     (if \<not> limits_enabled (rl_config p) then (p, Inr ())
      else
        let p0 = p\<lparr>rl_metrics := (rl_metrics p)\<lparr>rm_total_requests := rm_total_requests (rl_metrics p) + 1\<rparr>\<rparr>
        in case multi_try_consume (global_limiter p) 1 now of
             (g, False) \<Rightarrow>
               (count_rejected (p0\<lparr>global_limiter := g\<rparr>),
                Inl (GlobalLimitExceeded (multi_waiting_period_half_smallest_limit g now)))
           | (g, True) \<Rightarrow>
               (case take_from_session (p0\<lparr>global_limiter := g\<rparr>) sid now of
                  (p1, Inl e) \<Rightarrow> (p1, Inl e)
                | (p1, Inr _) \<Rightarrow>
                    (case take_from_user p1 uid Administrative 1 now of
                       (p2, Inl e) \<Rightarrow> (p2, Inl e)
                     | (p2, Inr _) \<Rightarrow> (update_activity_timestamps p2 sid uid now, Inr ()))))"

text \<open>A message of a type and a user: its weight is the configured one, by default one.\<close>

definition consume_message_weight ::
  "rate_limit_plugin \<Rightarrow> message_type \<Rightarrow> user_id \<Rightarrow> timestamp \<Rightarrow> rate_limit_plugin \<times> (rate_limit_error + unit)" where
  "consume_message_weight p mt uid now =
     (if \<not> limits_enabled (rl_config p) then (p, Inr ())
      else take_from_user p uid mt (case message_type_weights (rl_config p) mt of Some w \<Rightarrow> w | None \<Rightarrow> 1) now)"

definition rate_create_session :: "rate_limit_plugin \<Rightarrow> session_id \<Rightarrow> timestamp \<Rightarrow> rate_limit_plugin" where
  "rate_create_session p sid now =
     p\<lparr>rl_session_metadata := put_assoc sid \<lparr>sm_last_activity = now, sm_user_id = (0, 0), sm_total_requests = 0\<rparr>
         (rl_session_metadata p)\<rparr>"

text \<open>A session's limiter and metadata are removed, and the session from its user's.\<close>

definition forget_session :: "rate_limit_plugin \<Rightarrow> session_id \<Rightarrow> rate_limit_plugin" where
  "forget_session p sid =
     (let p1 = p\<lparr>session_limiters := remove_key sid (session_limiters p)\<rparr>;
          p2 = (case map_of (rl_session_metadata p) sid of
                  None \<Rightarrow> p1
                | Some m \<Rightarrow>
                    let p2 = p1\<lparr>rl_session_metadata := remove_key sid (rl_session_metadata p)\<rparr>
                    in case map_of (rl_user_metadata p) (sm_user_id m) of
                         None \<Rightarrow> p2
                       | Some um \<Rightarrow>
                           let rest = remove1 sid (um_active_sessions um)
                           in if rest = []
                              then p2\<lparr>rl_user_metadata := remove_key (sm_user_id m) (rl_user_metadata p),
                                     rl_metrics := (rl_metrics p)\<lparr>rm_active_users := rm_active_users (rl_metrics p) - 1\<rparr>\<rparr>
                              else p2\<lparr>rl_user_metadata := put_assoc (sm_user_id m)
                                        (um\<lparr>um_active_sessions := rest\<rparr>) (rl_user_metadata p)\<rparr>)
      in p2\<lparr>rl_metrics := (rl_metrics p2)\<lparr>rm_active_sessions := rm_active_sessions (rl_metrics p2) - 1\<rparr>\<rparr>)"

definition rate_destroy_session :: "rate_limit_plugin \<Rightarrow> session_id \<Rightarrow> rate_limit_plugin" where
  "rate_destroy_session p sid = forget_session p sid"

record rate_limit_metrics_snapshot =
  snap_total_requests :: u64
  snap_rejected_requests :: u64
  snap_active_sessions :: u64
  snap_active_users :: u64

definition get_metrics :: "rate_limit_plugin \<Rightarrow> rate_limit_metrics_snapshot" where
  "get_metrics p = \<lparr>snap_total_requests = rm_total_requests (rl_metrics p),
     snap_rejected_requests = rm_rejected_requests (rl_metrics p),
     snap_active_sessions = of_nat (length (session_limiters p)),
     snap_active_users = of_nat (length (user_limiters p))\<rparr>"

definition cleanup_inactive_sessions :: "rate_limit_plugin \<Rightarrow> timestamp \<Rightarrow> duration \<Rightarrow> rate_limit_plugin" where
  "cleanup_inactive_sessions p now max_age =
     (let sessions_to_remove = map fst (filter (\<lambda>(_, m). sm_last_activity m < now - max_age) (rl_session_metadata p))
      in foldl forget_session p sessions_to_remove)"

text \<open>The clean-up task's turn.\<close>

definition cleanup_tick :: "rate_limit_plugin \<Rightarrow> timestamp \<Rightarrow> rate_limit_plugin" where
  "cleanup_tick p now =
     cleanup_inactive_sessions p now (seconds (sint (max_inactive_session_age_seconds (rl_config p))))"

section \<open>What a user is granted\<close>

text \<open>
  The operations the server calls, each at its time, and the weight they grant one user: a passed
  check takes one, an accepted message its type's weight.
\<close>

datatype rate_op =
    CheckRequest session_id user_id
  | ConsumeWeight message_type user_id
  | OpenSession session_id
  | CloseSession session_id
  | CleanUp

definition type_weight :: "rate_limit_config \<Rightarrow> message_type \<Rightarrow> nat" where
  "type_weight cfg mt = (case message_type_weights cfg mt of Some w \<Rightarrow> w | None \<Rightarrow> 1)"

fun rate_op_step :: "rate_limit_plugin \<Rightarrow> rate_op \<Rightarrow> timestamp \<Rightarrow> rate_limit_plugin \<times> (rate_limit_error + unit)" where
  "rate_op_step p (CheckRequest sid uid) now = check_rate_limits p sid uid now"
| "rate_op_step p (ConsumeWeight mt uid) now = consume_message_weight p mt uid now"
| "rate_op_step p (OpenSession sid) now = (rate_create_session p sid now, Inr ())"
| "rate_op_step p (CloseSession sid) now = (rate_destroy_session p sid, Inr ())"
| "rate_op_step p CleanUp now = (cleanup_tick p now, Inr ())"

fun weight_for :: "rate_limit_config \<Rightarrow> user_id \<Rightarrow> rate_op \<Rightarrow> nat option" where
  "weight_for cfg uid (CheckRequest _ u) = (if u = uid then Some 1 else None)"
| "weight_for cfg uid (ConsumeWeight mt u) = (if u = uid then Some (type_weight cfg mt) else None)"
| "weight_for cfg uid _ = None"

fun rate_run :: "user_id \<Rightarrow> rate_limit_plugin \<Rightarrow> limit_weights \<Rightarrow> (rate_op \<times> timestamp) list \<Rightarrow>
    rate_limit_plugin \<times> limit_weights" where
  "rate_run uid p h [] = (p, h)"
| "rate_run uid p h ((op, now) # ops) =
     (case rate_op_step p op now of
        (p', Inl _) \<Rightarrow> rate_run uid p' h ops
      | (p', Inr _) \<Rightarrow>
          rate_run uid p'
            (case weight_for (rl_config p) uid op of Some w \<Rightarrow> \<lparr>weight = w, timestamp = now\<rparr> # h | None \<Rightarrow> h) ops)"

definition user_limiter :: "rate_limit_plugin \<Rightarrow> user_id \<Rightarrow> multi_limiter" where
  "user_limiter p uid =
     (case map_of (user_limiters p) uid of Some l \<Rightarrow> l | None \<Rightarrow> multi_new (user_limits (rl_config p)))"

lemmas rate_defs =
  get_or_create_user_limiter_def get_or_create_session_limiter_def count_rejected_def
  update_activity_timestamps_def

lemma take_from_user_limiter:
  assumes "take_from_user p uid mt w now = (p', r)"
  shows "multi_try_consume (user_limiter p uid) w now = (user_limiter p' uid, \<not> isl r)"
    and "u \<noteq> uid \<Longrightarrow> user_limiter p' u = user_limiter p u"
    and "rl_config p' = rl_config p"
  using assms
  by (auto simp: take_from_user_def user_limiter_def rate_defs map_of_put_assoc Let_def
      split: prod.splits option.splits if_splits)

lemma take_from_session_users:
  assumes "take_from_session p sid now = (p', r)"
  shows "user_limiters p' = user_limiters p \<and> rl_config p' = rl_config p \<and> global_limiter p' = global_limiter p"
  using assms
  by (auto simp: take_from_session_def rate_defs Let_def split: prod.splits option.splits if_splits)

lemma forget_session_users [simp]:
  "user_limiters (forget_session p sid) = user_limiters p"
  "rl_config (forget_session p sid) = rl_config p"
  "global_limiter (forget_session p sid) = global_limiter p"
  by (simp_all add: forget_session_def Let_def split: option.splits)

lemma foldl_forget_users [simp]:
  "user_limiters (foldl forget_session p sids) = user_limiters p"
  "rl_config (foldl forget_session p sids) = rl_config p"
  "global_limiter (foldl forget_session p sids) = global_limiter p"
  by (induction sids arbitrary: p) simp_all

lemma user_limiter_cong:
  "user_limiters p' = user_limiters p \<Longrightarrow> rl_config p' = rl_config p \<Longrightarrow> user_limiter p' uid = user_limiter p uid"
  by (simp add: user_limiter_def split: option.splits)

lemma activity_users [simp]:
  "user_limiters (update_activity_timestamps p sid uid now) = user_limiters p"
  "rl_config (update_activity_timestamps p sid uid now) = rl_config p"
  "global_limiter (update_activity_timestamps p sid uid now) = global_limiter p"
  by (simp_all add: update_activity_timestamps_def Let_def)

lemma rejected_users [simp]:
  "user_limiters (count_rejected p) = user_limiters p"
  "rl_config (count_rejected p) = rl_config p"
  "global_limiter (count_rejected p) = global_limiter p"
  by (simp_all add: count_rejected_def)

text \<open>The three checks of a request, one after the other.\<close>

definition server_checked :: "rate_limit_plugin \<Rightarrow> timestamp \<Rightarrow> rate_limit_plugin" where
  "server_checked p now = p\<lparr>rl_metrics := (rl_metrics p)\<lparr>rm_total_requests := rm_total_requests (rl_metrics p) + 1\<rparr>,
     global_limiter := fst (multi_try_consume (global_limiter p) 1 now)\<rparr>"

lemma check_rate_limits_stages:
  assumes "limits_enabled (rl_config p)"
    and "take_from_session (server_checked p now) sid now = (p1, r1)"
    and "take_from_user p1 uid Administrative 1 now = (p2, r2)"
  shows "check_rate_limits p sid uid now =
    (if snd (multi_try_consume (global_limiter p) 1 now)
     then case r1 of Inl e \<Rightarrow> (p1, Inl e) | Inr _ \<Rightarrow>
       (case r2 of Inl e \<Rightarrow> (p2, Inl e) | Inr _ \<Rightarrow> (update_activity_timestamps p2 sid uid now, Inr ()))
     else (count_rejected (server_checked p now), Inl (GlobalLimitExceeded
       (multi_waiting_period_half_smallest_limit (global_limiter (server_checked p now)) now))))"
proof (cases "multi_try_consume (global_limiter p) 1 now")
  case (Pair g ok)
  then show ?thesis
    using assms by (simp add: check_rate_limits_def Let_def server_checked_def split: sum.splits)
qed

lemma server_checked_simps [simp]:
  "user_limiters (server_checked p now) = user_limiters p"
  "session_limiters (server_checked p now) = session_limiters p"
  "rl_config (server_checked p now) = rl_config p"
  "rl_session_metadata (server_checked p now) = rl_session_metadata p"
  "rm_rejected_requests (rl_metrics (server_checked p now)) = rm_rejected_requests (rl_metrics p)"
  by (simp_all add: server_checked_def)

text \<open>An operation asks a user's limiter for at most one weight, and grants it just when the limiter does.\<close>

definition asks :: "rate_limit_plugin \<Rightarrow> user_id \<Rightarrow> rate_limit_plugin \<Rightarrow> nat option \<Rightarrow> timestamp \<Rightarrow> bool \<Rightarrow> bool" where
  "asks p uid p' wo now ok \<longleftrightarrow>
     (case wo of None \<Rightarrow> user_limiter p' uid = user_limiter p uid
      | Some w \<Rightarrow> multi_try_consume (user_limiter p uid) w now = (user_limiter p' uid, ok) \<or>
                 (\<not> ok \<and> user_limiter p' uid = user_limiter p uid))"

lemma check_asks:
  assumes "limits_enabled (rl_config p)" and "check_rate_limits p sid u now = (p', r)"
  shows "rl_config p' = rl_config p \<and> asks p uid p' (if u = uid then Some 1 else None) now (\<not> isl r)"
proof -
  let ?q = "server_checked p now"
  obtain p1 r1 where s: "take_from_session ?q sid now = (p1, r1)" by fastforce
  obtain p2 r2 where t: "take_from_user p1 u Administrative 1 now = (p2, r2)" by fastforce
  note t1 = take_from_user_limiter [OF t]
  have same: "user_limiter ?q = user_limiter p" "user_limiter p1 = user_limiter p" "rl_config p1 = rl_config p"
    using take_from_session_users [OF s] by (auto intro!: ext user_limiter_cong)
  have act: "user_limiter (update_activity_timestamps p2 sid u now) = user_limiter p2"
    "user_limiter (count_rejected ?q) = user_limiter ?q"
    by (auto intro!: ext user_limiter_cong)
  show ?thesis
    using assms(2) t1 same act
    by (auto simp: check_rate_limits_stages [OF assms(1) s t] asks_def split: if_splits sum.splits)
qed

lemma rate_op_asks:
  assumes "limits_enabled (rl_config p)" and "rate_op_step p op now = (p', r)"
  shows "rl_config p' = rl_config p \<and> asks p uid p' (weight_for (rl_config p) uid op) now (\<not> isl r)"
proof (cases op)
  case (CheckRequest sid u)
  then show ?thesis using check_asks [OF assms(1), of sid u now p' r uid] assms(2) by simp
next
  case (ConsumeWeight mt u)
  then have "take_from_user p u mt (type_weight (rl_config p) mt) now = (p', r)"
    using assms by (simp add: consume_message_weight_def type_weight_def)
  from take_from_user_limiter [OF this] ConsumeWeight show ?thesis by (auto simp: asks_def)
qed (use assms(2) in \<open>auto simp: asks_def rate_create_session_def rate_destroy_session_def cleanup_tick_def
      cleanup_inactive_sessions_def Let_def intro!: user_limiter_cong\<close>)

lemma rate_run_Cons:
  assumes "rate_op_step p op now = (p1, r)"
  shows "rate_run uid p h ((op, now) # ops) =
    rate_run uid p1 (case (r, weight_for (rl_config p) uid op) of (Inr _, Some w) \<Rightarrow> \<lparr>weight = w, timestamp = now\<rparr> # h | _ \<Rightarrow> h) ops"
  using assms by (simp split: sum.splits option.splits)

text \<open>So the whole run is a run of the user's limiter on a part of the requests, in their order.\<close>

lemma rate_run_is_grant_run:
  assumes "limits_enabled (rl_config p)" and "rate_run uid p h ops = (p', h')"
  shows "\<exists>rs. grant_run multi_try_consume (user_limiter p uid) h rs = (user_limiter p' uid, h') \<and>
    (\<forall>r\<in>set rs. \<exists>op. (op, snd r) \<in> set ops \<and> weight_for (rl_config p) uid op = Some (fst r)) \<and>
    (sorted (map snd ops) \<longrightarrow> sorted (map snd rs))"
  using assms
proof (induction ops arbitrary: p h)
  case Nil
  then show ?case by (intro exI [of _ "[]"]) simp
next
  case (Cons x ops)
  obtain op now where x: "x = (op, now)" by (cases x)
  obtain p1 r where st: "rate_op_step p op now = (p1, r)" by fastforce
  let ?wo = "weight_for (rl_config p) uid op"
  from rate_op_asks [OF Cons.prems(1) st] have cfg: "rl_config p1 = rl_config p"
    and asks: "asks p uid p1 ?wo now (\<not> isl r)" by auto
  define h1 where "h1 = (case (r, ?wo) of (Inr _, Some w) \<Rightarrow> \<lparr>weight = w, timestamp = now\<rparr> # h | _ \<Rightarrow> h)"
  have run: "rate_run uid p1 h1 ops = (p', h')"
    using Cons.prems(2) rate_run_Cons [OF st] by (simp add: x h1_def)
  have "limits_enabled (rl_config p1)" using Cons.prems(1) cfg by simp
  from Cons.IH [OF this run] obtain rs where
    rs: "grant_run multi_try_consume (user_limiter p1 uid) h1 rs = (user_limiter p' uid, h')"
      "\<forall>q\<in>set rs. \<exists>op. (op, snd q) \<in> set ops \<and> weight_for (rl_config p) uid op = Some (fst q)"
      "sorted (map snd ops) \<longrightarrow> sorted (map snd rs)"
    unfolding cfg by blast
  show ?case
  proof (cases "\<exists>w. ?wo = Some w \<and> multi_try_consume (user_limiter p uid) w now = (user_limiter p1 uid, \<not> isl r)")
    case True
    then obtain w where w: "?wo = Some w" "multi_try_consume (user_limiter p uid) w now = (user_limiter p1 uid, \<not> isl r)"
      by blast
    have "grant_run multi_try_consume (user_limiter p uid) h ((w, now) # rs) = (user_limiter p' uid, h')"
      using rs(1) w by (cases r) (simp_all add: h1_def)
    then show ?thesis
      by (rule_tac x = "(w, now) # rs" in exI) (use rs(2,3) w x in \<open>fastforce\<close>)
  next
    case False
    then have "user_limiter p1 uid = user_limiter p uid" "h1 = h"
      using asks by (auto simp: asks_def h1_def split: option.splits sum.splits)
    then show ?thesis using rs x by (intro exI [of _ rs]) auto
  qed
qed

text \<open>
  C14: A user's requests and messages, on whatever sessions they come and whatever the other users,
  the sessions' ends and the clean-up do in between, are never granted more weight in any sliding
  window than the configured limit of the user.
\<close>

theorem user_weight_is_bounded:
  assumes "limits_enabled cfg" and "sorted (map snd ops)" and "c \<in> set (user_limits cfg)"
    and "\<forall>c\<in>set (user_limits cfg). limit c + 1 < 2 ^ 64 \<and> (\<forall>mt. limit c + type_weight cfg mt < 2 ^ 64)"
    and "rate_run uid (rate_limit_plugin_new cfg) [] ops = (p, h)"
  shows "granted_in h (period c) fin \<le> limit c"
proof -
  have start: "rl_config (rate_limit_plugin_new cfg) = cfg"
    "user_limiter (rate_limit_plugin_new cfg) uid = multi_new (user_limits cfg)"
    by (simp_all add: rate_limit_plugin_new_def user_limiter_def)
  obtain rs where rs:
    "grant_run multi_try_consume (multi_new (user_limits cfg)) [] rs = (user_limiter p uid, h)"
    "\<forall>r\<in>set rs. \<exists>op. weight_for cfg uid op = Some (fst r)" "sorted (map snd rs)"
    using rate_run_is_grant_run [of "rate_limit_plugin_new cfg" uid "[]" ops p h] assms(1,2,5)
    unfolding start by metis
  have "fst r = 1 \<or> (\<exists>mt. fst r = type_weight cfg mt)" if "r \<in> set rs" for r
  proof -
    obtain op where "weight_for cfg uid op = Some (fst r)" using rs(2) \<open>r \<in> set rs\<close> by blast
    then show ?thesis by (cases op) (auto split: if_splits dest!: sym [of "type_weight _ _"])
  qed
  then have "limit c + fst r < 2 ^ 64" if "c \<in> set (user_limits cfg)" "r \<in> set rs" for c r
    using assms(4) that by metis
  then show ?thesis
    using multi.window_bound [of "multi_new (user_limits cfg)" rs "user_limiter p uid" h c] rs(1,3) assms(3)
    by (simp add: multi_new_def weights_new_def)
qed

definition tight_config :: rate_limit_config where
  "tight_config = default_config\<lparr>user_limits := [limit_per 11 10], session_limits := [], global_limits := []\<rparr>"

definition tight_ops :: "(rate_op \<times> timestamp) list" where
  "tight_ops = [(OpenSession ''S-0'', 0), (CheckRequest ''S-0'' (1, 7), 1), (ConsumeWeight OrderMessage (1, 7), 2),
     (CloseSession ''S-0'', 3), (CheckRequest ''S-1'' (1, 7), 4)]"

lemmas rate_evals =
  rate_run.simps rate_op_step.simps tight_config_def tight_ops_def default_config_def rate_limit_plugin_new_def
  check_rate_limits_def take_from_session_def take_from_user_def consume_message_weight_def rate_defs
  rate_create_session_def rate_destroy_session_def forget_session_def remove_key_def limiter_evals limit_per_def
  seconds_def type_weight_def Let_def

lemma default_weight_small: "type_weight default_config mt \<le> 10"
  by (cases mt) (simp_all add: type_weight_def default_config_def)

theorem user_weight_is_bounded_witness:
  "snd (rate_run (1, 7) (rate_limit_plugin_new tight_config) [] tight_ops) =
     [\<lparr>weight = 10, timestamp = 2\<rparr>, \<lparr>weight = 1, timestamp = 1\<rparr>] \<and>
   granted_in (snd (rate_run (1, 7) (rate_limit_plugin_new tight_config) [] tight_ops)) 10000000000 4 \<le> 11"
proof -
  have "type_weight tight_config mt \<le> 10" for mt
    using default_weight_small [of mt] by (simp add: tight_config_def type_weight_def)
  then have small: "11 + type_weight tight_config mt < 2 ^ 64" for mt
    using order_le_less_trans [of "11 + type_weight tight_config mt" 21 "2 ^ 64"] by simp
  obtain p where run: "rate_run (1, 7) (rate_limit_plugin_new tight_config) [] tight_ops =
      (p, [\<lparr>weight = 10, timestamp = 2\<rparr>, \<lparr>weight = 1, timestamp = 1\<rparr>])"
    by (simp add: rate_evals)
  then show ?thesis
    using user_weight_is_bounded [of tight_config tight_ops "limit_per 11 10" "(1, 7)" p _ 4] small
    by (simp add: tight_config_def tight_ops_def limit_per_def seconds_def default_config_def)
qed

lemma take_from_session_Inl:
  assumes "take_from_session p sid now = (p', Inl e)"
  shows "rm_rejected_requests (rl_metrics p') = rm_rejected_requests (rl_metrics p) + 1 \<and>
    (\<exists>d. e = SessionLimitExceeded sid d) \<and> user_limiters p' = user_limiters p"
  using assms
  by (auto simp: take_from_session_def rate_defs Let_def split: prod.splits option.splits if_splits)

lemma take_from_session_Inr:
  assumes "take_from_session p sid now = (p', Inr x)"
  shows "rm_rejected_requests (rl_metrics p') = rm_rejected_requests (rl_metrics p)"
  using assms
  by (auto simp: take_from_session_def rate_defs Let_def split: prod.splits option.splits if_splits)

lemma take_from_user_Inl:
  assumes "take_from_user p uid mt w now = (p', Inl e)"
  shows "rm_rejected_requests (rl_metrics p') = rm_rejected_requests (rl_metrics p) + 1 \<and>
    (\<exists>d. e = UserLimitExceeded uid mt w d)"
  using assms
  by (auto simp: take_from_user_def rate_defs Let_def split: prod.splits option.splits if_splits)

text \<open>
  A request the server's own limit turns away costs neither its session nor its user anything,
  and a request the session's limit turns away costs its user nothing; each is counted once as
  rejected.
\<close>

theorem rejected_request_is_not_charged:
  assumes "check_rate_limits p sid uid now = (p', Inl e)"
  shows "rm_rejected_requests (rl_metrics p') = rm_rejected_requests (rl_metrics p) + 1 \<and>
    (case e of
       GlobalLimitExceeded _ \<Rightarrow> session_limiters p' = session_limiters p \<and> user_limiters p' = user_limiters p
     | SessionLimitExceeded s _ \<Rightarrow> s = sid \<and> user_limiters p' = user_limiters p
     | UserLimitExceeded u mt w _ \<Rightarrow> u = uid \<and> mt = Administrative \<and> w = 1)"
proof -
  have on: "limits_enabled (rl_config p)" using assms by (auto simp: check_rate_limits_def split: if_splits)
  let ?q = "server_checked p now"
  obtain p1 r1 where s: "take_from_session ?q sid now = (p1, r1)" by fastforce
  obtain p2 r2 where t: "take_from_user p1 uid Administrative 1 now = (p2, r2)" by fastforce
  show ?thesis
    using assms take_from_session_Inl [of ?q sid now p1 e] take_from_session_Inr [of ?q sid now p1]
      take_from_user_Inl [of p1 uid Administrative 1 now p2 e] s t
    by (auto simp: check_rate_limits_stages [OF on s t] count_rejected_def split: if_splits sum.splits)
qed

theorem rejected_request_is_not_charged_witness:
  "snd (check_rate_limits (rate_limit_plugin_new (tight_config\<lparr>global_limits := [limit_per 0 10]\<rparr>)) ''S-0'' (1, 7) 1) =
     Inl (GlobalLimitExceeded 10000000000) \<and>
   user_limiters (fst (check_rate_limits
     (rate_limit_plugin_new (tight_config\<lparr>global_limits := [limit_per 0 10]\<rparr>)) ''S-0'' (1, 7) 1)) = []"
proof -
  let ?p = "rate_limit_plugin_new (tight_config\<lparr>global_limits := [limit_per 0 10]\<rparr>)"
  have "snd (check_rate_limits ?p ''S-0'' (1, 7) 1) = Inl (GlobalLimitExceeded 10000000000)"
    by (simp add: rate_evals multi_waiting_period_half_smallest_limit_def multi_waiting_period_def multi_waits_def
      weights_waiting_period_def)
  then show ?thesis
    using rejected_request_is_not_charged [of ?p "''S-0''" "(1, 7)" 1
      "fst (check_rate_limits ?p ''S-0'' (1, 7) 1)" "GlobalLimitExceeded 10000000000"]
    by (simp add: prod_eq_iff rate_limit_plugin_new_def)
qed

section \<open>Ends of sessions\<close>

lemma remove_key_keys [simp]: "fst ` set (remove_key k m) = fst ` set m - {k}"
  by (auto simp: remove_key_def image_iff)

lemma remove_key_set: "(k', v) \<in> set (remove_key k m) \<longleftrightarrow> k' \<noteq> k \<and> (k', v) \<in> set m"
  by (auto simp: remove_key_def)

lemma forget_session_metadata:
  "set (rl_session_metadata (forget_session p sid)) = {(s, m) \<in> set (rl_session_metadata p). s \<noteq> sid}"
proof (cases "map_of (rl_session_metadata p) sid")
  case None
  then have "sid \<notin> fst ` set (rl_session_metadata p)" by (simp add: map_of_eq_None_iff)
  with None show ?thesis by (auto simp: forget_session_def Let_def image_iff) 
next
  case (Some m)
  then show ?thesis by (auto simp: forget_session_def Let_def remove_key_set split: option.splits)
qed

lemma foldl_forget_metadata:
  "set (rl_session_metadata (foldl forget_session p sids)) =
     {(s, m) \<in> set (rl_session_metadata p). s \<notin> set sids}"
  by (induction sids arbitrary: p) (auto simp: forget_session_metadata)

text \<open>
  The clean-up forgets just the sessions that have been silent for longer than the configured
  age: the sessions active since then keep their metadata as it was.
\<close>

theorem cleanup_keeps_recent_sessions:
  assumes "distinct (map fst (rl_session_metadata p))"
  shows "set (rl_session_metadata (cleanup_inactive_sessions p now max_age)) =
    set (filter (\<lambda>(s, m). now - max_age \<le> sm_last_activity m) (rl_session_metadata p))"
proof -
  let ?ms = "rl_session_metadata p"
  let ?gone = "map fst (filter (\<lambda>(_, m). sm_last_activity m < now - max_age) ?ms)"
  have gone: "s \<in> set ?gone \<longleftrightarrow> sm_last_activity m < now - max_age" if sm: "(s, m) \<in> set ?ms" for s m
  proof
    assume "s \<in> set ?gone"
    then obtain m' where m': "(s, m') \<in> set ?ms" "sm_last_activity m' < now - max_age" by auto
    from eq_key_imp_eq_value [OF assms m'(1) sm] m'(2) show "sm_last_activity m < now - max_age" by simp
  next
    assume "sm_last_activity m < now - max_age"
    with sm have "(s, m) \<in> set (filter (\<lambda>(_, m). sm_last_activity m < now - max_age) ?ms)" by simp
    then show "s \<in> set ?gone" by force
  qed
  have "set (rl_session_metadata (foldl forget_session p ?gone)) = {(s, m) \<in> set ?ms. s \<notin> set ?gone}"
    by (rule foldl_forget_metadata)
  also have "\<dots> = {(s, m) \<in> set ?ms. now - max_age \<le> sm_last_activity m}"
    using gone by (metis (lifting) Collect_cong case_prodE case_prodI2 linorder_not_le)
  also have "\<dots> = set (filter (\<lambda>(s, m). now - max_age \<le> sm_last_activity m) ?ms)" by auto
  finally show ?thesis by (simp add: cleanup_inactive_sessions_def)
qed

theorem cleanup_keeps_recent_sessions_witness:
  "set (rl_session_metadata (cleanup_inactive_sessions
     (rate_create_session (rate_create_session (rate_limit_plugin_new default_config) ''S-0'' 5) ''S-1'' 9) 12 5)) =
   {(''S-1'', \<lparr>sm_last_activity = 9, sm_user_id = (0, 0), sm_total_requests = 0\<rparr>)}"
proof -
  let ?p = "rate_create_session (rate_create_session (rate_limit_plugin_new default_config) ''S-0'' 5) ''S-1'' 9"
  have m: "rl_session_metadata ?p =
      [(''S-0'', \<lparr>sm_last_activity = 5, sm_user_id = (0, 0), sm_total_requests = 0\<rparr>),
       (''S-1'', \<lparr>sm_last_activity = 9, sm_user_id = (0, 0), sm_total_requests = 0\<rparr>)]"
    by (simp add: rate_create_session_def rate_limit_plugin_new_def)
  then have "distinct (map fst (rl_session_metadata ?p))" by simp
  from cleanup_keeps_recent_sessions [OF this, of 12 5] show ?thesis by (simp add: m)
qed

text \<open>
  A session is opened under the anonymous user and its metadata keep that user, whoever its
  requests are checked for: when a session that served one user's request is closed, the user's
  metadata still count it among the active sessions.
\<close>

theorem closed_session_stays_with_user:
  assumes "check_rate_limits (rate_create_session p sid t0) sid uid now = (p1, Inr x)"
    and "limits_enabled (rl_config p)" and "uid \<noteq> (0, 0)"
  shows "\<exists>um. map_of (rl_user_metadata (rate_destroy_session p1 sid)) uid = Some um \<and>
    sid \<in> set (um_active_sessions um)"
proof -
  let ?p = "rate_create_session p sid t0"
  let ?q = "server_checked ?p now"
  obtain p2 r2 where s: "take_from_session ?q sid now = (p2, r2)" by fastforce
  obtain p3 r3 where u: "take_from_user p2 uid Administrative 1 now = (p3, r3)" by fastforce
  have on: "limits_enabled (rl_config ?p)" using assms(2) by (simp add: rate_create_session_def)
  have p1: "p1 = update_activity_timestamps p3 sid uid now"
    using assms(1) by (auto simp: check_rate_limits_stages [OF on s u] split: if_splits sum.splits)
  have "rl_session_metadata p2 = rl_session_metadata ?q"
    using s by (auto simp: take_from_session_def rate_defs Let_def split: prod.splits option.splits if_splits)
  moreover have "rl_session_metadata p3 = rl_session_metadata p2"
    using u by (auto simp: take_from_user_def rate_defs Let_def split: prod.splits option.splits if_splits)
  ultimately have sm: "map_of (rl_session_metadata p3) sid =
      Some \<lparr>sm_last_activity = t0, sm_user_id = (0, 0), sm_total_requests = 0\<rparr>"
    by (simp add: rate_create_session_def map_of_put_assoc)
  obtain m where m: "map_of (rl_session_metadata p1) sid = Some m" "sm_user_id m = (0, 0)"
    using sm by (simp add: p1 update_activity_timestamps_def map_of_put_assoc Let_def)
  obtain um where um: "map_of (rl_user_metadata p1) uid = Some um" "sid \<in> set (um_active_sessions um)"
    by (auto simp: p1 update_activity_timestamps_def map_of_put_assoc Let_def split: option.splits)
  have "map_of (remove_key (0, 0) xs) uid = map_of xs uid" for xs :: "(user_id \<times> user_metadata) list"
    using assms(3) by (induction xs) (auto simp: remove_key_def)
  then show ?thesis
    using m um assms(3)
    by (auto simp: rate_destroy_session_def forget_session_def Let_def map_of_put_assoc split: option.splits)
qed

theorem closed_session_stays_with_user_witness:
  "\<exists>um. map_of (rl_user_metadata (rate_destroy_session (fst (check_rate_limits
      (rate_create_session (rate_limit_plugin_new tight_config) ''S-0'' 1) ''S-0'' (1, 7) 2)) ''S-0'')) (1, 7) = Some um \<and>
    ''S-0'' \<in> set (um_active_sessions um)"
proof -
  let ?c = "check_rate_limits (rate_create_session (rate_limit_plugin_new tight_config) ''S-0'' 1) ''S-0'' (1, 7) 2"
  have "snd ?c = Inr ()" by (simp add: rate_evals)
  then have "?c = (fst ?c, Inr ())" by (simp add: prod_eq_iff)
  from closed_session_stays_with_user [OF this] show ?thesis
    by (simp add: rate_limit_plugin_new_def tight_config_def default_config_def)
qed

end
