(* ===== verification/FixSessions.thy ===== *)
theory FixSessions
  imports RateLimit "HOL-Library.Sublist"
begin

unbundle bit_operations_syntax

text \<open>
  The sessions of the FIX server, \<open>libs/axum-fix-server/src\<close>: sequence numbers
  (\<open>plugins/seq_num_plugin.rs\<close>), the sessions of a user (\<open>plugins/user_plugin.rs\<close>), the table of
  sessions (\<open>server_state.rs\<close>, \<open>session.rs\<close>), and the loop that serves one connection
  (\<open>session_state.rs\<close>, \<open>server.rs\<close>). What the server asks of its plugin is a parameter of each
  definition; the plugin of the index maker provides it in \<open>FixServer\<close>.
\<close>

section \<open>Sequence numbers\<close>

record seq_num_plugin =
  last_received :: "(session_id \<times> u32) list"
  last_sent :: "(session_id \<times> u32) list"

definition seq_num_plugin_new :: seq_num_plugin where
  "seq_num_plugin_new = \<lparr>last_received = [], last_sent = []\<rparr>"

definition last_sent_seq_num :: "seq_num_plugin \<Rightarrow> session_id \<Rightarrow> u32" where
  "last_sent_seq_num p sid = (case map_of (last_sent p) sid of None \<Rightarrow> 0 | Some v \<Rightarrow> v)"

definition last_received_seq_num :: "seq_num_plugin \<Rightarrow> session_id \<Rightarrow> u32" where
  "last_received_seq_num p sid = (case map_of (last_received p) sid of None \<Rightarrow> 0 | Some v \<Rightarrow> v)"

definition valid_seq_num :: "seq_num_plugin \<Rightarrow> u32 \<Rightarrow> session_id \<Rightarrow> seq_num_plugin \<times> bool" where
  "valid_seq_num p n sid =
     (if (case map_of (last_received p) sid of None \<Rightarrow> 0 | Some v \<Rightarrow> v) + 1 = n
      then (p\<lparr>last_received := put_assoc sid n (last_received p)\<rparr>, True)
      else (p, False))"

definition next_seq_num :: "seq_num_plugin \<Rightarrow> session_id \<Rightarrow> seq_num_plugin \<times> u32" where
  "next_seq_num p sid =
     (case map_of (last_sent p) sid of
        Some v \<Rightarrow> (p\<lparr>last_sent := put_assoc sid (v + 1) (last_sent p)\<rparr>, v + 1)
      | None \<Rightarrow> (p\<lparr>last_sent := put_assoc sid 1 (last_sent p)\<rparr>, 1))"

definition seq_create_session :: "seq_num_plugin \<Rightarrow> session_id \<Rightarrow> seq_num_plugin" where
  "seq_create_session p sid =
     p\<lparr>last_received := put_assoc sid 0 (last_received p), last_sent := put_assoc sid 0 (last_sent p)\<rparr>"

definition seq_destroy_session :: "seq_num_plugin \<Rightarrow> session_id \<Rightarrow> seq_num_plugin" where
  "seq_destroy_session p sid =
     p\<lparr>last_received := remove_key sid (last_received p), last_sent := remove_key sid (last_sent p)\<rparr>"

section \<open>The sessions of a user\<close>

text \<open>The order of the list is the one in which the map yields its users.\<close>

type_synonym user_plugin = "(user_id \<times> session_id list) list"

definition user_plugin_new :: user_plugin where
  "user_plugin_new = []"

definition add_user_session :: "user_plugin \<Rightarrow> user_id \<Rightarrow> session_id \<Rightarrow> user_plugin" where
  "add_user_session m uid sid =
     put_assoc uid (List.insert sid (case map_of m uid of None \<Rightarrow> [] | Some ss \<Rightarrow> ss)) m"

definition remove_user_session :: "user_plugin \<Rightarrow> user_id \<Rightarrow> session_id \<Rightarrow> user_plugin" where
  "remove_user_session m uid sid =
     (case map_of m uid of
        None \<Rightarrow> m
      | Some ss \<Rightarrow>
          let rest = remove1 sid ss
          in if rest = [] then remove_key uid m else put_assoc uid rest m)"

text \<open>The first user found to have the session loses it.\<close>

definition remove_session_of_users :: "user_plugin \<Rightarrow> session_id \<Rightarrow> user_plugin" where
  "remove_session_of_users m sid =
     (case find (\<lambda>(_, ss). sid \<in> set ss) m of
        None \<Rightarrow> m
      | Some (uid, _) \<Rightarrow> remove_user_session m uid sid)"

definition get_user_sessions :: "user_plugin \<Rightarrow> user_id \<Rightarrow> session_id list result" where
  "get_user_sessions m uid = ok_or (map_of m uid) ''User not found''"

section \<open>The table of sessions\<close>

text \<open>
  A session's sender, whose receiver is closed when the task that serves the connection has ended;
  \<open>will_stop\<close> cancels that task.
\<close>

record fix_session =
  response_closed :: bool
  responses :: "string list"
  cancelled :: bool

definition fix_session_new :: fix_session where
  "fix_session_new = \<lparr>response_closed = False, responses = [], cancelled = False\<rparr>"

definition will_stop :: "fix_session \<Rightarrow> fix_session" where
  "will_stop s = s\<lparr>cancelled := True\<rparr>"

text \<open>A closed session reports the error before it would cancel the task.\<close>

definition send_response :: "fix_session \<Rightarrow> string \<Rightarrow> fix_session \<times> unit result" where
  "send_response s r =
     (if response_closed s then (s, Inl ''Session is closed'')
      else (s\<lparr>responses := responses s @ [r]\<rparr>, Inr ()))"

record 'p server_state =
  fix_sessions :: "(session_id \<times> fix_session) list"
  session_id_counter :: nat
  srv_plugin :: 'p
  accept_connections :: bool

definition server_state_new :: "'p \<Rightarrow> 'p server_state" where
  "server_state_new p = \<lparr>fix_sessions = [], session_id_counter = 0, srv_plugin = p, accept_connections = True\<rparr>"

definition gen_next_session_id :: "'p server_state \<Rightarrow> 'p server_state \<times> session_id" where
  "gen_next_session_id st =
     (let n = usize_add (session_id_counter st) 1
      in (st\<lparr>session_id_counter := n\<rparr>, ''S-'' @ show_nat n))"

definition close_server :: "'p server_state \<Rightarrow> 'p server_state" where
  "close_server st = st\<lparr>accept_connections := False\<rparr>"

definition server_create_session ::
  "(session_id \<Rightarrow> 'p \<Rightarrow> 'p \<times> unit result) \<Rightarrow> 'p server_state \<Rightarrow> 'p server_state \<times> session_id result" where
  "server_create_session C st =
     (case gen_next_session_id st of
        (st1, sid) \<Rightarrow>
          (case map_of (fix_sessions st1) sid of
             Some _ \<Rightarrow> (st1, Inl ''Session already exists'')
           | None \<Rightarrow>
               let st2 = st1\<lparr>fix_sessions := put_assoc sid fix_session_new (fix_sessions st1)\<rparr>
               in case C sid (srv_plugin st2) of
                    (p, r) \<Rightarrow> (st2\<lparr>srv_plugin := p\<rparr>, rbind r (\<lambda>_. Inr sid))))"

definition close_session ::
  "(session_id \<Rightarrow> 'p \<Rightarrow> 'p \<times> unit result) \<Rightarrow> 'p server_state \<Rightarrow> session_id \<Rightarrow> 'p server_state \<times> fix_session result" where
  "close_session X st sid =
     (case X sid (srv_plugin st) of
        (p, Inl e) \<Rightarrow> (st\<lparr>srv_plugin := p\<rparr>, Inl e)
      | (p, Inr _) \<Rightarrow>
          (case map_of (fix_sessions st) sid of
             None \<Rightarrow> (st\<lparr>srv_plugin := p\<rparr>, Inl ''Session no longer exists'')
           | Some s \<Rightarrow> (st\<lparr>srv_plugin := p, fix_sessions := remove_key sid (fix_sessions st)\<rparr>, Inr (will_stop s))))"

fun close_sessions ::
  "(session_id \<Rightarrow> 'p \<Rightarrow> 'p \<times> unit result) \<Rightarrow> 'p server_state \<Rightarrow> session_id list \<Rightarrow>
     'p server_state \<times> fix_session result list" where
  "close_sessions X st [] = (st, [])"
| "close_sessions X st (sid # sids) =
     (case close_session X st sid of
        (st', r) \<Rightarrow> (case close_sessions X st' sids of (st'', rs) \<Rightarrow> (st'', r # rs)))"

definition close_all_sessions ::
  "(session_id \<Rightarrow> 'p \<Rightarrow> 'p \<times> unit result) \<Rightarrow> 'p server_state \<Rightarrow> 'p server_state \<times> fix_session list result" where
  "close_all_sessions X st =
     (case close_sessions X st (map fst (fix_sessions st)) of
        (st', rs) \<Rightarrow>
          let (good, bad) = partition_result rs
          in (st', if bad \<noteq> [] then Inl ''Failed to close sessions'' else Inr good))"

definition send_to_session ::
  "'p server_state \<Rightarrow> session_id \<times> string \<Rightarrow> 'p server_state \<times> unit result" where
  "send_to_session st to =
     (case map_of (fix_sessions st) (fst to) of
        None \<Rightarrow> (st, Inl ''Session not found'')
      | Some s \<Rightarrow>
          (case send_response s (snd to) of
             (s', r) \<Rightarrow> (st\<lparr>fix_sessions := put_assoc (fst to) s' (fix_sessions st)\<rparr>, r)))"

fun send_each :: "'p server_state \<Rightarrow> (session_id \<times> string) list \<Rightarrow> 'p server_state \<times> unit result list" where
  "send_each st [] = (st, [])"
| "send_each st (to # tos) =
     (case send_to_session st to of
        (st', r) \<Rightarrow> (case send_each st' tos of (st'', rs) \<Rightarrow> (st'', r # rs)))"

text \<open>Every message is tried, also after one that failed.\<close>

definition server_process_outgoing ::
  "('q \<Rightarrow> 'p \<Rightarrow> 'p \<times> (session_id \<times> string) list result) \<Rightarrow> 'p server_state \<Rightarrow> 'q \<Rightarrow> 'p server_state \<times> unit result" where
  "server_process_outgoing Q st response =
     (case Q response (srv_plugin st) of
        (p, Inl e) \<Rightarrow> (st\<lparr>srv_plugin := p\<rparr>, Inl e)
      | (p, Inr tos) \<Rightarrow>
          (case send_each (st\<lparr>srv_plugin := p\<rparr>) tos of
             (st', rs) \<Rightarrow>
               (st', if snd (partition_result rs) \<noteq> [] then Inl ''Failed to send response'' else Inr ())))"

definition server_process_incoming ::
  "(string \<Rightarrow> session_id \<Rightarrow> 'p \<Rightarrow> 'p \<times> string result) \<Rightarrow> 'p server_state \<Rightarrow> string \<Rightarrow> session_id \<Rightarrow>
     'p server_state \<times> string result" where
  "server_process_incoming I st message sid =
     (case I message sid (srv_plugin st) of (p, r) \<Rightarrow> (st\<lparr>srv_plugin := p\<rparr>, r))"

section \<open>A connection\<close>

datatype ws_message = TextMessage string | Pong "8 word list" | BinaryMessage | PingMessage | CloseMessage

datatype run_session_result = MessageReceived string | SessionError report | ConnectionClosed | ContinueSession

record connection =
  ping_timestamp :: "u64 option"

definition connection_new :: connection where
  "connection_new = \<lparr>ping_timestamp = None\<rparr>"

text \<open>\<open>i64::to_le_bytes\<close> and back; the sign makes no difference to the bytes.\<close>

definition to_le_bytes :: "u64 \<Rightarrow> 8 word list" where
  "to_le_bytes n = map (\<lambda>i. ucast (drop_bit (8 * i) n)) [0..<8]"

fun from_le_bytes :: "8 word list \<Rightarrow> u64" where
  "from_le_bytes [] = 0"
| "from_le_bytes (b # bs) = ucast b + push_bit 8 (from_le_bytes bs)"

definition parse_pong_data :: "8 word list \<Rightarrow> u64 result" where
  "parse_pong_data bs = (if length bs \<noteq> 8 then Inl ''Failed to read pong data'' else Inr (from_le_bytes bs))"

definition process_pong_data :: "connection \<Rightarrow> 8 word list \<Rightarrow> connection \<times> unit result" where
  "process_pong_data c bs =
     (case (ping_timestamp c, parse_pong_data bs) of
        (Some a, Inr b) \<Rightarrow>
          if a = b then (c\<lparr>ping_timestamp := None\<rparr>, Inr ()) else (c, Inl ''Invalid pong data received'')
      | (_, Inl _) \<Rightarrow> (c, Inl ''Failed to parse pong data'')
      | (None, _) \<Rightarrow> (c, Inl ''Unexpected pong received''))"

fun process_ws_message :: "connection \<Rightarrow> ws_message \<Rightarrow> connection \<times> run_session_result" where
  "process_ws_message c (TextMessage t) = (c, MessageReceived t)"
| "process_ws_message c (Pong bs) =
     (case process_pong_data c bs of
        (c', Inl e) \<Rightarrow> (c', SessionError e)
      | (c', Inr _) \<Rightarrow> (c', ContinueSession))"
| "process_ws_message c BinaryMessage = (c, SessionError ''Unexpected binary received'')"
| "process_ws_message c PingMessage = (c, SessionError ''Unexpected ping received'')"
| "process_ws_message c CloseMessage = (c, ConnectionClosed)"

text \<open>What goes over the wire to the client.\<close>

datatype ws_out = SendText string | SendPing "8 word list"

definition send_ping :: "bool \<Rightarrow> u64 \<Rightarrow> ws_out list \<times> u64 result" where
  "send_ping up now = (if up then ([SendPing (to_le_bytes now)], Inr now) else ([], Inl ''Failed to send ping''))"

definition process_timeout :: "bool \<Rightarrow> u64 \<Rightarrow> connection \<Rightarrow> connection \<times> ws_out list \<times> run_session_result" where
  "process_timeout up now c =
     (case ping_timestamp c of
        Some _ \<Rightarrow> (c, [], SessionError ''Connection timeout'')
      | None \<Rightarrow>
          (case send_ping up now of
             (outs, Inr t) \<Rightarrow> (c\<lparr>ping_timestamp := Some t\<rparr>, outs, ContinueSession)
           | (outs, Inl e) \<Rightarrow> (c, outs, SessionError ''Failed to send ping'')))"

text \<open>
  What \<open>select!\<close> yields, and whether the socket still takes data: the session is cancelled, the
  client sends something, the socket fails or ends, the server responds, nothing happens for the
  timeout.
\<close>

datatype ws_event =
    SessionCancelled
  | FromClient ws_message
  | SocketError
  | SocketEnded
  | FromServer string
  | TimedOut u64

text \<open>\<open>None\<close>: the response was sent, and \<open>get_message\<close> goes on to wait for the next event.\<close>

fun connection_event :: "bool \<Rightarrow> connection \<Rightarrow> ws_event \<Rightarrow> connection \<times> ws_out list \<times> run_session_result option" where
  "connection_event up c SessionCancelled = (c, [], Some ConnectionClosed)"
| "connection_event up c (FromClient m) = (case process_ws_message c m of (c', r) \<Rightarrow> (c', [], Some r))"
| "connection_event up c SocketError = (c, [], Some (SessionError ''WebSocket error''))"
| "connection_event up c SocketEnded = (c, [], Some ConnectionClosed)"
| "connection_event up c (FromServer r) =
     (if up then (c, [SendText r], None) else (c, [], Some (SessionError ''WebSocket error'')))"
| "connection_event up c (TimedOut now) =
     (case process_timeout up now c of (c', outs, r) \<Rightarrow> (c', outs, Some r))"

text \<open>
  The loop of one connection, over the events it meets: the server's state, what the client is
  sent, whether the loop has ended. The error of a message the plugin refuses is sent as text.
\<close>

fun run_connection ::
  "(string \<Rightarrow> session_id \<Rightarrow> 'p \<Rightarrow> 'p \<times> string result) \<Rightarrow> session_id \<Rightarrow> connection \<Rightarrow> 'p server_state \<Rightarrow>
     (bool \<times> ws_event) list \<Rightarrow> 'p server_state \<times> ws_out list \<times> bool" where
  "run_connection I sid c st [] = (st, [], False)"
| "run_connection I sid c st ((up, ev) # evs) =
     (case connection_event up c ev of
        (c', outs, Some (MessageReceived t)) \<Rightarrow>
          (case server_process_incoming I st t sid of
             (st', r) \<Rightarrow>
               if \<not> up then (st', outs, True)
               else (case run_connection I sid c' st' evs of
                       (st'', outs', ended) \<Rightarrow>
                         (st'', outs @ SendText (case r of Inl e \<Rightarrow> e | Inr m \<Rightarrow> m) # outs', ended)))
      | (c', outs, Some (SessionError _)) \<Rightarrow> (st, outs, True)
      | (c', outs, Some ConnectionClosed) \<Rightarrow> (st, outs, True)
      | (c', outs, _) \<Rightarrow>
          (case run_connection I sid c' st evs of (st', outs', ended) \<Rightarrow> (st', outs @ outs', ended)))"

definition ws_handler ::
  "(string \<Rightarrow> session_id \<Rightarrow> 'p \<Rightarrow> 'p \<times> string result) \<Rightarrow> (session_id \<Rightarrow> 'p \<Rightarrow> 'p \<times> unit result) \<Rightarrow>
     (session_id \<Rightarrow> 'p \<Rightarrow> 'p \<times> unit result) \<Rightarrow> 'p server_state \<Rightarrow> (bool \<times> ws_event) list \<Rightarrow>
     'p server_state \<times> ws_out list" where
  "ws_handler I C X st evs =
     (if \<not> accept_connections st then (st, [])
      else case server_create_session C st of
             (st1, Inl _) \<Rightarrow> (st1, [])
           | (st1, Inr sid) \<Rightarrow>
               (case run_connection I sid connection_new st1 evs of
                  (st2, outs, ended) \<Rightarrow> (if ended then fst (close_session X st2 sid) else st2, outs)))"

section \<open>Sequence numbers are consecutive\<close>

text \<open>The numbers a session's messages offer, interleaved with those of other sessions, and the accepted ones.\<close>

fun received_run :: "session_id \<Rightarrow> seq_num_plugin \<Rightarrow> (session_id \<times> u32) list \<Rightarrow> seq_num_plugin \<times> u32 list" where
  "received_run sid p [] = (p, [])"
| "received_run sid p ((s, n) # offers) =
     (case valid_seq_num p n s of
        (p', ok) \<Rightarrow> (case received_run sid p' offers of
           (p'', ns) \<Rightarrow> (p'', if ok \<and> s = sid then n # ns else ns)))"

definition numbers_from :: "u32 \<Rightarrow> nat \<Rightarrow> u32 list" where
  "numbers_from l k = map (\<lambda>i. l + 1 + of_nat i) [0..<k]"

lemma numbers_from_0 [simp]: "numbers_from l 0 = []"
  by (simp add: numbers_from_def)

lemma numbers_from_Suc: "numbers_from l (Suc k) = (l + 1) # numbers_from (l + 1) k"
  unfolding numbers_from_def by (subst upt_conv_Cons, simp) (simp add: map_Suc_upt [symmetric] ac_simps del: upt_Suc)

lemma valid_seq_num_last:
  assumes "valid_seq_num p n s = (p', ok)"
  shows "last_received_seq_num p' sid = (if ok \<and> s = sid then n else last_received_seq_num p sid)"
    and "ok \<longleftrightarrow> n = last_received_seq_num p s + 1"
  using assms by (auto simp: valid_seq_num_def last_received_seq_num_def map_of_put_assoc split: if_splits)

text \<open>
  C20: Whatever a client and the others offer, the sequence numbers the server accepts on a session
  are consecutive, starting after the last one: no message is accepted twice or out of order until
  2 to the 32 messages have been accepted.
\<close>

theorem accepted_numbers_consecutive:
  shows "\<exists>k. snd (received_run sid p offers) = numbers_from (last_received_seq_num p sid) k \<and>
    last_received_seq_num (fst (received_run sid p offers)) sid = last_received_seq_num p sid + of_nat k"
proof (induction offers arbitrary: p)
  case Nil
  show ?case by (intro exI [of _ 0]) simp
next
  case (Cons x offers)
  obtain s n where x: "x = (s, n)" by (cases x)
  obtain p' ok where v: "valid_seq_num p n s = (p', ok)" by fastforce
  note last = valid_seq_num_last [OF v]
  obtain k where k: "snd (received_run sid p' offers) = numbers_from (last_received_seq_num p' sid) k"
    "last_received_seq_num (fst (received_run sid p' offers)) sid = last_received_seq_num p' sid + of_nat k"
    using Cons.IH by blast
  show ?case
  proof (cases "ok \<and> s = sid")
    case True
    then have n: "n = last_received_seq_num p sid + 1" "last_received_seq_num p' sid = n"
      using last by auto
    have "snd (received_run sid p (x # offers)) = numbers_from (last_received_seq_num p sid) (Suc k)"
      using True k(1) v n by (auto simp: x numbers_from_Suc split: prod.splits)
    moreover have "last_received_seq_num (fst (received_run sid p (x # offers))) sid =
        last_received_seq_num p sid + of_nat (Suc k)"
      using True k(2) v n by (auto simp: x split: prod.splits)
    ultimately show ?thesis by blast
  next
    case False
    then have "last_received_seq_num p' sid = last_received_seq_num p sid" using last(1) [of sid] by auto
    with k v False show ?thesis by (intro exI [of _ k]) (auto simp: x split: prod.splits)
  qed
qed

lemma next_seq_num_last:
  assumes "next_seq_num p s = (p', n)"
  shows "n = last_sent_seq_num p s + 1"
    and "last_sent_seq_num p' sid = (if s = sid then n else last_sent_seq_num p sid)"
    and "last_received p' = last_received p"
  using assms by (auto simp: next_seq_num_def last_sent_seq_num_def map_of_put_assoc split: option.splits)

section \<open>Pings\<close>

lemma bit_from_le_bytes:
  "length bs \<le> 8 \<Longrightarrow> bit (from_le_bytes bs) n \<longleftrightarrow> n < 8 * length bs \<and> bit (bs ! (n div 8)) (n mod 8)"
proof (induction bs arbitrary: n)
  case Nil
  then show ?case by simp
next
  case (Cons b bs)
  have low: "bit (ucast b :: u64) n \<longleftrightarrow> n < 8 \<and> bit b n"
    by (auto simp: bit_ucast_iff dest: bit_imp_le_length)
  have sum: "ucast b + push_bit 8 (from_le_bytes bs) = (ucast b OR push_bit 8 (from_le_bytes bs) :: u64)"
    by (rule disjunctive_add) (auto simp: bit_ucast_iff bit_push_bit_iff dest: bit_imp_le_length)
  have bits: "bit (from_le_bytes (b # bs)) n \<longleftrightarrow> n < 8 \<and> bit b n \<or> 8 \<le> n \<and> n < 64 \<and> bit (from_le_bytes bs) (n - 8)"
    unfolding from_le_bytes.simps sum bit_or_iff low by (simp add: bit_push_bit_iff)
  show ?case
  proof (cases "n < 8")
    case True
    then show ?thesis by (simp add: bits del: from_le_bytes.simps)
  next
    case False
    then have "n div 8 = Suc ((n - 8) div 8)" "n mod 8 = (n - 8) mod 8"
      by (simp_all add: le_div_geq le_mod_geq)
    then show ?thesis using False Cons.prems Cons.IH [of "n - 8"] by (auto simp: bits simp del: from_le_bytes.simps)
  qed
qed

lemma length_to_le_bytes [simp]: "length (to_le_bytes n) = 8"
  by (simp add: to_le_bytes_def)

lemma bit_to_le_bytes: "i < 8 \<Longrightarrow> bit (to_le_bytes n ! i) j \<longleftrightarrow> j < 8 \<and> bit n (8 * i + j)"
  by (auto simp: to_le_bytes_def bit_ucast_iff bit_drop_bit_eq dest: bit_imp_le_length)

lemma from_to_le_bytes [simp]: "from_le_bytes (to_le_bytes n) = n"
proof (rule bit_word_eqI)
  fix i assume "i < LENGTH(64)"
  then have "i div 8 < 8" by simp
  then show "bit (from_le_bytes (to_le_bytes n)) i = bit n i"
    using \<open>i < LENGTH(64)\<close> by (simp add: bit_from_le_bytes bit_to_le_bytes)
qed

lemma to_from_le_bytes: "length bs = 8 \<Longrightarrow> to_le_bytes (from_le_bytes bs) = bs"
proof (rule nth_equalityI)
  assume len: "length bs = 8"
  show "length (to_le_bytes (from_le_bytes bs)) = length bs" by (simp add: len)
  fix i assume "i < length (to_le_bytes (from_le_bytes bs))"
  then have i: "i < 8" by simp
  show "to_le_bytes (from_le_bytes bs) ! i = bs ! i"
  proof (rule bit_word_eqI)
    fix j assume "j < LENGTH(8)"
    then show "bit (to_le_bytes (from_le_bytes bs) ! i) j = bit (bs ! i) j"
      using i by (simp add: bit_to_le_bytes bit_from_le_bytes len)
  qed
qed

text \<open>
  The client is taken to be alive only if it echoes the bytes of the last ping: those bytes,
  and no others, clear the ping; any other pong is an error that ends the connection.
\<close>

theorem pong_must_echo_ping:
  "process_ws_message \<lparr>ping_timestamp = Some t\<rparr> (Pong bs) =
     (if bs = to_le_bytes t then (\<lparr>ping_timestamp = None\<rparr>, ContinueSession)
      else (\<lparr>ping_timestamp = Some t\<rparr>, SessionError (if length bs = 8 then ''Invalid pong data received''
                                                   else ''Failed to parse pong data'')))"
  by (auto simp: process_pong_data_def parse_pong_data_def to_from_le_bytes)

text \<open>
  A connection whose client does not answer a ping ends at the second silence in a row at the
  latest, whatever text it sends in between: text does not stand for the missing pong.
\<close>

theorem unanswered_ping_ends_connection:
  assumes "\<forall>e\<in>set evs. \<exists>t. e = (True, FromClient (TextMessage t)) \<or> e = (True, FromServer t)"
  shows "snd (snd (run_connection I sid \<lparr>ping_timestamp = Some t0\<rparr> st (evs @ [(up, TimedOut now)])))"
  using assms
proof (induction evs arbitrary: st)
  case Nil
  then show ?case by (simp add: process_timeout_def)
next
  case (Cons e evs)
  from Cons.prems obtain t where "e = (True, FromClient (TextMessage t)) \<or> e = (True, FromServer t)" by auto
  moreover have "snd (snd (run_connection I sid \<lparr>ping_timestamp = Some t0\<rparr> st' (evs @ [(up, TimedOut now)])))" for st'
    using Cons by simp
  ultimately show ?case
    by (auto simp: split_beta)
qed

theorem unanswered_ping_ends_connection_witness:
  "snd (snd (run_connection (\<lambda>m sid p. (p, Inr m)) ''S-1'' \<lparr>ping_timestamp = Some 7\<rparr> (server_state_new ())
     ([(True, FromClient (TextMessage ''A''))] @ [(True, TimedOut 9)])))"
  by (rule unanswered_ping_ends_connection) simp

section \<open>Names of sessions\<close>

text \<open>What drives the server, over any plugin: connections, their ends, messages both ways.\<close>

datatype 'q server_op = Connect | Disconnect session_id | Receive string session_id | Respond 'q

fun server_step ::
  "(string \<Rightarrow> session_id \<Rightarrow> 'p \<Rightarrow> 'p \<times> string result) \<Rightarrow> (session_id \<Rightarrow> 'p \<Rightarrow> 'p \<times> unit result) \<Rightarrow>
     (session_id \<Rightarrow> 'p \<Rightarrow> 'p \<times> unit result) \<Rightarrow> ('q \<Rightarrow> 'p \<Rightarrow> 'p \<times> (session_id \<times> string) list result) \<Rightarrow>
     'p server_state \<Rightarrow> 'q server_op \<Rightarrow> 'p server_state \<times> session_id list" where
  "server_step I C X Q st Connect =
     (case server_create_session C st of (st', Inr sid) \<Rightarrow> (st', [sid]) | (st', Inl _) \<Rightarrow> (st', []))"
| "server_step I C X Q st (Disconnect sid) = (fst (close_session X st sid), [])"
| "server_step I C X Q st (Receive m sid) = (fst (server_process_incoming I st m sid), [])"
| "server_step I C X Q st (Respond q) = (fst (server_process_outgoing Q st q), [])"

fun server_run ::
  "(string \<Rightarrow> session_id \<Rightarrow> 'p \<Rightarrow> 'p \<times> string result) \<Rightarrow> (session_id \<Rightarrow> 'p \<Rightarrow> 'p \<times> unit result) \<Rightarrow>
     (session_id \<Rightarrow> 'p \<Rightarrow> 'p \<times> unit result) \<Rightarrow> ('q \<Rightarrow> 'p \<Rightarrow> 'p \<times> (session_id \<times> string) list result) \<Rightarrow>
     'p server_state \<Rightarrow> 'q server_op list \<Rightarrow> 'p server_state \<times> session_id list" where
  "server_run I C X Q st [] = (st, [])"
| "server_run I C X Q st (op # ops) =
     (case server_step I C X Q st op of
        (st', ids) \<Rightarrow> (case server_run I C X Q st' ops of (st'', ids') \<Rightarrow> (st'', ids @ ids')))"

definition session_name :: "nat \<Rightarrow> session_id" where
  "session_name n = ''S-'' @ show_nat n"

lemma session_name_inject: "session_name m = session_name n \<longleftrightarrow> m = n"
  using show_nat_inject by (auto simp: session_name_def)

lemma send_to_session_counter: "session_id_counter (fst (send_to_session st to)) = session_id_counter st"
  by (simp add: send_to_session_def split_beta split: option.splits)

lemma send_each_counter: "session_id_counter (fst (send_each st tos)) = session_id_counter st"
  by (induction tos arbitrary: st) (simp_all add: split_beta send_to_session_counter)

lemma server_step_names:
  assumes "server_step I C X Q st op = (st', ids)" and "session_id_counter st + 1 < 2 ^ 64"
  shows "session_id_counter st' = session_id_counter st \<and> ids = [] \<or>
    session_id_counter st' = session_id_counter st + 1 \<and> (ids = [] \<or> ids = [session_name (session_id_counter st + 1)])"
proof (cases op)
  case Connect
  then show ?thesis using assms
    by (auto simp: server_create_session_def gen_next_session_id_def session_name_def usize_add_def Let_def rbind_def
        split: prod.splits option.splits sum.splits)
next
  case (Respond q)
  obtain p r where q: "Q q (srv_plugin st) = (p, r)" by fastforce
  have "session_id_counter (fst (server_process_outgoing Q st q)) = session_id_counter st"
    by (cases r) (simp_all add: server_process_outgoing_def q split_beta send_each_counter)
  then show ?thesis using assms Respond by auto
qed (use assms in \<open>auto simp: close_session_def server_process_incoming_def split: prod.splits option.splits sum.splits\<close>)

text \<open>
  However connections come and go, whatever is received and sent and however the plugin answers,
  no two connections of a server are given the same session: the session's name is that of one
  connection for as long as the server runs.
\<close>

theorem session_names_distinct:
  assumes "session_id_counter st + length ops < 2 ^ 64"
  shows "distinct (snd (server_run I C X Q st ops)) \<and>
    set (snd (server_run I C X Q st ops)) \<subseteq> session_name ` {session_id_counter st <.. session_id_counter st + length ops}"
  using assms
proof (induction ops arbitrary: st)
  case Nil
  then show ?case by simp
next
  case (Cons op ops)
  obtain st' ids where st': "server_step I C X Q st op = (st', ids)" by fastforce
  let ?k = "session_id_counter st" and ?rest = "snd (server_run I C X Q st' ops)"
  have names: "session_id_counter st' = ?k \<and> ids = [] \<or>
      session_id_counter st' = ?k + 1 \<and> (ids = [] \<or> ids = [session_name (?k + 1)])"
    using server_step_names [OF st'] Cons.prems by simp
  then have "session_id_counter st' + length ops < 2 ^ 64" using Cons.prems by auto
  then have IH: "distinct ?rest" "set ?rest \<subseteq> session_name ` {session_id_counter st' <.. session_id_counter st' + length ops}"
    using Cons.IH by blast+
  have run: "snd (server_run I C X Q st (op # ops)) = ids @ ?rest" by (simp add: st' split_beta)
  have sub: "set ?rest \<subseteq> session_name ` {?k <.. ?k + length (op # ops)}"
    using names IH(2) by fastforce
  show ?case
  proof (cases "ids = []")
    case True
    with IH(1) sub show ?thesis unfolding run by simp
  next
    case False
    with names have ids: "ids = [session_name (?k + 1)]" "session_id_counter st' = ?k + 1" by auto
    have "session_name (?k + 1) \<notin> set ?rest" using IH(2) ids(2) by (auto simp: session_name_inject dest!: subsetD)
    with ids(1) IH(1) sub show ?thesis unfolding run by auto
  qed
qed

theorem session_names_distinct_witness:
  "distinct (snd (server_run (\<lambda>m sid p. (p, Inr m)) (\<lambda>sid p. (p, Inr ())) (\<lambda>sid p. (p, Inr ())) (\<lambda>q p. (p, Inr q))
     (server_state_new ()) [Connect, Connect, Disconnect (session_name 1), Connect, Respond [(session_name 3, ''A'')]]))"
  using session_names_distinct [of "server_state_new ()"
      "[Connect, Connect, Disconnect (session_name 1), Connect, Respond [(session_name 3, ''A'')]]"
      "\<lambda>m sid p. (p, Inr m)" "\<lambda>sid p. (p, Inr ())" "\<lambda>sid p. (p, Inr ())" "\<lambda>q p. (p, Inr q)"]
  by (simp add: server_state_new_def)

end
