(* ===== verification/FixMessages.thy ===== *)
theory FixMessages
  imports FixSessions Server
begin

text \<open>
  The messages of the FIX server: \<open>src/server/fix/messages.rs\<close>, requests with their signatures
  (\<open>requests.rs\<close>) and responses (\<open>responses.rs\<close>).

  JSON and cryptography are libraries and so parameters: \<open>json_reader\<close> yields the fields of an
  object in their order and reads values, \<open>crypto\<close> holds the hashes, the hexadecimal code and the
  keys and signatures the code calls. Text and byte strings are lists.
\<close>

section \<open>Messages\<close>

type_synonym bytes = "8 word list"

record fix_header =
  hd_msg_type :: string
  sender_comp_id :: string
  target_comp_id :: string
  hd_seq_num :: u32
  hd_timestamp :: timestamp

definition fix_header_new :: "string \<Rightarrow> timestamp \<Rightarrow> fix_header" where
  "fix_header_new t now = \<lparr>hd_msg_type = t, sender_comp_id = [], target_comp_id = [], hd_seq_num = 0,
     hd_timestamp = now\<rparr>"

record fix_trailer =
  public_keys :: "string list"
  signatures :: "string list"

definition fix_trailer_new :: fix_trailer where
  "fix_trailer_new = \<lparr>public_keys = [], signatures = []\<rparr>"

text \<open>Client order or quote id, symbol, and where there are ones side and amount.\<close>

datatype request_body =
    NewIndexOrderBody string string string string
  | CancelIndexOrderBody string string string
  | NewQuoteRequestBody string string string string
  | CancelQuoteRequestBody string string
  | AccountToCustodyBody
  | CustodyToAccountBody

record mint_invoice_body =
  mb_client_order_id :: string
  mb_payment_id :: string
  mb_seq_num :: string
  mb_symbol :: string
  mb_filled_quantity :: string
  mb_total_amount :: string
  mb_amount_paid :: string
  mb_amount_remaining :: string
  mb_management_fee :: string
  mb_assets_value :: string
  mb_exchange_fee :: string
  mb_fill_rate :: string
  mb_lots :: "solver_order_asset_lot list"
  mb_position :: collateral_position
  mb_timestamp :: timestamp

text \<open>Status, client order or quote id and reason; a fill then has its amounts and the status.\<close>

datatype response_body =
    ACKBody u32
  | NAKBody u32 string
  | NewOrderBody string string
  | NewOrderFailBody string string string
  | IndexQuoteRequestBody string string
  | IndexQuoteRequestFailBody string string string
  | IndexOrderFillBody string string string string string string
  | IndexQuoteBody string string
  | MintInvoiceBody mint_invoice_body
  | AccountToCustodyResponse
  | CustodyToAccountResponse

record fix_request =
  rq_session_id :: session_id
  rq_header :: fix_header
  rq_chain_id :: u32
  rq_address :: address
  rq_body :: request_body
  rq_trailer :: "fix_trailer option"

record fix_response =
  rs_session_id :: session_id
  rs_header :: fix_header
  rs_chain_id :: u32
  rs_address :: address
  rs_body :: response_body
  rs_trailer :: fix_trailer

definition request_user_id :: "fix_request \<Rightarrow> user_id" where
  "request_user_id r = (rq_chain_id r, rq_address r)"

definition request_rate_limit_key :: "fix_request \<Rightarrow> rate_limit_key" where
  "request_rate_limit_key r = UserKey (rq_chain_id r) (rq_address r)"

definition request_message_weight :: "fix_request \<Rightarrow> nat" where
  "request_message_weight r =
     (let t = hd_msg_type (rq_header r)
      in if t = ''NewIndexOrder'' then 10
         else if t = ''CancelIndexOrder'' then 5
         else if t = ''NewQuoteRequest'' then 5
         else if t = ''CancelQuoteRequest'' then 3
         else 1)"

definition request_message_type :: "fix_request \<Rightarrow> message_type" where
  "request_message_type r =
     (let t = hd_msg_type (rq_header r)
      in if t = ''NewIndexOrder'' \<or> t = ''CancelIndexOrder'' then OrderMessage
         else if t = ''NewQuoteRequest'' \<or> t = ''CancelQuoteRequest'' then QuoteMessage
         else Administrative)"

definition create_nak :: "user_id \<Rightarrow> session_id \<Rightarrow> u32 \<Rightarrow> string \<Rightarrow> timestamp \<Rightarrow> fix_response" where
  "create_nak uid sid n reason now = \<lparr>rs_session_id = sid, rs_header = fix_header_new ''NAK'' now,
     rs_chain_id = fst uid, rs_address = snd uid, rs_body = NAKBody n reason, rs_trailer = fix_trailer_new\<rparr>"

definition create_ack :: "user_id \<Rightarrow> session_id \<Rightarrow> u32 \<Rightarrow> timestamp \<Rightarrow> fix_response" where
  "create_ack uid sid n now = \<lparr>rs_session_id = sid, rs_header = fix_header_new ''ACK'' now,
     rs_chain_id = fst uid, rs_address = snd uid, rs_body = ACKBody n, rs_trailer = fix_trailer_new\<rparr>"

definition response_user_id :: "fix_response \<Rightarrow> user_id" where
  "response_user_id r = (rs_chain_id r, rs_address r)"

fun response_message_weight :: "response_body \<Rightarrow> nat" where
  "response_message_weight (NewOrderBody _ _) = 5"
| "response_message_weight (NewOrderFailBody _ _ _) = 5"
| "response_message_weight (IndexOrderFillBody _ _ _ _ _ _) = 5"
| "response_message_weight (IndexQuoteRequestBody _ _) = 3"
| "response_message_weight (IndexQuoteRequestFailBody _ _ _) = 3"
| "response_message_weight (IndexQuoteBody _ _) = 3"
| "response_message_weight _ = 1"

fun response_message_type :: "response_body \<Rightarrow> message_type" where
  "response_message_type (NewOrderBody _ _) = OrderMessage"
| "response_message_type (NewOrderFailBody _ _ _) = OrderMessage"
| "response_message_type (IndexOrderFillBody _ _ _ _ _ _) = OrderMessage"
| "response_message_type (IndexQuoteRequestBody _ _) = QuoteMessage"
| "response_message_type (IndexQuoteRequestFailBody _ _ _) = QuoteMessage"
| "response_message_type (IndexQuoteBody _ _) = QuoteMessage"
| "response_message_type _ = Administrative"

section \<open>Reading a request\<close>

record 'v json_reader =
  js_object :: "string \<Rightarrow> (string \<times> 'v) list result"
  js_header :: "'v \<Rightarrow> fix_header result"
  js_u32 :: "'v \<Rightarrow> u32 result"
  js_address :: "'v \<Rightarrow> address result"
  js_trailer :: "'v \<Rightarrow> fix_trailer result"
  js_string :: "'v \<Rightarrow> string option"
  js_body :: "(string \<times> 'v) list \<Rightarrow> request_body result"

record 'v visited =
  v_header :: "fix_header option"
  v_chain_id :: "u32 option"
  v_address :: "address option"
  v_trailer :: "fix_trailer option"
  v_body_fields :: "(string \<times> 'v) list"

fun visit_fields :: "'v json_reader \<Rightarrow> 'v visited \<Rightarrow> (string \<times> 'v) list \<Rightarrow> 'v visited result" where
  "visit_fields J a [] = Inr a"
| "visit_fields J a ((k, v) # members) =
     rbind (if k = ''standard_header'' then rbind (js_header J v) (\<lambda>x. Inr (a\<lparr>v_header := Some x\<rparr>))
            else if k = ''chain_id'' then rbind (js_u32 J v) (\<lambda>x. Inr (a\<lparr>v_chain_id := Some x\<rparr>))
            else if k = ''address'' then rbind (js_address J v) (\<lambda>x. Inr (a\<lparr>v_address := Some x\<rparr>))
            else if k = ''standard_trailer'' then rbind (js_trailer J v) (\<lambda>x. Inr (a\<lparr>v_trailer := Some x\<rparr>))
            else Inr (a\<lparr>v_body_fields := put_assoc k v (v_body_fields a)\<rparr>))
       (\<lambda>a'. visit_fields J a' members)"

definition body_field :: "'v json_reader \<Rightarrow> (string \<times> 'v) list \<Rightarrow> string \<Rightarrow> string result" where
  "body_field J members k = ok_or (Option.bind (map_of members k) (js_string J)) (''missing field '' @ k)"

definition body_of :: "'v json_reader \<Rightarrow> string \<Rightarrow> (string \<times> 'v) list \<Rightarrow> request_body result" where
  "body_of J t members =
     (let field = body_field J members
      in if t = ''NewIndexOrder'' then
           rbind (field ''client_order_id'') (\<lambda>i. rbind (field ''symbol'') (\<lambda>s.
           rbind (field ''side'') (\<lambda>d. rbind (field ''amount'') (\<lambda>a. Inr (NewIndexOrderBody i s d a)))))
         else if t = ''CancelIndexOrder'' then
           rbind (field ''client_order_id'') (\<lambda>i. rbind (field ''symbol'') (\<lambda>s.
           rbind (field ''amount'') (\<lambda>a. Inr (CancelIndexOrderBody i s a))))
         else if t = ''NewQuoteRequest'' then
           rbind (field ''client_quote_id'') (\<lambda>i. rbind (field ''symbol'') (\<lambda>s.
           rbind (field ''side'') (\<lambda>d. rbind (field ''amount'') (\<lambda>a. Inr (NewQuoteRequestBody i s d a)))))
         else if t = ''CancelQuoteRequest'' then
           rbind (field ''client_quote_id'') (\<lambda>i. rbind (field ''symbol'') (\<lambda>s. Inr (CancelQuoteRequestBody i s)))
         else if t = ''AccountToCustody'' \<or> t = ''CustodyToAccount'' then js_body J members
         else Inl ''Unknown message type'')"

definition visit_map :: "'v json_reader \<Rightarrow> (string \<times> 'v) list \<Rightarrow> fix_request result" where
  "visit_map J members =
     rbind (visit_fields J \<lparr>v_header = None, v_chain_id = None, v_address = None, v_trailer = None,
              v_body_fields = []\<rparr> members) (\<lambda>a.
     rbind (ok_or (v_header a) ''missing field standard_header'') (\<lambda>h.
     rbind (ok_or (v_chain_id a) ''missing field chain_id'') (\<lambda>c.
     rbind (ok_or (v_address a) ''missing field address'') (\<lambda>addr.
     rbind (body_of J (hd_msg_type h) (v_body_fields a)) (\<lambda>b.
       Inr \<lparr>rq_session_id = ''S-1'', rq_header = h, rq_chain_id = c, rq_address = addr, rq_body = b,
            rq_trailer = v_trailer a\<rparr>)))))"

definition deserialize_from_fix :: "'v json_reader \<Rightarrow> string \<Rightarrow> session_id \<Rightarrow> fix_request result" where
  "deserialize_from_fix J message sid =
     (case rbind (js_object J message) (visit_map J) of
        Inl e \<Rightarrow> Inl (''Failed to deserialize FixMessage into FixRequest: '' @ e)
      | Inr r \<Rightarrow> Inr (r\<lparr>rq_session_id := sid\<rparr>))"

section \<open>Signatures\<close>

record ('sig, 'key) crypto =
  hex_decode :: "string \<Rightarrow> bytes result"
  keccak256 :: "bytes \<Rightarrow> bytes"
  hash_message :: "string \<Rightarrow> bytes"
  read_signature :: "bytes \<Rightarrow> 'sig result"
  normalize_s :: "'sig \<Rightarrow> 'sig option"
  read_key :: "bytes \<Rightarrow> 'key result"
  verify_prehash :: "'key \<Rightarrow> bytes \<Rightarrow> 'sig \<Rightarrow> bool"

text \<open>\<open>trim_start_matches("0x")\<close> takes off every leading \<open>0x\<close>.\<close>

function trim_0x :: "string \<Rightarrow> string" where
  "trim_0x s = (if take 2 s = ''0x'' then trim_0x (drop 2 s) else s)"
  by auto
termination by (relation "measure length") (auto dest: arg_cong [where f = length])

declare trim_0x.simps [simp del]

text \<open>The big-endian bytes of an address.\<close>

definition address_bytes :: "address \<Rightarrow> bytes" where
  "address_bytes a = map (\<lambda>i. ucast (drop_bit (8 * (19 - i)) a)) [0..<20]"

text \<open>The text that is signed: the type of the message and the id of its order or quote.\<close>

definition signable :: "string \<Rightarrow> string \<Rightarrow> string" where
  "signable t i = CHR ''{'' # CHR 0x22 # ''msg_type'' @ CHR 0x22 # CHR '':'' # CHR 0x22 # t @ CHR 0x22 # CHR '','' #
     CHR 0x22 # ''id'' @ CHR 0x22 # CHR '':'' # CHR 0x22 # i @ [CHR 0x22, CHR ''}'']"

fun signed_id :: "request_body \<Rightarrow> string result" where
  "signed_id (NewIndexOrderBody i _ _ _) = Inr i"
| "signed_id (CancelIndexOrderBody i _ _) = Inr i"
| "signed_id (NewQuoteRequestBody i _ _ _) = Inr i"
| "signed_id (CancelQuoteRequestBody i _) = Inr i"
| "signed_id _ = Inl ''Unsupported msg_type''"

definition first_of :: "string list \<Rightarrow> report \<Rightarrow> string result" where
  "first_of xs e = (case xs of [] \<Rightarrow> Inl e | x # _ \<Rightarrow> Inr (trim_0x x))"

text \<open>A signature of 65 bytes has its last byte dropped.\<close>

definition signature_bytes :: "bytes \<Rightarrow> bytes result" where
  "signature_bytes bs =
     (let bs' = (if length bs = 65 then take 64 bs else bs)
      in if length bs' \<noteq> 64 then Inl ''Signature must be 64 or 65 bytes'' else Inr bs')"

definition verify_signature :: "('sig, 'key) crypto \<Rightarrow> fix_request \<Rightarrow> unit result" where
  "verify_signature C r =
     (let t = hd_msg_type (rq_header r)
      in if contains t ''Quote'' then Inr ()
         else
           rbind (ok_or (rq_trailer r) ''Missing trailer'') (\<lambda>trailer.
           rbind (first_of (public_keys trailer) ''Missing public key'') (\<lambda>pub_key_hex.
           rbind (first_of (signatures trailer) ''Missing signature'') (\<lambda>sig_hex.
           rbind (hex_decode C pub_key_hex) (\<lambda>pub_key_bytes.
             if length pub_key_bytes \<noteq> 65 \<or> pub_key_bytes ! 0 \<noteq> 4
             then Inl ''Invalid uncompressed SEC1 public key format''
             else if drop 12 (keccak256 C (drop 1 pub_key_bytes)) \<noteq> address_bytes (rq_address r)
             then Inl ''Invalid address (pubkey does not match address field)''
             else
               rbind (signed_id (rq_body r)) (\<lambda>i.
               rbind (rbind (hex_decode C sig_hex) signature_bytes) (\<lambda>sig_bytes.
               rbind (read_signature C sig_bytes) (\<lambda>signature.
               rbind (read_key C pub_key_bytes) (\<lambda>key.
                 if verify_prehash C key (hash_message C (signable t i))
                      (case normalize_s C signature of None \<Rightarrow> signature | Some s \<Rightarrow> s)
                 then Inr () else Inl ''Signature verification failed'')))))))))"

text \<open>
  C19: A request that is not a quote is authorised only by its owner: the first key of its trailer
  hashes to the request's address and verifies the first signature over the message's type and id.
\<close>

theorem authorised_request_is_signed:
  assumes "verify_signature C r = Inr ()" and "\<not> contains (hd_msg_type (rq_header r)) ''Quote''"
  shows "\<exists>trailer key_bytes key sig_bytes signature i.
    rq_trailer r = Some trailer \<and>
    hex_decode C (trim_0x (hd (public_keys trailer))) = Inr key_bytes \<and> length key_bytes = 65 \<and>
    drop 12 (keccak256 C (drop 1 key_bytes)) = address_bytes (rq_address r) \<and>
    read_key C key_bytes = Inr key \<and>
    rbind (hex_decode C (trim_0x (hd (signatures trailer)))) signature_bytes = Inr sig_bytes \<and>
    read_signature C sig_bytes = Inr signature \<and> signed_id (rq_body r) = Inr i \<and>
    verify_prehash C key (hash_message C (signable (hd_msg_type (rq_header r)) i))
      (case normalize_s C signature of None \<Rightarrow> signature | Some s \<Rightarrow> s)"
  using assms
  by (auto simp: verify_signature_def first_of_def result_simps Let_def split: if_splits list.splits)

text \<open>A signed order for the witness, under hashes and codes that know one key and one signature.\<close>

definition sample_crypto :: "(unit, unit) crypto" where
  "sample_crypto = \<lparr>hex_decode = (\<lambda>s. Inr (if s = ''key'' then 4 # replicate 64 0 else replicate 65 1)),
     keccak256 = (\<lambda>_. replicate 12 0 @ address_bytes 7), hash_message = (\<lambda>_. []), read_signature = (\<lambda>_. Inr ()),
     normalize_s = (\<lambda>_. None), read_key = (\<lambda>_. Inr ()), verify_prehash = (\<lambda>_ _ _. True)\<rparr>"

definition signed_order :: fix_request where
  "signed_order = \<lparr>rq_session_id = ''S-1'', rq_header = fix_header_new ''NewIndexOrder'' 0, rq_chain_id = 1, rq_address = 7,
     rq_body = NewIndexOrderBody ''O-1'' ''I'' ''Buy'' ''1'',
     rq_trailer = Some \<lparr>public_keys = [''0xkey''], signatures = [''0xsig'']\<rparr>\<rparr>"

lemma trim_sample: "trim_0x ''0xkey'' = ''key''" "trim_0x ''0xsig'' = ''sig''" "trim_0x ''key'' = ''key''" "trim_0x ''sig'' = ''sig''"
  by (simp_all add: trim_0x.simps)

lemma sample_is_authorised: "verify_signature sample_crypto signed_order = Inr ()"
  by (simp add: verify_signature_def signed_order_def sample_crypto_def fix_header_new_def first_of_def trim_sample
      ok_or_def rbind_def signature_bytes_def Let_def)

theorem authorised_request_is_signed_witness:
  "\<exists>trailer key_bytes. rq_trailer signed_order = Some trailer \<and>
    hex_decode sample_crypto (trim_0x (hd (public_keys trailer))) = Inr key_bytes \<and>
    drop 12 (keccak256 sample_crypto (drop 1 key_bytes)) = address_bytes (rq_address signed_order)"
  using authorised_request_is_signed [OF sample_is_authorised] by (auto simp: signed_order_def fix_header_new_def)

text \<open>
  What is signed is the type of the message and the id of the order alone: the same signature
  authorises the same id for any symbol, side and amount, on any chain, with any sequence number
  and any time.
\<close>

theorem signature_leaves_the_order_open:
  "verify_signature C (r\<lparr>rq_body := NewIndexOrderBody i s' d' a', rq_chain_id := c',
      rq_header := (rq_header r)\<lparr>hd_seq_num := n', hd_timestamp := t'\<rparr>\<rparr>) =
   verify_signature C (r\<lparr>rq_body := NewIndexOrderBody i s d a\<rparr>)"
  by (simp add: verify_signature_def Let_def cong: if_cong)

text \<open>
  A transfer to or from custody is never authorised, whoever signs it: there is no id to sign.
\<close>

theorem custody_is_never_authorised:
  assumes "rq_body r = AccountToCustodyBody \<or> rq_body r = CustodyToAccountBody"
    and "\<not> contains (hd_msg_type (rq_header r)) ''Quote''"
  shows "\<exists>e. verify_signature C r = Inl e"
proof (rule ccontr)
  assume "\<not> ?thesis"
  then have "verify_signature C r = Inr ()" by (cases "verify_signature C r") auto
  then show False using assms by (auto simp: verify_signature_def result_simps Let_def split: if_splits)
qed

end
