(* ===== verification/FixServer.thy ===== *)
theory FixServer
  imports FixMessages "HOL-Library.Sublist"
begin

text \<open>
  The plugin of the FIX server, \<open>src/server/fix/server_plugin.rs\<close>: what becomes of a message, from
  the limits over its signature and sequence number to the event the managers see, and how a
  response of the managers reaches the sessions of its user.

  \<open>fix_env\<close> is what a call finds: the clock at its several readings, the JSON reader and writer, the
  cryptography, the private key of the environment, the parser of decimals, and the texts of
  amounts, reasons and rate limit errors. The lock of the comp ids is always free, so that
  looking them up does not fail.
\<close>

section \<open>State and environment\<close>

record 'sk signer =
  server_private_key :: "string option"
  read_signing_key :: "bytes \<Rightarrow> 'sk result"
  sign_digest :: "'sk \<Rightarrow> string \<Rightarrow> bytes"
  encoded_point :: "'sk \<Rightarrow> bytes"
  hex_encode :: "bytes \<Rightarrow> string"

record display =
  show_amount :: "amount \<Rightarrow> string"
  show_u256 :: "u256 \<Rightarrow> string"
  show_new_order_reason :: "new_index_order_nak_reason server_response_reason \<Rightarrow> string"
  show_cancel_order_reason :: "cancel_index_order_nak_reason server_response_reason \<Rightarrow> string"
  show_new_quote_reason :: "new_index_quote_nak_reason server_response_reason \<Rightarrow> string"
  show_cancel_quote_reason :: "cancel_index_quote_nak_reason server_response_reason \<Rightarrow> string"
  show_rate_limit_error :: "rate_limit_error \<Rightarrow> string"

record ('v, 'sig, 'key, 'sk) fix_env =
  clock :: "nat \<Rightarrow> timestamp"
  reader :: "'v json_reader"
  serialize :: "fix_response \<Rightarrow> string result"
  crypt :: "('sig, 'key) crypto"
  signing :: "'sk signer"
  parse_amount :: "string \<Rightarrow> amount result"
  texts :: display

record fix_plugin =
  published :: "server_event list"
  seq_nums :: seq_num_plugin
  user_sessions :: user_plugin
  rate_limits :: rate_limit_plugin
  session_comp_ids :: "(session_id \<times> string \<times> string) list"

definition fix_plugin_new :: "fix_rate_limit_config \<Rightarrow> fix_plugin" where
  "fix_plugin_new cfg = \<lparr>published = [], seq_nums = seq_num_plugin_new, user_sessions = user_plugin_new,
     rate_limits = rate_limit_plugin_new (base_config cfg), session_comp_ids = []\<rparr>"

definition remember_comp_ids :: "fix_plugin \<Rightarrow> session_id \<Rightarrow> string \<Rightarrow> string \<Rightarrow> fix_plugin" where
  "remember_comp_ids p sid sender target =
     p\<lparr>session_comp_ids := put_assoc sid (sender, target) (session_comp_ids p)\<rparr>"

definition apply_swapped_comp_ids :: "fix_plugin \<Rightarrow> session_id \<Rightarrow> fix_header \<Rightarrow> fix_header" where
  "apply_swapped_comp_ids p sid h =
     (case map_of (session_comp_ids p) sid of
        Some (sender, target) \<Rightarrow> h\<lparr>sender_comp_id := sender, target_comp_id := target\<rparr>
      | None \<Rightarrow> h\<lparr>sender_comp_id := ''SERVER'', target_comp_id := ''CLIENT''\<rparr>)"

section \<open>Answers\<close>

text \<open>A response gets the session's next sequence number and comp ids and is written.\<close>

definition finish_response ::
  "('v, 'sig, 'key, 'sk) fix_env \<Rightarrow> fix_plugin \<Rightarrow> session_id \<Rightarrow> fix_response \<Rightarrow> fix_plugin \<times> string result" where
  "finish_response E p sid r =
     (case next_seq_num (seq_nums p) sid of
        (q, n) \<Rightarrow>
          (p\<lparr>seq_nums := q\<rparr>,
           serialize E (r\<lparr>rs_header := apply_swapped_comp_ids p sid ((rs_header r)\<lparr>hd_seq_num := n\<rparr>)\<rparr>)))"

definition process_error ::
  "('v, 'sig, 'key, 'sk) fix_env \<Rightarrow> fix_plugin \<Rightarrow> user_id \<Rightarrow> string \<Rightarrow> session_id \<Rightarrow> fix_plugin \<times> string result" where
  "process_error E p uid msg sid =
     finish_response E p sid (create_nak uid sid (last_received_seq_num (seq_nums p) sid) msg (clock E 3))"

definition handle_rate_limit_violation ::
  "('v, 'sig, 'key, 'sk) fix_env \<Rightarrow> fix_plugin \<Rightarrow> rate_limit_error \<Rightarrow> session_id \<Rightarrow> fix_plugin \<times> string result" where
  "handle_rate_limit_violation E p e sid =
     finish_response E p sid (create_nak (0, 0) sid (last_received_seq_num (seq_nums p) sid)
       (''Rate limit exceeded: '' @ show_rate_limit_error (texts E) e) (clock E 3))"

definition process_ack ::
  "('v, 'sig, 'key, 'sk) fix_env \<Rightarrow> fix_plugin \<Rightarrow> user_id \<Rightarrow> session_id \<Rightarrow> fix_plugin \<times> string result" where
  "process_ack E p uid sid =
     finish_response E p sid (create_ack uid sid (last_received_seq_num (seq_nums p) sid) (clock E 3))"

section \<open>Requests\<close>

definition with_context :: "report \<Rightarrow> 'a result \<Rightarrow> 'a result" where
  "with_context e r = (case r of Inl _ \<Rightarrow> Inl e | Inr x \<Rightarrow> Inr x)"

definition fix_request_to_server_event ::
  "('v, 'sig, 'key, 'sk) fix_env \<Rightarrow> fix_request \<Rightarrow> server_event result" where
  "fix_request_to_server_event E r =
     (let now = clock E 2;
          t = hd_msg_type (rq_header r);
          side_of = (\<lambda>d. with_context ''Failed to parse side'' (side_from_str d));
          amount_of = (\<lambda>a. with_context ''Failed to parse amount'' (parse_amount E a))
      in if seconds 60 < \<bar>now - hd_timestamp (rq_header r)\<bar> then Inl ''Timestamp too far off''
         else if t = ''NewIndexOrder'' then
           (case rq_body r of
              NewIndexOrderBody i s d a \<Rightarrow>
                rbind (side_of d) (\<lambda>side. rbind (amount_of a) (\<lambda>amount.
                  Inr (EvNewIndexOrder (rq_chain_id r) (rq_address r) i s side amount now)))
            | _ \<Rightarrow> Inl ''Invalid body for NewIndexOrder message type'')
         else if t = ''CancelIndexOrder'' then
           (case rq_body r of
              CancelIndexOrderBody i s a \<Rightarrow>
                rbind (amount_of a) (\<lambda>amount.
                  Inr (EvCancelIndexOrder (rq_chain_id r) (rq_address r) i s amount now))
            | _ \<Rightarrow> Inl ''Invalid body for CancelIndexOrder message type'')
         else if t = ''NewQuoteRequest'' then
           (case rq_body r of
              NewQuoteRequestBody i s d a \<Rightarrow>
                rbind (side_of d) (\<lambda>side. rbind (amount_of a) (\<lambda>amount.
                  Inr (EvNewQuoteRequest (rq_chain_id r) (rq_address r) i s side amount now)))
            | _ \<Rightarrow> Inl ''Invalid body for NewQuoteRequest message type'')
         else if t = ''CancelQuoteRequest'' then
           (case rq_body r of
              CancelQuoteRequestBody i s \<Rightarrow>
                Inr (EvCancelQuoteRequest (rq_chain_id r) (rq_address r) i s now)
            | _ \<Rightarrow> Inl ''Invalid body for CancelQuoteRequest message type'')
         else if t = ''AccountToCustody'' then
           (case rq_body r of
              AccountToCustodyBody \<Rightarrow> Inr EvAccountToCustody
            | _ \<Rightarrow> Inl ''Invalid body for AccountToCustody message type'')
         else if t = ''CustodyToAccount'' then
           (case rq_body r of
              CustodyToAccountBody \<Rightarrow> Inr EvCustodyToAccount
            | _ \<Rightarrow> Inl ''Invalid body for CustodyToAccount message type'')
         else Inl ''Unsupported message type for ServerEvent conversion'')"

text \<open>
  The request in sequence: its event is published after the acknowledgement is made, whether or not
  that can be written. An error's own answer is the text of the error.
\<close>

definition accept_request ::
  "('v, 'sig, 'key, 'sk) fix_env \<Rightarrow> fix_plugin \<Rightarrow> fix_request \<Rightarrow> session_id \<Rightarrow> fix_plugin \<times> string result" where
  "accept_request E p r sid =
     (case fix_request_to_server_event E r of
        Inl e \<Rightarrow>
          (case process_error E p (request_user_id r) e sid of
             (p', Inr m) \<Rightarrow> (p', Inl m)
           | (p', Inl _) \<Rightarrow> (p', Inl ''Failed to process error''))
      | Inr ev \<Rightarrow>
          (case process_ack E p (request_user_id r) sid of
             (p', a) \<Rightarrow>
               (p'\<lparr>published := published p' @ [ev]\<rparr>,
                case a of Inl e \<Rightarrow> Inl (''Process ACK failed: '' @ e) | Inr m \<Rightarrow> Inr m)))"

definition check_sequence ::
  "('v, 'sig, 'key, 'sk) fix_env \<Rightarrow> fix_plugin \<Rightarrow> fix_request \<Rightarrow> session_id \<Rightarrow> fix_plugin \<times> string result" where
  "check_sequence E p r sid =
     (let n = hd_seq_num (rq_header r)
      in case valid_seq_num (seq_nums p) n sid of
           (q, True) \<Rightarrow> accept_request E (p\<lparr>seq_nums := q\<rparr>) r sid
         | (q, False) \<Rightarrow>
             (case process_error E (p\<lparr>seq_nums := q\<rparr>) (request_user_id r)
                     (''Invalid sequence number: '' @ show_nat (unat n) @ ''; Last valid: '' @
                      show_nat (unat (last_received_seq_num q sid))) sid of
                (p', Inl e) \<Rightarrow> (p', Inl e)
              | (p', Inr m) \<Rightarrow> (p', Inl m)))"

definition process_request ::
  "('v, 'sig, 'key, 'sk) fix_env \<Rightarrow> fix_plugin \<Rightarrow> fix_request \<Rightarrow> session_id \<Rightarrow> fix_plugin \<times> string result" where
  "process_request E p r sid =
     (let uid = request_user_id r;
          remember = (\<lambda>p. remember_comp_ids p sid (sender_comp_id (rq_header r)) (target_comp_id (rq_header r)));
          p1 = remember p
      in case verify_signature (crypt E) r of
           Inl _ \<Rightarrow>
             finish_response E p1 sid (create_nak uid sid (hd_seq_num (rq_header r)) ''Not authorised'' (clock E 3))
         | Inr _ \<Rightarrow>
             let p2 = remember (p1\<lparr>user_sessions := add_user_session (user_sessions p1) uid sid\<rparr>)
             in case consume_message_weight (rate_limits p2) (request_message_type r) uid (clock E 1) of
                  (l, Inl e) \<Rightarrow> handle_rate_limit_violation E (p2\<lparr>rate_limits := l\<rparr>) e sid
                | (l, Inr _) \<Rightarrow> check_sequence E (p2\<lparr>rate_limits := l\<rparr>) r sid)"

text \<open>Every message is first checked against the limits as one of the user zero.\<close>

definition fix_process_incoming ::
  "('v, 'sig, 'key, 'sk) fix_env \<Rightarrow> string \<Rightarrow> session_id \<Rightarrow> fix_plugin \<Rightarrow> fix_plugin \<times> string result" where
  "fix_process_incoming E message sid p =
     (case check_rate_limits (rate_limits p) sid (0, 0) (clock E 0) of
        (l, Inl e) \<Rightarrow> handle_rate_limit_violation E (p\<lparr>rate_limits := l\<rparr>) e sid
      | (l, Inr _) \<Rightarrow>
          let p1 = p\<lparr>rate_limits := l\<rparr>
          in case deserialize_from_fix (reader E) message sid of
               Inr r \<Rightarrow> process_request E p1 r sid
             | Inl e \<Rightarrow>
                 (case process_error E p1 (0, 0) e sid of
                    (p2, Inl e') \<Rightarrow> (p2, Inl e')
                  | (p2, Inr m) \<Rightarrow> (p2, Inl m)))"

section \<open>Responses\<close>

definition mint_invoice_body_of :: "display \<Rightarrow> mint_invoice \<Rightarrow> mint_invoice_body" where
  "mint_invoice_body_of T mi = \<lparr>mb_client_order_id = mi_client_order_id mi, mb_payment_id = mi_payment_id mi,
     mb_seq_num = show_u256 T (mi_seq_num mi), mb_symbol = mi_symbol mi,
     mb_filled_quantity = show_amount T (mi_filled_quantity mi), mb_total_amount = show_amount T (total_amount mi),
     mb_amount_paid = show_amount T (mi_amount_paid mi), mb_amount_remaining = show_amount T (amount_remaining mi),
     mb_management_fee = show_amount T (management_fee mi), mb_assets_value = show_amount T (assets_value mi),
     mb_exchange_fee = show_amount T (exchange_fee mi), mb_fill_rate = show_amount T (mi_fill_rate mi),
     mb_lots = mi_lots mi, mb_position = mi_position mi, mb_timestamp = mi_timestamp mi\<rparr>"

text \<open>Chain, address, message type and body; there is no message for the answers to quote requests.\<close>

fun response_parts :: "display \<Rightarrow> server_response \<Rightarrow> (u32 \<times> address \<times> string \<times> response_body) result" where
  "response_parts T (NewIndexOrderAck c a i _) = Inr (c, a, ''NewIndexOrder'', NewOrderBody ''new'' i)"
| "response_parts T (NewIndexOrderNak c a i reason _) =
     Inr (c, a, ''NewIndexOrder'', NewOrderFailBody ''rejected'' i (show_new_order_reason T reason))"
| "response_parts T (CancelIndexOrderAck c a i _) = Inr (c, a, ''CancelIndexOrder'', NewOrderBody ''canceled'' i)"
| "response_parts T (CancelIndexOrderNak c a i reason _) =
     Inr (c, a, ''CancelIndexOrder'', NewOrderFailBody ''rejected'' i (show_cancel_order_reason T reason))"
| "response_parts T (IndexOrderFill c a i filled spent remaining rate status _) =
     Inr (c, a, ''IndexOrderFill'', IndexOrderFillBody i (show_amount T filled) (show_amount T spent)
       (show_amount T remaining) (show_amount T rate) status)"
| "response_parts T (MintInvoiceIssued c a i mi _) = Inr (c, a, ''MintInvoice'', MintInvoiceBody (mint_invoice_body_of T mi))"
| "response_parts T (NewIndexQuoteAck c a i _) = Inr (c, a, ''NewIndexQuote'', IndexQuoteRequestBody ''new'' i)"
| "response_parts T (NewIndexQuoteNak c a i reason _) =
     Inr (c, a, ''NewIndexQuote'', IndexQuoteRequestFailBody ''rejected'' i (show_new_quote_reason T reason))"
| "response_parts T (IndexQuoteResponse c a i q _) =
     Inr (c, a, ''IndexQuoteResponse'', IndexQuoteBody i (show_amount T q))"
| "response_parts T (CancelIndexQuoteAck c a i _) = Inr (c, a, ''CancelIndexQuote'', IndexQuoteRequestBody ''canceled'' i)"
| "response_parts T (CancelIndexQuoteNak c a i reason _) =
     Inr (c, a, ''CancelIndexQuote'', IndexQuoteRequestFailBody ''rejected'' i (show_cancel_quote_reason T reason))"
| "response_parts T _ = Inl ''Unsupported ServerResponse type for FixResponse conversion''"

fun response_id :: "response_body \<Rightarrow> string result" where
  "response_id (NewOrderBody _ i) = Inr i"
| "response_id (NewOrderFailBody _ i _) = Inr i"
| "response_id (IndexOrderFillBody i _ _ _ _ _) = Inr i"
| "response_id (MintInvoiceBody b) = Inr (mb_client_order_id b)"
| "response_id (IndexQuoteRequestBody _ i) = Inr i"
| "response_id (IndexQuoteRequestFailBody _ i _) = Inr i"
| "response_id (IndexQuoteBody i _) = Inr i"
| "response_id _ = Inl ''Cannot extract id from response body''"

definition sign_response ::
  "('v, 'sig, 'key, 'sk) fix_env \<Rightarrow> string \<Rightarrow> response_body \<Rightarrow> fix_trailer result" where
  "sign_response E t body =
     (if contains t ''Quote'' then Inr fix_trailer_new
      else
        rbind (response_id body) (\<lambda>i.
        rbind (ok_or (server_private_key (signing E)) ''SERVER_PRIVATE_KEY not set'') (\<lambda>priv_hex.
        rbind (hex_decode (crypt E) (trim_0x priv_hex)) (\<lambda>priv_bytes.
          if length priv_bytes \<noteq> 32 then Inl ''Private key must be 32 bytes''
          else
            rbind (read_signing_key (signing E) priv_bytes) (\<lambda>key.
              Inr (fix_trailer_new
                \<lparr>public_keys := [''0x'' @ hex_encode (signing E) (encoded_point (signing E) key)],
                 signatures := [''0x'' @ hex_encode (signing E) (sign_digest (signing E) key (signable t i))]\<rparr>)))))) "

definition server_response_to_fix_response ::
  "('v, 'sig, 'key, 'sk) fix_env \<Rightarrow> fix_plugin \<Rightarrow> server_response \<Rightarrow> session_id \<Rightarrow> fix_response result" where
  "server_response_to_fix_response E p response sid =
     rbind (response_parts (texts E) response) (\<lambda>(c, a, t, body).
     rbind (sign_response E t body) (\<lambda>trailer.
       Inr \<lparr>rs_session_id = sid, rs_header = apply_swapped_comp_ids p sid (fix_header_new t (clock E 3)),
            rs_chain_id = c, rs_address = a, rs_body = body, rs_trailer = trailer\<rparr>))"

text \<open>The response for one session, with the session's next sequence number.\<close>

definition response_for ::
  "('v, 'sig, 'key, 'sk) fix_env \<Rightarrow> fix_plugin \<Rightarrow> server_response \<Rightarrow> session_id \<Rightarrow> fix_plugin \<times> string result" where
  "response_for E p response sid =
     (case server_response_to_fix_response E p response sid of
        Inl e \<Rightarrow> (p, Inl e)
      | Inr r \<Rightarrow>
          (case next_seq_num (seq_nums p) sid of
             (q, n) \<Rightarrow>
               (p\<lparr>seq_nums := q\<rparr>,
                with_context ''Cannot serialize response.''
                  (serialize E (r\<lparr>rs_header := (rs_header r)\<lparr>hd_seq_num := n\<rparr>\<rparr>)))))"

fun responses_for ::
  "('v, 'sig, 'key, 'sk) fix_env \<Rightarrow> fix_plugin \<Rightarrow> server_response \<Rightarrow> session_id list \<Rightarrow>
     fix_plugin \<times> (session_id \<times> string) list result" where
  "responses_for E p response [] = (p, Inr [])"
| "responses_for E p response (sid # sids) =
     (case response_for E p response sid of
        (p', Inl e) \<Rightarrow> (p', Inl e)
      | (p', Inr m) \<Rightarrow>
          (case responses_for E p' response sids of
             (p'', r) \<Rightarrow> (p'', rbind r (\<lambda>ms. Inr ((sid, m) # ms)))))"

definition fix_process_outgoing ::
  "('v, 'sig, 'key, 'sk) fix_env \<Rightarrow> server_response \<Rightarrow> fix_plugin \<Rightarrow> fix_plugin \<times> (session_id \<times> string) list result" where
  "fix_process_outgoing E response p =
     (case server_response_to_fix_response E p response ''S-proto'' of
        Inl e \<Rightarrow> (p, Inl e)
      | Inr proto \<Rightarrow>
          responses_for E p response
            (case get_user_sessions (user_sessions p) (response_user_id proto) of
               Inr sids \<Rightarrow> sids
             | Inl _ \<Rightarrow> [''S-proto'']))"

section \<open>Sessions\<close>

definition fix_create_session :: "timestamp \<Rightarrow> session_id \<Rightarrow> fix_plugin \<Rightarrow> fix_plugin \<times> unit result" where
  "fix_create_session now sid p =
     (p\<lparr>rate_limits := rate_create_session (rate_limits p) sid now,
        seq_nums := seq_create_session (seq_nums p) sid\<rparr>, Inr ())"

definition fix_destroy_session :: "session_id \<Rightarrow> fix_plugin \<Rightarrow> fix_plugin \<times> unit result" where
  "fix_destroy_session sid p =
     (p\<lparr>rate_limits := rate_destroy_session (rate_limits p) sid,
        user_sessions := remove_session_of_users (user_sessions p) sid,
        seq_nums := seq_destroy_session (seq_nums p) sid\<rparr>, Inr ())"

text \<open>The server of the index maker is that of \<open>FixSessions\<close> with this plugin.\<close>

definition respond_with ::
  "('v, 'sig, 'key, 'sk) fix_env \<Rightarrow> fix_plugin server_state \<Rightarrow> server_response \<Rightarrow> fix_plugin server_state" where
  "respond_with E st response = fst (server_process_outgoing (fix_process_outgoing E) st response)"

definition initialize_shutdown :: "fix_plugin server_state \<Rightarrow> fix_plugin server_state" where
  "initialize_shutdown st = close_server st"

section \<open>Only authorised requests are published\<close>

text \<open>What an answer leaves as it is.\<close>

lemma finish_response_frame:
  assumes "finish_response E p sid r = (p', a)"
  shows "published p' = published p" "user_sessions p' = user_sessions p"
    "last_received (seq_nums p') = last_received (seq_nums p)" "rate_limits p' = rate_limits p"
    "session_comp_ids p' = session_comp_ids p"
  using assms by (auto simp: finish_response_def dest: next_seq_num_last(3) split: prod.splits)

lemmas answer_defs = process_error_def process_ack_def handle_rate_limit_violation_def

lemma accept_request_published:
  assumes "accept_request E p r sid = (p', a)"
  shows "published p' = published p @ (case fix_request_to_server_event E r of Inl _ \<Rightarrow> [] | Inr ev \<Rightarrow> [ev])"
    and "user_sessions p' = user_sessions p" and "last_received (seq_nums p') = last_received (seq_nums p)"
  using assms
  by (auto simp: accept_request_def answer_defs finish_response_frame split: sum.splits prod.splits)

lemma check_sequence_published:
  assumes "check_sequence E p r sid = (p', a)"
  shows "published p' = published p @
      (if hd_seq_num (rq_header r) = last_received_seq_num (seq_nums p) sid + 1
       then case fix_request_to_server_event E r of Inl _ \<Rightarrow> [] | Inr ev \<Rightarrow> [ev] else [])"
    and "user_sessions p' = user_sessions p"
proof -
  obtain q ok where v: "valid_seq_num (seq_nums p) (hd_seq_num (rq_header r)) sid = (q, ok)" by fastforce
  note ok = valid_seq_num_last(2) [OF v]
  show "published p' = published p @
      (if hd_seq_num (rq_header r) = last_received_seq_num (seq_nums p) sid + 1
       then case fix_request_to_server_event E r of Inl _ \<Rightarrow> [] | Inr ev \<Rightarrow> [ev] else [])"
    using assms ok
    by (cases ok) (auto simp: check_sequence_def v answer_defs finish_response_frame
        dest: accept_request_published(1) split: sum.splits prod.splits)
  show "user_sessions p' = user_sessions p"
    using assms
    by (cases ok) (auto simp: check_sequence_def v answer_defs finish_response_frame
        dest: accept_request_published(2) split: sum.splits prod.splits)
qed

lemma process_request_effect:
  assumes "process_request E p r sid = (p', a)"
  shows "published p' = published p \<or>
      (\<exists>ev. verify_signature (crypt E) r = Inr () \<and> fix_request_to_server_event E r = Inr ev \<and>
        hd_seq_num (rq_header r) = last_received_seq_num (seq_nums p) sid + 1 \<and> published p' = published p @ [ev])"
    and "user_sessions p' =
      (case verify_signature (crypt E) r of Inl _ \<Rightarrow> user_sessions p
       | Inr _ \<Rightarrow> add_user_session (user_sessions p) (request_user_id r) sid)"
proof -
  let ?remember = "\<lambda>p. remember_comp_ids p sid (sender_comp_id (rq_header r)) (target_comp_id (rq_header r))"
  let ?p1 = "?remember p"
  let ?p2 = "?remember (?p1\<lparr>user_sessions := add_user_session (user_sessions ?p1) (request_user_id r) sid\<rparr>)"
  obtain l x where c: "consume_message_weight (rate_limits ?p2) (request_message_type r) (request_user_id r) (clock E 1) = (l, x)"
    by fastforce
  have "(published p' = published p \<or>
      (\<exists>ev. verify_signature (crypt E) r = Inr () \<and> fix_request_to_server_event E r = Inr ev \<and>
        hd_seq_num (rq_header r) = last_received_seq_num (seq_nums p) sid + 1 \<and> published p' = published p @ [ev])) \<and>
    user_sessions p' = (case verify_signature (crypt E) r of Inl _ \<Rightarrow> user_sessions p
       | Inr _ \<Rightarrow> add_user_session (user_sessions p) (request_user_id r) sid)"
  proof (cases "verify_signature (crypt E) r")
    case (Inl e)
    then show ?thesis using assms
      by (simp add: process_request_def Let_def finish_response_frame remember_comp_ids_def)
  next
    case (Inr u)
    show ?thesis
    proof (cases x)
      case (Inl e)
      with Inr c assms have "handle_rate_limit_violation E (?p2\<lparr>rate_limits := l\<rparr>) e sid = (p', a)"
        by (simp add: process_request_def Let_def)
      then show ?thesis using Inr
        by (simp add: answer_defs finish_response_frame remember_comp_ids_def)
    next
      case (Inr y)
      with \<open>verify_signature (crypt E) r = Inr u\<close> c assms have s: "check_sequence E (?p2\<lparr>rate_limits := l\<rparr>) r sid = (p', a)"
        by (simp add: process_request_def Let_def)
      show ?thesis using check_sequence_published [OF s] \<open>verify_signature (crypt E) r = Inr u\<close>
        by (cases "fix_request_to_server_event E r") (auto simp: remember_comp_ids_def split: if_splits)
    qed
  qed
  then show "published p' = published p \<or>
      (\<exists>ev. verify_signature (crypt E) r = Inr () \<and> fix_request_to_server_event E r = Inr ev \<and>
        hd_seq_num (rq_header r) = last_received_seq_num (seq_nums p) sid + 1 \<and> published p' = published p @ [ev])"
    and "user_sessions p' =
      (case verify_signature (crypt E) r of Inl _ \<Rightarrow> user_sessions p
       | Inr _ \<Rightarrow> add_user_session (user_sessions p) (request_user_id r) sid)" by blast+
qed

lemma fix_process_incoming_effect:
  assumes "fix_process_incoming E m sid p = (p', a)"
  shows "published p' = published p \<and> user_sessions p' = user_sessions p \<or>
    (\<exists>r p1. deserialize_from_fix (reader E) m sid = Inr r \<and> process_request E p1 r sid = (p', a) \<and>
      published p1 = published p \<and> user_sessions p1 = user_sessions p \<and> seq_nums p1 = seq_nums p)"
proof -
  obtain l x where c: "check_rate_limits (rate_limits p) sid (0, 0) (clock E 0) = (l, x)" by fastforce
  let ?p1 = "p\<lparr>rate_limits := l\<rparr>"
  show ?thesis
  proof (cases x)
    case (Inl e)
    then show ?thesis using assms c
      by (auto simp: fix_process_incoming_def answer_defs finish_response_frame)
  next
    case ok: (Inr y)
    show ?thesis
    proof (cases "deserialize_from_fix (reader E) m sid")
      case (Inl e)
      obtain p2 b where e: "process_error E ?p1 (0, 0) e sid = (p2, b)" by fastforce
      have "p' = p2" using assms c ok Inl e by (auto simp: fix_process_incoming_def Let_def split: sum.splits)
      then show ?thesis using e by (simp add: answer_defs finish_response_frame)
    next
      case (Inr r)
      then show ?thesis using assms c ok
        by (intro disjI2 exI [of _ r] exI [of _ ?p1]) (simp add: fix_process_incoming_def Let_def)
    qed
  qed
qed

section \<open>Runs of the plugin\<close>

text \<open>What drives the plugin, each message and response in an environment of its own.\<close>

datatype ('v, 'sig, 'key, 'sk) fix_op =
    Incoming "('v, 'sig, 'key, 'sk) fix_env" string session_id
  | Outgoing "('v, 'sig, 'key, 'sk) fix_env" server_response
  | Opened timestamp session_id
  | Ended session_id

fun fix_step :: "fix_plugin \<Rightarrow> ('v, 'sig, 'key, 'sk) fix_op \<Rightarrow> fix_plugin" where
  "fix_step p (Incoming E m sid) = fst (fix_process_incoming E m sid p)"
| "fix_step p (Outgoing E response) = fst (fix_process_outgoing E response p)"
| "fix_step p (Opened now sid) = fst (fix_create_session now sid p)"
| "fix_step p (Ended sid) = fst (fix_destroy_session sid p)"

definition fix_run :: "fix_plugin \<Rightarrow> ('v, 'sig, 'key, 'sk) fix_op list \<Rightarrow> fix_plugin" where
  "fix_run = foldl fix_step"

lemma fix_run_simps [simp]:
  "fix_run p [] = p" "fix_run p (op # ops) = fix_run (fix_step p op) ops" "fix_run p (ops @ [op]) = fix_step (fix_run p ops) op"
  by (simp_all add: fix_run_def)

text \<open>A message that stands for an event: read, authorised, recent and translated.\<close>

fun stands_for :: "('v, 'sig, 'key, 'sk) fix_op \<Rightarrow> server_event \<Rightarrow> bool" where
  "stands_for (Incoming E m sid) ev =
     (case deserialize_from_fix (reader E) m sid of
        Inl _ \<Rightarrow> False
      | Inr r \<Rightarrow> verify_signature (crypt E) r = Inr () \<and>
          \<bar>clock E 2 - hd_timestamp (rq_header r)\<bar> \<le> seconds 60 \<and> fix_request_to_server_event E r = Inr ev)"
| "stands_for _ _ = False"

text \<open>A message that speaks for a user on a session.\<close>

fun speaks_for :: "('v, 'sig, 'key, 'sk) fix_op \<Rightarrow> user_id \<Rightarrow> session_id \<Rightarrow> bool" where
  "speaks_for (Incoming E m sid) u s =
     (case deserialize_from_fix (reader E) m sid of
        Inl _ \<Rightarrow> False
      | Inr r \<Rightarrow> s = sid \<and> verify_signature (crypt E) r = Inr () \<and> request_user_id r = u)"
| "speaks_for _ _ _ = False"

lemma event_is_recent:
  "fix_request_to_server_event E r = Inr ev \<Longrightarrow> \<bar>clock E 2 - hd_timestamp (rq_header r)\<bar> \<le> seconds 60"
  by (auto simp: fix_request_to_server_event_def Let_def split: if_splits)

lemma response_for_frame:
  "response_for E p response sid = (p', a) \<Longrightarrow> published p' = published p \<and> user_sessions p' = user_sessions p"
  by (auto simp: response_for_def split: sum.splits prod.splits)

lemma responses_for_frame:
  "responses_for E p response sids = (p', a) \<Longrightarrow> published p' = published p \<and> user_sessions p' = user_sessions p"
  by (induction sids arbitrary: p p' a)
    (auto dest!: response_for_frame split: sum.splits prod.splits)

lemma responses_for_recipients:
  "responses_for E p response sids = (p', Inr ms) \<Longrightarrow> map fst ms = sids"
  by (induction sids arbitrary: p p' ms) (auto simp: result_simps split: sum.splits prod.splits)

lemma fix_process_outgoing_frame:
  "fix_process_outgoing E response p = (p', a) \<Longrightarrow> published p' = published p \<and> user_sessions p' = user_sessions p"
  by (auto simp: fix_process_outgoing_def simp del: responses_for.simps dest!: responses_for_frame split: sum.splits)

lemma fix_step_published:
  "published (fix_step p op) = published p \<or> (\<exists>ev. stands_for op ev \<and> published (fix_step p op) = published p @ [ev])"
proof (cases op)
  case (Incoming E m sid)
  obtain p' a where i: "fix_process_incoming E m sid p = (p', a)" by fastforce
  from fix_process_incoming_effect [OF i] show ?thesis
  proof
    assume "\<exists>r p1. deserialize_from_fix (reader E) m sid = Inr r \<and> process_request E p1 r sid = (p', a) \<and>
      published p1 = published p \<and> user_sessions p1 = user_sessions p \<and> seq_nums p1 = seq_nums p"
    then obtain r p1 where r: "deserialize_from_fix (reader E) m sid = Inr r" "process_request E p1 r sid = (p', a)"
      "published p1 = published p" by blast
    show ?thesis using process_request_effect(1) [OF r(2)] r Incoming i by (auto dest: event_is_recent)
  qed (use Incoming i in simp)
next
  case (Outgoing E response)
  then show ?thesis using fix_process_outgoing_frame [of E response p] by (cases "fix_process_outgoing E response p") auto
qed (simp_all add: fix_create_session_def fix_destroy_session_def)

text \<open>
  C17: Every event the server publishes, over any run of messages, responses and sessions, stands for
  a message of its own: one that was read, was authorised and was no more than a minute off the
  clock. The events come in the order of their messages, and none stands for two.
\<close>

theorem published_events_are_authorised:
  "\<exists>accepted. subseq accepted ops \<and> list_all2 stands_for accepted (published (fix_run (fix_plugin_new cfg) ops))"
proof (induction ops rule: rev_induct)
  case Nil
  show ?case by (intro exI [of _ "[]"]) (simp add: fix_plugin_new_def)
next
  case (snoc op ops)
  then obtain accepted where IH: "subseq accepted ops"
    "list_all2 stands_for accepted (published (fix_run (fix_plugin_new cfg) ops))" by blast
  from fix_step_published [of "fix_run (fix_plugin_new cfg) ops" op] show ?case
  proof
    assume "published (fix_step (fix_run (fix_plugin_new cfg) ops) op) = published (fix_run (fix_plugin_new cfg) ops)"
    then show ?thesis using IH by (intro exI [of _ accepted]) (auto intro: subseq_order.order_trans)
  next
    assume "\<exists>ev. stands_for op ev \<and>
      published (fix_step (fix_run (fix_plugin_new cfg) ops) op) = published (fix_run (fix_plugin_new cfg) ops) @ [ev]"
    then show ?thesis using IH
      by (intro exI [of _ "accepted @ [op]"]) (auto intro: list_all2_appendI list_emb_append_mono)
  qed
qed

section \<open>Who gets a response\<close>

definition serves :: "user_plugin \<Rightarrow> user_id \<Rightarrow> session_id \<Rightarrow> bool" where
  "serves m u s \<longleftrightarrow> (\<exists>ss. (u, ss) \<in> set m \<and> s \<in> set ss)"

lemma serves_add: "serves (add_user_session m uid sid) u s \<Longrightarrow> u = uid \<and> s = sid \<or> serves m u s"
  by (auto simp: serves_def add_user_session_def dest!: set_put_assoc split: option.splits intro: map_of_SomeD)

lemma serves_remove_user_session: "serves (remove_user_session m uid sid) u s \<Longrightarrow> serves m u s"
proof (cases "map_of m uid")
  case (Some ss)
  then have m: "(uid, ss) \<in> set m" by (rule map_of_SomeD)
  assume "serves (remove_user_session m uid sid) u s"
  then show ?thesis using m Some
    by (auto simp: serves_def remove_user_session_def Let_def remove_key_set
        dest!: set_put_assoc dest: notin_set_remove1 set_remove1_subset [THEN subsetD] split: if_splits)
qed (simp add: remove_user_session_def)

lemma serves_remove: "serves (remove_session_of_users m sid) u s \<Longrightarrow> serves m u s"
  by (auto simp: remove_session_of_users_def dest: serves_remove_user_session split: option.splits)

lemma get_user_sessions_serves: "get_user_sessions m u = Inr ss \<Longrightarrow> s \<in> set ss \<Longrightarrow> serves m u s"
  by (auto simp: get_user_sessions_def serves_def result_simps dest: map_of_SomeD)

lemma fix_step_serves:
  assumes "serves (user_sessions (fix_step p op)) u s"
  shows "speaks_for op u s \<or> serves (user_sessions p) u s"
proof (cases op)
  case (Incoming E m sid)
  obtain p' a where i: "fix_process_incoming E m sid p = (p', a)" by fastforce
  from fix_process_incoming_effect [OF i] show ?thesis
  proof
    assume "\<exists>r p1. deserialize_from_fix (reader E) m sid = Inr r \<and> process_request E p1 r sid = (p', a) \<and>
      published p1 = published p \<and> user_sessions p1 = user_sessions p \<and> seq_nums p1 = seq_nums p"
    then obtain r p1 where r: "deserialize_from_fix (reader E) m sid = Inr r" "process_request E p1 r sid = (p', a)"
      "user_sessions p1 = user_sessions p" by blast
    show ?thesis using process_request_effect(2) [OF r(2)] r Incoming i assms
      by (auto dest!: serves_add split: sum.splits)
  qed (use Incoming i assms in simp)
next
  case (Outgoing E response)
  then show ?thesis using fix_process_outgoing_frame [of E response p] assms
    by (cases "fix_process_outgoing E response p") auto
next
  case (Ended sid)
  then show ?thesis using assms by (auto simp: fix_destroy_session_def dest: serves_remove)
qed (use assms in \<open>simp_all add: fix_create_session_def\<close>)

lemma fix_run_serves:
  "serves (user_sessions (fix_run (fix_plugin_new cfg) ops)) u s \<Longrightarrow> \<exists>op\<in>set ops. speaks_for op u s"
proof (induction ops rule: rev_induct)
  case Nil
  then show ?case by (simp add: fix_plugin_new_def serves_def user_plugin_new_def)
next
  case (snoc op ops)
  then show ?case using fix_step_serves [of "fix_run (fix_plugin_new cfg) ops" op u s] by auto
qed

lemma fix_process_outgoing_recipients:
  assumes "fix_process_outgoing E response p = (p', Inr ms)" and "response_parts (texts E) response = Inr (c, a, t, body)"
  shows "map fst ms = (case get_user_sessions (user_sessions p) (c, a) of Inr sids \<Rightarrow> sids | Inl _ \<Rightarrow> [''S-proto''])"
proof -
  obtain proto where proto: "server_response_to_fix_response E p response ''S-proto'' = Inr proto"
    and run: "responses_for E p response (case get_user_sessions (user_sessions p) (response_user_id proto) of
        Inr sids \<Rightarrow> sids | Inl _ \<Rightarrow> [''S-proto'']) = (p', Inr ms)"
    using assms(1) by (auto simp: fix_process_outgoing_def simp del: responses_for.simps split: sum.splits)
  have "response_user_id proto = (c, a)"
    using proto assms(2) by (auto simp: server_response_to_fix_response_def result_simps response_user_id_def)
  with responses_for_recipients [OF run] show ?thesis by simp
qed

text \<open>
  C18: A response reaches nobody but its user: in every reachable state each session it is sent to
  was spoken for by that user, with a message that was authorised. Where the user has no session
  it goes to the placeholder \<open>S-proto\<close>.
\<close>

theorem response_reaches_only_its_user:
  assumes "fix_process_outgoing E response (fix_run (fix_plugin_new cfg) ops) = (p', Inr ms)"
    and "response_parts (texts E) response = Inr (c, a, t, body)" and "(s, text) \<in> set ms"
  shows "s = ''S-proto'' \<or> (\<exists>op\<in>set ops. speaks_for op (c, a) s)"
proof -
  have "s \<in> set (map fst ms)" using assms(3) by force
  then show ?thesis unfolding fix_process_outgoing_recipients [OF assms(1,2)]
    by (auto dest: get_user_sessions_serves fix_run_serves split: sum.splits)
qed

text \<open>
  C40: A quote request, which nobody has to sign, speaks for any user it names: the session it came
  on is sent all further responses of that user, of his orders as well.
\<close>

theorem unsigned_quote_takes_the_responses:
  assumes "check_rate_limits (rate_limits p) s (0, 0) (clock E 0) = (l, Inr ())"
    and "deserialize_from_fix (reader E) m s = Inr r" and "contains (hd_msg_type (rq_header r)) ''Quote''"
    and "response_parts (texts E') response = Inr (rq_chain_id r, rq_address r, t, body)"
    and "fix_process_outgoing E' response (fst (fix_process_incoming E m s p)) = (p', Inr ms)"
  shows "s \<in> fst ` set ms"
proof -
  obtain p1 a where i: "fix_process_incoming E m s p = (p1, a)" by fastforce
  have r: "process_request E (p\<lparr>rate_limits := l\<rparr>) r s = (p1, a)"
    using i assms(1,2) by (simp add: fix_process_incoming_def)
  have "verify_signature (crypt E) r = Inr ()" using assms(3) by (simp add: verify_signature_def)
  then have "user_sessions p1 = add_user_session (user_sessions p) (request_user_id r) s"
    using process_request_effect(2) [OF r] by simp
  then have "get_user_sessions (user_sessions p1) (rq_chain_id r, rq_address r) =
      Inr (List.insert s (case map_of (user_sessions p) (request_user_id r) of None \<Rightarrow> [] | Some ss \<Rightarrow> ss))"
    by (simp add: get_user_sessions_def add_user_session_def map_of_put_assoc request_user_id_def ok_or_def)
  then have "s \<in> set (map fst ms)"
    using fix_process_outgoing_recipients [OF _ assms(4)] assms(5) i by simp
  then show ?thesis by simp
qed

text \<open>A server for the witnesses: its reader knows one message, a request for a quote with no trailer.\<close>

definition sample_env :: "(nat, unit, unit, unit) fix_env" where
  "sample_env = \<lparr>clock = (\<lambda>_. 0),
     reader = \<lparr>js_object = (\<lambda>_. Inr [(''standard_header'', 0), (''chain_id'', 0), (''address'', 0),
                   (''client_quote_id'', 0), (''symbol'', 0), (''side'', 0), (''amount'', 0)]),
               js_header = (\<lambda>_. Inr \<lparr>hd_msg_type = ''NewQuoteRequest'', sender_comp_id = ''C'', target_comp_id = ''S'',
                              hd_seq_num = 1, hd_timestamp = 0\<rparr>),
               js_u32 = (\<lambda>_. Inr 1), js_address = (\<lambda>_. Inr 7), js_trailer = (\<lambda>_. Inl ''no trailer''),
               js_string = (\<lambda>_. Some ''Buy''), js_body = (\<lambda>_. Inl ''no body'')\<rparr>,
     serialize = (\<lambda>_. Inr ''sent''),
     crypt = \<lparr>hex_decode = (\<lambda>_. Inr (replicate 32 1)), keccak256 = id, hash_message = (\<lambda>_. []), read_signature = (\<lambda>_. Inr ()),
              normalize_s = (\<lambda>_. None), read_key = (\<lambda>_. Inr ()), verify_prehash = (\<lambda>_ _ _. False)\<rparr>,
     signing = \<lparr>server_private_key = Some ''01'', read_signing_key = (\<lambda>_. Inr ()), sign_digest = (\<lambda>_ _. []),
                encoded_point = (\<lambda>_. []), hex_encode = (\<lambda>_. ''00'')\<rparr>,
     parse_amount = (\<lambda>_. Inr 1),
     texts = \<lparr>show_amount = (\<lambda>_. ''1''), show_u256 = (\<lambda>_. ''1''), show_new_order_reason = (\<lambda>_. ''no''),
              show_cancel_order_reason = (\<lambda>_. ''no''), show_new_quote_reason = (\<lambda>_. ''no''),
              show_cancel_quote_reason = (\<lambda>_. ''no''), show_rate_limit_error = (\<lambda>_. ''no'')\<rparr>\<rparr>"

definition sample_plugin :: fix_plugin where
  "sample_plugin = fix_plugin_new fix_disabled_config"

definition sample_response :: server_response where
  "sample_response = IndexOrderFill 1 7 ''O-1'' 1 1 0 1 ''filled'' 0"

definition sample_request :: "session_id \<Rightarrow> fix_request" where
  "sample_request s = \<lparr>rq_session_id = s, rq_header = \<lparr>hd_msg_type = ''NewQuoteRequest'', sender_comp_id = ''C'',
     target_comp_id = ''S'', hd_seq_num = 1, hd_timestamp = 0\<rparr>, rq_chain_id = 1, rq_address = 7,
     rq_body = NewQuoteRequestBody ''Buy'' ''Buy'' ''Buy'' ''Buy'', rq_trailer = None\<rparr>"

lemma sample_read: "deserialize_from_fix (reader sample_env) m s = Inr (sample_request s)"
  by (simp add: deserialize_from_fix_def sample_env_def sample_request_def visit_map_def body_of_def body_field_def
      rbind_def ok_or_def Let_def)

lemma sample_limits: "check_rate_limits (rate_limits sample_plugin) s u now = (rate_limits sample_plugin, Inr ())"
  by (simp add: check_rate_limits_def sample_plugin_def fix_plugin_new_def rate_limit_plugin_new_def
      fix_disabled_config_def fix_default_config_def default_config_def Let_def)

lemma sample_is_quote: "contains (hd_msg_type (rq_header (sample_request s))) ''Quote''"
  by (simp add: sample_request_def)

lemma sample_event:
  "fix_request_to_server_event sample_env (sample_request s) = Inr (EvNewQuoteRequest 1 7 ''Buy'' ''Buy'' Buy 1 0)"
  by (simp add: fix_request_to_server_event_def sample_env_def sample_request_def seconds_def with_context_def rbind_def
      side_from_str_def buy_names_def Let_def)

lemma sample_parts: "response_parts (texts sample_env) sample_response =
    Inr (1, 7, ''IndexOrderFill'', IndexOrderFillBody ''O-1'' ''1'' ''1'' ''1'' ''1'' ''filled'')"
  by (simp add: sample_response_def sample_env_def)

lemma sample_signed: "\<exists>trailer. sign_response sample_env ''IndexOrderFill'' (IndexOrderFillBody ''O-1'' a b c d e) = Inr trailer"
  by (simp add: sign_response_def sample_env_def rbind_def ok_or_def)

lemma sample_response_for: "\<exists>q. response_for sample_env p sample_response s = (p\<lparr>seq_nums := q\<rparr>, Inr ''sent'')"
proof -
  obtain trailer where "sign_response sample_env ''IndexOrderFill'' (IndexOrderFillBody ''O-1'' ''1'' ''1'' ''1'' ''1'' ''filled'') =
    Inr trailer" using sample_signed by blast
  then obtain r where "server_response_to_fix_response sample_env p sample_response s = Inr r"
    by (simp add: server_response_to_fix_response_def sample_parts rbind_def)
  then show ?thesis
    by (auto simp: response_for_def with_context_def sample_env_def split: prod.splits)
qed

lemma sample_server_response:
  "\<exists>r. server_response_to_fix_response sample_env p sample_response s = Inr r \<and> response_user_id r = (1, 7)"
  using sample_signed [of "''1''" "''1''" "''1''" "''1''" "''filled''"]
  by (auto simp: server_response_to_fix_response_def sample_parts rbind_def response_user_id_def)

lemma sample_incoming_sessions:
  "user_sessions (fst (fix_process_incoming sample_env m s sample_plugin)) = [((1, 7), [s])]"
proof -
  obtain p' a where r: "process_request sample_env sample_plugin (sample_request s) s = (p', a)" by fastforce
  then have "fix_process_incoming sample_env m s sample_plugin = (p', a)"
    by (simp add: fix_process_incoming_def sample_limits sample_read)
  moreover have "verify_signature (crypt sample_env) (sample_request s) = Inr ()"
    using sample_is_quote [of s] by (simp add: verify_signature_def)
  ultimately show ?thesis using process_request_effect(2) [OF r]
    by (simp add: sample_plugin_def fix_plugin_new_def user_plugin_new_def add_user_session_def
        sample_request_def request_user_id_def)
qed

lemma sample_outgoing:
  "\<exists>p'. fix_process_outgoing sample_env sample_response (fst (fix_process_incoming sample_env m s sample_plugin)) =
    (p', Inr [(s, ''sent'')])"
proof -
  let ?p = "fst (fix_process_incoming sample_env m s sample_plugin)"
  obtain proto where proto: "server_response_to_fix_response sample_env ?p sample_response ''S-proto'' = Inr proto"
    "response_user_id proto = (1, 7)" using sample_server_response by blast
  obtain q where "response_for sample_env ?p sample_response s = (?p\<lparr>seq_nums := q\<rparr>, Inr ''sent'')"
    using sample_response_for by blast
  with proto show ?thesis
    by (simp add: fix_process_outgoing_def sample_incoming_sessions get_user_sessions_def ok_or_def rbind_def)
qed

theorem response_reaches_only_its_user_witness:
  "\<exists>op\<in>set [Incoming sample_env ''m'' ''S-9'']. speaks_for op (1, 7) ''S-9''"
proof -
  obtain p' where "fix_process_outgoing sample_env sample_response
      (fix_run (fix_plugin_new fix_disabled_config) [Incoming sample_env ''m'' ''S-9'']) = (p', Inr [(''S-9'', ''sent'')])"
    using sample_outgoing [of "''m''" "''S-9''"] by (auto simp: sample_plugin_def)
  from response_reaches_only_its_user [OF this sample_parts, of "''S-9''" "''sent''"] show ?thesis by simp
qed

theorem unsigned_quote_takes_the_responses_witness:
  "\<exists>ms. snd (fix_process_outgoing sample_env sample_response
      (fst (fix_process_incoming sample_env ''m'' ''S-9'' sample_plugin))) = Inr ms \<and> ''S-9'' \<in> fst ` set ms"
proof -
  obtain p' where p': "fix_process_outgoing sample_env sample_response
      (fst (fix_process_incoming sample_env ''m'' ''S-9'' sample_plugin)) = (p', Inr [(''S-9'', ''sent'')])"
    using sample_outgoing by blast
  have "response_parts (texts sample_env) sample_response =
      Inr (rq_chain_id (sample_request ''S-9''), rq_address (sample_request ''S-9''), ''IndexOrderFill'',
        IndexOrderFillBody ''O-1'' ''1'' ''1'' ''1'' ''1'' ''filled'')"
    by (simp add: sample_parts sample_request_def)
  from unsigned_quote_takes_the_responses [OF sample_limits sample_read sample_is_quote this p'] p' show ?thesis by auto
qed

end
