(* ===== verification/Spec2Isabelle.thy ===== *)
theory Spec2Isabelle
  imports Limiter InventoryManager CollateralManager IndexOrder SolverOrder PriceTracker Basket BatchMint
    IndexOrderRuns SolverStrategy SolverRuns QuoteRuns MarketFeed OrderSessions FixServer
begin

text \<open>
  A verification library of the order engine of the index maker: the Rust program that takes orders
  for indexes from clients, collects their collateral, buys the assets of the indexes on a market in
  batches and has the index tokens minted. All paths below are relative to the repository; most of
  the code lies in \<open>src/solver\<close>, \<open>src/collateral\<close>, \<open>libs/symm-core/src\<close> and \<open>libs/index-core/src\<close>.

  How the parts interact. A client's order enters \<open>IndexOrderManager\<close>, which keeps one queue of
  updates per user and index (\<open>IndexOrder\<close>) and announces it to the \<open>Solver\<close>. The solver keeps its
  own copy in queues that hand out one order per user at a time (\<open>SolverOrder\<close>), has the collateral
  manager route the collateral (\<open>CollateralRouter\<close>) and pre-authorize the payment
  (\<open>CollateralManager\<close> over one \<open>CollateralPosition\<close> per user), and with both approvals queues the
  order for engagement. On each tick it hands a batch of ready orders to its strategy
  (\<open>SimpleSolver\<close>), which prices them by \<open>Basket\<close>, \<open>PriceTracker\<close> and \<open>OrderBook\<close>, books the
  engagements with the \<open>BatchManager\<close> and has \<open>IndexOrderManager\<close> engage the collateral. The batch
  manager sends asset orders through \<open>InventoryManager\<close> and \<open>OrderTracker\<close>, shares the lots that
  come back among the index orders (\<open>BatchPosition\<close>), and hands out the orders that may be minted;
  the payment is then confirmed and an invoice filed (\<open>MintInvoice\<close> over \<open>FilePersistence\<close>). Requests
  for quotes take a shorter way through \<open>Quotes\<close>. At the edges, clients reach the managers through
  the sessions of the FIX server (\<open>FixSessions\<close>), whose requests are limited by \<open>RateLimit\<close>, read
  and authorised by \<open>FixMessages\<close> and turned into the managers' events by \<open>FixServer\<close>; the
  prices come from subscribers that keep a depth book per market (\<open>MarketFeed\<close> over \<open>DepthBook\<close>);
  and the asset orders go to the exchange through trading sessions (\<open>OrderSessions\<close>) that fit them
  to the filters of their market (\<open>TradingMarkets\<close>). Both limit their rates by \<open>Limiter\<close>.

  Which theory models which file.
  \<^item> \<open>Prelude\<close>: results, outcomes, the decimal operations, association lists, the interface
    \<open>reactive\<close> of event-driven components. \<open>Bits\<close>: \<open>core/bits.rs\<close>, \<open>decimal_ext.rs\<close>, the \<open>safe!\<close> macro.
  \<^item> \<open>Limiter\<close>: \<open>core/limit.rs\<close>. \<open>Position\<close>, \<open>OrderTracker\<close>, \<open>InventoryManager\<close>:
    \<open>order_sender/position.rs\<close>, \<open>order_tracker.rs\<close>, \<open>inventory_manager.rs\<close>.
  \<^item> \<open>OrderBook\<close>, \<open>PriceTracker\<close>: \<open>market_data/order_book\<close>, \<open>price_tracker.rs\<close>,
    \<open>exchange_rates.rs\<close>. \<open>Basket\<close>: \<open>index/basket.rs\<close>, \<open>basket_manager.rs\<close>.
  \<^item> \<open>CollateralPosition\<close>, \<open>CollateralRouter\<close>, \<open>CollateralManager\<close>: the files of the same names.
  \<^item> \<open>IndexOrder\<close>, \<open>IndexOrderManager\<close> and its runs \<open>IndexOrderRuns\<close>: \<open>index_order.rs\<close>,
    \<open>index_order_manager.rs\<close>. \<open>SolverOrder\<close>: \<open>solver_order/solver_order.rs\<close>. \<open>Server\<close>: the messages
    of \<open>server/server.rs\<close>. \<open>MintInvoice\<close>: \<open>mint_invoice.rs\<close>, \<open>mint_invoice_manager.rs\<close>.
    \<open>Persistence\<close>, \<open>FilePersistence\<close>: \<open>core/persistence.rs\<close>, the provider in memory and
    the one the application uses, JSON files over a tree of directories.
  \<^item> \<open>BatchPosition\<close>, \<open>BatchManager\<close>, and the lemmas on its runs \<open>BatchLedger\<close> and \<open>BatchMint\<close>:
    \<open>batch_manager.rs\<close>.
  \<^item> \<open>SimpleSolver\<close> and its lemmas \<open>SolverStrategy\<close>: \<open>solvers/simple_solver.rs\<close>. \<open>Solver\<close> and its
    runs \<open>SolverRuns\<close>: \<open>solver.rs\<close>, \<open>solver_order_serde.rs\<close>. \<open>Quotes\<close> and its runs \<open>QuoteRuns\<close>:
    \<open>index_quote_manager.rs\<close>, \<open>index_quote.rs\<close>, \<open>solver_quote.rs\<close>.
  \<^item> \<open>Parsing\<close>: text and collected results, shared by the edges. \<open>DepthBook\<close>:
    \<open>libs/binance-market-data/src/book.rs\<close>. \<open>MarketFeed\<close>: \<open>libs/market-data/src\<close> and the checks of
    \<open>binance_subscriber.rs\<close>. \<open>TradingMarkets\<close>, \<open>OrderSessions\<close>: \<open>trading_markets.rs\<close> and the other
    files of \<open>libs/binance-order-sending/src\<close>. \<open>RateLimit\<close>: \<open>rate_limit_plugin.rs\<close> of
    \<open>libs/axum-fix-server/src/plugins\<close> and \<open>server/fix/rate_limit_config.rs\<close>. \<open>FixSessions\<close>: the
    sequence number and user plugins, \<open>server_state.rs\<close>, \<open>session.rs\<close>, \<open>session_state.rs\<close> and
    \<open>server.rs\<close> of \<open>libs/axum-fix-server/src\<close>. \<open>FixMessages\<close>: \<open>messages.rs\<close>, \<open>requests.rs\<close> and
    \<open>responses.rs\<close> of \<open>server/fix\<close>; \<open>FixServer\<close>: \<open>server_plugin.rs\<close> and \<open>server.rs\<close> there.

  How state and operations correspond. Each struct is a record with the same fields, each method a
  function that returns the new state with its result; \<open>Inl\<close> is an error, \<open>Inr\<close> a value, and
  \<open>Panic\<close> an outcome of its own where the code can panic. A function keeps the state an early return
  leaves behind, half done or not. What a component publishes, answers or sends is not handled
  during the call: it goes through a channel, so it is recorded in order, and comes back as an event
  of the next handler. Objects shared by reference (the solver's orders, quotes, batch statuses) live
  in lists that stand for the heap and are named by their index; the solver lends the heap of its
  orders to the batch manager for each call (\<open>with_batches\<close>), and the manager's requests to its host
  are answered from the state that the earlier requests of the same call have left (\<open>replay\<close>).

  Parameters. \<open>Decimal\<close> is not part of the repository: \<open>dec_ops\<close> holds its checked operations, and
  the laws a property needs are named hypotheses that its documentation states: \<open>dec_exact\<close> (sums and
  differences that do not overflow are exact), \<open>dec_rounds\<close> (products and quotients are within a
  rounding step), \<open>dec_signs\<close>, \<open>dec_mul_share\<close>, \<open>dec_total\<close>. \<open>dec_upto\<close>, decimals of bounded
  magnitude, satisfies all of them and serves the witnesses. Amounts are rational numbers; \<open>usize\<close>
  sums wrap as in a release build; identifiers, bridges, exchange sessions, JSON encoding, hashes, signatures and the
  order in which a hash map lists its entries are parameters too. Where the order matters a
  definition walks an association list, which stands for the order the map happens to have.

  What the lemmas show. Invariants of all runs by the interface \<open>reactive\<close>, interpreted once per
  component: books that balance, lots that account for every fill, queues with one order per user.
  Refinement: the collateral manager against a ledger of entries, the order book against a map, the
  basket manager against an observer of its events. Round trips: what one batch carries over, the
  files of invoices, the solver's snapshot. The contract \<open>strategy\<close> is what the solver relies on when it hands
  out a batch; it is interpreted by the simple solver, and the placement of every order of a batch
  rests on it alone. Termination and progress: the solver's loops over its queues, routes that
  arrive, waiting periods that suffice. Errors: what each failure leaves behind, including those
  that lose orders. Theorems that show a flaw state what the code does.

  Bounds and fuel. No definition that models code uses fuel (the helper \<open>follow\<close> of \<open>CollateralRouter\<close>
  counts the answers of bridges it carries back to the router, which a route bounds): the loops over
  queues and lists are structural or have a
  measure (\<open>serve_more_clients\<close> and \<open>take_quotes\<close> shorten their queue at each step). The witnesses
  evaluate with decimals up to a thousand or a million, far above the amounts in them.

  Not modelled. Loading and storing the components other than the invoices and the solver's
  orders; links, other processes and failing reads in the file system; tracing output and its
  baggage, the periodic snapshot of the inventory; the wiring,
  threads and configuration of \<open>src/app\<close> and \<open>src/main.rs\<close>; the HTTP query service; the websocket
  streams and REST calls of the Binance and Bitget clients and the EVM connectors, which are remote
  services behind the parameters of \<open>OrderSessions\<close>, \<open>DepthBook\<close> and the
  solver; the applications, examples and deprecated crates beside the engine.
\<close>

end
